(* ===== verification/Prelude.thy ===== *)
theory Prelude
  imports Main
    "HOL-Library.List_Lexorder"
    "HOL-Library.Char_ord"
    "HOL-Library.Product_Lexorder"
begin

text \<open>
  Shared vocabulary of the development: the identifiers and strings of the code, JavaScript's
  truthiness, the string methods the code calls, database tables as lists of rows with the
  Prisma calls the code makes on them (\<open>findFirst\<close>, \<open>updateMany\<close>, \<open>count\<close>), and the named
  collections of rewrite rules that the component theories extend.

  A JavaScript string is a list of characters (code units up to 255); a nullable column is an
  option; a time is an integer number of milliseconds.
\<close>

named_theorems table_simps "rewrite rules for tables of rows"
named_theorems step_defs "definitions of the handlers' steps"

type_synonym id = string
type_synonym time = int

section \<open>JavaScript values\<close>

text \<open>\<open>!!x\<close> for \<open>x : string | null | undefined\<close>: the empty string is falsy as well.\<close>

definition truthy :: "string option \<Rightarrow> bool" where
  "truthy x = (case x of None \<Rightarrow> False | Some s \<Rightarrow> s \<noteq> [])"

lemma truthy_simps [simp]:
  "\<not> truthy None"
  "truthy (Some s) \<longleftrightarrow> s \<noteq> []"
  by (simp_all add: truthy_def)

lemma truthyE: "truthy x \<Longrightarrow> (\<And>s. x = Some s \<Longrightarrow> s \<noteq> [] \<Longrightarrow> P) \<Longrightarrow> P"
  by (cases x) auto

text \<open>\<open>a ?? b\<close> where \<open>a\<close> and \<open>b\<close> are both nullable, and where \<open>b\<close> is not.\<close>

definition coalesce :: "'a option \<Rightarrow> 'a option \<Rightarrow> 'a option" where
  "coalesce a b = (case a of None \<Rightarrow> b | Some _ \<Rightarrow> a)"

definition or_else :: "'a option \<Rightarrow> 'a \<Rightarrow> 'a" where
  "or_else a b = (case a of None \<Rightarrow> b | Some x \<Rightarrow> x)"

lemma coalesce_simps [simp]:
  "coalesce None b = b"
  "coalesce (Some x) b = Some x"
  by (simp_all add: coalesce_def)

lemma or_else_simps [simp]:
  "or_else None b = b"
  "or_else (Some x) b = x"
  by (simp_all add: or_else_def)

text \<open>\<open>...(v !== undefined ? { f: v } : {})\<close>: an optional write keeps the column when absent.\<close>

definition write_opt :: "'a option \<Rightarrow> 'a option \<Rightarrow> 'a option" where
  "write_opt v old = coalesce v old"

lemma write_opt_simps [simp]:
  "write_opt None old = old"
  "write_opt (Some x) old = Some x"
  by (simp_all add: write_opt_def)

section \<open>JavaScript strings\<close>

definition js_space :: "char \<Rightarrow> bool" where
  "js_space c = (of_char c \<in> {9, 10, 11, 12, 13, 32, 160 :: nat})"

text \<open>The classes \<open>\\d\<close> and \<open>\\w\<close> of a regular expression.\<close>

definition is_digit :: "char \<Rightarrow> bool" where
  "is_digit c \<longleftrightarrow> (48::nat) \<le> of_char c \<and> of_char c \<le> (57::nat)"

definition is_word_char :: "char \<Rightarrow> bool" where
  "is_word_char c \<longleftrightarrow> is_digit c \<or> c = CHR ''_'' \<or>
     (65::nat) \<le> of_char c \<and> of_char c \<le> (90::nat) \<or> (97::nat) \<le> of_char c \<and> of_char c \<le> (122::nat)"

definition trim_start :: "string \<Rightarrow> string" where
  "trim_start s = dropWhile js_space s"

definition trim :: "string \<Rightarrow> string" where
  "trim s = rev (trim_start (rev (trim_start s)))"

text \<open>\<open>s.slice(0, n)\<close> and \<open>s.slice(-n)\<close> for positive \<open>n\<close>.\<close>

definition slice_to :: "nat \<Rightarrow> string \<Rightarrow> string" where
  "slice_to n s = take n s"

definition slice_last :: "nat \<Rightarrow> string \<Rightarrow> string" where
  "slice_last n s = drop (length s - n) s"

definition starts_with :: "string \<Rightarrow> string \<Rightarrow> bool" where
  "starts_with p s = (take (length p) s = p)"

text \<open>\<open>s.includes(p)\<close>.\<close>

fun str_includes :: "string \<Rightarrow> string \<Rightarrow> bool" where
  "str_includes p [] = (p = [])"
| "str_includes p (c # s) = (starts_with p (c # s) \<or> str_includes p s)"

text \<open>A number in a template string: its decimal digits.\<close>

fun digits :: "nat \<Rightarrow> string" where
  "digits n = (if n < 10 then [char_of (48 + n)] else digits (n div 10) @ [char_of (48 + n mod 10)])"

declare digits.simps [simp del]

definition int_digits :: "int \<Rightarrow> string" where
  "int_digits i = (if i < 0 then ''-'' @ digits (nat (- i)) else digits (nat i))"

lemma length_slice_to: "length (slice_to n s) \<le> n"
  by (simp add: slice_to_def)

lemma length_slice_last: "length (slice_last n s) \<le> n"
  by (simp add: slice_last_def)

lemma starts_with_append [simp]: "starts_with p (p @ s)"
  by (simp add: starts_with_def)

lemma length_dropWhile_le': "length (dropWhile P s) \<le> length s"
  by (rule length_dropWhile_le)

lemma length_trim: "length (trim s) \<le> length s"
proof -
  have "length (trim s) \<le> length (trim_start s)"
    unfolding trim_def trim_start_def
    by (metis length_dropWhile_le length_rev)
  also have "\<dots> \<le> length s"
    by (simp add: trim_start_def length_dropWhile_le)
  finally show ?thesis .
qed

fun join :: "string \<Rightarrow> string list \<Rightarrow> string" where
  "join sep [] = []"
| "join sep [x] = x"
| "join sep (x # y # zs) = x @ sep @ join sep (y # zs)"

section \<open>Tables\<close>

text \<open>
  \<open>updateMany({where: p, data: f})\<close>, \<open>count({where: p})\<close> and the first row in an order
  (\<open>ORDER BY key LIMIT 1\<close>). The order of rows with equal keys is the order of the table,
  which the theorems leave arbitrary.
\<close>

definition update_where :: "('r \<Rightarrow> bool) \<Rightarrow> ('r \<Rightarrow> 'r) \<Rightarrow> 'r list \<Rightarrow> 'r list" where
  "update_where p f rs = map (\<lambda>r. if p r then f r else r) rs"

definition count_where :: "('r \<Rightarrow> bool) \<Rightarrow> 'r list \<Rightarrow> nat" where
  "count_where p rs = length (filter p rs)"

definition first_by :: "('r \<Rightarrow> 'k::linorder) \<Rightarrow> ('r \<Rightarrow> bool) \<Rightarrow> 'r list \<Rightarrow> 'r option" where
  "first_by key p rs = (case sort_key key (filter p rs) of [] \<Rightarrow> None | r # _ \<Rightarrow> Some r)"

definition find_by :: "('r \<Rightarrow> 'k) \<Rightarrow> 'k \<Rightarrow> 'r list \<Rightarrow> 'r option" where
  "find_by key k rs = find (\<lambda>r. key r = k) rs"

lemma update_where_simps [simp, table_simps]:
  "update_where p f [] = []"
  "update_where p f (r # rs) = (if p r then f r else r) # update_where p f rs"
  by (simp_all add: update_where_def)

lemma length_update_where [simp]: "length (update_where p f rs) = length rs"
  by (simp add: update_where_def)

lemma set_update_where: "set (update_where p f rs) = (\<lambda>r. if p r then f r else r) ` set rs"
  by (simp add: update_where_def)

lemma update_whereE:
  assumes "x \<in> set (update_where p f rs)"
  obtains r where "r \<in> set rs" "x = (if p r then f r else r)"
  using assms unfolding set_update_where by blast

lemma in_update_where: "r \<in> set rs \<Longrightarrow> p r \<Longrightarrow> f r \<in> set (update_where p f rs)"
  by (induction rs) auto

lemma update_where_id: "(\<And>r. r \<in> set rs \<Longrightarrow> p r \<Longrightarrow> f r = r) \<Longrightarrow> update_where p f rs = rs"
  by (induction rs) auto

lemma update_where_none: "(\<And>r. r \<in> set rs \<Longrightarrow> \<not> p r) \<Longrightarrow> update_where p f rs = rs"
  by (rule update_where_id) blast

lemma map_update_where:
  "(\<And>r. p r \<Longrightarrow> g (f r) = g r) \<Longrightarrow> map g (update_where p f rs) = map g rs"
  by (induction rs) auto

lemma map_update_where_eq:
  "map g (update_where p f rs) = map (\<lambda>r. if p r then g (f r) else g r) rs"
  by (induction rs) auto

lemma filter_update_where:
  "(\<And>r. p r \<Longrightarrow> q (f r) = q r) \<Longrightarrow> filter q (update_where p f rs) = update_where p f (filter q rs)"
  by (induction rs) auto

lemma update_where_update_where:
  "(\<And>r. p r \<Longrightarrow> p (f r)) \<Longrightarrow> update_where p g (update_where p f rs) = update_where p (\<lambda>r. g (f r)) rs"
  by (induction rs) auto

lemma update_where_commute_frame:
  "(\<And>r. p r \<Longrightarrow> \<not> q r) \<Longrightarrow> (\<And>r. p r \<Longrightarrow> \<not> q (f r)) \<Longrightarrow>
   filter q (update_where p f rs) = filter q rs"
  by (induction rs) auto

lemma find_by_Some:
  "find_by key k rs = Some r \<Longrightarrow> r \<in> set rs \<and> key r = k"
  unfolding find_by_def by (induction rs) (auto split: if_splits)

lemma find_by_None: "find_by key k rs = None \<longleftrightarrow> k \<notin> key ` set rs"
  unfolding find_by_def by (induction rs) auto

lemma find_by_unique:
  "distinct (map key rs) \<Longrightarrow> r \<in> set rs \<Longrightarrow> key r = k \<Longrightarrow> find_by key k rs = Some r"
  unfolding find_by_def by (induction rs) (auto simp: image_iff)

lemma find_by_Cons: "find_by key k (r # rs) = (if key r = k then Some r else find_by key k rs)"
  by (simp add: find_by_def)

lemma find_by_Nil: "find_by key k [] = None"
  by (simp add: find_by_def)

lemmas find_by_simps = find_by_Nil find_by_Cons

lemma find_by_update_where:
  "(\<And>r. key (f r) = key r) \<Longrightarrow>
   find_by key k (update_where p f rs) = map_option (\<lambda>r. if p r then f r else r) (find_by key k rs)"
  by (induction rs) (auto simp: find_by_simps)

lemma find_by_update_where_frame:
  "(\<And>r. key (f r) = key r) \<Longrightarrow> (\<And>r. key r = k \<Longrightarrow> \<not> p r) \<Longrightarrow>
   find_by key k (update_where p f rs) = find_by key k rs"
  by (induction rs) (auto simp: find_by_simps)

lemma find_by_unique_row:
  "distinct (map key rs) \<Longrightarrow> find_by key k rs = Some r \<Longrightarrow> x \<in> set rs \<Longrightarrow> key x = k \<Longrightarrow> x = r"
  using find_by_unique [of key rs x k] by simp

lemma update_where_same_row:
  assumes "distinct (map key rs)" and "find_by key k rs = Some r" and "f r = r"
  shows "update_where (\<lambda>x. key x = k) f rs = rs"
  using find_by_unique_row [OF assms(1,2)] assms(3) by (intro update_where_id) blast

lemma find_by_append:
  "find_by key k (rs @ ss) = (case find_by key k rs of None \<Rightarrow> find_by key k ss | Some r \<Rightarrow> Some r)"
  by (induction rs) (auto simp: find_by_simps)

lemma first_by_Some: "first_by key p rs = Some r \<Longrightarrow> r \<in> set rs \<and> p r"
proof -
  assume "first_by key p rs = Some r"
  then obtain ys where "sort_key key (filter p rs) = r # ys"
    by (auto simp: first_by_def split: list.splits)
  then have "r \<in> set (sort_key key (filter p rs))" by simp
  then show "r \<in> set rs \<and> p r" by simp
qed

lemma first_by_None: "first_by key p rs = None \<longleftrightarrow> (\<forall>r \<in> set rs. \<not> p r)"
proof -
  have "sort_key key (filter p rs) = [] \<longleftrightarrow> filter p rs = []"
    by (metis length_0_conv length_sort)
  then show ?thesis
    by (auto simp: first_by_def filter_empty_conv split: list.splits)
qed

lemma first_by_least:
  assumes "first_by key p rs = Some r" and "s \<in> set rs" and "p s"
  shows "key r \<le> key s"
proof -
  obtain ys where ys: "sort_key key (filter p rs) = r # ys"
    using assms(1) by (auto simp: first_by_def split: list.splits)
  have "sorted (map key (r # ys))"
    using sorted_sort_key [of key "filter p rs"] by (simp add: ys)
  moreover have "s \<in> set (sort_key key (filter p rs))"
    using assms(2,3) by simp
  then have "s \<in> set (r # ys)"
    by (simp only: ys)
  ultimately show ?thesis by auto
qed

lemma count_where_0: "count_where p rs = 0 \<longleftrightarrow> (\<forall>r \<in> set rs. \<not> p r)"
  by (simp add: count_where_def filter_empty_conv)

text \<open>Deleting rows: \<open>deleteMany({where: p})\<close>.\<close>

definition delete_where :: "('r \<Rightarrow> bool) \<Rightarrow> 'r list \<Rightarrow> 'r list" where
  "delete_where p rs = filter (\<lambda>r. \<not> p r) rs"

lemma set_delete_where [simp]: "set (delete_where p rs) = {r \<in> set rs. \<not> p r}"
  by (auto simp: delete_where_def)

section \<open>Results\<close>

text \<open>Sequencing of fallible steps; an error (\<open>Inl\<close>) stops the sequence.\<close>

definition and_then :: "'e + 'a \<Rightarrow> ('a \<Rightarrow> 'e + 'b) \<Rightarrow> 'e + 'b" where
  "and_then r k = (case r of Inl e \<Rightarrow> Inl e | Inr x \<Rightarrow> k x)"

lemma and_then_simps [simp]:
  "and_then (Inl e) k = Inl e"
  "and_then (Inr x) k = k x"
  by (simp_all add: and_then_def)

lemma and_then_Inr_iff: "and_then r k = Inr y \<longleftrightarrow> (\<exists>x. r = Inr x \<and> k x = Inr y)"
  by (cases r) simp_all

definition or_throw :: "'e \<Rightarrow> 'a option \<Rightarrow> 'e + 'a" where
  "or_throw e x = (case x of None \<Rightarrow> Inl e | Some y \<Rightarrow> Inr y)"

lemma or_throw_simps [simp]:
  "or_throw e None = Inl e"
  "or_throw e (Some y) = Inr y"
  by (simp_all add: or_throw_def)

end
