(* ===== verification/Flow_Machines.thy ===== *)
theory Flow_Machines
  imports Prelude
begin

text \<open>
  The three pure state machines of \<open>src/src/flow\<close>: the pull request of a story or sprint
  (\<open>pr-flow.ts\<close>), a sprint run (\<open>sprint-run.ts\<close>) and the lease on a job's worktrees
  (\<open>worktree-lease.ts\<close>). Each is a total function from a state and an event to the next state
  and a list of declarative effects. The locale \<open>flow_machine\<close> is the contract the three
  share; each machine is an interpretation of it.
\<close>

section \<open>Effects\<close>

record pause_draft =
  pause_reason :: string
  pause_pr_url :: string
  pause_pr_head_sha :: string
  pause_conflict_files :: "string list"
  pause_resume_instructions :: string
  pause_paused_at :: time

record pause_context = pause_draft +
  claude_question_id :: id

datatype run_status = RUN_QUEUED | RUN_RUNNING | RUN_PAUSED | RUN_DONE | RUN_FAILED | RUN_CANCELLED

datatype flow_effect =
    RELEASE_WORKTREE_LOCKS id
  | ENABLE_AUTO_MERGE string string
  | MARK_PR_READY string
  | CREATE_CLAUDE_QUESTION id string "string list"
  | CLOSE_CLAUDE_QUESTION id
  | SET_SPRINT_RUN_STATUS id run_status "pause_draft option" bool

section \<open>The contract of a flow machine\<close>

text \<open>Feeding a sequence of events: the last state and all effects in order.\<close>

fun run_flow :: "('s \<Rightarrow> 'e \<Rightarrow> 's \<times> 'f list) \<Rightarrow> 's \<Rightarrow> 'e list \<Rightarrow> 's \<times> 'f list" where
  "run_flow step s [] = (s, [])"
| "run_flow step s (e # es) =
     (let (s', fs) = step s e; (t, gs) = run_flow step s' es in (t, fs @ gs))"

locale flow_machine =
  fixes step :: "'s \<Rightarrow> 'e \<Rightarrow> 's \<times> 'f list"
    and same :: "'s \<Rightarrow> 's \<Rightarrow> bool"
    and final :: "'s \<Rightarrow> bool"
  assumes same_refl: "same s s"
    and same_trans: "same s t \<Longrightarrow> same t u \<Longrightarrow> same s u"
    and step_same: "same s (fst (step s e))"
    and final_step: "final s \<Longrightarrow> step s e = (s, [])"
begin

lemma run_same: "same s (fst (run_flow step s es))"
proof (induction es arbitrary: s)
  case Nil
  show ?case by (simp add: same_refl)
next
  case (Cons e es)
  obtain s' fs where s': "step s e = (s', fs)" by fastforce
  with step_same [of s e] have "same s s'" by simp
  moreover have "same s' (fst (run_flow step s' es))" by (rule Cons.IH)
  ultimately show ?case
    by (auto simp: s' split: prod.splits intro: same_trans)
qed

lemma run_final: "final s \<Longrightarrow> run_flow step s es = (s, [])"
  by (induction es) (simp_all add: final_step)

lemma run_append:
  "run_flow step s (es @ ds) =
     (let (t, fs) = run_flow step s es; (u, gs) = run_flow step t ds in (u, fs @ gs))"
  by (induction es arbitrary: s) (auto split: prod.splits)

text \<open>
  A state function that each step's effects account for is accounted for along a whole run:
  the way the executor's effects keep up with the state.
\<close>

lemma run_simulates:
  assumes "\<And>s e. obs (fst (step s e)) = fold eff (snd (step s e)) (obs s)"
  shows "obs (fst (run_flow step s es)) = fold eff (snd (run_flow step s es)) (obs s)"
proof (induction es arbitrary: s)
  case Nil
  show ?case by simp
next
  case (Cons e es)
  obtain s' fs where s': "step s e = (s', fs)" by fastforce
  with assms [of s e] have "obs s' = fold eff fs (obs s)" by simp
  with Cons.IH [of s'] show ?case
    by (auto simp: s' split: prod.splits)
qed

end

section \<open>Pull request flow\<close>

datatype flow_strategy = BY_STORY | BY_SPRINT

datatype merge_fail = CHECKS_FAILED | MERGE_CONFLICTED | GH_AUTH_ERROR | AUTO_MERGE_NOT_ALLOWED | MERGE_UNKNOWN

datatype pr_state =
    Pr_none flow_strategy
  | Pr_branch_pushed flow_strategy "string option"
  | Pr_opened string
  | Pr_draft_opened string
  | Pr_waiting_for_checks string string
  | Pr_auto_merge_enabled string string
  | Pr_ready_for_review string
  | Pr_merged flow_strategy string
  | Pr_checks_failed flow_strategy string
  | Pr_merge_conflict_paused flow_strategy string string

datatype pr_event =
    PR_CREATED string
  | PR_TASK_DONE id string
  | STORY_COMPLETED id string
  | SPRINT_COMPLETED id
  | MERGE_RESULT "merge_fail option"

fun pr_strategy_of :: "pr_state \<Rightarrow> flow_strategy" where
  "pr_strategy_of (Pr_none st) = st"
| "pr_strategy_of (Pr_branch_pushed st _) = st"
| "pr_strategy_of (Pr_opened _) = BY_STORY"
| "pr_strategy_of (Pr_draft_opened _) = BY_SPRINT"
| "pr_strategy_of (Pr_waiting_for_checks _ _) = BY_STORY"
| "pr_strategy_of (Pr_auto_merge_enabled _ _) = BY_STORY"
| "pr_strategy_of (Pr_ready_for_review _) = BY_SPRINT"
| "pr_strategy_of (Pr_merged st _) = st"
| "pr_strategy_of (Pr_checks_failed st _) = st"
| "pr_strategy_of (Pr_merge_conflict_paused st _ _) = st"

fun pr_url_of :: "pr_state \<Rightarrow> string option" where
  "pr_url_of (Pr_none _) = None"
| "pr_url_of (Pr_branch_pushed _ _) = None"
| "pr_url_of (Pr_opened u) = Some u"
| "pr_url_of (Pr_draft_opened u) = Some u"
| "pr_url_of (Pr_waiting_for_checks u _) = Some u"
| "pr_url_of (Pr_auto_merge_enabled u _) = Some u"
| "pr_url_of (Pr_ready_for_review u) = Some u"
| "pr_url_of (Pr_merged _ u) = Some u"
| "pr_url_of (Pr_checks_failed _ u) = Some u"
| "pr_url_of (Pr_merge_conflict_paused _ u _) = Some u"

definition pr_transition :: "pr_state \<Rightarrow> pr_event \<Rightarrow> pr_state \<times> flow_effect list" where
  "pr_transition s e = (case s of
     \<comment> \<open>strategy STORY\<close>
     Pr_none BY_STORY \<Rightarrow> (case e of PR_CREATED u \<Rightarrow> (Pr_opened u, []) | _ \<Rightarrow> (s, []))
   | Pr_branch_pushed BY_STORY _ \<Rightarrow> (case e of PR_CREATED u \<Rightarrow> (Pr_opened u, []) | _ \<Rightarrow> (s, []))
   | Pr_opened u \<Rightarrow> (case e of
         STORY_COMPLETED _ sha \<Rightarrow> (Pr_waiting_for_checks u sha, [ENABLE_AUTO_MERGE u sha])
       | _ \<Rightarrow> (s, []))
   | Pr_waiting_for_checks u sha \<Rightarrow> (case e of
         MERGE_RESULT None \<Rightarrow> (Pr_auto_merge_enabled u sha, [])
       | MERGE_RESULT (Some MERGE_CONFLICTED) \<Rightarrow> (Pr_merge_conflict_paused BY_STORY u sha, [])
       | MERGE_RESULT (Some CHECKS_FAILED) \<Rightarrow> (Pr_checks_failed BY_STORY u, [])
       | _ \<Rightarrow> (s, []))
     \<comment> \<open>strategy SPRINT\<close>
   | Pr_none BY_SPRINT \<Rightarrow> (case e of PR_CREATED u \<Rightarrow> (Pr_draft_opened u, []) | _ \<Rightarrow> (s, []))
   | Pr_branch_pushed BY_SPRINT _ \<Rightarrow> (case e of PR_CREATED u \<Rightarrow> (Pr_draft_opened u, []) | _ \<Rightarrow> (s, []))
   | Pr_draft_opened u \<Rightarrow> (case e of
         SPRINT_COMPLETED _ \<Rightarrow> (Pr_ready_for_review u, [MARK_PR_READY u])
       | _ \<Rightarrow> (s, []))
     \<comment> \<open>every other transition keeps the state\<close>
   | _ \<Rightarrow> (s, []))"

lemmas pr_splits = pr_state.split pr_event.split flow_strategy.split option.split merge_fail.split

fun pr_final :: "pr_state \<Rightarrow> bool" where
  "pr_final (Pr_auto_merge_enabled _ _) = True"
| "pr_final (Pr_ready_for_review _) = True"
| "pr_final (Pr_merged _ _) = True"
| "pr_final (Pr_checks_failed _ _) = True"
| "pr_final (Pr_merge_conflict_paused _ _ _) = True"
| "pr_final _ = False"

definition pr_same :: "pr_state \<Rightarrow> pr_state \<Rightarrow> bool" where
  "pr_same s t \<longleftrightarrow> pr_strategy_of t = pr_strategy_of s \<and>
     (\<forall>u. pr_url_of s = Some u \<longrightarrow> pr_url_of t = Some u)"

lemma pr_transition_same: "pr_same s (fst (pr_transition s e))"
  by (auto simp: pr_same_def pr_transition_def split: pr_splits)

lemma pr_final_step: "pr_final s \<Longrightarrow> pr_transition s e = (s, [])"
  by (cases s) (simp_all add: pr_transition_def)

interpretation pr: flow_machine pr_transition pr_same pr_final
proof unfold_locales
  show "pr_same s (fst (pr_transition s e))" for s e by (rule pr_transition_same)
  show "pr_final s \<Longrightarrow> pr_transition s e = (s, [])" for s e by (rule pr_final_step)
qed (auto simp: pr_same_def)

text \<open>The effects a state may still cause: a bound that each step pays for.\<close>

fun pr_budget :: "pr_state \<Rightarrow> nat" where
  "pr_budget (Pr_none _) = 1"
| "pr_budget (Pr_branch_pushed _ _) = 1"
| "pr_budget (Pr_opened _) = 1"
| "pr_budget (Pr_draft_opened _) = 1"
| "pr_budget _ = 0"

lemma pr_step_budget: "length (snd (pr_transition s e)) + pr_budget (fst (pr_transition s e)) \<le> pr_budget s"
  by (auto simp: pr_transition_def split: pr_splits)

lemma pr_run_budget:
  "length (snd (run_flow pr_transition s es)) + pr_budget (fst (run_flow pr_transition s es)) \<le> pr_budget s"
proof (induction es arbitrary: s)
  case Nil
  show ?case by simp
next
  case (Cons e es)
  obtain s' fs where s': "pr_transition s e = (s', fs)" by fastforce
  show ?case using pr_step_budget [of s e] Cons.IH [of s']
    by (auto simp: s' split: prod.splits)
qed

lemma pr_budget_le_1: "pr_budget s \<le> 1"
  by (cases s) auto

definition pr_effect_ok :: "flow_strategy \<Rightarrow> flow_effect \<Rightarrow> bool" where
  "pr_effect_ok st f = (case st of
     BY_STORY \<Rightarrow> (\<exists>u sha. f = ENABLE_AUTO_MERGE u sha)
   | BY_SPRINT \<Rightarrow> (\<exists>u. f = MARK_PR_READY u))"

lemma pr_step_effect_ok:
  "f \<in> set (snd (pr_transition s e)) \<Longrightarrow> pr_effect_ok (pr_strategy_of s) f"
  by (auto simp: pr_effect_ok_def pr_transition_def split: pr_state.splits pr_event.splits flow_strategy.splits option.splits merge_fail.splits)

lemma pr_run_effect_ok:
  "f \<in> set (snd (run_flow pr_transition s es)) \<Longrightarrow> pr_effect_ok (pr_strategy_of s) f"
proof (induction es arbitrary: s)
  case Nil
  then show ?case by simp
next
  case (Cons e es)
  obtain s' fs where s': "pr_transition s e = (s', fs)" by fastforce
  have "pr_strategy_of s' = pr_strategy_of s"
    using pr_transition_same [of s e] by (simp add: s' pr_same_def)
  moreover have "f \<in> set fs \<or> f \<in> set (snd (run_flow pr_transition s' es))"
    using Cons.prems by (auto simp: s' split: prod.splits)
  ultimately show ?case
    using Cons.IH [of s'] pr_step_effect_ok [of f s e] by (auto simp: s')
qed

section \<open>Sprint run\<close>

datatype sprint_kind = K_queued | K_running | K_paused_merge_conflict | K_done | K_failed | K_cancelled

record sprint_state =
  ss_kind :: sprint_kind
  ss_run_id :: id
  ss_pause :: "pause_context option"

datatype sprint_event =
    CLAIM_FIRST_JOB
  | SR_TASK_DONE id
  | SR_TASK_FAILED id string
  | SR_MERGE_CONFLICT string string "string list" string
  | USER_RESUMED
  | USER_CANCELLED
  | ALL_DONE

text \<open>\<open>now\<close> is the clock reading that the code takes with \<open>new Date()\<close>.\<close>

fun sprint_transition :: "time \<Rightarrow> sprint_state \<Rightarrow> sprint_event \<Rightarrow> sprint_state \<times> flow_effect list" where
  "sprint_transition now s e = (case (ss_kind s, e) of
     (K_queued, CLAIM_FIRST_JOB) \<Rightarrow>
       (s\<lparr>ss_kind := K_running\<rparr>, [SET_SPRINT_RUN_STATUS (ss_run_id s) RUN_RUNNING None False])
   | (K_running, SR_TASK_DONE _) \<Rightarrow> (s, [])
   | (K_running, SR_TASK_FAILED _ _) \<Rightarrow>
       (s\<lparr>ss_kind := K_failed\<rparr>, [SET_SPRINT_RUN_STATUS (ss_run_id s) RUN_FAILED None False])
   | (K_running, ALL_DONE) \<Rightarrow>
       (s\<lparr>ss_kind := K_done\<rparr>, [SET_SPRINT_RUN_STATUS (ss_run_id s) RUN_DONE None False])
   | (K_running, SR_MERGE_CONFLICT url sha files instr) \<Rightarrow>
       (s\<lparr>ss_kind := K_paused_merge_conflict\<rparr>,
        [CREATE_CLAUDE_QUESTION (ss_run_id s) url files,
         SET_SPRINT_RUN_STATUS (ss_run_id s) RUN_PAUSED
           (Some \<lparr>pause_reason = ''MERGE_CONFLICT'', pause_pr_url = url, pause_pr_head_sha = sha,
                  pause_conflict_files = files, pause_resume_instructions = instr,
                  pause_paused_at = now\<rparr>) False])
   | (K_running, USER_CANCELLED) \<Rightarrow>
       (s\<lparr>ss_kind := K_cancelled\<rparr>, [SET_SPRINT_RUN_STATUS (ss_run_id s) RUN_CANCELLED None False])
   | (K_paused_merge_conflict, USER_RESUMED) \<Rightarrow>
       (s\<lparr>ss_kind := K_running, ss_pause := None\<rparr>,
        (case ss_pause s of Some p \<Rightarrow> [CLOSE_CLAUDE_QUESTION (claude_question_id p)] | None \<Rightarrow> [])
        @ [SET_SPRINT_RUN_STATUS (ss_run_id s) RUN_RUNNING None True])
   | (K_paused_merge_conflict, USER_CANCELLED) \<Rightarrow>
       (s\<lparr>ss_kind := K_cancelled, ss_pause := None\<rparr>,
        [SET_SPRINT_RUN_STATUS (ss_run_id s) RUN_CANCELLED None True])
   | _ \<Rightarrow> (s, []))"

declare sprint_transition.simps [simp del]

definition sprint_final :: "sprint_state \<Rightarrow> bool" where
  "sprint_final s \<longleftrightarrow> ss_kind s \<in> {K_done, K_failed, K_cancelled}"

definition sprint_same :: "sprint_state \<Rightarrow> sprint_state \<Rightarrow> bool" where
  "sprint_same s t \<longleftrightarrow> ss_run_id t = ss_run_id s"

lemmas sprint_transition_split = sprint_transition.simps sprint_kind.split sprint_event.split option.split

text \<open>An event together with the clock reading at which it is handled.\<close>

definition sprint_timed :: "sprint_state \<Rightarrow> time \<times> sprint_event \<Rightarrow> sprint_state \<times> flow_effect list" where
  "sprint_timed s te = sprint_transition (fst te) s (snd te)"

interpretation sprint: flow_machine sprint_timed sprint_same sprint_final
  by unfold_locales
    (auto simp: sprint_timed_def sprint_same_def sprint_final_def sprint_transition.simps
      split: sprint_kind.split sprint_event.split)

text \<open>
  The status column a sprint run should have in each state, and what an effect does to the
  column of one run. The machine's effects implement its states: after any sequence of events
  the column agrees with the state.
\<close>

fun status_of_kind :: "sprint_kind \<Rightarrow> run_status" where
  "status_of_kind K_queued = RUN_QUEUED"
| "status_of_kind K_running = RUN_RUNNING"
| "status_of_kind K_paused_merge_conflict = RUN_PAUSED"
| "status_of_kind K_done = RUN_DONE"
| "status_of_kind K_failed = RUN_FAILED"
| "status_of_kind K_cancelled = RUN_CANCELLED"

fun status_effect :: "flow_effect \<Rightarrow> id \<times> run_status \<Rightarrow> id \<times> run_status" where
  "status_effect (SET_SPRINT_RUN_STATUS r st _ _) (rid, old) = (rid, if r = rid then st else old)"
| "status_effect _ x = x"

definition sprint_obs :: "sprint_state \<Rightarrow> id \<times> run_status" where
  "sprint_obs s = (ss_run_id s, status_of_kind (ss_kind s))"

lemma sprint_step_obs:
  "sprint_obs (fst (sprint_timed s te)) = fold status_effect (snd (sprint_timed s te)) (sprint_obs s)"
  by (auto simp: sprint_timed_def sprint_obs_def sprint_transition.simps
      split: sprint_kind.split sprint_event.split option.split)

section \<open>Worktree lease\<close>

datatype lease_state =
    L_idle
  | L_acquiring_lock id "id list"
  | L_creating_or_reusing id "id list"
  | L_syncing id "id list"
  | L_ready id "id list"
  | L_releasing id
  | L_released id
  | L_lock_timeout id "id list"
  | L_sync_failed id "id list" string
  | L_stale_released id

datatype lease_event =
    JOB_CLAIMED id "id list"
  | LOCK_ACQUIRED
  | LOCK_TIMEOUT
  | WORKTREE_READY
  | SYNC_DONE
  | SYNC_FAILED string
  | JOB_TERMINAL id
  | STALE_RESET id

definition lease_transition :: "lease_state \<Rightarrow> lease_event \<Rightarrow> lease_state \<times> flow_effect list" where
  "lease_transition s e = (case s of
     L_idle \<Rightarrow> (case e of JOB_CLAIMED j ps \<Rightarrow> (L_acquiring_lock j ps, []) | _ \<Rightarrow> (s, []))
   | L_acquiring_lock j ps \<Rightarrow> (case e of
         LOCK_ACQUIRED \<Rightarrow> (L_creating_or_reusing j ps, [])
       | LOCK_TIMEOUT \<Rightarrow> (L_lock_timeout j ps, [])
       | _ \<Rightarrow> (s, []))
   | L_creating_or_reusing j ps \<Rightarrow> (case e of WORKTREE_READY \<Rightarrow> (L_syncing j ps, []) | _ \<Rightarrow> (s, []))
   | L_syncing j ps \<Rightarrow> (case e of
         SYNC_DONE \<Rightarrow> (L_ready j ps, [])
       | SYNC_FAILED err \<Rightarrow> (L_sync_failed j ps err, [RELEASE_WORKTREE_LOCKS j])
       | _ \<Rightarrow> (s, []))
   | L_ready j ps \<Rightarrow> (case e of
         JOB_TERMINAL _ \<Rightarrow> (L_releasing j, [RELEASE_WORKTREE_LOCKS j])
       | STALE_RESET _ \<Rightarrow> (L_stale_released j, [RELEASE_WORKTREE_LOCKS j])
       | _ \<Rightarrow> (s, []))
   | L_releasing j \<Rightarrow> (L_released j, [])
   | _ \<Rightarrow> (s, []))"

fun lease_job :: "lease_state \<Rightarrow> id option" where
  "lease_job L_idle = None"
| "lease_job (L_acquiring_lock j _) = Some j"
| "lease_job (L_creating_or_reusing j _) = Some j"
| "lease_job (L_syncing j _) = Some j"
| "lease_job (L_ready j _) = Some j"
| "lease_job (L_releasing j) = Some j"
| "lease_job (L_released j) = Some j"
| "lease_job (L_lock_timeout j _) = Some j"
| "lease_job (L_sync_failed j _ _) = Some j"
| "lease_job (L_stale_released j) = Some j"

fun lease_final :: "lease_state \<Rightarrow> bool" where
  "lease_final (L_released _) = True"
| "lease_final (L_lock_timeout _ _) = True"
| "lease_final (L_sync_failed _ _ _) = True"
| "lease_final (L_stale_released _) = True"
| "lease_final _ = False"

text \<open>The lock is held between its acquisition and its release.\<close>

fun lock_held :: "lease_state \<Rightarrow> bool" where
  "lock_held (L_creating_or_reusing _ _) = True"
| "lock_held (L_syncing _ _) = True"
| "lock_held (L_ready _ _) = True"
| "lock_held _ = False"

fun lock_given_back :: "lease_state \<Rightarrow> bool" where
  "lock_given_back (L_releasing _) = True"
| "lock_given_back (L_released _) = True"
| "lock_given_back (L_sync_failed _ _ _) = True"
| "lock_given_back (L_stale_released _) = True"
| "lock_given_back _ = False"

definition lease_same :: "lease_state \<Rightarrow> lease_state \<Rightarrow> bool" where
  "lease_same s t \<longleftrightarrow> (\<forall>j. lease_job s = Some j \<longrightarrow> lease_job t = Some j)"

lemma lease_transition_same: "lease_same s (fst (lease_transition s e))"
  by (auto simp: lease_same_def lease_transition_def split: lease_state.split lease_event.split)

lemma lease_final_step: "lease_final s \<Longrightarrow> lease_transition s e = (s, [])"
  by (cases s) (simp_all add: lease_transition_def)

interpretation lease: flow_machine lease_transition lease_same lease_final
proof unfold_locales
  show "lease_same s (fst (lease_transition s e))" for s e by (rule lease_transition_same)
  show "lease_final s \<Longrightarrow> lease_transition s e = (s, [])" for s e by (rule lease_final_step)
qed (auto simp: lease_same_def)

text \<open>Whether the lock was given back is what the release effects say.\<close>

definition lease_obs :: "lease_state \<Rightarrow> id list" where
  "lease_obs s = (if lock_given_back s then (case lease_job s of Some j \<Rightarrow> [j] | None \<Rightarrow> []) else [])"

fun release_effect :: "flow_effect \<Rightarrow> id list \<Rightarrow> id list" where
  "release_effect (RELEASE_WORKTREE_LOCKS j) js = js @ [j]"
| "release_effect _ js = js"

lemma lease_step_obs:
  "lease_obs (fst (lease_transition s e)) = fold release_effect (snd (lease_transition s e)) (lease_obs s)"
  by (auto simp: lease_obs_def lease_transition_def split: lease_state.split lease_event.split)

section \<open>Properties\<close>

text \<open>
  Whatever events arrive, the pull-request machine emits at most one effect in its life, and
  it is the one of its strategy: auto-merge for a story's pull request, ready-for-review for a
  sprint's draft (a sprint's pull request is never auto-merged). The effect names the pull
  request that the reached state carries.
\<close>

theorem pr_flow_single_effect:
  "snd (run_flow pr_transition s es) = [] \<or>
   (\<exists>u sha. pr_url_of (fst (run_flow pr_transition s es)) = Some u \<and>
      snd (run_flow pr_transition s es) =
        [case pr_strategy_of s of BY_STORY \<Rightarrow> ENABLE_AUTO_MERGE u sha | BY_SPRINT \<Rightarrow> MARK_PR_READY u])"
proof (induction es arbitrary: s)
  case Nil
  show ?case by simp
next
  case (Cons e es)
  obtain s' fs where s': "pr_transition s e = (s', fs)" by fastforce
  obtain t gs where t: "run_flow pr_transition s' es = (t, gs)" by fastforce
  have same: "pr_same s s'" using pr_transition_same [of s e] by (simp add: s')
  show ?case
  proof (cases fs)
    case Nil
    with Cons.IH [of s'] same show ?thesis by (auto simp: s' t pr_same_def)
  next
    case (Cons f fs')
    have budget: "length fs + pr_budget s' \<le> pr_budget s"
      using pr_step_budget [of s e] by (simp add: s')
    moreover have "length gs + pr_budget t \<le> pr_budget s'"
      using pr_run_budget [of s' es] by (simp add: t)
    ultimately have "length fs' = 0" and "length gs = 0"
      using pr_budget_le_1 [of s] unfolding Cons list.size by linarith+
    moreover have "\<exists>u sha. pr_url_of s' = Some u \<and>
        f = (case pr_strategy_of s of BY_STORY \<Rightarrow> ENABLE_AUTO_MERGE u sha | BY_SPRINT \<Rightarrow> MARK_PR_READY u)"
      using s' Cons by (auto simp: pr_transition_def split: pr_state.splits pr_event.splits
          flow_strategy.splits option.splits merge_fail.splits)
    moreover have "pr_same s' t" using pr.run_same [of s' es] by (simp add: t)
    ultimately show ?thesis by (auto simp: s' t Cons pr_same_def)
  qed
qed


text \<open>
  Lock discipline of a worktree lease: from the idle state, after any events, the locks
  released so far are exactly the job's own lock when the state says it was given back, and none
  otherwise; in particular a lock is never released twice and never before it was acquired.
\<close>

theorem lease_releases_once:
  "fold release_effect (snd (run_flow lease_transition L_idle es)) [] =
     lease_obs (fst (run_flow lease_transition L_idle es))"
  using lease.run_simulates [of lease_obs release_effect L_idle es] lease_step_obs
  by (simp add: lease_obs_def)

end
