(* ===== verification/Job_Types.thy ===== *)
theory Job_Types
  imports Flow_Machines
begin

text \<open>
  The data model of the job side of the server: the enums of \<open>prisma/schema.prisma\<close> as
  datatypes, its rows as records with the columns the modelled code reads or writes, and the
  database as a record of tables. Primary-key lookup (\<open>findUnique\<close>) is \<open>find_by\<close>; the predicate
  \<open>keys_ok\<close> states the primary keys of the schema.
\<close>

section \<open>Enums\<close>

datatype job_status = J_QUEUED | J_CLAIMED | J_RUNNING | J_DONE | J_FAILED | J_CANCELLED | J_SKIPPED

datatype job_kind =
    TASK_IMPLEMENTATION | IDEA_GRILL | IDEA_MAKE_PLAN | IDEA_REVIEW_PLAN | IDEA_MAKE_SPEC
  | IDEA_REVISE_SPEC | IDEA_CHAT | PLAN_CHAT | SPRINT_IMPLEMENTATION | PR_REVIEW | SPEC_REVIEW
  | TASK_REVIEW | DEPLOY | DOCS_AUDIT | QUEUE_TASK | QUEUE_REVIEW | AGENT_CHAT

datatype agent_runtime = CLAUDE | CODEX | HARNESS

datatype job_source = SYSTEM | MANUAL | ORCHESTRATOR | COPILOT

datatype task_status = T_TO_DO | T_IN_PROGRESS | T_REVIEW | T_DONE | T_FAILED | T_EXCLUDED

datatype story_status = S_OPEN | S_IN_SPRINT | S_DONE | S_FAILED

datatype pbi_status = P_READY | P_BLOCKED | P_FAILED | P_DONE

datatype sprint_status = SP_OPEN | SP_CLOSED | SP_ARCHIVED | SP_FAILED

datatype pr_strategy = BATCH_SPRINT | BATCH_STORY | BATCH_SPRINT_BATCH

datatype exec_status = E_PENDING | E_RUNNING | E_DONE | E_FAILED | E_SKIPPED

datatype verify_result = V_ALIGNED | V_PARTIAL | V_EMPTY | V_DIVERGENT

datatype verify_required = R_ALIGNED | R_ALIGNED_OR_PARTIAL | R_ANY

datatype idea_status =
    I_DRAFT | I_GRILLING | I_GRILL_FAILED | I_GRILLED | I_SPEC_DRAFTING | I_SPEC_REVIEWING
  | I_SPEC_FAILED | I_PLANNING | I_PLAN_FAILED | I_PLAN_READY | I_REVIEWING_PLAN
  | I_PLAN_REVIEW_FAILED | I_PLAN_REVIEWED | I_PLANNED

datatype worker_tier = HIGH_P | MEDIUM_P | LOW_P

text \<open>The two groups of statuses that the queries of the code list again and again.\<close>

definition active :: "job_status \<Rightarrow> bool" where
  "active s \<longleftrightarrow> s \<in> {J_QUEUED, J_CLAIMED, J_RUNNING}"

definition claimed_or_running :: "job_status \<Rightarrow> bool" where
  "claimed_or_running s \<longleftrightarrow> s \<in> {J_CLAIMED, J_RUNNING}"

lemma active_simps [simp]:
  "active J_QUEUED" "active J_CLAIMED" "active J_RUNNING"
  "\<not> active J_DONE" "\<not> active J_FAILED" "\<not> active J_CANCELLED" "\<not> active J_SKIPPED"
  by (simp_all add: active_def)

lemma claimed_or_running_simps [simp]:
  "\<not> claimed_or_running J_QUEUED" "claimed_or_running J_CLAIMED" "claimed_or_running J_RUNNING"
  "\<not> claimed_or_running J_DONE" "\<not> claimed_or_running J_FAILED"
  "\<not> claimed_or_running J_CANCELLED" "\<not> claimed_or_running J_SKIPPED"
  by (simp_all add: claimed_or_running_def)

lemma claimed_or_running_active: "claimed_or_running s \<Longrightarrow> active s"
  by (cases s) simp_all

section \<open>Rows\<close>

record usage =
  u_model_id :: "string option"
  u_input_tokens :: "nat option"
  u_output_tokens :: "nat option"
  u_cache_read_tokens :: "nat option"
  u_cache_write_tokens :: "nat option"
  u_actual_thinking_tokens :: "nat option"

record job =
  j_id :: id
  j_user_id :: id
  j_product_id :: id
  j_task_id :: "id option"
  j_idea_id :: "id option"
  j_sprint_run_id :: "id option"
  j_sprint_sequence :: "int option"
  j_kind :: job_kind
  j_status :: job_status
  j_runtime :: agent_runtime
  j_source :: job_source
  j_required_capability :: "string option"
  j_requested_model :: "string option"
  j_created_by_job_id :: "id option"
  j_orchestration_key :: "string option"
  j_claimed_by_token_id :: "id option"
  j_worker_instance_id :: "id option"
  j_claimed_at :: "time option"
  j_started_at :: "time option"
  j_finished_at :: "time option"
  j_pushed_at :: "time option"
  j_lease_until :: "time option"
  j_resolved_at :: "time option"
  j_created_at :: time
  j_retry_count :: nat
  j_verify_result :: "verify_result option"
  j_plan_snapshot :: "string option"
  j_base_sha :: "string option"
  j_head_sha :: "string option"
  j_branch :: "string option"
  j_pr_url :: "string option"
  j_summary :: "string option"
  j_error :: "string option"
  j_chat_cutoff_message_id :: "id option"
  j_chat_cutoff_at :: "time option"
  j_dispatch_request_id :: "id option"
  j_dispatch_candidate_id :: "id option"
  j_usage :: usage

record task =
  t_id :: id
  t_story_id :: id
  t_status :: task_status
  t_title :: string
  t_code :: string
  t_sort_order :: int
  t_created_at :: time
  t_updated_at :: time
  t_implementation_plan :: "string option"
  t_repo_url :: "string option"
  t_verify_only :: bool
  t_verify_required :: verify_required
  t_dispatch_request_id :: "id option"
  t_product_id :: id

record story =
  st_id :: id
  st_pbi_id :: id
  st_product_id :: id
  st_sprint_id :: "id option"
  st_status :: story_status
  st_title :: string
  st_code :: "string option"
  st_sort_order :: int
  st_created_at :: time

record pbi =
  p_id :: id
  p_status :: pbi_status
  p_title :: string
  p_code :: "string option"
  p_sort_order :: int
  p_created_at :: time

record sprint =
  sp_id :: id
  sp_product_id :: id
  sp_status :: sprint_status
  sp_goal :: string
  sp_completed_at :: "time option"

record product =
  pr_id :: id
  pr_repo_url :: "string option"
  pr_strategy :: pr_strategy
  pr_auto_pr :: bool
  pr_auto_deploy :: bool
  pr_deploy_flow :: "string option"

record quota_pause =
  qp_paused_at :: time
  qp_last_execution_id :: "id option"
  qp_last_order :: "int option"
  qp_last_task_id :: "id option"
  qp_pr_url :: "string option"
  qp_pr_head_sha :: "string option"

datatype run_pause = Merge_pause pause_context | Quota_pause quota_pause

record sprint_run =
  r_id :: id
  r_sprint_id :: id
  r_started_by_id :: id
  r_status :: run_status
  r_pr_strategy :: pr_strategy
  r_branch :: "string option"
  r_previous_run_id :: "id option"
  r_started_at :: "time option"
  r_finished_at :: "time option"
  r_failure_reason :: "string option"
  r_failed_task_id :: "id option"
  r_pause_context :: "run_pause option"
  r_created_at :: time

record execution =
  e_id :: id
  e_sprint_job_id :: id
  e_task_id :: id
  e_order :: int
  e_status :: exec_status
  e_plan_snapshot :: string
  e_verify_required :: verify_required
  e_verify_only :: bool
  e_verify_result :: "verify_result option"
  e_verify_summary :: "string option"
  e_base_sha :: "string option"
  e_head_sha :: "string option"
  e_skip_reason :: "string option"
  e_started_at :: "time option"
  e_finished_at :: "time option"

record question =
  q_id :: id
  q_product_id :: id
  q_asked_by :: id
  q_sprint_run_id :: "id option"
  q_pr_url :: string
  q_conflict_files :: "string list"
  q_text :: string
  q_open :: bool
  q_created_at :: time
  q_expires_at :: time

section \<open>The database\<close>

record db =
  jobs :: "job list"
  tasks :: "task list"
  stories :: "story list"
  pbis :: "pbi list"
  sprints :: "sprint list"
  products :: "product list"
  runs :: "sprint_run list"
  execs :: "execution list"
  questions :: "question list"
  notified :: "id list"

definition find_job :: "id \<Rightarrow> db \<Rightarrow> job option" where
  "find_job k d = find_by j_id k (jobs d)"

definition find_task :: "id \<Rightarrow> db \<Rightarrow> task option" where
  "find_task k d = find_by t_id k (tasks d)"

definition find_story :: "id \<Rightarrow> db \<Rightarrow> story option" where
  "find_story k d = find_by st_id k (stories d)"

definition find_pbi :: "id \<Rightarrow> db \<Rightarrow> pbi option" where
  "find_pbi k d = find_by p_id k (pbis d)"

definition find_sprint :: "id \<Rightarrow> db \<Rightarrow> sprint option" where
  "find_sprint k d = find_by sp_id k (sprints d)"

definition find_run :: "id \<Rightarrow> db \<Rightarrow> sprint_run option" where
  "find_run k d = find_by r_id k (runs d)"

definition find_product :: "id \<Rightarrow> db \<Rightarrow> product option" where
  "find_product k d = find_by pr_id k (products d)"

definition find_exec :: "id \<Rightarrow> db \<Rightarrow> execution option" where
  "find_exec k d = find_by e_id k (execs d)"

lemmas find_defs = find_job_def find_task_def find_story_def find_pbi_def find_sprint_def
  find_run_def find_product_def find_exec_def

definition update_jobs :: "(job \<Rightarrow> bool) \<Rightarrow> (job \<Rightarrow> job) \<Rightarrow> db \<Rightarrow> db" where
  "update_jobs p f d = d\<lparr>jobs := update_where p f (jobs d)\<rparr>"

definition update_runs :: "(sprint_run \<Rightarrow> bool) \<Rightarrow> (sprint_run \<Rightarrow> sprint_run) \<Rightarrow> db \<Rightarrow> db" where
  "update_runs p f d = d\<lparr>runs := update_where p f (runs d)\<rparr>"

text \<open>
  \<open>notifyJobChangedPrisma\<close>: a job that exists is announced on the channel; a missing row is a
  no-op. The announcements are kept in their order.
\<close>

definition notify_job :: "id \<Rightarrow> db \<Rightarrow> db" where
  "notify_job k d = (if find_job k d = None then d else d\<lparr>notified := notified d @ [k]\<rparr>)"

definition keys_ok :: "db \<Rightarrow> bool" where
  "keys_ok d \<longleftrightarrow> distinct (map j_id (jobs d)) \<and> distinct (map t_id (tasks d)) \<and>
     distinct (map st_id (stories d)) \<and> distinct (map p_id (pbis d)) \<and>
     distinct (map sp_id (sprints d)) \<and> distinct (map r_id (runs d)) \<and>
     distinct (map e_id (execs d))"

lemma find_job_Some: "find_job k d = Some j \<Longrightarrow> j \<in> set (jobs d) \<and> j_id j = k"
  unfolding find_job_def by (rule find_by_Some)

lemma find_job_id [simp]: "find_job k d = Some j \<Longrightarrow> j_id j = k"
  using find_job_Some by blast

lemma find_job_update_jobs:
  "(\<And>j. j_id (f j) = j_id j) \<Longrightarrow>
   find_job k (update_jobs p f d) = map_option (\<lambda>j. if p j then f j else j) (find_job k d)"
  by (simp add: find_job_def update_jobs_def find_by_update_where)

lemma find_run_update_runs:
  "(\<And>r. r_id (f r) = r_id r) \<Longrightarrow>
   find_run k (update_runs p f d) = map_option (\<lambda>r. if p r then f r else r) (find_run k d)"
  by (simp add: find_run_def update_runs_def find_by_update_where)

lemma update_jobs_frame [simp]:
  "tasks (update_jobs p f d) = tasks d" "stories (update_jobs p f d) = stories d"
  "pbis (update_jobs p f d) = pbis d" "sprints (update_jobs p f d) = sprints d"
  "runs (update_jobs p f d) = runs d" "execs (update_jobs p f d) = execs d"
  "products (update_jobs p f d) = products d" "questions (update_jobs p f d) = questions d"
  "notified (update_jobs p f d) = notified d"
  "jobs (update_jobs p f d) = update_where p f (jobs d)"
  by (simp_all add: update_jobs_def)

lemma update_runs_frame [simp]:
  "tasks (update_runs p f d) = tasks d" "stories (update_runs p f d) = stories d"
  "pbis (update_runs p f d) = pbis d" "sprints (update_runs p f d) = sprints d"
  "jobs (update_runs p f d) = jobs d" "execs (update_runs p f d) = execs d"
  "products (update_runs p f d) = products d" "questions (update_runs p f d) = questions d"
  "notified (update_runs p f d) = notified d"
  "runs (update_runs p f d) = update_where p f (runs d)"
  by (simp_all add: update_runs_def)

lemma notify_job_frame [simp]:
  "jobs (notify_job k d) = jobs d" "tasks (notify_job k d) = tasks d"
  "stories (notify_job k d) = stories d" "pbis (notify_job k d) = pbis d"
  "sprints (notify_job k d) = sprints d" "runs (notify_job k d) = runs d"
  "execs (notify_job k d) = execs d" "products (notify_job k d) = products d"
  "questions (notify_job k d) = questions d"
  by (simp_all add: notify_job_def)

lemma find_job_notify_job [simp]: "find_job k (notify_job i d) = find_job k d"
  by (simp add: find_job_def)

lemma fold_notify_frame [simp]:
  "jobs (fold notify_job ks d) = jobs d" "tasks (fold notify_job ks d) = tasks d"
  "stories (fold notify_job ks d) = stories d" "pbis (fold notify_job ks d) = pbis d"
  "sprints (fold notify_job ks d) = sprints d" "runs (fold notify_job ks d) = runs d"
  "execs (fold notify_job ks d) = execs d" "products (fold notify_job ks d) = products d"
  "questions (fold notify_job ks d) = questions d"
  by (induction ks arbitrary: d) simp_all

end
