(* ===== verification/Samples.thy ===== *)
theory Samples
  imports Job_Types
begin

text \<open>
  A small concrete database on which the witnesses of the component theories evaluate the model:
  one product with a PBI of two stories in one sprint, a batch run of that sprint with its job and
  executions, and a queued task job.
\<close>

definition no_usage :: usage where
  "no_usage = \<lparr>u_model_id = None, u_input_tokens = None, u_output_tokens = None,
     u_cache_read_tokens = None, u_cache_write_tokens = None, u_actual_thinking_tokens = None\<rparr>"

definition sample_job :: job where
  "sample_job = \<lparr>j_id = ''j1'', j_user_id = ''u1'', j_product_id = ''p1'', j_task_id = Some ''t1'',
     j_idea_id = None, j_sprint_run_id = None, j_sprint_sequence = None, j_kind = TASK_IMPLEMENTATION,
     j_status = J_QUEUED, j_runtime = CLAUDE, j_source = SYSTEM, j_required_capability = None,
     j_requested_model = None, j_created_by_job_id = None, j_orchestration_key = None,
     j_claimed_by_token_id = None, j_worker_instance_id = None, j_claimed_at = None,
     j_started_at = None, j_finished_at = None, j_pushed_at = None, j_lease_until = None,
     j_resolved_at = None, j_created_at = 1, j_retry_count = 0, j_verify_result = None,
     j_plan_snapshot = None, j_base_sha = None, j_head_sha = None, j_branch = None, j_pr_url = None,
     j_summary = None, j_error = None, j_chat_cutoff_message_id = None, j_chat_cutoff_at = None,
     j_dispatch_request_id = None, j_dispatch_candidate_id = None, j_usage = no_usage\<rparr>"

definition sample_task :: task where
  "sample_task = \<lparr>t_id = ''t1'', t_story_id = ''s1'', t_status = T_IN_PROGRESS, t_title = ''Task'',
     t_code = ''T1'', t_sort_order = 1, t_created_at = 1, t_updated_at = 1,
     t_implementation_plan = None, t_repo_url = None, t_verify_only = False,
     t_verify_required = R_ALIGNED_OR_PARTIAL, t_dispatch_request_id = None, t_product_id = ''p1''\<rparr>"

definition sample_story :: story where
  "sample_story = \<lparr>st_id = ''s1'', st_pbi_id = ''b1'', st_product_id = ''p1'', st_sprint_id = Some ''sp1'',
     st_status = S_IN_SPRINT, st_title = ''Story'', st_code = None, st_sort_order = 1, st_created_at = 1\<rparr>"

definition sample_pbi :: pbi where
  "sample_pbi = \<lparr>p_id = ''b1'', p_status = P_READY, p_title = ''PBI'', p_code = None,
     p_sort_order = 1, p_created_at = 1\<rparr>"

definition sample_sprint :: sprint where
  "sample_sprint = \<lparr>sp_id = ''sp1'', sp_product_id = ''p1'', sp_status = SP_OPEN, sp_goal = ''Goal'',
     sp_completed_at = None\<rparr>"

definition sample_product :: product where
  "sample_product = \<lparr>pr_id = ''p1'', pr_repo_url = None, pr_strategy = BATCH_SPRINT, pr_auto_pr = True,
     pr_auto_deploy = False, pr_deploy_flow = None\<rparr>"

definition sample_run :: sprint_run where
  "sample_run = \<lparr>r_id = ''r1'', r_sprint_id = ''sp1'', r_started_by_id = ''u1'', r_status = RUN_RUNNING,
     r_pr_strategy = BATCH_SPRINT, r_branch = None, r_previous_run_id = None, r_started_at = Some 1,
     r_finished_at = None, r_failure_reason = None, r_failed_task_id = None, r_pause_context = None,
     r_created_at = 1\<rparr>"

definition sample_exec :: execution where
  "sample_exec = \<lparr>e_id = ''e1'', e_sprint_job_id = ''j2'', e_task_id = ''t1'', e_order = 0,
     e_status = E_PENDING, e_plan_snapshot = [], e_verify_required = R_ALIGNED_OR_PARTIAL,
     e_verify_only = False, e_verify_result = None, e_verify_summary = None, e_base_sha = None,
     e_head_sha = None, e_skip_reason = None, e_started_at = None, e_finished_at = None\<rparr>"

definition sample_sprint_job :: job where
  "sample_sprint_job = sample_job\<lparr>j_id := ''j2'', j_task_id := None, j_sprint_run_id := Some ''r1'',
     j_kind := SPRINT_IMPLEMENTATION, j_status := J_RUNNING\<rparr>"

definition sample_db :: db where
  "sample_db = \<lparr>jobs = [sample_job, sample_sprint_job],
     tasks = [sample_task, sample_task\<lparr>t_id := ''t2'', t_story_id := ''s2'', t_status := T_DONE\<rparr>],
     stories = [sample_story, sample_story\<lparr>st_id := ''s2'', st_status := S_DONE\<rparr>],
     pbis = [sample_pbi], sprints = [sample_sprint], products = [sample_product], runs = [sample_run],
     execs = [sample_exec, sample_exec\<lparr>e_id := ''e2'', e_task_id := ''t2'', e_order := 1, e_status := E_DONE,
       e_verify_result := Some V_ALIGNED\<rparr>],
     questions = [], notified = []\<rparr>"

lemma sample_keys: "keys_ok sample_db"
  by code_simp

end
