(* ===== verification/Verify_Gate.thy ===== *)
theory Verify_Gate
  imports Job_Types
begin

text \<open>
  The verification gates of \<open>src/src/verify/gate.ts\<close> (one task) and
  \<open>checkSprintVerifyGate\<close> of \<open>src/src/tools/update-job-status.ts\<close> (a whole sprint batch): when a
  job may be reported as done.
\<close>

section \<open>The gate of one task\<close>

datatype gate_error =
    Gate_not_verified
  | Gate_empty
  | Gate_requires_aligned verify_result
  | Gate_requires_summary verify_result

definition SUMMARY_MIN_LENGTH :: nat where
  "SUMMARY_MIN_LENGTH = 20"

text \<open>\<open>{ allowed: true }\<close> is \<open>None\<close>, \<open>{ allowed: false, error }\<close> is \<open>Some\<close> of the error.\<close>

definition checkVerifyGate ::
  "verify_result option \<Rightarrow> bool \<Rightarrow> verify_required \<Rightarrow> string option \<Rightarrow> gate_error option" where
  "checkVerifyGate verifyResult verifyOnly verifyRequired summary =
     (case verifyResult of
        None \<Rightarrow> Some Gate_not_verified
      | Some V_EMPTY \<Rightarrow> (if verifyOnly then None else Some Gate_empty)
      | Some V_ALIGNED \<Rightarrow> None
      | Some vr \<Rightarrow>
          (if verifyRequired = R_ANY then None
           else if verifyRequired = R_ALIGNED then Some (Gate_requires_aligned vr)
           else if \<not> truthy summary \<or> length (trim (the summary)) < SUMMARY_MIN_LENGTH
             then Some (Gate_requires_summary vr)
           else None))"

text \<open>Strictness of a task's level: a result admitted by a stricter level is admitted by a laxer one.\<close>

fun strictness :: "verify_required \<Rightarrow> nat" where
  "strictness R_ANY = 0"
| "strictness R_ALIGNED_OR_PARTIAL = 1"
| "strictness R_ALIGNED = 2"

lemma checkVerifyGate_iff:
  "checkVerifyGate vr only req summary = None \<longleftrightarrow>
     vr = Some V_ALIGNED \<or>
     vr = Some V_EMPTY \<and> only \<or>
     vr \<in> {Some V_PARTIAL, Some V_DIVERGENT} \<and>
       (req = R_ANY \<or>
        req = R_ALIGNED_OR_PARTIAL \<and> (\<exists>s. summary = Some s \<and> SUMMARY_MIN_LENGTH \<le> length (trim s)))"
proof -
  have nonempty: "SUMMARY_MIN_LENGTH \<le> length (trim s) \<Longrightarrow> s \<noteq> []" for s
    using length_trim [of s] by (auto simp: SUMMARY_MIN_LENGTH_def)
  show ?thesis
    by (cases summary; cases req)
      (auto simp: checkVerifyGate_def dest: nonempty split: option.splits verify_result.splits)
qed

section \<open>The gate of a sprint batch\<close>

datatype blocker =
    Unfinished id
  | Failed_task id
  | Skipped_not_allowed id
  | Done_gate id gate_error

datatype sprint_gate_error = No_executions | Blocked "blocker list"

text \<open>The loop body: the blocker a row contributes, if any.\<close>

definition execution_blocker :: "execution \<Rightarrow> blocker option" where
  "execution_blocker e =
     (if e_status e = E_PENDING \<or> e_status e = E_RUNNING then Some (Unfinished (e_id e))
      else if e_status e = E_FAILED then Some (Failed_task (e_id e))
      else if e_status e = E_SKIPPED then
        (if e_verify_required e \<noteq> R_ANY then Some (Skipped_not_allowed (e_id e)) else None)
      else map_option (Done_gate (e_id e))
        (checkVerifyGate (e_verify_result e) (e_verify_only e) (e_verify_required e) (e_verify_summary e)))"

definition checkSprintVerifyGate :: "id \<Rightarrow> db \<Rightarrow> sprint_gate_error option" where
  "checkSprintVerifyGate sprintJobId d =
     (let executions = sort_key e_order (filter (\<lambda>e. e_sprint_job_id e = sprintJobId) (execs d));
          blockers = List.map_filter execution_blocker executions
      in if executions = [] then Some No_executions
         else if blockers = [] then None
         else Some (Blocked blockers))"

text \<open>What a finished row of a batch may look like.\<close>

definition execution_settled :: "execution \<Rightarrow> bool" where
  "execution_settled e \<longleftrightarrow>
     (e_status e = E_SKIPPED \<and> e_verify_required e = R_ANY) \<or>
     (e_status e = E_DONE \<and>
       checkVerifyGate (e_verify_result e) (e_verify_only e) (e_verify_required e) (e_verify_summary e) = None)"

lemma execution_blocker_None: "execution_blocker e = None \<longleftrightarrow> execution_settled e"
  by (cases "e_status e") (auto simp: execution_blocker_def execution_settled_def)

lemma map_filter_Nil: "List.map_filter f xs = [] \<longleftrightarrow> (\<forall>x \<in> set xs. f x = None)"
  by (induction xs) (auto simp: List.map_filter_simps split: option.splits)

section \<open>Properties\<close>

text \<open>
  The gate of one task, branch by branch: done is admitted exactly for an aligned result, an
  empty result of a verify-only task, and a partial or divergent result of a task at level ANY or,
  at level ALIGNED-OR-PARTIAL, with a summary of at least twenty characters after trimming.
\<close>

theorem verify_gate_decision:
  "checkVerifyGate vr only req summary = None \<longleftrightarrow>
     vr = Some V_ALIGNED \<or>
     vr = Some V_EMPTY \<and> only \<or>
     vr \<in> {Some V_PARTIAL, Some V_DIVERGENT} \<and>
       (req = R_ANY \<or>
        req = R_ALIGNED_OR_PARTIAL \<and> (\<exists>s. summary = Some s \<and> 20 \<le> length (trim s)))"
  by (simp add: checkVerifyGate_iff SUMMARY_MIN_LENGTH_def)

text \<open>
  A sprint batch may be reported done exactly when it has executions and every one of them is
  settled: skipped at level ANY, or done with its own frozen gate admitting it. No pending,
  running or failed task slips through.
\<close>

theorem sprint_gate_decision:
  "checkSprintVerifyGate sj d = None \<longleftrightarrow>
     filter (\<lambda>e. e_sprint_job_id e = sj) (execs d) \<noteq> [] \<and>
     list_all execution_settled (filter (\<lambda>e. e_sprint_job_id e = sj) (execs d))"
proof -
  have "sort_key e_order (filter (\<lambda>e. e_sprint_job_id e = sj) (execs d)) = [] \<longleftrightarrow>
        filter (\<lambda>e. e_sprint_job_id e = sj) (execs d) = []"
    by (metis length_0_conv length_sort)
  then show ?thesis
    by (auto simp: checkSprintVerifyGate_def Let_def map_filter_Nil execution_blocker_None list_all_iff)
qed

end
