(* ===== verification/Status_Propagation.thy ===== *)
theory Status_Propagation
  imports Samples
begin

text \<open>
  Status roll-up from a task to its story, PBI, sprint and sprint run:
  \<open>src/src/lib/task-status-decisions.ts\<close> (the pure decisions) and
  \<open>src/src/lib/tasks-status-update.ts\<close> (\<open>propagateStatusUpwards\<close>, one transaction over the
  database, split here at the comments of the code).
\<close>

section \<open>The decisions\<close>

definition decideStoryStatus :: "task_status list \<Rightarrow> bool \<Rightarrow> story_status" where
  "decideStoryStatus states inSprint =
     (if T_FAILED \<in> set states then S_FAILED
      else if T_DONE \<in> set states \<and> list_all (\<lambda>s. s = T_DONE \<or> s = T_EXCLUDED) states then S_DONE
      else if inSprint then S_IN_SPRINT else S_OPEN)"

definition decidePbiStatus :: "story_status list \<Rightarrow> pbi_status \<Rightarrow> pbi_status" where
  "decidePbiStatus states current =
     (if current = P_BLOCKED then P_BLOCKED
      else if S_FAILED \<in> set states then P_FAILED
      else if states \<noteq> [] \<and> list_all (\<lambda>s. s = S_DONE) states then P_DONE
      else P_READY)"

definition decideSprintStatus :: "pbi_status list \<Rightarrow> sprint_status" where
  "decideSprintStatus states =
     (if P_FAILED \<in> set states then SP_FAILED
      else if states \<noteq> [] \<and> list_all (\<lambda>s. s = P_DONE) states then SP_CLOSED
      else SP_OPEN)"

text \<open>
  What the three decisions share: a failed child fails the parent, a parent is only finished when
  at least one child is finished and no child is unfinished, and a parent that is finished becomes
  unfinished again as soon as one child does.
\<close>

locale rollup =
  fixes decide :: "'c list \<Rightarrow> 'p"
    and child_failed child_done child_neutral :: "'c \<Rightarrow> bool"
    and parent_failed parent_done :: "'p \<Rightarrow> bool"
  assumes failed_iff: "parent_failed (decide cs) \<longleftrightarrow> (\<exists>c \<in> set cs. child_failed c)"
    and done_iff: "parent_done (decide cs) \<longleftrightarrow>
      (\<exists>c \<in> set cs. child_done c) \<and> (\<forall>c \<in> set cs. child_done c \<or> child_neutral c)"
    and done_not_failed: "child_done c \<Longrightarrow> \<not> child_failed c"
    and neutral_not_failed: "child_neutral c \<Longrightarrow> \<not> child_failed c"
begin

lemma not_both: "\<not> (parent_failed (decide cs) \<and> parent_done (decide cs))"
  using failed_iff done_iff done_not_failed neutral_not_failed by blast

lemma unfinished_child_reopens:
  "c \<in> set cs \<Longrightarrow> \<not> child_done c \<Longrightarrow> \<not> child_neutral c \<Longrightarrow> \<not> parent_done (decide cs)"
  using done_iff by blast

lemma order_irrelevant:
  "set cs = set ds \<Longrightarrow>
     parent_failed (decide cs) = parent_failed (decide ds) \<and> parent_done (decide cs) = parent_done (decide ds)"
  by (simp add: failed_iff done_iff)

end

interpretation story: rollup "\<lambda>cs. decideStoryStatus cs inSprint"
  "\<lambda>c. c = T_FAILED" "\<lambda>c. c = T_DONE" "\<lambda>c. c = T_EXCLUDED" "\<lambda>p. p = S_FAILED" "\<lambda>p. p = S_DONE"
  for inSprint
  by unfold_locales (auto simp: decideStoryStatus_def list_all_iff)

definition pbi_unblocked :: "story_status list \<Rightarrow> pbi_status" where
  "pbi_unblocked states = decidePbiStatus states P_READY"

lemma nonempty_all_iff: "cs \<noteq> [] \<and> (\<forall>c \<in> set cs. c = x) \<longleftrightarrow> x \<in> set cs \<and> (\<forall>c \<in> set cs. c = x)"
  by (cases cs) auto

interpretation pbi: rollup pbi_unblocked
  "\<lambda>c. c = S_FAILED" "\<lambda>c. c = S_DONE" "\<lambda>_. False" "\<lambda>p. p = P_FAILED" "\<lambda>p. p = P_DONE"
  by unfold_locales (auto simp: pbi_unblocked_def decidePbiStatus_def list_all_iff nonempty_all_iff)

interpretation sprint: rollup decideSprintStatus
  "\<lambda>c. c = P_FAILED" "\<lambda>c. c = P_DONE" "\<lambda>_. False" "\<lambda>p. p = SP_FAILED" "\<lambda>p. p = SP_CLOSED"
  by unfold_locales (auto simp: decideSprintStatus_def list_all_iff nonempty_all_iff)

lemma decidePbiStatus_unblocked:
  "current \<noteq> P_BLOCKED \<Longrightarrow> decidePbiStatus states current = pbi_unblocked states"
  by (simp add: pbi_unblocked_def decidePbiStatus_def)

section \<open>The transaction\<close>

text \<open>A Prisma \<open>update\<close> or \<open>findUniqueOrThrow\<close> on a missing row aborts the transaction.\<close>

datatype prop_error = Task_not_found id | Story_not_found id | Pbi_not_found id | Sprint_not_found id

definition task_statuses :: "id \<Rightarrow> db \<Rightarrow> task_status list" where
  "task_statuses sid d = map t_status (filter (\<lambda>t. t_story_id t = sid) (tasks d))"

definition story_statuses :: "id \<Rightarrow> db \<Rightarrow> story_status list" where
  "story_statuses pid d = map st_status (filter (\<lambda>s. st_pbi_id s = pid) (stories d))"

text \<open>The statuses of the distinct PBIs that have a story in the sprint.\<close>

definition sprint_pbi_statuses :: "id \<Rightarrow> db \<Rightarrow> pbi_status list" where
  "sprint_pbi_statuses spid d =
     map p_status (filter (\<lambda>p. p_id p \<in> set (map st_pbi_id (filter (\<lambda>s. st_sprint_id s = Some spid) (stories d))))
       (pbis d))"

definition set_task_status :: "id \<Rightarrow> task_status \<Rightarrow> db \<Rightarrow> db" where
  "set_task_status k s d = d\<lparr>tasks := update_where (\<lambda>t. t_id t = k) (\<lambda>t. t\<lparr>t_status := s\<rparr>) (tasks d)\<rparr>"

definition set_story_status :: "id \<Rightarrow> story_status \<Rightarrow> db \<Rightarrow> db" where
  "set_story_status k s d = d\<lparr>stories := update_where (\<lambda>t. st_id t = k) (\<lambda>t. t\<lparr>st_status := s\<rparr>) (stories d)\<rparr>"

definition set_pbi_status :: "id \<Rightarrow> pbi_status \<Rightarrow> db \<Rightarrow> db" where
  "set_pbi_status k s d = d\<lparr>pbis := update_where (\<lambda>t. p_id t = k) (\<lambda>t. t\<lparr>p_status := s\<rparr>) (pbis d)\<rparr>"

definition set_sprint_status :: "time \<Rightarrow> id \<Rightarrow> sprint_status \<Rightarrow> db \<Rightarrow> db" where
  "set_sprint_status now k s d = d\<lparr>sprints := update_where (\<lambda>t. sp_id t = k)
     (\<lambda>t. t\<lparr>sp_status := s, sp_completed_at := (if s = SP_CLOSED then Some now else sp_completed_at t)\<rparr>)
     (sprints d)\<rparr>"

text \<open>Story herevalueren.\<close>

definition reevaluate_story :: "id \<Rightarrow> db \<Rightarrow> prop_error + (db \<times> story \<times> bool)" where
  "reevaluate_story sid d = (case find_story sid d of
     None \<Rightarrow> Inl (Story_not_found sid)
   | Some st \<Rightarrow>
       (let next = decideStoryStatus (task_statuses sid d) (truthy (st_sprint_id st))
        in if next \<noteq> st_status st then Inr (set_story_status (st_id st) next d, st, True)
           else Inr (d, st, False)))"

text \<open>PBI herevalueren; BLOCKED is left alone.\<close>

definition reevaluate_pbi :: "id \<Rightarrow> db \<Rightarrow> prop_error + (db \<times> bool)" where
  "reevaluate_pbi pid d = (case find_pbi pid d of
     None \<Rightarrow> Inl (Pbi_not_found pid)
   | Some p \<Rightarrow>
       (if p_status p \<noteq> P_BLOCKED then
          (let next = decidePbiStatus (story_statuses (p_id p) d) (p_status p)
           in if next \<noteq> p_status p then Inr (set_pbi_status (p_id p) next d, True) else Inr (d, False))
        else Inr (d, False)))"

text \<open>Sprint herevalueren, only when the story is in a sprint.\<close>

definition reevaluate_sprint ::
  "time \<Rightarrow> id option \<Rightarrow> db \<Rightarrow> prop_error + (db \<times> bool \<times> sprint_status option)" where
  "reevaluate_sprint now sprintId d =
     (if \<not> truthy sprintId then Inr (d, False, None)
      else (case find_sprint (the sprintId) d of
          None \<Rightarrow> Inl (Sprint_not_found (the sprintId))
        | Some sp \<Rightarrow>
            (let next = decideSprintStatus (sprint_pbi_statuses (sp_id sp) d)
             in if next \<noteq> sp_status sp
                then Inr (set_sprint_status now (sp_id sp) next d, True, Some next)
                else Inr (d, False, None))))"

definition run_open :: "run_status \<Rightarrow> bool" where
  "run_open s \<longleftrightarrow> s \<in> {RUN_QUEUED, RUN_RUNNING, RUN_PAUSED}"

text \<open>
  Which sprint run the change belongs to, and which job is spared from cancellation: the explicit
  run, else the newest job of the task that belongs to a run, else the newest open run of the
  sprint.
\<close>

definition resolve_run :: "id \<Rightarrow> id option \<Rightarrow> id option \<Rightarrow> db \<Rightarrow> id option \<times> id option" where
  "resolve_run taskId sprintId sprintRunId d =
     (if truthy sprintRunId then (sprintRunId, None)
      else
        (let byJob = first_by (\<lambda>j. - j_created_at j)
               (\<lambda>j. j_task_id j = Some taskId \<and> j_sprint_run_id j \<noteq> None) (jobs d)
         in case byJob of
              Some j \<Rightarrow>
                (if truthy (j_sprint_run_id j) then (j_sprint_run_id j, Some (j_id j))
                 else (map_option r_id (first_by (\<lambda>r. - r_created_at r)
                    (\<lambda>r. truthy sprintId \<and> Some (r_sprint_id r) = sprintId \<and> run_open (r_status r)) (runs d)), None))
            | None \<Rightarrow> (map_option r_id (first_by (\<lambda>r. - r_created_at r)
                    (\<lambda>r. truthy sprintId \<and> Some (r_sprint_id r) = sprintId \<and> run_open (r_status r)) (runs d)), None)))"

text \<open>The jobs that a failing sprint run cancels: its active jobs, except the spared one.\<close>

definition cancellable :: "id \<Rightarrow> id option \<Rightarrow> job \<Rightarrow> bool" where
  "cancellable runId except j \<longleftrightarrow>
     j_sprint_run_id j = Some runId \<and> active (j_status j) \<and> (truthy except \<longrightarrow> except \<noteq> Some (j_id j))"

definition cancel_error :: "id \<Rightarrow> string" where
  "cancel_error taskId = ''Cancelled: task '' @ taskId @ '' failed in same sprint run''"

definition cancel_run_jobs :: "time \<Rightarrow> id \<Rightarrow> id \<Rightarrow> id option \<Rightarrow> db \<Rightarrow> db" where
  "cancel_run_jobs now taskId runId except d =
     (let cancelled = map j_id (filter (cancellable runId except) (jobs d));
          d' = update_jobs (cancellable runId except)
                 (\<lambda>j. j\<lparr>j_status := J_CANCELLED, j_finished_at := Some now, j_error := Some (cancel_error taskId)\<rparr>) d
      in fold notify_job cancelled d')"

text \<open>SprintRun herevalueren.\<close>

definition reevaluate_run ::
  "time \<Rightarrow> id \<Rightarrow> id option \<Rightarrow> id option \<Rightarrow> sprint_status option \<Rightarrow> db \<Rightarrow> db \<times> bool" where
  "reevaluate_run now taskId sprintId sprintRunId nextSprint d =
     (if nextSprint = Some SP_FAILED \<or> nextSprint = Some SP_CLOSED then
        (case resolve_run taskId sprintId sprintRunId d of
           (Some runId, except) \<Rightarrow>
             (case find_run runId d of
                Some r \<Rightarrow>
                  (if runId \<noteq> [] \<and> run_open (r_status r) then
                     (if nextSprint = Some SP_FAILED then
                        (cancel_run_jobs now taskId (r_id r) except
                          (update_runs (\<lambda>x. r_id x = r_id r)
                            (\<lambda>x. x\<lparr>r_status := RUN_FAILED, r_finished_at := Some now, r_failed_task_id := Some taskId\<rparr>) d),
                         True)
                      else
                        (update_runs (\<lambda>x. r_id x = r_id r)
                           (\<lambda>x. x\<lparr>r_status := RUN_DONE, r_finished_at := Some now\<rparr>) d, True))
                   else (d, False))
              | None \<Rightarrow> (d, False))
         | (None, _) \<Rightarrow> (d, False))
      else (d, False))"

record propagation =
  g_task :: task
  g_story_id :: id
  g_story_changed :: bool
  g_pbi_changed :: bool
  g_sprint_changed :: bool
  g_sprint_run_changed :: bool

definition propagateStatusUpwards ::
  "time \<Rightarrow> id \<Rightarrow> task_status \<Rightarrow> id option \<Rightarrow> db \<Rightarrow> prop_error + (db \<times> propagation)" where
  "propagateStatusUpwards now taskId newStatus sprintRunId d0 = (case find_task taskId d0 of
     None \<Rightarrow> Inl (Task_not_found taskId)
   | Some t0 \<Rightarrow>
       (let d1 = set_task_status taskId newStatus d0; t = t0\<lparr>t_status := newStatus\<rparr>
        in and_then (reevaluate_story (t_story_id t) d1) (\<lambda>(d2, st, storyChanged).
           and_then (reevaluate_pbi (st_pbi_id st) d2) (\<lambda>(d3, pbiChanged).
           and_then (reevaluate_sprint now (st_sprint_id st) d3) (\<lambda>(d4, sprintChanged, nextSprint).
             (let (d5, runChanged) = reevaluate_run now taskId (st_sprint_id st) sprintRunId nextSprint d4
              in Inr (d5, \<lparr>g_task = t, g_story_id = t_story_id t, g_story_changed = storyChanged,
                           g_pbi_changed = pbiChanged, g_sprint_changed = sprintChanged,
                           g_sprint_run_changed = runChanged\<rparr>)))))))"

text \<open>\<open>updateTaskStatusWithStoryPromotion\<close>: the older result shape of the same operation.\<close>

datatype story_change = Promoted | Demoted

record task_status_result =
  w_task :: task
  w_story_change :: "story_change option"
  w_story_id :: id
  w_sprint_run_changed :: bool

definition updateTaskStatusWithStoryPromotion ::
  "time \<Rightarrow> id \<Rightarrow> task_status \<Rightarrow> id option \<Rightarrow> db \<Rightarrow> prop_error + (db \<times> task_status_result)" where
  "updateTaskStatusWithStoryPromotion now taskId newStatus sprintRunId d =
     and_then (propagateStatusUpwards now taskId newStatus sprintRunId d) (\<lambda>(d', g).
       Inr (d', \<lparr>w_task = g_task g,
         w_story_change = (if g_story_changed g then Some (if newStatus = T_DONE then Promoted else Demoted) else None),
         w_story_id = g_story_id g, w_sprint_run_changed = g_sprint_run_changed g\<rparr>))"

section \<open>What each step does\<close>

definition story_keys :: "db \<Rightarrow> bool" where
  "story_keys d \<longleftrightarrow> distinct (map st_id (stories d)) \<and> distinct (map p_id (pbis d)) \<and> distinct (map sp_id (sprints d))"

lemma set_story_status_same:
  "distinct (map st_id (stories d)) \<Longrightarrow> find_story k d = Some st \<Longrightarrow> set_story_status k (st_status st) d = d"
  by (simp add: set_story_status_def find_story_def update_where_same_row [of st_id])

lemma set_pbi_status_same:
  "distinct (map p_id (pbis d)) \<Longrightarrow> find_pbi k d = Some p \<Longrightarrow> set_pbi_status k (p_status p) d = d"
  by (simp add: set_pbi_status_def find_pbi_def update_where_same_row [of p_id])

lemma set_task_status_same:
  "distinct (map t_id (tasks d)) \<Longrightarrow> find_task k d = Some t \<Longrightarrow> set_task_status k (t_status t) d = d"
  by (simp add: set_task_status_def find_task_def update_where_same_row [of t_id])

lemma find_story_set [simp]:
  "find_story k (set_story_status i s d) = map_option (\<lambda>x. if st_id x = i then x\<lparr>st_status := s\<rparr> else x) (find_story k d)"
  by (simp add: find_story_def set_story_status_def find_by_update_where)

lemma find_pbi_set [simp]:
  "find_pbi k (set_pbi_status i s d) = map_option (\<lambda>x. if p_id x = i then x\<lparr>p_status := s\<rparr> else x) (find_pbi k d)"
  by (simp add: find_pbi_def set_pbi_status_def find_by_update_where)

lemma find_task_set [simp]:
  "find_task k (set_task_status i s d) = map_option (\<lambda>x. if t_id x = i then x\<lparr>t_status := s\<rparr> else x) (find_task k d)"
  by (simp add: find_task_def set_task_status_def find_by_update_where)

lemma find_sprint_set [simp]:
  "find_sprint k (set_sprint_status now i s d) = map_option (\<lambda>x. if sp_id x = i
     then x\<lparr>sp_status := s, sp_completed_at := (if s = SP_CLOSED then Some now else sp_completed_at x)\<rparr> else x)
     (find_sprint k d)"
  by (simp add: find_sprint_def set_sprint_status_def find_by_update_where)

lemma set_status_frames [simp]:
  "tasks (set_story_status i s d) = tasks d" "pbis (set_story_status i s d) = pbis d"
  "sprints (set_story_status i s d) = sprints d" "jobs (set_story_status i s d) = jobs d"
  "runs (set_story_status i s d) = runs d"
  "tasks (set_pbi_status i p d) = tasks d" "stories (set_pbi_status i p d) = stories d"
  "sprints (set_pbi_status i p d) = sprints d" "jobs (set_pbi_status i p d) = jobs d"
  "runs (set_pbi_status i p d) = runs d"
  "tasks (set_sprint_status now i q d) = tasks d" "stories (set_sprint_status now i q d) = stories d"
  "pbis (set_sprint_status now i q d) = pbis d" "jobs (set_sprint_status now i q d) = jobs d"
  "runs (set_sprint_status now i q d) = runs d"
  "stories (set_task_status i t d) = stories d" "pbis (set_task_status i t d) = pbis d"
  "sprints (set_task_status i t d) = sprints d" "jobs (set_task_status i t d) = jobs d"
  "runs (set_task_status i t d) = runs d"
  by (simp_all add: set_story_status_def set_pbi_status_def set_sprint_status_def set_task_status_def)

lemma status_lists_frame:
  "tasks d = tasks d' \<Longrightarrow> task_statuses k d = task_statuses k d'"
  "stories d = stories d' \<Longrightarrow> story_statuses k d = story_statuses k d'"
  "stories d = stories d' \<Longrightarrow> pbis d = pbis d' \<Longrightarrow> sprint_pbi_statuses k d = sprint_pbi_statuses k d'"
  "stories d = stories d' \<Longrightarrow> find_story k d = find_story k d'"
  "pbis d = pbis d' \<Longrightarrow> find_pbi k d = find_pbi k d'"
  "sprints d = sprints d' \<Longrightarrow> find_sprint k d = find_sprint k d'"
  "tasks d = tasks d' \<Longrightarrow> find_task k d = find_task k d'"
  by (simp_all add: task_statuses_def story_statuses_def sprint_pbi_statuses_def find_defs)

lemma reevaluate_run_frame:
  assumes "reevaluate_run now t sp sr nxt d = (d', c)"
  shows "tasks d' = tasks d" "stories d' = stories d" "pbis d' = pbis d" "sprints d' = sprints d"
    "execs d' = execs d" "products d' = products d"
  using assms by (auto simp: reevaluate_run_def cancel_run_jobs_def Let_def
      split: if_splits option.splits prod.splits)

text \<open>After its step each level carries the status that its decision prescribes.\<close>

lemma reevaluate_story_result:
  assumes "distinct (map st_id (stories d))" and "reevaluate_story sid d = Inr (d', st, c)"
  shows "find_story sid d = Some st"
    and "d' = set_story_status sid (decideStoryStatus (task_statuses sid d) (truthy (st_sprint_id st))) d"
proof -
  show f: "find_story sid d = Some st"
    using assms(2) by (auto simp: reevaluate_story_def Let_def split: option.splits if_splits)
  then have "st_id st = sid" by (auto simp: find_story_def dest: find_by_Some)
  then show "d' = set_story_status sid (decideStoryStatus (task_statuses sid d) (truthy (st_sprint_id st))) d"
    using assms(2) f set_story_status_same [OF assms(1) f]
    by (auto simp: reevaluate_story_def Let_def split: if_splits)
qed

lemma reevaluate_pbi_result:
  assumes "distinct (map p_id (pbis d))" and "reevaluate_pbi pid d = Inr (d', c)"
  obtains p where "find_pbi pid d = Some p"
    and "d' = (if p_status p = P_BLOCKED then d
               else set_pbi_status pid (pbi_unblocked (story_statuses pid d)) d)"
proof -
  obtain p where p: "find_pbi pid d = Some p"
    using assms(2) by (auto simp: reevaluate_pbi_def split: option.splits)
  then have "p_id p = pid" by (auto simp: find_pbi_def dest: find_by_Some)
  then have "d' = (if p_status p = P_BLOCKED then d
               else set_pbi_status pid (pbi_unblocked (story_statuses pid d)) d)"
    using assms(2) p set_pbi_status_same [OF assms(1) p]
    by (auto simp: reevaluate_pbi_def Let_def decidePbiStatus_unblocked split: if_splits)
  with p show thesis by (rule that)
qed

lemma reevaluate_sprint_result:
  assumes "reevaluate_sprint now spid d = Inr (d', c, nxt)" and "spid = Some k" and "k \<noteq> []"
  obtains sp where "find_sprint k d = Some sp"
    and "find_sprint k d' = Some (if decideSprintStatus (sprint_pbi_statuses k d) = sp_status sp then sp
           else sp\<lparr>sp_status := decideSprintStatus (sprint_pbi_statuses k d),
                   sp_completed_at := (if decideSprintStatus (sprint_pbi_statuses k d) = SP_CLOSED
                     then Some now else sp_completed_at sp)\<rparr>)"
proof -
  obtain sp where sp: "find_sprint k d = Some sp"
    using assms by (auto simp: reevaluate_sprint_def split: option.splits)
  then have id: "sp_id sp = k" by (auto simp: find_sprint_def dest: find_by_Some)
  show thesis
  proof (rule that [OF sp])
    show "find_sprint k d' = Some (if decideSprintStatus (sprint_pbi_statuses k d) = sp_status sp then sp
           else sp\<lparr>sp_status := decideSprintStatus (sprint_pbi_statuses k d),
                   sp_completed_at := (if decideSprintStatus (sprint_pbi_statuses k d) = SP_CLOSED
                     then Some now else sp_completed_at sp)\<rparr>)"
      using assms sp id by (auto simp: reevaluate_sprint_def Let_def split: if_splits)
  qed
qed

lemma reevaluate_sprint_frame:
  "reevaluate_sprint now spid d = Inr (d', c, nxt) \<Longrightarrow>
     tasks d' = tasks d \<and> stories d' = stories d \<and> pbis d' = pbis d \<and> jobs d' = jobs d \<and> runs d' = runs d"
  by (auto simp: reevaluate_sprint_def Let_def split: if_splits option.splits)


section \<open>The whole chain\<close>

text \<open>
  What propagation promises of a story's chain: the story, its PBI and its sprint carry the status
  that the decision prescribes for the rows below them (a blocked PBI keeps its status).
\<close>

definition chain_consistent :: "id \<Rightarrow> db \<Rightarrow> bool" where
  "chain_consistent sid d = (case find_story sid d of
     None \<Rightarrow> False
   | Some st \<Rightarrow>
       st_status st = decideStoryStatus (task_statuses sid d) (truthy (st_sprint_id st)) \<and>
       (case find_pbi (st_pbi_id st) d of
          None \<Rightarrow> False
        | Some p \<Rightarrow> p_status p = decidePbiStatus (story_statuses (st_pbi_id st) d) (p_status p)) \<and>
       (if truthy (st_sprint_id st) then
          (case find_sprint (the (st_sprint_id st)) d of
             None \<Rightarrow> False
           | Some sp \<Rightarrow> sp_status sp = decideSprintStatus (sprint_pbi_statuses (the (st_sprint_id st)) d))
        else True))"

lemma decidePbiStatus_idem [simp]:
  "decidePbiStatus cs (decidePbiStatus cs p) = decidePbiStatus cs p"
  by (simp add: decidePbiStatus_def)

lemma pbi_unblocked_not_blocked [simp]:
  "pbi_unblocked cs \<noteq> P_BLOCKED"
  by (simp add: pbi_unblocked_def decidePbiStatus_def)

lemma propagateE:
  assumes "propagateStatusUpwards now k s sr d = Inr (d', g)"
  obtains t st d2 d3 d4 nxt
  where "find_task k d = Some t" and "g_task g = t\<lparr>t_status := s\<rparr>" and "g_story_id g = t_story_id t"
    and "reevaluate_story (t_story_id t) (set_task_status k s d) = Inr (d2, st, g_story_changed g)"
    and "reevaluate_pbi (st_pbi_id st) d2 = Inr (d3, g_pbi_changed g)"
    and "reevaluate_sprint now (st_sprint_id st) d3 = Inr (d4, g_sprint_changed g, nxt)"
    and "reevaluate_run now k (st_sprint_id st) sr nxt d4 = (d', g_sprint_run_changed g)"
proof -
  obtain t where t: "find_task k d = Some t"
    using assms by (auto simp: propagateStatusUpwards_def split: option.splits)
  obtain d2 st b2 d3 b3 d4 b4 nxt where steps:
      "reevaluate_story (t_story_id t) (set_task_status k s d) = Inr (d2, st, b2)"
      "reevaluate_pbi (st_pbi_id st) d2 = Inr (d3, b3)"
      "reevaluate_sprint now (st_sprint_id st) d3 = Inr (d4, b4, nxt)"
    using assms t by (auto simp: propagateStatusUpwards_def and_then_Inr_iff Let_def)
  obtain d5 b5 where run: "reevaluate_run now k (st_sprint_id st) sr nxt d4 = (d5, b5)" by fastforce
  from assms t steps run
  have "d' = d5" and "g = \<lparr>g_task = t\<lparr>t_status := s\<rparr>, g_story_id = t_story_id t, g_story_changed = b2,
      g_pbi_changed = b3, g_sprint_changed = b4, g_sprint_run_changed = b5\<rparr>"
    by (simp_all add: propagateStatusUpwards_def)
  with steps run show thesis by (intro that [OF t]) simp_all
qed

lemma reevaluate_story_frame:
  "reevaluate_story sid d = Inr (d', st, c) \<Longrightarrow>
     tasks d' = tasks d \<and> pbis d' = pbis d \<and> sprints d' = sprints d \<and> jobs d' = jobs d \<and> runs d' = runs d"
  by (auto simp: reevaluate_story_def Let_def split: option.splits if_splits)

lemma reevaluate_pbi_frame:
  "reevaluate_pbi pid d = Inr (d', c) \<Longrightarrow>
     tasks d' = tasks d \<and> stories d' = stories d \<and> sprints d' = sprints d \<and> jobs d' = jobs d \<and> runs d' = runs d"
  by (auto simp: reevaluate_pbi_def Let_def split: option.splits if_splits)

lemma resolve_run_frame:
  "jobs d = jobs d' \<Longrightarrow> runs d = runs d' \<Longrightarrow> resolve_run k sp sr d = resolve_run k sp sr d'"
  by (simp add: resolve_run_def cong: option.case_cong if_cong)

lemma propagate_chain_consistent:
  assumes keys: "keys_ok d" and res: "propagateStatusUpwards now k s sr d = Inr (d', g)"
  shows "chain_consistent (g_story_id g) d'" and "find_task k d' = Some (g_task g)"
    and "t_status (g_task g) = s"
proof -
  from res obtain t st d2 d3 d4 nxt where t: "find_task k d = Some t"
    and g: "g_task g = t\<lparr>t_status := s\<rparr>" "g_story_id g = t_story_id t"
    and s2: "reevaluate_story (t_story_id t) (set_task_status k s d) = Inr (d2, st, g_story_changed g)"
    and s3: "reevaluate_pbi (st_pbi_id st) d2 = Inr (d3, g_pbi_changed g)"
    and s4: "reevaluate_sprint now (st_sprint_id st) d3 = Inr (d4, g_sprint_changed g, nxt)"
    and s5: "reevaluate_run now k (st_sprint_id st) sr nxt d4 = (d', g_sprint_run_changed g)"
    by (rule propagateE)
  let ?sid = "t_story_id t" and ?d1 = "set_task_status k s d"
  have tid: "t_id t = k" using t by (auto simp: find_task_def dest: find_by_Some)
  have dist: "distinct (map st_id (stories ?d1))" "distinct (map p_id (pbis ?d1))"
    using keys by (simp_all add: keys_ok_def)
  note f3 = reevaluate_pbi_frame [OF s3] and f4 = reevaluate_sprint_frame [OF s4] and f5 = reevaluate_run_frame [OF s5]
    and f2 = reevaluate_story_frame [OF s2]
  have tasks: "tasks d' = tasks ?d1" using f2 f3 f4 f5 by simp
  have st: "find_story ?sid ?d1 = Some st"
    and d2: "d2 = set_story_status ?sid (decideStoryStatus (task_statuses ?sid ?d1) (truthy (st_sprint_id st))) ?d1"
    using reevaluate_story_result [OF dist(1) s2] by blast+
  have stid: "st_id st = ?sid" using st by (auto simp: find_story_def dest: find_by_Some)
  define st' where "st' = st\<lparr>st_status := decideStoryStatus (task_statuses ?sid ?d1) (truthy (st_sprint_id st))\<rparr>"
  have stories: "stories d' = stories d2" using f3 f4 f5 by simp
  have story: "find_story ?sid d' = Some st'"
    using status_lists_frame(4) [OF stories, of ?sid] st stid by (simp add: d2 st'_def)
  have "distinct (map p_id (pbis d2))" using dist(2) f2 by simp
  then obtain p where p: "find_pbi (st_pbi_id st) d2 = Some p"
    and d3: "d3 = (if p_status p = P_BLOCKED then d2
       else set_pbi_status (st_pbi_id st) (pbi_unblocked (story_statuses (st_pbi_id st) d2)) d2)"
    using s3 by (rule reevaluate_pbi_result)
  have pid: "p_id p = st_pbi_id st" using p by (auto simp: find_pbi_def dest: find_by_Some)
  have pbis: "pbis d' = pbis d3" using f4 f5 by simp
  have pbi: "\<exists>q. find_pbi (st_pbi_id st) d' = Some q \<and>
      p_status q = decidePbiStatus (story_statuses (st_pbi_id st) d') (p_status q)"
    using status_lists_frame(5) [OF pbis, of "st_pbi_id st"] status_lists_frame(2) [OF stories, of "st_pbi_id st"] p pid
    by (auto simp: d3 decidePbiStatus_unblocked) (simp add: decidePbiStatus_def)
  have sprint: "\<exists>sp. find_sprint q d' = Some sp \<and> sp_status sp = decideSprintStatus (sprint_pbi_statuses q d')"
    if q: "st_sprint_id st = Some q" "q \<noteq> []" for q
  proof -
    have "sprints d' = sprints d4" using f5 by simp
    moreover have "sprint_pbi_statuses q d' = sprint_pbi_statuses q d3"
      using f4 f5 by (intro status_lists_frame(3)) simp_all
    moreover obtain sp where "find_sprint q d4 = Some (if decideSprintStatus (sprint_pbi_statuses q d3) = sp_status sp
        then sp else sp\<lparr>sp_status := decideSprintStatus (sprint_pbi_statuses q d3),
                   sp_completed_at := (if decideSprintStatus (sprint_pbi_statuses q d3) = SP_CLOSED
                     then Some now else sp_completed_at sp)\<rparr>)"
      by (rule reevaluate_sprint_result [OF s4 q]) blast
    ultimately show ?thesis using status_lists_frame(6) [of d' d4 q] by auto
  qed
  have ts: "task_statuses ?sid d' = task_statuses ?sid ?d1" by (rule status_lists_frame(1)) (rule tasks)
  have sp_id: "st_sprint_id st' = st_sprint_id st" "st_pbi_id st' = st_pbi_id st"
    "st_status st' = decideStoryStatus (task_statuses ?sid ?d1) (truthy (st_sprint_id st))"
    by (simp_all add: st'_def)
  show "chain_consistent (g_story_id g) d'"
    using pbi sprint by (auto simp: g(2) chain_consistent_def story sp_id ts elim!: truthyE)
  show "find_task k d' = Some (g_task g)"
    using status_lists_frame(7) [OF tasks, of k] t tid g by simp
  show "t_status (g_task g) = s" using g by simp
qed

lemma reevaluate_story_stable:
  "find_story sid d = Some st \<Longrightarrow> st_status st = decideStoryStatus (task_statuses sid d) (truthy (st_sprint_id st)) \<Longrightarrow>
   reevaluate_story sid d = Inr (d, st, False)"
  by (simp add: reevaluate_story_def Let_def)

lemma reevaluate_pbi_stable:
  "find_pbi pid d = Some p \<Longrightarrow> p_status p = decidePbiStatus (story_statuses pid d) (p_status p) \<Longrightarrow>
   reevaluate_pbi pid d = Inr (d, False)"
  using find_by_Some [of p_id pid "pbis d" p]
  by (auto simp: reevaluate_pbi_def Let_def find_pbi_def)

lemma reevaluate_sprint_stable:
  assumes "find_sprint q d = Some sp" and "sp_status sp = decideSprintStatus (sprint_pbi_statuses q d)"
  shows "reevaluate_sprint now (Some q) d = Inr (d, False, None)"
proof -
  have "sp_id sp = q" using assms(1) by (auto simp: find_sprint_def dest: find_by_Some)
  then show ?thesis using assms by (simp add: reevaluate_sprint_def)
qed

lemma propagate_stable:
  assumes keys: "distinct (map t_id (tasks d))" and t: "find_task k d = Some t" "t_status t = s"
    and cons: "chain_consistent (t_story_id t) d"
  shows "propagateStatusUpwards now k s sr d = Inr (d, \<lparr>g_task = t, g_story_id = t_story_id t,
    g_story_changed = False, g_pbi_changed = False, g_sprint_changed = False, g_sprint_run_changed = False\<rparr>)"
proof -
  have d1: "set_task_status k s d = d" using set_task_status_same [OF keys t(1)] t(2) by simp
  obtain st where st: "find_story (t_story_id t) d = Some st"
    using cons by (auto simp: chain_consistent_def split: option.splits)
  obtain p where p: "find_pbi (st_pbi_id st) d = Some p"
    using cons st by (auto simp: chain_consistent_def split: option.splits)
  have 1: "reevaluate_story (t_story_id t) d = Inr (d, st, False)"
    using cons st by (intro reevaluate_story_stable) (simp_all add: chain_consistent_def)
  have 2: "reevaluate_pbi (st_pbi_id st) d = Inr (d, False)"
    using cons st p by (intro reevaluate_pbi_stable) (auto simp: chain_consistent_def)
  have 3: "reevaluate_sprint now (st_sprint_id st) d = Inr (d, False, None)"
  proof (cases "truthy (st_sprint_id st)")
    case True
    then obtain q where q: "st_sprint_id st = Some q" by (auto elim: truthyE)
    show ?thesis using cons st True unfolding q
      by (auto simp: chain_consistent_def q split: option.splits intro: reevaluate_sprint_stable)
  next
    case False
    then show ?thesis by (simp add: reevaluate_sprint_def)
  qed
  have "t\<lparr>t_status := s\<rparr> = t" using t(2) by simp
  then show ?thesis
    by (simp add: propagateStatusUpwards_def t(1) d1 1 2 3 reevaluate_run_def)
qed

lemma propagate_keys:
  assumes "keys_ok d" and "propagateStatusUpwards now k s sr d = Inr (d', g)"
  shows "distinct (map t_id (tasks d'))"
proof -
  have "tasks d' = tasks (set_task_status k s d)"
    using assms(2) by (rule propagateE)
      (auto dest!: reevaluate_story_frame reevaluate_pbi_frame reevaluate_sprint_frame reevaluate_run_frame(1))
  then show ?thesis
    using assms(1) by (simp add: set_task_status_def keys_ok_def map_update_where)
qed


text \<open>The jobs and runs after a propagation: untouched, or one run closed with or without its jobs.\<close>

definition close_run :: "time \<Rightarrow> id \<Rightarrow> sprint_run \<Rightarrow> sprint_run" where
  "close_run now runId r = (if r_id r = runId then r\<lparr>r_status := RUN_DONE, r_finished_at := Some now\<rparr> else r)"

definition fail_run :: "time \<Rightarrow> id \<Rightarrow> id \<Rightarrow> sprint_run \<Rightarrow> sprint_run" where
  "fail_run now runId taskId r = (if r_id r = runId
     then r\<lparr>r_status := RUN_FAILED, r_finished_at := Some now, r_failed_task_id := Some taskId\<rparr> else r)"

definition cancel_job :: "time \<Rightarrow> id \<Rightarrow> id \<Rightarrow> id option \<Rightarrow> job \<Rightarrow> job" where
  "cancel_job now taskId runId except j = (if cancellable runId except j
     then j\<lparr>j_status := J_CANCELLED, j_finished_at := Some now, j_error := Some (cancel_error taskId)\<rparr> else j)"

lemma reevaluate_run_cases:
  assumes "reevaluate_run now k sp sr nxt d = (d', c)"
  obtains (unchanged) "d' = d" "\<not> c"
  | (closed) runId ex where "c" "nxt = Some SP_CLOSED" "resolve_run k sp sr d = (Some runId, ex)"
      "runs d' = map (close_run now runId) (runs d)" "jobs d' = jobs d" "notified d' = notified d"
  | (failed) runId ex where "c" "nxt = Some SP_FAILED" "resolve_run k sp sr d = (Some runId, ex)"
      "runs d' = map (fail_run now runId k) (runs d)" "jobs d' = map (cancel_job now k runId ex) (jobs d)"
proof -
  have id: "r_id r = i" if "find_run i d = Some r" for r i
    using that by (auto simp: find_run_def dest: find_by_Some)
  show thesis
    using assms id that
    unfolding reevaluate_run_def
    by (auto simp: cancel_run_jobs_def Let_def update_where_def close_run_def fail_run_def
        cancel_job_def [abs_def] fun_eq_iff split: if_splits option.splits prod.splits)
qed


lemma reevaluate_sprint_next:
  assumes "reevaluate_sprint now sp d = Inr (d', c, Some x)"
  obtains q row where "sp = Some q" "q \<noteq> []" "find_sprint q d' = Some row" "sp_status row = x"
proof -
  obtain q where q: "sp = Some q" "q \<noteq> []"
    using assms by (auto simp: reevaluate_sprint_def elim!: truthyE split: if_splits)
  then obtain row where "find_sprint q d = Some row"
    using assms by (auto simp: reevaluate_sprint_def split: option.splits)
  moreover from this have "sp_id row = q" by (auto simp: find_sprint_def dest: find_by_Some)
  ultimately show thesis
    using assms q by (auto simp: reevaluate_sprint_def Let_def split: if_splits intro: that)
qed

lemma propagate_run_outcome:
  assumes res: "propagateStatusUpwards now k s sr d = Inr (d', g)"
  shows "\<not> g_sprint_run_changed g \<and> jobs d' = jobs d \<and> runs d' = runs d \<or>
    (\<exists>q row runId ex. find_sprint q d' = Some row \<and> resolve_run k (Some q) sr d = (Some runId, ex) \<and>
       (sp_status row = SP_CLOSED \<and> runs d' = map (close_run now runId) (runs d) \<and> jobs d' = jobs d \<or>
        sp_status row = SP_FAILED \<and> runs d' = map (fail_run now runId k) (runs d) \<and>
          jobs d' = map (cancel_job now k runId ex) (jobs d)))"
proof -
  from res obtain t st d2 d3 d4 nxt where "find_task k d = Some t"
    and "g_task g = t\<lparr>t_status := s\<rparr>" and "g_story_id g = t_story_id t"
    and s2: "reevaluate_story (t_story_id t) (set_task_status k s d) = Inr (d2, st, g_story_changed g)"
    and s3: "reevaluate_pbi (st_pbi_id st) d2 = Inr (d3, g_pbi_changed g)"
    and s4: "reevaluate_sprint now (st_sprint_id st) d3 = Inr (d4, g_sprint_changed g, nxt)"
    and s5: "reevaluate_run now k (st_sprint_id st) sr nxt d4 = (d', g_sprint_run_changed g)"
    by (rule propagateE)
  have frame: "jobs d4 = jobs d" "runs d4 = runs d"
    using reevaluate_story_frame [OF s2] reevaluate_pbi_frame [OF s3] reevaluate_sprint_frame [OF s4] by simp_all
  have resolve: "resolve_run k sp sr d4 = resolve_run k sp sr d" for sp
    by (rule resolve_run_frame) (rule frame)+
  have sp: "find_sprint q d' = find_sprint q d4" for q
    using reevaluate_run_frame(4) [OF s5] by (rule status_lists_frame(6))
  show ?thesis
  proof (cases rule: reevaluate_run_cases [OF s5, case_names unchanged closed failed])
    case unchanged
    then show ?thesis by (simp add: frame)
  next
    case (closed runId ex)
    obtain q row where "st_sprint_id st = Some q" "find_sprint q d4 = Some row" "sp_status row = SP_CLOSED"
      using s4 closed(2) by (auto elim: reevaluate_sprint_next)
    with closed show ?thesis by (auto simp: frame resolve sp)
  next
    case (failed runId ex)
    obtain q row where "st_sprint_id st = Some q" "find_sprint q d4 = Some row" "sp_status row = SP_FAILED"
      using s4 failed(2) by (auto elim: reevaluate_sprint_next)
    with failed show ?thesis by (auto simp: frame resolve sp)
  qed
qed

section \<open>Properties\<close>

text \<open>
  C4. After a task's status is written, its whole chain agrees again: the task carries the new
  status, and the story, PBI (unless blocked) and sprint above it carry exactly the statuses that
  the roll-up decisions prescribe for the rows below them in the new database.
\<close>

theorem propagation_consistent:
  assumes "keys_ok d" and "propagateStatusUpwards now k s sr d = Inr (d', g)"
  shows "find_task k d' = Some (g_task g) \<and> t_status (g_task g) = s \<and> chain_consistent (g_story_id g) d'"
  using propagate_chain_consistent [OF assms] by blast


text \<open>
  The only effect a status change has on jobs and sprint runs: none, or, when the sprint has
  become closed, its resolved run is closed as done and no job changes, or, when it has become
  failed, its resolved run fails with this task as the cause and exactly the run's queued, claimed
  and running jobs, without the spared one, are cancelled.
\<close>

theorem propagation_run_outcome:
  assumes "propagateStatusUpwards now k s sr d = Inr (d', g)"
  shows "\<not> g_sprint_run_changed g \<and> jobs d' = jobs d \<and> runs d' = runs d \<or>
    (\<exists>q row runId ex. find_sprint q d' = Some row \<and> resolve_run k (Some q) sr d = (Some runId, ex) \<and>
       (sp_status row = SP_CLOSED \<and> runs d' = map (close_run now runId) (runs d) \<and> jobs d' = jobs d \<or>
        sp_status row = SP_FAILED \<and> runs d' = map (fail_run now runId k) (runs d) \<and>
          jobs d' = map (cancel_job now k runId ex) (jobs d)))"
  using assms by (rule propagate_run_outcome)

text \<open>
  With an explicit sprint run, a failing sprint leaves no active job of that run behind: the
  batch job that reported the failure is cancelled as well.
\<close>

theorem explicit_run_cancels_all:
  assumes "propagateStatusUpwards now k s (Some runId) d = Inr (d', g)" and "runId \<noteq> []"
    and "\<exists>r \<in> set (runs d'). r_id r = runId \<and> r_status r = RUN_FAILED"
    and "\<forall>r \<in> set (runs d). r_id r = runId \<longrightarrow> r_status r \<noteq> RUN_FAILED"
  shows "\<forall>j \<in> set (jobs d'). j_sprint_run_id j = Some runId \<longrightarrow> \<not> active (j_status j)"
proof -
  have close: "runs d' \<noteq> map (close_run now r) (runs d)" for r
  proof
    assume "runs d' = map (close_run now r) (runs d)"
    then obtain x where "x \<in> set (runs d)" "r_id (close_run now r x) = runId"
        "r_status (close_run now r x) = RUN_FAILED"
      using assms(3) by auto
    then show False using assms(4) by (auto simp: close_run_def split: if_splits)
  qed
  moreover have same: "runs d' \<noteq> runs d" using assms(3,4) by auto
  ultimately obtain q r ex where "resolve_run k (Some q) (Some runId) d = (Some r, ex)"
    and jobs: "jobs d' = map (cancel_job now k r ex) (jobs d)"
    using propagate_run_outcome [OF assms(1)] by blast
  then have "r = runId" "ex = None" using assms(2) by (simp_all add: resolve_run_def)
  with jobs have "jobs d' = map (cancel_job now k runId None) (jobs d)" by simp
  then show ?thesis by (auto simp: cancel_job_def cancellable_def)
qed

section \<open>Witnesses\<close>

definition propagation_holds :: "prop_error + (db \<times> propagation) \<Rightarrow> (db \<Rightarrow> propagation \<Rightarrow> bool) \<Rightarrow> bool" where
  "propagation_holds r P = (case r of Inl _ \<Rightarrow> False | Inr (d, g) \<Rightarrow> P d g)"

lemma propagation_holdsE:
  "propagation_holds r P \<Longrightarrow> (\<And>d g. r = Inr (d, g) \<Longrightarrow> P d g \<Longrightarrow> thesis) \<Longrightarrow> thesis"
  by (auto simp: propagation_holds_def split: sum.splits)

lemma sample_done:
  "propagation_holds (propagateStatusUpwards 9 ''t1'' T_DONE None sample_db) (\<lambda>_ _. True)"
  by code_simp

lemma sample_failed:
  "propagation_holds (propagateStatusUpwards 9 ''t1'' T_FAILED (Some ''r1'') sample_db)
     (\<lambda>d g. list_ex (\<lambda>r. r_id r = ''r1'' \<and> r_status r = RUN_FAILED) (runs d))"
  by code_simp

lemma sample_run_open: "list_all (\<lambda>r. r_id r = ''r1'' \<longrightarrow> r_status r \<noteq> RUN_FAILED) (runs sample_db)"
  by code_simp

theorem propagation_consistent_witness:
  "\<exists>d' g. propagateStatusUpwards 9 ''t1'' T_DONE None sample_db = Inr (d', g) \<and>
     chain_consistent (g_story_id g) d'"
  by (rule propagation_holdsE [OF sample_done]) (use propagation_consistent [OF sample_keys] in blast)


theorem propagation_run_outcome_witness:
  "\<exists>d' g. propagateStatusUpwards 9 ''t1'' T_FAILED (Some ''r1'') sample_db = Inr (d', g) \<and>
     (\<not> g_sprint_run_changed g \<and> jobs d' = jobs sample_db \<or>
      jobs d' = jobs sample_db \<or> (\<exists>r ex. jobs d' = map (cancel_job 9 ''t1'' r ex) (jobs sample_db)))"
  by (rule propagation_holdsE [OF sample_failed]) (use propagation_run_outcome in blast)

theorem explicit_run_cancels_all_witness:
  "\<exists>d' g. propagateStatusUpwards 9 ''t1'' T_FAILED (Some ''r1'') sample_db = Inr (d', g) \<and>
     (\<forall>j \<in> set (jobs d'). j_sprint_run_id j = Some ''r1'' \<longrightarrow> \<not> active (j_status j))"
proof (rule propagation_holdsE [OF sample_failed])
  fix d' g
  assume "propagateStatusUpwards 9 ''t1'' T_FAILED (Some ''r1'') sample_db = Inr (d', g)"
    and "list_ex (\<lambda>r. r_id r = ''r1'' \<and> r_status r = RUN_FAILED) (runs d')"
  then show ?thesis
    using explicit_run_cancels_all [of 9 "''t1''" T_FAILED "''r1''" sample_db d' g] sample_run_open
    by (auto simp: list_ex_iff list_all_iff)
qed

end
