(* ===== verification/Managed_Jobs.thy ===== *)
theory Managed_Jobs
  imports Samples
begin

text \<open>
  The guards of \<open>src/src/dispatch/managed-job.ts\<close> that keep the ordinary consumers away from the
  jobs and tasks of a managed dispatch, and the matcher that recognises the refusal in an error's
  cause chain.
\<close>

section \<open>Markers\<close>

definition managed_kind :: "job_kind \<Rightarrow> bool" where
  "managed_kind k \<longleftrightarrow> k \<in> {QUEUE_TASK, QUEUE_REVIEW}"

text \<open>The job's own markers.\<close>

definition isManagedJobRow :: "job \<Rightarrow> bool" where
  "isManagedJobRow j \<longleftrightarrow>
     j_dispatch_request_id j \<noteq> None \<or> j_dispatch_candidate_id j \<noteq> None \<or> managed_kind (j_kind j)"

definition managed_task :: "id \<Rightarrow> db \<Rightarrow> bool" where
  "managed_task k d = (case find_task k d of None \<Rightarrow> False | Some t \<Rightarrow> t_dispatch_request_id t \<noteq> None)"

text \<open>
  With the bindings of the tasks it works on. The code selects the job together with its executions
  whose task is dispatched and with its task; here they are looked up in the database.
\<close>

definition managed_executions :: "job \<Rightarrow> db \<Rightarrow> execution list" where
  "managed_executions j d = filter (\<lambda>e. e_sprint_job_id e = j_id j \<and> managed_task (e_task_id e) d) (execs d)"

definition job_task_managed :: "job \<Rightarrow> db \<Rightarrow> bool" where
  "job_task_managed j d = (case j_task_id j of None \<Rightarrow> False | Some k \<Rightarrow> managed_task k d)"

definition isManagedJob :: "job \<Rightarrow> db \<Rightarrow> bool" where
  "isManagedJob j d \<longleftrightarrow> managed_executions j d \<noteq> [] \<or> job_task_managed j d \<or> isManagedJobRow j"

datatype managed_error = DISPATCH_MANAGED_ROW

definition assertUnmanagedJob :: "job option \<Rightarrow> db \<Rightarrow> managed_error + unit" where
  "assertUnmanagedJob x d = (case x of
     None \<Rightarrow> Inr () | Some j \<Rightarrow> if isManagedJob j d then Inl DISPATCH_MANAGED_ROW else Inr ())"

definition assertUnmanagedJobRow :: "job option \<Rightarrow> managed_error + unit" where
  "assertUnmanagedJobRow x = (case x of
     None \<Rightarrow> Inr () | Some j \<Rightarrow> if isManagedJobRow j then Inl DISPATCH_MANAGED_ROW else Inr ())"

definition assertUnmanagedJobId :: "id \<Rightarrow> db \<Rightarrow> managed_error + unit" where
  "assertUnmanagedJobId k d = assertUnmanagedJob (find_job k d) d"

text \<open>
  The guard of clean-up paths: a failing read (\<open>read_ok\<close> false) must not stop the clean-up, and only
  the job's own markers count.
\<close>

definition assertUnmanagedJobCleanup :: "bool \<Rightarrow> id \<Rightarrow> db \<Rightarrow> managed_error + unit" where
  "assertUnmanagedJobCleanup read_ok k d =
     (if \<not> read_ok then Inr () else assertUnmanagedJobRow (find_job k d))"

text \<open>The task guard refuses with the error shape of the database trigger.\<close>

definition assertUnmanagedTask :: "id \<Rightarrow> db \<Rightarrow> managed_error + unit" where
  "assertUnmanagedTask k d = (if managed_task k d then Inl DISPATCH_MANAGED_ROW else Inr ())"

lemma managed_task_frame: "tasks d' = tasks d \<Longrightarrow> managed_task k d' = managed_task k d"
  by (simp add: managed_task_def find_task_def)

lemma isManagedJob_frame:
  assumes "tasks d' = tasks d" and "execs d' = execs d"
  shows "isManagedJob j d' = isManagedJob j d"
  using assms(2) managed_task_frame [OF assms(1)]
  by (simp add: isManagedJob_def managed_executions_def job_task_managed_def split: option.split)

lemma isManagedJob_lease [simp]: "isManagedJob (j\<lparr>j_lease_until := l\<rparr>) d = isManagedJob j d"
  by (simp add: isManagedJob_def managed_executions_def job_task_managed_def isManagedJobRow_def)

section \<open>The refusal in a cause chain\<close>

text \<open>
  A JavaScript error value is a primitive or a reference to an object; an object carries the fields
  the matcher reads. Cause chains may be cyclic, hence the set of visited objects in the code.
\<close>

datatype js_value = Prim | Ref nat

record js_object =
  o_code :: "string option"
  o_message :: "string option"
  o_cause :: js_value

type_synonym js_heap = "js_object list"

definition managed_row_text :: string where
  "managed_row_text = ''DISPATCH_MANAGED_ROW''"

definition refusal_object :: "js_object \<Rightarrow> bool" where
  "refusal_object e \<longleftrightarrow> o_code e = Some ''42501'' \<and> str_includes managed_row_text (or_else (o_message e) [])"

function walk :: "js_heap \<Rightarrow> nat list \<Rightarrow> js_value \<Rightarrow> bool" where
  "walk h seen Prim = False"
| "walk h seen (Ref a) =
     (if a \<ge> length h \<or> a \<in> set seen then False
      else if refusal_object (h ! a) then True
      else walk h (a # seen) (o_cause (h ! a)))"
  by pat_completeness auto
termination
proof (relation "measure (\<lambda>(h, seen, v). card ({0..<length h} - set seen))")
  fix h :: js_heap and seen :: "nat list" and a :: nat
  assume "\<not> (a \<ge> length h \<or> a \<in> set seen)"
  then have "a \<in> {0..<length h} - set seen" by simp
  then have "card ({0..<length h} - set seen - {a}) < card ({0..<length h} - set seen)"
    by (intro card_Diff1_less) simp_all
  moreover have "{0..<length h} - set (a # seen) = {0..<length h} - set seen - {a}" by auto
  ultimately show "((h, a # seen, o_cause (h ! a)), h, seen, Ref a)
      \<in> measure (\<lambda>(h, seen, v). card ({0..<length h} - set seen))" by simp
qed simp

definition isManagedTaskRefusal :: "js_heap \<Rightarrow> js_value \<Rightarrow> bool" where
  "isManagedTaskRefusal h v = walk h [] v"

text \<open>\<open>managedTaskRefusal()\<close>: an error whose cause carries the code of the trigger.\<close>

definition managedTaskRefusal :: "js_heap \<Rightarrow> js_heap \<times> js_value" where
  "managedTaskRefusal h =
     (h @ [\<lparr>o_code = Some ''42501'', o_message = Some managed_row_text, o_cause = Prim\<rparr>,
           \<lparr>o_code = None, o_message = Some managed_row_text, o_cause = Ref (length h)\<rparr>],
      Ref (length h + 1))"

text \<open>The objects on a cause chain, whatever its shape.\<close>

inductive on_chain :: "js_heap \<Rightarrow> js_value \<Rightarrow> nat \<Rightarrow> bool" for h where
  here: "a < length h \<Longrightarrow> on_chain h (Ref a) a"
| cause: "a < length h \<Longrightarrow> on_chain h (o_cause (h ! a)) b \<Longrightarrow> on_chain h (Ref a) b"

inductive_cases on_chain_PrimE: "on_chain h Prim b"
inductive_simps on_chain_Ref: "on_chain h (Ref a) b"

lemma walk_sound: "walk h seen v \<Longrightarrow> \<exists>a. on_chain h v a \<and> refusal_object (h ! a)"
proof (induction h seen v rule: walk.induct)
  case (1 h seen)
  then show ?case by simp
next
  case (2 h seen a)
  then show ?case by (auto simp: on_chain_Ref split: if_splits)
qed

text \<open>
  Completeness: the visited objects carry no refusal and their causes lead to visited objects or to
  the value the walk looks at next, so a walk that comes back to a visited object misses nothing.
\<close>

definition walked :: "js_heap \<Rightarrow> nat list \<Rightarrow> js_value \<Rightarrow> bool" where
  "walked h seen v \<longleftrightarrow> (\<forall>s \<in> set seen. \<not> refusal_object (h ! s) \<and>
     (o_cause (h ! s) = v \<or> (\<exists>s' \<in> set seen. o_cause (h ! s) = Ref s')))"

lemma on_chain_closed:
  assumes "\<forall>s \<in> S. \<exists>s' \<in> S. o_cause (h ! s) = Ref s'" and "on_chain h v b" and "v = Ref a" and "a \<in> S"
  shows "b \<in> S"
  using assms(2,3,4)
proof (induction arbitrary: a rule: on_chain.induct)
  case (here a')
  then show ?case by simp
next
  case (cause a' b)
  then have "a' \<in> S" by simp
  then obtain s' where "s' \<in> S" "o_cause (h ! a') = Ref s'" using assms(1) by blast
  then show ?case using cause.IH by simp
qed

lemma walk_complete:
  "\<not> walk h seen v \<Longrightarrow> walked h seen v \<Longrightarrow> on_chain h v b \<Longrightarrow> \<not> refusal_object (h ! b)"
proof (induction h seen v rule: walk.induct)
  case (1 h seen)
  then show ?case by (auto elim: on_chain_PrimE)
next
  case (2 h seen a)
  consider "a \<ge> length h" | "a \<in> set seen" | "a < length h" "a \<notin> set seen" by fastforce
  then show ?case
  proof cases
    case 1
    then show ?thesis using "2.prems"(3) by (simp add: on_chain_Ref)
  next
    case 2
    then have "\<forall>s \<in> set seen. \<exists>s' \<in> set seen. o_cause (h ! s) = Ref s'"
      using "2.prems"(2) by (fastforce simp: walked_def)
    then have "b \<in> set seen" using "2.prems"(3) 2 by (blast intro: on_chain_closed)
    then show ?thesis using "2.prems"(2) by (simp add: walked_def)
  next
    case 3
    have "walked h (a # seen) (o_cause (h ! a))"
      using "2.prems"(1,2) 3 by (auto simp: walked_def)
    then show ?thesis using 2 3 by (auto simp: on_chain_Ref split: if_splits)
  qed
qed

lemma on_chain_weaken: "on_chain h v b \<Longrightarrow> on_chain (h @ g) v b"
  by (induction rule: on_chain.induct) (auto intro: on_chain.intros simp: nth_append)

lemma isManagedTaskRefusal_iff:
  "isManagedTaskRefusal h v \<longleftrightarrow> (\<exists>a. on_chain h v a \<and> refusal_object (h ! a))"
  using walk_sound [of h "[]" v] walk_complete [of h "[]" v]
  by (auto simp: isManagedTaskRefusal_def walked_def)

section \<open>Properties\<close>

text \<open>
  The matcher terminates on every object graph, cyclic cause chains included, and answers yes
  exactly when some object on the cause chain carries the refusal.
\<close>

theorem refusal_matcher_correct:
  "isManagedTaskRefusal h v \<longleftrightarrow> (\<exists>a. on_chain h v a \<and> refusal_object (h ! a))"
  by (rule isManagedTaskRefusal_iff)

text \<open>
  The guards nest: whenever the row guard of the clean-up path refuses a job, the full guard
  refuses it too; and a job whose own row is unmarked passes the clean-up guard whatever the tasks
  it was bound to have become.
\<close>

theorem managed_guards_nest:
  "(assertUnmanagedJobId k d = Inr () \<longleftrightarrow>
      (case find_job k d of None \<Rightarrow> True
       | Some j \<Rightarrow> \<not> job_task_managed j d \<and> managed_executions j d = [] \<and>
           assertUnmanagedJobCleanup True k d = Inr ())) \<and>
   assertUnmanagedJobCleanup True k (d\<lparr>tasks := ts, execs := es\<rparr>) = assertUnmanagedJobCleanup True k d"
  by (auto simp: assertUnmanagedJobId_def assertUnmanagedJob_def assertUnmanagedJobCleanup_def
      assertUnmanagedJobRow_def isManagedJob_def find_job_def split: option.splits)


text \<open>
  The refusal that \<open>assertUnmanagedTask\<close> raises is recognised by the matcher, whatever other
  objects exist, and the bare error of the job guards (no code anywhere on its chain) is not.
\<close>

theorem own_refusal_recognised:
  "(case managedTaskRefusal h of (h', v) \<Rightarrow> isManagedTaskRefusal h' v) \<and>
   \<not> isManagedTaskRefusal [\<lparr>o_code = None, o_message = Some managed_row_text, o_cause = Prim\<rparr>] (Ref 0)"
proof -
  have incl: "str_includes managed_row_text managed_row_text" by code_simp
  obtain h' where h': "managedTaskRefusal h = (h', Ref (Suc (length h)))"
      "length h' = Suc (Suc (length h))" "o_cause (h' ! Suc (length h)) = Ref (length h)"
      "refusal_object (h' ! length h)"
    by (simp add: managedTaskRefusal_def refusal_object_def incl nth_append)
  have "on_chain h' (Ref (Suc (length h))) (length h)"
    using h' by (auto intro!: on_chain.cause on_chain.here)
  then have "isManagedTaskRefusal h' (Ref (Suc (length h)))"
    using h'(4) by (auto simp: isManagedTaskRefusal_iff)
  moreover have "\<not> isManagedTaskRefusal [\<lparr>o_code = None, o_message = Some managed_row_text, o_cause = Prim\<rparr>] (Ref 0)"
    by (simp add: isManagedTaskRefusal_def refusal_object_def)
  ultimately show ?thesis by (simp add: h'(1))
qed

end
