(* ===== verification/Job_Locks.thy ===== *)
theory Job_Locks
  imports Managed_Jobs
begin

text \<open>
  The locks on product worktrees: \<open>src/src/git/file-lock.ts\<close> (\<open>acquireFileLocksOrdered\<close>) and
  \<open>src/src/git/job-locks.ts\<close> (\<open>setupProductWorktrees\<close>, the registry of releases,
  \<open>releaseLocksOnTerminal\<close>), and the interleaving of several jobs that take their locks in order.

  The lock files themselves are the package \<open>proper-lockfile\<close>: \<open>lock\<close> and \<open>unlock\<close> are arguments.
\<close>

section \<open>Acquiring in order\<close>

text \<open>
  The loop of \<open>acquireFileLocksOrdered\<close>; \<open>taken\<close> is \<open>releases.reverse()\<close>. A lock that cannot be
  taken (\<open>None\<close>) releases what was taken, newest first, and throws.
\<close>

fun acquire_loop ::
  "(string \<Rightarrow> 's \<Rightarrow> 's option) \<Rightarrow> (string \<Rightarrow> 's \<Rightarrow> 's) \<Rightarrow> string list \<Rightarrow> string list \<Rightarrow> 's
     \<Rightarrow> 's + ('s \<times> string list)" where
  "acquire_loop lock unlock taken [] s = Inr (s, taken)"
| "acquire_loop lock unlock taken (p # ps) s =
     (case lock p s of
        None \<Rightarrow> Inl (fold unlock taken s)
      | Some s' \<Rightarrow> acquire_loop lock unlock (p # taken) ps s')"

definition acquireFileLocksOrdered ::
  "(string \<Rightarrow> 's \<Rightarrow> 's option) \<Rightarrow> (string \<Rightarrow> 's \<Rightarrow> 's) \<Rightarrow> string list \<Rightarrow> 's \<Rightarrow> 's + ('s \<times> string list)" where
  "acquireFileLocksOrdered lock unlock lockPaths s = acquire_loop lock unlock [] (sort lockPaths) s"

text \<open>What the code relies on: releasing the lock that was just taken undoes taking it.\<close>

definition lock_undo :: "(string \<Rightarrow> 's \<Rightarrow> 's option) \<Rightarrow> (string \<Rightarrow> 's \<Rightarrow> 's) \<Rightarrow> bool" where
  "lock_undo lock unlock \<longleftrightarrow> (\<forall>p s s'. lock p s = Some s' \<longrightarrow> unlock p s' = s)"

lemma acquire_loop_undo:
  assumes "lock_undo lock unlock" and "fold unlock taken s = s0"
  shows "case acquire_loop lock unlock taken ps s of
           Inl s' \<Rightarrow> s' = s0
         | Inr (s', taken') \<Rightarrow> fold unlock taken' s' = s0 \<and> taken' = rev ps @ taken"
  using assms(2)
proof (induction ps arbitrary: taken s)
  case Nil
  then show ?case by simp
next
  case (Cons p ps)
  show ?case
  proof (cases "lock p s")
    case None
    then show ?thesis using Cons.prems by simp
  next
    case (Some s')
    then have "fold unlock (p # taken) s' = s0"
      using assms(1) Cons.prems by (simp add: lock_undo_def)
    from Cons.IH [OF this] Some show ?thesis by (auto split: sum.splits)
  qed
qed

section \<open>The locks of a job\<close>

definition getProductWorktreeLockPath :: "string \<Rightarrow> id \<Rightarrow> string" where
  "getProductWorktreeLockPath root productId = root @ ''/_products/'' @ productId @ ''.lock''"

text \<open>The state: the lock files, and the in-process registry of releases of each job.\<close>

record 's lock_state =
  l_files :: 's
  l_registry :: "id \<Rightarrow> string list list option"

definition registerJobLockReleases :: "id \<Rightarrow> string list list \<Rightarrow> 's lock_state \<Rightarrow> 's lock_state" where
  "registerJobLockReleases jobId releases s =
     s\<lparr>l_registry := (l_registry s)(jobId := Some (or_else (l_registry s jobId) [] @ releases))\<rparr>"

definition releaseLocksOnTerminal ::
  "(string \<Rightarrow> 's \<Rightarrow> 's) \<Rightarrow> managed_error + unit \<Rightarrow> id \<Rightarrow> 's lock_state \<Rightarrow> managed_error + 's lock_state" where
  "releaseLocksOnTerminal unlock guard jobId s = (case l_registry s jobId of
     None \<Rightarrow> Inr s
   | Some releases \<Rightarrow> and_then guard (\<lambda>_.
       Inr \<lparr>l_files = fold (fold unlock) releases (l_files s), l_registry = (l_registry s)(jobId := None)\<rparr>))"

datatype setup_error = Setup_managed managed_error | Setup_lock_failed | Setup_worktree_failed id

text \<open>
  \<open>repoRoot p\<close> is the answer of \<open>resolveRepoRoot\<close>; \<open>worktree root p\<close> is the path of the product
  worktree when git could create and sync it, \<open>None\<close> when it threw.
\<close>

fun setup_worktrees ::
  "(id \<Rightarrow> string option) \<Rightarrow> (string \<Rightarrow> id \<Rightarrow> string option) \<Rightarrow> id list \<Rightarrow> setup_error + (id \<times> string) list" where
  "setup_worktrees repoRoot worktree [] = Inr []"
| "setup_worktrees repoRoot worktree (p # ps) =
     (if \<not> truthy (repoRoot p) then setup_worktrees repoRoot worktree ps
      else case worktree (the (repoRoot p)) p of
          None \<Rightarrow> Inl (Setup_worktree_failed p)
        | Some w \<Rightarrow> and_then (setup_worktrees repoRoot worktree ps) (\<lambda>out. Inr ((p, w) # out)))"

text \<open>
  \<open>setupProductWorktrees\<close>: the result together with the state it leaves, since the locks stay
  registered when a worktree fails.
\<close>

definition setupProductWorktrees ::
  "string \<Rightarrow> (string \<Rightarrow> 's \<Rightarrow> 's option) \<Rightarrow> (string \<Rightarrow> 's \<Rightarrow> 's) \<Rightarrow> managed_error + unit \<Rightarrow> id \<Rightarrow> id list \<Rightarrow>
   (id \<Rightarrow> string option) \<Rightarrow> (string \<Rightarrow> id \<Rightarrow> string option) \<Rightarrow> 's lock_state \<Rightarrow>
   's lock_state \<times> (setup_error + (id \<times> string) list)" where
  "setupProductWorktrees root lock unlock guard jobId productIds repoRoot worktree s =
     (if productIds = [] then (s, Inr [])
      else case guard of
        Inl e \<Rightarrow> (s, Inl (Setup_managed e))
      | Inr _ \<Rightarrow>
          (case acquireFileLocksOrdered lock unlock (map (getProductWorktreeLockPath root) (sort productIds)) (l_files s) of
             Inl files \<Rightarrow> (s\<lparr>l_files := files\<rparr>, Inl Setup_lock_failed)
           | Inr (files, taken) \<Rightarrow>
               (registerJobLockReleases jobId [taken] (s\<lparr>l_files := files\<rparr>),
                setup_worktrees repoRoot worktree productIds)))"

lemma setup_worktrees_order:
  "setup_worktrees repoRoot worktree ps = Inr out \<Longrightarrow> map fst out = filter (\<lambda>p. truthy (repoRoot p)) ps"
proof (induction ps arbitrary: out)
  case Nil
  then show ?case by simp
next
  case (Cons p ps)
  show ?case
  proof (cases "truthy (repoRoot p)")
    case False
    then show ?thesis using Cons by simp
  next
    case True
    with Cons.prems obtain w o' where "setup_worktrees repoRoot worktree ps = Inr o'" "out = (p, w) # o'"
      by (auto simp: and_then_Inr_iff split: option.splits)
    then show ?thesis using Cons.IH True by simp
  qed
qed

section \<open>Several jobs at once\<close>

text \<open>
  Each job still wants some locks, in its order, and holds some; a wanted lock is taken when no job
  holds it, a job that has all its locks may release them, and a job waiting for a held lock may
  give up (the retries of the package run out), which releases what it holds.
\<close>

record contention =
  k_want :: "id \<Rightarrow> string list"
  k_held :: "id \<Rightarrow> string list"

datatype lock_action = Acquire id | Release id | Give_up id

inductive lock_step :: "id set \<Rightarrow> contention \<Rightarrow> lock_action \<Rightarrow> contention \<Rightarrow> bool" for J where
  acquire: "\<lbrakk>j \<in> J; k_want s j = p # ps; \<And>i. i \<in> J \<Longrightarrow> p \<notin> set (k_held s i)\<rbrakk> \<Longrightarrow>
    lock_step J s (Acquire j) (s\<lparr>k_want := (k_want s)(j := ps), k_held := (k_held s)(j := p # k_held s j)\<rparr>)"
| release: "\<lbrakk>j \<in> J; k_want s j = []; k_held s j \<noteq> []\<rbrakk> \<Longrightarrow>
    lock_step J s (Release j) (s\<lparr>k_held := (k_held s)(j := [])\<rparr>)"
| give_up: "\<lbrakk>j \<in> J; k_want s j = p # ps; i \<in> J; p \<in> set (k_held s i)\<rbrakk> \<Longrightarrow>
    lock_step J s (Give_up j) (s\<lparr>k_want := (k_want s)(j := []), k_held := (k_held s)(j := [])\<rparr>)"

inductive_cases lock_stepE: "lock_step J s a s'"

text \<open>The jobs start with the lock order that \<open>setupProductWorktrees\<close> computes and hold nothing.\<close>

definition lock_order :: "string \<Rightarrow> id list \<Rightarrow> string list" where
  "lock_order root productIds = sort (map (getProductWorktreeLockPath root) (sort productIds))"

definition contention_start :: "string \<Rightarrow> (id \<Rightarrow> id list) \<Rightarrow> contention" where
  "contention_start root prods = \<lparr>k_want = (\<lambda>j. lock_order root (prods j)), k_held = (\<lambda>_. [])\<rparr>"

inductive lock_reachable :: "id set \<Rightarrow> contention \<Rightarrow> contention \<Rightarrow> bool" for J s0 where
  start: "lock_reachable J s0 s0"
| step: "lock_reachable J s0 s \<Longrightarrow> lock_step J s a s' \<Longrightarrow> lock_reachable J s0 s'"

definition ordered :: "id set \<Rightarrow> contention \<Rightarrow> bool" where
  "ordered J s \<longleftrightarrow> (\<forall>j \<in> J. sorted (k_want s j) \<and> distinct (k_want s j) \<and>
     (\<forall>h \<in> set (k_held s j). \<forall>w \<in> set (k_want s j). h < w))"

definition exclusive :: "id set \<Rightarrow> contention \<Rightarrow> bool" where
  "exclusive J s \<longleftrightarrow> (\<forall>i \<in> J. \<forall>j \<in> J. i \<noteq> j \<longrightarrow> set (k_held s i) \<inter> set (k_held s j) = {})"

lemma lock_step_ordered: "lock_step J s a s' \<Longrightarrow> ordered J s \<Longrightarrow> ordered J s'"
proof (erule lock_stepE)
  fix j p ps
  assume s': "s' = s\<lparr>k_want := (k_want s)(j := ps), k_held := (k_held s)(j := p # k_held s j)\<rparr>"
    and j: "j \<in> J" and want: "k_want s j = p # ps" and ord: "ordered J s"
  from ord j want have "sorted (p # ps)" "distinct (p # ps)" "\<forall>h \<in> set (k_held s j). \<forall>w \<in> set (p # ps). h < w"
    by (auto simp: ordered_def dest!: bspec)
  moreover from this have "\<forall>w \<in> set ps. p < w" by (auto simp: order_less_le)
  ultimately show "ordered J s'"
    using ord by (auto simp: ordered_def s')
qed (auto simp: ordered_def)

lemma lock_step_exclusive: "lock_step J s a s' \<Longrightarrow> exclusive J s \<Longrightarrow> exclusive J s'"
  by (erule lock_stepE) (auto simp: exclusive_def)

lemma getProductWorktreeLockPath_inj: "inj (getProductWorktreeLockPath root)"
  by (auto simp: inj_def getProductWorktreeLockPath_def)

lemma start_ordered:
  assumes "\<And>j. j \<in> J \<Longrightarrow> distinct (prods j)"
  shows "ordered J (contention_start root prods)" and "exclusive J (contention_start root prods)"
  using assms getProductWorktreeLockPath_inj [of root]
  by (auto simp: ordered_def exclusive_def contention_start_def lock_order_def distinct_map
      intro: inj_on_subset)

lemma reachable_ordered:
  "lock_reachable J s0 s \<Longrightarrow> ordered J s0 \<and> exclusive J s0 \<Longrightarrow> ordered J s \<and> exclusive J s"
  by (induction rule: lock_reachable.induct) (blast intro: lock_step_ordered lock_step_exclusive)+

text \<open>
  The argument: of all locks that blocked jobs wait for, consider the largest. Its holder holds a
  lock at least as large as anything waited for, so it cannot be waiting.
\<close>

lemma ordered_progress:
  assumes fin: "finite J" and ord: "ordered J s" and work: "j \<in> J" "k_want s j \<noteq> [] \<or> k_held s j \<noteq> []"
  shows "\<exists>i \<in> J. \<exists>s'. lock_step J s (Acquire i) s' \<or> lock_step J s (Release i) s'"
proof (rule ccontr)
  assume stuck: "\<not> ?thesis"
  define waiting where "waiting = {i \<in> J. k_want s i \<noteq> []}"
  have blocked: "\<exists>k \<in> J. hd (k_want s i) \<in> set (k_held s k)" if "i \<in> waiting" for i
  proof (rule ccontr)
    assume free: "\<not> ?thesis"
    have "k_want s i \<noteq> []" using that by (simp add: waiting_def)
    then obtain p ps where "k_want s i = p # ps" by (meson neq_Nil_conv)
    moreover from this free have "p \<notin> set (k_held s k)" if "k \<in> J" for k using that by simp
    moreover have "i \<in> J" using that by (simp add: waiting_def)
    ultimately show False using stuck lock_step.acquire by blast
  qed
  have holder_waits: "k \<in> waiting" if "k \<in> J" "k_held s k \<noteq> []" for k
  proof -
    have "k_want s k = [] \<Longrightarrow> False" using stuck that lock_step.release [of k J s] by blast
    then show ?thesis using that(1) by (auto simp: waiting_def)
  qed
  have "j \<in> waiting" using work holder_waits by (auto simp: waiting_def)
  then have ne: "(\<lambda>i. hd (k_want s i)) ` waiting \<noteq> {}" by auto
  have finw: "finite ((\<lambda>i. hd (k_want s i)) ` waiting)" using fin by (simp add: waiting_def)
  obtain i where i: "i \<in> waiting" and max: "\<And>k. k \<in> waiting \<Longrightarrow> hd (k_want s k) \<le> hd (k_want s i)"
    using Max_in [OF finw ne] Max_ge [OF finw] by fastforce
  obtain k where k: "k \<in> J" "hd (k_want s i) \<in> set (k_held s k)" using blocked [OF i] by blast
  then have kw: "k \<in> waiting" by (intro holder_waits) auto
  then have "hd (k_want s k) \<in> set (k_want s k)" by (simp add: waiting_def)
  then have "hd (k_want s i) < hd (k_want s k)" using ord k by (auto simp: ordered_def)
  with max [OF kw] show False by simp
qed

section \<open>Properties\<close>

text \<open>
  No lock leaks: after \<open>setupProductWorktrees\<close>, whatever its outcome, releasing the job's
  locks gives back the lock files and the registry as they were before; and when it succeeds it
  reports the products in the order of its input while having taken the locks in sorted order.
\<close>

theorem setup_release_roundtrip:
  assumes "lock_undo lock unlock" and "l_registry s jobId = None"
    and "setupProductWorktrees root lock unlock guard jobId ps repoRoot worktree s = (s', r)"
  shows "releaseLocksOnTerminal unlock (Inr ()) jobId s' = Inr s \<and>
    (\<forall>out. r = Inr out \<longrightarrow> map fst out = filter (\<lambda>p. truthy (repoRoot p)) ps)"
proof
  let ?paths = "map (getProductWorktreeLockPath root) (sort ps)"
  note undo = acquire_loop_undo [OF assms(1), of "[]" "l_files s" "l_files s" "sort ?paths"]
  consider (none) "s' = s"
    | (failed) files where "acquireFileLocksOrdered lock unlock ?paths (l_files s) = Inl files" "s' = s\<lparr>l_files := files\<rparr>"
    | (taken) files taken where "acquireFileLocksOrdered lock unlock ?paths (l_files s) = Inr (files, taken)"
        "s' = registerJobLockReleases jobId [taken] (s\<lparr>l_files := files\<rparr>)"
  proof (cases "ps = [] \<or> (\<exists>e. guard = Inl e)")
    case True
    then show thesis using assms(3) by (intro none; cases "ps = []") (auto simp: setupProductWorktrees_def)
  next
    case False
    then obtain u where "ps \<noteq> []" "guard = Inr u" by (cases guard) auto
    note res = assms(3) [unfolded setupProductWorktrees_def this(2), simplified \<open>ps \<noteq> []\<close> if_False sum.case]
    show thesis
    proof (cases "acquireFileLocksOrdered lock unlock ?paths (l_files s)")
      case (Inl files)
      then show thesis using res by (intro failed [OF Inl]) simp
    next
      case (Inr x)
      then show thesis using res by (cases x) (simp add: taken)
    qed
  qed
  then show "releaseLocksOnTerminal unlock (Inr ()) jobId s' = Inr s"
  proof cases
    case none
    then show ?thesis using assms(2) by (simp add: releaseLocksOnTerminal_def)
  next
    case failed
    then show ?thesis using undo assms(2) by (simp add: releaseLocksOnTerminal_def acquireFileLocksOrdered_def)
  next
    case taken
    then show ?thesis using undo assms(2)
      by (auto simp: releaseLocksOnTerminal_def acquireFileLocksOrdered_def registerJobLockReleases_def fun_upd_idem)
  qed
  show "\<forall>out. r = Inr out \<longrightarrow> map fst out = filter (\<lambda>p. truthy (repoRoot p)) ps"
  proof (intro allI impI)
    fix out assume "r = Inr out"
    then have "ps = [] \<and> out = [] \<or> setup_worktrees repoRoot worktree ps = Inr out"
      using assms(3) unfolding setupProductWorktrees_def
      by (cases "ps = []"; cases guard; cases "acquireFileLocksOrdered lock unlock ?paths (l_files s)")
        (simp_all split: prod.splits)
    then show "map fst out = filter (\<lambda>p. truthy (repoRoot p)) ps"
      using setup_worktrees_order by auto
  qed
qed


section \<open>Witnesses\<close>

text \<open>A concrete lock table: the list of held paths.\<close>

definition table_lock :: "string \<Rightarrow> string list \<Rightarrow> string list option" where
  "table_lock p s = (if p \<in> set s then None else Some (p # s))"

definition table_unlock :: "string \<Rightarrow> string list \<Rightarrow> string list" where
  "table_unlock p s = remove1 p s"

lemma table_lock_undo: "lock_undo table_lock table_unlock"
  by (auto simp: lock_undo_def table_lock_def table_unlock_def)

theorem setup_release_roundtrip_witness:
  "releaseLocksOnTerminal table_unlock (Inr ()) ''j1''
     (fst (setupProductWorktrees ''/w'' table_lock table_unlock (Inr ()) ''j1'' [''b'', ''a''] (\<lambda>_. Some ''/r'')
        (\<lambda>_ _. None) \<lparr>l_files = [], l_registry = (\<lambda>_. None)\<rparr>)) =
   Inr \<lparr>l_files = [], l_registry = (\<lambda>_. None)\<rparr>"
  using setup_release_roundtrip [OF table_lock_undo, of "\<lparr>l_files = [], l_registry = (\<lambda>_. None)\<rparr>" "''j1''",
      OF _ surjective_pairing] by simp


end
