(* ===== verification/Flow_Effects.thy ===== *)
theory Flow_Effects
  imports Managed_Jobs
begin

text \<open>
  The executor of flow effects: \<open>executeEffects\<close>, \<open>executeEffect\<close>,
  \<open>createOrReuseClaudeQuestion\<close> and \<open>applySprintRunStatus\<close> of \<open>src/src/flow/effects.ts\<close>.

  The forge calls and the release of the locks are parameters (the record \<open>effect_env\<close>); what was
  called is kept in order. A failing effect (a throw) is skipped.
\<close>

section \<open>State and environment\<close>

datatype auto_merge = Merge_ok string | Merge_failed merge_fail string

datatype ext_call = Call_release id | Call_auto_merge string string | Call_ready string

text \<open>
  \<open>None\<close> is a call that throws. \<open>env_new_id d\<close> is the id the database gives to a row created in
  \<open>d\<close>; \<open>env_now\<close> is the clock.
\<close>

record effect_env =
  env_release :: "id \<Rightarrow> bool"
  env_auto_merge :: "string \<Rightarrow> string \<Rightarrow> auto_merge option"
  env_ready :: "string \<Rightarrow> bool"
  env_new_id :: "db \<Rightarrow> id"
  env_now :: time

record exec_state =
  x_db :: db
  x_calls :: "ext_call list"
  x_last_question :: "id option"
  x_outcomes :: "auto_merge list"

section \<open>The effects\<close>

text \<open>The texts are UTF-8; the em dash is written by its bytes.\<close>

definition em_dash :: string where
  "em_dash = map char_of [226, 128, 148 :: nat]"

definition conflict_file_list :: "string list \<Rightarrow> string" where
  "conflict_file_list files =
     (if files = [] then ''(unknown files '' @ em_dash @ '' check the PR)''
      else join '', '' (take 5 files) @
        (if length files > 5 then '' + '' @ digits (length files - 5) @ '' more'' else ''''))"

definition conflict_question :: "string \<Rightarrow> string list \<Rightarrow> string" where
  "conflict_question prUrl files =
     ''Merge-conflict on '' @ prUrl @ ''. Conflict files: '' @ conflict_file_list files @ ''. '' @
     ''Resolve on the branch and push, then resume the sprint.''"

definition question_ttl :: time where
  "question_ttl = 7 * 24 * 60 * 60 * 1000"

definition new_question :: "effect_env \<Rightarrow> sprint_run \<Rightarrow> sprint \<Rightarrow> string \<Rightarrow> string list \<Rightarrow> db \<Rightarrow> question" where
  "new_question env r sp prUrl files d =
     \<lparr>q_id = env_new_id env d, q_product_id = sp_product_id sp, q_asked_by = r_started_by_id r,
      q_sprint_run_id = Some (r_id r), q_pr_url = prUrl, q_conflict_files = files,
      q_text = conflict_question prUrl files, q_open = True,
      q_created_at = env_now env, q_expires_at = env_now env + question_ttl\<rparr>"

definition createOrReuseClaudeQuestion ::
  "effect_env \<Rightarrow> id \<Rightarrow> string \<Rightarrow> string list \<Rightarrow> db \<Rightarrow> (db \<times> id) option" where
  "createOrReuseClaudeQuestion env sprintRunId prUrl files d =
     (case first_by (\<lambda>q. - q_created_at q) (\<lambda>q. q_open q \<and> q_sprint_run_id q = Some sprintRunId) (questions d) of
        Some q \<Rightarrow> Some (d, q_id q)
      | None \<Rightarrow>
          (case find_run sprintRunId d of
             None \<Rightarrow> None
           | Some r \<Rightarrow>
               (case find_sprint (r_sprint_id r) d of
                  None \<Rightarrow> None
                | Some sp \<Rightarrow>
                    Some (d\<lparr>questions := questions d @ [new_question env r sp prUrl files d]\<rparr>, env_new_id env d))))"

definition with_question :: "pause_draft \<Rightarrow> id \<Rightarrow> pause_context" where
  "with_question p k = pause_draft.extend p (pause_context.fields k)"

definition applySprintRunStatus ::
  "id \<Rightarrow> run_status \<Rightarrow> pause_draft option \<Rightarrow> bool \<Rightarrow> id option \<Rightarrow> db \<Rightarrow> db option" where
  "applySprintRunStatus sprintRunId status draft clear lastQuestion d =
     (case find_run sprintRunId d of
        None \<Rightarrow> None
      | Some _ \<Rightarrow> Some (update_runs (\<lambda>r. r_id r = sprintRunId)
          (\<lambda>r. r\<lparr>r_status := status,
                r_pause_context :=
                  (if clear then None
                   else case draft of
                       Some p \<Rightarrow> if truthy lastQuestion then Some (Merge_pause (with_question p (the lastQuestion)))
                                 else r_pause_context r
                     | None \<Rightarrow> r_pause_context r)\<rparr>) d))"

text \<open>One iteration of the loop: \<open>None\<close> when the effect throws.\<close>

definition executeEffect :: "effect_env \<Rightarrow> flow_effect \<Rightarrow> exec_state \<Rightarrow> exec_state option" where
  "executeEffect env f x = (case f of
     CREATE_CLAUDE_QUESTION run url files \<Rightarrow>
       map_option (\<lambda>(d, k). x\<lparr>x_db := d, x_last_question := Some k\<rparr>)
         (createOrReuseClaudeQuestion env run url files (x_db x))
   | SET_SPRINT_RUN_STATUS run st draft clear \<Rightarrow>
       map_option (\<lambda>d. x\<lparr>x_db := d\<rparr>) (applySprintRunStatus run st draft clear (x_last_question x) (x_db x))
   | RELEASE_WORKTREE_LOCKS j \<Rightarrow>
       (if env_release env j then Some (x\<lparr>x_calls := x_calls x @ [Call_release j]\<rparr>) else None)
   | ENABLE_AUTO_MERGE url sha \<Rightarrow>
       (case env_auto_merge env url sha of
          None \<Rightarrow> None
        | Some out \<Rightarrow> Some (x\<lparr>x_calls := x_calls x @ [Call_auto_merge url sha], x_outcomes := x_outcomes x @ [out]\<rparr>))
   | MARK_PR_READY url \<Rightarrow>
       (if env_ready env url then Some (x\<lparr>x_calls := x_calls x @ [Call_ready url]\<rparr>) else None)
   | CLOSE_CLAUDE_QUESTION k \<Rightarrow>
       Some (x\<lparr>x_db := (x_db x)\<lparr>questions :=
         update_where (\<lambda>q. q_id q = k \<and> q_open q) (\<lambda>q. q\<lparr>q_open := False\<rparr>) (questions (x_db x))\<rparr>\<rparr>))"

definition effect_loop :: "effect_env \<Rightarrow> flow_effect list \<Rightarrow> exec_state \<Rightarrow> exec_state" where
  "effect_loop env effects x =
     fold (\<lambda>f x. case executeEffect env f x of Some x' \<Rightarrow> x' | None \<Rightarrow> x) effects x"

definition executeEffects :: "effect_env \<Rightarrow> flow_effect list \<Rightarrow> db \<Rightarrow> exec_state" where
  "executeEffects env effects d =
     effect_loop env effects \<lparr>x_db = d, x_calls = [], x_last_question = None, x_outcomes = []\<rparr>"

lemma effect_loop_simps [simp]:
  "effect_loop env [] x = x"
  "effect_loop env (f # fs) x =
     effect_loop env fs (case executeEffect env f x of Some x' \<Rightarrow> x' | None \<Rightarrow> x)"
  by (simp_all add: effect_loop_def)

lemma effect_loop_append: "effect_loop env (fs @ gs) x = effect_loop env gs (effect_loop env fs x)"
  by (simp add: effect_loop_def)

text \<open>An invariant of every effect that does not throw is an invariant of the executor.\<close>

lemma effect_loop_invariant:
  assumes "\<And>f x x'. I x \<Longrightarrow> executeEffect env f x = Some x' \<Longrightarrow> I x'" and "I x"
  shows "I (effect_loop env fs x)"
  using assms(2)
proof (induction fs arbitrary: x)
  case Nil
  then show ?case by simp
next
  case (Cons f fs)
  then show ?case using assms(1) by (auto split: option.split)
qed

section \<open>One open question per run\<close>

definition open_questions :: "id \<Rightarrow> db \<Rightarrow> question list" where
  "open_questions run d = filter (\<lambda>q. q_open q \<and> q_sprint_run_id q = Some run) (questions d)"

definition single_question :: "db \<Rightarrow> bool" where
  "single_question d \<longleftrightarrow> (\<forall>run. length (open_questions run d) \<le> 1)"

lemma open_questions_frame: "questions d = questions d' \<Longrightarrow> open_questions run d = open_questions run d'"
  by (simp add: open_questions_def)

lemma single_question_frame: "questions d = questions d' \<Longrightarrow> single_question d = single_question d'"
  by (simp add: single_question_def open_questions_def)

lemma new_question_open [simp]:
  "q_open (new_question env r sp url files d)"
  "q_sprint_run_id (new_question env r sp url files d) = Some (r_id r)"
  "q_id (new_question env r sp url files d) = env_new_id env d"
  by (simp_all add: new_question_def)

text \<open>Whichever way the question came about, it is open, belongs to the run and is its only one.\<close>

lemma create_question:
  assumes "createOrReuseClaudeQuestion env run url files d = Some (d', k)"
  obtains (reused) q where "d' = d" "q \<in> set (open_questions run d)" "k = q_id q"
  | (created) r sp where "open_questions run d = []" "k = env_new_id env d" "r_id r = run"
      "d' = d\<lparr>questions := questions d @ [new_question env r sp url files d]\<rparr>"
proof (cases "first_by (\<lambda>q. - q_created_at q) (\<lambda>q. q_open q \<and> q_sprint_run_id q = Some run) (questions d)")
  case (Some q)
  then have "q \<in> set (open_questions run d)" by (auto simp: open_questions_def dest: first_by_Some)
  with Some show thesis using assms by (intro reused [of q]) (simp_all add: createOrReuseClaudeQuestion_def)
next
  case None
  then have "open_questions run d = []"
    by (auto simp: first_by_None open_questions_def filter_empty_conv)
  moreover obtain r sp where "find_run run d = Some r"
      "d' = d\<lparr>questions := questions d @ [new_question env r sp url files d]\<rparr>" "k = env_new_id env d"
    using None assms by (auto simp: createOrReuseClaudeQuestion_def split: option.splits)
  moreover from this have "r_id r = run" by (auto simp: find_run_def dest: find_by_Some)
  ultimately show thesis by (intro created)
qed

lemma create_single:
  assumes "single_question d" and "createOrReuseClaudeQuestion env run url files d = Some (d', k)"
  shows "single_question d'"
  using assms(2)
proof (cases rule: create_question)
  case reused
  then show ?thesis using assms(1) by simp
next
  case (created r sp)
  then have "open_questions i d' = open_questions i d @ (if i = run then [new_question env r sp url files d] else [])" for i
    by (simp add: open_questions_def)
  then show ?thesis using assms(1) created(1) by (simp add: single_question_def)
qed

lemma close_single:
  assumes "single_question d"
  shows "single_question (d\<lparr>questions := update_where (\<lambda>q. q_id q = k \<and> q_open q) (\<lambda>q. q\<lparr>q_open := False\<rparr>) (questions d)\<rparr>)"
proof -
  have "length (filter (\<lambda>q. q_open q \<and> q_sprint_run_id q = Some run)
          (update_where (\<lambda>q. q_id q = k \<and> q_open q) (\<lambda>q. q\<lparr>q_open := False\<rparr>) qs))
      \<le> length (filter (\<lambda>q. q_open q \<and> q_sprint_run_id q = Some run) qs)" for run qs
    by (induction qs) auto
  then show ?thesis
    using assms unfolding single_question_def open_questions_def by (auto intro: le_trans)
qed

lemma applySprintRunStatus_frame:
  "applySprintRunStatus run st draft clear lq d = Some d' \<Longrightarrow> questions d' = questions d \<and> jobs d' = jobs d"
  by (auto simp: applySprintRunStatus_def split: option.splits)

lemma effect_single:
  assumes "single_question (x_db x)" and "executeEffect env f x = Some x'"
  shows "single_question (x_db x')"
proof (cases f)
  case (CREATE_CLAUDE_QUESTION run url files)
  then show ?thesis using assms create_single by (auto simp: executeEffect_def)
next
  case (SET_SPRINT_RUN_STATUS run st draft clear)
  then obtain d where "applySprintRunStatus run st draft clear (x_last_question x) (x_db x) = Some d" "x_db x' = d"
    using assms(2) by (auto simp: executeEffect_def)
  then show ?thesis using assms(1) single_question_frame applySprintRunStatus_frame by blast
next
  case (CLOSE_CLAUDE_QUESTION k)
  then show ?thesis using assms close_single by (auto simp: executeEffect_def)
qed (use assms in \<open>auto simp: executeEffect_def split: if_splits option.splits\<close>)

section \<open>Forge outcomes\<close>

text \<open>The auto-merge result an effect contributes.\<close>

definition auto_merge_outcome :: "effect_env \<Rightarrow> flow_effect \<Rightarrow> auto_merge option" where
  "auto_merge_outcome env f = (case f of ENABLE_AUTO_MERGE u sha \<Rightarrow> env_auto_merge env u sha | _ \<Rightarrow> None)"

lemma effect_outcomes:
  "x_outcomes (case executeEffect env f x of Some x' \<Rightarrow> x' | None \<Rightarrow> x) =
     x_outcomes x @ (case auto_merge_outcome env f of None \<Rightarrow> [] | Some o' \<Rightarrow> [o'])"
  by (cases f) (auto simp: executeEffect_def auto_merge_outcome_def split: option.split)

lemma loop_outcomes:
  "x_outcomes (effect_loop env fs x) = x_outcomes x @ List.map_filter (auto_merge_outcome env) fs"
proof (induction fs arbitrary: x)
  case Nil
  then show ?case by (simp add: List.map_filter_simps)
next
  case (Cons f fs)
  show ?case
    unfolding effect_loop_simps Cons.IH effect_outcomes
    by (simp add: List.map_filter_simps split: option.split)
qed

text \<open>Two states agree on the database side.\<close>

definition db_side :: "exec_state \<Rightarrow> db \<times> id option" where
  "db_side x = (x_db x, x_last_question x)"

lemma effect_db_side:
  assumes "db_side x = db_side y" and "env_new_id env = env_new_id env'" and "env_now env = env_now env'"
  shows "db_side (case executeEffect env f x of Some x' \<Rightarrow> x' | None \<Rightarrow> x) =
    db_side (case executeEffect env' f y of Some y' \<Rightarrow> y' | None \<Rightarrow> y)"
proof (cases f)
  case (CREATE_CLAUDE_QUESTION run url files)
  have "createOrReuseClaudeQuestion env run url files (x_db x) = createOrReuseClaudeQuestion env' run url files (x_db y)"
    using assms by (simp add: db_side_def createOrReuseClaudeQuestion_def new_question_def split: option.split)
  with CREATE_CLAUDE_QUESTION assms(1) show ?thesis
    by (auto simp: executeEffect_def db_side_def split: option.split)
next
  case (SET_SPRINT_RUN_STATUS run st draft clear)
  with assms(1) show ?thesis by (auto simp: executeEffect_def db_side_def split: option.split)
qed (use assms(1) in \<open>auto simp: executeEffect_def db_side_def split: option.split\<close>)

lemma loop_db_side:
  assumes "env_new_id env = env_new_id env'" and "env_now env = env_now env'" and "db_side x = db_side y"
  shows "db_side (effect_loop env fs x) = db_side (effect_loop env' fs y)"
  using assms(3)
proof (induction fs arbitrary: x y)
  case Nil
  then show ?case by simp
next
  case (Cons f fs)
  show ?case unfolding effect_loop_simps
    by (rule Cons.IH) (rule effect_db_side [OF Cons.prems assms(1,2)])
qed


section \<open>Pausing and resuming a run\<close>

definition conflict_draft :: "time \<Rightarrow> string \<Rightarrow> string \<Rightarrow> string list \<Rightarrow> string \<Rightarrow> pause_draft" where
  "conflict_draft now url sha files instr =
     \<lparr>pause_reason = ''MERGE_CONFLICT'', pause_pr_url = url, pause_pr_head_sha = sha,
      pause_conflict_files = files, pause_resume_instructions = instr, pause_paused_at = now\<rparr>"

lemma with_question_id [simp]: "claude_question_id (with_question p k) = k"
  by (simp add: with_question_def pause_draft.defs pause_context.defs)

lemma with_question_truncate [simp]: "pause_draft.truncate (with_question p k) = p"
  by (cases p) (simp add: with_question_def pause_draft.defs pause_context.defs)

lemma find_run_questions [simp]: "find_run k (d\<lparr>questions := qs\<rparr>) = find_run k d"
  by (simp add: find_run_def)

lemma create_succeeds:
  assumes "find_run run d = Some r" and "find_sprint (r_sprint_id r) d = Some sp"
  obtains d' k where "createOrReuseClaudeQuestion env run url files d = Some (d', k)"
  using assms
  by (cases "first_by (\<lambda>q. - q_created_at q) (\<lambda>q. q_open q \<and> q_sprint_run_id q = Some run) (questions d)")
    (simp_all add: createOrReuseClaudeQuestion_def)

lemma create_question_result:
  assumes "createOrReuseClaudeQuestion env run url files d = Some (d', k)"
    and "\<forall>q \<in> set (questions d). q_id q \<noteq> []" and "env_new_id env d \<noteq> []"
  shows "k \<noteq> [] \<and> find_run i d' = find_run i d \<and> (\<exists>q \<in> set (open_questions run d'). q_id q = k)"
  using assms(1)
proof (cases rule: create_question)
  case (reused q)
  then show ?thesis using assms(2) by (auto simp: open_questions_def)
next
  case (created r sp)
  then show ?thesis using assms(3) by (auto simp: open_questions_def)
qed

section \<open>Properties\<close>

text \<open>
  Executing the effects of a merge conflict pauses the run with the machine's own pause data
  and links it to a question: the run is PAUSED, its pause context carries the conflict that was
  reported, and the question it names is open and belongs to the run.
\<close>

theorem merge_conflict_pauses_run:
  assumes "ss_kind s = K_running" and "find_run (ss_run_id s) d = Some r"
    and "find_sprint (r_sprint_id r) d \<noteq> None"
    and "\<forall>q \<in> set (questions d). q_id q \<noteq> []" and "env_new_id env d \<noteq> []"
    and "x = executeEffects env (snd (sprint_transition now s (SR_MERGE_CONFLICT url sha files instr))) d"
  shows "\<exists>r' p. find_run (ss_run_id s) (x_db x) = Some r' \<and> r_status r' = RUN_PAUSED \<and>
    r_pause_context r' = Some (Merge_pause p) \<and>
    pause_draft.truncate p = conflict_draft now url sha files instr \<and>
    (\<exists>q \<in> set (open_questions (ss_run_id s) (x_db x)). q_id q = claude_question_id p)"
proof -
  obtain sp where "find_sprint (r_sprint_id r) d = Some sp" using assms(3) by blast
  then obtain d' k where c: "createOrReuseClaudeQuestion env (ss_run_id s) url files d = Some (d', k)"
    using assms(2) create_succeeds by blast
  note k = create_question_result [OF c assms(4,5), of "ss_run_id s"]
  let ?f = "\<lambda>r. r\<lparr>r_status := RUN_PAUSED,
      r_pause_context := Some (Merge_pause (with_question (conflict_draft now url sha files instr) k))\<rparr>"
  have rid: "r_id r = ss_run_id s" using assms(2) by (auto simp: find_run_def dest: find_by_Some)
  have "x_db x = update_runs (\<lambda>r. r_id r = ss_run_id s) ?f d'"
    using assms(1,2,6) k c
    by (simp add: executeEffects_def sprint_transition.simps executeEffect_def applySprintRunStatus_def
        conflict_draft_def [symmetric] truthy_def)
  moreover from this have "find_run (ss_run_id s) (x_db x) = Some (?f r)"
    using assms(2) k rid by (simp add: find_run_update_runs)
  ultimately show ?thesis using k by (auto simp: open_questions_def)
qed

text \<open>
  Resuming a paused run undoes the pause: with the pause context at hand, the effects set the run
  back to RUNNING, clear its pause context and close the question it named, and no other run or
  question changes.
\<close>

theorem resume_clears_pause:
  assumes "ss_kind s = K_paused_merge_conflict" and "ss_pause s = Some p"
    and "find_run (ss_run_id s) d = Some r"
    and "x = executeEffects env (snd (sprint_transition now s USER_RESUMED)) d"
  shows "find_run (ss_run_id s) (x_db x) = Some (r\<lparr>r_status := RUN_RUNNING, r_pause_context := None\<rparr>) \<and>
    list_all (\<lambda>q. \<not> (q_id q = claude_question_id p \<and> q_open q)) (questions (x_db x)) \<and>
    filter (\<lambda>q. q_id q \<noteq> claude_question_id p) (questions (x_db x)) =
      filter (\<lambda>q. q_id q \<noteq> claude_question_id p) (questions d) \<and>
    filter (\<lambda>r. r_id r \<noteq> ss_run_id s) (runs (x_db x)) = filter (\<lambda>r. r_id r \<noteq> ss_run_id s) (runs d)"
proof -
  let ?qs = "update_where (\<lambda>q. q_id q = claude_question_id p \<and> q_open q) (\<lambda>q. q\<lparr>q_open := False\<rparr>) (questions d)"
  let ?f = "\<lambda>r. r\<lparr>r_status := RUN_RUNNING, r_pause_context := None\<rparr>"
  have rid: "r_id r = ss_run_id s" using assms(3) by (auto simp: find_run_def dest: find_by_Some)
  have x: "x_db x = update_runs (\<lambda>r. r_id r = ss_run_id s) ?f (d\<lparr>questions := ?qs\<rparr>)"
    using assms by (simp add: executeEffects_def sprint_transition.simps executeEffect_def applySprintRunStatus_def)
  have "filter (\<lambda>q. q_id q \<noteq> claude_question_id p) ?qs = filter (\<lambda>q. q_id q \<noteq> claude_question_id p) (questions d)"
    by (rule update_where_commute_frame) auto
  moreover have "filter (\<lambda>r. r_id r \<noteq> ss_run_id s) (runs (x_db x)) = filter (\<lambda>r. r_id r \<noteq> ss_run_id s) (runs d)"
    unfolding x update_runs_frame by (simp add: update_where_commute_frame)
  ultimately show ?thesis
    using assms(3) rid by (auto simp: x find_run_update_runs list_all_iff set_update_where)
qed

text \<open>
  However often conflicts are reported, a run never gets a second open question: the executor
  keeps at most one open question per run, for any effects and any behaviour of the forge.
\<close>

theorem effects_keep_single_question:
  assumes "single_question d"
  shows "single_question (x_db (executeEffects env fs d))"
  unfolding executeEffects_def
  by (rule effect_loop_invariant [where I = "\<lambda>x. single_question (x_db x)"]) (simp_all add: assms effect_single)

text \<open>
  A failing forge never disturbs the database: what the effects write does not depend on the
  outcome of any forge call or lock release, and the outcomes handed back are exactly those of the
  auto-merge effects that did not throw, in order.
\<close>

theorem forge_failures_isolated:
  "x_db (executeEffects env fs d) =
     x_db (executeEffects (env\<lparr>env_release := rel, env_auto_merge := am, env_ready := rdy\<rparr>) fs d) \<and>
   x_outcomes (executeEffects env fs d) = List.map_filter (auto_merge_outcome env) fs"
  using loop_db_side [of env "env\<lparr>env_release := rel, env_auto_merge := am, env_ready := rdy\<rparr>"]
  by (simp add: executeEffects_def loop_outcomes db_side_def)

section \<open>Witnesses\<close>

definition sample_env :: effect_env where
  "sample_env = \<lparr>env_release = (\<lambda>_. True), env_auto_merge = (\<lambda>_ _. Some (Merge_ok ''merged'')),
     env_ready = (\<lambda>_. True), env_new_id = (\<lambda>_. ''q1''), env_now = 5\<rparr>"

definition sample_machine :: sprint_state where
  "sample_machine = \<lparr>ss_kind = K_running, ss_run_id = ''r1'', ss_pause = None\<rparr>"

lemma sample_run_found:
  "find_run ''r1'' sample_db = Some sample_run" "find_sprint (r_sprint_id sample_run) sample_db = Some sample_sprint"
  by code_simp+

lemma sample_questions: "questions sample_db = []"
  by code_simp

theorem merge_conflict_pauses_run_witness:
  "\<exists>r'. find_run ''r1'' (x_db (executeEffects sample_env
     (snd (sprint_transition 5 sample_machine (SR_MERGE_CONFLICT ''u'' ''s'' [''f''] ''i''))) sample_db)) = Some r' \<and>
     r_status r' = RUN_PAUSED"
proof -
  have "ss_kind sample_machine = K_running" "ss_run_id sample_machine = ''r1''" "env_new_id sample_env sample_db \<noteq> []"
    by (simp_all add: sample_machine_def sample_env_def)
  then show ?thesis
    using merge_conflict_pauses_run [of sample_machine sample_db sample_run sample_env _ 5 "''u''" "''s''" "[''f'']" "''i''",
        OF _ _ _ _ _ refl] sample_run_found sample_questions
    by auto
qed

definition sample_pause :: pause_context where
  "sample_pause = with_question (conflict_draft 5 ''u'' ''s'' [''f''] ''i'') ''q1''"

theorem resume_clears_pause_witness:
  "find_run ''r1'' (x_db (executeEffects sample_env
     (snd (sprint_transition 5 (sample_machine\<lparr>ss_kind := K_paused_merge_conflict, ss_pause := Some sample_pause\<rparr>) USER_RESUMED))
     sample_db)) = Some (sample_run\<lparr>r_status := RUN_RUNNING, r_pause_context := None\<rparr>)"
  using resume_clears_pause [of "sample_machine\<lparr>ss_kind := K_paused_merge_conflict, ss_pause := Some sample_pause\<rparr>"
      sample_pause sample_db sample_run, OF _ _ _ refl] sample_run_found
  by (simp add: sample_machine_def)

theorem effects_keep_single_question_witness:
  "single_question (x_db (executeEffects sample_env [CREATE_CLAUDE_QUESTION ''r1'' ''u'' [], CREATE_CLAUDE_QUESTION ''r1'' ''v'' []] sample_db))"
  by (rule effects_keep_single_question) (simp add: single_question_def open_questions_def sample_questions)

end
