(* ===== verification/Job_Eligibility.thy ===== *)
theory Job_Eligibility
  imports Managed_Jobs
begin

text \<open>
  Which worker may claim which job: \<open>src/src/dispatch/eligibility.ts\<close>. The predicates that the
  dispatcher evaluates in memory, the SQL conditions of the claim query (as the conditions on rows
  that they are; a comparison with NULL is not true), the older text form of the same query, and
  the clause by which a worker leaves a job to an idle worker of a higher tier.
\<close>

section \<open>Capabilities and kinds\<close>

definition cap_deploy :: string where "cap_deploy = ''deploy''"
definition cap_docs_audit :: string where "cap_docs_audit = ''docs_audit''"

lemma caps_distinct [simp]: "cap_deploy \<noteq> cap_docs_audit" "cap_docs_audit \<noteq> cap_deploy"
  by (simp_all add: cap_deploy_def cap_docs_audit_def)

definition standalone_kind :: "job_kind \<Rightarrow> bool" where
  "standalone_kind k \<longleftrightarrow> k \<in> {IDEA_GRILL, IDEA_MAKE_PLAN, IDEA_REVIEW_PLAN, IDEA_MAKE_SPEC, IDEA_REVISE_SPEC,
     IDEA_CHAT, PLAN_CHAT, PR_REVIEW, SPEC_REVIEW, TASK_REVIEW}"

definition by_system_or_hand :: "job_source \<Rightarrow> bool" where
  "by_system_or_hand s \<longleftrightarrow> s \<in> {SYSTEM, MANUAL}"

definition run_claimable :: "run_status option \<Rightarrow> bool" where
  "run_claimable s \<longleftrightarrow> s \<in> {Some RUN_QUEUED, Some RUN_RUNNING}"

datatype dedicated = Dedicated_deploy | Dedicated_docs | General

text \<open>A worker with exactly one of the two operational capabilities is dedicated to it.\<close>

definition dedication :: "string list \<Rightarrow> dedicated" where
  "dedication caps =
     (if caps = [cap_deploy] then Dedicated_deploy
      else if caps = [cap_docs_audit] then Dedicated_docs
      else General)"

section \<open>The predicates\<close>

record claim_job =
  cj_user_id :: id
  cj_product_id :: id
  cj_runtime :: agent_runtime
  cj_status :: job_status
  cj_kind :: job_kind
  cj_source :: job_source
  cj_required_capability :: "string option"
  cj_dispatch_request_id :: "id option"
  cj_profile_revision_id :: "id option"
  cj_sprint_run_id :: "id option"
  cj_sprint_status :: "run_status option"
  cj_earlier_sibling :: bool
  cj_task_id :: "id option"
  cj_idea_id :: "id option"

record claim_executor =
  ex_user_id :: id
  ex_product_ids :: "id list"
  ex_runtime :: agent_runtime
  ex_capabilities :: "string list"
  ex_managed :: bool
  ex_incarnation_id :: "id option"
  ex_profile_revision_ids :: "id list"
  ex_quota_pct :: "int option"
  ex_min_quota_pct :: int

datatype condition = C_user | C_product | C_runtime | C_queued | C_binding | C_capability | C_kind | C_sprint | C_quota

definition conditions :: "condition list" where
  "conditions = [C_user, C_product, C_runtime, C_queued, C_binding, C_capability, C_kind, C_sprint, C_quota]"

definition harness_capability :: "claim_job \<Rightarrow> bool" where
  "harness_capability j \<longleftrightarrow> cj_required_capability j = None \<and>
     ((cj_kind j = IDEA_CHAT \<and> cj_source j = SYSTEM) \<or>
      (cj_kind j = TASK_IMPLEMENTATION \<and> cj_source j = COPILOT \<and> cj_sprint_run_id j = None) \<or>
      (cj_kind j = AGENT_CHAT \<and> cj_source j = MANUAL))"

definition capability_ok :: "claim_job \<Rightarrow> claim_executor \<Rightarrow> bool" where
  "capability_ok j e =
     (if ex_runtime e = HARNESS then harness_capability j
      else case dedication (ex_capabilities e) of
        Dedicated_deploy \<Rightarrow> cj_required_capability j = Some cap_deploy \<and> cj_kind j = DEPLOY \<and> by_system_or_hand (cj_source j)
      | Dedicated_docs \<Rightarrow> cj_required_capability j = Some cap_docs_audit \<and> cj_kind j = DOCS_AUDIT \<and> by_system_or_hand (cj_source j)
      | General \<Rightarrow> (case cj_required_capability j of None \<Rightarrow> True | Some c \<Rightarrow> c \<in> set (ex_capabilities e)))"

definition kind_ok :: "claim_job \<Rightarrow> claim_executor \<Rightarrow> bool" where
  "kind_ok j e \<longleftrightarrow> ex_runtime e = HARNESS \<or>
     (if ex_managed e then
        cj_source j = COPILOT \<and> cj_kind j \<in> {QUEUE_TASK, QUEUE_REVIEW, TASK_IMPLEMENTATION} \<and> cj_sprint_run_id j = None
      else
        (standalone_kind (cj_kind j) \<and> cj_source j \<noteq> ORCHESTRATOR) \<or>
        (cj_kind j \<in> {DEPLOY, DOCS_AUDIT} \<and> by_system_or_hand (cj_source j)) \<or>
        (cj_kind j = PLAN_CHAT \<and> cj_source j = ORCHESTRATOR \<and>
           \<not> truthy (cj_task_id j) \<and> \<not> truthy (cj_idea_id j) \<and> \<not> truthy (cj_sprint_run_id j)) \<or>
        (cj_kind j = TASK_IMPLEMENTATION \<and> cj_source j \<in> {MANUAL, COPILOT}) \<or>
        (cj_kind j \<in> {TASK_IMPLEMENTATION, SPRINT_IMPLEMENTATION} \<and> cj_sprint_run_id j \<noteq> None \<and>
           run_claimable (cj_sprint_status j)))"

definition claimPredicates :: "condition \<Rightarrow> claim_job \<Rightarrow> claim_executor \<Rightarrow> bool" where
  "claimPredicates c j e = (case c of
     C_user \<Rightarrow> cj_user_id j = ex_user_id e
   | C_product \<Rightarrow> cj_product_id j \<in> set (ex_product_ids e)
   | C_runtime \<Rightarrow> cj_runtime j = ex_runtime e
   | C_queued \<Rightarrow> cj_status j = J_QUEUED
   | C_binding \<Rightarrow>
       (if ex_managed e then
          truthy (ex_incarnation_id e) \<and> cj_dispatch_request_id j \<noteq> None \<and>
          (case cj_profile_revision_id j of None \<Rightarrow> False | Some p \<Rightarrow> p \<in> set (ex_profile_revision_ids e))
        else cj_dispatch_request_id j = None)
   | C_capability \<Rightarrow> capability_ok j e
   | C_kind \<Rightarrow> kind_ok j e
   | C_sprint \<Rightarrow> cj_kind j \<noteq> TASK_IMPLEMENTATION \<or> \<not> truthy (cj_sprint_run_id j) \<or> \<not> cj_earlier_sibling j
   | C_quota \<Rightarrow> (case ex_quota_pct e of None \<Rightarrow> True | Some q \<Rightarrow> q \<ge> ex_min_quota_pct e))"

text \<open>The names of the conditions that fail.\<close>

definition evaluateClaimPredicates :: "claim_job \<Rightarrow> claim_executor \<Rightarrow> condition list" where
  "evaluateClaimPredicates j e = filter (\<lambda>c. \<not> claimPredicates c j e) conditions"

section \<open>The SQL conditions\<close>

text \<open>The joined sprint run and the earlier sibling of the claim query.\<close>

definition run_status_of :: "db \<Rightarrow> job \<Rightarrow> run_status option" where
  "run_status_of d j = (case j_sprint_run_id j of None \<Rightarrow> None | Some r \<Rightarrow> map_option r_status (find_run r d))"

definition sequence_before :: "int option \<Rightarrow> int option \<Rightarrow> bool" where
  "sequence_before a b = (case (a, b) of (Some x, Some y) \<Rightarrow> x < y | _ \<Rightarrow> False)"

definition earlier_sibling :: "db \<Rightarrow> job \<Rightarrow> bool" where
  "earlier_sibling d j = (case j_sprint_run_id j of
     None \<Rightarrow> False
   | Some r \<Rightarrow> list_ex (\<lambda>e. j_sprint_run_id e = Some r \<and> j_kind e = TASK_IMPLEMENTATION \<and>
       sequence_before (j_sprint_sequence e) (j_sprint_sequence j) \<and> active (j_status e)) (jobs d))"

definition sql_kind_filter :: "db \<Rightarrow> job \<Rightarrow> bool" where
  "sql_kind_filter d j \<longleftrightarrow>
     (standalone_kind (j_kind j) \<and> j_source j \<noteq> ORCHESTRATOR) \<or>
     (j_kind j = DEPLOY \<and> by_system_or_hand (j_source j)) \<or>
     (j_kind j = DOCS_AUDIT \<and> by_system_or_hand (j_source j)) \<or>
     (j_kind j = PLAN_CHAT \<and> j_source j = ORCHESTRATOR \<and>
        j_task_id j = None \<and> j_idea_id j = None \<and> j_sprint_run_id j = None) \<or>
     (j_kind j = TASK_IMPLEMENTATION \<and> j_source j \<in> {MANUAL, COPILOT}) \<or>
     (j_kind j \<in> {TASK_IMPLEMENTATION, SPRINT_IMPLEMENTATION} \<and> j_sprint_run_id j \<noteq> None \<and>
        run_claimable (run_status_of d j))"

definition sql_capability_any :: "job \<Rightarrow> string list \<Rightarrow> bool" where
  "sql_capability_any j caps = (case j_required_capability j of None \<Rightarrow> False | Some c \<Rightarrow> c \<in> set caps)"

definition sql_harness :: "job \<Rightarrow> bool" where
  "sql_harness j \<longleftrightarrow> j_required_capability j = None \<and>
     ((j_kind j = IDEA_CHAT \<and> j_source j = SYSTEM) \<or>
      (j_kind j = TASK_IMPLEMENTATION \<and> j_source j = COPILOT \<and> j_sprint_run_id j = None) \<or>
      (j_kind j = AGENT_CHAT \<and> j_source j = MANUAL))"

definition sql_dedicated :: "string \<Rightarrow> job_kind \<Rightarrow> job \<Rightarrow> bool" where
  "sql_dedicated cap k j \<longleftrightarrow>
     j_required_capability j = Some cap \<and> j_kind j = k \<and> by_system_or_hand (j_source j)"

text \<open>
  \<open>claimConditionSql\<close> for an ordinary executor (the managed variants join the private dispatch
  tables).
\<close>

definition claimConditionSql :: "condition \<Rightarrow> db \<Rightarrow> job \<Rightarrow> claim_executor \<Rightarrow> bool" where
  "claimConditionSql c d j e = (case c of
     C_user \<Rightarrow> j_user_id j = ex_user_id e
   | C_product \<Rightarrow> j_product_id j \<in> set (ex_product_ids e)
   | C_runtime \<Rightarrow> j_runtime j = ex_runtime e
   | C_queued \<Rightarrow> j_status j = J_QUEUED
   | C_binding \<Rightarrow> j_dispatch_request_id j = None
   | C_capability \<Rightarrow>
       (if ex_runtime e = HARNESS then sql_harness j
        else if ex_capabilities e = [cap_deploy] then sql_dedicated cap_deploy DEPLOY j
        else if ex_capabilities e = [cap_docs_audit] then sql_dedicated cap_docs_audit DOCS_AUDIT j
        else if ex_capabilities e \<noteq> [] then j_required_capability j = None \<or> sql_capability_any j (ex_capabilities e)
        else j_required_capability j = None)
   | C_kind \<Rightarrow> (if ex_runtime e = HARNESS then True else sql_kind_filter d j)
   | C_sprint \<Rightarrow> j_kind j \<noteq> TASK_IMPLEMENTATION \<or> j_sprint_run_id j = None \<or> \<not> earlier_sibling d j
   | C_quota \<Rightarrow> (case ex_quota_pct e of None \<Rightarrow> True | Some q \<Rightarrow> q \<ge> ex_min_quota_pct e))"

definition buildClaimPredicateFragment :: "db \<Rightarrow> job \<Rightarrow> claim_executor \<Rightarrow> bool" where
  "buildClaimPredicateFragment d j e = list_all (\<lambda>c. claimConditionSql c d j e) conditions"

text \<open>The in-memory view of a row.\<close>

definition claim_job_of :: "db \<Rightarrow> job \<Rightarrow> claim_job" where
  "claim_job_of d j = \<lparr>cj_user_id = j_user_id j, cj_product_id = j_product_id j, cj_runtime = j_runtime j,
     cj_status = j_status j, cj_kind = j_kind j, cj_source = j_source j,
     cj_required_capability = j_required_capability j, cj_dispatch_request_id = j_dispatch_request_id j,
     cj_profile_revision_id = None, cj_sprint_run_id = j_sprint_run_id j,
     cj_sprint_status = run_status_of d j, cj_earlier_sibling = earlier_sibling d j,
     cj_task_id = j_task_id j, cj_idea_id = j_idea_id j\<rparr>"

section \<open>The claim query of a worker\<close>

record claim_input =
  in_user_id :: id
  in_product_id :: "id option"
  in_runtime :: agent_runtime
  in_capabilities :: "string list"

text \<open>The text form, branch by branch.\<close>

definition buildClaimableJobWhereClause :: "db \<Rightarrow> job \<Rightarrow> claim_input \<Rightarrow> bool" where
  "buildClaimableJobWhereClause d j i \<longleftrightarrow>
     j_user_id j = in_user_id i \<and>
     (case in_product_id i of None \<Rightarrow> True | Some p \<Rightarrow> j_product_id j = p) \<and>
     j_runtime j = in_runtime i \<and> j_status j = J_QUEUED \<and> j_dispatch_request_id j = None \<and>
     (if in_runtime i = HARNESS then
        j_required_capability j = None \<and>
        ((j_kind j = IDEA_CHAT \<and> j_source j = SYSTEM) \<or>
         (j_kind j = TASK_IMPLEMENTATION \<and> j_source j = COPILOT \<and> j_sprint_run_id j = None) \<or>
         (j_kind j = AGENT_CHAT \<and> j_source j = MANUAL))
      else if length (in_capabilities i) = 1 \<and> hd (in_capabilities i) = cap_deploy then
        j_required_capability j = Some cap_deploy \<and> j_kind j = DEPLOY \<and> by_system_or_hand (j_source j)
      else if length (in_capabilities i) = 1 \<and> hd (in_capabilities i) = cap_docs_audit then
        j_required_capability j = Some cap_docs_audit \<and> j_kind j = DOCS_AUDIT \<and> by_system_or_hand (j_source j)
      else
        (if length (in_capabilities i) > 0
         then j_required_capability j = None \<or> sql_capability_any j (in_capabilities i)
         else j_required_capability j = None) \<and> sql_kind_filter d j)"

definition input_executor :: "claim_input \<Rightarrow> claim_executor" where
  "input_executor i = \<lparr>ex_user_id = in_user_id i,
     ex_product_ids = (case in_product_id i of None \<Rightarrow> [] | Some p \<Rightarrow> [p]),
     ex_runtime = in_runtime i, ex_capabilities = in_capabilities i, ex_managed = False,
     ex_incarnation_id = None, ex_profile_revision_ids = [], ex_quota_pct = None, ex_min_quota_pct = 0\<rparr>"

definition buildClaimableJobWhereFragment :: "db \<Rightarrow> job \<Rightarrow> claim_input \<Rightarrow> bool" where
  "buildClaimableJobWhereFragment d j i =
     (let e = input_executor i in
      claimConditionSql C_user d j e \<and>
      (case in_product_id i of None \<Rightarrow> True | Some p \<Rightarrow> j_product_id j = p) \<and>
      claimConditionSql C_runtime d j e \<and> claimConditionSql C_queued d j e \<and>
      claimConditionSql C_binding d j e \<and> claimConditionSql C_capability d j e \<and>
      (if ex_runtime e = HARNESS \<or> ex_capabilities e \<in> {[cap_deploy], [cap_docs_audit]} then True
       else claimConditionSql C_kind d j e))"

text \<open>The clause that keeps the tasks of a run in sequence (\<open>sprintSequenceClause\<close> of the claim).\<close>

definition sprint_sequence_clause :: "db \<Rightarrow> job \<Rightarrow> bool" where
  "sprint_sequence_clause d j \<longleftrightarrow>
     j_kind j \<noteq> TASK_IMPLEMENTATION \<or> j_sprint_run_id j = None \<or> \<not> earlier_sibling d j"

section \<open>Leaving a job to a higher tier\<close>

record worker =
  w_user_id :: id
  w_product_id :: "id option"
  w_runtime :: agent_runtime
  w_capabilities :: "string list"
  w_instance_id :: id
  w_last_seen_at :: time
  w_quota_pct :: "int option"
  w_tier :: "worker_tier option"

fun tier_priority :: "worker_tier \<Rightarrow> nat" where
  "tier_priority HIGH_P = 3"
| "tier_priority MEDIUM_P = 2"
| "tier_priority LOW_P = 1"

instantiation worker_tier :: linorder
begin

definition less_eq_worker_tier :: "worker_tier \<Rightarrow> worker_tier \<Rightarrow> bool" where
  "less_eq_worker_tier a b \<longleftrightarrow> tier_priority a \<le> tier_priority b"

definition less_worker_tier :: "worker_tier \<Rightarrow> worker_tier \<Rightarrow> bool" where
  "less_worker_tier a b \<longleftrightarrow> tier_priority a < tier_priority b"

instance
proof
  fix a b :: worker_tier
  show "a \<le> b \<Longrightarrow> b \<le> a \<Longrightarrow> a = b"
    by (cases a; cases b) (simp_all add: less_eq_worker_tier_def)
qed (auto simp: less_eq_worker_tier_def less_worker_tier_def)

end

definition managed_prefix :: string where "managed_prefix = ''managed:''"

definition managedWorkerPollScope :: "id \<Rightarrow> bool" where
  "managedWorkerPollScope instanceId = starts_with managed_prefix instanceId"

definition busy_instance :: "db \<Rightarrow> id \<Rightarrow> bool" where
  "busy_instance d i = list_ex (\<lambda>k. j_worker_instance_id k = Some i \<and> claimed_or_running (j_status k)) (jobs d)"

text \<open>The guard: a peer only counts when it could claim the candidate job itself.\<close>

definition peer_claimable :: "worker \<Rightarrow> job \<Rightarrow> bool" where
  "peer_claimable w j =
     (if w_capabilities w = [cap_deploy] then sql_dedicated cap_deploy DEPLOY j
      else if w_capabilities w = [cap_docs_audit] then sql_dedicated cap_docs_audit DOCS_AUDIT j
      else j_required_capability j = None \<or> sql_capability_any j (w_capabilities w))"

text \<open>\<open>min_quota u\<close> is \<open>COALESCE(users.min_quota_pct, 0)\<close>.\<close>

definition alive_with_quota :: "(id \<Rightarrow> int) \<Rightarrow> time \<Rightarrow> worker \<Rightarrow> bool" where
  "alive_with_quota min_quota now w \<longleftrightarrow>
     w_last_seen_at w > now - 30 * 1000 \<and>
     (case w_quota_pct w of None \<Rightarrow> True | Some q \<Rightarrow> q \<ge> min_quota (w_user_id w))"

definition tier_above :: "worker_tier option \<Rightarrow> worker_tier option \<Rightarrow> bool" where
  "tier_above a b = (case (a, b) of (Some x, Some y) \<Rightarrow> tier_priority x > tier_priority y | _ \<Rightarrow> False)"

definition blocking_peer ::
  "db \<Rightarrow> (id \<Rightarrow> int) \<Rightarrow> time \<Rightarrow> worker \<Rightarrow> job \<Rightarrow> worker \<Rightarrow> bool" where
  "blocking_peer d min_quota now self j w \<longleftrightarrow>
     w_user_id w = w_user_id self \<and>
     (case w_product_id w of None \<Rightarrow> True | Some p \<Rightarrow> p = j_product_id j) \<and>
     w_runtime w = w_runtime self \<and>
     w_instance_id w \<noteq> w_instance_id self \<and>
     \<not> managedWorkerPollScope (w_instance_id w) \<and>
     tier_above (w_tier w) (w_tier self) \<and>
     peer_claimable w j \<and>
     alive_with_quota min_quota now w \<and>
     \<not> busy_instance d (w_instance_id w)"

text \<open>\<open>NOT EXISTS\<close>: the claim may go ahead when no peer blocks it.\<close>

definition buildHigherTierIdleFragment ::
  "db \<Rightarrow> worker list \<Rightarrow> (id \<Rightarrow> int) \<Rightarrow> time \<Rightarrow> worker \<Rightarrow> job \<Rightarrow> bool" where
  "buildHigherTierIdleFragment d ws min_quota now self j \<longleftrightarrow> \<not> list_ex (blocking_peer d min_quota now self j) ws"

text \<open>The claim query of a worker row itself.\<close>

definition worker_input :: "worker \<Rightarrow> claim_input" where
  "worker_input w = \<lparr>in_user_id = w_user_id w, in_product_id = w_product_id w, in_runtime = w_runtime w,
     in_capabilities = w_capabilities w\<rparr>"

section \<open>Equivalences\<close>

lemma hd_length_1: "length xs = 1 \<and> hd xs = x \<longleftrightarrow> xs = [x]"
  by (cases xs) auto

lemma clause_eq_fragment:
  "buildClaimableJobWhereClause d j i = buildClaimableJobWhereFragment d j i"
  unfolding buildClaimableJobWhereClause_def buildClaimableJobWhereFragment_def Let_def hd_length_1
  by (auto simp: claimConditionSql_def input_executor_def sql_harness_def sql_dedicated_def)

text \<open>Ids that are present are not empty (they are database ids).\<close>

definition ids_present :: "job \<Rightarrow> bool" where
  "ids_present j \<longleftrightarrow> j_task_id j \<noteq> Some [] \<and> j_idea_id j \<noteq> Some [] \<and> j_sprint_run_id j \<noteq> Some []"

lemma truthy_present: "x \<noteq> Some [] \<Longrightarrow> truthy x \<longleftrightarrow> x \<noteq> None"
  by (cases x) auto

lemma capability_agrees:
  "\<not> ex_managed e \<Longrightarrow> claimConditionSql C_capability d j e = claimPredicates C_capability (claim_job_of d j) e"
  by (auto simp: claimConditionSql_def claimPredicates_def capability_ok_def harness_capability_def sql_harness_def
      dedication_def sql_dedicated_def sql_capability_any_def claim_job_of_def split: option.splits)

lemma condition_agrees:
  assumes "ids_present j" and "\<not> ex_managed e"
  shows "claimConditionSql c d j e = claimPredicates c (claim_job_of d j) e"
proof (cases "c = C_capability")
  case True
  then show ?thesis using capability_agrees [OF assms(2)] by simp
next
  case False
  then show ?thesis
    using assms truthy_present [of "j_task_id j"] truthy_present [of "j_idea_id j"] truthy_present [of "j_sprint_run_id j"]
    by (cases c) (auto simp: claimConditionSql_def claimPredicates_def claim_job_of_def kind_ok_def sql_kind_filter_def
        ids_present_def)
qed

section \<open>Deferral\<close>

text \<open>A job that one worker leaves to a peer is one that the peer's own claim query selects.\<close>

lemma blocking_peer_can_claim:
  assumes self: "buildClaimableJobWhereFragment d j (worker_input s)"
    and peer: "blocking_peer d min_quota now s j w"
  shows "buildClaimableJobWhereFragment d j (worker_input w)"
proof -
  have common: "w_user_id w = w_user_id s" "w_runtime w = w_runtime s" "peer_claimable w j"
      "case w_product_id w of None \<Rightarrow> True | Some p \<Rightarrow> p = j_product_id j"
    using peer by (simp_all add: blocking_peer_def)
  show ?thesis
  proof (cases "w_runtime w = HARNESS")
    case True
    then show ?thesis using self common
      by (auto simp: buildClaimableJobWhereFragment_def worker_input_def input_executor_def claimConditionSql_def
          split: option.splits)
  next
    case False
    have "sql_kind_filter d j"
      using self common(2) False
      by (auto simp: buildClaimableJobWhereFragment_def worker_input_def input_executor_def claimConditionSql_def
          sql_kind_filter_def sql_dedicated_def split: if_splits)
    then show ?thesis using self common False
      by (auto simp: buildClaimableJobWhereFragment_def worker_input_def input_executor_def claimConditionSql_def
          peer_claimable_def sql_capability_any_def split: option.splits if_splits)
  qed
qed


definition tier_of :: "worker \<Rightarrow> nat" where
  "tier_of w = (case w_tier w of None \<Rightarrow> 0 | Some t \<Rightarrow> tier_priority t)"

lemma tier_above_of: "tier_above (w_tier w) (w_tier s) \<Longrightarrow> tier_of w > tier_of s"
  by (auto simp: tier_above_def tier_of_def split: option.splits)

text \<open>The four ways in which the claim query selects a job.\<close>

lemma fragment_kinds:
  assumes "buildClaimableJobWhereFragment d j i"
  shows "(in_runtime i = HARNESS \<and> sql_harness j) \<or>
    (in_runtime i \<noteq> HARNESS \<and> in_capabilities i = [cap_deploy] \<and> j_kind j = DEPLOY) \<or>
    (in_runtime i \<noteq> HARNESS \<and> in_capabilities i = [cap_docs_audit] \<and> j_kind j = DOCS_AUDIT) \<or>
    (in_runtime i \<noteq> HARNESS \<and> in_capabilities i \<notin> {[cap_deploy], [cap_docs_audit]} \<and> sql_kind_filter d j)"
proof (cases "in_runtime i = HARNESS \<or> in_capabilities i \<in> {[cap_deploy], [cap_docs_audit]}")
  case True
  then show ?thesis using assms
    by (auto simp: buildClaimableJobWhereFragment_def input_executor_def claimConditionSql_def sql_dedicated_def Let_def
        split: if_splits)
next
  case False
  then show ?thesis using assms
    by (simp add: buildClaimableJobWhereFragment_def input_executor_def claimConditionSql_def Let_def)
qed

section \<open>Properties\<close>

text \<open>
  C29. One contract in two notations: for an ordinary executor the conditions that the dispatcher
  evaluates in memory and the SQL fragment built from the same names accept the same rows.
\<close>

theorem claim_contract_agrees:
  assumes "ids_present j" and "\<not> ex_managed e"
  shows "evaluateClaimPredicates (claim_job_of d j) e = [] \<longleftrightarrow> buildClaimPredicateFragment d j e"
  by (simp add: evaluateClaimPredicates_def buildClaimPredicateFragment_def filter_empty_conv list_all_iff
      condition_agrees [OF assms])

text \<open>
  The older text of the claim query and the fragment composed from the named conditions select
  the same rows, for every runtime, capability list and product scope.
\<close>

theorem where_clause_equals_fragment:
  "buildClaimableJobWhereClause d j i = buildClaimableJobWhereFragment d j i"
  by (rule clause_eq_fragment)

text \<open>
  Isolation of the claim query: whatever the worker, it never selects a job of a managed
  dispatch, a queue job, or another user's or runtime's job; a chat-agent job goes to harness
  workers only; and a worker dedicated to deploys or docs audits selects nothing else.
\<close>

theorem claim_query_isolation:
  assumes "buildClaimableJobWhereFragment d j i"
  shows "j_status j = J_QUEUED \<and> j_user_id j = in_user_id i \<and> j_runtime j = in_runtime i \<and>
    j_dispatch_request_id j = None \<and> \<not> managed_kind (j_kind j) \<and>
    (j_kind j = AGENT_CHAT \<longrightarrow> in_runtime i = HARNESS) \<and>
    (in_runtime i = HARNESS \<longrightarrow> j_required_capability j = None) \<and>
    (in_runtime i \<noteq> HARNESS \<longrightarrow> in_capabilities i = [cap_deploy] \<longrightarrow> j_kind j = DEPLOY) \<and>
    (in_runtime i \<noteq> HARNESS \<longrightarrow> in_capabilities i = [cap_docs_audit] \<longrightarrow> j_kind j = DOCS_AUDIT)"
proof -
  have base: "j_status j = J_QUEUED" "j_user_id j = in_user_id i" "j_runtime j = in_runtime i"
      "j_dispatch_request_id j = None"
    using assms by (simp_all add: buildClaimableJobWhereFragment_def input_executor_def claimConditionSql_def Let_def)
  consider "in_runtime i = HARNESS" "sql_harness j"
    | "in_runtime i \<noteq> HARNESS" "in_capabilities i = [cap_deploy]" "j_kind j = DEPLOY"
    | "in_runtime i \<noteq> HARNESS" "in_capabilities i = [cap_docs_audit]" "j_kind j = DOCS_AUDIT"
    | "in_runtime i \<noteq> HARNESS" "in_capabilities i \<notin> {[cap_deploy], [cap_docs_audit]}" "sql_kind_filter d j"
    using fragment_kinds [OF assms] by blast
  then show ?thesis
    by cases (auto simp: base sql_harness_def managed_kind_def sql_kind_filter_def standalone_kind_def)
qed

text \<open>
  Leaving jobs to higher tiers never starves a job: if the claim query of some worker with a
  tier selects the job, then some worker whose own query selects it is not deferring to anyone.
\<close>

theorem deferral_progress:
  assumes "w0 \<in> set ws" and "w_tier w0 \<noteq> None"
    and "buildClaimableJobWhereFragment d j (worker_input w0)"
  shows "\<exists>w \<in> set ws. buildClaimableJobWhereFragment d j (worker_input w) \<and>
    buildHigherTierIdleFragment d ws min_quota now w j"
proof -
  define M where "M = {w \<in> set ws. buildClaimableJobWhereFragment d j (worker_input w)}"
  have "finite M" "w0 \<in> M" using assms(1,3) by (simp_all add: M_def)
  then obtain w where w: "w \<in> M" and max: "\<And>v. v \<in> M \<Longrightarrow> tier_of v \<le> tier_of w"
    using Max_in [of "tier_of ` M"] Max_ge [of "tier_of ` M"] by fastforce
  have "\<not> blocking_peer d min_quota now w j v" if "v \<in> set ws" for v
  proof
    assume block: "blocking_peer d min_quota now w j v"
    then have "v \<in> M" using w that blocking_peer_can_claim [OF _ block] by (simp add: M_def)
    moreover have "tier_of v > tier_of w"
      using block by (intro tier_above_of) (simp add: blocking_peer_def)
    ultimately show False using max [of v] by simp
  qed
  then show ?thesis
    using w by (auto simp: M_def buildHigherTierIdleFragment_def list_ex_iff)
qed

section \<open>Witnesses\<close>

definition sample_worker :: worker where
  "sample_worker = \<lparr>w_user_id = ''u1'', w_product_id = None, w_runtime = CLAUDE, w_capabilities = [''code_edit''],
     w_instance_id = ''i1'', w_last_seen_at = 0, w_quota_pct = None, w_tier = Some LOW_P\<rparr>"

definition sample_manual_job :: job where
  "sample_manual_job = sample_job\<lparr>j_source := MANUAL\<rparr>"

lemma sample_matches: "buildClaimableJobWhereFragment sample_db sample_manual_job (worker_input sample_worker)"
  by code_simp

theorem claim_contract_agrees_witness:
  "evaluateClaimPredicates (claim_job_of sample_db sample_manual_job) (input_executor (worker_input sample_worker)) = [] \<longleftrightarrow>
   buildClaimPredicateFragment sample_db sample_manual_job (input_executor (worker_input sample_worker))"
proof -
  have "ids_present sample_manual_job" "\<not> ex_managed (input_executor (worker_input sample_worker))"
    by code_simp+
  then show ?thesis by (rule claim_contract_agrees)
qed

theorem claim_query_isolation_witness:
  "j_dispatch_request_id sample_manual_job = None \<and> \<not> managed_kind (j_kind sample_manual_job)"
  using claim_query_isolation [OF sample_matches] by blast

theorem deferral_progress_witness:
  "\<exists>w \<in> set [sample_worker, sample_worker\<lparr>w_instance_id := ''i2'', w_tier := Some HIGH_P\<rparr>].
     buildClaimableJobWhereFragment sample_db sample_manual_job (worker_input w) \<and>
     buildHigherTierIdleFragment sample_db [sample_worker, sample_worker\<lparr>w_instance_id := ''i2'', w_tier := Some HIGH_P\<rparr>]
       (\<lambda>_. 0) 1000 w sample_manual_job"
  by (rule deferral_progress [OF _ _ sample_matches]) (simp_all add: sample_worker_def)

end
