(* ===== verification/Claim_Register.thy ===== *)
theory Claim_Register
  imports Prelude
begin

text \<open>
  The contract of a register of exclusive claims, shared by the job queue and the message queue of
  the server: claimants take an unclaimed item and become its holder, a release is fenced by the
  holder's identity. The lemmas about sequences of claims are proved once, here.
\<close>

text \<open>The claims made by a sequence of claimants: the last state and who took what, in order.\<close>

fun run_claims :: "('c \<Rightarrow> 's \<Rightarrow> 's \<times> 'k option) \<Rightarrow> 'c list \<Rightarrow> 's \<Rightarrow> 's \<times> ('c \<times> 'k) list" where
  "run_claims claim [] s = (s, [])"
| "run_claims claim (c # cs) s =
     (case claim c s of
        (s', None) \<Rightarrow> run_claims claim cs s'
      | (s', Some k) \<Rightarrow> (let (t, taken) = run_claims claim cs s' in (t, (c, k) # taken)))"

text \<open>
  A holder may be \<open>expired\<close>: its claim has outlived its lease and is open to the next claimant. A
  register without leases never is.
\<close>

locale claim_register =
  fixes ok :: "'s \<Rightarrow> bool"
    and holder :: "'s \<Rightarrow> 'k \<Rightarrow> 'o option"
    and expired :: "'s \<Rightarrow> 'k \<Rightarrow> bool"
    and owner :: "'c \<Rightarrow> 'o"
    and claim :: "'c \<Rightarrow> 's \<Rightarrow> 's \<times> 'k option"
    and release :: "'o \<Rightarrow> 'k \<Rightarrow> 's \<Rightarrow> 's"
  assumes claim_ok: "ok s \<Longrightarrow> ok (fst (claim c s))"
    and release_ok: "ok s \<Longrightarrow> ok (release w k s)"
    and claim_none: "ok s \<Longrightarrow> snd (claim c s) = None \<Longrightarrow> fst (claim c s) = s"
    and claim_free: "ok s \<Longrightarrow> claim c s = (s', Some k) \<Longrightarrow> holder s k = None \<or> expired s k"
    and claim_holds: "ok s \<Longrightarrow> claim c s = (s', Some k) \<Longrightarrow> holder s' k = Some (owner c)"
    and claim_fresh: "ok s \<Longrightarrow> claim c s = (s', Some k) \<Longrightarrow> \<not> expired s' k"
    and claim_others: "ok s \<Longrightarrow> claim c s = (s', Some k) \<Longrightarrow> i \<noteq> k \<Longrightarrow>
      holder s' i = holder s i \<and> expired s' i = expired s i"
    and release_own: "ok s \<Longrightarrow> holder s k = Some w \<Longrightarrow> holder (release w k s) k = None"
    and release_fenced: "ok s \<Longrightarrow> holder s k \<noteq> Some w \<Longrightarrow> release w k s = s"
    and release_others: "ok s \<Longrightarrow> i \<noteq> k \<Longrightarrow> holder (release w k s) i = holder s i"
begin

definition held :: "'s \<Rightarrow> 'k \<Rightarrow> 'o \<Rightarrow> bool" where
  "held s k w \<longleftrightarrow> holder s k = Some w \<and> \<not> expired s k"

lemma claim_keeps_holder: "ok s \<Longrightarrow> held s k w \<Longrightarrow> held (fst (claim c s)) k w"
proof -
  assume s: "ok s" "held s k w"
  obtain s' r where c: "claim c s = (s', r)" by fastforce
  show ?thesis
  proof (cases r)
    case None
    then show ?thesis using claim_none [OF s(1), of c] s(2) by (simp add: c)
  next
    case (Some i)
    then have "k \<noteq> i" using claim_free [OF s(1), of c s' i] s(2) by (auto simp: c held_def)
    then show ?thesis using claim_others [OF s(1), of c s' i k] s(2) Some by (simp add: c held_def)
  qed
qed

lemma run_claims_keeps_holder:
  "ok s \<Longrightarrow> held s k w \<Longrightarrow> run_claims claim cs s = (t, taken) \<Longrightarrow>
     ok t \<and> held t k w \<and> k \<notin> snd ` set taken"
proof (induction cs arbitrary: s taken)
  case Nil
  then show ?case by simp
next
  case (Cons c cs)
  obtain s' r where c: "claim c s = (s', r)" by fastforce
  have ok: "ok s'" "held s' k w"
    using claim_ok [OF Cons.prems(1), of c] claim_keeps_holder [OF Cons.prems(1,2), of c] by (simp_all add: c)
  show ?case
  proof (cases r)
    case None
    then show ?thesis using Cons.IH [OF ok] Cons.prems(3) by (simp add: c)
  next
    case (Some i)
    obtain taken' where rest: "run_claims claim cs s' = (t, taken')" "taken = (c, i) # taken'"
      using Cons.prems(3) Some by (auto simp: c split: prod.splits)
    have "i \<noteq> k"
      using claim_free [OF Cons.prems(1), of c s' i] c Some Cons.prems(2) by (auto simp: held_def)
    then show ?thesis using Cons.IH [OF ok rest(1)] rest(2) by simp
  qed
qed

lemma run_claims_exclusive:
  "ok s \<Longrightarrow> run_claims claim cs s = (t, taken) \<Longrightarrow>
     distinct (map snd taken) \<and>
     (\<forall>(c, k) \<in> set taken. (holder s k = None \<or> expired s k) \<and> holder t k = Some (owner c))"
proof (induction cs arbitrary: s taken)
  case Nil
  then show ?case by simp
next
  case (Cons c cs)
  obtain s' r where c: "claim c s = (s', r)" by fastforce
  have ok: "ok s'" using claim_ok [OF Cons.prems(1), of c] by (simp add: c)
  show ?case
  proof (cases r)
    case None
    then have "s' = s" using claim_none [OF Cons.prems(1), of c] by (simp add: c)
    with None show ?thesis using Cons.IH [OF ok] Cons.prems(2) by (simp add: c)
  next
    case (Some k)
    obtain taken' where rest: "run_claims claim cs s' = (t, taken')" "taken = (c, k) # taken'"
      using Cons.prems(2) Some by (auto simp: c split: prod.splits)
    note taken_k = c [unfolded Some]
    have first: "held s' k (owner c)"
      using claim_holds [OF Cons.prems(1) taken_k] claim_fresh [OF Cons.prems(1) taken_k] by (simp add: held_def)
    note keep = run_claims_keeps_holder [OF ok first rest(1)]
    note IH = Cons.IH [OF ok rest(1)]
    have "holder s i = None \<or> expired s i" if "(c', i) \<in> set taken'" for c' i
    proof -
      have "i \<noteq> k" using keep that by force
      then show ?thesis using claim_others [OF Cons.prems(1) taken_k] IH that by auto
    qed
    then show ?thesis
      using rest(2) keep IH claim_free [OF Cons.prems(1) taken_k] by (auto simp: held_def image_iff)
  qed
qed

lemma stale_release_harmless:
  "ok s \<Longrightarrow> claim c s = (s', Some k) \<Longrightarrow> w \<noteq> owner c \<Longrightarrow> release w k s' = s'"
  using claim_ok [of s c] claim_holds [of s c s' k] by (intro release_fenced) auto

end

end
