(* ===== verification/Repo_Roots.thy ===== *)
theory Repo_Roots
  imports Job_Eligibility
begin

text \<open>
  Where the work of a claimed job happens: the repository root (\<open>repoNameFromUrl\<close>,
  \<open>resolveRepoRoot\<close>) and the branch (\<open>resolveSprintBranchReuse\<close>, \<open>resolveBranchForJob\<close>) of
  \<open>src/src/tools/wait-for-job.ts\<close>. Environment, configuration file, file system and clone are the
  record \<open>host\<close>.
\<close>

section \<open>The repository name of a URL\<close>

text \<open>
  The regular expression \<open>[/:]([^/]+?)(?:\.git)?\/?$\<close>: at the leftmost separator after which it
  matches, the shortest segment that reaches the end up to \<open>.git\<close> and a slash.
\<close>

definition dot_git :: string where "dot_git = ''.git''"

definition url_rest :: "string \<Rightarrow> bool" where
  "url_rest r \<longleftrightarrow> r \<in> {[], dot_git, ''/'', dot_git @ ''/''}"

definition url_segment :: "string \<Rightarrow> string option" where
  "url_segment r =
     map_option (\<lambda>n. take n r) (find (\<lambda>n. CHR ''/'' \<notin> set (take n r) \<and> url_rest (drop n r)) [1..<Suc (length r)])"

fun url_match :: "string \<Rightarrow> string option" where
  "url_match [] = None"
| "url_match (c # cs) =
     (if c = CHR ''/'' \<or> c = CHR '':'' then (case url_segment cs of Some n \<Rightarrow> Some n | None \<Rightarrow> url_match cs)
      else url_match cs)"

definition repoNameFromUrl :: "string option \<Rightarrow> string option" where
  "repoNameFromUrl repoUrl = (if \<not> truthy repoUrl then None else url_match (the repoUrl))"

lemma find_first:
  assumes "n \<in> set xs" and "P n" and "\<And>m. m \<in> set xs \<Longrightarrow> m < n \<Longrightarrow> \<not> P m" and "sorted xs"
  shows "find P xs = Some n"
  using assms
proof (induction xs)
  case Nil
  then show ?case by simp
next
  case (Cons x xs)
  show ?case
  proof (cases "x = n")
    case False
    then have n: "n \<in> set xs" using Cons.prems(1) by simp
    then have "x < n" using Cons.prems(4) False by (auto simp: order_less_le)
    then have "\<not> P x" using Cons.prems(3) by simp
    moreover have "find P xs = Some n" using Cons n by simp
    ultimately show ?thesis by simp
  qed (use Cons.prems in simp)
qed

lemma url_rest_no_slash: "url_rest r \<Longrightarrow> CHR ''/'' \<notin> set r \<Longrightarrow> r \<in> {[], dot_git}"
  by (auto simp: url_rest_def)

lemma url_segment_name:
  assumes "name \<noteq> []" and "CHR ''/'' \<notin> set name" and "\<not> (\<exists>pre. pre \<noteq> [] \<and> name = pre @ dot_git)"
    and "rest \<in> {[], dot_git}"
  shows "url_segment (name @ rest) = Some name"
proof -
  let ?r = "name @ rest"
  have slash: "CHR ''/'' \<notin> set ?r" using assms(2,4) by (auto simp: dot_git_def)
  have "find (\<lambda>n. CHR ''/'' \<notin> set (take n ?r) \<and> url_rest (drop n ?r)) [1..<Suc (length ?r)] = Some (length name)"
  proof (rule find_first)
    show "length name \<in> set [1..<Suc (length ?r)]" using assms(1)
      by (auto simp: Suc_le_eq simp del: upt_Suc)
    show "CHR ''/'' \<notin> set (take (length name) ?r) \<and> url_rest (drop (length name) ?r)"
      using assms(2,4) by (auto simp: url_rest_def)
  next
    fix m assume m: "m \<in> set [1..<Suc (length ?r)]" "m < length name"
    show "\<not> (CHR ''/'' \<notin> set (take m ?r) \<and> url_rest (drop m ?r))"
    proof
      assume "CHR ''/'' \<notin> set (take m ?r) \<and> url_rest (drop m ?r)"
      moreover have "set (drop m ?r) \<subseteq> set ?r" by (rule set_drop_subset)
      then have "CHR ''/'' \<notin> set (drop m ?r)" using slash by blast
      ultimately have "drop m ?r \<in> {[], dot_git}" using url_rest_no_slash by blast
      moreover have drop: "drop m ?r = drop m name @ rest" using m(2) by simp
      ultimately have "drop m name @ rest = dot_git" using m(2) by auto
      moreover have "drop m name \<noteq> []" using m(2) by simp
      ultimately have "rest = []" using assms(4) by (cases "drop m name") (auto simp: dot_git_def)
      with \<open>drop m name @ rest = dot_git\<close> have "name = take m name @ dot_git"
        using append_take_drop_id [of m name] by simp
      moreover have "take m name \<noteq> []" using m by (cases name) auto
      ultimately show False using assms(3) by blast
    qed
  next
    show "sorted [1..<Suc (length ?r)]" by (rule sorted_upt)
  qed
  then show ?thesis by (simp add: url_segment_def del: upt_Suc)
qed

text \<open>A separator that still has a path behind it does not match.\<close>

lemma url_segment_path:
  assumes "name \<noteq> []"
  shows "url_segment (pre @ ''/'' @ name @ rest) = None"
proof -
  let ?r = "pre @ ''/'' @ name @ rest"
  have "\<not> (CHR ''/'' \<notin> set (take n ?r) \<and> url_rest (drop n ?r))" if "n \<ge> 1" for n
  proof
    assume a: "CHR ''/'' \<notin> set (take n ?r) \<and> url_rest (drop n ?r)"
    then have "n \<le> length pre" by (cases "n \<le> length pre") (auto simp: take_Cons' split: if_splits)
    then have "url_rest (drop n pre @ ''/'' @ name @ rest)" using a by simp
    moreover have "\<exists>y ys. name = y # ys" using assms by (cases name) auto
    ultimately show False
      by (auto simp: url_rest_def dot_git_def append_eq_Cons_conv Cons_eq_append_conv)
  qed
  then have "find (\<lambda>n. CHR ''/'' \<notin> set (take n ?r) \<and> url_rest (drop n ?r)) [1..<Suc (length ?r)] = None"
    unfolding find_None_iff by auto
  then show ?thesis by (simp add: url_segment_def del: upt_Suc)
qed

lemma url_match_name:
  assumes "name \<noteq> []" and "CHR ''/'' \<notin> set name" and "\<not> (\<exists>pre. pre \<noteq> [] \<and> name = pre @ dot_git)"
    and "rest \<in> {[], dot_git}"
  shows "url_match (pre @ ''/'' @ name @ rest) = Some name"
proof (induction pre)
  case Nil
  then show ?case using url_segment_name [OF assms] by simp
next
  case (Cons c pre)
  then show ?case using url_segment_path [OF assms(1), of pre rest] by simp
qed

section \<open>The repository root\<close>

datatype clone_outcome = Cloned string | Clone_terminal string | Clone_ownership_lost | Clone_transient

record host =
  h_env :: "string \<Rightarrow> string option"
  h_config :: "string \<Rightarrow> string option"
  h_home :: string
  h_is_repo :: "string \<Rightarrow> bool"
  h_clone :: "string \<Rightarrow> string \<Rightarrow> clone_outcome"

datatype root_error = Root_terminal string | Root_ownership_lost

definition env_repo_key :: "string \<Rightarrow> string" where
  "env_repo_key name = ''SCRUM4ME_REPO_ROOT_REPO_'' @ name"

definition env_product_key :: "id \<Rightarrow> string" where
  "env_product_key productId = ''SCRUM4ME_REPO_ROOT_'' @ productId"

definition projects_dir :: "host \<Rightarrow> string \<Rightarrow> string" where
  "projects_dir h name = h_home h @ ''/Projects/'' @ name"

definition tryOnDemand :: "host \<Rightarrow> string \<Rightarrow> string \<Rightarrow> root_error + string option" where
  "tryOnDemand h repoUrl name = (case h_clone h repoUrl name of
     Cloned root \<Rightarrow> Inr (Some root)
   | Clone_terminal reason \<Rightarrow> Inl (Root_terminal reason)
   | Clone_ownership_lost \<Rightarrow> Inl Root_ownership_lost
   | Clone_transient \<Rightarrow> Inr None)"

text \<open>Steps 2 to 4: the product's own root. \<open>productUrl\<close> is \<open>product.repo_url\<close>.\<close>

definition product_root :: "host \<Rightarrow> id \<Rightarrow> string option \<Rightarrow> bool \<Rightarrow> bool \<Rightarrow> root_error + string option" where
  "product_root h productId productUrl allowClone explicitOnly =
     (if truthy (h_env h (env_product_key productId)) then Inr (h_env h (env_product_key productId))
      else if truthy (h_config h productId) then Inr (h_config h productId)
      else if explicitOnly then Inr None
      else if \<not> truthy (repoNameFromUrl productUrl) \<or> \<not> truthy productUrl then Inr None
      else (let name = the (repoNameFromUrl productUrl) in
            if h_is_repo h (projects_dir h name @ ''/.git'') then Inr (Some (projects_dir h name))
            else if allowClone then tryOnDemand h (the productUrl) name
            else Inr None))"

definition resolveRepoRoot ::
  "host \<Rightarrow> id \<Rightarrow> string option \<Rightarrow> string option \<Rightarrow> bool \<Rightarrow> bool \<Rightarrow> root_error + string option" where
  "resolveRepoRoot h productId taskRepoUrl productUrl allowOnDemandClone explicitRootsOnly =
     (let allowClone = (\<not> explicitRootsOnly \<and> allowOnDemandClone);
          taskName = (if truthy taskRepoUrl then repoNameFromUrl taskRepoUrl else None)
      in if truthy taskName then
           (let name = the taskName in
            if truthy (h_env h (env_repo_key name)) then Inr (h_env h (env_repo_key name))
            else if truthy (h_config h name) then Inr (h_config h name)
            else if explicitRootsOnly then Inr None
            else if h_is_repo h (projects_dir h name @ ''/.git'') then Inr (Some (projects_dir h name))
            else if allowClone then tryOnDemand h (the taskRepoUrl) name
            else product_root h productId productUrl allowClone explicitRootsOnly)
         else product_root h productId productUrl allowClone explicitRootsOnly)"

section \<open>The branch\<close>

text \<open>\<open>s.slice(-8)\<close>.\<close>

definition short_id :: "id \<Rightarrow> string" where
  "short_id k = slice_last 8 k"

definition sprint_branch :: "id \<Rightarrow> string" where
  "sprint_branch runId = ''feat/sprint-'' @ short_id runId"

definition story_branch :: "id \<Rightarrow> string" where
  "story_branch storyId = ''feat/story-'' @ short_id storyId"

definition resolveSprintBranchReuse :: "sprint_run \<Rightarrow> id \<Rightarrow> string option \<Rightarrow> string \<times> bool" where
  "resolveSprintBranchReuse run jobRunId jobBranch =
     (let isResume = (truthy (r_previous_run_id run) \<and> truthy (r_branch run));
          recorded = coalesce (r_branch run) jobBranch;
          branchName = (if isResume then the (r_branch run) else or_else recorded (sprint_branch jobRunId))
      in (branchName, isResume \<or> recorded \<noteq> None))"

definition story_of_job :: "db \<Rightarrow> job \<Rightarrow> id option" where
  "story_of_job d j = (case j_task_id j of None \<Rightarrow> None | Some t \<Rightarrow> map_option t_story_id (find_task t d))"

definition resolveBranchForJob :: "id \<Rightarrow> id \<Rightarrow> db \<Rightarrow> string \<times> bool" where
  "resolveBranchForJob jobId storyId d =
     (let run = (case find_job jobId d of
            None \<Rightarrow> None
          | Some j \<Rightarrow> (case j_sprint_run_id j of None \<Rightarrow> None | Some r \<Rightarrow> find_run r d))
      in case run of
           Some r \<Rightarrow>
             (if r_pr_strategy r = BATCH_SPRINT then
                (let branchName = sprint_branch (r_id r);
                     sibling = first_by j_created_at
                       (\<lambda>s. j_sprint_run_id s = Some (r_id r) \<and> j_branch s = Some branchName \<and> j_id s \<noteq> jobId) (jobs d)
                 in (branchName, sibling \<noteq> None))
              else
                (case first_by j_created_at
                        (\<lambda>s. story_of_job d s = Some storyId \<and> j_branch s \<noteq> None \<and> j_id s \<noteq> jobId) (jobs d) of
                   Some s \<Rightarrow> if truthy (j_branch s) then (the (j_branch s), True) else (story_branch storyId, False)
                 | None \<Rightarrow> (story_branch storyId, False)))
         | None \<Rightarrow>
             (case first_by j_created_at
                     (\<lambda>s. story_of_job d s = Some storyId \<and> j_branch s \<noteq> None \<and> j_id s \<noteq> jobId) (jobs d) of
                Some s \<Rightarrow> if truthy (j_branch s) then (the (j_branch s), True) else (story_branch storyId, False)
              | None \<Rightarrow> (story_branch storyId, False)))"

section \<open>Properties\<close>

text \<open>
  The repository name of a URL \<open>prefix/name\<close> or \<open>prefix/name.git\<close> is the name, for every
  prefix (whatever slashes and colons it has) and every name without a slash that does not itself
  end in \<open>.git\<close>.
\<close>

theorem repo_name_roundtrip:
  assumes "name \<noteq> []" and "CHR ''/'' \<notin> set name" and "\<not> (\<exists>p. p \<noteq> [] \<and> name = p @ ''.git'')"
  shows "repoNameFromUrl (Some (pre @ ''/'' @ name)) = Some name \<and>
    repoNameFromUrl (Some (pre @ ''/'' @ name @ ''.git'')) = Some name"
  using url_match_name [OF assms(1,2), of "[]" pre] url_match_name [OF assms(1,2), of dot_git pre] assms(3)
  by (simp add: repoNameFromUrl_def dot_git_def)

text \<open>
  A guarded job (explicit roots only) never runs in a repository the operator did not configure
  and never clones: its root, if any, is an environment or configuration entry; a job whose task
  names its own repository gets that repository's entry or none, never the product's; and the
  answer does not depend on the Projects directory or on cloning at all.
\<close>

theorem explicit_roots_only:
  "(case resolveRepoRoot h p taskUrl productUrl allow True of
      Inl _ \<Rightarrow> False
    | Inr None \<Rightarrow> True
    | Inr (Some root) \<Rightarrow>
        (if truthy taskUrl \<and> truthy (repoNameFromUrl taskUrl)
         then Some root \<in> {h_env h (env_repo_key (the (repoNameFromUrl taskUrl))), h_config h (the (repoNameFromUrl taskUrl))}
         else Some root \<in> {h_env h (env_product_key p), h_config h p})) \<and>
   resolveRepoRoot (h\<lparr>h_is_repo := f, h_clone := c\<rparr>) p taskUrl productUrl allow True =
     resolveRepoRoot h p taskUrl productUrl allow True"
  by (auto simp: resolveRepoRoot_def product_root_def Let_def split: option.splits)

text \<open>
  Branches of a run are shared and stable: with the sprint strategy every job of the run gets
  the run's own branch, whatever other jobs exist; and a branch recorded on the run or on the job is
  always reused, so that a re-claim continues on the branch where the work is.
\<close>

theorem sprint_branch_stable:
  "(case find_job k d of
      Some j \<Rightarrow> (case j_sprint_run_id j of
          Some r \<Rightarrow> (case find_run r d of
              Some run \<Rightarrow> (if r_pr_strategy run = BATCH_SPRINT
                 then fst (resolveBranchForJob k s d) = sprint_branch r else True)
            | None \<Rightarrow> True)
        | None \<Rightarrow> True)
    | None \<Rightarrow> True) \<and>
   resolveSprintBranchReuse run jr jb =
     (case coalesce (r_branch run) jb of Some b \<Rightarrow> (b, True) | None \<Rightarrow> (sprint_branch jr, False))"
proof
  have "r_id x = r" if "find_run r d = Some x" for x r
    using that by (auto simp: find_run_def dest: find_by_Some)
  then show "case find_job k d of
      Some j \<Rightarrow> (case j_sprint_run_id j of
          Some r \<Rightarrow> (case find_run r d of
              Some run \<Rightarrow> (if r_pr_strategy run = BATCH_SPRINT
                 then fst (resolveBranchForJob k s d) = sprint_branch r else True)
            | None \<Rightarrow> True)
        | None \<Rightarrow> True)
    | None \<Rightarrow> True"
    by (auto simp: resolveBranchForJob_def Let_def split: option.split)
  show "resolveSprintBranchReuse run jr jb =
     (case coalesce (r_branch run) jb of Some b \<Rightarrow> (b, True) | None \<Rightarrow> (sprint_branch jr, False))"
    by (cases "r_branch run"; cases jb) (auto simp: resolveSprintBranchReuse_def Let_def)
qed

theorem repo_name_roundtrip_witness:
  "repoNameFromUrl (Some (''https://git.example:3000/team'' @ ''/'' @ ''app'' @ ''.git'')) = Some ''app''"
proof -
  have "\<not> (\<exists>p. p \<noteq> [] \<and> ''app'' = p @ ''.git'')"
    by (auto simp: append_eq_Cons_conv Cons_eq_append_conv)
  then show ?thesis using repo_name_roundtrip [of "''app''" "''https://git.example:3000/team''"] by simp
qed

end
