(* ===== verification/Job_Claim.thy ===== *)
theory Job_Claim
  imports Repo_Roots Claim_Register
begin

text \<open>
  Claiming and giving back jobs: \<open>tryClaimJob\<close>, \<open>rollbackClaim\<close>, \<open>releaseMismatchedClaim\<close>,
  \<open>resetStaleClaimedJobs\<close>, \<open>skipAgentChatJob\<close> and \<open>markJobTerminallyFailed\<close> of
  \<open>src/src/tools/wait-for-job.ts\<close>. Each transaction is one step on the database; rows locked by
  concurrent transactions (\<open>SKIP LOCKED\<close>) are a parameter, and the rollback, which is not one
  transaction, runs with arbitrary interference of others between its statements.
\<close>

section \<open>Claiming\<close>

record chat_message =
  cm_id :: id
  cm_idea_id :: id
  cm_created_at :: time

record claimant =
  c_user_id :: id
  c_token_id :: id
  c_instance_id :: id
  c_product_id :: "id option"
  c_runtime :: agent_runtime
  c_capabilities :: "string list"
  c_tier :: "worker_tier option"

text \<open>
  \<open>v_trigger\<close> is the effect of the database trigger \<open>claude_job_claim_to_task\<close> on the claimed job's
  task (the trigger is not part of this repository).
\<close>

record claim_env =
  v_now :: time
  v_locked :: "id \<Rightarrow> bool"
  v_workers :: "worker list"
  v_min_quota :: "id \<Rightarrow> int"
  v_messages :: "chat_message list"
  v_trigger :: "time \<Rightarrow> task \<Rightarrow> task"

definition minute :: time where "minute = 60 * 1000"

definition claimant_input :: "claimant \<Rightarrow> claim_input" where
  "claimant_input c = \<lparr>in_user_id = c_user_id c,
     in_product_id = (if truthy (c_product_id c) then c_product_id c else None),
     in_runtime = c_runtime c, in_capabilities = c_capabilities c\<rparr>"

definition claimant_worker :: "claimant \<Rightarrow> worker" where
  "claimant_worker c = \<lparr>w_user_id = c_user_id c, w_product_id = c_product_id c, w_runtime = c_runtime c,
     w_capabilities = c_capabilities c, w_instance_id = c_instance_id c, w_last_seen_at = 0,
     w_quota_pct = None, w_tier = c_tier c\<rparr>"

definition claimable :: "claim_env \<Rightarrow> claimant \<Rightarrow> db \<Rightarrow> job \<Rightarrow> bool" where
  "claimable v c d j \<longleftrightarrow>
     buildClaimableJobWhereFragment d j (claimant_input c) \<and>
     (if c_tier c \<noteq> None
      then buildHigherTierIdleFragment d (v_workers v) (v_min_quota v) (v_now v) (claimant_worker c) j
      else True) \<and>
     sprint_sequence_clause d j"

definition claim_order :: "job \<Rightarrow> time \<times> int \<times> id" where
  "claim_order j = (j_created_at j, or_else (j_sprint_sequence j) 2147483647, j_id j)"

definition claim_candidate :: "claim_env \<Rightarrow> claimant \<Rightarrow> db \<Rightarrow> job option" where
  "claim_candidate v c d = first_by claim_order (\<lambda>j. claimable v c d j \<and> \<not> v_locked v (j_id j)) (jobs d)"

definition task_plan :: "db \<Rightarrow> job \<Rightarrow> string option" where
  "task_plan d j = (case j_task_id j of
     None \<Rightarrow> None
   | Some k \<Rightarrow> (case find_task k d of None \<Rightarrow> None | Some t \<Rightarrow> t_implementation_plan t))"

text \<open>The latest message of the idea's channel: \<open>ORDER BY created_at DESC, id DESC LIMIT 1\<close>.\<close>

definition last_message :: "claim_env \<Rightarrow> id \<Rightarrow> chat_message option" where
  "last_message v idea =
     (case rev (sort_key (\<lambda>m. (cm_created_at m, cm_id m)) (filter (\<lambda>m. cm_idea_id m = idea) (v_messages v))) of
        [] \<Rightarrow> None | m # _ \<Rightarrow> Some m)"

definition claim_row :: "claim_env \<Rightarrow> claimant \<Rightarrow> string \<Rightarrow> job \<Rightarrow> job" where
  "claim_row v c snapshot j = j\<lparr>j_status := J_CLAIMED, j_claimed_by_token_id := Some (c_token_id c),
     j_claimed_at := Some (v_now v), j_started_at := Some (v_now v), j_plan_snapshot := Some snapshot,
     j_worker_instance_id := Some (c_instance_id c), j_lease_until := Some (v_now v + 5 * minute)\<rparr>"

definition chat_cutoff_row :: "claim_env \<Rightarrow> job \<Rightarrow> job \<Rightarrow> job" where
  "chat_cutoff_row v found j =
     (if j_kind found = IDEA_CHAT \<and> truthy (j_idea_id found) then
        (case last_message v (the (j_idea_id found)) of
           None \<Rightarrow> j
         | Some m \<Rightarrow> j\<lparr>j_chat_cutoff_message_id := Some (cm_id m), j_chat_cutoff_at := Some (cm_created_at m)\<rparr>)
      else j)"

definition start_run :: "time \<Rightarrow> id option \<Rightarrow> db \<Rightarrow> db" where
  "start_run now runId d =
     (if truthy runId
      then update_runs (\<lambda>r. Some (r_id r) = runId \<and> r_status r = RUN_QUEUED)
             (\<lambda>r. r\<lparr>r_status := RUN_RUNNING, r_started_at := Some (or_else (r_started_at r) now)\<rparr>) d
      else d)"

definition trigger_task :: "claim_env \<Rightarrow> job \<Rightarrow> db \<Rightarrow> db" where
  "trigger_task v j d = d\<lparr>tasks := update_where (\<lambda>t. Some (t_id t) = j_task_id j) (v_trigger v (v_now v)) (tasks d)\<rparr>"

definition tryClaimJob :: "claim_env \<Rightarrow> claimant \<Rightarrow> db \<Rightarrow> db \<times> id option" where
  "tryClaimJob v c d =
     (if managedWorkerPollScope (c_instance_id c) then (d, None)
      else case claim_candidate v c d of
          None \<Rightarrow> (d, None)
        | Some j \<Rightarrow>
            (let k = j_id j;
                 d1 = update_jobs (\<lambda>x. j_id x = k) (claim_row v c (or_else (task_plan d j) [])) d;
                 d2 = trigger_task v j d1;
                 d3 = update_jobs (\<lambda>x. j_id x = k) (chat_cutoff_row v j) d2;
                 d4 = start_run (v_now v) (j_sprint_run_id j) d3
             in (notify_job k d4, Some k)))"

section \<open>Giving a claim back\<close>

type_synonym owner = "id \<times> id"

text \<open>The guard of every fenced statement: \<open>owner\<close> is the pair of token and worker instance.\<close>

definition owned :: "owner \<Rightarrow> id \<Rightarrow> job \<Rightarrow> bool" where
  "owned w k j \<longleftrightarrow> j_id j = k \<and> j_dispatch_request_id j = None \<and>
     j_claimed_by_token_id j = Some (fst w) \<and> j_worker_instance_id j = Some (snd w) \<and> claimed_or_running (j_status j)"

definition unclaim_row :: "job \<Rightarrow> job" where
  "unclaim_row j = j\<lparr>j_status := J_QUEUED, j_claimed_by_token_id := None, j_claimed_at := None, j_started_at := None,
     j_plan_snapshot := None, j_worker_instance_id := None, j_lease_until := None\<rparr>"

text \<open>\<open>refreshOwnership\<close>: the guarded lease bump; false when the claim was taken over.\<close>

definition refreshOwnership :: "time \<Rightarrow> owner option \<Rightarrow> id \<Rightarrow> db \<Rightarrow> bool \<times> db" where
  "refreshOwnership now w k d = (case w of
     None \<Rightarrow> (True, d)
   | Some o' \<Rightarrow> (list_ex (owned o' k) (jobs d),
       update_jobs (owned o' k) (\<lambda>j. j\<lparr>j_lease_until := Some (now + 2 * minute)\<rparr>) d))"

text \<open>The closing step, which makes the job claimable again.\<close>

definition requeue_claim :: "owner option \<Rightarrow> id \<Rightarrow> db \<Rightarrow> bool \<times> db" where
  "requeue_claim w k d =
     (let guard = (case w of Some o' \<Rightarrow> owned o' k | None \<Rightarrow> (\<lambda>j. j_id j = k \<and> j_dispatch_request_id j = None))
      in (list_ex guard (jobs d), update_jobs guard unclaim_row d))"

definition delete_executions :: "id \<Rightarrow> db \<Rightarrow> db" where
  "delete_executions k d = d\<lparr>execs := delete_where (\<lambda>e. e_sprint_job_id e = k) (execs d)\<rparr>"

datatype host_call = Backup_push id string | Remove_worktree string id | Release_locks id

record rollback_result =
  rb_db :: db
  rb_calls :: "host_call list"
  rb_error :: "managed_error option"
  rb_requeued :: bool

definition stop_rollback :: "db \<Rightarrow> host_call list \<Rightarrow> managed_error option \<Rightarrow> rollback_result" where
  "stop_rollback d calls e = \<lparr>rb_db = d, rb_calls = calls, rb_error = e, rb_requeued = False\<rparr>"

text \<open>
  \<open>others n\<close> is what concurrent transactions do to the database before the \<open>n\<close>-th statement;
  \<open>cleanup_root\<close> is the answer of \<open>resolveRepoRoot\<close> for the clean-up (no clone allowed).
\<close>

definition rollbackClaim ::
  "time \<Rightarrow> (nat \<Rightarrow> db \<Rightarrow> db) \<Rightarrow> (id \<Rightarrow> string option \<Rightarrow> string option) \<Rightarrow> id \<Rightarrow> owner option \<Rightarrow> db \<Rightarrow> rollback_result" where
  "rollbackClaim now others cleanup_root k w d0 =
     (case refreshOwnership now w k (others 0 d0) of (ok1, d1) \<Rightarrow>
      if \<not> ok1 then stop_rollback d1 [] None
      else let d2 = others 1 d1; job = find_job k d2 in
        case assertUnmanagedJob job d2 of
          Inl e \<Rightarrow> stop_rollback d2 [] (Some e)
        | Inr _ \<Rightarrow>
            let pushes = (case job of Some j \<Rightarrow> (if truthy (j_branch j) then [Backup_push k (the (j_branch j))] else []) | None \<Rightarrow> []);
                sprint = (case job of Some j \<Rightarrow> j_kind j = SPRINT_IMPLEMENTATION | None \<Rightarrow> False);
                (ok2, d3) = (if sprint then refreshOwnership now w k (others 2 d2) else (True, d2))
            in if \<not> ok2 then stop_rollback d3 pushes None
               else let d4 = (if sprint then delete_executions k (others 3 d3) else d3);
                        (ok3, d5) = refreshOwnership now w k (others 4 d4)
                    in if \<not> ok3 then stop_rollback d5 pushes None
                       else let removals = (case job of
                                  Some j \<Rightarrow> (let root = cleanup_root (j_product_id j)
                                               (case j_task_id j of None \<Rightarrow> None
                                                | Some t \<Rightarrow> (case find_task t d2 of None \<Rightarrow> None | Some x \<Rightarrow> t_repo_url x))
                                             in if j_product_id j \<noteq> [] \<and> truthy root then [Remove_worktree (the root) k] else [])
                                | None \<Rightarrow> []);
                                (requeued, d6) = requeue_claim w k (others 5 d5)
                            in \<lparr>rb_db = (if requeued then notify_job k d6 else d6), rb_calls = pushes @ removals,
                                rb_error = None, rb_requeued = requeued\<rparr>)"

text \<open>
  \<open>releaseMismatchedClaim\<close>: one transaction on the locked row. The task goes back only when this
  very claim promoted it (its \<open>updated_at\<close> equals the claim time).
\<close>

definition releaseMismatchedClaim :: "id \<Rightarrow> owner option \<Rightarrow> db \<Rightarrow> db" where
  "releaseMismatchedClaim k w d = (case w of
     None \<Rightarrow> d
   | Some (token, inst) \<Rightarrow>
       (case find_job k d of
          None \<Rightarrow> d
        | Some j \<Rightarrow>
            (if j_status j \<noteq> J_CLAIMED \<or> j_claimed_by_token_id j \<noteq> Some token \<or> j_worker_instance_id j \<noteq> Some inst then d
             else
               (let d1 = d\<lparr>tasks := update_where
                      (\<lambda>t. Some (t_id t) = j_task_id j \<and> t_status t = T_IN_PROGRESS \<and> Some (t_updated_at t) = j_claimed_at j)
                      (\<lambda>t. t\<lparr>t_status := T_TO_DO\<rparr>) (tasks d)\<rparr>
                in notify_job k (update_jobs (\<lambda>x. j_id x = k) unclaim_row d1)))))"

section \<open>Skipping and failing\<close>

text \<open>\<open>skipAgentChatJob\<close>: CLAIMED to SKIPPED, by the holder of the claim only.\<close>

definition skipAgentChatJob :: "time \<Rightarrow> id \<Rightarrow> owner option \<Rightarrow> string \<Rightarrow> db \<Rightarrow> db" where
  "skipAgentChatJob now k w reason d =
     (let guard = (\<lambda>j. j_id j = k \<and> j_status j = J_CLAIMED \<and>
            (case w of None \<Rightarrow> True
             | Some (token, inst) \<Rightarrow> j_claimed_by_token_id j = Some token \<and> j_worker_instance_id j = Some inst))
      in if \<not> list_ex guard (jobs d) then d
         else notify_job k (update_jobs guard (\<lambda>j. j\<lparr>j_status := J_SKIPPED, j_finished_at := Some now, j_error := Some reason\<rparr>) d))"

datatype terminal_error = Terminal_managed managed_error | Terminal_no_job

text \<open>\<open>markJobTerminallyFailed\<close>; releasing the locks and failing the run swallow their errors.\<close>

definition markJobTerminallyFailed ::
  "time \<Rightarrow> id \<Rightarrow> string \<Rightarrow> db \<Rightarrow> terminal_error + (db \<times> host_call list)" where
  "markJobTerminallyFailed now k reason d =
     (let trimmed = slice_to 2000 reason; job = find_job k d in
      case assertUnmanagedJob job d of
        Inl e \<Rightarrow> Inl (Terminal_managed e)
      | Inr _ \<Rightarrow>
          (case job of
             None \<Rightarrow> Inl Terminal_no_job
           | Some j \<Rightarrow>
               (let d1 = update_jobs (\<lambda>x. j_id x = k)
                      (\<lambda>x. x\<lparr>j_status := J_FAILED, j_finished_at := Some now, j_error := Some trimmed\<rparr>) d;
                    d2 = (if j_kind j = SPRINT_IMPLEMENTATION \<and> truthy (j_sprint_run_id j)
                          then update_runs (\<lambda>r. Some (r_id r) = j_sprint_run_id j)
                                 (\<lambda>r. r\<lparr>r_status := RUN_FAILED, r_failure_reason := Some trimmed\<rparr>) d1
                          else d1)
                in Inr (notify_job k d2, [Release_locks k]))))"

section \<open>The sweep\<close>

definition stale_error :: string where
  "stale_error = ''agent did not complete job within 2 attempts''"

text \<open>\<open>lease_until < NOW() OR (lease_until IS NULL AND claimed_at < NOW() - 30 min)\<close>; NULL is not true.\<close>

definition lease_expired :: "time \<Rightarrow> job \<Rightarrow> bool" where
  "lease_expired now j = (case j_lease_until j of
     Some l \<Rightarrow> l < now
   | None \<Rightarrow> (case j_claimed_at j of Some c \<Rightarrow> c < now - 30 * minute | None \<Rightarrow> False))"

definition stale :: "time \<Rightarrow> id \<Rightarrow> job \<Rightarrow> bool" where
  "stale now user j \<longleftrightarrow> j_user_id j = user \<and> j_dispatch_request_id j = None \<and>
     claimed_or_running (j_status j) \<and> lease_expired now j"

definition fail_row :: "time \<Rightarrow> job \<Rightarrow> job" where
  "fail_row now j = j\<lparr>j_status := J_FAILED, j_finished_at := Some now, j_error := Some stale_error\<rparr>"

definition requeue_row :: "job \<Rightarrow> job" where
  "requeue_row j = (unclaim_row j)\<lparr>j_retry_count := j_retry_count j + 1\<rparr>"

definition sweep_fail :: "time \<Rightarrow> id \<Rightarrow> db \<Rightarrow> db \<times> job list" where
  "sweep_fail now user d =
     (let p = (\<lambda>j. stale now user j \<and> j_retry_count j \<ge> 2)
      in (update_jobs p (fail_row now) d, map (fail_row now) (filter p (jobs d))))"

text \<open>One transaction: the requeue and the removal of the executions of requeued sprint jobs.\<close>

definition sweep_requeue :: "time \<Rightarrow> id \<Rightarrow> db \<Rightarrow> db \<times> job list" where
  "sweep_requeue now user d =
     (let p = (\<lambda>j. stale now user j \<and> j_retry_count j < 2);
          rows = map requeue_row (filter p (jobs d));
          sprintIds = map j_id (filter (\<lambda>j. j_kind j = SPRINT_IMPLEMENTATION) rows);
          d1 = update_jobs p requeue_row d
      in (d1\<lparr>execs := delete_where (\<lambda>e. e_sprint_job_id e \<in> set sprintIds) (execs d1)\<rparr>, rows))"

definition backup_pushes :: "job list \<Rightarrow> host_call list" where
  "backup_pushes rows = List.map_filter (\<lambda>j. if truthy (j_branch j) \<and> j_product_id j \<noteq> []
     then Some (Backup_push (j_id j) (the (j_branch j))) else None) rows"

definition stale_reason :: "db \<Rightarrow> id \<Rightarrow> (int \<times> id) option" where
  "stale_reason d k = map_option (\<lambda>e. (e_order e, e_task_id e))
     (first_by (\<lambda>e. - e_order e) (\<lambda>e. e_sprint_job_id e = k \<and> e_status e = E_RUNNING) (execs d))"

definition stale_reason_text :: "(int \<times> id) option \<Rightarrow> string" where
  "stale_reason_text lastRunning = ''stale: lease verlopen'' @ (case lastRunning of
     None \<Rightarrow> []
   | Some (ord, taskId) \<Rightarrow> '', last execution: order '' @ int_digits ord @ '' task '' @ taskId)"

definition fail_stale_run :: "job \<Rightarrow> db \<Rightarrow> db" where
  "fail_stale_run j d =
     (if j_kind j = SPRINT_IMPLEMENTATION \<and> truthy (j_sprint_run_id j)
      then update_runs (\<lambda>r. Some (r_id r) = j_sprint_run_id j)
             (\<lambda>r. r\<lparr>r_status := RUN_FAILED, r_failure_reason := Some (stale_reason_text (stale_reason d (j_id j)))\<rparr>) d
      else d)"

text \<open>The announcements are raw notifications with the new status, failed jobs first.\<close>

definition resetStaleClaimedJobs ::
  "time \<Rightarrow> id \<Rightarrow> db \<Rightarrow> db \<times> host_call list" where
  "resetStaleClaimedJobs now user d =
     (let (d1, failed) = sweep_fail now user d;
          (d2, requeued) = sweep_requeue now user d1
      in if failed = [] \<and> requeued = [] then (d2, [])
         else
           (let d3 = fold fail_stale_run failed d2
            in (d3\<lparr>notified := notified d3 @ map j_id (failed @ requeued)\<rparr>,
                map (\<lambda>j. Release_locks (j_id j)) (failed @ requeued) @ backup_pushes (failed @ requeued))))"


section \<open>The job queue as a claim register\<close>

definition job_holder :: "db \<Rightarrow> id \<Rightarrow> owner option" where
  "job_holder d k = (case find_job k d of
     None \<Rightarrow> None
   | Some j \<Rightarrow> (case (j_claimed_by_token_id j, j_worker_instance_id j) of
       (Some t, Some i) \<Rightarrow> if claimed_or_running (j_status j) \<and> j_dispatch_request_id j = None then Some (t, i) else None
     | _ \<Rightarrow> None))"

definition distinct_jobs :: "db \<Rightarrow> bool" where
  "distinct_jobs d \<longleftrightarrow> distinct (map j_id (jobs d))"

definition claim_owner :: "claim_env \<times> claimant \<Rightarrow> owner" where
  "claim_owner vc = (c_token_id (snd vc), c_instance_id (snd vc))"

definition claim_action :: "claim_env \<times> claimant \<Rightarrow> db \<Rightarrow> db \<times> id option" where
  "claim_action vc d = tryClaimJob (fst vc) (snd vc) d"

definition release_action :: "owner \<Rightarrow> id \<Rightarrow> db \<Rightarrow> db" where
  "release_action w k d = snd (requeue_claim (Some w) k d)"

text \<open>The job rows after a claim.\<close>

lemma start_run_frame [simp]:
  "jobs (start_run now r d) = jobs d" "tasks (start_run now r d) = tasks d"
  "execs (start_run now r d) = execs d" "notified (start_run now r d) = notified d"
  by (simp_all add: start_run_def)

lemma trigger_task_frame [simp]:
  "jobs (trigger_task v j d) = jobs d" "runs (trigger_task v j d) = runs d" "execs (trigger_task v j d) = execs d"
  by (simp_all add: trigger_task_def)

lemma chat_cutoff_row_frame [simp]:
  "j_id (chat_cutoff_row v j x) = j_id x" "j_status (chat_cutoff_row v j x) = j_status x"
  "j_claimed_by_token_id (chat_cutoff_row v j x) = j_claimed_by_token_id x"
  "j_worker_instance_id (chat_cutoff_row v j x) = j_worker_instance_id x"
  "j_dispatch_request_id (chat_cutoff_row v j x) = j_dispatch_request_id x"
  "j_kind (chat_cutoff_row v j x) = j_kind x" "j_sprint_run_id (chat_cutoff_row v j x) = j_sprint_run_id x"
  "j_sprint_sequence (chat_cutoff_row v j x) = j_sprint_sequence x"
  "j_lease_until (chat_cutoff_row v j x) = j_lease_until x"
  "j_plan_snapshot (chat_cutoff_row v j x) = j_plan_snapshot x"
  by (simp_all add: chat_cutoff_row_def split: option.split)

lemma claim_row_simps [simp]:
  "j_id (claim_row v c s x) = j_id x" "j_status (claim_row v c s x) = J_CLAIMED"
  "j_claimed_by_token_id (claim_row v c s x) = Some (c_token_id c)"
  "j_worker_instance_id (claim_row v c s x) = Some (c_instance_id c)"
  "j_dispatch_request_id (claim_row v c s x) = j_dispatch_request_id x"
  "j_kind (claim_row v c s x) = j_kind x" "j_sprint_run_id (claim_row v c s x) = j_sprint_run_id x"
  "j_sprint_sequence (claim_row v c s x) = j_sprint_sequence x"
  "j_lease_until (claim_row v c s x) = Some (v_now v + 5 * minute)"
  "j_plan_snapshot (claim_row v c s x) = Some s"
  by (simp_all add: claim_row_def)

lemma unclaim_row_simps [simp]:
  "j_id (unclaim_row x) = j_id x" "j_status (unclaim_row x) = J_QUEUED"
  "j_claimed_by_token_id (unclaim_row x) = None" "j_worker_instance_id (unclaim_row x) = None"
  "j_kind (unclaim_row x) = j_kind x" "j_sprint_run_id (unclaim_row x) = j_sprint_run_id x"
  "j_sprint_sequence (unclaim_row x) = j_sprint_sequence x"
  "j_dispatch_request_id (unclaim_row x) = j_dispatch_request_id x"
  "j_lease_until (unclaim_row x) = None" "j_retry_count (unclaim_row x) = j_retry_count x"
  by (simp_all add: unclaim_row_def)

lemma tryClaimE:
  assumes "tryClaimJob v c d = (d', Some k)"
  obtains j where "claim_candidate v c d = Some j" "j_id j = k" "\<not> managedWorkerPollScope (c_instance_id c)"
    and "jobs d' = update_where (\<lambda>x. j_id x = k)
           (\<lambda>x. chat_cutoff_row v j (claim_row v c (or_else (task_plan d j) []) x)) (jobs d)"
    and "d' = notify_job k (start_run (v_now v) (j_sprint_run_id j)
           (update_jobs (\<lambda>x. j_id x = k) (chat_cutoff_row v j) (trigger_task v j
             (update_jobs (\<lambda>x. j_id x = k) (claim_row v c (or_else (task_plan d j) [])) d))))"
proof -
  obtain j where "claim_candidate v c d = Some j" "j_id j = k" "\<not> managedWorkerPollScope (c_instance_id c)"
    "d' = notify_job k (start_run (v_now v) (j_sprint_run_id j)
           (update_jobs (\<lambda>x. j_id x = k) (chat_cutoff_row v j) (trigger_task v j
             (update_jobs (\<lambda>x. j_id x = k) (claim_row v c (or_else (task_plan d j) [])) d))))"
    using assms by (cases "managedWorkerPollScope (c_instance_id c)"; cases "claim_candidate v c d")
      (simp_all add: tryClaimJob_def Let_def)
  moreover from this have "jobs d' = update_where (\<lambda>x. j_id x = k)
      (\<lambda>x. chat_cutoff_row v j (claim_row v c (or_else (task_plan d j) []) x)) (jobs d)"
    by (simp add: update_where_update_where)
  ultimately show thesis by (intro that)
qed

lemma tryClaim_none: "snd (tryClaimJob v c d) = None \<Longrightarrow> fst (tryClaimJob v c d) = d"
  by (cases "managedWorkerPollScope (c_instance_id c)"; cases "claim_candidate v c d")
    (simp_all add: tryClaimJob_def Let_def)

lemma claim_candidate_props:
  assumes "claim_candidate v c d = Some j"
  shows "j \<in> set (jobs d)" "claimable v c d j" "\<not> v_locked v (j_id j)" "j_status j = J_QUEUED" "j_dispatch_request_id j = None"
proof -
  show j: "j \<in> set (jobs d)" "claimable v c d j" "\<not> v_locked v (j_id j)"
    using first_by_Some [OF assms [unfolded claim_candidate_def]] by auto
  then show "j_status j = J_QUEUED" "j_dispatch_request_id j = None"
    by (simp_all add: claimable_def buildClaimableJobWhereFragment_def claimConditionSql_def Let_def)
qed

lemma find_job_update_where:
  "jobs d' = update_where p f (jobs d) \<Longrightarrow> (\<And>x. j_id (f x) = j_id x) \<Longrightarrow>
   find_job k d' = map_option (\<lambda>x. if p x then f x else x) (find_job k d)"
  by (simp add: find_job_def find_by_update_where)

lemma find_job_unique: "distinct_jobs d \<Longrightarrow> j \<in> set (jobs d) \<Longrightarrow> find_job (j_id j) d = Some j"
  unfolding distinct_jobs_def find_job_def by (rule find_by_unique) simp_all

lemma distinct_jobs_update:
  "jobs d' = update_where p f (jobs d) \<Longrightarrow> (\<And>x. j_id (f x) = j_id x) \<Longrightarrow> distinct_jobs d' = distinct_jobs d"
  by (simp add: distinct_jobs_def map_update_where)

lemma owned_holder:
  "distinct_jobs d \<Longrightarrow> list_ex (owned w k) (jobs d) \<longleftrightarrow> job_holder d k = Some w"
proof
  assume d: "distinct_jobs d" and "list_ex (owned w k) (jobs d)"
  then obtain j where "j \<in> set (jobs d)" "owned w k j" by (auto simp: list_ex_iff)
  moreover from this have "find_job k d = Some j" using find_job_unique [OF d, of j] by (simp add: owned_def)
  ultimately show "job_holder d k = Some w" by (cases w) (simp add: job_holder_def owned_def)
next
  assume "job_holder d k = Some w"
  then obtain j where "find_job k d = Some j" "owned w k j"
    by (auto simp: job_holder_def owned_def split: option.splits if_splits)
  then show "list_ex (owned w k) (jobs d)" using find_job_Some by (auto simp: list_ex_iff)
qed

interpretation job_register: claim_register distinct_jobs job_holder "\<lambda>_ _. False" claim_owner claim_action release_action
proof unfold_locales
  fix s c assume d: "distinct_jobs s"
  show "distinct_jobs (fst (claim_action c s))"
  proof (cases "snd (claim_action c s)")
    case None
    then show ?thesis using tryClaim_none d by (simp add: claim_action_def)
  next
    case (Some k)
    then have "tryClaimJob (fst c) (snd c) s = (fst (claim_action c s), Some k)"
      by (simp add: claim_action_def prod_eq_iff)
    then show ?thesis
      by (rule tryClaimE) (use d distinct_jobs_update in auto)
  qed
next
  fix s :: db and w :: owner and k :: id assume "distinct_jobs s"
  then show "distinct_jobs (release_action w k s)"
    by (simp add: release_action_def requeue_claim_def Let_def distinct_jobs_def map_update_where)
next
  fix s c assume "snd (claim_action c s) = None"
  then show "fst (claim_action c s) = s" by (simp add: claim_action_def tryClaim_none)
next
  fix s :: db and c s' k assume d: "distinct_jobs s" and c: "claim_action c s = (s', Some k)"
  have "job_holder s k = None"
    using c unfolding claim_action_def
  proof (rule tryClaimE)
    fix j assume "claim_candidate (fst c) (snd c) s = Some j" "j_id j = k"
    with claim_candidate_props [of "fst c" "snd c" s j] find_job_unique [OF d, of j]
    show ?thesis by (auto simp: job_holder_def split: option.split)
  qed
  then show "job_holder s k = None \<or> False" by simp
next
  fix s :: db and c s' k assume d: "distinct_jobs s" and c: "claim_action c s = (s', Some k)"
  show "job_holder s' k = Some (claim_owner c)"
    using c unfolding claim_action_def
  proof (rule tryClaimE)
    fix j assume j: "claim_candidate (fst c) (snd c) s = Some j" "j_id j = k"
      and jobs: "jobs s' = update_where (\<lambda>x. j_id x = k)
         (\<lambda>x. chat_cutoff_row (fst c) j (claim_row (fst c) (snd c) (or_else (task_plan s j) []) x)) (jobs s)"
    have "find_job k s = Some j" using claim_candidate_props [OF j(1)] find_job_unique [OF d] j(2) by blast
    then show ?thesis using find_job_update_where [OF jobs, of k] j claim_candidate_props [OF j(1)]
      by (simp add: job_holder_def claim_owner_def)
  qed
next
  fix s :: db and c s' k i assume c: "claim_action c s = (s', Some k)" and "i \<noteq> k"
  have "job_holder s' i = job_holder s i"
    using c unfolding claim_action_def
  proof (rule tryClaimE)
    fix j assume jobs: "jobs s' = update_where (\<lambda>x. j_id x = k)
         (\<lambda>x. chat_cutoff_row (fst c) j (claim_row (fst c) (snd c) (or_else (task_plan s j) []) x)) (jobs s)"
    have "find_job i s' = find_job i s"
      using find_job_update_where [OF jobs, of i] \<open>i \<noteq> k\<close> by (cases "find_job i s") auto
    then show ?thesis by (simp add: job_holder_def)
  qed
  then show "job_holder s' i = job_holder s i \<and> False = False" by simp
next
  fix s :: db and k :: id and w :: owner assume d: "distinct_jobs s" and h: "job_holder s k = Some w"
  have jobs: "jobs (release_action w k s) = update_where (owned w k) unclaim_row (jobs s)"
    by (simp add: release_action_def requeue_claim_def Let_def)
  have "find_job k (release_action w k s) = map_option (\<lambda>x. if owned w k x then unclaim_row x else x) (find_job k s)"
    using jobs by (rule find_job_update_where) simp
  then show "job_holder (release_action w k s) k = None"
    using h by (auto simp: job_holder_def owned_def split: option.splits if_splits)
next
  fix s :: db and k :: id and w :: owner assume d: "distinct_jobs s" and h: "job_holder s k \<noteq> Some w"
  then have "\<not> list_ex (owned w k) (jobs s)" by (simp add: owned_holder)
  then show "release_action w k s = s"
    by (simp add: release_action_def requeue_claim_def Let_def update_jobs_def list_ex_iff update_where_none)
next
  fix s :: db and i k :: id and w :: owner assume "i \<noteq> k"
  have jobs: "jobs (release_action w k s) = update_where (owned w k) unclaim_row (jobs s)"
    by (simp add: release_action_def requeue_claim_def Let_def)
  have "find_job i (release_action w k s) = find_job i s"
    using find_job_update_where [OF jobs, of i] \<open>i \<noteq> k\<close> by (cases "find_job i s") (auto simp: owned_def)
  then show "job_holder (release_action w k s) i = job_holder s i" by (simp add: job_holder_def)
qed simp_all

end
