(* ===== verification/Job_Claim_Laws.thy ===== *)
theory Job_Claim_Laws
  imports Job_Claim
begin

text \<open>
  What the claim operations of \<open>Job_Claim\<close> guarantee: claims are exclusive and in order, a claim can
  be undone, a rollback never touches a claim that was taken over, and the sweep puts every
  abandoned job back at most twice.
\<close>

section \<open>Claims\<close>

lemma claim_candidate_least:
  "claim_candidate v c d = Some j \<Longrightarrow> i \<in> set (jobs d) \<Longrightarrow> claimable v c d i \<Longrightarrow> \<not> v_locked v (j_id i) \<Longrightarrow>
   claim_order j \<le> claim_order i"
  using first_by_least [of claim_order "\<lambda>j. claimable v c d j \<and> \<not> v_locked v (j_id j)" "jobs d" j i]
  by (simp add: claim_candidate_def)

lemma claim_candidate_none:
  "claim_candidate v c d = None \<longleftrightarrow> list_all (\<lambda>j. claimable v c d j \<longrightarrow> v_locked v (j_id j)) (jobs d)"
  by (auto simp: claim_candidate_def first_by_None list_all_iff)

lemma claim_frame:
  assumes "tryClaimJob v c d = (d', Some k)"
  shows "filter (\<lambda>x. j_id x \<noteq> k) (jobs d') = filter (\<lambda>x. j_id x \<noteq> k) (jobs d)"
    and "execs d' = execs d" and "stories d' = stories d"
proof -
  from assms obtain j where jobs: "jobs d' = update_where (\<lambda>x. j_id x = k)
           (\<lambda>x. chat_cutoff_row v j (claim_row v c (or_else (task_plan d j) []) x)) (jobs d)"
    by (rule tryClaimE)
  show "filter (\<lambda>x. j_id x \<noteq> k) (jobs d') = filter (\<lambda>x. j_id x \<noteq> k) (jobs d)"
    unfolding jobs by (rule update_where_commute_frame) auto
  show "execs d' = execs d" "stories d' = stories d"
    using assms by (rule tryClaimE, simp add: start_run_def trigger_task_def)+
qed

section \<open>Order within a run\<close>

text \<open>No task job of a run is being worked on while a job before it in the run is still open.\<close>

definition sequence_ok :: "db \<Rightarrow> bool" where
  "sequence_ok d \<longleftrightarrow> list_all (\<lambda>j. claimed_or_running (j_status j) \<longrightarrow> sprint_sequence_clause d j) (jobs d)"

definition sequence_view :: "job \<Rightarrow> id option \<times> job_kind \<times> int option \<times> bool" where
  "sequence_view j = (j_sprint_run_id j, j_kind j, j_sprint_sequence j, active (j_status j))"

lemma earlier_sibling_view:
  assumes "map sequence_view (jobs d') = map sequence_view (jobs d)" and "sequence_view i = sequence_view j"
  shows "earlier_sibling d' i = earlier_sibling d j" and "sprint_sequence_clause d' i = sprint_sequence_clause d j"
proof -
  have "list_ex (\<lambda>e. j_sprint_run_id e = Some r \<and> j_kind e = TASK_IMPLEMENTATION \<and>
          sequence_before (j_sprint_sequence e) s \<and> active (j_status e)) xs =
        list_ex (\<lambda>(r', k', s', a). r' = Some r \<and> k' = TASK_IMPLEMENTATION \<and> sequence_before s' s \<and> a) (map sequence_view xs)"
    for r s xs by (induction xs) (simp_all add: sequence_view_def)
  then show e: "earlier_sibling d' i = earlier_sibling d j"
    using assms by (simp add: earlier_sibling_def sequence_view_def split: option.split)
  show "sprint_sequence_clause d' i = sprint_sequence_clause d j"
    using assms(2) e by (auto simp: sprint_sequence_clause_def sequence_view_def)
qed

text \<open>Changing rows without changing what the order looks at keeps it, if new work respects it.\<close>

lemma sequence_ok_update:
  assumes "sequence_ok d" and jobs: "jobs d' = update_where p f (jobs d)"
    and view: "\<And>j. j \<in> set (jobs d) \<Longrightarrow> p j \<Longrightarrow> sequence_view (f j) = sequence_view j"
    and new: "\<And>j. j \<in> set (jobs d) \<Longrightarrow> p j \<Longrightarrow> claimed_or_running (j_status (f j)) \<Longrightarrow> sprint_sequence_clause d j"
  shows "sequence_ok d'"
proof -
  have "map sequence_view (jobs d') = map sequence_view (jobs d)"
    unfolding jobs update_where_def map_map comp_def by (rule map_cong) (auto simp: view)
  note same = earlier_sibling_view(2) [OF this]
  have "sprint_sequence_clause d' (if p j then f j else j)"
    if "j \<in> set (jobs d)" "claimed_or_running (j_status (if p j then f j else j))" for j
    using same [of "if p j then f j else j" j] view [OF that(1)] new [OF that(1)] that assms(1)
    by (cases "p j") (auto simp: sequence_ok_def list_all_iff)
  moreover have "\<exists>j \<in> set (jobs d). x = (if p j then f j else j)" if "x \<in> set (jobs d')" for x
    using that by (auto simp: jobs set_update_where)
  ultimately show ?thesis unfolding sequence_ok_def list_all_iff by blast
qed

lemma claim_sequence_ok:
  assumes "sequence_ok d" and d: "distinct_jobs d" and "tryClaimJob v c d = (d', Some k)"
  shows "sequence_ok d'"
  using assms(3)
proof (rule tryClaimE)
  fix j assume j: "claim_candidate v c d = Some j" "j_id j = k"
    and jobs: "jobs d' = update_where (\<lambda>x. j_id x = k)
           (\<lambda>x. chat_cutoff_row v j (claim_row v c (or_else (task_plan d j) []) x)) (jobs d)"
  note props = claim_candidate_props [OF j(1)]
  have only: "x = j" if "x \<in> set (jobs d)" "j_id x = k" for x
    using find_job_unique [OF d that(1)] find_job_unique [OF d props(1)] that(2) j(2) by simp
  show "sequence_ok d'"
  proof (rule sequence_ok_update [OF assms(1) jobs])
    fix x assume x: "x \<in> set (jobs d)" "j_id x = k"
    have "x = j" using only x by blast
    then show "sequence_view (chat_cutoff_row v j (claim_row v c (or_else (task_plan d j) []) x)) = sequence_view x"
      using props(4) by (simp add: sequence_view_def)
    show "sprint_sequence_clause d x" using \<open>x = j\<close> props(2) by (simp add: claimable_def)
  qed
qed

section \<open>The sweep\<close>

lemma fail_row_simps [simp]:
  "j_id (fail_row now j) = j_id j" "j_status (fail_row now j) = J_FAILED" "j_user_id (fail_row now j) = j_user_id j"
  "j_retry_count (fail_row now j) = j_retry_count j"
  by (simp_all add: fail_row_def)

lemma requeue_row_simps [simp]:
  "j_id (requeue_row j) = j_id j" "j_status (requeue_row j) = J_QUEUED" "j_kind (requeue_row j) = j_kind j"
  "j_retry_count (requeue_row j) = j_retry_count j + 1"
  "sequence_view (requeue_row j) = (j_sprint_run_id j, j_kind j, j_sprint_sequence j, True)"
  by (simp_all add: requeue_row_def sequence_view_def)

lemma fold_fail_stale_run_frame [simp]:
  "jobs (fold fail_stale_run js d) = jobs d" "execs (fold fail_stale_run js d) = execs d"
  "tasks (fold fail_stale_run js d) = tasks d"
  by (induction js arbitrary: d) (simp_all add: fail_stale_run_def)

definition sweep_row :: "time \<Rightarrow> id \<Rightarrow> job \<Rightarrow> job" where
  "sweep_row now user j =
     (if \<not> stale now user j then j else if j_retry_count j \<ge> 2 then fail_row now j else requeue_row j)"

lemma sweep_jobs:
  "jobs (fst (resetStaleClaimedJobs now user d)) = map (sweep_row now user) (jobs d)"
proof -
  have "update_where (\<lambda>j. stale now user j \<and> j_retry_count j < 2) requeue_row
          (update_where (\<lambda>j. stale now user j \<and> j_retry_count j \<ge> 2) (fail_row now) xs) =
        map (sweep_row now user) xs" for xs
    by (induction xs) (auto simp: sweep_row_def stale_def)
  then show ?thesis
    by (simp add: resetStaleClaimedJobs_def sweep_fail_def sweep_requeue_def Let_def)
qed

lemma sweep_execs:
  "execs (fst (resetStaleClaimedJobs now user d)) =
     filter (\<lambda>e. \<not> list_ex (\<lambda>j. j_id j = e_sprint_job_id e \<and> j_kind j = SPRINT_IMPLEMENTATION \<and>
       stale now user j \<and> j_retry_count j < 2) (jobs d)) (execs d)"
proof -
  let ?p = "\<lambda>j. stale now user j \<and> j_retry_count j < 2"
  let ?d1 = "update_jobs (\<lambda>j. stale now user j \<and> j_retry_count j \<ge> 2) (fail_row now) d"
  have rows: "filter ?p (jobs ?d1) = filter ?p (jobs d)"
    unfolding update_jobs_frame by (rule update_where_commute_frame) (auto simp: stale_def)
  have requeue: "execs (fst (sweep_requeue now user x)) =
      delete_where (\<lambda>e. e_sprint_job_id e \<in> set (map j_id (filter (\<lambda>j. j_kind j = SPRINT_IMPLEMENTATION)
        (map requeue_row (filter ?p (jobs x)))))) (execs x)" for x
    by (simp add: sweep_requeue_def Let_def)
  have "execs (fst (resetStaleClaimedJobs now user d)) = execs (fst (sweep_requeue now user ?d1))"
    by (simp add: resetStaleClaimedJobs_def sweep_fail_def Let_def split_beta)
  also have "\<dots> = delete_where (\<lambda>e. e_sprint_job_id e \<in> set (map j_id (filter (\<lambda>j. j_kind j = SPRINT_IMPLEMENTATION)
        (map requeue_row (filter ?p (jobs d)))))) (execs d)"
    unfolding requeue rows by simp
  finally show ?thesis
    unfolding delete_where_def filter_map map_map comp_def requeue_row_simps
    by (simp add: list_ex_iff image_iff) (rule filter_cong, auto)
qed

section \<open>Rollback\<close>

lemma refresh_not_owned:
  "\<not> list_ex (owned w k) (jobs d) \<Longrightarrow> refreshOwnership now (Some w) k d = (False, d)"
  by (simp add: refreshOwnership_def update_jobs_def list_ex_iff update_where_none)

lemma requeue_not_owned:
  "\<not> list_ex (owned w k) (jobs d) \<Longrightarrow> requeue_claim (Some w) k d = (False, d)"
  by (simp add: requeue_claim_def Let_def update_jobs_def list_ex_iff update_where_none)

lemma rollback_requeued:
  "rb_requeued (rollbackClaim now others root k (Some w) d) \<Longrightarrow>
     \<exists>d'. list_ex (owned w k) (jobs (others 5 d'))"
proof (rule ccontr)
  assume r: "rb_requeued (rollbackClaim now others root k (Some w) d)"
    and "\<not> (\<exists>d'. list_ex (owned w k) (jobs (others 5 d')))"
  then have "requeue_claim (Some w) k (others 5 x) = (False, others 5 x)" for x
    using requeue_not_owned by blast
  with r show False
    by (simp add: rollbackClaim_def stop_rollback_def Let_def split: prod.splits if_splits sum.splits)
qed


section \<open>Properties\<close>

text \<open>
  C1. Exclusive claims: for any sequence of workers claiming one after another, under any locks held
  by others, no job is handed out twice, each was unclaimed before, and afterwards each is held by
  exactly the worker that took it.
\<close>

theorem job_claims_exclusive:
  assumes "distinct_jobs d" and "run_claims claim_action cs d = (d', taken)"
  shows "distinct (map snd taken) \<and>
    list_all (\<lambda>(c, k). job_holder d k = None \<and> job_holder d' k = Some (claim_owner c)) taken"
  using job_register.run_claims_exclusive [OF assms] by (auto simp: list_all_iff)

text \<open>
  What a claim does: it takes the first claimable unlocked job in the order of creation,
  sequence and id, marks exactly that row as claimed by this worker with a lease of five minutes and
  the task's plan as snapshot, and leaves every other job as it is.
\<close>

theorem claim_takes_first:
  assumes "distinct_jobs d" and "tryClaimJob v c d = (d', Some k)"
  shows "\<exists>j j'. find_job k d = Some j \<and> find_job k d' = Some j' \<and> j_status j = J_QUEUED \<and> claimable v c d j \<and>
    list_all (\<lambda>i. claimable v c d i \<and> \<not> v_locked v (j_id i) \<longrightarrow> claim_order j \<le> claim_order i) (jobs d) \<and>
    j_status j' = J_CLAIMED \<and> j_claimed_by_token_id j' = Some (c_token_id c) \<and>
    j_worker_instance_id j' = Some (c_instance_id c) \<and> j_lease_until j' = Some (v_now v + 5 * minute) \<and>
    j_plan_snapshot j' = Some (or_else (task_plan d j) []) \<and>
    filter (\<lambda>x. j_id x \<noteq> k) (jobs d') = filter (\<lambda>x. j_id x \<noteq> k) (jobs d)"
  using assms(2)
proof (rule tryClaimE)
  fix j assume j: "claim_candidate v c d = Some j" "j_id j = k"
    and jobs: "jobs d' = update_where (\<lambda>x. j_id x = k)
           (\<lambda>x. chat_cutoff_row v j (claim_row v c (or_else (task_plan d j) []) x)) (jobs d)"
  note props = claim_candidate_props [OF j(1)]
  have found: "find_job k d = Some j" using find_job_unique [OF assms(1) props(1)] j(2) by simp
  have found': "find_job k d' = Some (chat_cutoff_row v j (claim_row v c (or_else (task_plan d j) []) j))"
    using find_job_update_where [OF jobs, of k] found j(2) by simp
  have "list_all (\<lambda>i. claimable v c d i \<and> \<not> v_locked v (j_id i) \<longrightarrow> claim_order j \<le> claim_order i) (jobs d)"
    using claim_candidate_least [OF j(1)] by (auto simp: list_all_iff)
  then show ?thesis using found found' props claim_frame(1) [OF assms(2)] by auto
qed

text \<open>
  A worker goes away empty-handed only for a reason: it is a managed identity, or every job that
  its claim query selects is locked by someone else at that moment.
\<close>

theorem claim_empty_iff:
  "snd (tryClaimJob v c d) = None \<longleftrightarrow>
     managedWorkerPollScope (c_instance_id c) \<or> list_all (\<lambda>j. claimable v c d j \<longrightarrow> v_locked v (j_id j)) (jobs d)"
  using claim_candidate_none [of v c d]
  by (cases "managedWorkerPollScope (c_instance_id c)"; cases "claim_candidate v c d")
    (simp_all add: tryClaimJob_def Let_def)

text \<open>
  C13. Tasks of a run are worked on in order: no sequence of claims and sweeps, by any workers at
  any times, ever has a task job in progress while a job before it in the same run is still open.
\<close>

theorem run_order_preserved:
  assumes "distinct_jobs d" and "sequence_ok d"
  shows "sequence_ok (fst (tryClaimJob v c d)) \<and> sequence_ok (fst (resetStaleClaimedJobs now user d))"
proof
  show "sequence_ok (fst (tryClaimJob v c d))"
  proof (cases "snd (tryClaimJob v c d)")
    case None
    then show ?thesis using tryClaim_none assms(2) by simp
  next
    case (Some k)
    then have "tryClaimJob v c d = (fst (tryClaimJob v c d), Some k)" by (simp add: prod_eq_iff)
    then show ?thesis by (rule claim_sequence_ok [OF assms(2,1)])
  qed
  let ?d' = "fst (resetStaleClaimedJobs now user d)"
  have less: "earlier_sibling d j" if "earlier_sibling ?d' (sweep_row now user j)" for j
  proof -
    have view: "j_sprint_run_id (sweep_row now user i) = j_sprint_run_id i" "j_kind (sweep_row now user i) = j_kind i"
        "j_sprint_sequence (sweep_row now user i) = j_sprint_sequence i"
        "active (j_status (sweep_row now user i)) \<Longrightarrow> active (j_status i)" for i
      by (auto simp: sweep_row_def fail_row_def requeue_row_def unclaim_row_def stale_def
          intro: claimed_or_running_active split: if_splits)
    show ?thesis using that
      by (auto simp: earlier_sibling_def sweep_jobs view(1-3) list_ex_iff split: option.splits dest: view(4))
  qed
  have same: "sweep_row now user j = j" if "claimed_or_running (j_status (sweep_row now user j))" for j
    using that by (auto simp: sweep_row_def split: if_splits)
  show "sequence_ok ?d'"
    unfolding sequence_ok_def sweep_jobs list_all_iff
  proof (intro ballI impI)
    fix x assume "x \<in> set (map (sweep_row now user) (jobs d))" and run: "claimed_or_running (j_status x)"
    then obtain j where j: "j \<in> set (jobs d)" "x = sweep_row now user j" by auto
    then have "x = j" using same run by simp
    then have "sprint_sequence_clause d j" using assms(2) j(1) run by (auto simp: sequence_ok_def list_all_iff)
    then show "sprint_sequence_clause ?d' x"
      using less [of j] j(2) \<open>x = j\<close> by (auto simp: sprint_sequence_clause_def)
  qed
qed




text \<open>
  A rollback is fenced at the moment of each step: when others have taken the claim over before
  a step, whatever else they do, that step is not executed: no worktree is removed after the fourth
  check fails, the job is not published as queued after the last one fails, and nothing at all is
  done when the first one fails.
\<close>

theorem rollback_fenced:
  assumes "\<And>x. \<not> list_ex (owned w k) (jobs (others n x))" and "n \<in> {0, 4, 5}"
  shows "\<not> rb_requeued (rollbackClaim now others root k (Some w) d) \<and>
    (if n = 5 then True else \<not> list_ex (\<lambda>c. \<exists>r. c = Remove_worktree r k) (rb_calls (rollbackClaim now others root k (Some w) d))) \<and>
    (if n \<noteq> 0 then True else rollbackClaim now others root k (Some w) d = stop_rollback (others 0 d) [] None)"
proof -
  have r: "refreshOwnership now (Some w) k (others n x) = (False, others n x)" for x
    using assms(1) by (rule refresh_not_owned)
  have q: "requeue_claim (Some w) k (others n x) = (False, others n x)" for x
    using assms(1) by (rule requeue_not_owned)
  from assms(2) consider "n = 0" | "n = 4" | "n = 5" by blast
  then show ?thesis
  proof cases
    case 1
    then show ?thesis using r by (simp add: rollbackClaim_def stop_rollback_def)
  next
    case 2
    then show ?thesis using r
      by (simp add: rollbackClaim_def stop_rollback_def Let_def split: prod.split sum.split option.split)
  next
    case 3
    then show ?thesis using q
      by (simp add: rollbackClaim_def stop_rollback_def Let_def split: prod.split sum.split option.split)
  qed
qed

text \<open>
  Giving back a claim of the wrong runtime restores what the claim changed: with a trigger that
  promotes a waiting task at the time of the claim, the job rows are exactly those from before the
  claim and every task has its former status.
\<close>

theorem mismatch_release_roundtrip:
  assumes "distinct_jobs d" and "tryClaimJob v c d = (d', Some k)" and "find_job k d = Some j"
    and "unclaim_row j = j" and "j_kind j \<noteq> IDEA_CHAT"
    and "\<And>now t. v_trigger v now t = (if t_status t = T_TO_DO then t\<lparr>t_status := T_IN_PROGRESS, t_updated_at := now\<rparr> else t)"
    and "list_all (\<lambda>t. t_updated_at t < v_now v) (tasks d)"
  shows "jobs (releaseMismatchedClaim k (Some (c_token_id c, c_instance_id c)) d') = jobs d \<and>
    map t_status (tasks (releaseMismatchedClaim k (Some (c_token_id c, c_instance_id c)) d')) = map t_status (tasks d)"
  using assms(2)
proof (rule tryClaimE)
  fix i assume i: "claim_candidate v c d = Some i" "j_id i = k"
    and jobs: "jobs d' = update_where (\<lambda>x. j_id x = k)
           (\<lambda>x. chat_cutoff_row v i (claim_row v c (or_else (task_plan d i) []) x)) (jobs d)"
    and d': "d' = notify_job k (start_run (v_now v) (j_sprint_run_id i)
           (update_jobs (\<lambda>x. j_id x = k) (chat_cutoff_row v i) (trigger_task v i
             (update_jobs (\<lambda>x. j_id x = k) (claim_row v c (or_else (task_plan d i) [])) d))))"
  have ij: "i = j" using find_job_unique [OF assms(1) claim_candidate_props(1) [OF i(1)]] i(2) assms(3) by simp
  have cut: "chat_cutoff_row v j = (\<lambda>x. x)" using assms(5) by (simp add: chat_cutoff_row_def fun_eq_iff)
  let ?row = "claim_row v c (or_else (task_plan d j) [])"
  have tasks: "tasks d' = update_where (\<lambda>t. Some (t_id t) = j_task_id j) (v_trigger v (v_now v)) (tasks d)"
    by (simp add: d' ij trigger_task_def)
  have found: "find_job k d' = Some (?row j)"
    using find_job_update_where [OF jobs, of k] assms(3) i(2) by (simp add: cut ij)
  let ?undo = "\<lambda>t. if Some (t_id t) = j_task_id j \<and> t_status t = T_IN_PROGRESS \<and> t_updated_at t = v_now v
                then t\<lparr>t_status := T_TO_DO\<rparr> else t"
  have undone: "jobs (releaseMismatchedClaim k (Some (c_token_id c, c_instance_id c)) d') = update_where (\<lambda>x. j_id x = k) unclaim_row (jobs d')"
    "tasks (releaseMismatchedClaim k (Some (c_token_id c, c_instance_id c)) d') = map ?undo (tasks d')"
    using found by (simp_all add: releaseMismatchedClaim_def update_where_def claim_row_def)
  have only: "x = j" if "x \<in> set (jobs d)" "j_id x = k" for x
    using find_job_unique [OF assms(1) that(1)] assms(3) that(2) by simp
  have row: "unclaim_row (?row j) = j" using assms(4) by (cases j) (simp add: unclaim_row_def claim_row_def)
  have "update_where (\<lambda>x. j_id x = k) unclaim_row (jobs d') = update_where (\<lambda>x. j_id x = k) (\<lambda>x. unclaim_row (?row x)) (jobs d)"
    unfolding jobs ij cut by (rule update_where_update_where) simp
  also have "\<dots> = jobs d" using only row by (intro update_where_id) auto
  finally have 1: "jobs (releaseMismatchedClaim k (Some (c_token_id c, c_instance_id c)) d') = jobs d" unfolding undone(1) .
  have "map t_status (map ?undo (tasks d')) = map t_status (tasks d)"
    using assms(7) unfolding tasks update_where_def map_map
    by (intro map_cong) (auto simp: assms(6) list_all_iff)
  then show ?thesis using 1 by (simp only: undone(2) simp_thms)
qed

text \<open>
  Terminal failure is final and complete: it is refused for managed jobs; otherwise the job is
  FAILED with a reason of at most 2000 characters and not claimable by anyone, its sprint run, if it
  was a sprint job, is FAILED with the same reason, and no other job or run changes.
\<close>

theorem terminal_failure_final:
  assumes "markJobTerminallyFailed now k reason d = Inr (d', calls)"
  shows "\<exists>j j'. find_job k d = Some j \<and> \<not> isManagedJob j d \<and> find_job k d' = Some j' \<and> j_status j' = J_FAILED \<and>
    j_error j' = Some (take 2000 reason) \<and> \<not> claimable v c d' j' \<and>
    filter (\<lambda>x. j_id x \<noteq> k) (jobs d') = filter (\<lambda>x. j_id x \<noteq> k) (jobs d) \<and>
    filter (\<lambda>r. Some (r_id r) \<noteq> j_sprint_run_id j) (runs d') = filter (\<lambda>r. Some (r_id r) \<noteq> j_sprint_run_id j) (runs d) \<and>
    list_all (\<lambda>r. j_kind j = SPRINT_IMPLEMENTATION \<and> truthy (j_sprint_run_id j) \<and> Some (r_id r) = j_sprint_run_id j \<longrightarrow>
      r_status r = RUN_FAILED) (runs d')"
proof -
  obtain j where j: "find_job k d = Some j" "\<not> isManagedJob j d"
    using assms by (auto simp: markJobTerminallyFailed_def assertUnmanagedJob_def Let_def split: option.splits if_splits)
  let ?f = "\<lambda>x. x\<lparr>j_status := J_FAILED, j_finished_at := Some now, j_error := Some (slice_to 2000 reason)\<rparr>"
  let ?g = "\<lambda>r. r\<lparr>r_status := RUN_FAILED, r_failure_reason := Some (slice_to 2000 reason)\<rparr>"
  have jobs: "jobs d' = update_where (\<lambda>x. j_id x = k) ?f (jobs d)"
    and runs: "runs d' = (if j_kind j = SPRINT_IMPLEMENTATION \<and> truthy (j_sprint_run_id j)
      then update_where (\<lambda>r. Some (r_id r) = j_sprint_run_id j) ?g (runs d) else runs d)"
    using assms j by (auto simp: markJobTerminallyFailed_def assertUnmanagedJob_def Let_def)
  have found: "find_job k d' = Some (?f j)"
    using find_job_update_where [OF jobs, of k] j(1) by simp
  have "\<not> claimable v c d' (?f j)"
    by (simp add: claimable_def buildClaimableJobWhereFragment_def claimConditionSql_def Let_def)
  moreover have "filter (\<lambda>x. j_id x \<noteq> k) (jobs d') = filter (\<lambda>x. j_id x \<noteq> k) (jobs d)"
    unfolding jobs by (rule update_where_commute_frame) auto
  moreover have "filter (\<lambda>r. Some (r_id r) \<noteq> j_sprint_run_id j) (runs d') = filter (\<lambda>r. Some (r_id r) \<noteq> j_sprint_run_id j) (runs d)"
    unfolding runs by (auto intro: update_where_commute_frame)
  moreover have "list_all (\<lambda>r. j_kind j = SPRINT_IMPLEMENTATION \<and> truthy (j_sprint_run_id j) \<and> Some (r_id r) = j_sprint_run_id j \<longrightarrow>
      r_status r = RUN_FAILED) (runs d')"
    unfolding runs by (auto simp: list_all_iff set_update_where)
  ultimately show ?thesis using j found by (auto simp: slice_to_def)
qed

section \<open>Witnesses\<close>

definition sample_trigger :: "time \<Rightarrow> task \<Rightarrow> task" where
  "sample_trigger now t = (if t_status t = T_TO_DO then t\<lparr>t_status := T_IN_PROGRESS, t_updated_at := now\<rparr> else t)"

definition sample_claim_env :: claim_env where
  "sample_claim_env = \<lparr>v_now = 1000, v_locked = (\<lambda>_. False), v_workers = [], v_min_quota = (\<lambda>_. 0),
     v_messages = [], v_trigger = sample_trigger\<rparr>"

definition sample_claimant :: claimant where
  "sample_claimant = \<lparr>c_user_id = ''u1'', c_token_id = ''tok'', c_instance_id = ''i1'', c_product_id = None,
     c_runtime = CLAUDE, c_capabilities = [''code_edit''], c_tier = None\<rparr>"

definition sample_claim_db :: db where
  "sample_claim_db = sample_db\<lparr>jobs := [sample_manual_job, sample_sprint_job]\<rparr>"

definition sample_claimed_db :: db where
  "sample_claimed_db = fst (tryClaimJob sample_claim_env sample_claimant sample_claim_db)"

lemma sample_claim: "tryClaimJob sample_claim_env sample_claimant sample_claim_db = (sample_claimed_db, Some ''j1'')"
proof -
  have "snd (tryClaimJob sample_claim_env sample_claimant sample_claim_db) = Some ''j1''" by code_simp
  then show ?thesis by (simp add: sample_claimed_db_def prod_eq_iff)
qed

lemma sample_distinct: "distinct_jobs sample_claim_db" "distinct_jobs sample_claimed_db"
  by code_simp+

lemma sample_sequence: "sequence_ok sample_claim_db"
  by code_simp

lemma sample_claimed_job:
  "\<exists>j. find_job ''j1'' sample_claimed_db = Some j \<and> \<not> isManagedJob j sample_claimed_db"
proof -
  have "(case find_job ''j1'' sample_claimed_db of Some j \<Rightarrow> \<not> isManagedJob j sample_claimed_db | None \<Rightarrow> False)"
    by code_simp
  then show ?thesis by (auto split: option.splits)
qed

lemma sample_holder: "job_holder sample_claimed_db ''j1'' = Some (''tok'', ''i1'')"
  by code_simp

theorem job_claims_exclusive_witness:
  "distinct (map snd (snd (run_claims claim_action
     [(sample_claim_env, sample_claimant), (sample_claim_env, sample_claimant)] sample_claim_db)))"
  using job_claims_exclusive [OF sample_distinct(1) surjective_pairing] by blast

theorem claim_takes_first_witness:
  "\<exists>j'. find_job ''j1'' sample_claimed_db = Some j' \<and> j_status j' = J_CLAIMED"
  using claim_takes_first [OF sample_distinct(1) sample_claim] by blast

theorem run_order_preserved_witness:
  "sequence_ok (fst (resetStaleClaimedJobs 5000000 ''u1'' sample_claim_db))"
  using run_order_preserved [OF sample_distinct(1) sample_sequence] by blast


definition taken_over :: "nat \<Rightarrow> db \<Rightarrow> db" where
  "taken_over n d = (if n = 5 then sample_claim_db else d)"

theorem rollback_fenced_witness:
  "\<not> rb_requeued (rollbackClaim 2000 taken_over (\<lambda>_ _. None) ''j1'' (Some (''tok'', ''i1''))
     sample_claimed_db)"
proof -
  have "\<not> list_ex (owned (''tok'', ''i1'') ''j1'') (jobs sample_claim_db)" by code_simp
  then show ?thesis
    using rollback_fenced [of "(''tok'', ''i1'')" "''j1''" taken_over 5 2000 "\<lambda>_ _. None" sample_claimed_db]
    by (simp add: taken_over_def)
qed

theorem mismatch_release_roundtrip_witness:
  "jobs (releaseMismatchedClaim ''j1'' (Some (''tok'', ''i1'')) sample_claimed_db) = jobs sample_claim_db"
proof -
  have j: "find_job ''j1'' sample_claim_db = Some sample_manual_job"
    by (simp add: sample_claim_db_def find_job_def find_by_simps sample_manual_job_def sample_job_def)
  have u: "unclaim_row sample_manual_job = sample_manual_job" "j_kind sample_manual_job \<noteq> IDEA_CHAT"
    by (simp_all add: unclaim_row_def sample_manual_job_def sample_job_def)
  have t: "list_all (\<lambda>t. t_updated_at t < v_now sample_claim_env) (tasks sample_claim_db)" by code_simp
  have v: "v_trigger sample_claim_env now t = (if t_status t = T_TO_DO then t\<lparr>t_status := T_IN_PROGRESS, t_updated_at := now\<rparr> else t)"
    for now t by (simp add: sample_claim_env_def sample_trigger_def)
  have c: "c_token_id sample_claimant = ''tok''" "c_instance_id sample_claimant = ''i1''" by (simp_all add: sample_claimant_def)
  show ?thesis using mismatch_release_roundtrip [OF sample_distinct(1) sample_claim j u v t] unfolding c by blast
qed

theorem terminal_failure_final_witness:
  "\<exists>d' calls j'. markJobTerminallyFailed 2000 ''j1'' ''no repo'' sample_claimed_db = Inr (d', calls) \<and>
     find_job ''j1'' d' = Some j' \<and> j_status j' = J_FAILED"
proof -
  have "\<not> isl (markJobTerminallyFailed 2000 ''j1'' ''no repo'' sample_claimed_db)" by code_simp
  then obtain d' calls where "markJobTerminallyFailed 2000 ''j1'' ''no repo'' sample_claimed_db = Inr (d', calls)"
    by (cases "markJobTerminallyFailed 2000 ''j1'' ''no repo'' sample_claimed_db") auto
  then show ?thesis using terminal_failure_final by blast
qed

end
