(* ===== verification/Harness_Cost.thy ===== *)
theory Harness_Cost
  imports Job_Types
begin

text \<open>
  \<open>src/lib/harness-cost.ts\<close>: the amount in USD that a HARNESS job reports with its final status,
  parsed as a decimal string, rounded up to six decimals and normalised, and the rules that admit
  a report. \<open>BigInt\<close> is \<open>nat\<close>; a source of costs is the string the code compares.
\<close>

section \<open>Amounts\<close>

definition MAX_INTEGER_DIGITS :: nat where "MAX_INTEGER_DIGITS = 6"

definition SCALE :: nat where "SCALE = 6"

definition MAX_INPUT_LENGTH :: nat where "MAX_INPUT_LENGTH = 64"

text \<open>The pattern: digits, and then possibly a dot and at least one digit.\<close>

definition PLAIN_DECIMAL :: "string \<Rightarrow> bool" where
  "PLAIN_DECIMAL s \<longleftrightarrow> takeWhile is_digit s \<noteq> [] \<and>
     (case dropWhile is_digit s of
        [] \<Rightarrow> True
      | c # f \<Rightarrow> c = CHR ''.'' \<and> f \<noteq> [] \<and> list_all is_digit f)"

text \<open>\<open>BigInt(s)\<close> on a string of digits, \<open>padEnd\<close> and \<open>padStart\<close>, and \<open>replace(/0+$/, '')\<close>.\<close>

definition digit_value :: "char \<Rightarrow> nat" where
  "digit_value c = of_char c - 48"

definition big_int :: "string \<Rightarrow> nat" where
  "big_int s = foldl (\<lambda>n c. 10 * n + digit_value c) 0 s"

definition pad_end :: "nat \<Rightarrow> char \<Rightarrow> string \<Rightarrow> string" where
  "pad_end n c s = s @ replicate (n - length s) c"

definition pad_start :: "nat \<Rightarrow> char \<Rightarrow> string \<Rightarrow> string" where
  "pad_start n c s = replicate (n - length s) c @ s"

definition strip_zeros :: "string \<Rightarrow> string" where
  "strip_zeros s = rev (dropWhile (\<lambda>c. c = CHR ''0'') (rev s))"

definition integer_part :: "string \<Rightarrow> string" where
  "integer_part s = takeWhile (\<lambda>c. c \<noteq> CHR ''.'') s"

definition fraction_part :: "string \<Rightarrow> string" where
  "fraction_part s = tl (dropWhile (\<lambda>c. c \<noteq> CHR ''.'') s)"

text \<open>The amount in millionths: six decimals exactly, one more for a non-zero digit after them.\<close>

definition reported_micros :: "string \<Rightarrow> nat" where
  "reported_micros value =
     (let integer = integer_part value; fraction = fraction_part value;
          micros = big_int (integer @ pad_end SCALE CHR ''0'' (slice_to SCALE fraction))
      in if list_ex (\<lambda>c. is_digit c \<and> c \<noteq> CHR ''0'') (drop SCALE fraction)
         then micros + 1 else micros)"

text \<open>The normalised text of an amount in millionths, when it fits in Decimal(12,6).\<close>

definition micros_text :: "nat \<Rightarrow> string option" where
  "micros_text micros =
     (let ds = pad_start (SCALE + 1) CHR ''0'' (digits micros);
          whole = take (length ds - SCALE) ds
      in if length whole > MAX_INTEGER_DIGITS then None
         else let decimals = strip_zeros (slice_last SCALE ds)
              in Some (if decimals = [] then whole else whole @ ''.'' @ decimals))"

definition parseReportedCostUsd :: "string \<Rightarrow> string option" where
  "parseReportedCostUsd value =
     (if length value > MAX_INPUT_LENGTH then None
      else if \<not> PLAIN_DECIMAL value then None
      else micros_text (reported_micros value))"

section \<open>The report of a job\<close>

datatype update_status = US_RUNNING | US_DONE | US_FAILED | US_SKIPPED

record cost_input =
  ci_reported_cost_usd :: "string option"
  ci_cost_source :: string
  ci_provider :: "string option"

record cost_row =
  cr_reported_cost_usd :: "string option"
  cr_cost_source :: string
  cr_provider :: "string option"
  cr_configuration :: string

datatype cost_error = COST_REPORT_NOT_ALLOWED | COST_REPORT_INVALID

text \<open>\<open>isHarnessJobKind\<close> comes from the shared package and is a parameter.\<close>

definition isCostReportingKind :: "(job_kind \<Rightarrow> bool) \<Rightarrow> job_kind \<Rightarrow> bool" where
  "isCostReportingKind isHarnessJobKind kind \<longleftrightarrow> isHarnessJobKind kind \<or> kind = AGENT_CHAT"

definition cost_valid :: "cost_input \<Rightarrow> string option \<Rightarrow> bool" where
  "cost_valid cost amount \<longleftrightarrow>
     (if ci_cost_source cost = ''none'' then ci_reported_cost_usd cost = None
      else if ci_cost_source cost = ''local'' then amount = Some ''0''
      else if ci_cost_source cost = ''provider_reported'' \<or> ci_cost_source cost = ''litellm_computed''
        then amount \<noteq> None
      else False)"

definition checkCostReport ::
  "(job_kind \<Rightarrow> bool) \<Rightarrow> job_kind \<Rightarrow> agent_runtime \<Rightarrow> string option \<Rightarrow> update_status \<Rightarrow> cost_input \<Rightarrow>
   cost_error + cost_row" where
  "checkCostReport isHarnessJobKind kind runtime requested_model status cost =
     (if runtime \<noteq> HARNESS \<or> \<not> isCostReportingKind isHarnessJobKind kind \<or> status = US_RUNNING
      then Inl COST_REPORT_NOT_ALLOWED
      else if \<not> truthy requested_model then Inl COST_REPORT_INVALID
      else let amount = (case ci_reported_cost_usd cost of None \<Rightarrow> None
                         | Some v \<Rightarrow> parseReportedCostUsd v)
           in if \<not> cost_valid cost amount then Inl COST_REPORT_INVALID
              else Inr \<lparr>cr_reported_cost_usd = amount, cr_cost_source = ci_cost_source cost,
                        cr_provider = ci_provider cost,
                        cr_configuration = the requested_model\<rparr>)"

section \<open>Digits and numbers\<close>

lemma foldl_big_int:
  "foldl (\<lambda>n c. 10 * n + digit_value c) a s = a * 10 ^ length s + foldl (\<lambda>n c. 10 * n + digit_value c) 0 s"
proof (induction s rule: rev_induct)
  case (snoc c s)
  let ?f = "foldl (\<lambda>n c. 10 * n + digit_value c)"
  have "?f a (s @ [c]) = 10 * (a * 10 ^ length s + ?f 0 s) + digit_value c"
    by (simp add: snoc.IH [symmetric])
  then show ?case by simp
qed simp

lemma big_int_append: "big_int (s @ t) = big_int s * 10 ^ length t + big_int t"
  unfolding big_int_def foldl_append by (rule foldl_big_int)

lemma big_int_single: "big_int [c] = digit_value c"
  by (simp add: big_int_def)

lemma big_int_Nil [simp]: "big_int [] = 0"
  by (simp add: big_int_def)

lemma big_int_Cons: "big_int (c # s) = digit_value c * 10 ^ length s + big_int s"
  using big_int_append [of "[c]" s] by (simp add: big_int_single)

lemma big_int_zeros [simp]: "big_int (replicate n CHR ''0'') = 0"
  by (induction n) (simp_all add: big_int_Cons digit_value_def)

lemma digit_le_9: "is_digit c \<Longrightarrow> digit_value c \<le> 9"
  unfolding is_digit_def digit_value_def by linarith

lemma big_int_bound: "list_all is_digit s \<Longrightarrow> big_int s < 10 ^ length s"
proof (induction s)
  case (Cons c s)
  then have "digit_value c \<le> 9" and "big_int s < 10 ^ length s"
    by (simp_all add: digit_le_9)
  then have "digit_value c * 10 ^ length s + big_int s < 9 * 10 ^ length s + 10 ^ length s"
    by (meson add_le_less_mono mult_le_mono1)
  then show ?case by (simp add: big_int_Cons)
qed simp

lemma digit_zero: "is_digit c \<Longrightarrow> digit_value c = 0 \<longleftrightarrow> c = CHR ''0''"
proof
  assume "is_digit c" and "digit_value c = 0"
  then have "of_char c = (48 :: nat)" unfolding is_digit_def digit_value_def by linarith
  then have "of_char c = (of_char CHR ''0'' :: nat)" by simp
  then show "c = CHR ''0''" by (simp only: of_char_eq_iff)
qed (simp add: digit_value_def)

lemma big_int_pos:
  "list_all is_digit s \<Longrightarrow> 0 < big_int s \<longleftrightarrow> list_ex (\<lambda>c. is_digit c \<and> c \<noteq> CHR ''0'') s"
  by (induction s) (auto simp: big_int_Cons digit_zero [symmetric])

lemma is_digit_char_of:
  "n < 10 \<Longrightarrow> is_digit (char_of (48 + n :: nat)) \<and> digit_value (char_of (48 + n :: nat)) = n"
  by (simp add: is_digit_def digit_value_def)

lemma digits_correct: "list_all is_digit (digits n) \<and> big_int (digits n) = n \<and> digits n \<noteq> []"
proof (induction n rule: digits.induct)
  case (1 n)
  show ?case
  proof (cases "n < 10")
    case True then show ?thesis
      by (subst (1 2 3) digits.simps) (simp add: is_digit_char_of big_int_single)
  next
    case False
    then have "list_all is_digit (digits (n div 10))" "big_int (digits (n div 10)) = n div 10"
      using 1 by simp_all
    moreover have "digits n = digits (n div 10) @ [char_of (48 + n mod 10)]"
      using False by (simp add: digits.simps [of n])
    ultimately show ?thesis
      by (simp add: is_digit_char_of big_int_append big_int_single)
  qed
qed

lemma length_digits: "0 < k \<Longrightarrow> length (digits n) \<le> k \<longleftrightarrow> n < 10 ^ k"
proof (induction k arbitrary: n)
  case (Suc k)
  show ?case
  proof (cases "n < 10")
    case True
    have "(10::nat) \<le> 10 ^ Suc k" by simp
    then have "n < 10 ^ Suc k" using True by linarith
    then show ?thesis using True by (simp add: digits.simps [of n])
  next
    case False
    have len: "length (digits n) = Suc (length (digits (n div 10)))"
      using False by (simp add: digits.simps [of n])
    show ?thesis
    proof (cases "k = 0")
      case True then show ?thesis using False len digits_correct [of "n div 10"] by simp
    next
      case k: False
      have "n div 10 < 10 ^ k \<longleftrightarrow> n < 10 ^ Suc k"
        by (simp add: div_less_iff_less_mult mult.commute)
      then show ?thesis using Suc.IH [of "n div 10"] k len by simp
    qed
  qed
qed simp

section \<open>Plain decimals\<close>

lemma dot_not_digit [simp]: "\<not> is_digit CHR ''.''"
  by (simp add: is_digit_def)

lemma parts_of_text:
  assumes "list_all is_digit w" and "w \<noteq> []" and "list_all is_digit f"
  defines "s \<equiv> if f = [] then w else w @ ''.'' @ f"
  shows "PLAIN_DECIMAL s" and "integer_part s = w" and "fraction_part s = f"
proof -
  have w: "\<forall>c \<in> set w. is_digit c" using assms(1) by (simp add: list_all_iff)
  then have dot: "\<forall>c \<in> set w. c \<noteq> CHR ''.''" by auto
  have tw: "takeWhile is_digit w = w" "dropWhile is_digit w = []"
    "takeWhile (\<lambda>c. c \<noteq> CHR ''.'') w = w" "dropWhile (\<lambda>c. c \<noteq> CHR ''.'') w = []"
    using w dot by (simp_all add: takeWhile_eq_all_conv)
  have tail: "takeWhile is_digit (w @ CHR ''.'' # f) = w" "dropWhile is_digit (w @ CHR ''.'' # f) = CHR ''.'' # f"
    "takeWhile (\<lambda>c. c \<noteq> CHR ''.'') (w @ CHR ''.'' # f) = w"
    "dropWhile (\<lambda>c. c \<noteq> CHR ''.'') (w @ CHR ''.'' # f) = CHR ''.'' # f"
    using w dot by (simp_all add: takeWhile_append dropWhile_append)
  show "PLAIN_DECIMAL s"
    unfolding s_def PLAIN_DECIMAL_def using assms(2,3) by (cases "f = []") (simp_all add: tw(1,2) tail(1,2))
  show "integer_part s = w"
    unfolding s_def integer_part_def by (cases "f = []") (simp_all add: tw(3) tail(3))
  show "fraction_part s = f"
    unfolding s_def fraction_part_def by (cases "f = []") (simp_all add: tw(4) tail(4))
qed

lemma plain_text:
  assumes "PLAIN_DECIMAL s"
  obtains w f where "list_all is_digit w" "w \<noteq> []" "list_all is_digit f"
    "s = (if f = [] then w else w @ ''.'' @ f)"
proof -
  let ?i = "takeWhile is_digit s"
  have i: "list_all is_digit ?i" by (auto simp: list_all_iff dest: set_takeWhileD)
  have s: "s = ?i @ dropWhile is_digit s" by simp
  have ne: "?i \<noteq> []" using assms by (simp add: PLAIN_DECIMAL_def)
  show thesis
  proof (cases "dropWhile is_digit s")
    case Nil
    then have "s = ?i" using s by (simp only: append_Nil2)
    then show thesis using i ne that [of ?i "[]"] by simp
  next
    case (Cons c f)
    then show thesis using s i ne that [of ?i f] assms by (auto simp: PLAIN_DECIMAL_def)
  qed
qed

lemma plain_cases:
  assumes "PLAIN_DECIMAL s"
  shows "list_all is_digit (integer_part s) \<and> integer_part s \<noteq> [] \<and>
    list_all is_digit (fraction_part s)"
proof -
  obtain w f where wf: "list_all is_digit w" "w \<noteq> []" "list_all is_digit f"
    and s: "s = (if f = [] then w else w @ ''.'' @ f)"
    using plain_text [OF assms] by blast
  show ?thesis
    using parts_of_text(2,3) [OF wf] wf unfolding s by simp
qed

text \<open>The exact amount of a plain decimal is \<open>amount_units s / 10 ^ amount_decimals s\<close>.\<close>

definition amount_units :: "string \<Rightarrow> nat" where
  "amount_units s = big_int (integer_part s @ fraction_part s)"

definition amount_decimals :: "string \<Rightarrow> nat" where
  "amount_decimals s = length (fraction_part s)"

lemma reported_micros_ceiling:
  assumes "PLAIN_DECIMAL s"
  shows "amount_units s * 10 ^ 6 \<le> reported_micros s * 10 ^ amount_decimals s"
    and "reported_micros s * 10 ^ amount_decimals s < amount_units s * 10 ^ 6 + 10 ^ amount_decimals s"
proof -
  let ?i = "integer_part s" and ?f = "fraction_part s"
  have f: "list_all is_digit ?f" using plain_cases [OF assms] by simp
  define k where "k = length ?f"
  consider "k \<le> 6" | "6 < k" by linarith
  then have "amount_units s * 10 ^ 6 \<le> reported_micros s * 10 ^ k \<and>
    reported_micros s * 10 ^ k < amount_units s * 10 ^ 6 + 10 ^ k"
  proof cases
    case 1
    then have r: "reported_micros s = amount_units s * 10 ^ (6 - k)"
      by (simp add: reported_micros_def SCALE_def slice_to_def pad_end_def big_int_append
          amount_units_def k_def Let_def algebra_simps power_add [symmetric])
    have "(10::nat) ^ (6 - k) * 10 ^ k = 10 ^ 6"
      using 1 by (simp add: power_add [symmetric])
    then have "reported_micros s * 10 ^ k = amount_units s * 10 ^ 6"
      by (simp only: r mult.assoc)
    then show ?thesis by simp
  next
    case 2
    let ?g = "take 6 ?f" and ?h = "drop 6 ?f"
    have h: "list_all is_digit ?h" using f by (auto simp: list_all_iff dest: in_set_dropD)
    have len: "length ?g = 6" "length ?h = k - 6" using 2 by (simp_all add: k_def)
    have "amount_units s = big_int (?i @ ?g @ ?h)" by (simp add: amount_units_def)
    then have u: "amount_units s = big_int (?i @ ?g) * 10 ^ (k - 6) + big_int ?h"
      by (simp only: append_assoc [symmetric] big_int_append [of _ ?h] len)
    have r: "reported_micros s = big_int (?i @ ?g) + (if 0 < big_int ?h then 1 else 0)"
      using 2 big_int_pos [OF h]
      by (simp add: reported_micros_def SCALE_def slice_to_def pad_end_def k_def Let_def)
    have b: "big_int ?h < 10 ^ (k - 6)" using big_int_bound [OF h] len by simp
    have "k = (k - 6) + 6" using 2 by simp
    then have k: "(10::nat) ^ k = 10 ^ (k - 6) * 10 ^ 6"
      by (simp only: power_add [symmetric])
    have "amount_units s \<le> reported_micros s * 10 ^ (k - 6)"
      using b by (simp add: u r algebra_simps)
    moreover have "reported_micros s * 10 ^ (k - 6) < amount_units s + 10 ^ (k - 6)"
      using b by (simp add: u r algebra_simps)
    ultimately show ?thesis
      unfolding k by simp
  qed
  then show "amount_units s * 10 ^ 6 \<le> reported_micros s * 10 ^ amount_decimals s"
    and "reported_micros s * 10 ^ amount_decimals s < amount_units s * 10 ^ 6 + 10 ^ amount_decimals s"
    by (simp_all add: k_def amount_decimals_def)
qed

section \<open>The normalised text\<close>

lemma strip_zeros_pad: "\<exists>k. s = strip_zeros s @ replicate k CHR ''0''"
proof -
  let ?z = "takeWhile (\<lambda>c. c = CHR ''0'') (rev s)"
  have "\<forall>c \<in> set ?z. c = CHR ''0''" by (auto dest: set_takeWhileD)
  then have z: "?z = replicate (length ?z) CHR ''0''" by (simp add: replicate_length_same)
  have "s = rev (?z @ dropWhile (\<lambda>c. c = CHR ''0'') (rev s))"
    by (simp only: takeWhile_dropWhile_id rev_rev_ident)
  also have "\<dots> = strip_zeros s @ rev ?z" by (simp only: strip_zeros_def rev_append)
  also have "rev ?z = replicate (length ?z) CHR ''0''" by (metis z rev_replicate)
  finally show ?thesis by blast
qed

lemma zero_is_digit [simp]: "is_digit CHR ''0''"
  by (simp add: is_digit_def)

lemma micros_text_spec:
  assumes "micros_text m = Some r"
  shows "m < 10 ^ 12" and "PLAIN_DECIMAL r" and "length r \<le> 13" and "amount_decimals r \<le> 6"
    and "reported_micros r = m"
proof -
  define ds where "ds = pad_start 7 CHR ''0'' (digits m)"
  define whole where "whole = take (length ds - 6) ds"
  define six where "six = drop (length ds - 6) ds"
  define decs where "decs = strip_zeros six"
  have six': "slice_last SCALE ds = six" by (simp add: slice_last_def SCALE_def six_def)
  have ds: "list_all is_digit ds" "big_int ds = m" "7 \<le> length ds"
    using digits_correct [of m]
    by (auto simp: ds_def pad_start_def big_int_append list_all_iff)
  have r: "\<not> 6 < length whole" "r = (if decs = [] then whole else whole @ ''.'' @ decs)"
    using assms
    by (simp_all add: micros_text_def SCALE_def [symmetric] MAX_INTEGER_DIGITS_def Let_def
        ds_def whole_def decs_def six_def slice_last_def split: if_splits)
       (simp_all add: SCALE_def)
  have split: "ds = whole @ six" by (simp add: whole_def six_def)
  have len: "length six = 6" "whole \<noteq> []" "length whole \<le> 6"
    using ds(3) r(1) by (auto simp: six_def whole_def)
  have dig: "list_all is_digit whole" "list_all is_digit six"
    using ds(1) split by (simp_all only: list_all_append)
  obtain k where k: "six = decs @ replicate k CHR ''0''"
    using strip_zeros_pad unfolding decs_def by blast
  have ddig: "list_all is_digit decs" using dig(2) k by (metis list_all_append)
  have dlen: "length decs \<le> 6" "k = 6 - length decs" using k len(1) by auto
  note parts = parts_of_text [OF dig(1) len(2) ddig, folded r(2)]
  show "PLAIN_DECIMAL r" by (rule parts(1))
  show "amount_decimals r \<le> 6" using dlen parts(3) by (simp add: amount_decimals_def)
  show "length r \<le> 13" using len(3) dlen(1) by (simp add: r(2))
  have "m = big_int (whole @ decs @ replicate k CHR ''0'')"
    using ds(2) split k by simp
  then show "reported_micros r = m"
    using dlen by (simp add: reported_micros_def parts(2,3) SCALE_def slice_to_def pad_end_def)
  have "length ds \<le> 12" using split len by simp
  then have "big_int ds < 10 ^ 12"
    using big_int_bound [OF ds(1)] by (meson less_le_trans one_le_numeral power_increasing)
  then show "m < 10 ^ 12" using ds(2) by simp
qed

lemma micros_text_None: "micros_text m = None \<longleftrightarrow> 10 ^ 12 \<le> m"
proof -
  have "length (digits m) \<le> 12 \<longleftrightarrow> m < 10 ^ 12" by (rule length_digits) simp
  then show ?thesis
    by (auto simp: micros_text_def SCALE_def MAX_INTEGER_DIGITS_def pad_start_def Let_def)
qed

lemma parse_unfold:
  "parseReportedCostUsd s =
     (if length s \<le> 64 \<and> PLAIN_DECIMAL s then micros_text (reported_micros s) else None)"
  by (simp add: parseReportedCostUsd_def MAX_INPUT_LENGTH_def)

lemma parse_rejects:
  "parseReportedCostUsd s = None \<longleftrightarrow>
     64 < length s \<or> \<not> PLAIN_DECIMAL s \<or> (10 ^ 12 - 1) * 10 ^ amount_decimals s < amount_units s * 10 ^ 6"
proof (cases "length s \<le> 64 \<and> PLAIN_DECIMAL s")
  case True
  let ?d = "10 ^ amount_decimals s :: nat"
  note c = reported_micros_ceiling [OF conjunct2 [OF True]]
  have e: "(10 ^ 12 - 1) * ?d + ?d = 10 ^ 12 * ?d" by simp
  have "10 ^ 12 \<le> reported_micros s \<longleftrightarrow> (10 ^ 12 - 1) * ?d < amount_units s * 10 ^ 6"
  proof
    assume "10 ^ 12 \<le> reported_micros s"
    then have "10 ^ 12 * ?d \<le> reported_micros s * ?d" by (rule mult_le_mono1)
    then show "(10 ^ 12 - 1) * ?d < amount_units s * 10 ^ 6"
      using c(2) e by linarith
  next
    assume "(10 ^ 12 - 1) * ?d < amount_units s * 10 ^ 6"
    then have "(10 ^ 12 - 1) * ?d < reported_micros s * ?d" using c(1) by linarith
    then have "10 ^ 12 - 1 < reported_micros s" by (rule mult_less_cancel2 [THEN iffD1, THEN conjunct2])
    then show "10 ^ 12 \<le> reported_micros s" by simp
  qed
  then show ?thesis using True by (simp add: parse_unfold micros_text_None)
next
  case False then show ?thesis by (auto simp: parse_unfold)
qed

lemma parse_accepts:
  assumes "parseReportedCostUsd s = Some r"
  shows "PLAIN_DECIMAL r" and "length r \<le> 13" and "amount_decimals r \<le> 6"
    and "reported_micros r = reported_micros s" and "parseReportedCostUsd r = Some r"
    and "amount_units r * 10 ^ 6 = reported_micros s * 10 ^ amount_decimals r"
proof -
  have s: "PLAIN_DECIMAL s" and t: "micros_text (reported_micros s) = Some r"
    using assms by (simp_all add: parse_unfold split: if_splits)
  note m = micros_text_spec [OF t]
  show "PLAIN_DECIMAL r" "length r \<le> 13" "amount_decimals r \<le> 6"
    "reported_micros r = reported_micros s" by (fact m)+
  show "parseReportedCostUsd r = Some r" using m t by (simp add: parse_unfold)
  let ?k = "amount_decimals r"
  have f: "length (fraction_part r) \<le> 6" using m(4) by (simp add: amount_decimals_def)
  have r: "reported_micros r = amount_units r * 10 ^ (6 - ?k)"
    using f by (simp add: reported_micros_def SCALE_def slice_to_def pad_end_def big_int_append
        amount_units_def amount_decimals_def Let_def algebra_simps power_add [symmetric])
  have "(10::nat) ^ (6 - ?k) * 10 ^ ?k = 10 ^ 6"
    using m(4) by (simp only: power_add [symmetric] le_add_diff_inverse2)
  then have "amount_units r * 10 ^ 6 = reported_micros r * 10 ^ ?k"
    by (simp only: r mult.assoc)
  then show "amount_units r * 10 ^ 6 = reported_micros s * 10 ^ ?k" using m(5) by simp
qed

lemma parse_covers:
  assumes "parseReportedCostUsd s = Some r"
  shows "parseReportedCostUsd r = Some r"
    and "amount_units s * 10 ^ amount_decimals r \<le> amount_units r * 10 ^ amount_decimals s"
    and "amount_units r * 10 ^ 6 * 10 ^ amount_decimals s
      < amount_units s * 10 ^ 6 * 10 ^ amount_decimals r + 10 ^ amount_decimals r * 10 ^ amount_decimals s"
proof -
  let ?ks = "10 ^ amount_decimals s :: nat" and ?kr = "10 ^ amount_decimals r :: nat"
  let ?m = "reported_micros s"
  note r = parse_accepts [OF assms]
  have "PLAIN_DECIMAL s" using assms by (simp add: parse_unfold split: if_splits)
  note c = reported_micros_ceiling [OF this]
  have u: "amount_units r * 10 ^ 6 * ?ks = ?m * ?ks * ?kr" by (simp only: r(6) mult.commute mult.left_commute)
  have "amount_units s * 10 ^ 6 * ?kr \<le> ?m * ?ks * ?kr" using c(1) by (rule mult_le_mono1)
  then have "amount_units s * ?kr * 10 ^ 6 \<le> amount_units r * ?ks * 10 ^ 6"
    unfolding u [symmetric] by (simp only: mult.commute mult.left_commute)
  then show "amount_units s * ?kr \<le> amount_units r * ?ks" by simp
  have "?m * ?ks * ?kr < (amount_units s * 10 ^ 6 + ?ks) * ?kr" using c(2) by simp
  then show "amount_units r * 10 ^ 6 * ?ks < amount_units s * 10 ^ 6 * ?kr + ?kr * ?ks"
    by (simp only: u add_mult_distrib mult.commute [of ?ks ?kr])
  show "parseReportedCostUsd r = Some r" by (rule r(5))
qed

section \<open>Properties\<close>

text \<open>
  A reported amount is never under-reported: the stored text denotes at least the reported
  amount and exceeds it by less than one millionth of a dollar, fits in Decimal(12,6) (six decimals,
  thirteen characters), and parsing it again gives the same text. A text is refused exactly when it
  is longer than 64 characters, is not a plain decimal, or rounds up to a million dollars or more.
\<close>

theorem reported_cost_rounds_up:
  "case parseReportedCostUsd s of
     None \<Rightarrow> 64 < length s \<or> \<not> PLAIN_DECIMAL s \<or>
       (10 ^ 12 - 1) * 10 ^ amount_decimals s < amount_units s * 10 ^ 6
   | Some r \<Rightarrow>
       PLAIN_DECIMAL r \<and> amount_decimals r \<le> 6 \<and> length r \<le> 13 \<and>
       parseReportedCostUsd r = Some r \<and>
       amount_units s * 10 ^ amount_decimals r \<le> amount_units r * 10 ^ amount_decimals s \<and>
       amount_units r * 10 ^ 6 * 10 ^ amount_decimals s
         < amount_units s * 10 ^ 6 * 10 ^ amount_decimals r + 10 ^ amount_decimals r * 10 ^ amount_decimals s"
proof (cases "parseReportedCostUsd s")
  case None
  show ?thesis unfolding None option.case by (rule parse_rejects [THEN iffD1, OF None])
next
  case (Some r)
  then show ?thesis using parse_accepts [OF Some] parse_covers [OF Some] by simp
qed

lemma reported_cost_rounds_up_witness:
  "parseReportedCostUsd ''0.00031200000000000005'' = Some ''0.000313'' \<and>
   parseReportedCostUsd ''0.000313'' = Some ''0.000313''"
proof -
  have "parseReportedCostUsd ''0.00031200000000000005'' = Some ''0.000313''" by code_simp
  then show ?thesis using reported_cost_rounds_up [of "''0.00031200000000000005''"] by simp
qed

text \<open>
  An admitted cost report belongs to a HARNESS job of a reporting kind that is ending; it names
  the configuration the job was queued with, whatever the report says. Its amount is absent exactly
  for the source \<open>none\<close>, zero for the source \<open>local\<close>, and otherwise a normalised amount that is not
  below the reported one; any other source is refused.
\<close>

theorem cost_report_admitted:
  assumes "checkCostReport isHarnessJobKind kind runtime requested_model status cost = Inr row"
  shows "runtime = HARNESS \<and> (isHarnessJobKind kind \<or> kind = AGENT_CHAT) \<and> status \<noteq> US_RUNNING \<and>
    requested_model = Some (cr_configuration row) \<and> cr_configuration row \<noteq> [] \<and>
    cr_cost_source row \<in> {''none'', ''local'', ''provider_reported'', ''litellm_computed''} \<and>
    (cr_reported_cost_usd row = None \<longleftrightarrow> cr_cost_source row = ''none'') \<and>
    (cr_cost_source row = ''local'' \<longrightarrow> cr_reported_cost_usd row = Some ''0'') \<and>
    (\<forall>r. cr_reported_cost_usd row = Some r \<longrightarrow>
       (\<exists>v. ci_reported_cost_usd cost = Some v \<and> parseReportedCostUsd r = Some r \<and>
          amount_units v * 10 ^ amount_decimals r \<le> amount_units r * 10 ^ amount_decimals v))"
proof -
  define amount where "amount = (case ci_reported_cost_usd cost of None \<Rightarrow> None | Some v \<Rightarrow> parseReportedCostUsd v)"
  have ok: "runtime = HARNESS" "isHarnessJobKind kind \<or> kind = AGENT_CHAT" "status \<noteq> US_RUNNING"
    "truthy requested_model" "cost_valid cost amount"
    and row: "row = \<lparr>cr_reported_cost_usd = amount, cr_cost_source = ci_cost_source cost,
      cr_provider = ci_provider cost, cr_configuration = the requested_model\<rparr>"
    using assms
    by (auto simp: checkCostReport_def isCostReportingKind_def Let_def amount_def split: if_splits)
  have amt: "\<exists>v. ci_reported_cost_usd cost = Some v \<and> parseReportedCostUsd r = Some r \<and>
      amount_units v * 10 ^ amount_decimals r \<le> amount_units r * 10 ^ amount_decimals v"
    if got: "amount = Some r" for r
  proof -
    obtain v where v: "ci_reported_cost_usd cost = Some v" "parseReportedCostUsd v = Some r"
      using got unfolding amount_def by (cases "ci_reported_cost_usd cost") simp_all
    then show ?thesis using parse_covers [OF v(2)] by blast
  qed
  show ?thesis
    using ok amt by (auto simp: row cost_valid_def amount_def elim!: truthyE split: if_splits option.splits)
qed

lemma cost_report_admitted_witness:
  "\<exists>row. checkCostReport (\<lambda>k. k = TASK_IMPLEMENTATION) AGENT_CHAT HARNESS (Some ''fast'') US_DONE
      \<lparr>ci_reported_cost_usd = Some ''0.00031200000000000005'', ci_cost_source = ''provider_reported'',
       ci_provider = None\<rparr> = Inr row \<and>
    cr_configuration row = ''fast'' \<and> cr_reported_cost_usd row = Some ''0.000313''"
proof -
  let ?c = "checkCostReport (\<lambda>k. k = TASK_IMPLEMENTATION) AGENT_CHAT HARNESS (Some ''fast'') US_DONE
      \<lparr>ci_reported_cost_usd = Some ''0.00031200000000000005'', ci_cost_source = ''provider_reported'',
       ci_provider = None\<rparr>"
  have "?c = Inr \<lparr>cr_reported_cost_usd = Some ''0.000313'', cr_cost_source = ''provider_reported'',
       cr_provider = None, cr_configuration = ''fast''\<rparr>" by code_simp
  with cost_report_admitted [OF this] show ?thesis by auto
qed

end
