(* ===== verification/Service_State.thy ===== *)
theory Service_State
  imports Flow_Effects Harness_Cost Status_Propagation
begin

text \<open>
  The state that the handlers of finished jobs work on: the database of \<open>Job_Types\<close> together with
  the tables of the idea and agent chats, the cost reports and the queue of deferred worktree
  clean-ups, and the calls they made to the outside (git, the forge, notifications) in order. The
  answers of the outside are the parameters in the record \<open>svc_env\<close>.
\<close>

section \<open>Further rows\<close>

datatype chat_role = Role_user | Role_assistant

record idea_message =
  im_id :: id
  im_idea_id :: id
  im_role :: chat_role
  im_content :: string
  im_job_id :: "id option"
  im_created_at :: time

record idea =
  i_id :: id
  i_status :: idea_status

record idea_log =
  il_idea_id :: id
  il_content :: string
  il_job_id :: id
  il_error :: "string option"

record user_question =
  uq_id :: id
  uq_idea_id :: id
  uq_pending :: bool
  uq_answer :: "string option"
  uq_created_at :: time

record agent_chat =
  ac_id :: id
  ac_updated_at :: time

record agent_message =
  am_chat_id :: id
  am_role :: chat_role
  am_content :: string
  am_job_id :: id

record chat_link =
  cl_job_id :: id
  cl_chat_id :: "id option"

record cost_report =
  cp_job_id :: id
  cp_row :: cost_row
  cp_reported_at :: time

record harness_choice =
  hc_product_id :: id
  hc_kind :: job_kind
  hc_configuration :: string
  hc_max_cost_usd :: string

section \<open>The outside\<close>

datatype svc_call =
    Flow_call ext_call
  | Job_enqueued id
  | Job_event id
  | Deploy_cancelled_event id
  | Push_note id string string string string
  | Git_push id string
  | Pr_created id string string string bool
  | Pr_ready string
  | Pr_closed string string
  | Pr_reverted string string
  | Branch_deleted string string "string option"
  | Backup_push id string
  | Worktree_removed string id bool
  | Locks_released id

datatype forge_state = PR_OPEN | PR_CLOSED | PR_MERGED

record pr_info =
  pi_state :: forge_state
  pi_head_sha :: "string option"
  pi_merge_commit :: "string option"
  pi_title :: string
  pi_base :: string

datatype push_outcome =
    Pushed
  | Push_no_changes
  | Push_failed string string
  | Push_untrusted string

datatype delete_outcome = Deleted | Delete_not_found | Delete_failed string string

text \<open>
  Every call that answers with an error is \<open>None\<close> or the outcome that says so. The clock is read
  once per handled request.
\<close>

record svc_env =
  s_effects :: effect_env
  s_push :: "id \<Rightarrow> string \<Rightarrow> push_outcome"
  s_head :: "id \<Rightarrow> string option"
  s_pr_state :: "string \<Rightarrow> pr_info option"
  s_create_pr :: "id \<Rightarrow> string \<Rightarrow> string \<Rightarrow> string \<Rightarrow> bool \<Rightarrow> string option"
  s_close_pr :: "string \<Rightarrow> bool"
  s_revert_pr :: "string \<Rightarrow> string option"
  s_merged_tip :: "string \<Rightarrow> string \<Rightarrow> bool"
  s_delete_branch :: "string \<Rightarrow> string \<Rightarrow> delete_outcome"
  s_conflict_files :: "string \<Rightarrow> string list"
  s_repo_root :: "id \<Rightarrow> string option \<Rightarrow> string option"
  s_worktree_removed :: "id \<Rightarrow> bool"
  s_marker_read :: "id \<Rightarrow> bool"
  s_harness_kind :: "job_kind \<Rightarrow> bool"
  s_parse_iso :: "string \<Rightarrow> time option"
  s_cursor :: "time \<Rightarrow> string"

definition s_now :: "svc_env \<Rightarrow> time" where
  "s_now env = env_now (s_effects env)"

definition s_new_id :: "svc_env \<Rightarrow> db \<Rightarrow> id" where
  "s_new_id env = env_new_id (s_effects env)"

section \<open>The state\<close>

record world =
  w_db :: db
  w_costs :: "cost_report list"
  w_ideas :: "idea list"
  w_idea_messages :: "idea_message list"
  w_idea_logs :: "idea_log list"
  w_user_questions :: "user_question list"
  w_chat_links :: "chat_link list"
  w_chats :: "agent_chat list"
  w_chat_messages :: "agent_message list"
  w_choices :: "harness_choice list"
  w_cleanup_pending :: "id list"
  w_calls :: "svc_call list"

definition call :: "svc_call \<Rightarrow> world \<Rightarrow> world" where
  "call c w = w\<lparr>w_calls := w_calls w @ [c]\<rparr>"

definition with_db :: "(db \<Rightarrow> db) \<Rightarrow> world \<Rightarrow> world" where
  "with_db f w = w\<lparr>w_db := f (w_db w)\<rparr>"

lemma call_frame [simp]:
  "w_db (call c w) = w_db w" "w_costs (call c w) = w_costs w" "w_ideas (call c w) = w_ideas w"
  "w_idea_messages (call c w) = w_idea_messages w" "w_idea_logs (call c w) = w_idea_logs w"
  "w_user_questions (call c w) = w_user_questions w" "w_chat_links (call c w) = w_chat_links w"
  "w_chats (call c w) = w_chats w" "w_chat_messages (call c w) = w_chat_messages w"
  "w_choices (call c w) = w_choices w" "w_cleanup_pending (call c w) = w_cleanup_pending w"
  "w_calls (call c w) = w_calls w @ [c]"
  by (simp_all add: call_def)

lemma with_db_frame [simp]:
  "w_db (with_db f w) = f (w_db w)" "w_costs (with_db f w) = w_costs w" "w_ideas (with_db f w) = w_ideas w"
  "w_idea_messages (with_db f w) = w_idea_messages w" "w_idea_logs (with_db f w) = w_idea_logs w"
  "w_user_questions (with_db f w) = w_user_questions w" "w_chat_links (with_db f w) = w_chat_links w"
  "w_chats (with_db f w) = w_chats w" "w_chat_messages (with_db f w) = w_chat_messages w"
  "w_choices (with_db f w) = w_choices w" "w_cleanup_pending (with_db f w) = w_cleanup_pending w"
  "w_calls (with_db f w) = w_calls w"
  by (simp_all add: with_db_def)

text \<open>\<open>executeEffects\<close> on the state: its calls join the log; the outcomes are handed back.\<close>

definition run_effects :: "svc_env \<Rightarrow> flow_effect list \<Rightarrow> world \<Rightarrow> world \<times> auto_merge list" where
  "run_effects env fs w =
     (let x = executeEffects (s_effects env) fs (w_db w)
      in (w\<lparr>w_db := x_db x, w_calls := w_calls w @ map Flow_call (x_calls x)\<rparr>, x_outcomes x))"

text \<open>A row of \<open>claude_jobs\<close> with the defaults of the schema.\<close>

definition new_job :: "id \<Rightarrow> time \<Rightarrow> id \<Rightarrow> id \<Rightarrow> job_kind \<Rightarrow> job" where
  "new_job k now user product kind = \<lparr>j_id = k, j_user_id = user, j_product_id = product,
     j_task_id = None, j_idea_id = None, j_sprint_run_id = None, j_sprint_sequence = None,
     j_kind = kind, j_status = J_QUEUED, j_runtime = CLAUDE, j_source = SYSTEM,
     j_required_capability = None, j_requested_model = None, j_created_by_job_id = None,
     j_orchestration_key = None, j_claimed_by_token_id = None, j_worker_instance_id = None,
     j_claimed_at = None, j_started_at = None, j_finished_at = None, j_pushed_at = None,
     j_lease_until = None, j_resolved_at = None, j_created_at = now, j_retry_count = 0,
     j_verify_result = None, j_plan_snapshot = None, j_base_sha = None, j_head_sha = None,
     j_branch = None, j_pr_url = None, j_summary = None, j_error = None,
     j_chat_cutoff_message_id = None, j_chat_cutoff_at = None, j_dispatch_request_id = None,
     j_dispatch_candidate_id = None,
     j_usage = \<lparr>u_model_id = None, u_input_tokens = None, u_output_tokens = None,
       u_cache_read_tokens = None, u_cache_write_tokens = None, u_actual_thinking_tokens = None\<rparr>\<rparr>"

definition insert_job :: "job \<Rightarrow> db \<Rightarrow> db" where
  "insert_job j d = d\<lparr>jobs := jobs d @ [j]\<rparr>"

lemma insert_job_frame [simp]:
  "jobs (insert_job j d) = jobs d @ [j]" "tasks (insert_job j d) = tasks d"
  "stories (insert_job j d) = stories d" "pbis (insert_job j d) = pbis d"
  "sprints (insert_job j d) = sprints d" "products (insert_job j d) = products d"
  "runs (insert_job j d) = runs d" "execs (insert_job j d) = execs d"
  "questions (insert_job j d) = questions d" "notified (insert_job j d) = notified d"
  by (simp_all add: insert_job_def)

section \<open>A sample\<close>

definition sample_pr :: pr_info where
  "sample_pr = \<lparr>pi_state = PR_OPEN, pi_head_sha = Some ''abc'', pi_merge_commit = None, pi_title = ''T'', pi_base = ''main''\<rparr>"

definition sample_svc :: svc_env where
  "sample_svc = \<lparr>s_effects = sample_env\<lparr>env_new_id := (\<lambda>d. ''n'' @ digits (length (jobs d)))\<rparr>,
     s_push = (\<lambda>_ _. Pushed), s_head = (\<lambda>_. Some ''abc''), s_pr_state = (\<lambda>_. Some sample_pr),
     s_create_pr = (\<lambda>_ _ _ _ _. Some ''https://git.example/o/r/pulls/7''), s_close_pr = (\<lambda>_. True),
     s_revert_pr = (\<lambda>u. Some (u @ ''-revert'')), s_merged_tip = (\<lambda>_ _. True),
     s_delete_branch = (\<lambda>_ _. Deleted), s_conflict_files = (\<lambda>_. [''f'']),
     s_repo_root = (\<lambda>_ _. Some ''/repo''), s_worktree_removed = (\<lambda>_. True), s_marker_read = (\<lambda>_. True),
     s_harness_kind = (\<lambda>k. k = TASK_IMPLEMENTATION \<or> k = IDEA_CHAT),
     s_parse_iso = (\<lambda>s. if s = [] then None else Some 0), s_cursor = (\<lambda>_. ''cursor'')\<rparr>"

definition empty_world :: "db \<Rightarrow> world" where
  "empty_world d = \<lparr>w_db = d, w_costs = [], w_ideas = [], w_idea_messages = [], w_idea_logs = [],
     w_user_questions = [], w_chat_links = [], w_chats = [], w_chat_messages = [], w_choices = [],
     w_cleanup_pending = [], w_calls = []\<rparr>"

lemma w_db_empty_world [simp]: "w_db (empty_world d) = d"
  by (simp add: empty_world_def)

end
