(* ===== verification/Deploy_Jobs.thy ===== *)
theory Deploy_Jobs
  imports Service_State
begin

text \<open>
  Deploy jobs: \<open>src/src/lib/dispatch/deploy-job.ts\<close> (the automatic enqueue behind the product lock,
  deduplicated by a partial unique index), \<open>deploy-dispatch.ts\<close> (the manual one),
  \<open>sprint-batch-deploy.ts\<close> (the chain from a finished sprint run to a deploy), and
  \<open>checkDeploySkipReason\<close> and \<open>applyDeployTerminalUpdate\<close> of \<open>src/src/tools/update-job-status.ts\<close>.
  Each locked transaction is one step.
\<close>

section \<open>Keys\<close>

text \<open>\<open>prUrl.match\<close> of owner, repository, \<open>pull\<close> or \<open>pulls\<close> and a number, on the slash-separated parts.\<close>

fun split_slash :: "string \<Rightarrow> string list" where
  "split_slash [] = [[]]"
| "split_slash (c # s) =
     (if c = CHR ''/'' then [] # split_slash s
      else case split_slash s of [] \<Rightarrow> [[c]] | p # ps \<Rightarrow> (c # p) # ps)"

fun pr_reference :: "string list \<Rightarrow> (string \<times> string \<times> string) option" where
  "pr_reference (a # b # c # e # rest) =
     (if a \<noteq> [] \<and> b \<noteq> [] \<and> (c = ''pull'' \<or> c = ''pulls'') \<and> takeWhile is_digit e \<noteq> []
      then Some (a, b, takeWhile is_digit e)
      else pr_reference (b # c # e # rest))"
| "pr_reference _ = None"

definition buildDeployOrchestrationKey :: "string \<Rightarrow> string \<Rightarrow> string" where
  "buildDeployOrchestrationKey prUrl headSha =
     (let ref = (case pr_reference (split_slash prUrl) of
          Some (owner, repo, n) \<Rightarrow> owner @ ''/'' @ repo @ ''#'' @ n
        | None \<Rightarrow> prUrl)
      in ''auto:deploy:'' @ ref @ ''@'' @ headSha)"

text \<open>\<open>norm\<close> and \<open>repoBucketKey\<close>: \<open>None\<close> is the product's own repository.\<close>

definition norm_repo :: "string option \<Rightarrow> string option" where
  "norm_repo u = (case u of
     None \<Rightarrow> None
   | Some s \<Rightarrow>
       (let t = trim s
        in if t = [] then None
           else Some (if slice_last 4 t = ''.git'' then take (length t - 4) t else t)))"

definition repoBucketKey :: "string option \<Rightarrow> string option \<Rightarrow> string option" where
  "repoBucketKey repoUrl productRepoUrl = (case norm_repo repoUrl of
     None \<Rightarrow> None
   | Some r \<Rightarrow> if norm_repo productRepoUrl = Some r then None else Some r)"

section \<open>Enqueueing\<close>

datatype deploy_eligibility = Eligible | Blocked_by_failure | Not_configured

definition unresolved_failure :: "id \<Rightarrow> job \<Rightarrow> bool" where
  "unresolved_failure productId j \<longleftrightarrow>
     j_product_id j = productId \<and> j_kind j = DEPLOY \<and> j_status j = J_FAILED \<and> j_resolved_at j = None"

definition readDeployEligibility :: "id \<Rightarrow> db \<Rightarrow> deploy_eligibility" where
  "readDeployEligibility productId d = (case find_product productId d of
     None \<Rightarrow> Not_configured
   | Some p \<Rightarrow>
       (if \<not> pr_auto_deploy p \<or> \<not> truthy (pr_deploy_flow p) then Not_configured
        else if list_ex (unresolved_failure productId) (jobs d) then Blocked_by_failure
        else Eligible))"

datatype enqueue_outcome = Enqueued id | Dedup | Enqueue_blocked | Enqueue_not_configured

definition auto_deploy_job :: "svc_env \<Rightarrow> db \<Rightarrow> id \<Rightarrow> id \<Rightarrow> id \<Rightarrow> string \<Rightarrow> string \<Rightarrow> job" where
  "auto_deploy_job env d parentJobId userId productId prUrl headSha =
     (new_job (s_new_id env d) (s_now env) userId productId DEPLOY)
       \<lparr>j_required_capability := Some ''deploy'', j_created_by_job_id := Some parentJobId,
        j_orchestration_key := Some (buildDeployOrchestrationKey prUrl headSha),
        j_pr_url := Some prUrl, j_head_sha := Some headSha\<rparr>"

text \<open>
  The unique indexes a new row must respect: the partial one on \<open>orchestration_key\<close> of DEPLOY jobs
  and the one on \<open>(created_by_job_id, orchestration_key)\<close>; null columns never conflict.
\<close>

definition unique_conflict :: "job \<Rightarrow> db \<Rightarrow> bool" where
  "unique_conflict n d \<longleftrightarrow> j_orchestration_key n \<noteq> None \<and>
     list_ex (\<lambda>j. j_orchestration_key j = j_orchestration_key n \<and>
       (j_kind j = DEPLOY \<and> j_kind n = DEPLOY \<or>
        j_created_by_job_id n \<noteq> None \<and> j_created_by_job_id j = j_created_by_job_id n)) (jobs d)"

definition maybeEnqueueDeployJob ::
  "svc_env \<Rightarrow> id \<Rightarrow> id \<Rightarrow> id \<Rightarrow> string \<Rightarrow> string \<Rightarrow> world \<Rightarrow> world \<times> enqueue_outcome" where
  "maybeEnqueueDeployJob env parentJobId userId productId prUrl headSha w =
     (case readDeployEligibility productId (w_db w) of
        Not_configured \<Rightarrow> (w, Enqueue_not_configured)
      | Blocked_by_failure \<Rightarrow> (w, Enqueue_blocked)
      | Eligible \<Rightarrow>
          (let n = auto_deploy_job env (w_db w) parentJobId userId productId prUrl headSha
           in if unique_conflict n (w_db w) then (w, Dedup)
              else (call (Job_enqueued (j_id n)) (with_db (insert_job n) w), Enqueued (j_id n))))"

datatype dispatch_error = No_deploy_flow | Deploy_running id

definition dispatchDeploy :: "svc_env \<Rightarrow> id \<Rightarrow> id \<Rightarrow> world \<Rightarrow> world \<times> (dispatch_error + id)" where
  "dispatchDeploy env productId userId w =
     (case find_product productId (w_db w) of
        None \<Rightarrow> (w, Inl No_deploy_flow)
      | Some p \<Rightarrow>
          (if \<not> truthy (pr_deploy_flow p) then (w, Inl No_deploy_flow)
           else case find (\<lambda>j. j_product_id j = productId \<and> j_kind j = DEPLOY \<and> active (j_status j)) (jobs (w_db w)) of
               Some j \<Rightarrow> (w, Inl (Deploy_running (j_id j)))
             | None \<Rightarrow>
                 (let n = (new_job (s_new_id env (w_db w)) (s_now env) userId productId DEPLOY)
                        \<lparr>j_source := MANUAL, j_required_capability := Some ''deploy''\<rparr>
                  in (call (Job_enqueued (j_id n)) (with_db (insert_job n) w), Inr (j_id n)))))"

section \<open>Ending a deploy\<close>

text \<open>\<open>/^(doc_only_merge|merge_sha_already_deployed)\b/\<close> on the trimmed reason.\<close>

definition word_prefix :: "string \<Rightarrow> string \<Rightarrow> bool" where
  "word_prefix p s \<longleftrightarrow> starts_with p s \<and>
     (case drop (length p) s of [] \<Rightarrow> True | c # _ \<Rightarrow> \<not> is_word_char c)"

definition checkDeploySkipReason :: "string option \<Rightarrow> bool" where
  "checkDeploySkipReason error =
     (let reason = trim (or_else error [])
      in word_prefix ''doc_only_merge'' reason \<or> word_prefix ''merge_sha_already_deployed'' reason)"

definition superseded_error :: "id \<Rightarrow> string" where
  "superseded_error jobId = ''superseded: deploy voor product faalde (job '' @ jobId @ '')''"

definition terminal_of :: "update_status \<Rightarrow> job_status" where
  "terminal_of s = (if s = US_DONE then J_DONE else if s = US_FAILED then J_FAILED else J_SKIPPED)"

definition deploy_end_row :: "time \<Rightarrow> update_status \<Rightarrow> string option \<Rightarrow> string option \<Rightarrow> job \<Rightarrow> job" where
  "deploy_end_row now status summary error j =
     j\<lparr>j_status := terminal_of status, j_summary := write_opt summary (j_summary j),
       j_error := write_opt error (j_error j), j_finished_at := Some now\<rparr>"

definition queued_deploy :: "id \<Rightarrow> job \<Rightarrow> bool" where
  "queued_deploy productId j \<longleftrightarrow>
     j_product_id j = productId \<and> j_kind j = DEPLOY \<and> j_status j = J_QUEUED"

text \<open>
  The whole locked transaction; \<open>None\<close> is the exception of updating a missing row, which rolls it
  back. The second component lists the cancelled jobs.
\<close>

definition applyDeployTerminalUpdate ::
  "time \<Rightarrow> id \<Rightarrow> id \<Rightarrow> update_status \<Rightarrow> string option \<Rightarrow> string option \<Rightarrow> db \<Rightarrow> (db \<times> id list) option" where
  "applyDeployTerminalUpdate now jobId productId status summary error d =
     (case find_job jobId d of
        None \<Rightarrow> None
      | Some _ \<Rightarrow>
          (let d1 = update_jobs (\<lambda>j. j_id j = jobId) (deploy_end_row now status summary error) d
           in if status = US_FAILED then
                (let queued = map j_id (filter (queued_deploy productId) (jobs d1))
                 in Some (update_jobs (\<lambda>j. j_id j \<in> set queued)
                      (\<lambda>j. j\<lparr>j_status := J_CANCELLED, j_error := Some (superseded_error jobId),
                            j_finished_at := Some now\<rparr>) d1, queued))
              else if status = US_DONE then
                Some (update_jobs (\<lambda>j. unresolved_failure productId j \<and> j_id j \<noteq> jobId)
                  (\<lambda>j. j\<lparr>j_resolved_at := Some now\<rparr>) d1, [])
              else Some (d1, [])))"

section \<open>The sprint batch\<close>

definition task_repo :: "job \<Rightarrow> db \<Rightarrow> string option" where
  "task_repo j d = (case j_task_id j of
     None \<Rightarrow> None | Some t \<Rightarrow> (case find_task t d of None \<Rightarrow> None | Some x \<Rightarrow> t_repo_url x))"

text \<open>The first pull request of the run that targets the product's own repository.\<close>

definition batch_pr_job :: "id \<Rightarrow> id \<Rightarrow> db \<Rightarrow> job option" where
  "batch_pr_job productId sprintRunId d =
     (let productUrl = (case find_product productId d of None \<Rightarrow> None | Some p \<Rightarrow> pr_repo_url p)
      in first_by j_created_at
           (\<lambda>j. j_sprint_run_id j = Some sprintRunId \<and> j_pr_url j \<noteq> None \<and>
             repoBucketKey (task_repo j d) productUrl = None) (jobs d))"

text \<open>\<open>None\<close>: the enqueue threw, which the code catches and reports.\<close>

definition deploy_note :: "id \<Rightarrow> string \<Rightarrow> string \<Rightarrow> string \<Rightarrow> svc_call" where
  "deploy_note user title body tag = Push_note user title body ''/jobs'' tag"

definition maybeAutoDeploySprintBatchPr :: "svc_env \<Rightarrow> id \<Rightarrow> id \<Rightarrow> id \<Rightarrow> id \<Rightarrow> world \<Rightarrow> world" where
  "maybeAutoDeploySprintBatchPr env jobId userId productId sprintRunId w =
     (if map_option r_status (find_run sprintRunId (w_db w)) \<noteq> Some RUN_DONE then w
      else case batch_pr_job productId sprintRunId (w_db w) of
          None \<Rightarrow> w
        | Some j \<Rightarrow>
            (if \<not> truthy (j_pr_url j) then w
             else (let prUrl = the (j_pr_url j);
                       headSha = (case s_pr_state env prUrl of None \<Rightarrow> None | Some i \<Rightarrow> pi_head_sha i)
                   in if \<not> truthy headSha then w
                      else case readDeployEligibility productId (w_db w) of
                          Not_configured \<Rightarrow> w
                        | Blocked_by_failure \<Rightarrow>
                            call (deploy_note userId ''Sprint-batch-deploy geblokkeerd''
                              ''Een onopgeloste FAILED deploy blokkeert; los die eerst op.''
                              (''sprint-batch-deploy-blocked-'' @ sprintRunId)) w
                        | Eligible \<Rightarrow>
                            (let (w1, outcomes) = run_effects env [ENABLE_AUTO_MERGE prUrl (the headSha)] w
                             in if \<not> list_ex (\<lambda>out. case out of Merge_ok _ \<Rightarrow> True | Merge_failed _ _ \<Rightarrow> False) outcomes
                                then call (deploy_note userId ''Sprint-batch auto-merge mislukt''
                                       ''Merge de sprint-PR handmatig en re-trigger de deploy.''
                                       (''sprint-batch-automerge-fail-'' @ sprintRunId)) w1
                                else (let (w2, out) = maybeEnqueueDeployJob env jobId userId productId prUrl (the headSha) w1
                                      in if out = Enqueue_not_configured \<or> out = Enqueue_blocked
                                         then call (deploy_note userId ''Sprint-batch: auto-merge aan, geen deploy''
                                                (''Deploy-enqueue niet uitgevoerd ('' @
                                                  (if out = Enqueue_blocked then ''blocked'' else ''not_configured'') @
                                                  '') door gewijzigde eligibility.'')
                                                (''sprint-batch-deploy-race-'' @ sprintRunId)) w2
                                         else w2)))))"

section \<open>The deploy queue as a transition system\<close>

text \<open>
  What the transactions above do to the queue, one after the other (each holds the product lock):
  an automatic or manual enqueue, a worker taking a queued deploy up, and the end of a deploy that
  runs. Ids of new rows are fresh.
\<close>

inductive deploy_step :: "world \<Rightarrow> world \<Rightarrow> bool" where
  auto: "s_new_id env (w_db w) \<notin> j_id ` set (jobs (w_db w)) \<Longrightarrow>
    deploy_step w (fst (maybeEnqueueDeployJob env parentJobId userId productId prUrl headSha w))"
| manual: "s_new_id env (w_db w) \<notin> j_id ` set (jobs (w_db w)) \<Longrightarrow>
    deploy_step w (fst (dispatchDeploy env productId userId w))"
| taken: "claimed_or_running s \<Longrightarrow>
    deploy_step w (with_db (update_jobs (\<lambda>j. j_id j = k \<and> j_status j = J_QUEUED) (\<lambda>j. j\<lparr>j_status := s\<rparr>)) w)"
| ended: "find_job k (w_db w) = Some j \<Longrightarrow> j_kind j = DEPLOY \<Longrightarrow> claimed_or_running (j_status j) \<Longrightarrow>
    applyDeployTerminalUpdate now k (j_product_id j) status summary error (w_db w) = Some (d, ids) \<Longrightarrow>
    deploy_step w (w\<lparr>w_db := d\<rparr>)"

definition deploy_keys :: "db \<Rightarrow> string option list" where
  "deploy_keys d = map j_orchestration_key (filter (\<lambda>j. j_kind j = DEPLOY \<and> j_orchestration_key j \<noteq> None) (jobs d))"

definition no_queued_after_failure :: "db \<Rightarrow> bool" where
  "no_queued_after_failure d \<longleftrightarrow>
     (\<forall>j \<in> set (jobs d). \<forall>f \<in> set (jobs d). j_kind j = DEPLOY \<longrightarrow> j_status j = J_QUEUED \<longrightarrow>
        j_orchestration_key j \<noteq> None \<longrightarrow> \<not> unresolved_failure (j_product_id j) f)"

definition deploy_queue_ok :: "db \<Rightarrow> bool" where
  "deploy_queue_ok d \<longleftrightarrow>
     distinct (map j_id (jobs d)) \<and> distinct (deploy_keys d) \<and> no_queued_after_failure d"

lemma in_update_where_other: "r \<in> set rs \<Longrightarrow> \<not> p r \<Longrightarrow> r \<in> set (update_where p f rs)"
  by (induction rs) auto

lemma deploy_keys_update_jobs:
  assumes "\<And>j. j_kind (f j) = j_kind j" and "\<And>j. j_orchestration_key (f j) = j_orchestration_key j"
  shows "deploy_keys (update_jobs p f d) = deploy_keys d"
proof -
  have "map j_orchestration_key (filter (\<lambda>j. j_kind j = DEPLOY \<and> j_orchestration_key j \<noteq> None) (update_where p f js)) =
    map j_orchestration_key (filter (\<lambda>j. j_kind j = DEPLOY \<and> j_orchestration_key j \<noteq> None) js)" for js
    using assms by (induction js) auto
  then show ?thesis by (simp add: deploy_keys_def)
qed

lemma ids_update_jobs: "(\<And>j. j_id (f j) = j_id j) \<Longrightarrow> map j_id (jobs (update_jobs p f d)) = map j_id (jobs d)"
  by (simp add: map_update_where)

text \<open>A change of rows that neither queues nor fails an automatic deploy keeps the queue in order.\<close>

lemma no_queued_update:
  assumes "no_queued_after_failure d"
    and "\<And>j. j \<in> set (jobs d) \<Longrightarrow> p j \<Longrightarrow> j_product_id (f j) = j_product_id j \<and> j_kind (f j) = j_kind j \<and>
           j_orchestration_key (f j) = j_orchestration_key j"
    and "\<And>j. j \<in> set (jobs d) \<Longrightarrow> p j \<Longrightarrow> j_status (f j) = J_QUEUED \<Longrightarrow> j_status j = J_QUEUED"
    and "\<And>j q. j \<in> set (jobs d) \<Longrightarrow> p j \<Longrightarrow> unresolved_failure q (f j) \<Longrightarrow> unresolved_failure q j"
  shows "no_queued_after_failure (update_jobs p f d)"
  unfolding no_queued_after_failure_def update_jobs_frame set_update_where
proof (intro ballI impI)
  fix j' f'
  assume j': "j' \<in> (\<lambda>r. if p r then f r else r) ` set (jobs d)" and f': "f' \<in> (\<lambda>r. if p r then f r else r) ` set (jobs d)"
    and k: "j_kind j' = DEPLOY" "j_status j' = J_QUEUED" "j_orchestration_key j' \<noteq> None"
  obtain j where j: "j \<in> set (jobs d)" "j' = (if p j then f j else j)" using j' by blast
  obtain r where r: "r \<in> set (jobs d)" "f' = (if p r then f r else r)" using f' by blast
  have "j_kind j = DEPLOY" "j_orchestration_key j \<noteq> None" "j_product_id j' = j_product_id j"
    using k j assms(2) [OF j(1)] by (auto split: if_splits)
  moreover have "j_status j = J_QUEUED" using k j assms(3) [OF j(1)] by (auto split: if_splits)
  ultimately have "\<not> unresolved_failure (j_product_id j') r"
    using assms(1) j(1) r(1) by (simp add: no_queued_after_failure_def)
  then show "\<not> unresolved_failure (j_product_id j') f'"
    using r assms(4) [OF r(1)] by (auto split: if_splits)
qed

lemma insert_queue_ok:
  assumes "deploy_queue_ok d" and "j_id n \<notin> j_id ` set (jobs d)" and "j_status n = J_QUEUED"
    and "j_orchestration_key n \<noteq> None \<Longrightarrow> \<not> unique_conflict n d \<and> \<not> list_ex (unresolved_failure (j_product_id n)) (jobs d)"
  shows "deploy_queue_ok (insert_job n d)"
proof -
  have new: "\<not> unresolved_failure q n" for q using assms(3) by (simp add: unresolved_failure_def)
  have "j_orchestration_key n \<noteq> None \<Longrightarrow> j_kind n = DEPLOY \<Longrightarrow> j_orchestration_key n \<notin> set (deploy_keys d)"
    using assms(4) by (auto simp: unique_conflict_def deploy_keys_def list_ex_iff)
  then have "distinct (deploy_keys (insert_job n d))"
    using assms(1) by (auto simp: deploy_queue_ok_def deploy_keys_def)
  moreover have "no_queued_after_failure (insert_job n d)"
    using assms(1,4) new by (auto simp: deploy_queue_ok_def no_queued_after_failure_def list_ex_iff)
  ultimately show ?thesis using assms(1,2) by (simp add: deploy_queue_ok_def)
qed

lemma readDeployEligibility_Eligible:
  "readDeployEligibility q d = Eligible \<Longrightarrow> \<not> list_ex (unresolved_failure q) (jobs d)"
  by (auto simp: readDeployEligibility_def split: option.splits if_splits)

lemma auto_deploy_job_simps [simp]:
  "j_id (auto_deploy_job env d parent user q url sha) = s_new_id env d"
  "j_status (auto_deploy_job env d parent user q url sha) = J_QUEUED"
  "j_product_id (auto_deploy_job env d parent user q url sha) = q"
  "j_kind (auto_deploy_job env d parent user q url sha) = DEPLOY"
  "j_pr_url (auto_deploy_job env d parent user q url sha) = Some url"
  "j_head_sha (auto_deploy_job env d parent user q url sha) = Some sha"
  "j_orchestration_key (auto_deploy_job env d parent user q url sha) = Some (buildDeployOrchestrationKey url sha)"
  "j_created_by_job_id (auto_deploy_job env d parent user q url sha) = Some parent"
  by (simp_all add: auto_deploy_job_def new_job_def)

lemma enqueue_cases:
  obtains (nothing) "w_db (fst (maybeEnqueueDeployJob env parent user q url sha w)) = w_db w"
      "\<forall>k. snd (maybeEnqueueDeployJob env parent user q url sha w) \<noteq> Enqueued k"
  | (enqueued) n where "n = auto_deploy_job env (w_db w) parent user q url sha" "\<not> unique_conflict n (w_db w)"
      "readDeployEligibility q (w_db w) = Eligible"
      "w_db (fst (maybeEnqueueDeployJob env parent user q url sha w)) = insert_job n (w_db w)"
      "snd (maybeEnqueueDeployJob env parent user q url sha w) = Enqueued (j_id n)"
proof (cases "readDeployEligibility q (w_db w)")
  case Eligible
  show thesis
  proof (cases "unique_conflict (auto_deploy_job env (w_db w) parent user q url sha) (w_db w)")
    case True
    then show thesis by - (rule nothing, simp_all add: maybeEnqueueDeployJob_def Eligible)
  next
    case False
    then show thesis by - (rule enqueued [OF refl], simp_all add: maybeEnqueueDeployJob_def Eligible)
  qed
next
  case Blocked_by_failure
  then show thesis by - (rule nothing, simp_all add: maybeEnqueueDeployJob_def)
next
  case Not_configured
  then show thesis by - (rule nothing, simp_all add: maybeEnqueueDeployJob_def)
qed

lemma dispatch_cases:
  obtains (nothing) "w_db (fst (dispatchDeploy env q user w)) = w_db w"
  | (enqueued) n where "j_id n = s_new_id env (w_db w)" "j_status n = J_QUEUED" "j_orchestration_key n = None"
      "w_db (fst (dispatchDeploy env q user w)) = insert_job n (w_db w)"
proof -
  let ?n = "(new_job (s_new_id env (w_db w)) (s_now env) user q DEPLOY)\<lparr>j_source := MANUAL, j_required_capability := Some ''deploy''\<rparr>"
  have "w_db (fst (dispatchDeploy env q user w)) = w_db w \<or> w_db (fst (dispatchDeploy env q user w)) = insert_job ?n (w_db w)"
    by (simp add: dispatchDeploy_def Let_def split: option.split)
  then show thesis
  proof (elim disjE)
    assume "w_db (fst (dispatchDeploy env q user w)) = insert_job ?n (w_db w)"
    then show thesis by - (rule enqueued [of ?n], simp_all add: new_job_def)
  qed (rule nothing)
qed

lemma deploy_end_row_frame [simp]:
  "j_id (deploy_end_row now s x e j) = j_id j" "j_kind (deploy_end_row now s x e j) = j_kind j"
  "j_product_id (deploy_end_row now s x e j) = j_product_id j"
  "j_orchestration_key (deploy_end_row now s x e j) = j_orchestration_key j"
  "j_status (deploy_end_row now s x e j) = terminal_of s"
  "j_resolved_at (deploy_end_row now s x e j) = j_resolved_at j"
  by (simp_all add: deploy_end_row_def)

lemma terminal_of_simps [simp]:
  "terminal_of s \<noteq> J_QUEUED" "terminal_of s = J_FAILED \<longleftrightarrow> s = US_FAILED"
  by (simp_all add: terminal_of_def)

text \<open>The rows after a failed deploy, and after one that did not fail.\<close>

lemma applyDeploy_failed:
  assumes "applyDeployTerminalUpdate now k q US_FAILED x e d = Some (d', ids)"
  shows "d' = update_jobs (\<lambda>j. j_id j \<in> set ids) (\<lambda>j. j\<lparr>j_status := J_CANCELLED, j_error := Some (superseded_error k), j_finished_at := Some now\<rparr>)
      (update_jobs (\<lambda>j. j_id j = k) (deploy_end_row now US_FAILED x e) d)"
    and "ids = map j_id (filter (queued_deploy q) (jobs (update_jobs (\<lambda>j. j_id j = k) (deploy_end_row now US_FAILED x e) d)))"
  using assms by (auto simp: applyDeployTerminalUpdate_def Let_def split: option.splits)

lemma applyDeploy_unfailed:
  assumes "applyDeployTerminalUpdate now k q s x e d = Some (d', ids)" and "s \<noteq> US_FAILED"
  shows "ids = []" and
    "d' = (if s = US_DONE then update_jobs (\<lambda>j. unresolved_failure q j \<and> j_id j \<noteq> k) (\<lambda>j. j\<lparr>j_resolved_at := Some now\<rparr>)
        (update_jobs (\<lambda>j. j_id j = k) (deploy_end_row now s x e) d)
      else update_jobs (\<lambda>j. j_id j = k) (deploy_end_row now s x e) d)"
  using assms by (auto simp: applyDeployTerminalUpdate_def Let_def split: option.splits if_splits)

lemma failed_no_queued:
  assumes "applyDeployTerminalUpdate now k q US_FAILED x e d = Some (d', ids)" and "j \<in> set (jobs d')"
  shows "\<not> queued_deploy q j"
proof -
  let ?d1 = "update_jobs (\<lambda>j. j_id j = k) (deploy_end_row now US_FAILED x e) d"
  note d' = applyDeploy_failed [OF assms(1)]
  obtain r where "r \<in> set (jobs ?d1)"
    "j = (if j_id r \<in> set ids then r\<lparr>j_status := J_CANCELLED, j_error := Some (superseded_error k), j_finished_at := Some now\<rparr> else r)"
    using assms(2) unfolding d'(1) update_jobs_frame(10) [of "\<lambda>j. j_id j \<in> set ids"] by (rule update_whereE)
  then show ?thesis unfolding d'(2) by (auto simp: queued_deploy_def split: if_splits)
qed

lemma list_all_update_where:
  "list_all P (update_where p f rs) \<longleftrightarrow> list_all (\<lambda>r. P (if p r then f r else r)) rs"
  by (induction rs) simp_all

lemma done_resolves:
  assumes "applyDeployTerminalUpdate now k q US_DONE x e d = Some (d', ids)"
  shows "list_all (\<lambda>j. \<not> unresolved_failure q j) (jobs d')"
proof -
  let ?ended = "\<lambda>j. if j_id j = k then deploy_end_row now US_DONE x e j else j"
  let ?lift = "\<lambda>j. if unresolved_failure q j \<and> j_id j \<noteq> k then j\<lparr>j_resolved_at := Some now\<rparr> else j"
  have lift: "\<not> unresolved_failure q (?lift j)" if "j_id j = k \<Longrightarrow> j_status j \<noteq> J_FAILED" for j
    using that by (cases "unresolved_failure q j"; cases "j_id j = k") (simp_all add: unresolved_failure_def)
  have all: "\<not> unresolved_failure q (?lift (?ended j))" for j
    by (rule lift) (cases "j_id j = k", simp_all)
  show ?thesis
    unfolding applyDeploy_unfailed(2) [OF assms, simplified] update_jobs_frame list_all_update_where
    unfolding list_all_iff
    by (intro ballI) (rule all)
qed

lemma ended_queue_ok:
  assumes "deploy_queue_ok d" and "find_job k d = Some j" and "j_kind j = DEPLOY"
    and "applyDeployTerminalUpdate now k (j_product_id j) s x e d = Some (d', ids)"
  shows "deploy_queue_ok d'"
proof (cases "s = US_FAILED")
  case True
  note d' = applyDeploy_failed [OF assms(4) [unfolded True]]
  have row: "r = j" if "r \<in> set (jobs d)" "j_id r = k" for r
    using assms(1,2) that by (auto simp: deploy_queue_ok_def find_job_def intro: find_by_unique_row)
  have "no_queued_after_failure d'"
    unfolding no_queued_after_failure_def
  proof (intro ballI impI notI)
    fix a f assume a: "a \<in> set (jobs d')" "j_kind a = DEPLOY" "j_status a = J_QUEUED" "j_orchestration_key a \<noteq> None"
      and f: "f \<in> set (jobs d')" "unresolved_failure (j_product_id a) f"
    have "j_product_id a \<noteq> j_product_id j"
      using failed_no_queued [OF assms(4) [unfolded True] a(1)] a by (simp add: queued_deploy_def)
    moreover have "a \<in> set (jobs d)"
      using a(1,3) unfolding d'(1) by (auto simp: set_update_where split: if_splits)
    moreover have "f \<in> set (jobs d) \<or> j_product_id f = j_product_id j"
      using f(1) row f(2) unfolding d'(1) by (auto simp: set_update_where unresolved_failure_def split: if_splits)
    moreover have "j_product_id f = j_product_id a" using f(2) by (simp add: unresolved_failure_def)
    ultimately have "f \<in> set (jobs d)" "a \<in> set (jobs d)" by auto
    then show False
      using assms(1) a(2-4) f(2) unfolding deploy_queue_ok_def no_queued_after_failure_def by blast
  qed
  moreover have "deploy_keys d' = deploy_keys d" "map j_id (jobs d') = map j_id (jobs d)"
    unfolding d'(1) by (simp_all add: deploy_keys_update_jobs map_update_where)
  ultimately show ?thesis using assms(1) by (simp add: deploy_queue_ok_def)
next
  case False
  note d' = applyDeploy_unfailed [OF assms(4) False]
  let ?d1 = "update_jobs (\<lambda>j. j_id j = k) (deploy_end_row now s x e) d"
  have "no_queued_after_failure ?d1"
    using assms(1) False by (intro no_queued_update) (auto simp: deploy_queue_ok_def unresolved_failure_def)
  then have "no_queued_after_failure d'"
    unfolding d'(2) by (auto intro!: no_queued_update simp: unresolved_failure_def)
  moreover have "deploy_keys d' = deploy_keys d" "map j_id (jobs d') = map j_id (jobs d)"
    unfolding d'(2) by (simp_all add: deploy_keys_update_jobs map_update_where)
  ultimately show ?thesis using assms(1) by (simp add: deploy_queue_ok_def)
qed

lemma deploy_step_ok: "deploy_step w w' \<Longrightarrow> deploy_queue_ok (w_db w) \<Longrightarrow> deploy_queue_ok (w_db w')"
proof (induction rule: deploy_step.induct)
  case (auto env w parent user q url sha)
  show ?case
  proof (cases rule: enqueue_cases [of env parent user q url sha w])
    case nothing then show ?thesis using auto by simp
  next
    case (enqueued n)
    then show ?thesis
      using auto readDeployEligibility_Eligible by (auto intro!: insert_queue_ok)
  qed
next
  case (manual env w q user)
  show ?case
  proof (cases rule: dispatch_cases [of env q user w])
    case nothing then show ?thesis using manual by simp
  next
    case (enqueued n)
    then show ?thesis using manual insert_queue_ok [of "w_db w" n] by simp
  qed
next
  case (taken s w k)
  then have "no_queued_after_failure (update_jobs (\<lambda>j. j_id j = k \<and> j_status j = J_QUEUED) (\<lambda>j. j\<lparr>j_status := s\<rparr>) (w_db w))"
    by (intro no_queued_update) (auto simp: deploy_queue_ok_def unresolved_failure_def)
  then show ?case
    using taken by (simp add: deploy_queue_ok_def deploy_keys_update_jobs map_update_where)
next
  case (ended k w j now s x e d ids)
  then show ?case using ended_queue_ok by simp
qed

section \<open>Properties\<close>



text \<open>
  The chain of a finished sprint run creates a deploy only behind every gate: the run is DONE, the
  pull request is one of the run's in the product's own repository, enabling the merge succeeded
  at the head the forge reported, the product is configured and has no unresolved failure, and
  the one new job deploys exactly that pull request at that head.
\<close>

theorem sprint_batch_deploy_gated:
  assumes "w' = maybeAutoDeploySprintBatchPr env jobId user q runId w"
    and "jobs (w_db w') \<noteq> jobs (w_db w)"
  shows "\<exists>r prJob url i sha n msg. find_run runId (w_db w) = Some r \<and> r_status r = RUN_DONE \<and>
    prJob \<in> set (jobs (w_db w)) \<and> j_sprint_run_id prJob = Some runId \<and> j_pr_url prJob = Some url \<and>
    s_pr_state env url = Some i \<and> pi_head_sha i = Some sha \<and>
    env_auto_merge (s_effects env) url sha = Some (Merge_ok msg) \<and>
    readDeployEligibility q (w_db w) = Eligible \<and>
    jobs (w_db w') = jobs (w_db w) @ [n] \<and> j_kind n = DEPLOY \<and> j_pr_url n = Some url \<and> j_head_sha n = Some sha"
proof -
  have eff: "w_db (fst (run_effects env [ENABLE_AUTO_MERGE u h] w)) = w_db w \<and>
      snd (run_effects env [ENABLE_AUTO_MERGE u h] w) =
        (case env_auto_merge (s_effects env) u h of None \<Rightarrow> [] | Some out \<Rightarrow> [out])" for u h
    by (simp add: run_effects_def executeEffects_def executeEffect_def Let_def split: option.split)
  obtain r where r: "find_run runId (w_db w) = Some r" "r_status r = RUN_DONE"
    using assms by (auto simp: maybeAutoDeploySprintBatchPr_def Let_def split: if_splits)
  obtain prJob where pr: "batch_pr_job q runId (w_db w) = Some prJob"
    using assms r by (cases "batch_pr_job q runId (w_db w)") (simp_all add: maybeAutoDeploySprintBatchPr_def Let_def)
  obtain url where url: "j_pr_url prJob = Some url" "url \<noteq> []"
    using assms r pr by (cases "j_pr_url prJob") (auto simp: maybeAutoDeploySprintBatchPr_def Let_def split: if_splits)
  obtain i where i: "s_pr_state env url = Some i"
    using assms r pr url by (cases "s_pr_state env url") (simp_all add: maybeAutoDeploySprintBatchPr_def Let_def)
  obtain sha where sha: "pi_head_sha i = Some sha" "sha \<noteq> []"
    using assms r pr url i
    by (cases "pi_head_sha i") (auto simp: maybeAutoDeploySprintBatchPr_def Let_def split: if_splits)
  note known = r pr url i sha
  have el: "readDeployEligibility q (w_db w) = Eligible"
    using assms known
    by (cases "readDeployEligibility q (w_db w)") (simp_all add: maybeAutoDeploySprintBatchPr_def Let_def)
  obtain w1 outs where ro: "run_effects env [ENABLE_AUTO_MERGE url sha] w = (w1, outs)" by fastforce
  then have w1: "w_db w1 = w_db w"
    and outs: "outs = (case env_auto_merge (s_effects env) url sha of None \<Rightarrow> [] | Some out \<Rightarrow> [out])"
    using eff [of url sha] by simp_all
  have "\<exists>msg. env_auto_merge (s_effects env) url sha = Some (Merge_ok msg)"
  proof (rule ccontr)
    assume "\<not> ?thesis"
    then have "\<not> list_ex (\<lambda>out. case out of Merge_ok _ \<Rightarrow> True | Merge_failed _ _ \<Rightarrow> False) outs"
      by (auto simp: outs split: option.split auto_merge.split)
    then show False using assms known el ro w1 by (simp add: maybeAutoDeploySprintBatchPr_def Let_def)
  qed
  then obtain msg where msg: "env_auto_merge (s_effects env) url sha = Some (Merge_ok msg)" by blast
  then have "w_db w' = w_db (fst (maybeEnqueueDeployJob env jobId user q url sha w1))"
    using assms known el ro outs
    by (simp add: maybeAutoDeploySprintBatchPr_def split_beta Let_def)
  then obtain n where "n = auto_deploy_job env (w_db w1) jobId user q url sha" "w_db w' = insert_job n (w_db w1)"
    using assms(2) w1 by (cases rule: enqueue_cases [of env jobId user q url sha w1]) simp_all
  then have "jobs (w_db w') = jobs (w_db w) @ [n]" "j_kind n = DEPLOY" "j_pr_url n = Some url" "j_head_sha n = Some sha"
    using w1 by simp_all
  moreover have "prJob \<in> set (jobs (w_db w))" "j_sprint_run_id prJob = Some runId"
    using first_by_Some [OF pr [unfolded batch_pr_job_def Let_def]] by simp_all
  ultimately show ?thesis using known el msg by blast
qed

section \<open>Witnesses\<close>

definition deploying_db :: db where
  "deploying_db = sample_db\<lparr>
     products := [sample_product\<lparr>pr_auto_deploy := True, pr_deploy_flow := Some ''flow''\<rparr>],
     runs := [sample_run\<lparr>r_status := RUN_DONE\<rparr>],
     jobs := [sample_job\<lparr>j_sprint_run_id := Some ''r1'', j_status := J_DONE, j_pr_url := Some ''https://g/o/r/pulls/7''\<rparr>,
       (new_job ''d1'' 1 ''u1'' ''p1'' DEPLOY)\<lparr>j_orchestration_key := Some ''k1'', j_status := J_RUNNING\<rparr>,
       (new_job ''d2'' 2 ''u1'' ''p1'' DEPLOY)\<lparr>j_orchestration_key := Some ''k2''\<rparr>]\<rparr>"

lemma deploying_queue_ok: "deploy_queue_ok deploying_db"
  by code_simp



lemma sprint_batch_deploy_gated_witness:
  "\<exists>n. jobs (w_db (maybeAutoDeploySprintBatchPr sample_svc ''j1'' ''u1'' ''p1'' ''r1'' (empty_world deploying_db))) =
     jobs deploying_db @ [n] \<and> j_head_sha n = Some ''abc''"
proof -
  have "length (jobs (w_db (maybeAutoDeploySprintBatchPr sample_svc ''j1'' ''u1'' ''p1'' ''r1'' (empty_world deploying_db)))) = 4"
    "length (jobs deploying_db) = 3"
    by code_simp+
  then have "jobs (w_db (maybeAutoDeploySprintBatchPr sample_svc ''j1'' ''u1'' ''p1'' ''r1'' (empty_world deploying_db))) \<noteq>
      jobs (w_db (empty_world deploying_db))" by auto
  moreover have "s_pr_state sample_svc u = Some i \<Longrightarrow> pi_head_sha i = Some ''abc''" for u i
    by (auto simp: sample_svc_def sample_pr_def)
  ultimately show ?thesis using sprint_batch_deploy_gated [OF refl] by fastforce
qed

end
