(* ===== verification/Job_Delivery.thy ===== *)
theory Job_Delivery
  imports Deploy_Jobs Repo_Roots
begin

text \<open>
  How the work of a finished job leaves its worktree (\<open>src/src/tools/update-job-status.ts\<close>): the
  push that decides whether done becomes DONE or FAILED (\<open>prepareDoneUpdate\<close>), the pull request
  that a job opens or shares with its siblings (\<open>firstOpenPrUrl\<close>, \<open>maybeCreateAutoPr\<close>,
  \<open>maybeCreateSprintBatchPr\<close>), the safety push of a failed job, and the removal of the worktree,
  at once or deferred until the agent has exited.
\<close>

section \<open>The push of a done job\<close>

record done_plan =
  dp_done :: bool
  dp_pushed_at :: "time option"
  dp_branch :: "string option"
  dp_error :: "string option"
  dp_skip_cleanup :: bool
  dp_head_sha :: "string option"

definition job_branch_fallback :: "id \<Rightarrow> string" where
  "job_branch_fallback jobId = ''feat/job-'' @ short_id jobId"

definition done_branch :: "id \<Rightarrow> string option \<Rightarrow> db \<Rightarrow> string" where
  "done_branch jobId branch d =
     (let resolved = (if truthy branch then branch
          else case find_job jobId d of None \<Rightarrow> None | Some j \<Rightarrow> j_branch j)
      in or_else resolved (job_branch_fallback jobId))"

definition push_error :: "string \<Rightarrow> string \<Rightarrow> string" where
  "push_error reason stderr = ''push failed ('' @ reason @ ''): '' @ slice_to 200 stderr"

definition done_plan_of :: "svc_env \<Rightarrow> id \<Rightarrow> string \<Rightarrow> push_outcome \<Rightarrow> done_plan" where
  "done_plan_of env jobId branchName result = (case result of
     Push_untrusted message \<Rightarrow>
       \<lparr>dp_done = False, dp_pushed_at = None, dp_branch = None, dp_error = Some message,
        dp_skip_cleanup = True, dp_head_sha = None\<rparr>
   | Pushed \<Rightarrow>
       \<lparr>dp_done = True, dp_pushed_at = Some (s_now env), dp_branch = Some branchName, dp_error = None,
        dp_skip_cleanup = False, dp_head_sha = s_head env jobId\<rparr>
   | Push_no_changes \<Rightarrow>
       \<lparr>dp_done = True, dp_pushed_at = None, dp_branch = None, dp_error = None,
        dp_skip_cleanup = False, dp_head_sha = None\<rparr>
   | Push_failed reason stderr \<Rightarrow>
       \<lparr>dp_done = False, dp_pushed_at = None, dp_branch = None, dp_error = Some (push_error reason stderr),
        dp_skip_cleanup = True, dp_head_sha = None\<rparr>)"

definition prepareDoneUpdate ::
  "svc_env \<Rightarrow> id \<Rightarrow> string option \<Rightarrow> world \<Rightarrow> managed_error + (world \<times> done_plan)" where
  "prepareDoneUpdate env jobId branch w =
     and_then (assertUnmanagedJobId jobId (w_db w)) (\<lambda>_.
       (let branchName = done_branch jobId branch (w_db w)
        in Inr (call (Git_push jobId branchName) w,
                done_plan_of env jobId branchName (s_push env jobId branchName))))"

section \<open>Pull requests\<close>

text \<open>The loop over the candidates; \<open>seen\<close> is the set of addresses already asked for.\<close>

fun first_open :: "svc_env \<Rightarrow> string list \<Rightarrow> string option list \<Rightarrow> string option" where
  "first_open env seen [] = None"
| "first_open env seen (u # us) =
     (if \<not> truthy u \<or> the u \<in> set seen then first_open env seen us
      else case s_pr_state env (the u) of
          None \<Rightarrow> u
        | Some info \<Rightarrow> if pi_state info = PR_OPEN then u else first_open env (the u # seen) us)"

definition firstOpenPrUrl :: "svc_env \<Rightarrow> string option list \<Rightarrow> string option" where
  "firstOpenPrUrl env urls = first_open env [] urls"

definition nl :: string where "nl = [CHR 0x0A]"

definition with_summary :: "string option \<Rightarrow> string \<Rightarrow> string" where
  "with_summary summary note =
     (if truthy summary then the summary @ nl @ nl @ ''---'' @ nl @ nl @ note else note)"

definition sprint_title :: "string \<Rightarrow> string" where
  "sprint_title goal = slice_to 200 (''Sprint: '' @ goal)"

definition sprint_run_note :: "id \<Rightarrow> string" where
  "sprint_run_note runId = ''*Draft PR voor sprint-run `'' @ runId @
     ''`. Wordt ready-for-review zodra alle stories DONE zijn (auto-merge bewust uit voor sprint-mode).*''"

definition sprint_batch_note :: "id \<Rightarrow> string" where
  "sprint_batch_note runId = ''*Draft PR voor sprint-batch `'' @ runId @
     ''` (single-session). Wordt ready-for-review zodra alle tasks DONE zijn.*''"

definition story_body :: "string option \<Rightarrow> string" where
  "story_body summary =
     (if truthy summary
      then the summary @ nl @ nl @ ''---'' @ nl @ nl @
        ''*Auto-generated by Scrum4Me agent (first task in story; PR-body will accumulate as sibling tasks complete).*''
      else ''*Auto-generated by Scrum4Me agent (first task in story).*'')"

definition story_pr_title :: "story \<Rightarrow> string" where
  "story_pr_title st = (if truthy (st_code st) then the (st_code st) @ '': '' @ st_title st else st_title st)"

definition create_pr ::
  "svc_env \<Rightarrow> id \<Rightarrow> string \<Rightarrow> string \<Rightarrow> string \<Rightarrow> bool \<Rightarrow> world \<Rightarrow> world \<times> string option" where
  "create_pr env jobId branch title body draft w =
     (call (Pr_created jobId branch title body draft) w, s_create_pr env jobId branch title body draft)"

text \<open>The pull requests of other jobs that satisfy \<open>p\<close>, in the same repository bucket, oldest first.\<close>

definition sibling_urls :: "(job \<Rightarrow> bool) \<Rightarrow> id \<Rightarrow> string option \<Rightarrow> string option \<Rightarrow> db \<Rightarrow> string option list" where
  "sibling_urls p jobId productUrl repoKey d =
     map j_pr_url (filter (\<lambda>s. repoBucketKey (task_repo s d) productUrl = repoKey)
       (sort_key j_created_at (filter (\<lambda>s. p s \<and> j_pr_url s \<noteq> None \<and> j_id s \<noteq> jobId) (jobs d))))"

definition run_of_job :: "job option \<Rightarrow> db \<Rightarrow> sprint_run option" where
  "run_of_job job d = (case job of
     None \<Rightarrow> None | Some j \<Rightarrow> (case j_sprint_run_id j of None \<Rightarrow> None | Some r \<Rightarrow> find_run r d))"

definition goal_of_run :: "sprint_run \<Rightarrow> db \<Rightarrow> string" where
  "goal_of_run r d = (case find_sprint (r_sprint_id r) d of None \<Rightarrow> [] | Some sp \<Rightarrow> sp_goal sp)"

definition story_of_task :: "id \<Rightarrow> db \<Rightarrow> (task \<times> story) option" where
  "story_of_task taskId d = (case find_task taskId d of
     None \<Rightarrow> None
   | Some t \<Rightarrow> (case find_story (t_story_id t) d of None \<Rightarrow> None | Some st \<Rightarrow> Some (t, st)))"

definition story_mode ::
  "svc_env \<Rightarrow> id \<Rightarrow> product \<Rightarrow> story \<Rightarrow> string \<Rightarrow> string option \<Rightarrow> string option \<Rightarrow> world \<Rightarrow> world \<times> string option" where
  "story_mode env jobId product st branchName summary repoKey w =
     (let reuse = firstOpenPrUrl env (sibling_urls (\<lambda>s. story_of_job (w_db w) s = Some (st_id st))
            jobId (pr_repo_url product) repoKey (w_db w))
      in if truthy reuse then (w, reuse)
         else create_pr env jobId branchName (story_pr_title st) (story_body summary) False w)"

definition maybeCreateAutoPr ::
  "svc_env \<Rightarrow> id \<Rightarrow> id \<Rightarrow> id \<Rightarrow> string \<Rightarrow> string option \<Rightarrow> world \<Rightarrow> managed_error + (world \<times> string option)" where
  "maybeCreateAutoPr env jobId productId taskId branchName summary w =
     (let d = w_db w in
      case find_product productId d of
        None \<Rightarrow> Inr (w, None)
      | Some product \<Rightarrow>
          (if \<not> pr_auto_pr product then Inr (w, None)
           else and_then (assertUnmanagedJob (find_job jobId d) d) (\<lambda>_.
             case story_of_task taskId d of
               None \<Rightarrow> Inr (w, None)
             | Some (t, st) \<Rightarrow>
                 (let thisRepoKey = repoBucketKey (t_repo_url t) (pr_repo_url product);
                      run = run_of_job (find_job jobId d) d
                  in case run of
                       Some r \<Rightarrow>
                         (if r_pr_strategy r = BATCH_SPRINT then
                            (let reuse = firstOpenPrUrl env (sibling_urls (\<lambda>s. j_sprint_run_id s = Some (r_id r))
                                   jobId (pr_repo_url product) thisRepoKey d)
                             in if truthy reuse then Inr (w, reuse)
                                else Inr (create_pr env jobId branchName (sprint_title (goal_of_run r d))
                                       (with_summary summary (sprint_run_note (r_id r))) True w))
                          else Inr (story_mode env jobId product st branchName summary thisRepoKey w))
                     | None \<Rightarrow> Inr (story_mode env jobId product st branchName summary thisRepoKey w)))))"

definition maybeCreateSprintBatchPr ::
  "svc_env \<Rightarrow> id \<Rightarrow> id \<Rightarrow> string \<Rightarrow> string option \<Rightarrow> world \<Rightarrow> managed_error + (world \<times> string option)" where
  "maybeCreateSprintBatchPr env jobId productId branchName summary w =
     (let d = w_db w in
      case find_product productId d of
        None \<Rightarrow> Inr (w, None)
      | Some product \<Rightarrow>
          (if \<not> pr_auto_pr product then Inr (w, None)
           else and_then (assertUnmanagedJob (find_job jobId d) d) (\<lambda>_.
             case run_of_job (find_job jobId d) d of
               None \<Rightarrow> Inr (w, None)
             | Some r \<Rightarrow>
                 (let prevPr = (if truthy (r_previous_run_id r)
                        then find (\<lambda>s. j_sprint_run_id s = r_previous_run_id r \<and> j_pr_url s \<noteq> None) (jobs d)
                        else None);
                      prevReuse = (if truthy (r_previous_run_id r)
                        then firstOpenPrUrl env [case prevPr of None \<Rightarrow> None | Some s \<Rightarrow> j_pr_url s] else None)
                  in if truthy prevReuse then Inr (w, prevReuse)
                     else Inr (create_pr env jobId branchName (sprint_title (goal_of_run r d))
                            (with_summary summary (sprint_batch_note (r_id r))) True w)))))"

section \<open>The worktree\<close>

definition active_siblings :: "id \<Rightarrow> db \<Rightarrow> nat" where
  "active_siblings jobId d = (case find_job jobId d of
     None \<Rightarrow> 0
   | Some j \<Rightarrow>
       (let repoKey = task_repo j d;
            sibling_task = (\<lambda>s. case j_task_id s of None \<Rightarrow> False
              | Some t \<Rightarrow> (case find_task t d of None \<Rightarrow> False | Some x \<Rightarrow> t_repo_url x = repoKey));
            has_task = (case j_task_id j of None \<Rightarrow> False | Some t \<Rightarrow> find_task t d \<noteq> None)
        in if map_option r_pr_strategy (run_of_job (Some j) d) = Some BATCH_SPRINT then
             count_where (\<lambda>s. j_sprint_run_id s = j_sprint_run_id j \<and> (has_task \<longrightarrow> sibling_task s) \<and>
               active (j_status s) \<and> j_id s \<noteq> jobId) (jobs d)
           else if has_task then
             count_where (\<lambda>s. story_of_job d s = story_of_job d j \<and> sibling_task s \<and>
               active (j_status s) \<and> j_id s \<noteq> jobId) (jobs d)
           else 0))"

definition keep_branch :: "update_status \<Rightarrow> string option \<Rightarrow> sprint_run option \<Rightarrow> bool" where
  "keep_branch status branch run \<longleftrightarrow>
     (status = US_DONE \<and> branch \<noteq> None) \<or>
     (status = US_SKIPPED \<and> map_option r_pr_strategy run = Some BATCH_SPRINT)"

text \<open>
  A root that cannot be resolved, also because the lookup threw, is \<open>None\<close>: every caller turns
  both into a warning.
\<close>

definition cleanupWorktreeForTerminalStatus ::
  "svc_env \<Rightarrow> id \<Rightarrow> id \<Rightarrow> update_status \<Rightarrow> string option \<Rightarrow> world \<Rightarrow> managed_error + world" where
  "cleanupWorktreeForTerminalStatus env productId jobId status branch w =
     (let d = w_db w; job = find_job jobId d
      in and_then (assertUnmanagedJobRow job) (\<lambda>_.
           case s_repo_root env productId (case job of None \<Rightarrow> None | Some j \<Rightarrow> task_repo j d) of
             None \<Rightarrow> Inr w
           | Some repoRoot \<Rightarrow>
               (if repoRoot = [] then Inr w
                else if active_siblings jobId d > 0 then Inr w
                else Inr (call (Worktree_removed repoRoot jobId (keep_branch status branch (run_of_job job d))) w))))"

definition terminalStatusForCleanup :: "job_status \<Rightarrow> update_status option" where
  "terminalStatusForCleanup s =
     (if s = J_DONE then Some US_DONE else if s = J_FAILED then Some US_FAILED
      else if s = J_SKIPPED then Some US_SKIPPED else None)"

text \<open>
  The marker files of \<open>src/src/git/worktree-cleanup-queue.ts\<close> are the list \<open>w_cleanup_pending\<close>. The
  clean-up itself never fails the caller: its refusal is caught and the marker cleared.
\<close>

definition markWorktreeCleanupPending :: "id \<Rightarrow> world \<Rightarrow> world" where
  "markWorktreeCleanupPending jobId w =
     (if jobId \<in> set (w_cleanup_pending w) then w
      else w\<lparr>w_cleanup_pending := w_cleanup_pending w @ [jobId]\<rparr>)"

definition isWorktreeCleanupPending :: "id \<Rightarrow> world \<Rightarrow> bool" where
  "isWorktreeCleanupPending jobId w \<longleftrightarrow> jobId \<in> set (w_cleanup_pending w)"

definition clearWorktreeCleanupPending :: "id \<Rightarrow> world \<Rightarrow> world" where
  "clearWorktreeCleanupPending jobId w =
     w\<lparr>w_cleanup_pending := filter (\<lambda>k. k \<noteq> jobId) (w_cleanup_pending w)\<rparr>"

definition runDeferredWorktreeCleanup :: "svc_env \<Rightarrow> id \<Rightarrow> world \<Rightarrow> managed_error + world" where
  "runDeferredWorktreeCleanup env jobId w =
     and_then (assertUnmanagedJobCleanup (s_marker_read env jobId) jobId (w_db w)) (\<lambda>_.
       if \<not> isWorktreeCleanupPending jobId w then Inr w
       else (let w1 = (case find_job jobId (w_db w) of
                 None \<Rightarrow> w
               | Some j \<Rightarrow>
                   (case terminalStatusForCleanup (j_status j) of
                      None \<Rightarrow> w
                    | Some status \<Rightarrow>
                        (if j_product_id j = [] then w
                         else case cleanupWorktreeForTerminalStatus env (j_product_id j) jobId status (j_branch j) w of
                             Inl _ \<Rightarrow> w | Inr w' \<Rightarrow> w')))
             in Inr (clearWorktreeCleanupPending jobId w1)))"

definition backupPushOnFailure :: "svc_env \<Rightarrow> id \<Rightarrow> string option \<Rightarrow> world \<Rightarrow> managed_error + world" where
  "backupPushOnFailure env jobId branch w =
     and_then (assertUnmanagedJobCleanup (s_marker_read env jobId) jobId (w_db w)) (\<lambda>_.
       if \<not> truthy branch then Inr w else Inr (call (Backup_push jobId (the branch)) w))"

section \<open>What the loop over candidates finds\<close>

definition usable :: "svc_env \<Rightarrow> string \<Rightarrow> bool" where
  "usable env u \<longleftrightarrow> (case s_pr_state env u of None \<Rightarrow> True | Some info \<Rightarrow> pi_state info = PR_OPEN)"

lemma first_open_sound:
  "first_open env seen us = Some u \<Longrightarrow> u \<noteq> [] \<and> Some u \<in> set us \<and> usable env u"
proof (induction us arbitrary: seen)
  case (Cons v us)
  then show ?case
    by (cases v) (auto simp: usable_def split: if_splits option.splits)
qed simp

lemma first_open_complete:
  "Some u \<in> set us \<Longrightarrow> u \<noteq> [] \<Longrightarrow> usable env u \<Longrightarrow> \<forall>v \<in> set seen. \<not> usable env v \<Longrightarrow> first_open env seen us \<noteq> None"
proof (induction us arbitrary: seen)
  case (Cons v us)
  show ?case
  proof (cases "\<not> truthy v \<or> the v \<in> set seen")
    case True
    then have "v \<noteq> Some u" using Cons.prems by auto
    then show ?thesis using True Cons by simp
  next
    case False
    then obtain x where v: "v = Some x" "x \<noteq> []" by (auto elim: truthyE)
    show ?thesis
    proof (cases "usable env x")
      case True
      then show ?thesis using False v by (auto simp: usable_def split: option.splits)
    next
      case unusable: False
      then obtain info where "s_pr_state env x = Some info" "pi_state info \<noteq> PR_OPEN"
        by (auto simp: usable_def split: option.splits)
      moreover have "Some u \<in> set us" using Cons.prems(1,3) v unusable by auto
      then have "first_open env (x # seen) us \<noteq> None"
        using Cons.IH [of "x # seen"] Cons.prems unusable by simp
      ultimately show ?thesis using False v by simp
    qed
  qed
qed simp

lemma firstOpenPrUrl_iff:
  "firstOpenPrUrl env us = None \<longleftrightarrow> (\<forall>u. Some u \<in> set us \<longrightarrow> u = [] \<or> \<not> usable env u)"
proof
  assume none: "firstOpenPrUrl env us = None"
  then have "first_open env [] us = None" by (simp add: firstOpenPrUrl_def)
  then show "\<forall>u. Some u \<in> set us \<longrightarrow> u = [] \<or> \<not> usable env u"
    using first_open_complete [of _ us env "[]"] by auto
next
  assume all: "\<forall>u. Some u \<in> set us \<longrightarrow> u = [] \<or> \<not> usable env u"
  show "firstOpenPrUrl env us = None"
    using all first_open_sound [of env "[]" us] by (cases "first_open env [] us") (auto simp: firstOpenPrUrl_def)
qed

lemma reuse_found:
  assumes "s \<in> set (jobs d)" and "p s" and "j_id s \<noteq> k" and "j_pr_url s = Some url" and "url \<noteq> []"
    and "usable env url" and "repoBucketKey (task_repo s d) productUrl = key"
  obtains u where "firstOpenPrUrl env (sibling_urls p k productUrl key d) = Some u" "u \<noteq> []" "usable env u"
    "Some u \<in> set (sibling_urls p k productUrl key d)"
proof -
  have "Some url \<in> set (sibling_urls p k productUrl key d)"
    unfolding sibling_urls_def using assms by (auto simp: image_iff intro!: bexI [of _ s])
  then have "firstOpenPrUrl env (sibling_urls p k productUrl key d) \<noteq> None"
    using firstOpenPrUrl_iff assms(5,6) by blast
  then show thesis
    using that first_open_sound [of env "[]" "sibling_urls p k productUrl key d"] by (auto simp: firstOpenPrUrl_def)
qed

text \<open>The jobs that share a pull request with job \<open>j\<close>: those of the batch run, or of the story.\<close>

definition shares_pr :: "job \<Rightarrow> story \<Rightarrow> db \<Rightarrow> job \<Rightarrow> bool" where
  "shares_pr j st d s \<longleftrightarrow> (case run_of_job (Some j) d of
     Some r \<Rightarrow> if r_pr_strategy r = BATCH_SPRINT then j_sprint_run_id s = Some (r_id r)
               else story_of_job d s = Some (st_id st)
   | None \<Rightarrow> story_of_job d s = Some (st_id st))"

section \<open>Properties\<close>

text \<open>
  Jobs of one story (or of one batch run) that target the same repository stack on one pull
  request: as long as one of theirs is open, or cannot be looked up, another job opens no new one
  but reuses a pull request of these jobs that is not known to be closed.
\<close>

theorem auto_pr_shared:
  assumes "find_product q (w_db w) = Some product" and "pr_auto_pr product"
    and "find_job k (w_db w) = Some j" and "\<not> isManagedJob j (w_db w)"
    and "story_of_task t (w_db w) = Some (tk, st)"
    and "s \<in> set (jobs (w_db w))" and "j_id s \<noteq> k" and "shares_pr j st (w_db w) s"
    and "repoBucketKey (task_repo s (w_db w)) (pr_repo_url product) = repoBucketKey (t_repo_url tk) (pr_repo_url product)"
    and "j_pr_url s = Some url" and "url \<noteq> []" and "usable env url"
  shows "\<exists>u s'. maybeCreateAutoPr env k q t branch summary w = Inr (w, Some u) \<and> usable env u \<and>
    s' \<in> set (jobs (w_db w)) \<and> shares_pr j st (w_db w) s' \<and> j_pr_url s' = Some u"
proof -
  let ?d = "w_db w" and ?key = "repoBucketKey (t_repo_url tk) (pr_repo_url product)"
  have un: "assertUnmanagedJob (Some j) ?d = Inr ()"
    using assms(4) by (simp add: assertUnmanagedJob_def)
  have found: "\<exists>u s'. firstOpenPrUrl env (sibling_urls (shares_pr j st ?d) k (pr_repo_url product) ?key ?d) = Some u \<and>
      u \<noteq> [] \<and> usable env u \<and> s' \<in> set (jobs ?d) \<and> shares_pr j st ?d s' \<and> j_pr_url s' = Some u"
  proof -
    obtain u where u: "firstOpenPrUrl env (sibling_urls (shares_pr j st ?d) k (pr_repo_url product) ?key ?d) = Some u"
        "u \<noteq> []" "usable env u" "Some u \<in> set (sibling_urls (shares_pr j st ?d) k (pr_repo_url product) ?key ?d)"
      by (rule reuse_found [where p = "shares_pr j st ?d", OF assms(6,8,7,10,11,12,9)])
    moreover have "\<exists>s' \<in> set (jobs ?d). shares_pr j st ?d s' \<and> j_pr_url s' = Some u"
      using u(4) by (auto simp: sibling_urls_def)
    ultimately show ?thesis by blast
  qed
  show ?thesis
  proof (cases "map_option r_pr_strategy (run_of_job (Some j) ?d) = Some BATCH_SPRINT")
    case True
    then obtain r where r: "run_of_job (Some j) ?d = Some r" "r_pr_strategy r = BATCH_SPRINT" by auto
    then have "shares_pr j st ?d = (\<lambda>s. j_sprint_run_id s = Some (r_id r))"
      by (simp add: shares_pr_def fun_eq_iff)
    then show ?thesis
      using found assms(1,2,3,5) un r by (fastforce simp: maybeCreateAutoPr_def Let_def)
  next
    case False
    then have "shares_pr j st ?d = (\<lambda>s. story_of_job ?d s = Some (st_id st))"
      by (auto simp: shares_pr_def fun_eq_iff split: option.splits)
    then have "\<exists>u s'. story_mode env k product st branch summary ?key w = (w, Some u) \<and>
        usable env u \<and> s' \<in> set (jobs ?d) \<and> shares_pr j st ?d s' \<and> j_pr_url s' = Some u"
      using found by (fastforce simp: story_mode_def)
    moreover have "maybeCreateAutoPr env k q t branch summary w = Inr (story_mode env k product st branch summary ?key w)"
      using False assms(1,2,3,5) un
      by (cases "run_of_job (Some j) ?d") (simp_all add: maybeCreateAutoPr_def Let_def)
    ultimately show ?thesis by auto
  qed
qed

text \<open>
  A deferred clean-up happens once and harms nobody: it clears its marker, changes no row, and
  removes at most the job's own worktree, only if the marker was there, the job has ended, its
  root is known and no active sibling shares the branch; running it again does nothing.
\<close>

theorem deferred_cleanup_once:
  assumes "runDeferredWorktreeCleanup env k w = Inr w'"
  shows "\<not> isWorktreeCleanupPending k w' \<and> w_db w' = w_db w \<and>
    runDeferredWorktreeCleanup env k w' = Inr w' \<and>
    (w_calls w' = w_calls w \<or>
     (\<exists>root keep j status. w_calls w' = w_calls w @ [Worktree_removed root k keep] \<and>
        isWorktreeCleanupPending k w \<and> find_job k (w_db w) = Some j \<and> \<not> isManagedJobRow j \<and>
        terminalStatusForCleanup (j_status j) = Some status \<and> active_siblings k (w_db w) = 0 \<and>
        s_repo_root env (j_product_id j) (task_repo j (w_db w)) = Some root \<and>
        keep = keep_branch status (j_branch j) (run_of_job (Some j) (w_db w))))"
proof -
  have guard: "assertUnmanagedJobCleanup (s_marker_read env k) k (w_db w) = Inr ()"
    using assms by (cases "assertUnmanagedJobCleanup (s_marker_read env k) k (w_db w)")
      (simp_all add: runDeferredWorktreeCleanup_def)
  have step: "cleanupWorktreeForTerminalStatus env (j_product_id j) k status (j_branch j) w = Inr x \<Longrightarrow>
      find_job k (w_db w) = Some j \<Longrightarrow>
      x = w \<or> (\<exists>root. x = call (Worktree_removed root k (keep_branch status (j_branch j) (run_of_job (Some j) (w_db w)))) w \<and>
         \<not> isManagedJobRow j \<and> active_siblings k (w_db w) = 0 \<and>
         s_repo_root env (j_product_id j) (task_repo j (w_db w)) = Some root)" for j status x
    by (auto simp: cleanupWorktreeForTerminalStatus_def Let_def and_then_Inr_iff assertUnmanagedJobRow_def
        split: option.splits if_splits)
  show ?thesis
  proof (cases "isWorktreeCleanupPending k w")
    case False
    then show ?thesis using assms guard by (simp add: runDeferredWorktreeCleanup_def)
  next
    case True
    obtain w1 where w': "w' = clearWorktreeCleanupPending k w1"
      and w1: "w1 = w \<or> (\<exists>root j status. w1 = call (Worktree_removed root k (keep_branch status (j_branch j) (run_of_job (Some j) (w_db w)))) w \<and>
         find_job k (w_db w) = Some j \<and> \<not> isManagedJobRow j \<and> terminalStatusForCleanup (j_status j) = Some status \<and>
         active_siblings k (w_db w) = 0 \<and> s_repo_root env (j_product_id j) (task_repo j (w_db w)) = Some root)"
      using assms True guard step
      by (fastforce simp: runDeferredWorktreeCleanup_def Let_def split: option.splits if_splits sum.splits)
    have "w_db w' = w_db w" using w' w1 by (auto simp: clearWorktreeCleanupPending_def)
    moreover have "\<not> isWorktreeCleanupPending k w'"
      by (simp add: w' clearWorktreeCleanupPending_def isWorktreeCleanupPending_def)
    moreover have "w_calls w' = w_calls w1" by (simp add: w' clearWorktreeCleanupPending_def)
    ultimately show ?thesis
      using w1 True guard by (auto simp: runDeferredWorktreeCleanup_def)
  qed
qed

section \<open>Witnesses\<close>

definition delivering_db :: db where
  "delivering_db = sample_db\<lparr>jobs := [sample_job\<lparr>j_status := J_DONE\<rparr>,
     sample_job\<lparr>j_id := ''j3'', j_status := J_DONE, j_pr_url := Some ''https://g/o/r/pulls/7''\<rparr>]\<rparr>"

definition delivering_world :: world where
  "delivering_world = (empty_world delivering_db)\<lparr>w_cleanup_pending := [''j1'']\<rparr>"

lemma delivering_facts:
  "w_db delivering_world = delivering_db"
  "find_product ''p1'' delivering_db = Some sample_product"
  "find_job ''j1'' delivering_db = Some (sample_job\<lparr>j_status := J_DONE\<rparr>)"
  "\<not> isManagedJob (sample_job\<lparr>j_status := J_DONE\<rparr>) delivering_db"
  "story_of_task ''t1'' delivering_db = Some (sample_task, sample_story)"
  "sample_job\<lparr>j_id := ''j3'', j_status := J_DONE, j_pr_url := Some ''https://g/o/r/pulls/7''\<rparr> \<in> set (jobs delivering_db)"
  "shares_pr (sample_job\<lparr>j_status := J_DONE\<rparr>) sample_story delivering_db
     (sample_job\<lparr>j_id := ''j3'', j_status := J_DONE, j_pr_url := Some ''https://g/o/r/pulls/7''\<rparr>)"
  "repoBucketKey (task_repo (sample_job\<lparr>j_id := ''j3'', j_status := J_DONE, j_pr_url := Some ''https://g/o/r/pulls/7''\<rparr>) delivering_db)
     (pr_repo_url sample_product) = repoBucketKey (t_repo_url sample_task) (pr_repo_url sample_product)"
  "usable sample_svc ''https://g/o/r/pulls/7''"
  by code_simp+

lemma auto_pr_shared_witness:
  "\<exists>u. maybeCreateAutoPr sample_svc ''j1'' ''p1'' ''t1'' ''b'' None delivering_world = Inr (delivering_world, Some u)"
proof -
  let ?s = "sample_job\<lparr>j_id := ''j3'', j_status := J_DONE, j_pr_url := Some ''https://g/o/r/pulls/7''\<rparr>"
  note f = delivering_facts(2-) [folded delivering_facts(1)]
  have auto: "pr_auto_pr sample_product" "j_id ?s \<noteq> ''j1''" "j_pr_url ?s = Some ''https://g/o/r/pulls/7''"
    "''https://g/o/r/pulls/7'' \<noteq> []"
    by (simp_all add: sample_product_def)
  show ?thesis
    using auto_pr_shared [OF f(1) auto(1) f(2) f(3) f(4) f(5) auto(2) f(6) f(7) auto(3) auto(4), of sample_svc] f(8)
    by blast
qed

lemma deferred_cleanup_once_witness:
  "\<exists>w'. runDeferredWorktreeCleanup sample_svc ''j1'' delivering_world = Inr w' \<and> \<not> isWorktreeCleanupPending ''j1'' w'"
proof -
  have "\<not> isl (runDeferredWorktreeCleanup sample_svc ''j1'' delivering_world)" by code_simp
  then obtain w' where "runDeferredWorktreeCleanup sample_svc ''j1'' delivering_world = Inr w'"
    by (cases "runDeferredWorktreeCleanup sample_svc ''j1'' delivering_world") simp_all
  then show ?thesis using deferred_cleanup_once by blast
qed

end
