(* ===== verification/Job_Endings.thy ===== *)
theory Job_Endings
  imports Deploy_Jobs Verify_Gate
begin

text \<open>
  The transitions of single jobs and runs in \<open>src/src/tools/update-job-status.ts\<close> that stand on
  their own: the lifecycle times (\<open>resolveJobTimestamps\<close>), the next action, the end of a docs
  audit (\<open>checkDocsAuditTerminal\<close>, \<open>applyDocsAuditTerminalUpdate\<close>), the transition of an agent
  chat with its answer (\<open>applyAgentChatTransition\<close>), and \<open>finalizeSprintRunOnDone\<close>.
\<close>

section \<open>Lifecycle times\<close>

definition is_terminal :: "update_status \<Rightarrow> bool" where
  "is_terminal s \<longleftrightarrow> s = US_DONE \<or> s = US_FAILED \<or> s = US_SKIPPED"

record timestamp_update =
  tu_claimed_at :: "time option"
  tu_started_at :: "time option"
  tu_finished_at :: "time option"

definition resolveJobTimestamps :: "update_status \<Rightarrow> time option \<Rightarrow> time option \<Rightarrow> time \<Rightarrow> timestamp_update" where
  "resolveJobTimestamps status claimed started now =
     \<lparr>tu_claimed_at = (if claimed = None then Some now else None),
      tu_started_at = (if started = None \<and> (status = US_RUNNING \<or> is_terminal status) then Some now else None),
      tu_finished_at = (if is_terminal status then Some now else None)\<rparr>"

definition write_timestamps :: "timestamp_update \<Rightarrow> job \<Rightarrow> job" where
  "write_timestamps u j = j\<lparr>j_claimed_at := write_opt (tu_claimed_at u) (j_claimed_at j),
     j_started_at := write_opt (tu_started_at u) (j_started_at j),
     j_finished_at := write_opt (tu_finished_at u) (j_finished_at j)\<rparr>"

definition DB_STATUS_MAP :: "update_status \<Rightarrow> job_status" where
  "DB_STATUS_MAP s = (case s of US_RUNNING \<Rightarrow> J_RUNNING | US_DONE \<Rightarrow> J_DONE | US_FAILED \<Rightarrow> J_FAILED | US_SKIPPED \<Rightarrow> J_SKIPPED)"

datatype next_action = Wait_for_job_again | Queue_empty | Idle

definition resolveNextAction :: "nat \<Rightarrow> update_status \<Rightarrow> next_action" where
  "resolveNextAction queueCount status =
     (if status = US_RUNNING then Idle else if queueCount > 0 then Wait_for_job_again else Queue_empty)"

section \<open>Docs audit\<close>

datatype docs_audit_error =
    Audit_source job_source
  | Audit_status
  | Audit_skip_reason
  | Audit_cursor
  | Audit_not_claimed

text \<open>\<open>s_parse_iso\<close> is \<open>new Date(s).getTime()\<close>, \<open>None\<close> for NaN.\<close>

definition checkDocsAuditTerminal ::
  "svc_env \<Rightarrow> update_status \<Rightarrow> job_source \<Rightarrow> string option \<Rightarrow> string option \<Rightarrow> bool \<Rightarrow> docs_audit_error option" where
  "checkDocsAuditTerminal env status source skipReason processedUntil capped =
     (if source \<noteq> SYSTEM \<and> source \<noteq> MANUAL then Some (Audit_source source)
      else if status \<noteq> US_DONE \<and> status \<noteq> US_FAILED \<and> status \<noteq> US_SKIPPED then Some Audit_status
      else if status = US_SKIPPED \<and> (\<not> truthy skipReason \<or> trim (the skipReason) = []) then Some Audit_skip_reason
      else if capped \<and> (\<not> truthy processedUntil \<or> s_parse_iso env (the processedUntil) = None) then Some Audit_cursor
      else None)"

definition audit_summary :: "svc_env \<Rightarrow> string option \<Rightarrow> string option \<Rightarrow> bool \<Rightarrow> string option" where
  "audit_summary env summary processedUntil capped =
     (if capped \<and> truthy processedUntil then
        (let marker = s_cursor env (or_else (s_parse_iso env (the processedUntil)) 0)
         in Some (if truthy summary then the summary @ [CHR 0x0A] @ marker else marker))
      else summary)"

definition audit_row :: "svc_env \<Rightarrow> update_status \<Rightarrow> string option \<Rightarrow> string option \<Rightarrow> job \<Rightarrow> job" where
  "audit_row env status finalSummary skipReason j =
     j\<lparr>j_status := terminal_of status, j_summary := write_opt finalSummary (j_summary j),
       j_error := write_opt (if status = US_SKIPPED then skipReason else None) (j_error j),
       j_finished_at := Some (s_now env)\<rparr>"

definition audit_guard :: "id \<Rightarrow> id option \<Rightarrow> job \<Rightarrow> bool" where
  "audit_guard jobId token j \<longleftrightarrow> j_id j = jobId \<and> j_kind j = DOCS_AUDIT \<and>
     j_claimed_by_token_id j = token \<and> claimed_or_running (j_status j)"

definition applyDocsAuditTerminalUpdate ::
  "svc_env \<Rightarrow> id \<Rightarrow> id option \<Rightarrow> update_status \<Rightarrow> job_source \<Rightarrow> string option \<Rightarrow> string option \<Rightarrow>
   string option \<Rightarrow> bool \<Rightarrow> db \<Rightarrow> db \<times> (docs_audit_error + job_status)" where
  "applyDocsAuditTerminalUpdate env jobId token status source summary skipReason processedUntil capped d =
     (case checkDocsAuditTerminal env status source skipReason processedUntil capped of
        Some e \<Rightarrow> (d, Inl e)
      | None \<Rightarrow>
          (if count_where (audit_guard jobId token) (jobs d) = 0 then (d, Inl Audit_not_claimed)
           else (notify_job jobId (update_jobs (audit_guard jobId token)
                   (audit_row env status (audit_summary env summary processedUntil capped) skipReason) d),
                 Inr (terminal_of status))))"

section \<open>Agent chat\<close>

datatype chat_error = Chat_not_found id | Chat_permission | Chat_cancelled | Chat_terminal job_status

definition upsert_cost :: "time \<Rightarrow> id \<Rightarrow> cost_row \<Rightarrow> cost_report list \<Rightarrow> cost_report list" where
  "upsert_cost now jobId row cs =
     (if list_ex (\<lambda>c. cp_job_id c = jobId) cs
      then update_where (\<lambda>c. cp_job_id c = jobId) (\<lambda>c. c\<lparr>cp_row := row, cp_reported_at := now\<rparr>) cs
      else cs @ [\<lparr>cp_job_id = jobId, cp_row = row, cp_reported_at = now\<rparr>])"

definition write_cost :: "time \<Rightarrow> id \<Rightarrow> cost_row option \<Rightarrow> world \<Rightarrow> world" where
  "write_cost now jobId report w = (case report of
     None \<Rightarrow> w | Some row \<Rightarrow> w\<lparr>w_costs := upsert_cost now jobId row (w_costs w)\<rparr>)"

definition chat_guard :: "id \<Rightarrow> id \<Rightarrow> update_status \<Rightarrow> job \<Rightarrow> bool" where
  "chat_guard jobId token status j \<longleftrightarrow> j_id j = jobId \<and> j_claimed_by_token_id j = Some token \<and>
     (if status = US_RUNNING then j_status j = J_CLAIMED else claimed_or_running (j_status j))"

text \<open>The answer: an assistant message in the chat of the job, if that chat still exists.\<close>

definition chat_of_job :: "id \<Rightarrow> world \<Rightarrow> id option" where
  "chat_of_job jobId w = (case find_by cl_job_id jobId (w_chat_links w) of
     None \<Rightarrow> None
   | Some l \<Rightarrow> (if truthy (cl_chat_id l) \<and> list_ex (\<lambda>c. Some (ac_id c) = cl_chat_id l) (w_chats w)
               then cl_chat_id l else None))"

definition post_answer :: "time \<Rightarrow> id \<Rightarrow> string \<Rightarrow> world \<Rightarrow> world" where
  "post_answer now jobId summary w = (case chat_of_job jobId w of
     None \<Rightarrow> w
   | Some chat \<Rightarrow> w\<lparr>
       w_chat_messages := w_chat_messages w @
         [\<lparr>am_chat_id = chat, am_role = Role_assistant, am_content = summary, am_job_id = jobId\<rparr>],
       w_chats := update_where (\<lambda>c. ac_id c = chat) (\<lambda>c. c\<lparr>ac_updated_at := now\<rparr>) (w_chats w)\<rparr>)"

definition applyAgentChatTransition ::
  "time \<Rightarrow> id \<Rightarrow> id \<Rightarrow> update_status \<Rightarrow> string option \<Rightarrow> (job \<Rightarrow> job) \<Rightarrow> cost_row option \<Rightarrow> world \<Rightarrow>
   world \<times> (chat_error + (job \<times> bool))" where
  "applyAgentChatTransition now jobId token status summary data report w =
     (if count_where (chat_guard jobId token status) (jobs (w_db w)) = 0 then
        (case find_job jobId (w_db w) of
           None \<Rightarrow> (w, Inl (Chat_not_found jobId))
         | Some current \<Rightarrow>
             (if j_claimed_by_token_id current \<noteq> Some token then (w, Inl Chat_permission)
              else if j_status current = J_CANCELLED then (w, Inl Chat_cancelled)
              else if status = US_RUNNING \<and> j_status current = J_RUNNING then (w, Inr (current, False))
              else (w, Inl (Chat_terminal (j_status current)))))
      else (let w1 = with_db (update_jobs (chat_guard jobId token status) data) w
            in case find_job jobId (w_db w1) of
                 None \<Rightarrow> (w, Inl (Chat_not_found jobId))
               | Some updated \<Rightarrow>
                   (let w2 = write_cost now jobId report w1;
                        w3 = (if status = US_DONE \<and> truthy summary then post_answer now jobId (the summary) w2 else w2)
                    in (w3, Inr (updated, True)))))"

section \<open>Sprint runs and stories\<close>

definition finalizeSprintRunOnDone :: "time \<Rightarrow> id \<Rightarrow> db \<Rightarrow> db" where
  "finalizeSprintRunOnDone now runId d = (case find_run runId d of
     None \<Rightarrow> d
   | Some r \<Rightarrow>
       (if r_status r = RUN_DONE then d
        else if count_where (\<lambda>s. st_sprint_id s = Some (r_sprint_id r) \<and> st_status s \<notin> {S_DONE, S_FAILED}) (stories d) > 0 then d
        else update_runs (\<lambda>x. r_id x = runId) (\<lambda>x. x\<lparr>r_status := RUN_DONE, r_finished_at := Some now\<rparr>) d))"

definition isStoryAutoMergeCandidate ::
  "update_status \<Rightarrow> string option \<Rightarrow> string option \<Rightarrow> job_kind \<Rightarrow> job_source \<Rightarrow> id option \<Rightarrow> bool" where
  "isStoryAutoMergeCandidate actual prUrl headSha kind source taskId \<longleftrightarrow>
     actual = US_DONE \<and> truthy prUrl \<and> truthy headSha \<and> kind = TASK_IMPLEMENTATION \<and> source \<noteq> MANUAL \<and> truthy taskId"

section \<open>Facts\<close>

lemma is_terminal_simps [simp]:
  "is_terminal US_DONE" "is_terminal US_FAILED" "is_terminal US_SKIPPED" "\<not> is_terminal US_RUNNING"
  by (simp_all add: is_terminal_def)

lemma running_or_terminal: "status = US_RUNNING \<or> is_terminal status"
  by (cases status) simp_all

lemma write_timestamps_simps:
  "j_claimed_at (write_timestamps (resolveJobTimestamps s (j_claimed_at j) (j_started_at j) now) j) =
     Some (or_else (j_claimed_at j) now)"
  "j_started_at (write_timestamps (resolveJobTimestamps s (j_claimed_at j) (j_started_at j) now) j) =
     Some (or_else (j_started_at j) now)"
  "j_finished_at (write_timestamps (resolveJobTimestamps s (j_claimed_at j) (j_started_at j) now) j) =
     (if is_terminal s then Some now else j_finished_at j)"
  using running_or_terminal [of s]
  by (cases "j_claimed_at j"; cases "j_started_at j"; simp add: write_timestamps_def resolveJobTimestamps_def)+

lemma write_timestamps_frame [simp]:
  "j_id (write_timestamps u j) = j_id j" "j_status (write_timestamps u j) = j_status j"
  "j_claimed_by_token_id (write_timestamps u j) = j_claimed_by_token_id j"
  by (simp_all add: write_timestamps_def)

lemma post_answer_frame [simp]:
  "w_db (post_answer now k s w) = w_db w" "w_costs (post_answer now k s w) = w_costs w"
  "w_calls (post_answer now k s w) = w_calls w" "w_chat_links (post_answer now k s w) = w_chat_links w"
  by (simp_all add: post_answer_def split: option.split)

lemma write_cost_frame [simp]:
  "w_db (write_cost now k r w) = w_db w" "w_calls (write_cost now k r w) = w_calls w"
  "w_chat_messages (write_cost now k r w) = w_chat_messages w" "w_chat_links (write_cost now k r w) = w_chat_links w"
  "w_chats (write_cost now k r w) = w_chats w"
  by (simp_all add: write_cost_def split: option.split)

lemma chat_of_job_frame: "w_chat_links w' = w_chat_links w \<Longrightarrow> w_chats w' = w_chats w \<Longrightarrow> chat_of_job k w' = chat_of_job k w"
  by (simp add: chat_of_job_def cong: option.case_cong)

lemma post_answer_messages:
  "w_chat_messages (post_answer now k s w) = w_chat_messages w @
     (case chat_of_job k w of None \<Rightarrow> []
      | Some chat \<Rightarrow> [\<lparr>am_chat_id = chat, am_role = Role_assistant, am_content = s, am_job_id = k\<rparr>])"
  by (simp add: post_answer_def split: option.split)

lemma upsert_cost_single:
  "distinct (map cp_job_id cs) \<Longrightarrow> distinct (map cp_job_id (upsert_cost now k row cs)) \<and>
     find_by cp_job_id k (upsert_cost now k row cs) = Some \<lparr>cp_job_id = k, cp_row = row, cp_reported_at = now\<rparr>"
proof (cases "list_ex (\<lambda>c. cp_job_id c = k) cs")
  case True
  assume d: "distinct (map cp_job_id cs)"
  have "find_by cp_job_id k cs \<noteq> None" using True by (auto simp: find_by_None list_ex_iff)
  then obtain c where c: "find_by cp_job_id k cs = Some c" by blast
  then have "cp_job_id c = k" by (auto dest: find_by_Some)
  then show ?thesis
    using True c d by (simp add: upsert_cost_def find_by_update_where map_update_where)
next
  case False
  assume "distinct (map cp_job_id cs)"
  moreover have "find_by cp_job_id k cs = None" using False by (auto simp: find_by_None list_ex_iff)
  ultimately show ?thesis
    using False by (auto simp: upsert_cost_def find_by_append find_by_simps list_ex_iff)
qed

section \<open>Properties\<close>

text \<open>
  The lifecycle times are set once and stay in order: an update of any kind leaves both claimed and
  started times present, never overwrites one, stamps the end exactly on terminal statuses, and,
  for a job that was not started without ever being claimed, keeps
  claimed \<open>\<le>\<close> started \<open>\<le>\<close> now.
\<close>

theorem timestamps_set_once:
  assumes "j' = write_timestamps (resolveJobTimestamps status (j_claimed_at j) (j_started_at j) now) j"
    and "\<forall>s. j_started_at j = Some s \<longrightarrow> s \<le> now \<and> (\<exists>c \<le> s. j_claimed_at j = Some c)"
    and "\<forall>c. j_claimed_at j = Some c \<longrightarrow> c \<le> now"
  shows "\<exists>c s. j_claimed_at j' = Some c \<and> j_started_at j' = Some s \<and> c \<le> s \<and> s \<le> now \<and>
    (j_claimed_at j \<noteq> None \<longrightarrow> j_claimed_at j' = j_claimed_at j) \<and>
    (j_started_at j \<noteq> None \<longrightarrow> j_started_at j' = j_started_at j) \<and>
    j_finished_at j' = (if is_terminal status then Some now else j_finished_at j)"
  using assms(2,3) unfolding assms(1) write_timestamps_simps
  by (cases "j_claimed_at j"; cases "j_started_at j") auto

text \<open>
  C0. Without that proviso the order the code promises fails: a job that has a start but no claim time
  is given a claim time after its start.
\<close>

theorem timestamps_disorder:
  assumes "j_claimed_at j = None" and "j_started_at j = Some s" and "s < now"
  shows "\<exists>c. j_claimed_at (write_timestamps (resolveJobTimestamps status None (Some s) now) j) = Some c \<and>
    j_started_at (write_timestamps (resolveJobTimestamps status None (Some s) now) j) = Some s \<and> s < c"
  using assms write_timestamps_simps(1,2) [of status j now] by simp

text \<open>
  C38. An agent chat is answered at most once and only by the holder of the claim: when the transition
  to done succeeds, the job was claimed by that token and running or claimed, exactly its row
  changed, and one message was added if its chat still exists; repeating the request changes
  nothing. A refused transition changes nothing at all.
\<close>

theorem agent_chat_answered_once:
  assumes "distinct (map j_id (jobs (w_db w)))"
    and "\<And>j. j_id (data j) = j_id j \<and> j_status (data j) = J_DONE \<and> j_claimed_by_token_id (data j) = j_claimed_by_token_id j"
    and "applyAgentChatTransition now k token US_DONE (Some s) data report w = (w', r)" and "s \<noteq> []"
  shows "(case r of
      Inl e \<Rightarrow> w' = w
    | Inr (updated, wrote) \<Rightarrow>
        wrote \<and> (\<exists>j. find_job k (w_db w) = Some j \<and> j_claimed_by_token_id j = Some token \<and>
          claimed_or_running (j_status j) \<and> updated = data j) \<and>
        jobs (w_db w') = update_where (\<lambda>j. j_id j = k) data (jobs (w_db w)) \<and>
        w_chat_messages w' = w_chat_messages w @ (case chat_of_job k w of None \<Rightarrow> []
          | Some chat \<Rightarrow> [\<lparr>am_chat_id = chat, am_role = Role_assistant, am_content = s, am_job_id = k\<rparr>]) \<and>
        applyAgentChatTransition now' k token US_DONE summary2 data2 report2 w' = (w', Inl (Chat_terminal J_DONE)))"
proof (cases "count_where (chat_guard k token US_DONE) (jobs (w_db w)) = 0")
  case True
  then show ?thesis
    using assms(3) by (auto simp: applyAgentChatTransition_def split: option.splits if_splits)
next
  case False
  then obtain j where j: "j \<in> set (jobs (w_db w))" "chat_guard k token US_DONE j"
    by (auto simp: count_where_0)
  then have jk: "j_id j = k" by (simp add: chat_guard_def)
  have fj: "find_job k (w_db w) = Some j"
    unfolding find_job_def using assms(1) j(1) jk by (rule find_by_unique)
  have only: "chat_guard k token US_DONE x \<longleftrightarrow> j_id x = k" if "x \<in> set (jobs (w_db w))" for x
    using find_by_unique_row [OF assms(1) fj [unfolded find_job_def] that] j(2) by (auto simp: chat_guard_def)
  let ?w1 = "with_db (update_jobs (chat_guard k token US_DONE) data) w"
  have jobs1: "jobs (w_db ?w1) = update_where (\<lambda>j. j_id j = k) data (jobs (w_db w))"
    by (simp add: update_where_def only cong: map_cong)
  have "find_job k (w_db ?w1) = Some (data j)"
    using fj j(2) assms(2) by (simp add: find_job_update_jobs)
  then have res: "w' = post_answer now k s (write_cost now k report ?w1)" "r = Inr (data j, True)"
    using assms(3,4) False by (simp_all add: applyAgentChatTransition_def Let_def)
  have f': "find_job k (w_db w') = Some (data j)"
    using \<open>find_job k (w_db ?w1) = Some (data j)\<close> by (simp add: res)
  have none: "count_where (chat_guard k token US_DONE) (jobs (w_db w')) = 0"
  proof -
    have "\<not> chat_guard k token US_DONE x" if "x \<in> set (update_where (\<lambda>j. j_id j = k) data (jobs (w_db w)))" for x
      using that
    proof (rule update_whereE)
      fix y assume "x = (if j_id y = k then data y else y)"
      then show "\<not> chat_guard k token US_DONE x" using assms(2) by (cases "j_id y = k") (simp_all add: chat_guard_def)
    qed
    then show ?thesis using jobs1 by (simp add: res count_where_0 del: with_db_frame)
  qed
  have "applyAgentChatTransition now' k token US_DONE summary2 data2 report2 w' = (w', Inl (Chat_terminal J_DONE))"
    using none f' assms(2) j(2) by (simp add: applyAgentChatTransition_def chat_guard_def)
  moreover have "w_chat_messages w' = w_chat_messages w @ (case chat_of_job k w of None \<Rightarrow> []
      | Some chat \<Rightarrow> [\<lparr>am_chat_id = chat, am_role = Role_assistant, am_content = s, am_job_id = k\<rparr>])"
  proof -
    have "chat_of_job k (write_cost now k report ?w1) = chat_of_job k w" by (rule chat_of_job_frame) simp_all
    then show ?thesis by (simp add: res post_answer_messages)
  qed
  moreover have "jobs (w_db w') = update_where (\<lambda>j. j_id j = k) data (jobs (w_db w))"
    using jobs1 by (simp add: res)
  ultimately show ?thesis using fj j(2) res(2) by (simp add: chat_guard_def)
qed

text \<open>
  A docs audit is ended only by the token that holds it: the request succeeds exactly when it is
  well formed and the job is a claimed or running audit of that token, and then only that row
  changes; for a stale runner, a cancelled or an ended job nothing changes.
\<close>

theorem docs_audit_fenced:
  assumes "distinct (map j_id (jobs d))"
    and "applyDocsAuditTerminalUpdate env k token status source summary reason until capped d = (d', r)"
  shows "(\<not> isl r \<longleftrightarrow> checkDocsAuditTerminal env status source reason until capped = None \<and>
      (\<exists>j. find_job k d = Some j \<and> audit_guard k token j)) \<and>
    (isl r \<longrightarrow> d' = d) \<and>
    filter (\<lambda>j. j_id j \<noteq> k) (jobs d') = filter (\<lambda>j. j_id j \<noteq> k) (jobs d) \<and>
    (\<not> isl r \<longrightarrow> (\<exists>j. find_job k d' = Some j \<and> j_status j = terminal_of status))"
proof -
  let ?f = "audit_row env status (audit_summary env summary until capped) reason"
  have id: "j_id (?f j) = j_id j" for j by (simp add: audit_row_def)
  have ex: "count_where (audit_guard k token) (jobs d) = 0 \<longleftrightarrow> \<not> (\<exists>j. find_job k d = Some j \<and> audit_guard k token j)"
  proof
    assume "count_where (audit_guard k token) (jobs d) = 0"
    then show "\<not> (\<exists>j. find_job k d = Some j \<and> audit_guard k token j)"
      by (auto simp: count_where_0 dest: find_job_Some)
  next
    assume none: "\<not> (\<exists>j. find_job k d = Some j \<and> audit_guard k token j)"
    have "\<not> audit_guard k token j" if "j \<in> set (jobs d)" for j
    proof
      assume g: "audit_guard k token j"
      then have "find_job k d = Some j"
        using find_by_unique [OF assms(1) that] by (simp add: audit_guard_def find_job_def)
      then show False using none g by blast
    qed
    then show "count_where (audit_guard k token) (jobs d) = 0" by (simp add: count_where_0)
  qed
  show ?thesis
  proof (cases "checkDocsAuditTerminal env status source reason until capped = None \<and>
      (\<exists>j. find_job k d = Some j \<and> audit_guard k token j)")
    case False
    then have "d' = d" "isl r"
      using assms(2) ex by (auto simp: applyDocsAuditTerminalUpdate_def split: option.splits if_splits)
    then show ?thesis using False by simp
  next
    case True
    then obtain j where j: "find_job k d = Some j" "audit_guard k token j" by blast
    have d': "d' = notify_job k (update_jobs (audit_guard k token) ?f d)" "r = Inr (terminal_of status)"
      using assms(2) True ex by (auto simp: applyDocsAuditTerminalUpdate_def split: if_splits)
    have "filter (\<lambda>j. j_id j \<noteq> k) (update_where (audit_guard k token) ?f (jobs d)) = filter (\<lambda>j. j_id j \<noteq> k) (jobs d)"
      by (rule update_where_commute_frame) (simp_all add: audit_guard_def id)
    moreover have "find_job k d' = Some (?f j)"
      using j id by (simp add: d' find_job_update_jobs)
    ultimately show ?thesis using True d' by (simp add: audit_row_def)
  qed
qed

section \<open>Witnesses\<close>

lemma timestamps_set_once_witness:
  "\<exists>c s. j_claimed_at (write_timestamps (resolveJobTimestamps US_DONE None None 9) sample_job) = Some c \<and>
     j_started_at (write_timestamps (resolveJobTimestamps US_DONE None None 9) sample_job) = Some s \<and> c \<le> s"
proof -
  have f: "j_claimed_at sample_job = None" "j_started_at sample_job = None" by (simp_all add: sample_job_def)
  show ?thesis using timestamps_set_once [OF refl, of sample_job 9 US_DONE] by (auto simp: f)
qed

lemma timestamps_disorder_witness:
  "\<exists>c. j_claimed_at (write_timestamps (resolveJobTimestamps US_DONE None (Some 3) 9) (sample_job\<lparr>j_started_at := Some 3\<rparr>)) = Some c \<and> 3 < c"
proof -
  have "j_claimed_at (sample_job\<lparr>j_started_at := Some 3\<rparr>) = None" "j_started_at (sample_job\<lparr>j_started_at := Some 3\<rparr>) = Some 3"
    by (simp_all add: sample_job_def)
  from timestamps_disorder [OF this, of 9 US_DONE] show ?thesis by auto
qed

definition chat_world :: world where
  "chat_world = (empty_world (sample_db\<lparr>jobs := [sample_job\<lparr>j_kind := AGENT_CHAT, j_status := J_RUNNING,
       j_claimed_by_token_id := Some ''t''\<rparr>]\<rparr>))
     \<lparr>w_chat_links := [\<lparr>cl_job_id = ''j1'', cl_chat_id = Some ''c1''\<rparr>], w_chats := [\<lparr>ac_id = ''c1'', ac_updated_at = 0\<rparr>]\<rparr>"

definition chat_done :: "job \<Rightarrow> job" where
  "chat_done j = j\<lparr>j_status := J_DONE\<rparr>"

lemma chat_done_frame:
  "j_id (chat_done j) = j_id j \<and> j_status (chat_done j) = J_DONE \<and> j_claimed_by_token_id (chat_done j) = j_claimed_by_token_id j"
  by (simp add: chat_done_def)

lemma chat_world_facts:
  "distinct (map j_id (jobs (w_db chat_world)))" "chat_of_job ''j1'' chat_world = Some ''c1''" "w_chat_messages chat_world = []"
  "\<not> isl (snd (applyAgentChatTransition 9 ''j1'' ''t'' US_DONE (Some ''hi'') chat_done None chat_world))"
  by code_simp+

lemma agent_chat_answered_once_witness:
  "map am_content (w_chat_messages (fst (applyAgentChatTransition 9 ''j1'' ''t'' US_DONE (Some ''hi'') chat_done None chat_world))) = [''hi'']"
proof -
  let ?r = "applyAgentChatTransition 9 ''j1'' ''t'' US_DONE (Some ''hi'') chat_done None chat_world"
  obtain u wrote where r: "?r = (fst ?r, Inr (u, wrote))"
    using chat_world_facts(4) by (cases ?r; cases "snd ?r") auto
  show ?thesis
    using agent_chat_answered_once [OF chat_world_facts(1) chat_done_frame r] by (simp add: chat_world_facts(2,3))
qed

definition audit_db :: db where
  "audit_db = sample_db\<lparr>jobs := [sample_job\<lparr>j_kind := DOCS_AUDIT, j_status := J_RUNNING, j_claimed_by_token_id := Some ''t''\<rparr>]\<rparr>"

lemma audit_db_facts:
  "distinct (map j_id (jobs audit_db))"
  "checkDocsAuditTerminal sample_svc US_DONE SYSTEM None None False = None"
  "find_job ''j1'' audit_db = Some (sample_job\<lparr>j_kind := DOCS_AUDIT, j_status := J_RUNNING, j_claimed_by_token_id := Some ''t''\<rparr>)"
  "audit_guard ''j1'' (Some ''t'') (sample_job\<lparr>j_kind := DOCS_AUDIT, j_status := J_RUNNING, j_claimed_by_token_id := Some ''t''\<rparr>)"
  by code_simp+

lemma docs_audit_fenced_witness:
  "\<exists>j. find_job ''j1'' (fst (applyDocsAuditTerminalUpdate sample_svc ''j1'' (Some ''t'') US_DONE SYSTEM None None None False audit_db)) = Some j \<and>
     j_status j = J_DONE"
proof -
  let ?r = "applyDocsAuditTerminalUpdate sample_svc ''j1'' (Some ''t'') US_DONE SYSTEM None None None False audit_db"
  from docs_audit_fenced [OF audit_db_facts(1) prod.collapse [of ?r, symmetric]] audit_db_facts(2-4)
  show ?thesis by (auto simp: terminal_of_def)
qed

end
