(* ===== verification/Pbi_Cascade.thy ===== *)
theory Pbi_Cascade
  imports Deploy_Jobs Repo_Roots
begin

text \<open>
  The fail cascade of \<open>src/src/cancel/pbi-cascade.ts\<close>: when a task job fails, its active siblings
  under the same PBI are cancelled, their pull requests closed or reverted and their merged
  branches deleted, and a trace is left on the failed job. Every answer of git and the forge is a
  parameter (\<open>svc_env\<close>); a failing answer becomes a warning and the cascade goes on.
\<close>

section \<open>The outcome\<close>

datatype cascade_warning =
    W_state string
  | W_close string
  | W_no_root string
  | W_no_merge_commit string
  | W_revert string
  | W_branch_kept string
  | W_branch_failed string string string
  | W_worktree id

record cascade_outcome =
  co_cancelled :: "id list"
  co_closed :: "string list"
  co_reverted :: "(string \<times> string) list"
  co_deleted :: "string list"
  co_warnings :: "cascade_warning list"

definition EMPTY :: cascade_outcome where
  "EMPTY = \<lparr>co_cancelled = [], co_closed = [], co_reverted = [], co_deleted = [], co_warnings = []\<rparr>"

definition warn :: "cascade_warning \<Rightarrow> cascade_outcome \<Rightarrow> cascade_outcome" where
  "warn x out = out\<lparr>co_warnings := co_warnings out @ [x]\<rparr>"

definition formatTrace :: "cascade_outcome \<Rightarrow> string" where
  "formatTrace out = join ''; '' ([''cancelled_by_self''] @
     (if co_cancelled out \<noteq> [] then [''siblings_cancelled='' @ digits (length (co_cancelled out))] else []) @
     (if co_closed out \<noteq> [] then [''closed='' @ join '','' (co_closed out)] else []) @
     (if co_reverted out \<noteq> [] then [''reverted='' @ join '';'' (map (\<lambda>(a, b). a @ ''->'' @ b) (co_reverted out))] else []) @
     (if co_deleted out \<noteq> [] then [''branches_deleted='' @ join '','' (co_deleted out)] else []) @
     (if co_warnings out \<noteq> [] then [''warnings='' @ digits (length (co_warnings out))] else []))"

section \<open>Cancelling the siblings\<close>

definition pbi_of_job :: "db \<Rightarrow> job \<Rightarrow> pbi option" where
  "pbi_of_job d j = (case j_task_id j of
     None \<Rightarrow> None
   | Some t \<Rightarrow> (case find_task t d of
        None \<Rightarrow> None
      | Some x \<Rightarrow> (case find_story (t_story_id x) d of
           None \<Rightarrow> None | Some st \<Rightarrow> find_pbi (st_pbi_id st) d)))"

definition cascade_sibling :: "db \<Rightarrow> id \<Rightarrow> pbi \<Rightarrow> job \<Rightarrow> bool" where
  "cascade_sibling d failedId p j \<longleftrightarrow>
     j_id j \<noteq> failedId \<and> active (j_status j) \<and> map_option p_id (pbi_of_job d j) = Some (p_id p)"

definition cascade_row :: "time \<Rightarrow> job \<Rightarrow> job" where
  "cascade_row now j = j\<lparr>j_status := J_CANCELLED, j_finished_at := Some now, j_error := Some ''cancelled_by_pbi_failure''\<rparr>"

definition cancel_siblings :: "svc_env \<Rightarrow> job list \<Rightarrow> world \<Rightarrow> world" where
  "cancel_siblings env eligible w =
     (let w1 = with_db (update_jobs (\<lambda>j. j_id j \<in> set (map j_id eligible)) (cascade_row (s_now env))) w;
          w2 = fold (\<lambda>j. call (Locks_released (j_id j))) eligible w1
      in fold (\<lambda>j. with_db (notify_job (j_id j))) eligible w2)"

section \<open>The branches\<close>

text \<open>
  The affected jobs grouped by repository and branch, in the order of first occurrence; a bucket
  takes the first pull request that one of its jobs has.
\<close>

type_synonym bucket = "(string option \<times> string) \<times> string option"

fun add_bucket :: "string option \<times> string \<Rightarrow> string option \<Rightarrow> bucket list \<Rightarrow> bucket list" where
  "add_bucket key pr [] = [(key, pr)]"
| "add_bucket key pr ((k, p) # bs) =
     (if k = key then (k, if \<not> truthy p \<and> truthy pr then pr else p) # bs
      else (k, p) # add_bucket key pr bs)"

definition buckets_of :: "db \<Rightarrow> job list \<Rightarrow> bucket list" where
  "buckets_of d js = fold (\<lambda>j bs. if \<not> truthy (j_branch j) then bs
     else add_bucket (task_repo j d, the (j_branch j)) (j_pr_url j) bs) js []"

definition tryDeleteBranch ::
  "svc_env \<Rightarrow> string \<Rightarrow> string \<Rightarrow> string option \<Rightarrow> world \<times> cascade_outcome \<Rightarrow> world \<times> cascade_outcome" where
  "tryDeleteBranch env root branch expected s = (case s of (w, out) \<Rightarrow>
     (if \<not> s_merged_tip env root branch then (w, warn (W_branch_kept branch) out)
      else (let w1 = call (Branch_deleted root branch expected) w
            in case s_delete_branch env root branch of
                 Deleted \<Rightarrow> (w1, out\<lparr>co_deleted := co_deleted out @ [branch]\<rparr>)
               | Delete_not_found \<Rightarrow> (w1, out)
               | Delete_failed reason stderr \<Rightarrow>
                   (w1, warn (W_branch_failed branch reason (slice_to 120 stderr)) out))))"

definition process_bucket ::
  "svc_env \<Rightarrow> job \<Rightarrow> string \<Rightarrow> bucket \<Rightarrow> world \<times> cascade_outcome \<Rightarrow> world \<times> cascade_outcome" where
  "process_bucket env failed note b s =
     (let repo = fst (fst b); branch = snd (fst b); prUrl = snd b; w = fst s; out = snd s;
          root = s_repo_root env (j_product_id failed) repo;
          delete = (\<lambda>expected s. if truthy root then tryDeleteBranch env (the root) branch expected s else s)
      in if truthy prUrl then
           (let url = the prUrl
            in case s_pr_state env url of
                 None \<Rightarrow> (w, warn (W_state url) out)
               | Some info \<Rightarrow>
                   (case pi_state info of
                      PR_CLOSED \<Rightarrow> delete (pi_head_sha info) s
                    | PR_OPEN \<Rightarrow>
                        (let w1 = call (Pr_closed url note) w
                         in if \<not> s_close_pr env url then (w1, warn (W_close url) out)
                            else delete (pi_head_sha info) (w1, out\<lparr>co_closed := co_closed out @ [url]\<rparr>))
                    | PR_MERGED \<Rightarrow>
                        (if \<not> truthy root then (w, warn (W_no_root url) out)
                         else if \<not> truthy (pi_merge_commit info) then (w, warn (W_no_merge_commit url) out)
                         else (let w1 = call (Pr_reverted url (the (pi_merge_commit info))) w
                               in case s_revert_pr env url of
                                    None \<Rightarrow> (w1, warn (W_revert url) out)
                                  | Some r \<Rightarrow> (w1, out\<lparr>co_reverted := co_reverted out @ [(url, r)]\<rparr>)))))
         else delete None s)"

section \<open>The cascade\<close>

definition cascade_note :: "pbi \<Rightarrow> id \<Rightarrow> string" where
  "cascade_note p failedId = ''PBI '' @ or_else (p_code p) (p_id p) @ '' cascaded fail '' @ em_dash @ '' see job '' @ failedId"

definition drop_worktree :: "svc_env \<Rightarrow> db \<Rightarrow> id \<Rightarrow> job \<Rightarrow> world \<times> cascade_outcome \<Rightarrow> world \<times> cascade_outcome" where
  "drop_worktree env d product j s = (case s of (w, out) \<Rightarrow>
     (let root = s_repo_root env product (task_repo j d)
      in if \<not> truthy root then (w, out)
         else (call (Worktree_removed (the root) (j_id j) False) w,
               if s_worktree_removed env (j_id j) then out else warn (W_worktree (j_id j)) out)))"

definition merged_error :: "string option \<Rightarrow> string \<Rightarrow> string" where
  "merged_error fresh trace =
     (if truthy fresh then slice_to 1900 (the fresh @ [CHR 0x0A] @ ''---'' @ [CHR 0x0A] @ trace)
      else slice_to 1900 trace)"

definition leave_trace :: "id \<Rightarrow> cascade_outcome \<Rightarrow> world \<Rightarrow> world" where
  "leave_trace failedId out w =
     with_db (update_jobs (\<lambda>j. j_id j = failedId)
       (\<lambda>j. j\<lparr>j_error := Some (merged_error (case find_job failedId (w_db w) of None \<Rightarrow> None | Some x \<Rightarrow> j_error x)
                 (formatTrace out))\<rparr>)) w"

definition runCascade :: "svc_env \<Rightarrow> id \<Rightarrow> world \<Rightarrow> world \<times> cascade_outcome" where
  "runCascade env failedId w =
     (case find_job failedId (w_db w) of
        None \<Rightarrow> (w, EMPTY)
      | Some failed \<Rightarrow>
          (if j_kind failed \<noteq> TASK_IMPLEMENTATION \<or> j_status failed = J_SKIPPED then (w, EMPTY)
           else case pbi_of_job (w_db w) failed of
               None \<Rightarrow> (w, EMPTY)
             | Some p \<Rightarrow>
                 (let d = w_db w;
                      eligible = filter (cascade_sibling d failedId p) (jobs d);
                      w1 = cancel_siblings env eligible w;
                      s2 = fold (process_bucket env failed (cascade_note p failedId)) (buckets_of d (eligible @ [failed]))
                             (w1, EMPTY\<lparr>co_cancelled := map j_id eligible\<rparr>);
                      (w3, out) = fold (drop_worktree env d (j_product_id failed)) eligible s2
                  in (leave_trace failedId out w3, out))))"

definition cancelPbiOnFailure :: "svc_env \<Rightarrow> id \<Rightarrow> world \<Rightarrow> world" where
  "cancelPbiOnFailure env failedId w = fst (runCascade env failedId w)"

section \<open>What the outer steps touch\<close>

lemma warn_simps [simp]:
  "co_cancelled (warn x out) = co_cancelled out" "co_closed (warn x out) = co_closed out"
  "co_reverted (warn x out) = co_reverted out" "co_deleted (warn x out) = co_deleted out"
  by (simp_all add: warn_def)

text \<open>Everything after the cancellation leaves the database alone until the trace.\<close>

lemma tryDeleteBranch_db: "w_db (fst (tryDeleteBranch env root branch h s)) = w_db (fst s)"
  by (cases s) (simp add: tryDeleteBranch_def Let_def split: delete_outcome.split)

lemma process_bucket_db: "w_db (fst (process_bucket env f n b s)) = w_db (fst s)"
  by (simp add: process_bucket_def Let_def tryDeleteBranch_db split: option.split forge_state.split)

lemma drop_worktree_db: "w_db (fst (drop_worktree env d q j s)) = w_db (fst s)"
  by (cases s) (simp add: drop_worktree_def Let_def)

lemma fold_world_db: "(\<And>x s. w_db (fst (f x s)) = w_db (fst s)) \<Longrightarrow> w_db (fst (fold f xs s)) = w_db (fst s)"
  by (induction xs arbitrary: s) simp_all

lemma tryDeleteBranch_cancelled: "co_cancelled (snd (tryDeleteBranch env root branch h s)) = co_cancelled (snd s)"
  by (cases s) (simp add: tryDeleteBranch_def Let_def split: delete_outcome.split)

lemma process_bucket_cancelled: "co_cancelled (snd (process_bucket env f n b s)) = co_cancelled (snd s)"
  by (simp add: process_bucket_def Let_def tryDeleteBranch_cancelled split: option.split forge_state.split)

lemma drop_worktree_cancelled: "co_cancelled (snd (drop_worktree env d q j s)) = co_cancelled (snd s)"
  by (cases s) (simp add: drop_worktree_def Let_def)

lemma fold_cancelled: "(\<And>x s. co_cancelled (snd (f x s)) = co_cancelled (snd s)) \<Longrightarrow> co_cancelled (snd (fold f xs s)) = co_cancelled (snd s)"
  by (induction xs arbitrary: s) simp_all

lemma fold_locks_db: "w_db (fold (\<lambda>j. call (c j)) js w) = w_db w"
  by (induction js arbitrary: w) simp_all

lemma fold_notify_world: "w_db (fold (\<lambda>j. with_db (notify_job (j_id j))) js w) = fold notify_job (map j_id js) (w_db w)"
  by (induction js arbitrary: w) simp_all

lemma cancel_siblings_db:
  "w_db (cancel_siblings env js w) =
     fold notify_job (map j_id js) (update_jobs (\<lambda>j. j_id j \<in> set (map j_id js)) (cascade_row (s_now env)) (w_db w))"
  by (simp add: cancel_siblings_def fold_notify_world fold_locks_db)

lemma cancel_siblings_calls:
  "w_calls (cancel_siblings env js w) = w_calls w @ map (\<lambda>j. Locks_released (j_id j)) js"
proof -
  have "w_calls (fold (\<lambda>j. call (Locks_released (j_id j))) js x) = w_calls x @ map (\<lambda>j. Locks_released (j_id j)) js" for x
    by (induction js arbitrary: x) simp_all
  moreover have "w_calls (fold (\<lambda>j. with_db (notify_job (j_id j))) js x) = w_calls x" for x
    by (induction js arbitrary: x) simp_all
  ultimately show ?thesis by (simp add: cancel_siblings_def)
qed

lemma pbi_of_job_frame:
  "tasks d' = tasks d \<Longrightarrow> stories d' = stories d \<Longrightarrow> pbis d' = pbis d \<Longrightarrow> j_task_id j' = j_task_id j \<Longrightarrow>
   pbi_of_job d' j' = pbi_of_job d j"
  by (simp add: pbi_of_job_def find_task_def find_story_def find_pbi_def cong: option.case_cong)

lemma cascade_row_simps [simp]:
  "j_id (cascade_row now j) = j_id j" "j_task_id (cascade_row now j) = j_task_id j"
  "j_status (cascade_row now j) = J_CANCELLED"
  by (simp_all add: cascade_row_def)

text \<open>The jobs after a cascade that ran: siblings cancelled, the trace on the failed job, the rest as before.\<close>

definition cascaded :: "svc_env \<Rightarrow> db \<Rightarrow> id \<Rightarrow> pbi \<Rightarrow> cascade_outcome \<Rightarrow> string option \<Rightarrow> job \<Rightarrow> job" where
  "cascaded env d failedId p out fresh j =
     (if j_id j = failedId then j\<lparr>j_error := Some (merged_error fresh (formatTrace out))\<rparr>
      else if cascade_sibling d failedId p j then cascade_row (s_now env) j else j)"

lemma runCascade_result:
  assumes "find_job k (w_db w) = Some f" and "j_kind f = TASK_IMPLEMENTATION" and "j_status f \<noteq> J_SKIPPED"
    and "pbi_of_job (w_db w) f = Some p" and "distinct (map j_id (jobs (w_db w)))"
    and "runCascade env k w = (w', out)"
  shows "jobs (w_db w') = map (cascaded env (w_db w) k p out (j_error f)) (jobs (w_db w))"
    and "co_cancelled out = map j_id (filter (cascade_sibling (w_db w) k p) (jobs (w_db w)))"
    and "tasks (w_db w') = tasks (w_db w)" and "stories (w_db w') = stories (w_db w)"
    and "pbis (w_db w') = pbis (w_db w)" and "sprints (w_db w') = sprints (w_db w)"
    and "runs (w_db w') = runs (w_db w)" and "execs (w_db w') = execs (w_db w)"
proof -
  let ?d = "w_db w"
  define el where "el = filter (cascade_sibling ?d k p) (jobs ?d)"
  define w1 where "w1 = cancel_siblings env el w"
  define s2 where "s2 = fold (process_bucket env f (cascade_note p k)) (buckets_of ?d (el @ [f])) (w1, EMPTY\<lparr>co_cancelled := map j_id el\<rparr>)"
  define s3 where "s3 = fold (drop_worktree env ?d (j_product_id f)) el s2"
  have "runCascade env k w = (leave_trace k (snd s3) (fst s3), snd s3)"
    using assms(1-4) by (simp add: runCascade_def Let_def split_beta s3_def s2_def w1_def el_def)
  then have run: "w' = leave_trace k (snd s3) (fst s3)" "out = snd s3"
    using assms(6) by simp_all
  have db3: "w_db (fst s3) = w_db w1"
    by (simp add: s3_def s2_def fold_world_db drop_worktree_db process_bucket_db)
  show can: "co_cancelled out = map j_id (filter (cascade_sibling ?d k p) (jobs ?d))"
    by (simp add: run s3_def s2_def fold_cancelled drop_worktree_cancelled process_bucket_cancelled el_def)
  have member: "j_id j \<in> set (map j_id el) \<longleftrightarrow> cascade_sibling ?d k p j" if "j \<in> set (jobs ?d)" for j
    using that assms(5) by (auto simp: el_def distinct_map dest: inj_onD)
  have jobs1: "jobs (w_db w1) = map (\<lambda>j. if cascade_sibling ?d k p j then cascade_row (s_now env) j else j) (jobs ?d)"
    unfolding w1_def cancel_siblings_db fold_notify_frame update_jobs_frame update_where_def
    by (rule map_cong [OF refl]) (simp only: member)
  have f: "\<not> cascade_sibling ?d k p j" if "j_id j = k" for j
    using that by (simp add: cascade_sibling_def)
  have "find_job k (w_db w1) = Some f"
  proof -
    have "find_by j_id k (map (\<lambda>j. if cascade_sibling ?d k p j then cascade_row (s_now env) j else j) js) = find_by j_id k js" for js
      using f by (induction js) (auto simp: find_by_simps)
    then show ?thesis using assms(1) by (simp add: find_job_def jobs1)
  qed
  then have w': "w_db w' = update_jobs (\<lambda>j. j_id j = k) (\<lambda>j. j\<lparr>j_error := Some (merged_error (j_error f) (formatTrace out))\<rparr>) (w_db w1)"
    by (simp add: run leave_trace_def db3)
  show "jobs (w_db w') = map (cascaded env ?d k p out (j_error f)) (jobs ?d)"
    unfolding w' update_jobs_frame jobs1 update_where_def map_map
    by (rule map_cong [OF refl]) (simp add: cascaded_def f)
  show "tasks (w_db w') = tasks ?d" "stories (w_db w') = stories ?d" "pbis (w_db w') = pbis ?d"
    "sprints (w_db w') = sprints ?d" "runs (w_db w') = runs ?d" "execs (w_db w') = execs ?d"
    by (simp_all add: w' w1_def cancel_siblings_db)
qed

text \<open>What the cascade may ask of the forge and of git.\<close>

definition cascade_call_ok :: "svc_env \<Rightarrow> svc_call \<Rightarrow> bool" where
  "cascade_call_ok env c = (case c of
     Branch_deleted root b _ \<Rightarrow> s_merged_tip env root b
   | Pr_closed u _ \<Rightarrow> (case s_pr_state env u of None \<Rightarrow> False | Some i \<Rightarrow> pi_state i = PR_OPEN)
   | Pr_reverted u sha \<Rightarrow> (case s_pr_state env u of None \<Rightarrow> False
       | Some i \<Rightarrow> pi_state i = PR_MERGED \<and> pi_merge_commit i = Some sha)
   | Locks_released _ \<Rightarrow> True
   | Worktree_removed _ _ keep \<Rightarrow> \<not> keep
   | _ \<Rightarrow> False)"

definition calls_added :: "(svc_call \<Rightarrow> bool) \<Rightarrow> world \<Rightarrow> world \<Rightarrow> bool" where
  "calls_added P w w' \<longleftrightarrow> (\<exists>cs. w_calls w' = w_calls w @ cs \<and> list_all P cs)"

lemma calls_added_refl [simp]: "calls_added P w w"
  by (simp add: calls_added_def)

lemma calls_added_trans: "calls_added P w w' \<Longrightarrow> calls_added P w' w'' \<Longrightarrow> calls_added P w w''"
  unfolding calls_added_def by (metis append_assoc list_all_append)

lemma calls_added_call: "P c \<Longrightarrow> calls_added P w (call c w)"
  by (simp add: calls_added_def)

lemma calls_added_fold:
  "(\<And>x s. x \<in> set xs \<Longrightarrow> calls_added P (fst s) (fst (f x s))) \<Longrightarrow> calls_added P (fst s) (fst (fold f xs s))"
proof (induction xs arbitrary: s)
  case (Cons x xs)
  then have "calls_added P (fst s) (fst (f x s))" "calls_added P (fst (f x s)) (fst (fold f xs (f x s)))" by simp_all
  then show ?case by (simp add: calls_added_trans)
qed simp

lemma tryDeleteBranch_calls: "calls_added (cascade_call_ok env) (fst s) (fst (tryDeleteBranch env root b h s))"
  by (cases s) (auto simp: tryDeleteBranch_def Let_def cascade_call_ok_def intro!: calls_added_call split: delete_outcome.split)

lemma process_bucket_calls: "calls_added (cascade_call_ok env) (fst s) (fst (process_bucket env f n b s))"
proof -
  let ?root = "s_repo_root env (j_product_id f) (fst (fst b))"
  have del: "calls_added (cascade_call_ok env) (fst x)
      (fst (if truthy ?root then tryDeleteBranch env (the ?root) (snd (fst b)) h x else x))" for x h
    by (simp add: tryDeleteBranch_calls)
  show ?thesis
  proof (cases "truthy (snd b)")
    case False
    then show ?thesis using del by (simp add: process_bucket_def Let_def)
  next
    case True
    let ?url = "the (snd b)"
    show ?thesis
    proof (cases "s_pr_state env ?url")
      case None
      then show ?thesis using True by (simp add: process_bucket_def Let_def)
    next
      case (Some info)
      show ?thesis
      proof (cases "pi_state info")
        case PR_OPEN
        have "calls_added (cascade_call_ok env) (fst s) (call (Pr_closed ?url n) (fst s))"
          using Some PR_OPEN by (intro calls_added_call) (simp add: cascade_call_ok_def)
        then show ?thesis
          using True Some PR_OPEN calls_added_trans [OF _ del]
          by (simp add: process_bucket_def Let_def del)
      next
        case PR_CLOSED
        then show ?thesis using True Some del by (simp add: process_bucket_def Let_def)
      next
        case PR_MERGED
        have "truthy (pi_merge_commit info) \<Longrightarrow>
            calls_added (cascade_call_ok env) (fst s) (call (Pr_reverted ?url (the (pi_merge_commit info))) (fst s))"
          using Some PR_MERGED by (intro calls_added_call) (auto simp: cascade_call_ok_def elim: truthyE)
        then show ?thesis
          using True Some PR_MERGED by (auto simp: process_bucket_def Let_def split: option.split)
      qed
    qed
  qed
qed

lemma drop_worktree_calls: "calls_added (cascade_call_ok env) (fst s) (fst (drop_worktree env d q j s))"
  by (cases s) (auto simp: drop_worktree_def Let_def cascade_call_ok_def intro!: calls_added_call)

lemma keys_add_bucket: "map fst (add_bucket k p bs) = (if k \<in> fst ` set bs then map fst bs else map fst bs @ [k])"
  by (induction k p bs rule: add_bucket.induct) auto

lemma buckets_distinct: "distinct (map fst (buckets_of d js))"
proof -
  have "distinct (map fst bs) \<Longrightarrow> distinct (map fst (fold (\<lambda>j bs. if \<not> truthy (j_branch j) then bs
     else add_bucket (task_repo j d, the (j_branch j)) (j_pr_url j) bs) js bs))" for bs
    by (induction js arbitrary: bs) (auto simp: keys_add_bucket image_iff)
  then show ?thesis by (simp add: buckets_of_def)
qed

section \<open>Properties\<close>

text \<open>
  The cascade cancels exactly the active siblings of the failed job under its PBI, appends its
  trace to the failed job without touching its status, and leaves every other row of every table
  alone; afterwards no sibling is active, and a second run cancels nothing.
\<close>

theorem cascade_cancels_siblings:
  assumes "find_job k (w_db w) = Some f" and "j_kind f = TASK_IMPLEMENTATION" and "j_status f \<noteq> J_SKIPPED"
    and "pbi_of_job (w_db w) f = Some p" and "distinct (map j_id (jobs (w_db w)))"
    and "runCascade env k w = (w', out)"
  shows "jobs (w_db w') = map (cascaded env (w_db w) k p out (j_error f)) (jobs (w_db w)) \<and>
    tasks (w_db w') = tasks (w_db w) \<and> stories (w_db w') = stories (w_db w) \<and> pbis (w_db w') = pbis (w_db w) \<and>
    sprints (w_db w') = sprints (w_db w) \<and> runs (w_db w') = runs (w_db w) \<and> execs (w_db w') = execs (w_db w) \<and>
    filter (cascade_sibling (w_db w') k p) (jobs (w_db w')) = [] \<and>
    co_cancelled (snd (runCascade env2 k w')) = []"
proof -
  note res = runCascade_result [OF assms]
  let ?c = "cascaded env (w_db w) k p out (j_error f)"
  have pbi: "pbi_of_job (w_db w') (?c j) = pbi_of_job (w_db w) j" for j
    by (rule pbi_of_job_frame) (simp_all add: res cascaded_def)
  have id: "j_id (?c j) = j_id j" for j by (simp add: cascaded_def)
  have "\<not> cascade_sibling (w_db w') k p (?c j)" for j
  proof (cases "j_id j = k")
    case True then show ?thesis by (simp add: cascade_sibling_def id)
  next
    case False
    then show ?thesis
      by (cases "cascade_sibling (w_db w) k p j")
        (auto simp: cascade_sibling_def [of "w_db w'"] pbi id, auto simp: cascaded_def cascade_sibling_def)
  qed
  then have none: "filter (cascade_sibling (w_db w') k p) (jobs (w_db w')) = []"
    by (simp add: res filter_empty_conv)
  have fk: "j_id f = k" using assms(1) by simp
  have "find_by j_id k (map ?c js) = map_option ?c (find_by j_id k js)" for js
    by (induction js) (auto simp: find_by_simps id)
  then have f': "find_job k (w_db w') = Some (?c f)" using assms(1) by (simp add: find_job_def res)
  have "j_kind (?c f) = TASK_IMPLEMENTATION" "j_status (?c f) \<noteq> J_SKIPPED"
    using assms(2,3) fk by (simp_all add: cascaded_def)
  moreover have "pbi_of_job (w_db w') (?c f) = Some p" using assms(4) by (simp only: pbi)
  moreover have "distinct (map j_id (jobs (w_db w')))" using assms(5) by (simp add: res id comp_def)
  ultimately have "co_cancelled (snd (runCascade env2 k w')) = map j_id (filter (cascade_sibling (w_db w') k p) (jobs (w_db w')))"
    using runCascade_result(2) [OF f'] by (metis prod.collapse)
  with none res show ?thesis by simp
qed

text \<open>
  C32. The cascade never destroys unmerged work: a remote branch is deleted only when its tip is in
  the main branch, a pull request is closed only while it is open and reverted only when it was
  merged, with its own merge commit; and each branch of each repository is dealt with once.
\<close>

theorem cascade_preserves_unmerged_work:
  "(\<exists>cs. w_calls (fst (runCascade env k w)) = w_calls w @ cs \<and> list_all (cascade_call_ok env) cs) \<and>
   distinct (map fst (buckets_of d js))"
proof -
  have "calls_added (cascade_call_ok env) w (fst (runCascade env k w))"
  proof (cases "fst (runCascade env k w) = w")
    case False
    then obtain f p where f: "find_job k (w_db w) = Some f" "j_kind f = TASK_IMPLEMENTATION" "j_status f \<noteq> J_SKIPPED"
        "pbi_of_job (w_db w) f = Some p"
      by (auto simp: runCascade_def split: option.splits if_splits)
    define el where "el = filter (cascade_sibling (w_db w) k p) (jobs (w_db w))"
    define s1 where "s1 = (cancel_siblings env el w, EMPTY\<lparr>co_cancelled := map j_id el\<rparr>)"
    define s2 where "s2 = fold (process_bucket env f (cascade_note p k)) (buckets_of (w_db w) (el @ [f])) s1"
    define s3 where "s3 = fold (drop_worktree env (w_db w) (j_product_id f)) el s2"
    have "fst (runCascade env k w) = leave_trace k (snd s3) (fst s3)"
      using f by (simp add: runCascade_def Let_def split_beta s3_def s2_def s1_def el_def)
    moreover have "calls_added (cascade_call_ok env) (fst s3) (leave_trace k (snd s3) (fst s3))"
      by (simp add: leave_trace_def calls_added_def)
    moreover have "calls_added (cascade_call_ok env) w (fst s1)"
      by (simp add: s1_def calls_added_def cancel_siblings_calls cascade_call_ok_def list_all_iff)
    moreover have "calls_added (cascade_call_ok env) (fst s1) (fst s2)"
      unfolding s2_def by (rule calls_added_fold) (rule process_bucket_calls)
    moreover have "calls_added (cascade_call_ok env) (fst s2) (fst s3)"
      unfolding s3_def by (rule calls_added_fold) (rule drop_worktree_calls)
    ultimately show ?thesis by (metis calls_added_trans)
  qed simp
  then show ?thesis using buckets_distinct unfolding calls_added_def by blast
qed

section \<open>Witness\<close>

definition failing_db :: db where
  "failing_db = sample_db\<lparr>jobs := [sample_job\<lparr>j_status := J_FAILED, j_branch := Some ''b'', j_error := Some ''e''\<rparr>,
     sample_job\<lparr>j_id := ''j3'', j_task_id := Some ''t2'', j_branch := Some ''b''\<rparr>]\<rparr>"

lemma failing_db_facts:
  "find_job ''j1'' failing_db = Some (sample_job\<lparr>j_status := J_FAILED, j_branch := Some ''b'', j_error := Some ''e''\<rparr>)"
  "pbi_of_job failing_db (sample_job\<lparr>j_status := J_FAILED, j_branch := Some ''b'', j_error := Some ''e''\<rparr>) = Some sample_pbi"
  "distinct (map j_id (jobs failing_db))"
  by code_simp+

lemma cascade_cancels_siblings_witness:
  "map j_status (jobs (w_db (fst (runCascade sample_svc ''j1'' (empty_world failing_db))))) = [J_FAILED, J_CANCELLED]"
proof -
  let ?f = "sample_job\<lparr>j_status := J_FAILED, j_branch := Some ''b'', j_error := Some ''e''\<rparr>"
  let ?out = "snd (runCascade sample_svc ''j1'' (empty_world failing_db))"
  have kind: "j_kind ?f = TASK_IMPLEMENTATION" "j_status ?f \<noteq> J_SKIPPED" by (simp_all add: sample_job_def)
  have "jobs (w_db (fst (runCascade sample_svc ''j1'' (empty_world failing_db)))) =
      map (cascaded sample_svc failing_db ''j1'' sample_pbi ?out (j_error ?f)) (jobs failing_db)"
    using cascade_cancels_siblings [of "''j1''" "empty_world failing_db" ?f sample_pbi sample_svc
        "fst (runCascade sample_svc ''j1'' (empty_world failing_db))" ?out] failing_db_facts kind
    by simp
  moreover have "map (\<lambda>j. (j_id j = ''j1'', j_status j, cascade_sibling failing_db ''j1'' sample_pbi j)) (jobs failing_db) =
      [(True, J_FAILED, False), (False, J_QUEUED, True)]"
    by code_simp
  ultimately show ?thesis by (auto simp: cascaded_def map_eq_Cons_conv)
qed

end
