(* ===== verification/Job_Status.thy ===== *)
theory Job_Status
  imports Job_Endings Job_Delivery Pbi_Cascade
begin

text \<open>
  The tool \<open>update_job_status\<close> (\<open>src/src/tools/update-job-status.ts\<close>): its guards, the decision that
  a reported done is DONE or FAILED, the pull request, the write with its cost row, and everything
  that follows from it: answers, roll-up, merges, deploys, notifications, clean-up, the cascade and
  the sprint run. The handler is the composition of these phases in the order of the code.

  A request reads its job row once (\<open>j\<close>) and later phases use that snapshot where the code does. An
  exception that leaves the handler ends it with the state reached so far.
\<close>

section \<open>Requests, errors, replies\<close>

record status_input =
  ui_status :: update_status
  ui_branch :: "string option"
  ui_summary :: "string option"
  ui_error :: "string option"
  ui_usage :: usage
  ui_processed_until :: "string option"
  ui_capped :: "bool option"
  ui_cost :: "cost_input option"

datatype status_error =
    Status_not_found id
  | Status_managed
  | Status_permission
  | Status_cancelled
  | Status_terminal job_status
  | Status_cost cost_error
  | Status_docs docs_audit_error
  | Status_skip_deploy
  | Status_skip_kind job_kind
  | Status_skip_reason
  | Status_chat_summary
  | Status_chat chat_error
  | Status_plan_chat_summary
  | Status_idea_chat_summary
  | Status_sprint_gate sprint_gate_error
  | Status_gate gate_error
  | Status_thrown

datatype status_reply =
    Docs_reply id job_status
  | Job_reply update_status job next_action

text \<open>Sequencing: an error ends the request, with the state it was raised in.\<close>

definition step_then :: "'s \<times> ('e + 'a) \<Rightarrow> ('s \<Rightarrow> 'a \<Rightarrow> 's \<times> ('e + 'b)) \<Rightarrow> 's \<times> ('e + 'b)" where
  "step_then r k = (case r of (s, Inl e) \<Rightarrow> (s, Inl e) | (s, Inr x) \<Rightarrow> k s x)"

lemma step_then_simps [simp]:
  "step_then (s, Inl e) k = (s, Inl e)"
  "step_then (s, Inr x) k = k s x"
  by (simp_all add: step_then_def)

lemma step_then_Inr:
  "step_then r k = (s', Inr y) \<longleftrightarrow> (\<exists>s x. r = (s, Inr x) \<and> k s x = (s', Inr y))"
  by (cases r; cases "snd r") auto

lemma step_then_Inl:
  "step_then r k = (s', Inl e) \<longleftrightarrow> r = (s', Inl e) \<or> (\<exists>s x. r = (s, Inr x) \<and> k s x = (s', Inl e))"
  by (cases r; cases "snd r") auto

section \<open>Guards\<close>

definition caller_guard :: "id \<Rightarrow> id \<Rightarrow> db \<Rightarrow> status_error + job" where
  "caller_guard token k d = (case find_job k d of
     None \<Rightarrow> Inl (Status_not_found k)
   | Some j \<Rightarrow>
       (if isManagedJob j d then Inl Status_managed
        else if j_claimed_by_token_id j \<noteq> Some token then Inl Status_permission
        else if j_status j = J_CANCELLED then Inl Status_cancelled
        else if \<not> claimed_or_running (j_status j) then Inl (Status_terminal (j_status j))
        else Inr j))"

definition cost_guard :: "svc_env \<Rightarrow> job \<Rightarrow> status_input \<Rightarrow> status_error + cost_row option" where
  "cost_guard env j inp = (case ui_cost inp of
     None \<Rightarrow> Inr None
   | Some cost \<Rightarrow>
       (case checkCostReport (s_harness_kind env) (j_kind j) (j_runtime j) (j_requested_model j) (ui_status inp) cost of
          Inl e \<Rightarrow> Inl (Status_cost e) | Inr row \<Rightarrow> Inr (Some row)))"

definition skip_guard :: "job \<Rightarrow> status_input \<Rightarrow> status_error option" where
  "skip_guard j inp =
     (if ui_status inp \<noteq> US_SKIPPED then None
      else if j_kind j = DEPLOY then
        (if checkDeploySkipReason (ui_error inp) then None else Some Status_skip_deploy)
      else if j_kind j \<noteq> TASK_IMPLEMENTATION then Some (Status_skip_kind (j_kind j))
      else if \<not> truthy (ui_error inp) \<or> length (trim (the (ui_error inp))) < 10 then Some Status_skip_reason
      else None)"

definition isHarnessJobRow :: "job \<Rightarrow> bool" where
  "isHarnessJobRow j \<longleftrightarrow> j_runtime j = HARNESS \<or> j_required_capability j = Some ''local_llm''"

definition isSystemPlanChat :: "job \<Rightarrow> bool" where
  "isSystemPlanChat j \<longleftrightarrow> j_kind j = PLAN_CHAT \<and> j_source j = SYSTEM \<and> truthy (j_idea_id j)"

definition isSystemIdeaChat :: "job \<Rightarrow> bool" where
  "isSystemIdeaChat j \<longleftrightarrow> j_kind j = IDEA_CHAT \<and> j_source j = SYSTEM \<and> truthy (j_idea_id j)"

text \<open>\<open>summary?.trim()\<close>.\<close>

definition trimmed_answer :: "status_input \<Rightarrow> string option" where
  "trimmed_answer inp = map_option trim (ui_summary inp)"

definition answer_guard :: "job \<Rightarrow> status_input \<Rightarrow> status_error option" where
  "answer_guard j inp =
     (if ui_status inp = US_DONE \<and> isSystemPlanChat j \<and> \<not> truthy (trimmed_answer inp) then Some Status_plan_chat_summary
      else if ui_status inp = US_DONE \<and> isSystemIdeaChat j \<and> \<not> truthy (trimmed_answer inp) then Some Status_idea_chat_summary
      else None)"

section \<open>Writing the row\<close>

definition write_usage :: "usage \<Rightarrow> job \<Rightarrow> job" where
  "write_usage u j = j\<lparr>j_usage :=
     \<lparr>u_model_id = write_opt (u_model_id u) (u_model_id (j_usage j)),
      u_input_tokens = write_opt (u_input_tokens u) (u_input_tokens (j_usage j)),
      u_output_tokens = write_opt (u_output_tokens u) (u_output_tokens (j_usage j)),
      u_cache_read_tokens = write_opt (u_cache_read_tokens u) (u_cache_read_tokens (j_usage j)),
      u_cache_write_tokens = write_opt (u_cache_write_tokens u) (u_cache_write_tokens (j_usage j)),
      u_actual_thinking_tokens = write_opt (u_actual_thinking_tokens u) (u_actual_thinking_tokens (j_usage j))\<rparr>\<rparr>"

definition chat_update_row :: "time \<Rightarrow> job \<Rightarrow> status_input \<Rightarrow> job \<Rightarrow> job" where
  "chat_update_row now snapshot inp j =
     write_usage (ui_usage inp)
       (write_timestamps (resolveJobTimestamps (ui_status inp) (j_claimed_at snapshot) (j_started_at snapshot) now)
         (j\<lparr>j_status := DB_STATUS_MAP (ui_status inp), j_summary := write_opt (ui_summary inp) (j_summary j),
            j_error := write_opt (ui_error inp) (j_error j)\<rparr>))"

definition queued_count :: "id \<Rightarrow> db \<Rightarrow> nat" where
  "queued_count user d = count_where (\<lambda>j. j_user_id j = user \<and> j_status j = J_QUEUED) (jobs d)"

definition agent_chat_phase ::
  "svc_env \<Rightarrow> id \<Rightarrow> id \<Rightarrow> job \<Rightarrow> status_input \<Rightarrow> cost_row option \<Rightarrow> world \<Rightarrow> world \<times> (status_error + status_reply)" where
  "agent_chat_phase env token user j inp report w =
     (if ui_status inp = US_DONE \<and> \<not> truthy (trimmed_answer inp) then (w, Inl Status_chat_summary)
      else case applyAgentChatTransition (s_now env) (j_id j) token (ui_status inp) (ui_summary inp)
                  (chat_update_row (s_now env) j inp) report w of
          (w1, Inl e) \<Rightarrow> (w1, Inl (Status_chat e))
        | (w1, Inr (updated, wrote)) \<Rightarrow>
            (let w2 = (if wrote then with_db (notify_job (j_id j)) w1 else w1)
             in (w2, Inr (Job_reply (ui_status inp)
                   (updated\<lparr>j_branch := None, j_pushed_at := None, j_pr_url := None, j_verify_result := None\<rparr>)
                   (resolveNextAction (queued_count user (w_db w2)) (ui_status inp))))))"

section \<open>What done becomes\<close>

record decision =
  dc_status :: update_status
  dc_pushed_at :: "time option"
  dc_branch :: "string option"
  dc_error :: "string option"
  dc_skip_cleanup :: bool
  dc_head_sha :: "string option"

definition completes_without_worktree :: "job \<Rightarrow> bool" where
  "completes_without_worktree j \<longleftrightarrow>
     j_source j = MANUAL \<or>
     j_source j = ORCHESTRATOR \<and> j_kind j = PLAN_CHAT \<and> \<not> truthy (j_task_id j) \<and> \<not> truthy (j_idea_id j) \<and>
       \<not> truthy (j_sprint_run_id j) \<or>
     isSystemPlanChat j \<or> isSystemIdeaChat j \<or>
     j_kind j \<in> {IDEA_GRILL, IDEA_MAKE_PLAN, IDEA_MAKE_SPEC, IDEA_REVISE_SPEC} \<or>
     j_source j \<noteq> ORCHESTRATOR \<and> j_kind j \<in> {IDEA_REVIEW_PLAN, PR_REVIEW, SPEC_REVIEW, TASK_REVIEW}"

definition plain_decision :: "job \<Rightarrow> status_input \<Rightarrow> decision" where
  "plain_decision j inp = \<lparr>dc_status = ui_status inp, dc_pushed_at = None, dc_branch = ui_branch inp,
     dc_error = ui_error inp, dc_skip_cleanup = (j_kind j = DEPLOY), dc_head_sha = None\<rparr>"

definition pushed_decision :: "status_input \<Rightarrow> done_plan \<Rightarrow> decision" where
  "pushed_decision inp p = \<lparr>dc_status = (if dp_done p then US_DONE else US_FAILED),
     dc_pushed_at = dp_pushed_at p, dc_branch = coalesce (dp_branch p) (ui_branch inp),
     dc_error = coalesce (dp_error p) (ui_error inp), dc_skip_cleanup = dp_skip_cleanup p,
     dc_head_sha = dp_head_sha p\<rparr>"

definition push_and_decide :: "svc_env \<Rightarrow> job \<Rightarrow> status_input \<Rightarrow> world \<Rightarrow> world \<times> (status_error + decision)" where
  "push_and_decide env j inp w = (case prepareDoneUpdate env (j_id j) (ui_branch inp) w of
     Inl _ \<Rightarrow> (w, Inl Status_managed)
   | Inr (w1, p) \<Rightarrow> (w1, Inr (pushed_decision inp p)))"

definition task_gate :: "job \<Rightarrow> status_input \<Rightarrow> db \<Rightarrow> gate_error option" where
  "task_gate j inp d =
     (let t = (case j_task_id j of None \<Rightarrow> None | Some k \<Rightarrow> find_task k d)
      in checkVerifyGate (j_verify_result j) (case t of None \<Rightarrow> False | Some x \<Rightarrow> t_verify_only x)
           (case t of None \<Rightarrow> R_ALIGNED_OR_PARTIAL | Some x \<Rightarrow> t_verify_required x) (ui_summary inp))"

definition decide :: "svc_env \<Rightarrow> job \<Rightarrow> status_input \<Rightarrow> world \<Rightarrow> world \<times> (status_error + decision)" where
  "decide env j inp w =
     (if ui_status inp \<noteq> US_DONE then (w, Inr (plain_decision j inp))
      else if completes_without_worktree j then (w, Inr ((plain_decision j inp)\<lparr>dc_skip_cleanup := True\<rparr>))
      else if j_kind j = DEPLOY then (w, Inr (plain_decision j inp))
      else if j_kind j = SPRINT_IMPLEMENTATION then
        (case checkSprintVerifyGate (j_id j) (w_db w) of
           Some e \<Rightarrow> (w, Inl (Status_sprint_gate e))
         | None \<Rightarrow> push_and_decide env j inp w)
      else (case task_gate j inp (w_db w) of
           Some e \<Rightarrow> (w, Inl (Status_gate e))
         | None \<Rightarrow> push_and_decide env j inp w))"

definition auto_pr_phase :: "svc_env \<Rightarrow> job \<Rightarrow> status_input \<Rightarrow> decision \<Rightarrow> world \<Rightarrow> world \<times> string option" where
  "auto_pr_phase env j inp dc w =
     (if dc_status dc = US_DONE \<and> dc_pushed_at dc \<noteq> None \<and> truthy (dc_branch dc) \<and>
         j_kind j = TASK_IMPLEMENTATION \<and> j_source j \<noteq> MANUAL \<and> truthy (j_task_id j) \<and> \<not> isHarnessJobRow j
      then (case maybeCreateAutoPr env (j_id j) (j_product_id j) (the (j_task_id j)) (the (dc_branch dc)) (ui_summary inp) w of
              Inl _ \<Rightarrow> (w, None) | Inr r \<Rightarrow> r)
      else if dc_status dc = US_DONE \<and> dc_pushed_at dc \<noteq> None \<and> truthy (dc_branch dc) \<and>
         j_kind j = SPRINT_IMPLEMENTATION
      then (case maybeCreateSprintBatchPr env (j_id j) (j_product_id j) (the (dc_branch dc)) (ui_summary inp) w of
              Inl _ \<Rightarrow> (w, None) | Inr r \<Rightarrow> r)
      else (w, None))"

section \<open>The write\<close>

definition job_update_row :: "svc_env \<Rightarrow> job \<Rightarrow> status_input \<Rightarrow> decision \<Rightarrow> string option \<Rightarrow> job \<Rightarrow> job" where
  "job_update_row env snapshot inp dc prUrl j =
     write_usage (ui_usage inp)
       (write_timestamps (resolveJobTimestamps (dc_status dc) (j_claimed_at snapshot) (j_started_at snapshot) (s_now env))
         (j\<lparr>j_status := DB_STATUS_MAP (dc_status dc), j_branch := write_opt (dc_branch dc) (j_branch j),
            j_pushed_at := write_opt (dc_pushed_at dc) (j_pushed_at j),
            j_summary := write_opt (ui_summary inp) (j_summary j), j_error := write_opt (dc_error dc) (j_error j),
            j_pr_url := write_opt prUrl (j_pr_url j), j_head_sha := write_opt (dc_head_sha dc) (j_head_sha j)\<rparr>))"

record written =
  wr_job :: job
  wr_follow_up :: "id option"
  wr_cancelled :: "id list"

text \<open>\<open>claudeJob.update\<close>: the row after the update, or the exception for a missing row.\<close>

definition update_job_row :: "id \<Rightarrow> (job \<Rightarrow> job) \<Rightarrow> world \<Rightarrow> world \<times> (status_error + job)" where
  "update_job_row k f w = (case find_job k (w_db w) of
     None \<Rightarrow> (w, Inl Status_thrown)
   | Some j \<Rightarrow> (with_db (update_jobs (\<lambda>x. j_id x = k) f) w, Inr (f j)))"

definition deploy_write :: "svc_env \<Rightarrow> job \<Rightarrow> status_input \<Rightarrow> decision \<Rightarrow> world \<Rightarrow> world \<times> (status_error + written)" where
  "deploy_write env j inp dc w =
     (case applyDeployTerminalUpdate (s_now env) (j_id j) (j_product_id j) (dc_status dc) (ui_summary inp) (dc_error dc) (w_db w) of
        None \<Rightarrow> (w, Inl Status_thrown)
      | Some (d, cancelled) \<Rightarrow>
          (case find_job (j_id j) d of
             None \<Rightarrow> (w, Inl Status_thrown)
           | Some u \<Rightarrow>
               (w\<lparr>w_db := d\<rparr>,
                Inr \<lparr>wr_job = u\<lparr>j_branch := None, j_pushed_at := None, j_verify_result := None,
                        j_started_at := j_started_at j, j_finished_at := Some (s_now env), j_head_sha := None\<rparr>,
                     wr_follow_up = None, wr_cancelled = cancelled\<rparr>)))"

text \<open>USER messages after the persisted cutoff of the claim.\<close>

definition newer_message :: "job \<Rightarrow> idea_message \<Rightarrow> bool" where
  "newer_message j m \<longleftrightarrow>
     Some (im_idea_id m) = j_idea_id j \<and> im_role m = Role_user \<and>
     (let cutoffAt = or_else (j_chat_cutoff_at j) (j_created_at j);
          cutoffId = or_else (j_chat_cutoff_message_id j) []
      in im_created_at m > cutoffAt \<or> im_created_at m = cutoffAt \<and> im_id m > cutoffId)"

text \<open>
  \<open>readHarnessChoice\<close> of \<open>src/src/lib/harness-choice.ts\<close>: configuration and maximal cost that the
  product has chosen for the kind. The cost is kept as the string that is read.
\<close>

definition readHarnessChoice :: "id \<Rightarrow> job_kind \<Rightarrow> world \<Rightarrow> (string \<times> string) option" where
  "readHarnessChoice productId kind w =
     (case find (\<lambda>c. hc_product_id c = productId \<and> hc_kind c = kind) (w_choices w) of
        None \<Rightarrow> None
      | Some row \<Rightarrow> Some (hc_configuration row, hc_max_cost_usd row))"

definition follow_up_job :: "svc_env \<Rightarrow> job \<Rightarrow> world \<Rightarrow> job" where
  "follow_up_job env j w =
     (let n = (new_job (s_new_id env (w_db w)) (s_now env) (j_user_id j) (j_product_id j) IDEA_CHAT)\<lparr>j_idea_id := j_idea_id j\<rparr>
      in case (if j_product_id j = [] then None else readHarnessChoice (j_product_id j) IDEA_CHAT w) of
           None \<Rightarrow> n
         | Some (configuration, _) \<Rightarrow> n\<lparr>j_runtime := HARNESS, j_requested_model := Some configuration\<rparr>)"

definition assistant_message :: "svc_env \<Rightarrow> job \<Rightarrow> string \<Rightarrow> world \<Rightarrow> idea_message" where
  "assistant_message env j answer w =
     \<lparr>im_id = s_new_id env (w_db w), im_idea_id = the (j_idea_id j), im_role = Role_assistant,
      im_content = answer, im_job_id = Some (j_id j), im_created_at = s_now env\<rparr>"

definition failure_log :: "job \<Rightarrow> decision \<Rightarrow> string \<Rightarrow> idea_log" where
  "failure_log j dc content = \<lparr>il_idea_id = the (j_idea_id j), il_content = content, il_job_id = j_id j, il_error = dc_error dc\<rparr>"

text \<open>The transaction of an ended idea chat: the row, the cost, the answer or the log, and at most one follow-up.\<close>

definition idea_chat_write ::
  "svc_env \<Rightarrow> job \<Rightarrow> status_input \<Rightarrow> decision \<Rightarrow> string option \<Rightarrow> cost_row option \<Rightarrow> world \<Rightarrow> world \<times> (status_error + written)" where
  "idea_chat_write env j inp dc prUrl report w =
     step_then (update_job_row (j_id j) (job_update_row env j inp dc prUrl) w) (\<lambda>w1 u.
       (let w2 = write_cost (s_now env) (j_id j) report w1;
            w3 = (if dc_status dc = US_DONE \<and> truthy (trimmed_answer inp)
                  then w2\<lparr>w_idea_messages := w_idea_messages w2 @ [assistant_message env j (the (trimmed_answer inp)) w2]\<rparr> else w2);
            w4 = (if dc_status dc = US_FAILED
                  then w3\<lparr>w_idea_logs := w_idea_logs w3 @ [failure_log j dc ''IDEA_CHAT failed'']\<rparr> else w3)
        in if \<not> list_ex (newer_message j) (w_idea_messages w4)
           then (w4, Inr \<lparr>wr_job = u, wr_follow_up = None, wr_cancelled = []\<rparr>)
           else (let n = follow_up_job env j w4
                 in (with_db (insert_job n) w4, Inr \<lparr>wr_job = u, wr_follow_up = Some (j_id n), wr_cancelled = []\<rparr>))))"

definition plain_write ::
  "svc_env \<Rightarrow> job \<Rightarrow> status_input \<Rightarrow> decision \<Rightarrow> string option \<Rightarrow> cost_row option \<Rightarrow> world \<Rightarrow> world \<times> (status_error + written)" where
  "plain_write env j inp dc prUrl report w =
     step_then (update_job_row (j_id j) (job_update_row env j inp dc prUrl) w) (\<lambda>w1 u.
       (write_cost (s_now env) (j_id j) report w1, Inr \<lparr>wr_job = u, wr_follow_up = None, wr_cancelled = []\<rparr>))"

definition write_phase ::
  "svc_env \<Rightarrow> job \<Rightarrow> status_input \<Rightarrow> decision \<Rightarrow> string option \<Rightarrow> cost_row option \<Rightarrow> world \<Rightarrow> world \<times> (status_error + written)" where
  "write_phase env j inp dc prUrl report w =
     (if j_kind j = DEPLOY \<and> is_terminal (dc_status dc) then deploy_write env j inp dc w
      else if isSystemIdeaChat j \<and> (dc_status dc = US_DONE \<or> dc_status dc = US_FAILED)
        then idea_chat_write env j inp dc prUrl report w
      else plain_write env j inp dc prUrl report w)"

section \<open>What follows from the write\<close>

definition announce_follow_up :: "written \<Rightarrow> world \<Rightarrow> world" where
  "announce_follow_up wr w = (if truthy (wr_follow_up wr) then call (Job_enqueued (the (wr_follow_up wr))) w else w)"

text \<open>The answer of a plan chat goes to the newest pending question of the idea.\<close>

definition answer_plan_question :: "job \<Rightarrow> status_input \<Rightarrow> decision \<Rightarrow> world \<Rightarrow> world" where
  "answer_plan_question j inp dc w =
     (if dc_status dc = US_DONE \<and> isSystemPlanChat j \<and> truthy (trimmed_answer inp) then
        (case first_by (\<lambda>q. - uq_created_at q) (\<lambda>q. Some (uq_idea_id q) = j_idea_id j \<and> uq_pending q) (w_user_questions w) of
           None \<Rightarrow> w
         | Some q \<Rightarrow> w\<lparr>w_user_questions := update_where (\<lambda>x. uq_id x = uq_id q \<and> uq_pending x)
             (\<lambda>x. x\<lparr>uq_pending := False, uq_answer := trimmed_answer inp\<rparr>) (w_user_questions w)\<rparr>)
      else w)"

definition rolls_up :: "job \<Rightarrow> bool" where
  "rolls_up j \<longleftrightarrow> j_kind j = TASK_IMPLEMENTATION \<and> j_source j \<noteq> MANUAL \<and> truthy (j_task_id j) \<and> \<not> isHarnessJobRow j"

text \<open>The roll-up; its exception is caught and leaves the transaction undone.\<close>

definition propagate_phase :: "svc_env \<Rightarrow> job \<Rightarrow> decision \<Rightarrow> world \<Rightarrow> world \<times> bool" where
  "propagate_phase env j dc w =
     (if (dc_status dc = US_DONE \<or> dc_status dc = US_FAILED) \<and> rolls_up j then
        (case propagateStatusUpwards (s_now env) (the (j_task_id j))
                (if dc_status dc = US_DONE then T_DONE else T_FAILED) None (w_db w) of
           Inl _ \<Rightarrow> (w, False)
         | Inr (d, g) \<Rightarrow> (w\<lparr>w_db := d\<rparr>, dc_status dc = US_DONE \<and> g_sprint_run_changed g))
      else (w, False))"

definition resume_text :: string where
  "resume_text = ''Resolve the conflict on this branch, push, then resume the sprint via the UI.''"

text \<open>One outcome of enabling the merge: a deploy, a paused run, or only a warning.\<close>

definition merge_outcome :: "svc_env \<Rightarrow> job \<Rightarrow> string \<Rightarrow> string \<Rightarrow> auto_merge \<Rightarrow> world \<Rightarrow> world" where
  "merge_outcome env j prUrl headSha out w = (case out of
     Merge_ok _ \<Rightarrow> fst (maybeEnqueueDeployJob env (j_id j) (j_user_id j) (j_product_id j) prUrl headSha w)
   | Merge_failed reason _ \<Rightarrow>
       (if reason \<noteq> MERGE_CONFLICTED then w
        else case find_job (j_id j) (w_db w) of
            None \<Rightarrow> w
          | Some x \<Rightarrow>
              (if \<not> truthy (j_sprint_run_id x) then w
               else fst (run_effects env
                 (snd (sprint_transition (s_now env)
                    \<lparr>ss_kind = K_running, ss_run_id = the (j_sprint_run_id x), ss_pause = None\<rparr>
                    (SR_MERGE_CONFLICT prUrl headSha (s_conflict_files env prUrl) resume_text))) w))))"

definition story_merge_due :: "job \<Rightarrow> db \<Rightarrow> bool" where
  "story_merge_due j d = (case find_job (j_id j) d of
     None \<Rightarrow> False
   | Some x \<Rightarrow> map_option r_pr_strategy (run_of_job (Some x) d) = Some BATCH_STORY \<and>
       (case j_task_id x of None \<Rightarrow> False
        | Some t \<Rightarrow> map_option (\<lambda>(_, st). st_status st) (story_of_task t d) = Some S_DONE))"

definition story_merge_phase :: "svc_env \<Rightarrow> job \<Rightarrow> decision \<Rightarrow> written \<Rightarrow> world \<Rightarrow> world" where
  "story_merge_phase env j dc wr w =
     (let prUrl = j_pr_url (wr_job wr); headSha = dc_head_sha dc
      in if isStoryAutoMergeCandidate (dc_status dc) prUrl headSha (j_kind j) (j_source j) (j_task_id j) \<and>
            story_merge_due j (w_db w)
         then (let (w1, outcomes) = run_effects env
                     (snd (pr_transition (Pr_opened (the prUrl)) (STORY_COMPLETED [] (the headSha)))) w
               in fold (merge_outcome env j (the prUrl) (the headSha)) outcomes w1)
         else w)"

text \<open>A batch run that became DONE: its draft pull request is marked ready, and then deployed.\<close>

definition sprint_done_phase :: "svc_env \<Rightarrow> job \<Rightarrow> written \<Rightarrow> bool \<Rightarrow> world \<Rightarrow> world" where
  "sprint_done_phase env j wr becameDone w =
     (if \<not> becameDone then w
      else case run_of_job (find_job (j_id j) (w_db w)) (w_db w) of
          None \<Rightarrow> w
        | Some r \<Rightarrow>
            (if r_pr_strategy r = BATCH_SPRINT \<and> r_status r = RUN_DONE \<and> r_id r \<noteq> [] then
               (let fallback = (case first_by j_created_at
                        (\<lambda>x. j_sprint_run_id x = Some (r_id r) \<and> j_pr_url x \<noteq> None) (jobs (w_db w)) of
                      None \<Rightarrow> None | Some x \<Rightarrow> j_pr_url x);
                    sprintPrUrl = coalesce (j_pr_url (wr_job wr)) fallback;
                    w1 = (if truthy sprintPrUrl then call (Pr_ready (the sprintPrUrl)) w else w)
                in maybeAutoDeploySprintBatchPr env (j_id j) (j_user_id j) (j_product_id j) (r_id r) w1)
             else w))"

definition failed_idea_status :: "job_kind \<Rightarrow> idea_status option" where
  "failed_idea_status k =
     (if k = IDEA_GRILL then Some I_GRILL_FAILED
      else if k = IDEA_MAKE_PLAN then Some I_PLAN_FAILED
      else if k = IDEA_REVIEW_PLAN then Some I_PLAN_REVIEW_FAILED
      else if k = IDEA_MAKE_SPEC \<or> k = IDEA_REVISE_SPEC then Some I_SPEC_FAILED
      else if k = SPEC_REVIEW then Some I_SPEC_FAILED
      else None)"

definition kind_name :: "job_kind \<Rightarrow> string" where
  "kind_name k = (case k of
     IDEA_GRILL \<Rightarrow> ''IDEA_GRILL'' | IDEA_MAKE_PLAN \<Rightarrow> ''IDEA_MAKE_PLAN'' | IDEA_REVIEW_PLAN \<Rightarrow> ''IDEA_REVIEW_PLAN''
   | IDEA_MAKE_SPEC \<Rightarrow> ''IDEA_MAKE_SPEC'' | IDEA_REVISE_SPEC \<Rightarrow> ''IDEA_REVISE_SPEC'' | SPEC_REVIEW \<Rightarrow> ''SPEC_REVIEW''
   | _ \<Rightarrow> [])"

definition idea_failure_phase :: "job \<Rightarrow> decision \<Rightarrow> world \<Rightarrow> world \<times> (status_error + unit)" where
  "idea_failure_phase j dc w =
     (if dc_status dc = US_FAILED \<and> truthy (j_idea_id j) then
        (case failed_idea_status (j_kind j) of
           None \<Rightarrow> (w, Inr ())
         | Some st \<Rightarrow>
             (if find_by i_id (the (j_idea_id j)) (w_ideas w) = None then (w, Inl Status_thrown)
              else (w\<lparr>w_ideas := update_where (\<lambda>i. Some (i_id i) = j_idea_id j) (\<lambda>i. i\<lparr>i_status := st\<rparr>) (w_ideas w),
                      w_idea_logs := w_idea_logs w @ [failure_log j dc (kind_name (j_kind j) @ '' failed'')]\<rparr>, Inr ())))
      else (w, Inr ()))"

definition notify_phase :: "job \<Rightarrow> written \<Rightarrow> world \<Rightarrow> world" where
  "notify_phase j wr w = fold (\<lambda>k. call (Deploy_cancelled_event k)) (wr_cancelled wr) (call (Job_event (j_id j)) w)"

definition push_phase :: "job \<Rightarrow> decision \<Rightarrow> written \<Rightarrow> world \<Rightarrow> world" where
  "push_phase j dc wr w =
     (if dc_status dc = US_FAILED \<or> dc_status dc = US_DONE then
        (let u = wr_job wr
         in call (Push_note (j_user_id j) (if dc_status dc = US_FAILED then ''Job gefaald'' else ''Job klaar'')
              (slice_to 120 (or_else (coalesce (j_summary u) (j_error u)) (''Job '' @ j_id u)))
              (or_else (j_pr_url u) ''/dashboard'') (''job-'' @ j_id u)) w)
      else w)"

section \<open>Clean-up and the sprint run\<close>

text \<open>The refusal of a guard leaves the handler where the code does not catch it.\<close>

definition backup_phase :: "svc_env \<Rightarrow> job \<Rightarrow> decision \<Rightarrow> written \<Rightarrow> world \<Rightarrow> world \<times> (status_error + unit)" where
  "backup_phase env j dc wr w =
     (if dc_status dc = US_FAILED then
        (case backupPushOnFailure env (j_id j) (j_branch (wr_job wr)) w of
           Inl _ \<Rightarrow> (w, Inl Status_managed) | Inr w1 \<Rightarrow> (w1, Inr ()))
      else (w, Inr ()))"

definition cleanup_phase :: "svc_env \<Rightarrow> job \<Rightarrow> decision \<Rightarrow> written \<Rightarrow> world \<Rightarrow> world" where
  "cleanup_phase env j dc wr w =
     (if is_terminal (dc_status dc) \<and> \<not> dc_skip_cleanup dc then
        (if isHarnessJobRow j then
           (case cleanupWorktreeForTerminalStatus env (j_product_id j) (j_id j) (dc_status dc) (j_branch (wr_job wr)) w of
              Inl _ \<Rightarrow> w | Inr w1 \<Rightarrow> w1)
         else markWorktreeCleanupPending (j_id j) w)
      else w)"

definition cascade_phase :: "svc_env \<Rightarrow> job \<Rightarrow> decision \<Rightarrow> world \<Rightarrow> world" where
  "cascade_phase env j dc w = (if dc_status dc = US_FAILED \<and> rolls_up j then cancelPbiOnFailure env (j_id j) w else w)"

definition finalize_phase :: "svc_env \<Rightarrow> job \<Rightarrow> decision \<Rightarrow> written \<Rightarrow> world \<Rightarrow> world" where
  "finalize_phase env j dc wr w =
     (if dc_status dc = US_DONE \<and> j_kind j = SPRINT_IMPLEMENTATION \<and> truthy (j_sprint_run_id j) then
        (let runId = the (j_sprint_run_id j); w1 = with_db (finalizeSprintRunOnDone (s_now env) runId) w
         in if map_option r_status (find_run runId (w_db w1)) = Some RUN_DONE \<and> truthy (j_pr_url (wr_job wr))
            then maybeAutoDeploySprintBatchPr env (j_id j) (j_user_id j) (j_product_id j) runId
                   (call (Pr_ready (the (j_pr_url (wr_job wr)))) w1)
            else w1)
      else w)"

text \<open>\<open>match(/task[:\s]+([a-z0-9]+)/i)\<close>: the first group of the leftmost match.\<close>

definition lower_char :: "char \<Rightarrow> char" where
  "lower_char c = (if (65::nat) \<le> of_char c \<and> of_char c \<le> (90::nat) then char_of (of_char c + (32::nat)) else c)"

definition is_alnum :: "char \<Rightarrow> bool" where
  "is_alnum c \<longleftrightarrow> is_word_char c \<and> c \<noteq> CHR ''_''"

definition task_word_here :: "string \<Rightarrow> string option" where
  "task_word_here s =
     (if map lower_char (take 4 s) \<noteq> ''task'' then None
      else (let rest = drop 4 s; sep = (\<lambda>c. c = CHR '':'' \<or> js_space c); word = takeWhile is_alnum (dropWhile sep rest)
            in if takeWhile sep rest = [] \<or> word = [] then None else Some word))"

fun failed_task_word :: "string \<Rightarrow> string option" where
  "failed_task_word [] = None"
| "failed_task_word (c # s) = (case task_word_here (c # s) of Some x \<Rightarrow> Some x | None \<Rightarrow> failed_task_word s)"

definition quota_context :: "svc_env \<Rightarrow> job \<Rightarrow> written \<Rightarrow> db \<Rightarrow> quota_pause" where
  "quota_context env j wr d =
     (let lastDone = first_by (\<lambda>e. - e_order e) (\<lambda>e. e_sprint_job_id e = j_id j \<and> e_status e = E_DONE) (execs d)
      in \<lparr>qp_paused_at = s_now env, qp_last_execution_id = map_option e_id lastDone,
          qp_last_order = map_option e_order lastDone, qp_last_task_id = map_option e_task_id lastDone,
          qp_pr_url = j_pr_url (wr_job wr), qp_pr_head_sha = j_head_sha (wr_job wr)\<rparr>)"

definition run_failure_row :: "svc_env \<Rightarrow> string option \<Rightarrow> sprint_run \<Rightarrow> sprint_run" where
  "run_failure_row env err r = r\<lparr>r_status := RUN_FAILED, r_failure_reason := map_option (slice_to 500) err,
     r_failed_task_id := (case err of None \<Rightarrow> None | Some e \<Rightarrow> failed_task_word e), r_finished_at := Some (s_now env)\<rparr>"

definition sprint_failure_phase :: "svc_env \<Rightarrow> job \<Rightarrow> decision \<Rightarrow> written \<Rightarrow> world \<Rightarrow> world \<times> (status_error + unit)" where
  "sprint_failure_phase env j dc wr w =
     (if dc_status dc = US_FAILED \<and> j_kind j = SPRINT_IMPLEMENTATION \<and> truthy (j_sprint_run_id j) then
        (let runId = the (j_sprint_run_id j)
         in if find_run runId (w_db w) = None then (w, Inl Status_thrown)
            else if starts_with ''QUOTA_PAUSE:'' (or_else (dc_error dc) []) then
              (with_db (update_runs (\<lambda>r. r_id r = runId)
                 (\<lambda>r. r\<lparr>r_status := RUN_PAUSED, r_pause_context := Some (Quota_pause (quota_context env j wr (w_db w)))\<rparr>)) w, Inr ())
            else (with_db (update_runs (\<lambda>r. r_id r = runId) (run_failure_row env (dc_error dc))) w, Inr ()))
      else (w, Inr ()))"

definition locks_phase :: "job \<Rightarrow> decision \<Rightarrow> world \<Rightarrow> world" where
  "locks_phase j dc w = (if is_terminal (dc_status dc) then call (Locks_released (j_id j)) w else w)"

section \<open>The handler\<close>

definition after_write ::
  "svc_env \<Rightarrow> id \<Rightarrow> job \<Rightarrow> status_input \<Rightarrow> decision \<Rightarrow> written \<Rightarrow> world \<Rightarrow> world \<times> (status_error + status_reply)" where
  "after_write env user j inp dc wr w =
     (let w1 = answer_plan_question j inp dc (announce_follow_up wr w);
          (w2, becameDone) = propagate_phase env j dc w1;
          w3 = sprint_done_phase env j wr becameDone (story_merge_phase env j dc wr w2)
      in step_then (idea_failure_phase j dc w3) (\<lambda>w4 _.
         step_then (backup_phase env j dc wr (push_phase j dc wr (notify_phase j wr w4))) (\<lambda>w5 _.
           (let w6 = finalize_phase env j dc wr (cascade_phase env j dc (cleanup_phase env j dc wr w5))
            in step_then (sprint_failure_phase env j dc wr w6) (\<lambda>w7 _.
                 (let w8 = locks_phase j dc w7
                  in (w8, Inr (Job_reply (dc_status dc) (wr_job wr)
                        (resolveNextAction (queued_count user (w_db w8)) (dc_status dc))))))))))"

definition docs_audit_phase :: "svc_env \<Rightarrow> id \<Rightarrow> job \<Rightarrow> status_input \<Rightarrow> world \<Rightarrow> world \<times> (status_error + status_reply)" where
  "docs_audit_phase env token j inp w =
     (case applyDocsAuditTerminalUpdate env (j_id j) (Some token) (ui_status inp) (j_source j) (ui_summary inp)
             (ui_error inp) (ui_processed_until inp) (or_else (ui_capped inp) False) (w_db w) of
        (d, Inl e) \<Rightarrow> (w\<lparr>w_db := d\<rparr>, Inl (Status_docs e))
      | (d, Inr st) \<Rightarrow> (w\<lparr>w_db := d\<rparr>, Inr (Docs_reply (j_id j) st)))"

definition work_phase ::
  "svc_env \<Rightarrow> id \<Rightarrow> job \<Rightarrow> status_input \<Rightarrow> cost_row option \<Rightarrow> world \<Rightarrow> world \<times> (status_error + status_reply)" where
  "work_phase env user j inp report w =
     (case answer_guard j inp of
        Some e \<Rightarrow> (w, Inl e)
      | None \<Rightarrow>
          step_then (decide env j inp w) (\<lambda>w1 dc.
            (let (w2, prUrl) = auto_pr_phase env j inp dc w1
             in step_then (write_phase env j inp dc prUrl report w2) (\<lambda>w3 wr. after_write env user j inp dc wr w3))))"

definition update_job_status ::
  "svc_env \<Rightarrow> id \<Rightarrow> id \<Rightarrow> id \<Rightarrow> status_input \<Rightarrow> world \<Rightarrow> world \<times> (status_error + status_reply)" where
  "update_job_status env token user k inp w =
     (case caller_guard token k (w_db w) of
        Inl e \<Rightarrow> (w, Inl e)
      | Inr j \<Rightarrow>
          (case cost_guard env j inp of
             Inl e \<Rightarrow> (w, Inl e)
           | Inr report \<Rightarrow>
               (if j_kind j = DOCS_AUDIT \<and> ui_status inp \<noteq> US_RUNNING then docs_audit_phase env token j inp w
                else case skip_guard j inp of
                    Some e \<Rightarrow> (w, Inl e)
                  | None \<Rightarrow>
                      (if j_kind j = AGENT_CHAT then agent_chat_phase env token user j inp report w
                       else work_phase env user j inp report w))))"

end
