(* ===== verification/Job_Status_Laws.thy ===== *)
theory Job_Status_Laws
  imports Job_Status
begin

text \<open>
  What the handler \<open>update_job_status\<close> guarantees. The phases after the write are many, so the facts
  that survive all of them are proved once, in the locale \<open>handler_invariant\<close>, from what the single
  calls keep, and interpreted for the cost reports, the reported status, and the planning tables of
  harness jobs.
\<close>

lemma finalize_runs_only:
  "finalizeSprintRunOnDone now k d = d \<or>
   (\<exists>p f. (\<forall>r. r_id (f r) = r_id r) \<and> finalizeSprintRunOnDone now k d = update_runs p f d)"
proof (cases "find_run k d")
  case (Some r)
  let ?f = "\<lambda>x :: sprint_run. x\<lparr>r_status := RUN_DONE, r_finished_at := Some now\<rparr>"
  have "finalizeSprintRunOnDone now k d = d \<or>
      finalizeSprintRunOnDone now k d = update_runs (\<lambda>x. r_id x = k) ?f d"
    using Some by (simp add: finalizeSprintRunOnDone_def)
  then show ?thesis
  proof
    assume "finalizeSprintRunOnDone now k d = update_runs (\<lambda>x. r_id x = k) ?f d"
    then show ?thesis by (intro disjI2 exI [of _ "\<lambda>x. r_id x = k"] exI [of _ ?f]) simp
  qed simp
qed (simp add: finalizeSprintRunOnDone_def)

section \<open>Invariants of the phases after the write\<close>

locale handler_invariant =
  fixes env :: svc_env and j :: job and dc :: decision and I :: "world \<Rightarrow> bool"
  assumes keep_call: "I w \<Longrightarrow> I (call c w)"
    and keep_effects: "I w \<Longrightarrow> I (fst (run_effects env fs w))"
    and keep_enqueue: "I w \<Longrightarrow> I (fst (maybeEnqueueDeployJob env parent user product url sha w))"
    and keep_questions: "I w \<Longrightarrow> I (w\<lparr>w_user_questions := qs\<rparr>)"
    and keep_ideas: "I w \<Longrightarrow> I (w\<lparr>w_ideas := is, w_idea_logs := ls\<rparr>)"
    and keep_pending: "I w \<Longrightarrow> I (w\<lparr>w_cleanup_pending := ks\<rparr>)"
    and keep_runs: "I w \<Longrightarrow> (\<And>r. r_id (f r) = r_id r) \<Longrightarrow> I (with_db (update_runs p f) w)"
    and keep_propagation: "I w \<Longrightarrow> I (fst (propagate_phase env j dc w))"
    and keep_cascade: "I w \<Longrightarrow> I (cascade_phase env j dc w)"
begin

lemma keep_auto_deploy: "I w \<Longrightarrow> I (maybeAutoDeploySprintBatchPr env a b c d w)"
proof -
  assume I: "I w"
  have enq: "I (fst (run_effects env fs w)) \<Longrightarrow>
      I (fst (maybeEnqueueDeployJob env a b c url sha (fst (run_effects env fs w))))" for fs url sha
    by (rule keep_enqueue)
  show ?thesis
    unfolding maybeAutoDeploySprintBatchPr_def Let_def split_beta
    by (simp add: I keep_call keep_effects enq split: option.split deploy_eligibility.split)
qed

lemma keep_fold_call: "I w \<Longrightarrow> I (fold (\<lambda>k. call (g k)) ks w)"
  by (induction ks arbitrary: w) (simp_all add: keep_call)

lemma keep_answer: "I w \<Longrightarrow> I (answer_plan_question j inp dc (announce_follow_up wr w))"
  by (simp add: answer_plan_question_def announce_follow_up_def keep_questions keep_call split: option.split)

lemma keep_merge_outcome: "I w \<Longrightarrow> I (merge_outcome env j url sha out w)"
  by (simp add: merge_outcome_def keep_enqueue keep_effects split: auto_merge.split option.split)

lemma keep_story_merge: "I w \<Longrightarrow> I (story_merge_phase env j dc wr w)"
proof -
  assume I: "I w"
  have "I x \<Longrightarrow> I (fold (merge_outcome env j url sha) outs x)" for url sha outs x
    by (induction outs arbitrary: x) (simp_all add: keep_merge_outcome)
  with keep_effects [OF I] show ?thesis
    by (simp add: story_merge_phase_def Let_def split_beta I)
qed

lemma keep_sprint_done: "I w \<Longrightarrow> I (sprint_done_phase env j wr became w)"
  by (simp add: sprint_done_phase_def Let_def keep_auto_deploy keep_call split: option.split)

lemma keep_idea_failure: "I w \<Longrightarrow> I (fst (idea_failure_phase j dc w))"
  by (simp add: idea_failure_phase_def keep_ideas split: option.split)

lemma keep_notify_push: "I w \<Longrightarrow> I (push_phase j dc wr (notify_phase j wr w))"
  by (simp add: push_phase_def notify_phase_def Let_def keep_call keep_fold_call)

lemma keep_backup: "I w \<Longrightarrow> I (fst (backup_phase env j dc wr w))"
proof -
  assume I: "I w"
  have "backupPushOnFailure env k b w = Inr x \<Longrightarrow> I x" for k b x
    using I keep_call by (auto simp: backupPushOnFailure_def and_then_Inr_iff split: if_splits)
  then show ?thesis by (simp add: backup_phase_def I split: sum.split)
qed

lemma keep_cleanup: "I w \<Longrightarrow> I (cleanup_phase env j dc wr w)"
proof -
  assume I: "I w"
  have "cleanupWorktreeForTerminalStatus env q k st b w = Inr x \<Longrightarrow> I x" for q k st b x
    using I keep_call
    by (auto simp: cleanupWorktreeForTerminalStatus_def Let_def and_then_Inr_iff split: if_splits option.splits)
  then show ?thesis by (simp add: cleanup_phase_def markWorktreeCleanupPending_def I keep_pending split: sum.split)
qed

lemma keep_finalize: "I w \<Longrightarrow> I (finalize_phase env j dc wr w)"
proof -
  assume I: "I w"
  have "I (with_db (finalizeSprintRunOnDone now k) w)" for now k
    using finalize_runs_only [of now k "w_db w"]
  proof (elim disjE exE conjE)
    fix p f assume ids: "\<forall>r. r_id (f r) = r_id r" and f: "finalizeSprintRunOnDone now k (w_db w) = update_runs p f (w_db w)"
    have "I (with_db (update_runs p f) w)" by (rule keep_runs [OF I]) (simp add: ids)
    then show ?thesis by (simp add: with_db_def f)
  qed (simp add: with_db_def I)
  then show ?thesis by (simp add: finalize_phase_def Let_def I keep_auto_deploy keep_call)
qed

lemma keep_sprint_failure: "I w \<Longrightarrow> I (fst (sprint_failure_phase env j dc wr w))"
  by (simp add: sprint_failure_phase_def Let_def keep_runs run_failure_row_def)

lemma keep_locks: "I w \<Longrightarrow> I (locks_phase j dc w)"
  by (simp add: locks_phase_def keep_call)

lemma keep_step:
  "I (fst r) \<Longrightarrow> (\<And>s x. I s \<Longrightarrow> I (fst (k s x))) \<Longrightarrow> I (fst (step_then r k))"
  by (cases r; cases "snd r") auto

lemma after_write_keeps: "I w \<Longrightarrow> I (fst (after_write env user j inp dc wr w))"
proof -
  assume I: "I w"
  let ?w2 = "fst (propagate_phase env j dc (answer_plan_question j inp dc (announce_follow_up wr w)))"
  have "I ?w2" by (intro keep_propagation keep_answer I)
  then have w3: "I (sprint_done_phase env j wr b (story_merge_phase env j dc wr ?w2))" for b
    by (intro keep_sprint_done keep_story_merge)
  show ?thesis
    unfolding after_write_def Let_def split_beta
    by (intro keep_step [OF keep_idea_failure [OF w3]] keep_step [OF keep_backup [OF keep_notify_push]]
        keep_step [OF keep_sprint_failure [OF keep_finalize [OF keep_cascade [OF keep_cleanup]]]])
      (assumption | simp only: fst_conv, erule keep_locks)+
qed

end

section \<open>What the single calls keep\<close>

lemma run_effects_frame [simp]:
  "w_costs (fst (run_effects env fs w)) = w_costs w"
  "jobs (w_db (fst (run_effects env fs w))) = jobs (w_db w)"
  "tasks (w_db (fst (run_effects env fs w))) = tasks (w_db w)"
  "stories (w_db (fst (run_effects env fs w))) = stories (w_db w)"
  "pbis (w_db (fst (run_effects env fs w))) = pbis (w_db w)"
  "sprints (w_db (fst (run_effects env fs w))) = sprints (w_db w)"
  "execs (w_db (fst (run_effects env fs w))) = execs (w_db w)"
proof -
  let ?x = "\<lparr>x_db = w_db w, x_calls = [], x_last_question = None, x_outcomes = []\<rparr>"
  let ?I = "\<lambda>x. jobs (x_db x) = jobs (w_db w) \<and> tasks (x_db x) = tasks (w_db w) \<and>
    stories (x_db x) = stories (w_db w) \<and> pbis (x_db x) = pbis (w_db w) \<and>
    sprints (x_db x) = sprints (w_db w) \<and> execs (x_db x) = execs (w_db w)"
  have "?I (effect_loop (s_effects env) fs ?x)"
  proof (rule effect_loop_invariant)
    fix f x x' assume "?I x" "executeEffect (s_effects env) f x = Some x'"
    then show "?I x'"
      by (cases f) (auto simp: executeEffect_def createOrReuseClaudeQuestion_def applySprintRunStatus_def
          split: if_splits option.splits)
  qed simp
  then show "jobs (w_db (fst (run_effects env fs w))) = jobs (w_db w)"
    "tasks (w_db (fst (run_effects env fs w))) = tasks (w_db w)"
    "stories (w_db (fst (run_effects env fs w))) = stories (w_db w)"
    "pbis (w_db (fst (run_effects env fs w))) = pbis (w_db w)"
    "sprints (w_db (fst (run_effects env fs w))) = sprints (w_db w)"
    "execs (w_db (fst (run_effects env fs w))) = execs (w_db w)"
    by (simp_all add: run_effects_def Let_def executeEffects_def)
  show "w_costs (fst (run_effects env fs w)) = w_costs w" by (simp add: run_effects_def Let_def)
qed

text \<open>An enqueued deploy is a new row at the end; everything else stays.\<close>

lemma enqueue_frame [simp]:
  "w_costs (fst (maybeEnqueueDeployJob env parent user q url sha w)) = w_costs w"
  "tasks (w_db (fst (maybeEnqueueDeployJob env parent user q url sha w))) = tasks (w_db w)"
  "stories (w_db (fst (maybeEnqueueDeployJob env parent user q url sha w))) = stories (w_db w)"
  "pbis (w_db (fst (maybeEnqueueDeployJob env parent user q url sha w))) = pbis (w_db w)"
  "sprints (w_db (fst (maybeEnqueueDeployJob env parent user q url sha w))) = sprints (w_db w)"
  "execs (w_db (fst (maybeEnqueueDeployJob env parent user q url sha w))) = execs (w_db w)"
  by (simp_all add: maybeEnqueueDeployJob_def Let_def split: deploy_eligibility.split)

lemma find_job_insert: "find_job k d = Some x \<Longrightarrow> find_job k (insert_job n d) = Some x"
  by (simp add: find_job_def find_by_append)

lemma enqueue_keeps_job:
  "find_job k (w_db w) = Some x \<Longrightarrow>
   find_job k (w_db (fst (maybeEnqueueDeployJob env parent user q url sha w))) = Some x"
  by (cases rule: enqueue_cases [of env parent user q url sha w]) (simp_all only: find_job_insert)

text \<open>A roll-up cancels active jobs only.\<close>

lemma propagate_keeps_ended_job:
  assumes "propagateStatusUpwards now t s sr d = Inr (d', g)"
    and "find_job k d = Some x" and "\<not> active (j_status x)"
  shows "find_job k d' = Some x"
proof -
  have "find_by j_id k (map (cancel_job now t r ex) js) = map_option (cancel_job now t r ex) (find_by j_id k js)" for r ex js
    by (induction js) (auto simp: find_by_simps cancel_job_def)
  moreover have "cancel_job now t r ex x = x" for r ex
    using assms(3) by (simp add: cancel_job_def cancellable_def)
  ultimately show ?thesis
    using propagate_run_outcome [OF assms(1)] assms(2) by (auto simp: find_job_def)
qed

text \<open>The cascade, without any condition on the keys: the failed row gets its trace and nothing else.\<close>

lemma drop_worktree_costs: "w_costs (fst (drop_worktree env d q j s)) = w_costs (fst s)"
  by (cases s) (simp add: drop_worktree_def Let_def)

lemma process_bucket_costs: "w_costs (fst (process_bucket env f n b s)) = w_costs (fst s)"
proof -
  have "w_costs (fst (tryDeleteBranch env root branch h s)) = w_costs (fst s)" for root branch h s
    by (cases s) (simp add: tryDeleteBranch_def Let_def split: delete_outcome.split)
  then show ?thesis by (simp add: process_bucket_def Let_def split: option.split forge_state.split)
qed

lemma fold_costs: "(\<And>x s. w_costs (fst (f x s)) = w_costs (fst s)) \<Longrightarrow> w_costs (fst (fold f xs s)) = w_costs (fst s)"
  by (induction xs arbitrary: s) simp_all

lemma cancel_siblings_costs: "w_costs (cancel_siblings env js w) = w_costs w"
proof -
  have "w_costs (fold (\<lambda>j. call (Locks_released (j_id j))) ks x) = w_costs x" for ks :: "job list" and x
    by (induction ks arbitrary: x) simp_all
  moreover have "w_costs (fold (\<lambda>j. with_db (notify_job (j_id j))) ks x) = w_costs x" for ks :: "job list" and x
    by (induction ks arbitrary: x) simp_all
  ultimately show ?thesis by (simp add: cancel_siblings_def)
qed

lemma cascade_cases:
  obtains (nothing) "cancelPbiOnFailure env k w = w"
  | (cascaded) out w3 js where "cancelPbiOnFailure env k w = leave_trace k out w3"
      "w_db w3 = w_db (cancel_siblings env js w)" "w_costs w3 = w_costs w" "\<forall>j \<in> set js. j_id j \<noteq> k"
proof (cases "\<exists>f p. find_job k (w_db w) = Some f \<and> j_kind f = TASK_IMPLEMENTATION \<and> j_status f \<noteq> J_SKIPPED \<and>
    pbi_of_job (w_db w) f = Some p")
  case True
  then obtain f p where f: "find_job k (w_db w) = Some f" "j_kind f = TASK_IMPLEMENTATION" "j_status f \<noteq> J_SKIPPED"
    "pbi_of_job (w_db w) f = Some p" by blast
  let ?d = "w_db w"
  define el where "el = filter (cascade_sibling ?d k p) (jobs ?d)"
  define s2 where "s2 = fold (process_bucket env f (cascade_note p k)) (buckets_of ?d (el @ [f]))
    (cancel_siblings env el w, EMPTY\<lparr>co_cancelled := map j_id el\<rparr>)"
  define s3 where "s3 = fold (drop_worktree env ?d (j_product_id f)) el s2"
  show thesis
  proof (rule cascaded)
    show "cancelPbiOnFailure env k w = leave_trace k (snd s3) (fst s3)"
      using f by (simp add: cancelPbiOnFailure_def runCascade_def Let_def split_beta s3_def s2_def el_def)
    show "w_db (fst s3) = w_db (cancel_siblings env el w)"
      by (simp add: s3_def s2_def fold_world_db drop_worktree_db process_bucket_db)
    show "w_costs (fst s3) = w_costs w"
      by (simp add: s3_def s2_def fold_costs drop_worktree_costs process_bucket_costs cancel_siblings_costs)
    show "\<forall>j \<in> set el. j_id j \<noteq> k" by (simp add: el_def cascade_sibling_def)
  qed
next
  case False
  then have "cancelPbiOnFailure env k w = w"
    by (auto simp: cancelPbiOnFailure_def runCascade_def split: option.split)
  then show thesis by (rule nothing)
qed

lemma cascade_costs: "w_costs (cancelPbiOnFailure env k w) = w_costs w"
  by (cases rule: cascade_cases [of env k w]) (simp_all add: leave_trace_def)

lemma cascade_keeps_failed_job:
  assumes "find_job k (w_db w) = Some x"
  shows "\<exists>e. find_job k (w_db (cancelPbiOnFailure env k w)) = Some (x\<lparr>j_error := e\<rparr>)"
proof (cases rule: cascade_cases [of env k w])
  case nothing
  then have "find_job k (w_db (cancelPbiOnFailure env k w)) = Some (x\<lparr>j_error := j_error x\<rparr>)" using assms by simp
  then show ?thesis by blast
next
  case (cascaded out w3 js)
  have "jobs (w_db w3) = update_where (\<lambda>j. j_id j \<in> set (map j_id js)) (cascade_row (s_now env)) (jobs (w_db w))"
    by (simp only: cascaded(2) cancel_siblings_db fold_notify_frame update_jobs_frame)
  then have "find_job k (w_db w3) =
      map_option (\<lambda>j. if j_id j \<in> set (map j_id js) then cascade_row (s_now env) j else j) (find_job k (w_db w))"
    by (simp only: find_job_def find_by_update_where cascade_row_simps)
  moreover have "j_id x \<notin> set (map j_id js)" using find_job_id [OF assms] cascaded(4) by auto
  ultimately have "find_job k (w_db w3) = Some x" by (simp only: assms option.map if_False)
  define m where "m = merged_error (case find_job k (w_db w3) of None \<Rightarrow> None | Some x \<Rightarrow> j_error x) (formatTrace out)"
  have "w_db (leave_trace k out w3) = update_jobs (\<lambda>j. j_id j = k) (\<lambda>j. j\<lparr>j_error := Some m\<rparr>) (w_db w3)"
    by (simp only: leave_trace_def with_db_frame m_def)
  then have "find_job k (w_db (leave_trace k out w3)) =
      map_option (\<lambda>j. if j_id j = k then j\<lparr>j_error := Some m\<rparr> else j) (find_job k (w_db w3))"
    by (simp add: find_job_update_jobs)
  then have "find_job k (w_db (leave_trace k out w3)) = Some (x\<lparr>j_error := Some m\<rparr>)"
    by (simp only: \<open>find_job k (w_db w3) = Some x\<close> option.map find_job_id [OF assms] if_True refl)
  then show ?thesis unfolding cascaded(1) by blast
qed

section \<open>The interpretations\<close>

text \<open>Cost reports are written with the row and never again.\<close>

lemma propagate_phase_costs: "w_costs (fst (propagate_phase env j dc w)) = w_costs w"
  by (simp add: propagate_phase_def split: sum.split)

lemma cascade_phase_costs: "w_costs (cascade_phase env j dc w) = w_costs w"
  by (simp add: cascade_phase_def cascade_costs)

interpretation costs: handler_invariant env j dc "\<lambda>w. w_costs w = cs" for env j dc cs
  by unfold_locales (simp_all add: propagate_phase_costs cascade_phase_costs)

text \<open>The row of an ended job stays as it was written, but for the trace of a cascade.\<close>

definition row_kept :: "id \<Rightarrow> job \<Rightarrow> world \<Rightarrow> bool" where
  "row_kept k u w \<longleftrightarrow> (\<exists>e. find_job k (w_db w) = Some (u\<lparr>j_error := e\<rparr>))"

lemma row_kept_cascade:
  assumes "row_kept k u w"
  shows "row_kept k u (cancelPbiOnFailure env k w)"
proof -
  obtain e where "find_job k (w_db w) = Some (u\<lparr>j_error := e\<rparr>)" using assms by (auto simp: row_kept_def)
  from cascade_keeps_failed_job [OF this, of env] show ?thesis by (auto simp: row_kept_def)
qed

definition decided_row :: "job \<Rightarrow> decision \<Rightarrow> job \<Rightarrow> bool" where
  "decided_row j dc u \<longleftrightarrow> j_status u = DB_STATUS_MAP (dc_status dc)"

lemma row_kept_propagate:
  assumes "row_kept k u w" and "decided_row j dc u"
  shows "row_kept k u (fst (propagate_phase env j dc w))"
proof (cases "(dc_status dc = US_DONE \<or> dc_status dc = US_FAILED) \<and> rolls_up j")
  case True
  then have "\<not> active (j_status u)" using assms(2) by (auto simp: decided_row_def DB_STATUS_MAP_def)
  obtain e where e: "find_job k (w_db w) = Some (u\<lparr>j_error := e\<rparr>)" using assms(1) by (auto simp: row_kept_def)
  show ?thesis
    using assms(1) True propagate_keeps_ended_job [OF _ e] \<open>\<not> active (j_status u)\<close>
    by (auto simp: propagate_phase_def row_kept_def split: sum.split)
next
  case False
  then have "propagate_phase env j dc w = (w, False)" by (simp only: propagate_phase_def if_False)
  then show ?thesis using assms(1) by simp
qed

interpretation row: handler_invariant env j dc "\<lambda>w. decided_row j dc u \<longrightarrow> row_kept (j_id j) u w" for env j dc u
proof unfold_locales
  fix w parent user product url sha
  assume "decided_row j dc u \<longrightarrow> row_kept (j_id j) u w"
  then show "decided_row j dc u \<longrightarrow> row_kept (j_id j) u (fst (maybeEnqueueDeployJob env parent user product url sha w))"
    using enqueue_keeps_job by (fastforce simp: row_kept_def)
next
  fix w assume "decided_row j dc u \<longrightarrow> row_kept (j_id j) u w"
  then show "decided_row j dc u \<longrightarrow> row_kept (j_id j) u (cascade_phase env j dc w)"
    by (simp add: cascade_phase_def row_kept_cascade)
next
  fix w assume "decided_row j dc u \<longrightarrow> row_kept (j_id j) u w"
  then show "decided_row j dc u \<longrightarrow> row_kept (j_id j) u (fst (propagate_phase env j dc w))"
    using row_kept_propagate by blast
qed (simp_all add: row_kept_def find_job_def)

text \<open>
  A request of a job that does not roll up is confined to its own row: the planning tables and the
  rows of other jobs stay.
\<close>

definition planning :: "world \<Rightarrow> task list \<times> story list \<times> pbi list \<times> sprint list \<times> execution list" where
  "planning w = (tasks (w_db w), stories (w_db w), pbis (w_db w), sprints (w_db w), execs (w_db w))"

definition confined :: "id \<Rightarrow> world \<Rightarrow> world \<Rightarrow> bool" where
  "confined k w w' \<longleftrightarrow> planning w' = planning w \<and>
     (\<forall>i x. i \<noteq> k \<longrightarrow> find_job i (w_db w) = Some x \<longrightarrow> find_job i (w_db w') = Some x)"

lemma confined_refl [simp]: "confined k w w"
  by (simp add: confined_def)

lemma confined_same_db: "confined k w0 w \<Longrightarrow> w_db w' = w_db w \<Longrightarrow> confined k w0 w'"
  by (simp add: confined_def planning_def)

lemma confined_trans: "confined k w w' \<Longrightarrow> confined k w' w'' \<Longrightarrow> confined k w w''"
  by (simp add: confined_def)

lemma confined_rows:
  "confined k w0 w \<Longrightarrow> planning w' = planning w \<Longrightarrow> (\<And>i x. find_job i (w_db w) = Some x \<Longrightarrow> find_job i (w_db w') = Some x) \<Longrightarrow>
   confined k w0 w'"
  by (simp add: confined_def)

lemma confined_update:
  assumes "\<And>x. j_id (f x) = j_id x" and "\<And>x. p x \<Longrightarrow> j_id x = k"
  shows "confined k w (with_db (update_jobs p f) w)"
proof (unfold confined_def, intro conjI allI impI)
  show "planning (with_db (update_jobs p f) w) = planning w" by (simp add: planning_def)
  fix i x assume i: "i \<noteq> k" "find_job i (w_db w) = Some x"
  then have "\<not> p x" using assms(2) find_job_id [OF i(2)] by blast
  then show "find_job i (w_db (with_db (update_jobs p f) w)) = Some x"
    by (simp add: find_job_update_jobs assms(1) i(2))
qed

interpretation own: handler_invariant env j dc "\<lambda>w. rolls_up j \<or> confined (j_id j) w0 w" for env j dc w0
proof unfold_locales
  fix w fs assume "rolls_up j \<or> confined (j_id j) w0 w"
  then show "rolls_up j \<or> confined (j_id j) w0 (fst (run_effects env fs w))"
    using confined_rows [of "j_id j" w0 w "fst (run_effects env fs w)"] by (auto simp: planning_def find_job_def)
next
  fix w parent user product url sha assume "rolls_up j \<or> confined (j_id j) w0 w"
  then show "rolls_up j \<or> confined (j_id j) w0 (fst (maybeEnqueueDeployJob env parent user product url sha w))"
    using confined_rows [of "j_id j" w0 w] enqueue_keeps_job by (fastforce simp: planning_def)
next
  fix w p f assume "rolls_up j \<or> confined (j_id j) w0 w"
  then show "rolls_up j \<or> confined (j_id j) w0 (with_db (update_runs p f) w)"
    by (simp add: confined_def planning_def find_job_def)
qed (auto simp: propagate_phase_def cascade_phase_def confined_def planning_def)

section \<open>Primary keys\<close>

text \<open>The keys of all tables; updates keep them as lists, new rows add a fresh one.\<close>

definition table_keys :: "db \<Rightarrow> id list \<times> id list \<times> id list \<times> id list \<times> id list \<times> id list" where
  "table_keys d = (map t_id (tasks d), map st_id (stories d), map p_id (pbis d), map sp_id (sprints d),
     map r_id (runs d), map e_id (execs d))"

lemma keys_ok_same:
  "keys_ok d \<Longrightarrow> table_keys d' = table_keys d \<Longrightarrow> map j_id (jobs d') = map j_id (jobs d) \<Longrightarrow> keys_ok d'"
  by (simp add: keys_ok_def table_keys_def)

lemma keys_ok_update_jobs: "keys_ok d \<Longrightarrow> (\<And>j. j_id (f j) = j_id j) \<Longrightarrow> keys_ok (update_jobs p f d)"
  by (erule keys_ok_same) (simp_all add: table_keys_def map_update_where)

lemma keys_ok_insert: "keys_ok d \<Longrightarrow> j_id n \<notin> j_id ` set (jobs d) \<Longrightarrow> keys_ok (insert_job n d)"
  by (simp add: keys_ok_def)

lemma table_keys_frames [simp]:
  "table_keys (set_story_status i s d) = table_keys d" "table_keys (set_pbi_status i p d) = table_keys d"
  "table_keys (set_sprint_status now i q d) = table_keys d" "table_keys (set_task_status i t d) = table_keys d"
  "table_keys (update_jobs p' f d) = table_keys d" "table_keys (notify_job i d) = table_keys d"
  "table_keys (fold notify_job is d) = table_keys d"
  "(\<And>r. r_id (g r) = r_id r) \<Longrightarrow> table_keys (update_runs p'' g d) = table_keys d"
  by (simp_all add: table_keys_def set_story_status_def set_pbi_status_def set_sprint_status_def set_task_status_def
      map_update_where)

lemma propagate_table_keys:
  assumes "propagateStatusUpwards now k s sr d = Inr (d', g)"
  shows "table_keys d' = table_keys d" and "map j_id (jobs d') = map j_id (jobs d)"
proof -
  have story: "reevaluate_story a b = Inr (c, x, y) \<Longrightarrow> table_keys c = table_keys b" for a b c x y
    by (auto simp: reevaluate_story_def Let_def split: option.splits if_splits)
  have pbi: "reevaluate_pbi a b = Inr (c, x) \<Longrightarrow> table_keys c = table_keys b" for a b c x
    by (auto simp: reevaluate_pbi_def Let_def split: option.splits if_splits)
  have sprint: "reevaluate_sprint now a b = Inr (c, x, y) \<Longrightarrow> table_keys c = table_keys b" for a b c x y
    by (auto simp: reevaluate_sprint_def Let_def split: option.splits if_splits)
  have run: "reevaluate_run now k sp sr nxt b = (c, x) \<Longrightarrow> table_keys c = table_keys b" for sp nxt b c x
    by (auto simp: reevaluate_run_def cancel_run_jobs_def Let_def split: option.splits if_splits prod.splits)
  from assms show "table_keys d' = table_keys d"
    by (rule propagateE) (auto dest!: story pbi sprint run)
  have "j_id (cancel_job now k r ex j) = j_id j" for r ex j by (simp add: cancel_job_def)
  then show "map j_id (jobs d') = map j_id (jobs d)"
    using propagate_run_outcome [OF assms] by auto
qed

lemma keys_ok_propagate:
  assumes "keys_ok (w_db w)"
  shows "keys_ok (w_db (fst (propagate_phase env j dc w)))"
  using assms keys_ok_same propagate_table_keys
  by (auto simp: propagate_phase_def split: sum.split)

lemma keys_ok_cascade:
  assumes "keys_ok (w_db w)"
  shows "keys_ok (w_db (cascade_phase env j dc w))"
proof -
  have "keys_ok (w_db (cancelPbiOnFailure env k w))" for k
  proof (cases rule: cascade_cases [of env k w])
    case (cascaded out w3 js)
    have "keys_ok (w_db w3)"
      unfolding cascaded(2) cancel_siblings_db
      by (rule keys_ok_same [OF assms]) (simp_all add: map_update_where)
    then show ?thesis
      unfolding cascaded(1) leave_trace_def with_db_frame by (rule keys_ok_update_jobs) simp
  qed (simp add: assms)
  then show ?thesis by (simp add: cascade_phase_def assms)
qed

text \<open>The database gives a new row an id that no job has.\<close>

definition fresh_ids :: "svc_env \<Rightarrow> bool" where
  "fresh_ids env \<longleftrightarrow> (\<forall>d. s_new_id env d \<notin> j_id ` set (jobs d))"

lemma run_effects_keys: "table_keys (w_db (fst (run_effects env fs w))) = table_keys (w_db w)"
proof -
  let ?x = "\<lparr>x_db = w_db w, x_calls = [], x_last_question = None, x_outcomes = []\<rparr>"
  have "map r_id (runs (x_db (effect_loop (s_effects env) fs ?x))) = map r_id (runs (w_db w))"
  proof (rule effect_loop_invariant [of "\<lambda>x. map r_id (runs (x_db x)) = map r_id (runs (w_db w))"])
    fix f x x' assume I: "map r_id (runs (x_db x)) = map r_id (runs (w_db w))"
      and step: "executeEffect (s_effects env) f x = Some x'"
    have ids: "map r_id (runs d') = map r_id (runs d)" if "applySprintRunStatus r s p c q d = Some d'" for r s p c q d d'
      using that by (auto simp: applySprintRunStatus_def map_update_where split: option.splits)
    have "map r_id (runs (x_db x')) = map r_id (runs (x_db x))"
      using step ids
      by (cases f) (auto simp: executeEffect_def createOrReuseClaudeQuestion_def split: if_splits option.splits)
    then show "map r_id (runs (x_db x')) = map r_id (runs (w_db w))" using I by simp
  qed simp
  then have "map r_id (runs (w_db (fst (run_effects env fs w)))) = map r_id (runs (w_db w))"
    by (simp add: run_effects_def Let_def executeEffects_def)
  then show ?thesis by (simp add: table_keys_def)
qed

interpretation keys: handler_invariant env j dc "\<lambda>w. fresh_ids env \<longrightarrow> keys_ok (w_db w)" for env j dc
proof unfold_locales
  fix w :: world and fs assume ok: "fresh_ids env \<longrightarrow> keys_ok (w_db w)"
  show "fresh_ids env \<longrightarrow> keys_ok (w_db (fst (run_effects env fs w)))"
    using ok keys_ok_same [OF _ run_effects_keys] by simp
next
  fix w :: world and parent user product url sha assume ok: "fresh_ids env \<longrightarrow> keys_ok (w_db w)"
  show "fresh_ids env \<longrightarrow> keys_ok (w_db (fst (maybeEnqueueDeployJob env parent user product url sha w)))"
  proof (cases rule: enqueue_cases [of env parent user product url sha w])
    case (enqueued n)
    then have "fresh_ids env \<Longrightarrow> j_id n \<notin> j_id ` set (jobs (w_db w))"
      by (simp only: fresh_ids_def auto_deploy_job_simps not_False_eq_True)
    then show ?thesis using ok enqueued(4) keys_ok_insert by simp
  qed (use ok in simp)
next
  fix w :: world and p f assume ok: "fresh_ids env \<longrightarrow> keys_ok (w_db w)" and f: "\<And>r :: sprint_run. r_id (f r :: sprint_run) = r_id r"
  have "table_keys (update_runs p f (w_db w)) = table_keys (w_db w)" using f by simp
  then show "fresh_ids env \<longrightarrow> keys_ok (w_db (with_db (update_runs p f) w))"
    using ok keys_ok_same [of "w_db w" "update_runs p f (w_db w)"] by simp
qed (simp_all add: keys_ok_propagate keys_ok_cascade)

end
