(* ===== verification/Job_Status_Props.thy ===== *)
theory Job_Status_Props
  imports Job_Status_Laws
begin

text \<open>
  The properties of \<open>update_job_status\<close> as a whole, from the decomposition of a successful request
  into its phases and the invariants of \<open>Job_Status_Laws\<close>.
\<close>

section \<open>Decomposition\<close>

lemma after_write_reply:
  assumes "after_write env user j inp dc wr w = (w', Inr r)"
  obtains n where "r = Job_reply (dc_status dc) (wr_job wr) n"
  using assms by (auto simp: after_write_def Let_def split_beta step_then_Inr)

lemma caller_guard_Inr:
  "caller_guard token k d = Inr j \<longleftrightarrow> find_job k d = Some j \<and> \<not> isManagedJob j d \<and>
     j_claimed_by_token_id j = Some token \<and> claimed_or_running (j_status j)"
  by (auto simp: caller_guard_def split: option.split)

lemma work_phaseE:
  assumes "work_phase env user j inp report w = (w', Inr (Job_reply st u n))"
  obtains w1 dc w2 prUrl w3 wr where "answer_guard j inp = None" "decide env j inp w = (w1, Inr dc)"
    "auto_pr_phase env j inp dc w1 = (w2, prUrl)" "write_phase env j inp dc prUrl report w2 = (w3, Inr wr)"
    "after_write env user j inp dc wr w3 = (w', Inr (Job_reply st u n))" "st = dc_status dc" "u = wr_job wr"
proof -
  obtain w1 dc where a: "answer_guard j inp = None" "decide env j inp w = (w1, Inr dc)"
    using assms by (auto simp: work_phase_def step_then_Inr split: option.splits)
  obtain w2 prUrl where b: "auto_pr_phase env j inp dc w1 = (w2, prUrl)" by fastforce
  obtain w3 wr where c: "write_phase env j inp dc prUrl report w2 = (w3, Inr wr)"
      "after_write env user j inp dc wr w3 = (w', Inr (Job_reply st u n))"
    using assms a b by (auto simp: work_phase_def step_then_Inr)
  have "st = dc_status dc" "u = wr_job wr" using after_write_reply [OF c(2)] by auto
  with a b c show thesis by (rule that)
qed

text \<open>A job with a worktree flow: not the own paths of docs audits and agent chats.\<close>

lemma update_workE:
  assumes "update_job_status env token user k inp w = (w', Inr (Job_reply st u n))"
    and "find_job k (w_db w) = Some j" and "j_kind j \<noteq> AGENT_CHAT"
  obtains report where "caller_guard token k (w_db w) = Inr j" "cost_guard env j inp = Inr report"
    "skip_guard j inp = None" "work_phase env user j inp report w = (w', Inr (Job_reply st u n))"
proof -
  obtain j' where "caller_guard token k (w_db w) = Inr j'"
    using assms(1) by (auto simp: update_job_status_def split: sum.splits)
  then have g: "caller_guard token k (w_db w) = Inr j" using assms(2) by (auto simp: caller_guard_Inr)
  obtain report where c: "cost_guard env j inp = Inr report"
    using assms(1) g by (auto simp: update_job_status_def split: sum.splits)
  have "\<not> (j_kind j = DOCS_AUDIT \<and> ui_status inp \<noteq> US_RUNNING)"
    using assms(1) g c
    by (auto simp: update_job_status_def docs_audit_phase_def split: if_splits sum.splits prod.splits)
  then have "skip_guard j inp = None \<and> work_phase env user j inp report w = (w', Inr (Job_reply st u n))"
    using assms(1,3) g c by (auto simp: update_job_status_def split: option.splits)
  then show thesis using that g c by blast
qed

section \<open>What the phases before the write keep\<close>

lemma push_and_decide_frame:
  assumes "push_and_decide env j inp w = (w1, r)"
  shows "w1 = w \<or> (\<exists>c. w1 = call c w)"
  using assms by (auto simp: push_and_decide_def prepareDoneUpdate_def and_then_def Let_def split: sum.splits)

lemma decide_frame:
  assumes "decide env j inp w = (w1, r)"
  shows "w1 = w \<or> (\<exists>c. w1 = call c w)"
  using assms push_and_decide_frame [of env j inp w w1 r]
  by (auto simp: decide_def split: if_splits option.splits)

lemma story_mode_frame: "fst (story_mode env k product st b s key w) = w \<or> (\<exists>c. fst (story_mode env k product st b s key w) = call c w)"
  by (auto simp: story_mode_def Let_def create_pr_def)

lemma maybeCreateAutoPr_frame:
  assumes "maybeCreateAutoPr env k q t b s w = Inr (w2, u)"
  shows "w2 = w \<or> (\<exists>c. w2 = call c w)"
proof -
  have "story_mode env k product st b s key w = (w2, u) \<Longrightarrow> w2 = w \<or> (\<exists>c. w2 = call c w)" for product st key
    using story_mode_frame [of env k product st b s key w] by simp
  then show ?thesis
    using assms
    by (auto simp: maybeCreateAutoPr_def Let_def and_then_Inr_iff create_pr_def split: option.splits if_splits)
qed

lemma maybeCreateSprintBatchPr_frame:
  "maybeCreateSprintBatchPr env k q b s w = Inr (w2, u) \<Longrightarrow> w2 = w \<or> (\<exists>c. w2 = call c w)"
  by (auto simp: maybeCreateSprintBatchPr_def Let_def and_then_Inr_iff create_pr_def split: option.splits if_splits)

lemma auto_pr_frame:
  assumes "auto_pr_phase env j inp dc w = (w2, u)"
  shows "w2 = w \<or> (\<exists>c. w2 = call c w)"
  using assms maybeCreateAutoPr_frame maybeCreateSprintBatchPr_frame
  by (auto simp: auto_pr_phase_def split: if_splits sum.splits)

lemma before_write:
  assumes "decide env j inp w = (w1, r)" and "auto_pr_phase env j inp dc w1 = (w2, u)"
  shows "w_db w2 = w_db w" "w_costs w2 = w_costs w" "planning w2 = planning w"
  using decide_frame [OF assms(1)] auto_pr_frame [OF assms(2)] by (auto simp: planning_def)


section \<open>What the write leaves behind\<close>

lemma job_update_row_simps [simp]:
  "j_id (job_update_row env s inp dc u j) = j_id j"
  "j_status (job_update_row env s inp dc u j) = DB_STATUS_MAP (dc_status dc)"
  by (simp_all add: job_update_row_def write_usage_def write_timestamps_def)

text \<open>The row update as an equation, for a row that exists.\<close>

lemma update_job_row_found:
  "find_job k (w_db w) = Some j \<Longrightarrow>
   update_job_row k f w = (with_db (update_jobs (\<lambda>x. j_id x = k) f) w, Inr (f j))"
  by (simp add: update_job_row_def)

lemma find_updated_row:
  assumes "find_job k d = Some j" and "\<And>x. j_id (f x) = j_id x"
  shows "find_job k (update_jobs (\<lambda>x. j_id x = k) f d) = Some (f j)"
  using find_job_update_jobs [of f k "\<lambda>x. j_id x = k" d] assms find_job_id [OF assms(1)] by simp

lemma planning_update_jobs [simp]: "planning (with_db (update_jobs p f) w) = planning w"
  by (simp add: planning_def)

lemma planning_write_cost [simp]: "planning (write_cost now k r w) = planning w"
  by (simp add: planning_def)

lemma write_cost_costs:
  "w_costs (write_cost now k r w) = (case r of None \<Rightarrow> w_costs w | Some row \<Rightarrow> upsert_cost now k row (w_costs w))"
  by (simp add: write_cost_def split: option.split)

text \<open>The three facts about a write that the properties use.\<close>

definition write_ok :: "svc_env \<Rightarrow> job \<Rightarrow> job \<Rightarrow> cost_row option \<Rightarrow> world \<Rightarrow> world \<Rightarrow> bool" where
  "write_ok env j u report w w' \<longleftrightarrow> find_job (j_id j) (w_db w') = Some u \<and> confined (j_id j) w w' \<and>
     w_costs w' = w_costs (write_cost (s_now env) (j_id j) report w)"

lemma write_ok_row:
  assumes "find_job (j_id j) (w_db w) = Some j"
  shows "write_ok env j (job_update_row env j inp dc u j) report w
    (write_cost (s_now env) (j_id j) report (with_db (update_jobs (\<lambda>x. j_id x = j_id j) (job_update_row env j inp dc u)) w))"
  unfolding write_ok_def
proof (intro conjI)
  let ?f = "job_update_row env j inp dc u"
  let ?w1 = "with_db (update_jobs (\<lambda>x. j_id x = j_id j) ?f) w"
  show "find_job (j_id j) (w_db (write_cost (s_now env) (j_id j) report ?w1)) = Some (?f j)"
    unfolding write_cost_frame with_db_frame by (rule find_updated_row [OF assms]) (rule job_update_row_simps)
  have "confined (j_id j) w ?w1" by (rule confined_update) simp_all
  then show "confined (j_id j) w (write_cost (s_now env) (j_id j) report ?w1)"
    by (rule confined_same_db) (rule write_cost_frame)
qed (simp add: write_cost_costs cong: option.case_cong)

lemma plain_write_result:
  assumes "plain_write env j inp dc u report w = (w', Inr wr)" and "find_job (j_id j) (w_db w) = Some j"
  shows "wr_job wr = job_update_row env j inp dc u j" "write_ok env j (wr_job wr) report w w'"
proof -
  let ?w1 = "with_db (update_jobs (\<lambda>x. j_id x = j_id j) (job_update_row env j inp dc u)) w"
  have r: "w' = write_cost (s_now env) (j_id j) report ?w1" "wr = \<lparr>wr_job = job_update_row env j inp dc u j, wr_follow_up = None, wr_cancelled = []\<rparr>"
    using assms(1) unfolding plain_write_def update_job_row_found [OF assms(2)] step_then_simps by simp_all
  show "wr_job wr = job_update_row env j inp dc u j" by (simp add: r)
  then show "write_ok env j (wr_job wr) report w w'" unfolding r(1) using write_ok_row [OF assms(2)] by simp
qed

lemma write_ok_insert:
  assumes "write_ok env j u report w w2" and "w_costs w' = w_costs w2"
    and "w_db w' = w_db w2 \<or> (\<exists>n. w_db w' = insert_job n (w_db w2))"
  shows "write_ok env j u report w w'"
proof -
  have "find_job i (w_db w') = Some x" if "find_job i (w_db w2) = Some x" for i x
    using assms(3) that find_job_insert by auto
  moreover have "planning w' = planning w2" using assms(3) by (auto simp: planning_def)
  ultimately show ?thesis
    using assms(1,2) confined_rows [of "j_id j" w w2 w'] unfolding write_ok_def by metis
qed

lemma write_cost_tables [simp]:
  "w_idea_messages (write_cost now k r w) = w_idea_messages w" "w_idea_logs (write_cost now k r w) = w_idea_logs w"
  by (simp_all add: write_cost_def split: option.split)

text \<open>The transaction of an idea chat on a row that exists: the state before the follow-up, and the follow-up.\<close>

lemma idea_chat_writeE:
  assumes "find_job (j_id j) (w_db w) = Some x"
  obtains w4 where "w_db w4 = update_jobs (\<lambda>x. j_id x = j_id j) (job_update_row env j inp dc u) (w_db w)"
    "w_costs w4 = w_costs (write_cost (s_now env) (j_id j) report w)"
    "w_idea_messages w4 = w_idea_messages w @ (if dc_status dc = US_DONE \<and> truthy (trimmed_answer inp)
       then [assistant_message env j (the (trimmed_answer inp))
         (write_cost (s_now env) (j_id j) report (with_db (update_jobs (\<lambda>x. j_id x = j_id j) (job_update_row env j inp dc u)) w))]
       else [])"
    "idea_chat_write env j inp dc u report w =
      (if \<not> list_ex (newer_message j) (w_idea_messages w4)
       then (w4, Inr \<lparr>wr_job = job_update_row env j inp dc u x, wr_follow_up = None, wr_cancelled = []\<rparr>)
       else (with_db (insert_job (follow_up_job env j w4)) w4,
         Inr \<lparr>wr_job = job_update_row env j inp dc u x, wr_follow_up = Some (j_id (follow_up_job env j w4)), wr_cancelled = []\<rparr>))"
proof -
  define w2 where "w2 = write_cost (s_now env) (j_id j) report
    (with_db (update_jobs (\<lambda>x. j_id x = j_id j) (job_update_row env j inp dc u)) w)"
  define w3 where "w3 = (if dc_status dc = US_DONE \<and> truthy (trimmed_answer inp)
    then w2\<lparr>w_idea_messages := w_idea_messages w2 @ [assistant_message env j (the (trimmed_answer inp)) w2]\<rparr> else w2)"
  define w4 where "w4 = (if dc_status dc = US_FAILED
    then w3\<lparr>w_idea_logs := w_idea_logs w3 @ [failure_log j dc ''IDEA_CHAT failed'']\<rparr> else w3)"
  show thesis
  proof (rule that [of w4])
    show "w_db w4 = update_jobs (\<lambda>x. j_id x = j_id j) (job_update_row env j inp dc u) (w_db w)"
      by (simp add: w4_def w3_def w2_def)
    show "w_costs w4 = w_costs (write_cost (s_now env) (j_id j) report w)"
      by (simp add: w4_def w3_def w2_def write_cost_costs cong: option.case_cong)
    show "w_idea_messages w4 = w_idea_messages w @ (if dc_status dc = US_DONE \<and> truthy (trimmed_answer inp)
       then [assistant_message env j (the (trimmed_answer inp))
         (write_cost (s_now env) (j_id j) report (with_db (update_jobs (\<lambda>x. j_id x = j_id j) (job_update_row env j inp dc u)) w))]
       else [])"
      unfolding w2_def [symmetric] by (simp add: w4_def w3_def, simp add: w2_def)
    show "idea_chat_write env j inp dc u report w =
      (if \<not> list_ex (newer_message j) (w_idea_messages w4)
       then (w4, Inr \<lparr>wr_job = job_update_row env j inp dc u x, wr_follow_up = None, wr_cancelled = []\<rparr>)
       else (with_db (insert_job (follow_up_job env j w4)) w4,
         Inr \<lparr>wr_job = job_update_row env j inp dc u x, wr_follow_up = Some (j_id (follow_up_job env j w4)), wr_cancelled = []\<rparr>))"
      unfolding idea_chat_write_def update_job_row_found [OF assms] step_then_simps Let_def w2_def w3_def w4_def by simp
  qed
qed

lemma idea_chat_write_result:
  assumes "idea_chat_write env j inp dc u report w = (w', Inr wr)" and "find_job (j_id j) (w_db w) = Some j"
  shows "wr_job wr = job_update_row env j inp dc u j" "write_ok env j (wr_job wr) report w w'"
proof -
  from assms(2) obtain w4 where
    w4: "w_db w4 = update_jobs (\<lambda>x. j_id x = j_id j) (job_update_row env j inp dc u) (w_db w)"
      "w_costs w4 = w_costs (write_cost (s_now env) (j_id j) report w)"
    and run: "idea_chat_write env j inp dc u report w =
      (if \<not> list_ex (newer_message j) (w_idea_messages w4)
       then (w4, Inr \<lparr>wr_job = job_update_row env j inp dc u j, wr_follow_up = None, wr_cancelled = []\<rparr>)
       else (with_db (insert_job (follow_up_job env j w4)) w4,
         Inr \<lparr>wr_job = job_update_row env j inp dc u j, wr_follow_up = Some (j_id (follow_up_job env j w4)), wr_cancelled = []\<rparr>))"
    by (rule idea_chat_writeE)
  show row: "wr_job wr = job_update_row env j inp dc u j" using assms(1) unfolding run by (auto split: if_splits)
  have ok: "write_ok env j (job_update_row env j inp dc u j) report w w4"
    using write_ok_insert [OF write_ok_row [OF assms(2), of env inp dc u report], of w4] w4
    by (simp add: write_cost_costs cong: option.case_cong)
  have "w_costs w' = w_costs w4 \<and> (w_db w' = w_db w4 \<or> (\<exists>n. w_db w' = insert_job n (w_db w4)))"
    using assms(1) unfolding run by (auto split: if_splits)
  then show "write_ok env j (wr_job wr) report w w'"
    unfolding row using write_ok_insert [OF ok] by blast
qed

text \<open>A deploy: the row is ended in the database, and the reply shows a trimmed copy of it.\<close>

lemma deploy_write_row:
  assumes "deploy_write env j inp dc w = (w', Inr wr)" and "find_job (j_id j) (w_db w) = Some j"
    and "is_terminal (dc_status dc)"
  shows "\<exists>u. find_job (j_id j) (w_db w') = Some u \<and> j_status u = DB_STATUS_MAP (dc_status dc) \<and>
      j_finished_at u = Some (s_now env) \<and> j_summary u = j_summary (wr_job wr) \<and> j_pr_url u = j_pr_url (wr_job wr)"
    and "planning w' = planning w"
proof -
  obtain d ids u where a: "applyDeployTerminalUpdate (s_now env) (j_id j) (j_product_id j) (dc_status dc) (ui_summary inp)
      (dc_error dc) (w_db w) = Some (d, ids)" and u: "find_job (j_id j) d = Some u" "w' = w\<lparr>w_db := d\<rparr>"
      "wr_job wr = u\<lparr>j_branch := None, j_pushed_at := None, j_verify_result := None,
         j_started_at := j_started_at j, j_finished_at := Some (s_now env), j_head_sha := None\<rparr>"
    using assms(1) by (fastforce simp: deploy_write_def split: option.splits)
  let ?f = "deploy_end_row (s_now env) (dc_status dc) (ui_summary inp) (dc_error dc)"
  let ?d1 = "update_jobs (\<lambda>x. j_id x = j_id j) ?f (w_db w)"
  have status: "terminal_of (dc_status dc) = DB_STATUS_MAP (dc_status dc)"
    using assms(3) by (cases "dc_status dc") (simp_all add: terminal_of_def DB_STATUS_MAP_def)
  have f1: "find_job (j_id j) ?d1 = Some (?f j)"
    by (rule find_updated_row [OF assms(2)]) simp
  have "u = ?f j \<and> planning w' = planning w"
  proof (cases "dc_status dc = US_FAILED")
    case True
    define g :: "job \<Rightarrow> job" where
      "g = (\<lambda>x. x\<lparr>j_status := J_CANCELLED, j_error := Some (superseded_error (j_id j)), j_finished_at := Some (s_now env)\<rparr>)"
    have d: "d = update_jobs (\<lambda>x. j_id x \<in> set ids) g ?d1"
      and ids: "ids = map j_id (filter (queued_deploy (j_product_id j)) (jobs ?d1))"
      using applyDeploy_failed [OF a [unfolded True]] unfolding True g_def by blast+
    have "\<not> queued_deploy (j_product_id j) x" if "x \<in> set (jobs ?d1)" "j_id x = j_id j" for x
      using that(1) unfolding update_jobs_frame
    proof (rule update_whereE)
      fix y assume "x = (if j_id y = j_id j then ?f y else y)"
      then have "j_status x = J_FAILED" using that(2) True by (cases "j_id y = j_id j") simp_all
      then show "\<not> queued_deploy (j_product_id j) x" by (simp add: queued_deploy_def)
    qed
    then have notin: "j_id j \<notin> set ids" unfolding ids by force
    have "find_job (j_id j) d = map_option (\<lambda>x. if j_id x \<in> set ids then g x else x) (find_job (j_id j) ?d1)"
      unfolding d by (rule find_job_update_jobs) (simp add: g_def)
    then have "u = ?f j" using u(1) f1 notin by simp
    then show ?thesis by (simp add: u(2) planning_def d)
  next
    case False
    define g :: "job \<Rightarrow> job" where "g = (\<lambda>x. x\<lparr>j_resolved_at := Some (s_now env)\<rparr>)"
    define p where "p = (\<lambda>x. unresolved_failure (j_product_id j) x \<and> j_id x \<noteq> j_id j)"
    have d: "d = (if dc_status dc = US_DONE then update_jobs p g ?d1 else ?d1)"
      using applyDeploy_unfailed [OF a False] unfolding g_def p_def by blast
    have "find_job (j_id j) (update_jobs p g ?d1) = map_option (\<lambda>x. if p x then g x else x) (find_job (j_id j) ?d1)"
      by (rule find_job_update_jobs) (simp add: g_def)
    then have "u = ?f j" using u(1) f1 unfolding d by (simp add: p_def split: if_splits)
    then show ?thesis by (simp add: u(2) planning_def d)
  qed
  then show "\<exists>u. find_job (j_id j) (w_db w') = Some u \<and> j_status u = DB_STATUS_MAP (dc_status dc) \<and>
      j_finished_at u = Some (s_now env) \<and> j_summary u = j_summary (wr_job wr) \<and> j_pr_url u = j_pr_url (wr_job wr)"
    and "planning w' = planning w"
    using u status by (auto simp: deploy_end_row_def)
qed

lemma write_phase_result:
  assumes "write_phase env j inp dc u report w = (w', Inr wr)" and "find_job (j_id j) (w_db w) = Some j"
    and "j_kind j \<noteq> DEPLOY"
  shows "wr_job wr = job_update_row env j inp dc u j" "write_ok env j (wr_job wr) report w w'"
proof -
  have "idea_chat_write env j inp dc u report w = (w', Inr wr) \<or> plain_write env j inp dc u report w = (w', Inr wr)"
    using assms(1,3) by (simp add: write_phase_def split: if_splits)
  then have "wr_job wr = job_update_row env j inp dc u j \<and> write_ok env j (wr_job wr) report w w'"
  proof
    assume a: "idea_chat_write env j inp dc u report w = (w', Inr wr)"
    show ?thesis using idea_chat_write_result [OF a assms(2)] by simp
  next
    assume a: "plain_write env j inp dc u report w = (w', Inr wr)"
    show ?thesis using plain_write_result [OF a assms(2)] by simp
  qed
  then show "wr_job wr = job_update_row env j inp dc u j" "write_ok env j (wr_job wr) report w w'" by auto
qed

text \<open>What was written, for every kind, as the row found afterwards.\<close>

lemma written_row:
  assumes "write_phase env j inp dc u report w = (w', Inr wr)" and "find_job (j_id j) (w_db w) = Some j"
  shows "\<exists>x. find_job (j_id j) (w_db w') = Some x \<and> decided_row j dc x \<and>
    (is_terminal (dc_status dc) \<longrightarrow> j_finished_at x = Some (s_now env)) \<and>
    j_summary x = j_summary (wr_job wr) \<and> j_pr_url x = j_pr_url (wr_job wr)"
proof (cases "j_kind j = DEPLOY \<and> is_terminal (dc_status dc)")
  case True
  then have "deploy_write env j inp dc w = (w', Inr wr)" using assms(1) by (simp add: write_phase_def)
  from deploy_write_row(1) [OF this assms(2)] True show ?thesis by (auto simp: decided_row_def)
next
  case False
  have "wr_job wr = job_update_row env j inp dc u j \<and> write_ok env j (wr_job wr) report w w'"
  proof (cases "j_kind j = DEPLOY")
    case True
    then have "plain_write env j inp dc u report w = (w', Inr wr)"
      using assms(1) False by (simp add: write_phase_def isSystemIdeaChat_def)
    from plain_write_result [OF this assms(2)] show ?thesis by simp
  qed (use write_phase_result [OF assms] in simp)
  then show ?thesis
    by (auto simp: write_ok_def decided_row_def job_update_row_def write_usage_def write_timestamps_def resolveJobTimestamps_def)
qed

lemma decide_status:
  assumes "decide env j inp w = (w1, Inr dc)"
  shows "dc_status dc = ui_status inp \<or> ui_status inp = US_DONE \<and> dc_status dc = US_FAILED"
  using assms
  by (auto simp: decide_def plain_decision_def push_and_decide_def pushed_decision_def split: if_splits option.splits sum.splits)

lemma push_earned:
  assumes "push_and_decide env j inp w = (w1, Inr dc)" and "dc_status dc = US_DONE"
  shows "s_push env (j_id j) (done_branch (j_id j) (ui_branch inp) (w_db w)) \<in> {Pushed, Push_no_changes}"
  using assms
  by (auto simp: push_and_decide_def prepareDoneUpdate_def pushed_decision_def done_plan_of_def Let_def and_then_def
      split: sum.splits push_outcome.splits if_splits)

section \<open>Properties\<close>

text \<open>
  C2. Done is earned: a job with a worktree is answered done only if its token holds it, it was
  claimed or running, its verification gate admits it (that of every execution for a sprint
  batch, that of its task otherwise), and its branch was pushed or had nothing to push. A failed
  or untrusted push turns the reported done into failed.
\<close>

theorem done_is_earned:
  assumes "update_job_status env token user k inp w = (w', Inr (Job_reply US_DONE u n))"
    and "find_job k (w_db w) = Some j" and "j_kind j \<noteq> AGENT_CHAT" and "j_kind j \<noteq> DEPLOY"
    and "\<not> completes_without_worktree j"
  shows "ui_status inp = US_DONE \<and> j_claimed_by_token_id j = Some token \<and> claimed_or_running (j_status j) \<and>
    \<not> isManagedJob j (w_db w) \<and>
    (if j_kind j = SPRINT_IMPLEMENTATION then checkSprintVerifyGate k (w_db w) = None
     else task_gate j inp (w_db w) = None) \<and>
    s_push env k (done_branch k (ui_branch inp) (w_db w)) \<in> {Pushed, Push_no_changes}"
proof -
  have k: "j_id j = k" using assms(2) by simp
  from assms(1-3) obtain report where c: "caller_guard token k (w_db w) = Inr j"
    and work: "work_phase env user j inp report w = (w', Inr (Job_reply US_DONE u n))" by (rule update_workE)
  from work obtain w1 dc where d: "decide env j inp w = (w1, Inr dc)" and "US_DONE = dc_status dc"
    by (rule work_phaseE)
  then have ended: "dc_status dc = US_DONE" by simp
  then have st: "ui_status inp = US_DONE" using decide_status [OF d] by auto
  show ?thesis
    using d ended st assms(4,5) c push_earned [of env j inp w w1 dc]
    by (auto simp: decide_def caller_guard_Inr k split: if_splits option.splits)
qed




section \<open>A job that stays by itself\<close>

lemma docs_confined:
  assumes "find_job k (w_db w) = Some j"
  shows "confined (j_id j) w (fst (docs_audit_phase env token j inp w))"
proof -
  have up: "confined (j_id j) w (w\<lparr>w_db := notify_job i (update_jobs (audit_guard (j_id j) (Some token)) (audit_row env s x y) (w_db w))\<rparr>)" for i s x y
  proof -
    have "confined (j_id j) w (with_db (update_jobs (audit_guard (j_id j) (Some token)) (audit_row env s x y)) w)"
      by (rule confined_update) (simp_all add: audit_row_def audit_guard_def)
    then show ?thesis by (rule confined_rows) (simp_all add: planning_def find_job_def)
  qed
  show ?thesis
    using up by (auto simp: docs_audit_phase_def applyDocsAuditTerminalUpdate_def split: option.split sum.split)
qed

lemma chat_confined: "confined (j_id j) w (fst (agent_chat_phase env token user j inp report w))"
proof -
  have row: "j_id (chat_update_row now s i x) = j_id x" for now s i x
    by (simp add: chat_update_row_def write_usage_def write_timestamps_def)
  have up: "confined (j_id j) w (with_db (update_jobs (chat_guard (j_id j) token s) (chat_update_row now j i)) w)" for s now i
    by (rule confined_update) (simp_all add: row chat_guard_def)
  have "confined (j_id j) w (fst (applyAgentChatTransition now (j_id j) token s x (chat_update_row now j i) report w))" for now s x i
    using up confined_same_db [OF up]
    by (auto simp: applyAgentChatTransition_def Let_def split: option.split)
  moreover have "confined (j_id j) w x \<Longrightarrow> confined (j_id j) w (with_db (notify_job i) x)" for x i
    by (erule confined_rows) (simp_all add: planning_def find_job_def)
  ultimately show ?thesis
    by (auto simp: agent_chat_phase_def Let_def split: prod.split sum.split) (metis fst_conv)+
qed

lemma work_confined:
  assumes "find_job (j_id j) (w_db w) = Some j" and "\<not> rolls_up j" and "j_kind j \<noteq> DEPLOY"
  shows "confined (j_id j) w (fst (work_phase env user j inp report w))"
proof (cases "answer_guard j inp")
  case None
  obtain w1 r where d: "decide env j inp w = (w1, r)" by fastforce
  have "w_db w1 = w_db w" using decide_frame [OF d] by auto
  then have c1: "confined (j_id j) w w1" using confined_same_db confined_refl by blast
  show ?thesis
  proof (cases r)
    case (Inr dc)
    obtain w2 u where a: "auto_pr_phase env j inp dc w1 = (w2, u)" by fastforce
    have db: "w_db w2 = w_db w" using before_write(1) [OF d a] .
    then have c2: "confined (j_id j) w w2" using confined_same_db confined_refl by blast
    have f2: "find_job (j_id j) (w_db w2) = Some j" by (simp only: db assms(1))
    obtain w3 s where wr: "write_phase env j inp dc u report w2 = (w3, s)" by fastforce
    show ?thesis
    proof (cases s)
      case (Inl e)
      have "\<exists>x y. write_phase env j inp dc u report w2 = (x, Inr y)"
        unfolding write_phase_def idea_chat_write_def plain_write_def update_job_row_found [OF f2] step_then_simps Let_def
        using assms(3) by simp
      then have "w3 = w2" using wr Inl by auto
      then show ?thesis using None d Inr a wr Inl c2 by (simp add: work_phase_def)
    next
      case wrote: (Inr x)
      have "confined (j_id j) w2 w3"
        using write_phase_result(2) [OF wr [unfolded wrote] f2 assms(3)] by (simp add: write_ok_def)
      then have "confined (j_id j) w w3" using c2 by (rule confined_trans [rotated])
      then have "confined (j_id j) w (fst (after_write env user j inp dc x w3))"
        using own.after_write_keeps [of j w w3 env user inp dc x] assms(2) by simp
      then show ?thesis using None d Inr a wr wrote by (simp add: work_phase_def)
    qed
  qed (use None d c1 in \<open>simp add: work_phase_def\<close>)
qed (simp add: work_phase_def)

text \<open>
  A job of the harness stays by itself: whatever its request and its outcome, the tasks, stories,
  PBIs, sprints and executions and the rows of all other jobs are unchanged; it neither rolls up
  nor starts a cascade, which the harness handles itself.
\<close>

theorem harness_stays_local:
  assumes "update_job_status env token user k inp w = (w', r)" and "find_job k (w_db w) = Some j"
    and "isHarnessJobRow j" and "j_kind j \<noteq> DEPLOY"
  shows "planning w' = planning w \<and>
    (\<forall>i x. i \<noteq> k \<longrightarrow> find_job i (w_db w) = Some x \<longrightarrow> find_job i (w_db w') = Some x)"
proof -
  have k: "j_id j = k" using assms(2) by simp
  have "\<not> rolls_up j" using assms(3) by (simp add: rolls_up_def)
  then have "confined k w (fst (work_phase env user j inp report w))" for report
    using work_confined [of j w] assms(2,4) k by simp
  moreover have "caller_guard token k (w_db w) = Inr j \<or> (\<exists>e. caller_guard token k (w_db w) = Inl e)"
    using assms(2) by (cases "caller_guard token k (w_db w)") (auto simp: caller_guard_Inr)
  ultimately have "confined k w (fst (update_job_status env token user k inp w))"
    using docs_confined [OF assms(2)] chat_confined [of j w]
    by (auto simp: update_job_status_def k split: sum.split option.split)
  then show ?thesis using assms(1) by (simp add: confined_def)
qed

text \<open>
  A cost report is stored exactly once, with the write: when a request with a cost succeeds, the
  report was admissible, the job has exactly one row of costs and it is the report of this
  request, and the rows of other jobs are kept; a request without costs changes none.
\<close>

theorem cost_stored_with_write:
  assumes "update_job_status env token user k inp w = (w', Inr (Job_reply st u n))"
    and "find_job k (w_db w) = Some j" and "j_kind j \<noteq> AGENT_CHAT" and "j_kind j \<noteq> DEPLOY"
    and "distinct (map cp_job_id (w_costs w))"
  shows "case ui_cost inp of
      None \<Rightarrow> w_costs w' = w_costs w
    | Some cost \<Rightarrow>
        (\<exists>row. checkCostReport (s_harness_kind env) (j_kind j) (j_runtime j) (j_requested_model j) (ui_status inp) cost = Inr row \<and>
          find_by cp_job_id k (w_costs w') = Some \<lparr>cp_job_id = k, cp_row = row, cp_reported_at = s_now env\<rparr>) \<and>
        distinct (map cp_job_id (w_costs w')) \<and>
        filter (\<lambda>c. cp_job_id c \<noteq> k) (w_costs w') = filter (\<lambda>c. cp_job_id c \<noteq> k) (w_costs w)"
proof -
  have k: "j_id j = k" using assms(2) by simp
  from assms(1-3) obtain report where c: "cost_guard env j inp = Inr report"
    and work: "work_phase env user j inp report w = (w', Inr (Job_reply st u n))" by (rule update_workE)
  from work obtain w1 dc w2 prUrl w3 wr where d: "decide env j inp w = (w1, Inr dc)" "auto_pr_phase env j inp dc w1 = (w2, prUrl)"
    and wr: "write_phase env j inp dc prUrl report w2 = (w3, Inr wr)"
    and aft: "after_write env user j inp dc wr w3 = (w', Inr (Job_reply st u n))" by (rule work_phaseE)
  have f2: "find_job (j_id j) (w_db w2) = Some j" by (simp only: before_write(1) [OF d] assms(2) k)
  have "w_costs (fst (after_write env user j inp dc wr w3)) = w_costs w3"
    by (rule costs.after_write_keeps) (rule refl)
  then have "w_costs w' = w_costs w3" by (simp only: aft fst_conv)
  also have "\<dots> = w_costs (write_cost (s_now env) k report w2)"
    using write_phase_result(2) [OF wr f2 assms(4)] by (simp only: write_ok_def k)
  finally have costs: "w_costs w' = (case report of None \<Rightarrow> w_costs w | Some row \<Rightarrow> upsert_cost (s_now env) k row (w_costs w))"
    by (simp only: write_cost_costs before_write(2) [OF d])
  show ?thesis
  proof (cases "ui_cost inp")
    case None
    then show ?thesis using c costs by (simp add: cost_guard_def)
  next
    case (Some cost)
    then obtain row where row: "checkCostReport (s_harness_kind env) (j_kind j) (j_runtime j) (j_requested_model j) (ui_status inp) cost = Inr row"
        "report = Some row"
      using c by (auto simp: cost_guard_def split: sum.splits)
    then have w': "w_costs w' = upsert_cost (s_now env) k row (w_costs w)" by (simp add: costs)
    have "filter (\<lambda>c. cp_job_id c \<noteq> k) (upsert_cost (s_now env) k row cs) = filter (\<lambda>c. cp_job_id c \<noteq> k) cs" for cs
      by (auto simp: upsert_cost_def intro!: update_where_commute_frame)
    then show ?thesis
      using upsert_cost_single [OF assms(5), of "s_now env" k row] row(1) w' Some by simp
  qed
qed

section \<open>Sprint batches\<close>

lemma find_run_set:
  assumes "find_run r d = Some x" and "\<And>y. r_id (f y) = r_id y"
  shows "find_run r (update_runs (\<lambda>y. r_id y = r) f d) = Some (f x)"
proof -
  have "r_id x = r" using assms(1) by (auto simp: find_run_def dest: find_by_Some)
  then show ?thesis using find_run_update_runs [of f r "\<lambda>y. r_id y = r" d] assms by simp
qed

text \<open>
  A failed sprint batch is recorded on its run: when it failed because the quota ran out, the run
  is PAUSED with a context to resume from; otherwise it is FAILED, ended, with at most 500
  characters of the error as the reason.
\<close>

theorem sprint_failure_recorded:
  assumes "update_job_status env token user k inp w = (w', Inr (Job_reply US_FAILED u n))"
    and "find_job k (w_db w) = Some j" and "j_kind j = SPRINT_IMPLEMENTATION" and "j_sprint_run_id j = Some r" and "r \<noteq> []"
    and "ui_status inp = US_FAILED"
  shows "\<exists>x. find_run r (w_db w') = Some x \<and>
    (if starts_with ''QUOTA_PAUSE:'' (or_else (ui_error inp) [])
     then r_status x = RUN_PAUSED \<and> (\<exists>q. r_pause_context x = Some (Quota_pause q) \<and> qp_paused_at q = s_now env \<and>
       qp_pr_url q = j_pr_url u)
     else r_status x = RUN_FAILED \<and> r_finished_at x = Some (s_now env) \<and>
       r_failure_reason x = map_option (slice_to 500) (ui_error inp))"
proof -
  from assms(1,2) obtain report where "work_phase env user j inp report w = (w', Inr (Job_reply US_FAILED u n))"
    by (rule update_workE) (simp add: assms(3))
  then obtain w1 dc w2 prUrl w3 wr where d: "decide env j inp w = (w1, Inr dc)"
    and aft: "after_write env user j inp dc wr w3 = (w', Inr (Job_reply US_FAILED u n))" and u: "u = wr_job wr" by (rule work_phaseE)
  have dc: "dc_status dc = US_FAILED" "dc_error dc = ui_error inp"
    using d assms(6) by (auto simp: decide_def plain_decision_def)
  from aft obtain w6 w7 where "sprint_failure_phase env j dc wr w6 = (w7, Inr ())" "w' = locks_phase j dc w7"
    by (auto simp: after_write_def Let_def split_beta step_then_Inr)
  moreover from this obtain x where "find_run r (w_db w6) = Some x"
    using dc assms(3-5) by (cases "find_run r (w_db w6)") (simp_all add: sprint_failure_phase_def Let_def)
  ultimately show ?thesis
    using dc assms(3-5) u
    by (auto simp: sprint_failure_phase_def Let_def locks_phase_def find_run_set run_failure_row_def quota_context_def split: if_splits)
qed

section \<open>Idea chats\<close>

lemma follow_up_job_simps:
  "j_kind (follow_up_job env j w) = IDEA_CHAT" "j_status (follow_up_job env j w) = J_QUEUED"
  "j_idea_id (follow_up_job env j w) = j_idea_id j" "j_user_id (follow_up_job env j w) = j_user_id j"
  by (simp_all add: follow_up_job_def Let_def new_job_def split: option.split)

text \<open>
  C37. No message of an idea chat is lost when its job ends: in one transaction the row is written, a
  done job leaves its trimmed summary as the only new message, and exactly one queued follow-up
  of the same idea is created if a user message is newer than the cutoff of the ended job, none
  otherwise.
\<close>

theorem idea_chat_coalesces:
  assumes "idea_chat_write env j inp dc u report w = (w', Inr wr)" and "find_job (j_id j) (w_db w) = Some j"
  shows "\<exists>follow_ups.
    jobs (w_db w') = update_where (\<lambda>x. j_id x = j_id j) (job_update_row env j inp dc u) (jobs (w_db w)) @ follow_ups \<and>
    length follow_ups = (if list_ex (newer_message j) (w_idea_messages w) then 1 else 0) \<and>
    list_all (\<lambda>n. j_kind n = IDEA_CHAT \<and> j_status n = J_QUEUED \<and> j_idea_id n = j_idea_id j \<and>
      wr_follow_up wr = Some (j_id n)) follow_ups \<and>
    map im_content (w_idea_messages w') = map im_content (w_idea_messages w) @
      (if dc_status dc = US_DONE \<and> truthy (trimmed_answer inp) then [the (trimmed_answer inp)] else [])"
proof -
  from assms(2) obtain w4 where
    db: "w_db w4 = update_jobs (\<lambda>x. j_id x = j_id j) (job_update_row env j inp dc u) (w_db w)"
    and m4: "w_idea_messages w4 = w_idea_messages w @ (if dc_status dc = US_DONE \<and> truthy (trimmed_answer inp)
       then [assistant_message env j (the (trimmed_answer inp))
         (write_cost (s_now env) (j_id j) report (with_db (update_jobs (\<lambda>x. j_id x = j_id j) (job_update_row env j inp dc u)) w))]
       else [])"
    and run: "idea_chat_write env j inp dc u report w =
      (if \<not> list_ex (newer_message j) (w_idea_messages w4)
       then (w4, Inr \<lparr>wr_job = job_update_row env j inp dc u j, wr_follow_up = None, wr_cancelled = []\<rparr>)
       else (with_db (insert_job (follow_up_job env j w4)) w4,
         Inr \<lparr>wr_job = job_update_row env j inp dc u j, wr_follow_up = Some (j_id (follow_up_job env j w4)), wr_cancelled = []\<rparr>))"
    by (rule idea_chat_writeE)
  have "\<not> newer_message j (assistant_message env j a x)" for a x
    by (simp add: newer_message_def assistant_message_def)
  then have newer: "list_ex (newer_message j) (w_idea_messages w4) \<longleftrightarrow> list_ex (newer_message j) (w_idea_messages w)"
    by (simp add: m4)
  have content: "map im_content (w_idea_messages w4) = map im_content (w_idea_messages w) @
      (if dc_status dc = US_DONE \<and> truthy (trimmed_answer inp) then [the (trimmed_answer inp)] else [])"
    by (simp add: m4 assistant_message_def)
  show ?thesis
  proof (cases "list_ex (newer_message j) (w_idea_messages w)")
    case True
    then have "w' = with_db (insert_job (follow_up_job env j w4)) w4" "wr_follow_up wr = Some (j_id (follow_up_job env j w4))"
      using assms(1) unfolding run by (auto simp: newer)
    then show ?thesis
      using True db content by (intro exI [of _ "[follow_up_job env j w4]"]) (simp add: follow_up_job_simps)
  next
    case False
    then have "w' = w4" using assms(1) unfolding run by (auto simp: newer)
    then show ?thesis using False db content by (intro exI [of _ "[]"]) simp
  qed
qed

section \<open>Witnesses\<close>

definition plain_input :: "update_status \<Rightarrow> status_input" where
  "plain_input s = \<lparr>ui_status = s, ui_branch = Some ''b'', ui_summary = Some ''ok'', ui_error = None, ui_usage = no_usage,
     ui_processed_until = None, ui_capped = None, ui_cost = None\<rparr>"

definition working_job :: job where
  "working_job = sample_job\<lparr>j_status := J_RUNNING, j_claimed_by_token_id := Some ''t'', j_verify_result := Some V_ALIGNED\<rparr>"

definition working_world :: "job \<Rightarrow> world" where
  "working_world j = empty_world (sample_db\<lparr>jobs := [j, sample_sprint_job\<lparr>j_id := ''j3''\<rparr>]\<rparr>)"

definition reply_of :: "world \<times> (status_error + status_reply) \<Rightarrow> status_reply option" where
  "reply_of x = (case snd x of Inl _ \<Rightarrow> None | Inr r \<Rightarrow> Some r)"

definition reply_status :: "status_reply \<Rightarrow> update_status option" where
  "reply_status r = (case r of Job_reply s _ _ \<Rightarrow> Some s | _ \<Rightarrow> None)"

lemma replied:
  "Option.bind (reply_of x) reply_status = Some s \<Longrightarrow> \<exists>w' u n. x = (w', Inr (Job_reply s u n))"
  by (cases x) (auto simp: reply_of_def reply_status_def bind_eq_Some_conv split: sum.splits status_reply.splits)

lemma working_reply:
  "Option.bind (reply_of (update_job_status sample_svc ''t'' ''u1'' ''j1'' (plain_input US_DONE) (working_world working_job)))
     reply_status = Some US_DONE"
  by code_simp

lemma working_facts:
  "find_job ''j1'' (w_db (working_world working_job)) = Some working_job"
  "j_kind working_job \<noteq> AGENT_CHAT" "j_kind working_job \<noteq> DEPLOY" "\<not> completes_without_worktree working_job"
  by code_simp+

lemma done_is_earned_witness:
  "s_push sample_svc ''j1'' (done_branch ''j1'' (Some ''b'') (w_db (working_world working_job))) \<in> {Pushed, Push_no_changes} \<and>
   task_gate working_job (plain_input US_DONE) (w_db (working_world working_job)) = None"
proof -
  obtain w' u n where r: "update_job_status sample_svc ''t'' ''u1'' ''j1'' (plain_input US_DONE) (working_world working_job) =
      (w', Inr (Job_reply US_DONE u n))"
    using replied [OF working_reply] by blast
  have "ui_branch (plain_input US_DONE) = Some ''b''" by (simp add: plain_input_def)
  moreover have "j_kind working_job \<noteq> SPRINT_IMPLEMENTATION" by code_simp
  ultimately show ?thesis using done_is_earned [OF r working_facts] by (auto simp only: if_False)
qed



definition harness_job :: job where
  "harness_job = working_job\<lparr>j_runtime := HARNESS, j_requested_model := Some ''m''\<rparr>"

definition cost_of_run :: cost_input where
  "cost_of_run = \<lparr>ci_reported_cost_usd = None, ci_cost_source = ''none'', ci_provider = Some ''p''\<rparr>"

lemma harness_facts:
  "find_job ''j1'' (w_db (working_world harness_job)) = Some harness_job"
  "j_kind harness_job \<noteq> AGENT_CHAT" "j_kind harness_job \<noteq> DEPLOY" "isHarnessJobRow harness_job"
  "distinct (map cp_job_id (w_costs (working_world harness_job)))"
  by code_simp+

lemma harness_stays_local_witness:
  "planning (fst (update_job_status sample_svc ''t'' ''u1'' ''j1'' (plain_input US_FAILED) (working_world harness_job))) =
     planning (working_world harness_job)"
  using harness_stays_local [OF prod.collapse [symmetric] harness_facts(1,4,3)] by blast

lemma cost_reply:
  "Option.bind (reply_of (update_job_status sample_svc ''t'' ''u1'' ''j1''
     ((plain_input US_FAILED)\<lparr>ui_cost := Some cost_of_run\<rparr>) (working_world harness_job))) reply_status = Some US_FAILED"
  by code_simp

lemma cost_stored_with_write_witness:
  "\<exists>w' r row. update_job_status sample_svc ''t'' ''u1'' ''j1'' ((plain_input US_FAILED)\<lparr>ui_cost := Some cost_of_run\<rparr>)
     (working_world harness_job) = (w', Inr r) \<and> find_by cp_job_id ''j1'' (w_costs w') = Some row"
proof -
  obtain w' u n where r: "update_job_status sample_svc ''t'' ''u1'' ''j1'' ((plain_input US_FAILED)\<lparr>ui_cost := Some cost_of_run\<rparr>)
      (working_world harness_job) = (w', Inr (Job_reply US_FAILED u n))"
    using replied [OF cost_reply] by blast
  have "ui_cost ((plain_input US_FAILED)\<lparr>ui_cost := Some cost_of_run\<rparr>) = Some cost_of_run" by simp
  then show ?thesis using cost_stored_with_write [OF r harness_facts(1,2,3,5)] r by auto
qed

definition batch_job :: job where
  "batch_job = sample_sprint_job\<lparr>j_claimed_by_token_id := Some ''t''\<rparr>"

definition quota_input :: status_input where
  "quota_input = (plain_input US_FAILED)\<lparr>ui_error := Some ''QUOTA_PAUSE: later''\<rparr>"

lemma batch_facts:
  "find_job ''j2'' (w_db (working_world batch_job)) = Some batch_job"
  "j_kind batch_job = SPRINT_IMPLEMENTATION" "j_sprint_run_id batch_job = Some ''r1''" "ui_status quota_input = US_FAILED"
  "starts_with ''QUOTA_PAUSE:'' (or_else (ui_error quota_input) [])"
  by code_simp+

lemma batch_reply:
  "Option.bind (reply_of (update_job_status sample_svc ''t'' ''u1'' ''j2'' quota_input (working_world batch_job)))
     reply_status = Some US_FAILED"
  by code_simp

lemma sprint_failure_recorded_witness:
  "\<exists>w' r x. update_job_status sample_svc ''t'' ''u1'' ''j2'' quota_input (working_world batch_job) = (w', Inr r) \<and>
     find_run ''r1'' (w_db w') = Some x \<and> r_status x = RUN_PAUSED"
proof -
  obtain w' u n where r: "update_job_status sample_svc ''t'' ''u1'' ''j2'' quota_input (working_world batch_job) =
      (w', Inr (Job_reply US_FAILED u n))"
    using replied [OF batch_reply] by blast
  show ?thesis
    using sprint_failure_recorded [OF r batch_facts(1-3) _ batch_facts(4)] batch_facts(5) r by auto
qed

definition chatting_job :: job where
  "chatting_job = working_job\<lparr>j_kind := IDEA_CHAT, j_task_id := None, j_idea_id := Some ''i1''\<rparr>"

definition chatting_world :: world where
  "chatting_world = (working_world chatting_job)\<lparr>w_idea_messages :=
     [\<lparr>im_id = ''m1'', im_idea_id = ''i1'', im_role = Role_user, im_content = ''and?'', im_job_id = None, im_created_at = 5\<rparr>]\<rparr>"

lemma chatting_facts:
  "find_job (j_id chatting_job) (w_db chatting_world) = Some chatting_job"
  "\<not> isl (snd (idea_chat_write sample_svc chatting_job (plain_input US_DONE) (plain_decision chatting_job (plain_input US_DONE)) None None chatting_world))"
  "list_ex (newer_message chatting_job) (w_idea_messages chatting_world)"
  by code_simp+

lemma idea_chat_coalesces_witness:
  "\<exists>n. n \<in> set (jobs (w_db (fst (idea_chat_write sample_svc chatting_job (plain_input US_DONE)
       (plain_decision chatting_job (plain_input US_DONE)) None None chatting_world)))) \<and>
     j_kind n = IDEA_CHAT \<and> j_status n = J_QUEUED \<and> j_idea_id n = Some ''i1''"
proof -
  let ?r = "idea_chat_write sample_svc chatting_job (plain_input US_DONE) (plain_decision chatting_job (plain_input US_DONE)) None None chatting_world"
  obtain wr where r: "?r = (fst ?r, Inr wr)"
    using chatting_facts(2) by (cases ?r; cases "snd ?r") auto
  have "j_idea_id chatting_job = Some ''i1''" by code_simp
  with idea_chat_coalesces [OF r chatting_facts(1)] chatting_facts(3)
  show ?thesis by (auto simp: length_Suc_conv)
qed

end
