(* ===== verification/Job_Status_Keys.thy ===== *)
theory Job_Status_Keys
  imports Job_Status_Props
begin

text \<open>
  Well-formedness of the database under \<open>update_job_status\<close>: the primary keys stay unique through
  every path of the handler.
\<close>

section \<open>Primary keys\<close>

lemma keys_ok_same_jobs: "keys_ok d \<Longrightarrow> keys_ok (notify_job k d)"
  by (erule keys_ok_same) simp_all

lemma keys_ok_row: "keys_ok (w_db w) \<Longrightarrow> (\<And>j. j_id (f j) = j_id j) \<Longrightarrow> keys_ok (w_db (with_db (update_jobs p f) w))"
  unfolding with_db_frame by (rule keys_ok_update_jobs)

lemma docs_keys: "keys_ok (w_db w) \<Longrightarrow> keys_ok (w_db (fst (docs_audit_phase env token j inp w)))"
proof -
  assume ok: "keys_ok (w_db w)"
  have "keys_ok (notify_job k (update_jobs p (audit_row env s x y) (w_db w)))" for k p s x y
    by (rule keys_ok_same_jobs, rule keys_ok_update_jobs [OF ok]) (simp add: audit_row_def)
  then show ?thesis
    using ok by (auto simp: docs_audit_phase_def applyDocsAuditTerminalUpdate_def split: option.split sum.split)
qed

lemma chat_keys: "keys_ok (w_db w) \<Longrightarrow> keys_ok (w_db (fst (agent_chat_phase env token user j inp report w)))"
proof -
  assume ok: "keys_ok (w_db w)"
  have "keys_ok (update_jobs p (chat_update_row now s i) (w_db w))" for p now s i
    by (rule keys_ok_update_jobs [OF ok]) (simp add: chat_update_row_def write_usage_def write_timestamps_def)
  then show ?thesis
    using ok
    by (auto simp: agent_chat_phase_def applyAgentChatTransition_def Let_def keys_ok_same_jobs split: option.split sum.split prod.split)
qed

lemma deploy_write_keys:
  assumes "keys_ok (w_db w)"
  shows "keys_ok (w_db (fst (deploy_write env j inp dc w)))"
proof -
  have "keys_ok d" if "applyDeployTerminalUpdate now k q s x e (w_db w) = Some (d, ids)" for now k q s x e d ids
    using that assms
    by (auto simp: applyDeployTerminalUpdate_def Let_def intro!: keys_ok_update_jobs split: option.splits if_splits)
  then show ?thesis
    using assms by (auto simp: deploy_write_def split: option.split)
qed

lemma row_write_keys:
  assumes "keys_ok (w_db w)" and "fresh_ids env"
  shows "keys_ok (w_db (fst (plain_write env j inp dc u report w)))"
    and "keys_ok (w_db (fst (idea_chat_write env j inp dc u report w)))"
proof -
  let ?w1 = "with_db (update_jobs (\<lambda>x. j_id x = j_id j) (job_update_row env j inp dc u)) w"
  have ok: "keys_ok (update_jobs (\<lambda>x. j_id x = j_id j) (job_update_row env j inp dc u) (w_db w))"
    by (rule keys_ok_update_jobs [OF assms(1)]) simp
  have fresh: "j_id (follow_up_job env j x) \<notin> j_id ` set (jobs (w_db x))" for x
    using assms(2) by (simp add: follow_up_job_def new_job_def Let_def fresh_ids_def split: option.split)
  show "keys_ok (w_db (fst (plain_write env j inp dc u report w)))"
    using ok assms(1) by (cases "find_job (j_id j) (w_db w)") (simp_all add: plain_write_def update_job_row_def)
  show "keys_ok (w_db (fst (idea_chat_write env j inp dc u report w)))"
  proof (cases "find_job (j_id j) (w_db w)")
    case (Some x)
    show ?thesis
    proof (rule idea_chat_writeE [OF Some, of env inp dc u report])
      fix w4 assume db: "w_db w4 = update_jobs (\<lambda>x. j_id x = j_id j) (job_update_row env j inp dc u) (w_db w)"
        and run: "idea_chat_write env j inp dc u report w =
          (if \<not> list_ex (newer_message j) (w_idea_messages w4)
           then (w4, Inr \<lparr>wr_job = job_update_row env j inp dc u x, wr_follow_up = None, wr_cancelled = []\<rparr>)
           else (with_db (insert_job (follow_up_job env j w4)) w4,
             Inr \<lparr>wr_job = job_update_row env j inp dc u x, wr_follow_up = Some (j_id (follow_up_job env j w4)), wr_cancelled = []\<rparr>))"
      have "keys_ok (insert_job (follow_up_job env j w4) (w_db w4))"
        by (rule keys_ok_insert [OF _ fresh]) (simp only: db ok)
      then show ?thesis using ok unfolding run by (simp add: db)
    qed
  qed (simp add: idea_chat_write_def update_job_row_def assms(1))
qed


definition fresh_svc :: svc_env where
  "fresh_svc = sample_svc\<lparr>s_effects := (s_effects sample_svc)\<lparr>env_new_id := (\<lambda>d. CHR ''n'' # concat (map j_id (jobs d)))\<rparr>\<rparr>"

lemma fresh_svc_fresh: "fresh_ids fresh_svc"
proof -
  have "length x \<le> length (concat xs)" if "x \<in> set xs" for x :: id and xs
    using that by (induction xs) auto
  then have "CHR ''n'' # concat (map j_id js) \<notin> j_id ` set js" for js :: "job list"
    by (metis Suc_n_not_le_n length_Cons list.set_map)
  then show ?thesis by (simp add: fresh_ids_def fresh_svc_def s_new_id_def)
qed


end
