(* ===== verification/Access.thy ===== *)
theory Access
  imports Prelude
begin

text \<open>
  Who a request comes from and what it may reach: the token of the call (\<open>src/request-context.ts\<close>), its
  authentication and scope (\<open>src/auth.ts\<close>) and the access checks of the tools (\<open>src/access.ts\<close>). The
  hash of a token is a parameter, as is the product side of the database: the code only asks it for
  the owner and members of a product.
\<close>

section \<open>Data\<close>

datatype api_token_kind = TK_IMPLEMENTATION | TK_PLANNING | TK_WORKERS_UI | TK_COPILOT

record api_token =
  tk_id :: id
  tk_user_id :: id
  tk_token_hash :: string
  tk_revoked_at :: "time option"
  tk_expires_at :: "time option"
  tk_kind :: api_token_kind
  tk_scoped_products :: "id list"

record user_row =
  us_id :: id
  us_username :: string
  us_is_demo :: bool

record product_row =
  ap_id :: id
  ap_user_id :: id
  ap_members :: "id list"

text \<open>
  The tables the checks read; a task has its story, a story its product, an idea its owner.
\<close>

record access_db =
  api_tokens :: "api_token list"
  ac_users :: "user_row list"
  ac_products :: "product_row list"
  task_story :: "(id \<times> id) list"
  story_product :: "(id \<times> id) list"
  idea_user :: "(id \<times> id) list"

record AuthContext =
  ac_userId :: id
  ac_tokenId :: id
  ac_username :: string
  ac_isDemo :: bool
  ac_kind :: api_token_kind
  ac_scopedProducts :: "id list"

text \<open>The call: the bearer token of an HTTP request, the variable of the process, and the hash.\<close>

record request =
  rq_store_token :: "string option"
  rq_env_token :: "string option"
  rq_sha256 :: "string \<Rightarrow> string"

datatype auth_error = TokenNotSet | TokenInvalid | CopilotUnscoped | PermissionDenied

section \<open>Authentication\<close>

definition getRequestToken :: "request \<Rightarrow> string option" where
  "getRequestToken rq = coalesce (rq_store_token rq) (rq_env_token rq)"

definition isTokenExpired :: "time \<Rightarrow> time option \<Rightarrow> bool" where
  "isTokenExpired now expiresAt = (case expiresAt of None \<Rightarrow> False | Some t \<Rightarrow> t \<le> now)"

definition find_token :: "access_db \<Rightarrow> request \<Rightarrow> string \<Rightarrow> api_token option" where
  "find_token d rq token = find_by tk_token_hash (rq_sha256 rq token) (api_tokens d)"

definition live_token :: "time \<Rightarrow> api_token \<Rightarrow> bool" where
  "live_token now t \<longleftrightarrow> tk_revoked_at t = None \<and> \<not> isTokenExpired now (tk_expires_at t)"

text \<open>\<open>include: { user: true }\<close> follows a foreign key: a token without its user does not exist.\<close>

definition getAuth :: "time \<Rightarrow> request \<Rightarrow> access_db \<Rightarrow> auth_error + AuthContext" where
  "getAuth now rq d =
     (if \<not> truthy (getRequestToken rq) then Inl TokenNotSet
      else case find_token d rq (or_else (getRequestToken rq) []) of
        None \<Rightarrow> Inl TokenInvalid
      | Some t \<Rightarrow>
          if \<not> live_token now t then Inl TokenInvalid
          else if tk_kind t = TK_COPILOT \<and> tk_scoped_products t = [] then Inl CopilotUnscoped
          else case find_by us_id (tk_user_id t) (ac_users d) of
            None \<Rightarrow> Inl TokenInvalid
          | Some u \<Rightarrow> Inr \<lparr>ac_userId = tk_user_id t, ac_tokenId = tk_id t, ac_username = us_username u,
              ac_isDemo = us_is_demo u, ac_kind = tk_kind t, ac_scopedProducts = tk_scoped_products t\<rparr>)"

definition requireWriteAccess :: "time \<Rightarrow> request \<Rightarrow> access_db \<Rightarrow> auth_error + AuthContext" where
  "requireWriteAccess now rq d = and_then (getAuth now rq d)
     (\<lambda>auth. if ac_isDemo auth then Inl PermissionDenied else Inr auth)"

definition getTokenScopedProducts :: "time \<Rightarrow> request \<Rightarrow> access_db \<Rightarrow> id list" where
  "getTokenScopedProducts now rq d =
     (if \<not> truthy (getRequestToken rq) then []
      else case find_token d rq (or_else (getRequestToken rq) []) of
        None \<Rightarrow> []
      | Some t \<Rightarrow> if \<not> live_token now t then [] else tk_scoped_products t)"

section \<open>Access checks\<close>

definition userCanAccessProduct :: "time \<Rightarrow> request \<Rightarrow> access_db \<Rightarrow> id \<Rightarrow> id \<Rightarrow> bool" where
  "userCanAccessProduct now rq d productId userId =
     (let scoped = getTokenScopedProducts now rq d in
      if scoped \<noteq> [] \<and> productId \<notin> set scoped then False
      else list_ex (\<lambda>p. ap_id p = productId \<and> (ap_user_id p = userId \<or> userId \<in> set (ap_members p))) (ac_products d))"

definition userCanAccessStory :: "time \<Rightarrow> request \<Rightarrow> access_db \<Rightarrow> id \<Rightarrow> id \<Rightarrow> bool" where
  "userCanAccessStory now rq d storyId userId =
     (case map_of (story_product d) storyId of
        None \<Rightarrow> False
      | Some p \<Rightarrow> userCanAccessProduct now rq d p userId)"

text \<open>The product of a task is the product of its story.\<close>

definition userCanAccessTask :: "time \<Rightarrow> request \<Rightarrow> access_db \<Rightarrow> id \<Rightarrow> id \<Rightarrow> bool" where
  "userCanAccessTask now rq d taskId userId =
     (case Option.bind (map_of (task_story d) taskId) (map_of (story_product d)) of
        None \<Rightarrow> False
      | Some p \<Rightarrow> userCanAccessProduct now rq d p userId)"

definition userOwnsIdea :: "access_db \<Rightarrow> id \<Rightarrow> id \<Rightarrow> bool" where
  "userOwnsIdea d ideaId userId = (map_of (idea_user d) ideaId = Some userId)"

section \<open>Laws\<close>

lemma getAuthE:
  assumes "getAuth now rq d = Inr a"
  obtains tok t u where "getRequestToken rq = Some tok" "tok \<noteq> []" "find_token d rq tok = Some t" "live_token now t"
    "tk_kind t = TK_COPILOT \<Longrightarrow> tk_scoped_products t \<noteq> []" "find_by us_id (tk_user_id t) (ac_users d) = Some u"
    "a = \<lparr>ac_userId = tk_user_id t, ac_tokenId = tk_id t, ac_username = us_username u,
          ac_isDemo = us_is_demo u, ac_kind = tk_kind t, ac_scopedProducts = tk_scoped_products t\<rparr>"
proof -
  from assms obtain tok where tok: "getRequestToken rq = Some tok" "tok \<noteq> []"
    by (auto simp: getAuth_def elim!: truthyE split: if_splits)
  with assms that show thesis by (fastforce simp: getAuth_def split: option.splits if_splits)
qed

lemma scope_of_call: "getAuth now rq d = Inr a \<Longrightarrow> getTokenScopedProducts now rq d = ac_scopedProducts a"
  by (elim getAuthE) (simp add: getTokenScopedProducts_def)


text \<open>
  The scope lookup repeats the search for the token and answers no scope for a token that is gone by
  then: a token revoked after \<open>getAuth\<close> is not confined for the rest of the call.
\<close>

lemma scope_lost_on_revocation:
  assumes "find_token d rq tok = Some t" "getRequestToken rq = Some tok" "\<not> live_token now t"
  shows "getTokenScopedProducts now rq d = [] \<and>
    (userCanAccessProduct now rq d p u \<longleftrightarrow>
       list_ex (\<lambda>r. ap_id r = p \<and> (ap_user_id r = u \<or> u \<in> set (ap_members r))) (ac_products d))"
  using assms by (simp add: getTokenScopedProducts_def userCanAccessProduct_def)

text \<open>A copilot token of a product, for the witness of the theorem above.\<close>

definition copilot_db :: access_db where
  "copilot_db = \<lparr>api_tokens = [\<lparr>tk_id = ''tok1'', tk_user_id = ''u1'', tk_token_hash = ''#s'', tk_revoked_at = None,
      tk_expires_at = Some 50, tk_kind = TK_COPILOT, tk_scoped_products = [''p1'']\<rparr>],
     ac_users = [\<lparr>us_id = ''u1'', us_username = ''ann'', us_is_demo = False\<rparr>],
     ac_products = [\<lparr>ap_id = ''p1'', ap_user_id = ''u1'', ap_members = []\<rparr>,
       \<lparr>ap_id = ''p2'', ap_user_id = ''u1'', ap_members = []\<rparr>],
     task_story = [(''t1'', ''s1'')], story_product = [(''s1'', ''p1''), (''s2'', ''p2'')], idea_user = []\<rparr>"

definition copilot_call :: request where
  "copilot_call = \<lparr>rq_store_token = Some ''s'', rq_env_token = None, rq_sha256 = (\<lambda>x. CHR ''#'' # x)\<rparr>"

definition copilot_auth :: AuthContext where
  "copilot_auth = \<lparr>ac_userId = ''u1'', ac_tokenId = ''tok1'', ac_username = ''ann'', ac_isDemo = False,
     ac_kind = TK_COPILOT, ac_scopedProducts = [''p1'']\<rparr>"

lemma copilot_call_facts:
  "requireWriteAccess 10 copilot_call copilot_db = Inr copilot_auth"
  "userCanAccessTask 10 copilot_call copilot_db ''t1'' ''u1''"
  "\<not> userCanAccessStory 10 copilot_call copilot_db ''s2'' ''u1''"
  "requireWriteAccess 50 copilot_call copilot_db = Inl TokenInvalid"
  "userCanAccessStory 50 copilot_call copilot_db ''s2'' ''u1''"
  by code_simp+


end
