(* ===== verification/Queue_Model.thy ===== *)
theory Queue_Model
  imports Access "HOL-Library.AList"
begin

text \<open>
  The data of the message queue between agents (\<open>src/queue/\<close>): a row of \<open>agent_message\<close>
  (\<open>prisma/schema.prisma\<close>), the NOTIFY envelope (\<open>queue/notify.ts\<close>), the marker predicates that keep
  fenced and managed rows away from the ordinary tools (\<open>queue/marked.ts\<close>), the lease register of one
  process (\<open>queue/lease-register.ts\<close>), the identity of the caller (\<open>queue/identity.ts\<close>) and the view of
  a row in a reply (\<open>queue/view.ts\<close>).

  The vocabulary of addresses, types and statuses comes from a submodule
  (\<open>@shared/queue-identity.js\<close>) and is the parameter \<open>queue_vocab\<close>; the statuses themselves are the
  literals the code compares with.
\<close>

section \<open>JSON values\<close>

text \<open>
  A value of \<open>meta\<close>. An object is the list of its members in order. A number is kept as its text: no
  code of the queue computes with one.
\<close>

datatype json =
    JNull
  | JBool bool
  | JNum string
  | JStr string
  | JArr "json list"
  | JObj "(string \<times> json) list"

text \<open>\<open>o.k\<close> on a plain object, \<open>o.k = v\<close> and \<open>delete o.k\<close>.\<close>

definition get_member :: "(string \<times> json) list \<Rightarrow> string \<Rightarrow> json option" where
  "get_member kvs k = map_of kvs k"

definition set_member :: "string \<Rightarrow> json \<Rightarrow> (string \<times> json) list \<Rightarrow> (string \<times> json) list" where
  "set_member k v kvs = AList.update k v kvs"

definition del_member :: "string \<Rightarrow> (string \<times> json) list \<Rightarrow> (string \<times> json) list" where
  "del_member k kvs = AList.delete k kvs"

text \<open>\<open>typeof x === 'string'\<close> with the string, and a value that is an object but no array.\<close>

fun as_string :: "json \<Rightarrow> string option" where
  "as_string (JStr s) = Some s"
| "as_string _ = None"

fun as_object :: "json \<Rightarrow> (string \<times> json) list option" where
  "as_object (JObj kvs) = Some kvs"
| "as_object _ = None"

definition string_member :: "(string \<times> json) list \<Rightarrow> string \<Rightarrow> string option" where
  "string_member kvs k = (case get_member kvs k of None \<Rightarrow> None | Some v \<Rightarrow> as_string v)"

lemma get_set_member [simp]:
  "get_member (set_member k v kvs) k' = (if k' = k then Some v else get_member kvs k')"
  by (simp add: get_member_def set_member_def update_conv')

lemma get_del_member [simp]:
  "get_member (del_member k kvs) k' = (if k' = k then None else get_member kvs k')"
  by (simp add: get_member_def del_member_def delete_conv')

section \<open>Rows, envelopes and leases\<close>

datatype mstatus = MPending | MClaimed | MDone | MFailed | MCancelled

record message =
  m_id :: id
  m_type :: string
  m_from_server :: string
  m_from_model :: string
  m_to_server :: string
  m_to_model :: string
  m_body :: string
  m_meta :: json
  m_source :: string
  m_status :: mstatus
  m_in_reply_to :: "id option"
  m_error :: "string option"
  m_claimed_by :: "string option"
  m_claimed_at :: "time option"
  m_started_at :: "time option"
  m_finished_at :: "time option"
  m_created_at :: time
  m_archived_at :: "time option"
  ppe_protocol :: "string option"
  ppe_run_id :: "id option"
  ppe_operation_key :: "string option"
  ppe_payload_sha256 :: "string option"
  ppe_from_principal :: "string option"
  ppe_to_principal :: "string option"
  ppe_to_consumer_id :: "id option"
  ppe_consumer_generation :: "int option"
  ppe_lease_generation :: "int option"
  dispatch_request_id :: "id option"
  dispatch_projection_version :: "int option"
  dispatch_role :: "string option"

record envelope =
  ev_id :: id
  ev_type :: string
  ev_from_server :: string
  ev_from_model :: string
  ev_to_server :: string
  ev_to_model :: string
  ev_in_reply_to :: "id option"
  ev_status :: mstatus
  ev_previous_status :: "mstatus option"

record queue_lease =
  l_claimToken :: string
  l_claimedBy :: string

text \<open>
  The state an operation works on: the table, the notifications sent on the channel, and the lease
  register of the process that runs it (a JavaScript \<open>Map\<close>, in insertion order).
\<close>

record queue =
  messages :: "message list"
  sent :: "envelope list"
  leases :: "(id \<times> queue_lease) list"

definition registerLease :: "id \<Rightarrow> queue_lease \<Rightarrow> queue \<Rightarrow> queue" where
  "registerLease k l q = q\<lparr>leases := AList.update k l (leases q)\<rparr>"

definition getLease :: "queue \<Rightarrow> id \<Rightarrow> queue_lease option" where
  "getLease q k = map_of (leases q) k"

definition releaseLease :: "id \<Rightarrow> queue \<Rightarrow> queue" where
  "releaseLease k q = q\<lparr>leases := AList.delete k (leases q)\<rparr>"

text \<open>\<open>leaseEntries\<close>: the message, token and owner of every entry, in order.\<close>

definition leaseEntries :: "queue \<Rightarrow> (id \<times> string \<times> string) list" where
  "leaseEntries q = map (\<lambda>(k, l). (k, l_claimToken l, l_claimedBy l)) (leases q)"

definition clearLeases :: "queue \<Rightarrow> queue" where
  "clearLeases q = q\<lparr>leases := []\<rparr>"

lemma lease_simps [simp]:
  "getLease (registerLease k l q) i = (if i = k then Some l else getLease q i)"
  "getLease (releaseLease k q) i = (if i = k then None else getLease q i)"
  "getLease (clearLeases q) i = None"
  "messages (registerLease k l q) = messages q"
  "messages (releaseLease k q) = messages q"
  "sent (registerLease k l q) = sent q"
  "sent (releaseLease k q) = sent q"
  by (simp_all add: getLease_def registerLease_def releaseLease_def clearLeases_def update_conv' delete_conv')

lemma getLease_frame [simp]:
  "getLease (q\<lparr>messages := ms\<rparr>) i = getLease q i"
  "getLease (q\<lparr>sent := es\<rparr>) i = getLease q i"
  by (simp_all add: getLease_def)

section \<open>Marked and managed rows\<close>

text \<open>\<open>LEGACY_MARKER_SQL\<close>, also \<open>legacyMarkerWhere\<close>: none of the nine marker columns is set.\<close>

definition legacy :: "message \<Rightarrow> bool" where
  "legacy m \<longleftrightarrow> ppe_protocol m = None \<and> ppe_run_id m = None \<and> ppe_operation_key m = None \<and>
     ppe_payload_sha256 m = None \<and> ppe_from_principal m = None \<and> ppe_to_principal m = None \<and>
     ppe_to_consumer_id m = None \<and> ppe_consumer_generation m = None \<and> ppe_lease_generation m = None"

text \<open>\<open>ORDINARY_DISPATCH_SQL\<close>, also \<open>ordinaryDispatchWhere\<close>.\<close>

definition ordinary :: "message \<Rightarrow> bool" where
  "ordinary m \<longleftrightarrow> dispatch_request_id m = None \<and> dispatch_projection_version m = None \<and> dispatch_role m = None"

datatype queue_error =
    AUTH auth_error
  | PPE_LEGACY_ROUTE_REJECTED
  | QUEUE_IDENTITY_REQUIRED string
  | QUEUE_NOT_FOUND id
  | QUEUE_ALREADY_TERMINAL id mstatus
  | QUEUE_CLAIM_EXPIRED id
  | QUEUE_NOT_CLAIMER id
  | QUEUE_NOT_TERMINAL id mstatus
  | QUEUE_MANAGED_NOT_TERMINAL id mstatus
  | VALIDATION_ERROR string

definition assertLegacyQueueRow :: "message \<Rightarrow> queue_error + message" where
  "assertLegacyQueueRow m = (if legacy m then Inr m else Inl PPE_LEGACY_ROUTE_REJECTED)"

definition envelopeOf :: "message \<Rightarrow> mstatus option \<Rightarrow> queue_error + envelope" where
  "envelopeOf m previousStatus = and_then (assertLegacyQueueRow m) (\<lambda>m. Inr
     \<lparr>ev_id = m_id m, ev_type = m_type m, ev_from_server = m_from_server m, ev_from_model = m_from_model m,
      ev_to_server = m_to_server m, ev_to_model = m_to_model m, ev_in_reply_to = m_in_reply_to m,
      ev_status = m_status m, ev_previous_status = previousStatus\<rparr>)"

text \<open>\<open>pg_notify(QUEUE_CHANNEL, ...)\<close> inside a transaction: it is delivered when the transaction commits.\<close>

definition pg_notify :: "message \<Rightarrow> mstatus option \<Rightarrow> queue \<Rightarrow> queue_error + queue" where
  "pg_notify m prev q = and_then (envelopeOf m prev) (\<lambda>e. Inr (q\<lparr>sent := sent q @ [e]\<rparr>))"

text \<open>\<open>prisma.$transaction\<close>: what throws inside leaves the state as it was.\<close>

definition transaction :: "queue \<Rightarrow> (queue_error + queue \<times> 'a) \<Rightarrow> queue \<times> (queue_error + 'a)" where
  "transaction q r = (case r of Inl e \<Rightarrow> (q, Inl e) | Inr (q', x) \<Rightarrow> (q', Inr x))"

lemma transaction_simps [simp]:
  "transaction q (Inl e) = (q, Inl e)"
  "transaction q (Inr (q', x)) = (q', Inr x)"
  by (simp_all add: transaction_def)

text \<open>The envelope of a row without markers.\<close>

definition envelope_row :: "message \<Rightarrow> mstatus option \<Rightarrow> envelope" where
  "envelope_row m prev =
     \<lparr>ev_id = m_id m, ev_type = m_type m, ev_from_server = m_from_server m, ev_from_model = m_from_model m,
      ev_to_server = m_to_server m, ev_to_model = m_to_model m, ev_in_reply_to = m_in_reply_to m,
      ev_status = m_status m, ev_previous_status = prev\<rparr>"

lemma pg_notify_legacy: "legacy m \<Longrightarrow> pg_notify m prev q = Inr (q\<lparr>sent := sent q @ [envelope_row m prev]\<rparr>)"
  by (simp add: pg_notify_def envelopeOf_def assertLegacyQueueRow_def envelope_row_def)

lemma pg_notify_marked: "\<not> legacy m \<Longrightarrow> pg_notify m prev q = Inl PPE_LEGACY_ROUTE_REJECTED"
  by (simp add: pg_notify_def envelopeOf_def assertLegacyQueueRow_def)

section \<open>The view of a row\<close>

record message_view =
  v_id :: id
  v_type :: string
  v_from :: string
  v_to :: string
  v_status :: mstatus
  v_body :: string
  v_meta :: json
  v_in_reply_to :: "id option"
  v_error :: "string option"
  v_claimed_by :: "string option"
  v_archived_at :: "time option"
  v_created_at :: time
  v_finished_at :: "time option"

definition messageView :: "message \<Rightarrow> queue_error + message_view" where
  "messageView m = and_then (assertLegacyQueueRow m) (\<lambda>row. Inr
     \<lparr>v_id = m_id row, v_type = m_type row,
      v_from = m_from_server row @ '':'' @ m_from_model row,
      v_to = m_to_server row @ '':'' @ m_to_model row,
      v_status = m_status row, v_body = m_body row, v_meta = m_meta row, v_in_reply_to = m_in_reply_to row,
      v_error = m_error row, v_claimed_by = m_claimed_by row, v_archived_at = m_archived_at row,
      v_created_at = m_created_at row, v_finished_at = m_finished_at row\<rparr>)"

text \<open>\<open>rows.map(messageView)\<close>: the first row that is refused stops it.\<close>

fun views :: "message list \<Rightarrow> queue_error + message_view list" where
  "views [] = Inr []"
| "views (m # ms) = and_then (messageView m) (\<lambda>v. and_then (views ms) (\<lambda>vs. Inr (v # vs)))"

lemma messageView_legacy: "legacy m \<Longrightarrow> \<exists>v. messageView m = Inr v \<and> v_id v = m_id m"
  by (simp add: messageView_def assertLegacyQueueRow_def)

lemma views_legacy:
  "(\<And>m. m \<in> set ms \<Longrightarrow> legacy m) \<Longrightarrow> \<exists>vs. views ms = Inr vs \<and> map v_id vs = map m_id ms"
proof (induction ms)
  case (Cons m ms)
  obtain vs where vs: "views ms = Inr vs" "map v_id vs = map m_id ms" using Cons by auto
  obtain v where "messageView m = Inr v" "v_id v = m_id m" using messageView_legacy [of m] Cons.prems by auto
  then show ?case using vs by simp
qed simp

section \<open>Vocabulary and identity\<close>

text \<open>
  What the code uses of \<open>@shared/queue-identity.js\<close>: the lists, the type of a reply, and the parser of
  destinations, which throws (\<open>None\<close>) or returns an address or a job of the job namespace.
\<close>

datatype destination = AddressOf string string | JobOf string

record queue_vocab =
  QUEUE_SERVERS :: "string list"
  QUEUE_MODELS :: "string list"
  QUEUE_REQUEST_TYPES :: "string list"
  QUEUE_RESPONSE_TYPES :: "string list"
  QUEUE_REPLY_TYPE :: "string \<Rightarrow> string"
  QUEUE_TERMINAL_STATUSES :: "mstatus list"
  QUEUE_JOB_SERVER :: string
  QUEUE_DISPATCH_SERVER :: string
  PRESENCE_FRESH_SECONDS :: int
  parseQueueAddress :: "string \<Rightarrow> destination option"
  formatQueueAddress :: "destination \<Rightarrow> string"

text \<open>
  Documented of that module (\<open>docs/superpowers/plans/2026-07-25-queue-identity-shared-module.md\<close>): waiting
  and claimed messages are not terminal, finished ones are; request types and response types do not
  overlap and the reply to a request has a response type.
\<close>

definition vocab_ok :: "queue_vocab \<Rightarrow> bool" where
  "vocab_ok v \<longleftrightarrow> set (QUEUE_TERMINAL_STATUSES v) = {MDone, MFailed, MCancelled} \<and>
     (\<forall>t \<in> set (QUEUE_REQUEST_TYPES v).
        t \<notin> set (QUEUE_RESPONSE_TYPES v) \<and> QUEUE_REPLY_TYPE v t \<in> set (QUEUE_RESPONSE_TYPES v))"

text \<open>
  The environment of a process: the variables it reads, its instance id, Postgres' reading of an
  interval text in milliseconds, and the call with the accounts it is checked against.
\<close>

record queue_env =
  S4M_SERVER :: "string option"
  S4M_MODEL :: "string option"
  S4M_RECLAIM_DEFAULT :: "string option"
  instance_id :: string
  pg_interval :: "string \<Rightarrow> time"
  vocab :: queue_vocab
  caller :: request
  accounts :: access_db

definition writeAccess :: "queue_env \<Rightarrow> time \<Rightarrow> queue_error + AuthContext" where
  "writeAccess env now = (case requireWriteAccess now (caller env) (accounts env) of Inl e \<Rightarrow> Inl (AUTH e) | Inr a \<Rightarrow> Inr a)"

definition trimmed_env :: "string option \<Rightarrow> string" where
  "trimmed_env x = (case x of None \<Rightarrow> [] | Some s \<Rightarrow> trim s)"

definition resolveQueueIdentity :: "queue_env \<Rightarrow> string option \<Rightarrow> queue_error + string \<times> string" where
  "resolveQueueIdentity env as_override =
     (let server = trimmed_env (S4M_SERVER env);
          model = trimmed_env (coalesce as_override (S4M_MODEL env))
      in if server = [] \<or> server \<notin> set (QUEUE_SERVERS (vocab env)) then Inl (QUEUE_IDENTITY_REQUIRED ''S4M_SERVER'')
         else if model = [] \<or> model \<notin> set (QUEUE_MODELS (vocab env)) then Inl (QUEUE_IDENTITY_REQUIRED ''S4M_MODEL'')
         else Inr (server, model))"

definition parseQueueTarget :: "queue_env \<Rightarrow> string \<Rightarrow> queue_error + destination" where
  "parseQueueTarget env s = or_throw (VALIDATION_ERROR ''invalid target'') (parseQueueAddress (vocab env) s)"

text \<open>The interval after which a claim without a live lease may be taken over.\<close>

definition interval_char :: "char \<Rightarrow> bool" where
  "interval_char c \<longleftrightarrow> is_word_char c \<and> c \<noteq> CHR ''_'' \<or> c \<in> set '' .:-''"

definition reclaimInterval :: "queue_env \<Rightarrow> string" where
  "reclaimInterval env =
     (let fromEnv = trimmed_env (S4M_RECLAIM_DEFAULT env)
      in if fromEnv \<noteq> [] \<and> list_all interval_char fromEnv then fromEnv else ''4 hours'')"

definition MCP_LEASE_STALE_INTERVAL :: string where
  "MCP_LEASE_STALE_INTERVAL = ''5 minutes''"

text \<open>What Postgres makes of the two literals of the code.\<close>

definition intervals_ok :: "queue_env \<Rightarrow> bool" where
  "intervals_ok env \<longleftrightarrow> pg_interval env ''4 hours'' = 14400000 \<and> pg_interval env ''5 minutes'' = 300000"

lemma identity_is_known:
  "resolveQueueIdentity env a = Inr (s, m) \<Longrightarrow> s \<in> set (QUEUE_SERVERS (vocab env)) \<and> m \<in> set (QUEUE_MODELS (vocab env))"
  by (auto simp: resolveQueueIdentity_def Let_def split: if_splits)

end
