(* ===== verification/Queue_Claims.thy ===== *)
theory Queue_Claims
  imports Queue_Model Claim_Register
begin

text \<open>
  Claims on the message queue: \<open>queue/claim.ts\<close> (the FIFO claim of a request, the claim with
  acknowledgement of a reply, the rollback of a cancelled claim), \<open>queue/lease-refresh.ts\<close> and
  \<open>queue/sweep.ts\<close> (the requeue of claims whose lease died). Each operation is one transaction;
  \<open>locked\<close> tells which rows another transaction holds (\<open>SKIP LOCKED\<close>), \<open>now\<close> is the time of the
  database. The register of claims is an instance of \<open>claim_register\<close>.
\<close>

section \<open>Claim of a request\<close>

text \<open>\<open>(meta->>'action') IS DISTINCT FROM 'rules-sync'\<close>.\<close>

definition not_rules_sync :: "message \<Rightarrow> bool" where
  "not_rules_sync m = (case m_meta m of JObj kvs \<Rightarrow> get_member kvs ''action'' \<noteq> Some (JStr ''rules-sync'') | _ \<Rightarrow> True)"

text \<open>\<open>claimed_at < now() - interval\<close> is not true of a row without \<open>claimed_at\<close>.\<close>

definition older_than :: "time option \<Rightarrow> time \<Rightarrow> bool" where
  "older_than t limit = (case t of None \<Rightarrow> False | Some c \<Rightarrow> c < limit)"

definition claim_open :: "queue_env \<Rightarrow> time \<Rightarrow> message \<Rightarrow> bool" where
  "claim_open env now m \<longleftrightarrow> m_status m = MPending \<or>
     m_status m = MClaimed \<and> older_than (m_claimed_at m) (now - pg_interval env (reclaimInterval env))"

definition request_target :: "queue_env \<Rightarrow> time \<Rightarrow> string \<Rightarrow> string \<Rightarrow> message \<Rightarrow> bool" where
  "request_target env now server model m \<longleftrightarrow>
     m_to_server m = server \<and> m_to_model m = model \<and>
     m_type m \<in> set (QUEUE_REQUEST_TYPES (vocab env)) \<and>
     legacy m \<and> ordinary m \<and> not_rules_sync m \<and> claim_open env now m"

definition fifo_key :: "message \<Rightarrow> time \<times> id" where
  "fifo_key m = (m_created_at m, m_id m)"

definition claimed_row :: "string \<Rightarrow> time \<Rightarrow> message \<Rightarrow> message" where
  "claimed_row claimedBy now m = m\<lparr>m_status := MClaimed, m_claimed_by := Some claimedBy,
     m_claimed_at := Some now, m_started_at := Some now\<rparr>"

definition set_row :: "id \<Rightarrow> (message \<Rightarrow> message) \<Rightarrow> queue \<Rightarrow> queue" where
  "set_row k f q = q\<lparr>messages := update_where (\<lambda>m. m_id m = k) f (messages q)\<rparr>"

text \<open>The claimed row as \<open>RETURNING *\<close> gives it, with the status it had.\<close>

definition claimNextRequest ::
  "queue_env \<Rightarrow> (id \<Rightarrow> bool) \<Rightarrow> time \<Rightarrow> string \<Rightarrow> string \<Rightarrow> string \<Rightarrow> queue \<Rightarrow> queue \<times> (queue_error + (message \<times> mstatus) option)" where
  "claimNextRequest env locked now server model claimedBy q = transaction q
     (case first_by fifo_key (\<lambda>m. request_target env now server model m \<and> \<not> locked (m_id m)) (messages q) of
        None \<Rightarrow> Inr (q, None)
      | Some m \<Rightarrow> (let row = claimed_row claimedBy now m in
          and_then (pg_notify row (Some (m_status m)) (set_row (m_id m) (claimed_row claimedBy now) q))
            (\<lambda>q'. Inr (q', Some (row, m_status m)))))"

section \<open>Claim and acknowledgement of a reply\<close>

definition reply_target :: "queue_env \<Rightarrow> time \<Rightarrow> string \<Rightarrow> string \<Rightarrow> id list \<Rightarrow> message \<Rightarrow> bool" where
  "reply_target env now server model messageIds m \<longleftrightarrow>
     m_to_server m = server \<and> m_to_model m = model \<and>
     m_type m \<in> set (QUEUE_RESPONSE_TYPES (vocab env)) \<and>
     (case m_in_reply_to m of None \<Rightarrow> False | Some r \<Rightarrow> r \<in> set messageIds) \<and>
     legacy m \<and> claim_open env now m"

definition acked_row :: "string \<Rightarrow> time \<Rightarrow> message \<Rightarrow> message" where
  "acked_row claimedBy now m = m\<lparr>m_status := MDone, m_claimed_by := Some claimedBy,
     m_claimed_at := Some now, m_started_at := Some now, m_finished_at := Some now\<rparr>"

definition claimNextReply ::
  "queue_env \<Rightarrow> (id \<Rightarrow> bool) \<Rightarrow> time \<Rightarrow> string \<Rightarrow> string \<Rightarrow> id list \<Rightarrow> string \<Rightarrow> queue \<Rightarrow> queue \<times> (queue_error + (message \<times> mstatus) option)" where
  "claimNextReply env locked now server model messageIds claimedBy q = transaction q
     (case first_by fifo_key (\<lambda>m. reply_target env now server model messageIds m \<and> \<not> locked (m_id m)) (messages q) of
        None \<Rightarrow> Inr (q, None)
      | Some m \<Rightarrow> (let row = acked_row claimedBy now m in
          and_then (pg_notify row (Some (m_status m)) (set_row (m_id m) (acked_row claimedBy now) q))
            (\<lambda>q'. Inr (q', Some (row, m_status m)))))"

section \<open>Rollback, refresh and sweep\<close>

definition requeued_row :: "message \<Rightarrow> message" where
  "requeued_row m = m\<lparr>m_status := MPending, m_claimed_by := None, m_claimed_at := None, m_started_at := None\<rparr>"

definition owned_claim :: "id \<Rightarrow> string \<Rightarrow> message \<Rightarrow> bool" where
  "owned_claim messageId claimedBy m \<longleftrightarrow> m_id m = messageId \<and> m_status m = MClaimed \<and>
     m_claimed_by m = Some claimedBy \<and> legacy m \<and> ordinary m"

definition rollbackQueueClaim :: "id \<Rightarrow> string \<Rightarrow> queue \<Rightarrow> queue \<times> (queue_error + unit)" where
  "rollbackQueueClaim messageId claimedBy q = transaction q
     (let q' = q\<lparr>messages := update_where (owned_claim messageId claimedBy) requeued_row (messages q)\<rparr> in
      case find (owned_claim messageId claimedBy) (messages q) of
        None \<Rightarrow> Inr (q', ())
      | Some m \<Rightarrow> and_then (pg_notify (requeued_row m) (Some MClaimed) q') (\<lambda>q''. Inr (q'', ())))"

text \<open>
  \<open>refreshQueueLeases\<close>: every entry of the register is written back with exact equality of the owner; an
  entry whose claim is gone is dropped. \<open>reachable\<close> is the database answering for that entry: an
  error keeps the entry.
\<close>

definition refresh_one :: "(id \<Rightarrow> bool) \<Rightarrow> time \<Rightarrow> id \<times> string \<times> string \<Rightarrow> queue \<Rightarrow> queue" where
  "refresh_one reachable now entry q = (case entry of (messageId, _, claimedBy) \<Rightarrow>
     if \<not> reachable messageId then q
     else if count_where (owned_claim messageId claimedBy) (messages q) = 0 then releaseLease messageId q
     else q\<lparr>messages := update_where (owned_claim messageId claimedBy) (\<lambda>m. m\<lparr>m_claimed_at := Some now\<rparr>) (messages q)\<rparr>)"

definition refreshQueueLeases :: "(id \<Rightarrow> bool) \<Rightarrow> time \<Rightarrow> queue \<Rightarrow> queue" where
  "refreshQueueLeases reachable now q = fold (refresh_one reachable now) (leaseEntries q) q"

text \<open>\<open>claimed_by LIKE 'mcp:%'\<close> is not true of NULL.\<close>

definition mcp_claim :: "message \<Rightarrow> bool" where
  "mcp_claim m = (case m_claimed_by m of None \<Rightarrow> False | Some w \<Rightarrow> starts_with ''mcp:'' w)"

definition stale_claim :: "queue_env \<Rightarrow> time \<Rightarrow> message \<Rightarrow> bool" where
  "stale_claim env now m \<longleftrightarrow> m_status m = MClaimed \<and> legacy m \<and> ordinary m \<and>
     (mcp_claim m \<and> older_than (m_claimed_at m) (now - pg_interval env MCP_LEASE_STALE_INTERVAL) \<or>
      \<not> mcp_claim m \<and> older_than (m_claimed_at m) (now - pg_interval env (reclaimInterval env)))"

definition sweep_targets :: "queue_env \<Rightarrow> (id \<Rightarrow> bool) \<Rightarrow> time \<Rightarrow> queue \<Rightarrow> message list" where
  "sweep_targets env locked now q =
     sort_key (\<lambda>m. or_else (m_claimed_at m) 0) (filter (\<lambda>m. stale_claim env now m \<and> \<not> locked (m_id m)) (messages q))"

text \<open>The notifications of a list of rows, in order.\<close>

fun pg_notify_all :: "message list \<Rightarrow> mstatus option \<Rightarrow> queue \<Rightarrow> queue_error + queue" where
  "pg_notify_all [] prev q = Inr q"
| "pg_notify_all (m # ms) prev q = and_then (pg_notify m prev q) (pg_notify_all ms prev)"

definition sweepStaleQueueClaims :: "queue_env \<Rightarrow> (id \<Rightarrow> bool) \<Rightarrow> time \<Rightarrow> queue \<Rightarrow> queue \<times> (queue_error + id list)" where
  "sweepStaleQueueClaims env locked now q = transaction q
     (let targets = sweep_targets env locked now q;
          ids = map m_id targets;
          q' = q\<lparr>messages := update_where (\<lambda>m. m_id m \<in> set ids) requeued_row (messages q)\<rparr>
      in and_then (pg_notify_all (map requeued_row targets) (Some MClaimed) q') (\<lambda>q''. Inr (q'', ids)))"

section \<open>Shapes of the operations\<close>

lemma row_shapes [simp]:
  "m_id (claimed_row w t m) = m_id m" "m_status (claimed_row w t m) = MClaimed"
  "m_claimed_by (claimed_row w t m) = Some w" "m_claimed_at (claimed_row w t m) = Some t"
  "legacy (claimed_row w t m) = legacy m" "ordinary (claimed_row w t m) = ordinary m"
  "m_id (acked_row w t m) = m_id m" "m_status (acked_row w t m) = MDone"
  "m_in_reply_to (claimed_row w t m) = m_in_reply_to m" "m_in_reply_to (acked_row w t m) = m_in_reply_to m"
  "legacy (acked_row w t m) = legacy m" "ordinary (acked_row w t m) = ordinary m"
  "m_id (requeued_row m) = m_id m" "m_status (requeued_row m) = MPending"
  "m_claimed_by (requeued_row m) = None" "m_in_reply_to (requeued_row m) = m_in_reply_to m"
  "legacy (requeued_row m) = legacy m" "ordinary (requeued_row m) = ordinary m"
  by (simp_all add: claimed_row_def acked_row_def requeued_row_def legacy_def ordinary_def)

lemma set_row_simps [simp]:
  "sent (set_row k f q) = sent q" "leases (set_row k f q) = leases q"
  "messages (set_row k f q) = update_where (\<lambda>m. m_id m = k) f (messages q)"
  by (simp_all add: set_row_def)

lemma claimNextRequest_cases:
  obtains (idle) "claimNextRequest env locked now s md w q = (q, Inr None)"
      "\<And>m. m \<in> set (messages q) \<Longrightarrow> request_target env now s md m \<Longrightarrow> locked (m_id m)"
  | (taken) m where "m \<in> set (messages q)" "request_target env now s md m" "\<not> locked (m_id m)"
      "\<And>n. n \<in> set (messages q) \<Longrightarrow> request_target env now s md n \<Longrightarrow> \<not> locked (m_id n) \<Longrightarrow> fifo_key m \<le> fifo_key n"
      "claimNextRequest env locked now s md w q =
         ((set_row (m_id m) (claimed_row w now) q)\<lparr>sent := sent q @ [envelope_row (claimed_row w now m) (Some (m_status m))]\<rparr>,
          Inr (Some (claimed_row w now m, m_status m)))"
proof (cases "first_by fifo_key (\<lambda>m. request_target env now s md m \<and> \<not> locked (m_id m)) (messages q)")
  case None
  then have "claimNextRequest env locked now s md w q = (q, Inr None)" by (simp add: claimNextRequest_def)
  with None show thesis using idle unfolding first_by_None by blast
next
  case (Some m)
  note m = first_by_Some [OF Some]
  have "legacy (claimed_row w now m)" using m by (simp add: request_target_def)
  then show thesis
    using taken [of m] m first_by_least [OF Some] Some by (simp add: claimNextRequest_def Let_def pg_notify_legacy)
qed

lemma claimNextReply_cases:
  obtains (idle) "claimNextReply env locked now s md ids w q = (q, Inr None)"
      "\<And>m. m \<in> set (messages q) \<Longrightarrow> reply_target env now s md ids m \<Longrightarrow> locked (m_id m)"
  | (taken) m where "m \<in> set (messages q)" "reply_target env now s md ids m" "\<not> locked (m_id m)"
      "claimNextReply env locked now s md ids w q =
         ((set_row (m_id m) (acked_row w now) q)\<lparr>sent := sent q @ [envelope_row (acked_row w now m) (Some (m_status m))]\<rparr>,
          Inr (Some (acked_row w now m, m_status m)))"
proof (cases "first_by fifo_key (\<lambda>m. reply_target env now s md ids m \<and> \<not> locked (m_id m)) (messages q)")
  case None
  then have "claimNextReply env locked now s md ids w q = (q, Inr None)" by (simp add: claimNextReply_def)
  with None show thesis using idle unfolding first_by_None by blast
next
  case (Some m)
  note m = first_by_Some [OF Some]
  have "legacy (acked_row w now m)" using m by (simp add: reply_target_def)
  then show thesis
    using taken [of m] m Some by (simp add: claimNextReply_def Let_def pg_notify_legacy)
qed

lemma rollback_cases:
  obtains (gone) "rollbackQueueClaim k w q = (q, Inr ())" "\<And>m. m \<in> set (messages q) \<Longrightarrow> \<not> owned_claim k w m"
  | (requeued) m where "m \<in> set (messages q)" "owned_claim k w m"
      "rollbackQueueClaim k w q =
         (q\<lparr>messages := update_where (owned_claim k w) requeued_row (messages q),
            sent := sent q @ [envelope_row (requeued_row m) (Some MClaimed)]\<rparr>, Inr ())"
proof (cases "find (owned_claim k w) (messages q)")
  case None
  then have none: "\<And>m. m \<in> set (messages q) \<Longrightarrow> \<not> owned_claim k w m" by (auto simp: find_None_iff)
  then have "update_where (owned_claim k w) requeued_row (messages q) = messages q" by (rule update_where_none)
  with none None show thesis using gone by (simp add: rollbackQueueClaim_def)
next
  case (Some m)
  then have "m \<in> set (messages q)" "owned_claim k w m" by (auto simp: find_Some_iff)
  moreover from this have "legacy (requeued_row m)" by (simp add: owned_claim_def)
  ultimately show thesis using requeued [of m] Some by (simp add: rollbackQueueClaim_def pg_notify_legacy)
qed

lemma pg_notify_all_legacy:
  "(\<And>m. m \<in> set ms \<Longrightarrow> legacy m) \<Longrightarrow>
   pg_notify_all ms prev q = Inr (q\<lparr>sent := sent q @ map (\<lambda>m. envelope_row m prev) ms\<rparr>)"
  by (induction ms arbitrary: q) (simp_all add: pg_notify_legacy)

lemma sweep_targets_set [simp]:
  "set (sweep_targets env locked now q) = {m \<in> set (messages q). stale_claim env now m \<and> \<not> locked (m_id m)}"
  by (auto simp: sweep_targets_def)

lemma sweep_eq:
  "sweepStaleQueueClaims env locked now q =
     (let ids = map m_id (sweep_targets env locked now q) in
      (q\<lparr>messages := update_where (\<lambda>m. m_id m \<in> set ids) requeued_row (messages q),
         sent := sent q @ map (\<lambda>m. envelope_row (requeued_row m) (Some MClaimed)) (sweep_targets env locked now q)\<rparr>,
       Inr ids))"
proof -
  have "\<And>m. m \<in> set (map requeued_row (sweep_targets env locked now q)) \<Longrightarrow> legacy m"
    by (auto simp: stale_claim_def)
  then have all: "pg_notify_all (map requeued_row (sweep_targets env locked now q)) (Some MClaimed) q' =
      Inr (q'\<lparr>sent := sent q' @ map (\<lambda>m. envelope_row (requeued_row m) (Some MClaimed)) (sweep_targets env locked now q)\<rparr>)" for q'
    by (subst pg_notify_all_legacy) (simp_all add: comp_def)
  show ?thesis by (simp add: sweepStaleQueueClaims_def Let_def all)
qed

section \<open>The register of claims\<close>

definition distinct_messages :: "queue \<Rightarrow> bool" where
  "distinct_messages q \<longleftrightarrow> distinct (map m_id (messages q))"

definition find_message :: "id \<Rightarrow> queue \<Rightarrow> message option" where
  "find_message k q = find_by m_id k (messages q)"

lemma find_message_update:
  fixes q q' :: queue
  shows "messages q' = update_where p f (messages q) \<Longrightarrow> (\<And>m. m_id (f m) = m_id m) \<Longrightarrow>
   find_message k q' = map_option (\<lambda>m. if p m then f m else m) (find_message k q)"
  by (simp add: find_message_def find_by_update_where)

lemma find_message_unique:
  "distinct_messages q \<Longrightarrow> m \<in> set (messages q) \<Longrightarrow> find_message (m_id m) q = Some m"
  by (simp add: distinct_messages_def find_message_def find_by_unique)

lemma find_message_Some: "find_message k q = Some m \<Longrightarrow> m \<in> set (messages q) \<and> m_id m = k"
  unfolding find_message_def by (rule find_by_Some)

definition message_holder :: "queue \<Rightarrow> id \<Rightarrow> string option" where
  "message_holder q k = (case find_message k q of None \<Rightarrow> None
     | Some m \<Rightarrow> if m_status m = MClaimed \<and> legacy m \<and> ordinary m then m_claimed_by m else None)"

definition claim_expired :: "queue_env \<Rightarrow> time \<Rightarrow> queue \<Rightarrow> id \<Rightarrow> bool" where
  "claim_expired env now q k = (case find_message k q of None \<Rightarrow> False
     | Some m \<Rightarrow> older_than (m_claimed_at m) (now - pg_interval env (reclaimInterval env)))"

text \<open>A claimant is an address and the full \<open>claimed_by\<close> it writes.\<close>

type_synonym message_claimant = "(string \<times> string) \<times> string"

definition claim_message ::
  "queue_env \<Rightarrow> (id \<Rightarrow> bool) \<Rightarrow> time \<Rightarrow> message_claimant \<Rightarrow> queue \<Rightarrow> queue \<times> id option" where
  "claim_message env locked now c q =
     (case claimNextRequest env locked now (fst (fst c)) (snd (fst c)) (snd c) q of
        (q', Inr (Some (row, _))) \<Rightarrow> (q', Some (m_id row))
      | (q', _) \<Rightarrow> (q', None))"

definition register_ok :: "queue_env \<Rightarrow> queue \<Rightarrow> bool" where
  "register_ok env q \<longleftrightarrow> distinct_messages q \<and> 0 \<le> pg_interval env (reclaimInterval env)"

lemma claim_message_cases:
  obtains (idle) "claim_message env locked now c q = (q, None)"
      "\<And>m. m \<in> set (messages q) \<Longrightarrow> request_target env now (fst (fst c)) (snd (fst c)) m \<Longrightarrow> locked (m_id m)"
  | (taken) m q' where "m \<in> set (messages q)" "request_target env now (fst (fst c)) (snd (fst c)) m" "\<not> locked (m_id m)"
      "\<And>n. n \<in> set (messages q) \<Longrightarrow> request_target env now (fst (fst c)) (snd (fst c)) n \<Longrightarrow> \<not> locked (m_id n) \<Longrightarrow> fifo_key m \<le> fifo_key n"
      "messages q' = update_where (\<lambda>x. m_id x = m_id m) (claimed_row (snd c) now) (messages q)"
      "claim_message env locked now c q = (q', Some (m_id m))"
  by (rule claimNextRequest_cases [of env locked now "fst (fst c)" "snd (fst c)" "snd c" q])
    (auto simp: claim_message_def)

lemma older_than_fresh: "0 \<le> d \<Longrightarrow> \<not> older_than (Some t) (t - d)"
  by (simp add: older_than_def)

interpretation message_register:
  claim_register "register_ok env" message_holder "claim_expired env now" snd "claim_message env locked now"
    "\<lambda>w k q. fst (rollbackQueueClaim k w q)"
  for env now locked
proof
  fix q and c :: message_claimant assume "register_ok env q"
  then show "register_ok env (fst (claim_message env locked now c q))"
    by (rule_tac c = c and q = q and env = env and locked = locked and now = now in claim_message_cases)
      (auto simp: register_ok_def distinct_messages_def map_update_where)
next
  fix q w k assume "register_ok env q"
  then show "register_ok env (fst (rollbackQueueClaim k w q))"
    by (cases rule: rollback_cases [of k w q]) (auto simp: register_ok_def distinct_messages_def map_update_where)
next
  fix q and c :: message_claimant assume "snd (claim_message env locked now c q) = None"
  then show "fst (claim_message env locked now c q) = q"
    by (cases rule: claim_message_cases [of env locked now c q]) auto
next
  fix q q' k and c :: message_claimant assume "register_ok env q" "claim_message env locked now c q = (q', Some k)"
  then show "message_holder q k = None \<or> claim_expired env now q k"
    by (cases rule: claim_message_cases [of env locked now c q])
      (auto simp: message_holder_def claim_expired_def request_target_def claim_open_def register_ok_def find_message_unique)
next
  fix q q' k and c :: message_claimant assume a: "register_ok env q" "claim_message env locked now c q = (q', Some k)"
  have "find_message k q' = Some (claimed_row (snd c) now m)" "request_target env now (fst (fst c)) (snd (fst c)) m"
    if "m \<in> set (messages q)" "request_target env now (fst (fst c)) (snd (fst c)) m" "m_id m = k"
      "messages q' = update_where (\<lambda>x. m_id x = k) (claimed_row (snd c) now) (messages q)" for m
    using that a find_message_update [OF that(4), of k] find_message_unique [of q m] by (auto simp: register_ok_def)
  moreover obtain m where "m \<in> set (messages q)" "request_target env now (fst (fst c)) (snd (fst c)) m" "m_id m = k"
      "messages q' = update_where (\<lambda>x. m_id x = k) (claimed_row (snd c) now) (messages q)"
    using a(2) by (cases rule: claim_message_cases [of env locked now c q]) auto
  ultimately obtain m where m: "find_message k q' = Some (claimed_row (snd c) now m)"
    "request_target env now (fst (fst c)) (snd (fst c)) m" by blast
  show "message_holder q' k = Some (snd c)" using m by (simp add: message_holder_def request_target_def)
  show "\<not> claim_expired env now q' k"
    using m a(1) by (simp add: claim_expired_def register_ok_def older_than_fresh)
next
  fix q q' and k i :: id and c :: message_claimant
  assume "claim_message env locked now c q = (q', Some k)" "i \<noteq> k"
  then have "find_message i q' = find_message i q"
    by (cases rule: claim_message_cases [of env locked now c q])
      (auto simp: find_message_def find_by_update_where_frame)
  then show "message_holder q' i = message_holder q i \<and> claim_expired env now q' i = claim_expired env now q i"
    by (simp add: message_holder_def claim_expired_def)
next
  fix q k w assume a: "register_ok env q" "message_holder q k = Some w"
  then obtain m where m: "find_message k q = Some m" "owned_claim k w m"
    by (auto simp: message_holder_def owned_claim_def dest: find_message_Some split: option.splits if_splits)
  show "message_holder (fst (rollbackQueueClaim k w q)) k = None"
    using m find_message_Some [OF m(1)]
    by (cases rule: rollback_cases [of k w q])
      (auto simp: message_holder_def find_message_def find_by_update_where)
next
  fix q k w assume a: "register_ok env q" "message_holder q k \<noteq> Some w"
  then have "\<not> owned_claim k w m" if "m \<in> set (messages q)" for m
    using that find_message_unique [of q m] by (auto simp: owned_claim_def message_holder_def register_ok_def)
  then show "fst (rollbackQueueClaim k w q) = q" by (cases rule: rollback_cases [of k w q]) auto
next
  fix q and i k :: id and w assume "i \<noteq> k"
  then have "find_message i (fst (rollbackQueueClaim k w q)) = find_message i q"
    by (cases rule: rollback_cases [of k w q]) (auto simp: find_message_def owned_claim_def find_by_update_where_frame)
  then show "message_holder (fst (rollbackQueueClaim k w q)) i = message_holder q i"
    by (simp add: message_holder_def)
qed

end
