(* ===== verification/Queue_Finish.thy ===== *)
theory Queue_Finish
  imports Queue_Claims
begin

text \<open>
  The end of a message: the two-stage ownership check (\<open>queue/ownership.ts\<close>) and the tools
  \<open>queue_done\<close> and \<open>queue_fail\<close> (\<open>tools/queue-done.ts\<close>, \<open>tools/queue-fail.ts\<close>). \<open>newId\<close> is the
  \<open>gen_random_uuid()\<close> of an inserted reply. The database's own row guard on managed rows (a trigger
  outside this repository) is not part of the model.
\<close>

section \<open>Ownership\<close>

text \<open>\<open>Inr (Some w)\<close>: the row must still be claimed by \<open>w\<close>; \<open>Inr None\<close>: a pending row closed without a claim.\<close>

definition verifyLocalOwnership :: "queue \<Rightarrow> id \<Rightarrow> mstatus \<Rightarrow> string option \<Rightarrow> queue_error + string option" where
  "verifyLocalOwnership q messageId rowStatus claimToken =
     (if rowStatus = MPending then
        (if claimToken \<noteq> None then Inl (QUEUE_CLAIM_EXPIRED messageId) else Inr None)
      else case getLease q messageId of
        None \<Rightarrow> (if claimToken \<noteq> None then Inl (QUEUE_CLAIM_EXPIRED messageId) else Inl (QUEUE_NOT_CLAIMER messageId))
      | Some lease \<Rightarrow>
          if claimToken = None \<or> claimToken \<noteq> Some (l_claimToken lease) then Inl (QUEUE_NOT_CLAIMER messageId)
          else Inr (Some (l_claimedBy lease)))"

text \<open>The checks the two tools share, on the row read \<open>FOR UPDATE\<close>.\<close>

definition finishable :: "queue_env \<Rightarrow> queue \<Rightarrow> id \<Rightarrow> string option \<Rightarrow> queue_error + message" where
  "finishable env q messageId claimToken =
     and_then (or_throw (QUEUE_NOT_FOUND messageId) (find_message messageId q)) (\<lambda>req.
     and_then (assertLegacyQueueRow req) (\<lambda>req.
       if m_status req \<in> set (QUEUE_TERMINAL_STATUSES (vocab env)) then Inl (QUEUE_ALREADY_TERMINAL messageId (m_status req))
       else and_then (verifyLocalOwnership q messageId (m_status req) claimToken) (\<lambda>expected.
         if expected \<noteq> None \<and> m_claimed_by req \<noteq> expected then Inl (QUEUE_NOT_CLAIMER messageId)
         else Inr req)))"

section \<open>Done\<close>

text \<open>The inserted reply: the columns not named have the defaults of the table.\<close>

definition reply_row :: "queue_env \<Rightarrow> id \<Rightarrow> time \<Rightarrow> message \<Rightarrow> string \<Rightarrow> message" where
  "reply_row env newId now req reply =
     \<lparr>m_id = newId, m_type = QUEUE_REPLY_TYPE (vocab env) (m_type req),
      m_from_server = m_to_server req, m_from_model = m_to_model req,
      m_to_server = m_from_server req, m_to_model = m_from_model req,
      m_body = reply, m_meta = JObj [], m_source = ''mcp'', m_status = MPending, m_in_reply_to = Some (m_id req),
      m_error = None, m_claimed_by = None, m_claimed_at = None, m_started_at = None, m_finished_at = None,
      m_created_at = now, m_archived_at = None,
      ppe_protocol = None, ppe_run_id = None, ppe_operation_key = None, ppe_payload_sha256 = None,
      ppe_from_principal = None, ppe_to_principal = None, ppe_to_consumer_id = None,
      ppe_consumer_generation = None, ppe_lease_generation = None,
      dispatch_request_id = None, dispatch_projection_version = None, dispatch_role = None\<rparr>"

definition done_row :: "time \<Rightarrow> message \<Rightarrow> message" where
  "done_row now m = m\<lparr>m_status := MDone, m_finished_at := Some now\<rparr>"

definition isQueueRequestType :: "queue_env \<Rightarrow> string \<Rightarrow> bool" where
  "isQueueRequestType env t \<longleftrightarrow> t \<in> set (QUEUE_REQUEST_TYPES (vocab env))"

definition update_legacy :: "id \<Rightarrow> (message \<Rightarrow> message) \<Rightarrow> queue \<Rightarrow> queue" where
  "update_legacy k f q = q\<lparr>messages := update_where (\<lambda>m. m_id m = k \<and> legacy m) f (messages q)\<rparr>"

text \<open>The transaction of \<open>queue_done\<close>: the row read and the id of the reply, if any.\<close>

definition done_transaction ::
  "queue_env \<Rightarrow> id \<Rightarrow> time \<Rightarrow> id \<Rightarrow> string option \<Rightarrow> string option \<Rightarrow> queue \<Rightarrow> queue_error + queue \<times> id option" where
  "done_transaction env newId now messageId reply claimToken q =
     and_then (finishable env q messageId claimToken) (\<lambda>req.
       case reply of
         Some body \<Rightarrow>
           if \<not> isQueueRequestType env (m_type req) then Inl (VALIDATION_ERROR ''reply is only possible on request messages'')
           else (let ins = reply_row env newId now req body;
                     q1 = update_legacy messageId (done_row now) (q\<lparr>messages := messages q @ [ins]\<rparr>)
                 in and_then (pg_notify ins None q1) (\<lambda>q2.
                    and_then (pg_notify (done_row now req) (Some (m_status req)) q2) (\<lambda>q3. Inr (q3, Some newId))))
       | None \<Rightarrow> and_then (pg_notify (done_row now req) (Some (m_status req)) (update_legacy messageId (done_row now) q))
           (\<lambda>q1. Inr (q1, None)))"

definition queue_done ::
  "queue_env \<Rightarrow> id \<Rightarrow> time \<Rightarrow> id \<Rightarrow> string option \<Rightarrow> string option \<Rightarrow> queue \<Rightarrow> queue \<times> (queue_error + id option)" where
  "queue_done env newId now messageId reply claimToken q =
     (case writeAccess env now of Inl e \<Rightarrow> (q, Inl e)
      | Inr _ \<Rightarrow> (case transaction q (done_transaction env newId now messageId reply claimToken q) of
          (q', Inl e) \<Rightarrow> (q', Inl e)
        | (q', Inr replyId) \<Rightarrow> (releaseLease messageId q', Inr replyId)))"

section \<open>Fail\<close>

definition failed_row :: "string \<Rightarrow> time \<Rightarrow> message \<Rightarrow> message" where
  "failed_row err now m = m\<lparr>m_status := MFailed, m_error := Some err, m_finished_at := Some now\<rparr>"

definition queue_fail ::
  "queue_env \<Rightarrow> time \<Rightarrow> id \<Rightarrow> string \<Rightarrow> string option \<Rightarrow> queue \<Rightarrow> queue \<times> (queue_error + unit)" where
  "queue_fail env now messageId err claimToken q =
     (case writeAccess env now of Inl e \<Rightarrow> (q, Inl e)
      | Inr _ \<Rightarrow> (case transaction q
          (and_then (finishable env q messageId claimToken) (\<lambda>req.
           and_then (pg_notify (failed_row err now req) (Some (m_status req)) (update_legacy messageId (failed_row err now) q))
             (\<lambda>q'. Inr (q', ())))) of
          (q', Inl e) \<Rightarrow> (q', Inl e)
        | (q', Inr _) \<Rightarrow> (releaseLease messageId q', Inr ())))"

section \<open>Laws\<close>

lemma finished_rows [simp]:
  "m_id (done_row t m) = m_id m" "m_status (done_row t m) = MDone" "legacy (done_row t m) = legacy m"
  "m_id (failed_row e t m) = m_id m" "m_status (failed_row e t m) = MFailed" "legacy (failed_row e t m) = legacy m"
  "m_in_reply_to (done_row t m) = m_in_reply_to m" "m_in_reply_to (failed_row e t m) = m_in_reply_to m"
  "legacy (reply_row env k t m b)" "ordinary (reply_row env k t m b)" "m_id (reply_row env k t m b) = k"
  "m_status (reply_row env k t m b) = MPending" "m_in_reply_to (reply_row env k t m b) = Some (m_id m)"
  by (simp_all add: done_row_def failed_row_def reply_row_def legacy_def ordinary_def)

text \<open>Who may finish a row: the holder of a live lease with its token, or anyone a pending row without one.\<close>

definition may_finish :: "queue \<Rightarrow> message \<Rightarrow> string option \<Rightarrow> bool" where
  "may_finish q m token \<longleftrightarrow>
     m_status m = MPending \<and> token = None \<or>
     m_status m \<noteq> MPending \<and> (\<exists>l. getLease q (m_id m) = Some l \<and> token = Some (l_claimToken l) \<and> m_claimed_by m = Some (l_claimedBy l))"

lemma finishable_iff:
  "finishable env q k token = Inr m \<longleftrightarrow>
     find_message k q = Some m \<and> legacy m \<and> m_status m \<notin> set (QUEUE_TERMINAL_STATUSES (vocab env)) \<and> may_finish q m token"
proof -
  have "m_id m = k" if "find_message k q = Some m" using find_message_Some [OF that] by simp
  then show ?thesis
    by (cases "find_message k q"; cases token)
      (auto simp: finishable_def and_then_Inr_iff assertLegacyQueueRow_def verifyLocalOwnership_def may_finish_def
        split: option.splits if_splits)
qed

lemma update_where_key:
  "distinct (map key rs) \<Longrightarrow> find_by key k rs = Some r \<Longrightarrow> p r \<Longrightarrow>
   update_where (\<lambda>x. key x = k \<and> p x) f rs = update_where (\<lambda>x. key x = k) f rs"
  using find_by_unique_row [of key rs k r] by (fastforce simp: update_where_def)

lemma queue_doneE:
  assumes "queue_done env newId now k reply token q = (q', r)"
  obtains (refused) e where "q' = q" "r = Inl e"
  | (answered) m body where "finishable env q k token = Inr m" "reply = Some body" "isQueueRequestType env (m_type m)"
      "r = Inr (Some newId)"
      "messages q' = update_where (\<lambda>m. m_id m = k \<and> legacy m) (done_row now) (messages q @ [reply_row env newId now m body])"
      "sent q' = sent q @ [envelope_row (reply_row env newId now m body) None, envelope_row (done_row now m) (Some (m_status m))]"
      "leases q' = AList.delete k (leases q)"
  | (closed) m where "finishable env q k token = Inr m" "reply = None" "r = Inr None"
      "messages q' = update_where (\<lambda>m. m_id m = k \<and> legacy m) (done_row now) (messages q)"
      "sent q' = sent q @ [envelope_row (done_row now m) (Some (m_status m))]"
      "leases q' = AList.delete k (leases q)"
proof (cases "writeAccess env now")
  case (Inl e)
  with assms show thesis by (intro refused) (auto simp: queue_done_def)
next
  case (Inr a)
  show thesis
  proof (cases "finishable env q k token")
    case (Inl e)
    with assms \<open>writeAccess env now = Inr a\<close> show thesis
      by (intro refused) (auto simp: queue_done_def done_transaction_def)
  next
    case fin: (Inr m)
    then have m: "legacy m" by (simp add: finishable_iff)
    show thesis
    proof (cases reply)
      case None
      with assms fin Inr m show thesis
        by (intro closed [of m]) (auto simp: queue_done_def done_transaction_def pg_notify_legacy update_legacy_def releaseLease_def)
    next
      case (Some body)
      show thesis
      proof (cases "isQueueRequestType env (m_type m)")
        case True
        with assms fin Inr m Some show thesis
          by (intro answered [of m body])
            (auto simp: queue_done_def done_transaction_def Let_def pg_notify_legacy update_legacy_def releaseLease_def)
      next
        case False
        with assms fin Inr Some show thesis
          by (intro refused) (auto simp: queue_done_def done_transaction_def)
      qed
    qed
  qed
qed

lemma queue_failE:
  assumes "queue_fail env now k err token q = (q', r)"
  obtains (refused) e where "q' = q" "r = Inl e"
  | (failed) m where "finishable env q k token = Inr m" "r = Inr ()"
      "messages q' = update_where (\<lambda>m. m_id m = k \<and> legacy m) (failed_row err now) (messages q)"
      "sent q' = sent q @ [envelope_row (failed_row err now m) (Some (m_status m))]"
      "leases q' = AList.delete k (leases q)"
proof (cases "writeAccess env now")
  case (Inl e)
  with assms show thesis by (intro refused) (auto simp: queue_fail_def)
next
  case (Inr a)
  show thesis
  proof (cases "finishable env q k token")
    case (Inl e)
    with assms Inr show thesis by (intro refused) (auto simp: queue_fail_def)
  next
    case fin: (Inr m)
    then have m: "legacy m" by (simp add: finishable_iff)
    with assms fin Inr show thesis
      by (intro failed [of m]) (auto simp: queue_fail_def pg_notify_legacy update_legacy_def releaseLease_def)
  qed
qed

end
