(* ===== verification/Queue_Receive.thy ===== *)
theory Queue_Receive
  imports Queue_Claims
begin

text \<open>
  Receiving on the queue: \<open>queue_next\<close> (\<open>tools/queue-next.ts\<close>), which claims a request with a bounded wait
  and rolls the claim back when the call was cancelled, and \<open>queue_wait_reply\<close>
  (\<open>tools/queue-wait-reply.ts\<close>), which collects every available reply to the caller's requests.

  A wait is driven by the environment: each attempt after a wake-up comes with its time, the token
  drawn for it, the rows locked at that moment, whether the call was cancelled before or after it, and
  what the other processes did meanwhile. A wait that still lasts when the given attempts are used up
  has no result yet.
\<close>

record attempt =
  at_now :: time
  at_token :: string
  at_locked :: "id \<Rightarrow> bool"
  at_others :: "queue \<Rightarrow> queue"
  at_aborted_before :: bool
  at_aborted_after :: bool

section \<open>queue_next\<close>

record claim_result =
  cr_row :: message
  cr_token :: string
  cr_claimedBy :: string

definition claimed_by_text :: "queue_env \<Rightarrow> string \<Rightarrow> string" where
  "claimed_by_text env token = ''mcp:'' @ instance_id env @ '':'' @ token"

definition tryClaim :: "queue_env \<Rightarrow> string \<times> string \<Rightarrow> attempt \<Rightarrow> queue \<Rightarrow> queue \<times> (queue_error + claim_result option)" where
  "tryClaim env self a q =
     (let claimedBy = claimed_by_text env (at_token a) in
      case claimNextRequest env (at_locked a) (at_now a) (fst self) (snd self) claimedBy q of
        (q', Inl e) \<Rightarrow> (q', Inl e)
      | (q', Inr None) \<Rightarrow> (q', Inr None)
      | (q', Inr (Some (row, _))) \<Rightarrow>
          (registerLease (m_id row) \<lparr>l_claimToken = at_token a, l_claimedBy = claimedBy\<rparr> q',
           Inr (Some \<lparr>cr_row = row, cr_token = at_token a, cr_claimedBy = claimedBy\<rparr>)))"

text \<open>The state after the loop, and whether the call is aborted then.\<close>

datatype 'a wait_end = Waiting | Ended 'a bool

fun next_loop ::
  "queue_env \<Rightarrow> string \<times> string \<Rightarrow> time \<Rightarrow> time \<Rightarrow> bool \<Rightarrow> attempt list \<Rightarrow> queue \<Rightarrow> queue \<times> (queue_error + claim_result option wait_end)" where
  "next_loop env self deadline now aborted as q =
     (if \<not> (now < deadline \<and> \<not> aborted) then (q, Inr (Ended None aborted))
      else case as of
        [] \<Rightarrow> (q, Inr Waiting)
      | a # as' \<Rightarrow>
          (let q = at_others a q in
           if at_aborted_before a then (q, Inr (Ended None True))
           else case tryClaim env self a q of
             (q', Inl e) \<Rightarrow> (q', Inl e)
           | (q', Inr (Some c)) \<Rightarrow> (q', Inr (Ended (Some c) (at_aborted_after a)))
           | (q', Inr None) \<Rightarrow> next_loop env self deadline (at_now a) (at_aborted_after a) as' q'))"

declare next_loop.simps [simp del]

datatype next_reply =
    NextStillWaiting
  | NextTimeout
  | NextCancelled
  | NextClaimed message_view string

definition next_finish :: "claim_result option \<Rightarrow> bool \<Rightarrow> queue \<Rightarrow> queue \<times> (queue_error + next_reply)" where
  "next_finish claimed aborted q =
     (case claimed of
        None \<Rightarrow> (q, Inr NextTimeout)
      | Some c \<Rightarrow>
          if aborted then
            (case rollbackQueueClaim (m_id (cr_row c)) (cr_claimedBy c) (releaseLease (m_id (cr_row c)) q) of
               (q', Inl e) \<Rightarrow> (q', Inl e)
             | (q', Inr _) \<Rightarrow> (q', Inr NextCancelled))
          else (case messageView (cr_row c) of
               Inl e \<Rightarrow> (q, Inl e)
             | Inr v \<Rightarrow> (q, Inr (NextClaimed v (cr_token c)))))"

text \<open>The first attempt is the direct one; with a wait, the second is made right after LISTEN.\<close>

definition queue_next ::
  "queue_env \<Rightarrow> string option \<Rightarrow> time \<Rightarrow> bool \<Rightarrow> attempt \<Rightarrow> attempt \<Rightarrow> attempt list \<Rightarrow> queue \<Rightarrow> queue \<times> (queue_error + next_reply)" where
  "queue_next env as_model waitSeconds aborted a0 a1 as q =
     (case writeAccess env (at_now a0) of Inl e \<Rightarrow> (q, Inl e) | Inr _ \<Rightarrow>
      case resolveQueueIdentity env as_model of Inl e \<Rightarrow> (q, Inl e) | Inr self \<Rightarrow>
      if aborted then (q, Inr NextTimeout)
      else case tryClaim env self a0 q of
        (q', Inl e) \<Rightarrow> (q', Inl e)
      | (q', Inr (Some c)) \<Rightarrow> next_finish (Some c) (at_aborted_after a0) q'
      | (q', Inr None) \<Rightarrow>
          if \<not> 0 < waitSeconds then next_finish None (at_aborted_after a0) q'
          else (case tryClaim env self a1 (at_others a1 q') of
             (q'', Inl e) \<Rightarrow> (q'', Inl e)
           | (q'', Inr (Some c)) \<Rightarrow> next_finish (Some c) (at_aborted_after a1) q''
           | (q'', Inr None) \<Rightarrow>
               (case next_loop env self (at_now a0 + waitSeconds * 1000) (at_now a1) (at_aborted_after a1) as q'' of
                  (q3, Inl e) \<Rightarrow> (q3, Inl e)
                | (q3, Inr Waiting) \<Rightarrow> (q3, Inr NextStillWaiting)
                | (q3, Inr (Ended c ab)) \<Rightarrow> next_finish c ab q3)))"

section \<open>queue_wait_reply\<close>

text \<open>The rows already answered: \<open>findMany\<close>, oldest first.\<close>

definition already_done :: "string \<times> string \<Rightarrow> id list \<Rightarrow> queue \<Rightarrow> message list" where
  "already_done self messageIds q = sort_key fifo_key (filter (\<lambda>m.
     (case m_in_reply_to m of None \<Rightarrow> False | Some r \<Rightarrow> r \<in> set messageIds) \<and>
     m_to_server m = fst self \<and> m_to_model m = snd self \<and> m_status m = MDone \<and> legacy m) (messages q))"

text \<open>
  The drain: claim until nothing is left. Iteration \<open>i\<close> runs at time \<open>clock i\<close> with the rows
  \<open>lock i\<close> held by others.
\<close>

lemma ack_decreases:
  assumes "claimNextReply env locked now s md ids w q = (q', Inr (Some r))"
  shows "count_where (\<lambda>m. m_status m \<noteq> MDone) (messages q') < count_where (\<lambda>m. m_status m \<noteq> MDone) (messages q)"
proof -
  have less: "count_where (\<lambda>m. m_status m \<noteq> MDone) (update_where (\<lambda>x. m_id x = m_id m) (acked_row w now) ms)
      < count_where (\<lambda>m. m_status m \<noteq> MDone) ms" if "m \<in> set ms" "m_status m \<noteq> MDone" for m ms
    using that
  proof (induction ms)
    case (Cons x ms)
    have le: "count_where (\<lambda>m. m_status m \<noteq> MDone) (update_where (\<lambda>x. m_id x = m_id m) (acked_row w now) ys)
      \<le> count_where (\<lambda>m. m_status m \<noteq> MDone) ys" for ys
      by (induction ys) (auto simp: count_where_def)
    show ?case
    proof (cases "x = m")
      case True
      then show ?thesis using Cons.prems le [of ms] by (simp add: count_where_def)
    next
      case False
      with Cons.prems Cons.IH show ?thesis by (auto simp: count_where_def)
    qed
  qed simp
  show ?thesis
    using assms less by (cases rule: claimNextReply_cases [of env locked now s md ids w q])
      (auto simp: reply_target_def claim_open_def)
qed

function drain_replies ::
  "queue_env \<Rightarrow> (nat \<Rightarrow> id \<Rightarrow> bool) \<Rightarrow> (nat \<Rightarrow> time) \<Rightarrow> string \<times> string \<Rightarrow> id list \<Rightarrow> string \<Rightarrow> nat \<Rightarrow> queue
     \<Rightarrow> (id \<times> message_view) list \<Rightarrow> queue \<times> (queue_error + (id \<times> message_view) list)" where
  "drain_replies env lock clock self ids claimedBy i q byId =
     (case claimNextReply env (lock i) (clock i) (fst self) (snd self) ids claimedBy q of
        (q', Inl e) \<Rightarrow> (q', Inl e)
      | (q', Inr None) \<Rightarrow> (q', Inr byId)
      | (q', Inr (Some (row, _))) \<Rightarrow> (case messageView row of
          Inl e \<Rightarrow> (q', Inl e)
        | Inr v \<Rightarrow> drain_replies env lock clock self ids claimedBy (Suc i) q' (AList.update (m_id row) v byId)))"
  by pat_completeness auto
termination
proof (relation "measure (\<lambda>(_, _, _, _, _, _, _, q, _). count_where (\<lambda>m. m_status m \<noteq> MDone) (messages q))", goal_cases)
  case (2 env lock clock self ids claimedBy i q byId q' r y z row s v)
  from 2(1) [symmetric, unfolded 2(2,3)] show ?case by (simp add: ack_decreases)
qed simp

declare drain_replies.simps [simp del]

definition collectAvailableReplies ::
  "queue_env \<Rightarrow> (nat \<Rightarrow> id \<Rightarrow> bool) \<Rightarrow> (nat \<Rightarrow> time) \<Rightarrow> string \<times> string \<Rightarrow> id list \<Rightarrow> string \<Rightarrow> queue
     \<Rightarrow> queue \<times> (queue_error + message_view list)" where
  "collectAvailableReplies env lock clock self ids claimedBy q =
     (let rows = already_done self ids q in
      case views rows of Inl e \<Rightarrow> (q, Inl e)
      | Inr vs \<Rightarrow> (case drain_replies env lock clock self ids claimedBy 0 q
            (fold (\<lambda>(m, v). AList.update (m_id m) v) (zip rows vs) []) of
          (q', Inl e) \<Rightarrow> (q', Inl e)
        | (q', Inr byId) \<Rightarrow> (q', Inr (map snd byId))))"

datatype wait_reply = ReplyStillWaiting | ReplyTimeout | Replies "message_view list"

text \<open>A collection made by the wait: its clock and locks, what the others did before it, cancellation.\<close>

record collection =
  co_clock :: "nat \<Rightarrow> time"
  co_lock :: "nat \<Rightarrow> id \<Rightarrow> bool"
  co_others :: "queue \<Rightarrow> queue"
  co_aborted_before :: bool
  co_aborted_after :: bool

fun reply_loop ::
  "queue_env \<Rightarrow> string \<times> string \<Rightarrow> id list \<Rightarrow> string \<Rightarrow> time \<Rightarrow> time \<Rightarrow> bool \<Rightarrow> collection list \<Rightarrow> queue \<Rightarrow> queue \<times> (queue_error + wait_reply)" where
  "reply_loop env self ids claimedBy deadline now aborted cs q =
     (if \<not> (now < deadline \<and> \<not> aborted) then (q, Inr ReplyTimeout)
      else case cs of
        [] \<Rightarrow> (q, Inr ReplyStillWaiting)
      | c # cs' \<Rightarrow>
          (let q = co_others c q in
           if co_aborted_before c then (q, Inr ReplyTimeout)
           else case collectAvailableReplies env (co_lock c) (co_clock c) self ids claimedBy q of
             (q', Inl e) \<Rightarrow> (q', Inl e)
           | (q', Inr replies) \<Rightarrow>
               if replies \<noteq> [] then (q', Inr (Replies replies))
               else reply_loop env self ids claimedBy deadline (co_clock c 0) (co_aborted_after c) cs' q'))"

declare reply_loop.simps [simp del]

definition queue_wait_reply ::
  "queue_env \<Rightarrow> string option \<Rightarrow> id list \<Rightarrow> time \<Rightarrow> collection \<Rightarrow> collection \<Rightarrow> collection list \<Rightarrow> queue \<Rightarrow> queue \<times> (queue_error + wait_reply)" where
  "queue_wait_reply env as_model ids waitSeconds c0 c1 cs q =
     (case writeAccess env (co_clock c0 0) of Inl e \<Rightarrow> (q, Inl e) | Inr _ \<Rightarrow>
      case resolveQueueIdentity env as_model of Inl e \<Rightarrow> (q, Inl e) | Inr self \<Rightarrow>
      (let claimedBy = ''mcp:'' @ instance_id env in
       case collectAvailableReplies env (co_lock c0) (co_clock c0) self ids claimedBy q of
         (q', Inl e) \<Rightarrow> (q', Inl e)
       | (q', Inr replies) \<Rightarrow>
           if replies \<noteq> [] then (q', Inr (Replies replies))
           else if waitSeconds = 0 \<or> co_aborted_after c0 then (q', Inr ReplyTimeout)
           else (case collectAvailableReplies env (co_lock c1) (co_clock c1) self ids claimedBy (co_others c1 q') of
               (q'', Inl e) \<Rightarrow> (q'', Inl e)
             | (q'', Inr replies) \<Rightarrow>
                 if replies \<noteq> [] then (q'', Inr (Replies replies))
                 else reply_loop env self ids claimedBy (co_clock c0 0 + waitSeconds * 1000) (co_clock c1 0)
                        (co_aborted_after c1) cs q'')))"

end
