(* ===== verification/Queue_Receive_Laws.thy ===== *)
theory Queue_Receive_Laws
  imports Queue_Receive
begin

text \<open>
  What the two receiving tools guarantee: a cancelled \<open>queue_next\<close> gives its message back, a successful one
  hands out the oldest free request with a lease of its own; \<open>queue_wait_reply\<close> collects every available
  reply to the caller's requests and nothing else, and collects delivered ones again.
\<close>

section \<open>The claim of \<open>queue_next\<close>\<close>

lemma messages_frame_lease [simp]:
  "messages (q\<lparr>leases := ls\<rparr>) = messages q" "sent (q\<lparr>leases := ls\<rparr>) = sent q"
  by simp_all

lemma attemptE:
  assumes "tryClaim env self a q = (q', Inr (Some c))"
  obtains m where "m \<in> set (messages q)" "request_target env (at_now a) (fst self) (snd self) m" "\<not> at_locked a (m_id m)"
    "\<And>n. n \<in> set (messages q) \<Longrightarrow> request_target env (at_now a) (fst self) (snd self) n \<Longrightarrow> \<not> at_locked a (m_id n) \<Longrightarrow>
       fifo_key m \<le> fifo_key n"
    "cr_row c = claimed_row (claimed_by_text env (at_token a)) (at_now a) m"
    "cr_token c = at_token a" "cr_claimedBy c = claimed_by_text env (at_token a)"
    "messages q' = update_where (\<lambda>x. m_id x = m_id m) (claimed_row (claimed_by_text env (at_token a)) (at_now a)) (messages q)"
    "leases q' = AList.update (m_id m) \<lparr>l_claimToken = at_token a, l_claimedBy = claimed_by_text env (at_token a)\<rparr> (leases q)"
  using assms
  by (cases rule: claimNextRequest_cases [of env "at_locked a" "at_now a" "fst self" "snd self" "claimed_by_text env (at_token a)" q])
    (auto simp: tryClaim_def Let_def registerLease_def)

lemma attempt_none:
  assumes "tryClaim env self a q = (q', Inr None)"
  shows "q' = q \<and> (\<forall>m \<in> set (messages q). request_target env (at_now a) (fst self) (snd self) m \<longrightarrow> at_locked a (m_id m))"
  using assms
  by (cases rule: claimNextRequest_cases [of env "at_locked a" "at_now a" "fst self" "snd self" "claimed_by_text env (at_token a)" q])
    (auto simp: tryClaim_def Let_def)

lemma tryClaim_never_throws: "tryClaim env self a q \<noteq> (q', Inl e)"
  by (cases rule: claimNextRequest_cases [of env "at_locked a" "at_now a" "fst self" "snd self" "claimed_by_text env (at_token a)" q])
    (auto simp: tryClaim_def Let_def)

lemma requeue_claimed_row:
  "distinct (map m_id ms) \<Longrightarrow> m \<in> set ms \<Longrightarrow> legacy m \<Longrightarrow> ordinary m \<Longrightarrow>
   update_where (owned_claim (m_id m) w) requeued_row (update_where (\<lambda>x. m_id x = m_id m) (claimed_row w t) ms) =
   update_where (\<lambda>x. m_id x = m_id m) requeued_row ms"
proof -
  assume a: "distinct (map m_id ms)" "m \<in> set ms" "legacy m" "ordinary m"
  have same: "x = m" if "x \<in> set ms" "m_id x = m_id m" for x
    using a that by (metis distinct_map inj_on_def)
  have undo: "requeued_row (claimed_row w t m) = requeued_row m" by (simp add: requeued_row_def claimed_row_def)
  have "(if owned_claim (m_id m) w (if m_id x = m_id m then claimed_row w t x else x)
      then requeued_row (if m_id x = m_id m then claimed_row w t x else x)
      else if m_id x = m_id m then claimed_row w t x else x) = (if m_id x = m_id m then requeued_row x else x)"
    if "x \<in> set ms" for x
  proof (cases "m_id x = m_id m")
    case True
    then have "x = m" using same that by blast
    moreover have "owned_claim (m_id m) w (claimed_row w t m)" using a by (simp add: owned_claim_def)
    ultimately show ?thesis by (simp add: undo)
  qed (simp add: owned_claim_def)
  then show ?thesis by (simp add: update_where_def comp_def)
qed


section \<open>The collection of replies\<close>

text \<open>The caller's own replies, and what a collection may do to a row.\<close>

definition own_reply :: "string \<times> string \<Rightarrow> id list \<Rightarrow> message \<Rightarrow> bool" where
  "own_reply self ids m \<longleftrightarrow> m_to_server m = fst self \<and> m_to_model m = snd self \<and> legacy m \<and>
     (case m_in_reply_to m of None \<Rightarrow> False | Some r \<Rightarrow> r \<in> set ids)"

text \<open>From \<open>q\<close> to \<open>q'\<close> the messages with the keys \<open>ks\<close> were acknowledged and nothing else changed.\<close>

definition acked :: "string \<times> string \<Rightarrow> id list \<Rightarrow> id set \<Rightarrow> queue \<Rightarrow> queue \<Rightarrow> bool" where
  "acked self ids ks q q' \<longleftrightarrow> map m_id (messages q') = map m_id (messages q) \<and> leases q' = leases q \<and>
     (\<forall>k. case find_message k q of
        None \<Rightarrow> k \<notin> ks
      | Some m \<Rightarrow> (if k \<in> ks then own_reply self ids m \<and> m_status m \<noteq> MDone \<and> (\<exists>w t. find_message k q' = Some (acked_row w t m))
          else find_message k q' = Some m))"

lemma find_message_keys:
  "map m_id (messages q') = map m_id (messages q) \<Longrightarrow> find_message k q = None \<Longrightarrow> find_message k q' = None"
  unfolding find_message_def find_by_None by (metis image_set)

lemma acked_refl: "acked self ids {} q q"
  by (simp add: acked_def split: option.split)

lemma own_reply_acked [simp]: "own_reply self ids (acked_row w t m) = own_reply self ids m"
  by (simp add: own_reply_def acked_row_def legacy_def)

lemma acked_trans:
  assumes "acked self ids ks q q'" and "acked self ids ks' q' q''"
  shows "acked self ids (ks \<union> ks') q q''"
  unfolding acked_def
proof (intro conjI allI)
  show "map m_id (messages q'') = map m_id (messages q)" "leases q'' = leases q"
    using assms by (simp_all add: acked_def)
  fix k
  note a = assms(1) [unfolded acked_def, THEN conjunct2, THEN conjunct2, THEN spec, of k]
  note b = assms(2) [unfolded acked_def, THEN conjunct2, THEN conjunct2, THEN spec, of k]
  have keys: "map m_id (messages q') = map m_id (messages q)" using assms(1) by (simp add: acked_def)
  show "case find_message k q of None \<Rightarrow> k \<notin> ks \<union> ks'
      | Some m \<Rightarrow> if k \<in> ks \<union> ks' then own_reply self ids m \<and> m_status m \<noteq> MDone \<and> (\<exists>w t. find_message k q'' = Some (acked_row w t m))
          else find_message k q'' = Some m"
  proof (cases "find_message k q")
    case None
    with find_message_keys [OF keys None] a b show ?thesis by simp
  next
    case (Some m)
    show ?thesis
    proof (cases "k \<in> ks")
      case True
      then obtain w t where "find_message k q' = Some (acked_row w t m)" "own_reply self ids m" "m_status m \<noteq> MDone"
        using a Some by auto
      then show ?thesis using b Some True by (auto split: if_splits)
    next
      case False
      then show ?thesis using a b Some by (auto split: if_splits)
    qed
  qed
qed

lemma claimNextReply_acked:
  assumes "distinct_messages q" "claimNextReply env locked now (fst self) (snd self) ids w q = (q', Inr (Some (row, st)))"
  shows "acked self ids {m_id row} q q' \<and> legacy row"
  using assms(2)
proof (cases rule: claimNextReply_cases [of env locked now "fst self" "snd self" ids w q])
  case (taken m)
  then have q': "messages q' = update_where (\<lambda>x. m_id x = m_id m) (acked_row w now) (messages q)" "leases q' = leases q"
    and row: "row = acked_row w now m" using assms(2) by auto
  have m: "find_message (m_id m) q = Some m" "own_reply self ids m" "m_status m \<noteq> MDone" "legacy m"
    using find_message_unique [OF assms(1) taken(1)] taken(2)
    by (auto simp: reply_target_def own_reply_def claim_open_def split: option.splits)
  show ?thesis
    unfolding acked_def
  proof (intro conjI allI)
    fix k
    show "case find_message k q of None \<Rightarrow> k \<notin> {m_id row}
      | Some m \<Rightarrow> if k \<in> {m_id row} then own_reply self ids m \<and> m_status m \<noteq> MDone \<and> (\<exists>w t. find_message k q' = Some (acked_row w t m))
          else find_message k q' = Some m"
    proof (cases "k = m_id m")
      case True
      then have "find_message k q = Some m" "find_message k q' = Some (acked_row w now m)"
        using m find_message_update [OF q'(1), of k] by simp_all
      then show ?thesis using m True by (simp add: row) blast
    next
      case False
      then have "find_message k q' = find_message k q"
        using find_message_update [OF q'(1), of k] find_message_Some [of k q] by (cases "find_message k q") auto
      then show ?thesis using False by (simp add: row split: option.split)
    qed
  qed (use q' m row in \<open>simp_all add: map_update_where\<close>)
qed simp

lemma lease_update_key: "(k', x) \<in> set (AList.update k v al) \<Longrightarrow> (k', x) = (k, v) \<or> (k', x) \<in> set al"
  by (induction al) (auto split: if_splits)

lemma drain_acks:
  assumes "drain_replies env lock clock self ids w i q byId = (q', r)" and "distinct_messages q"
    and "\<forall>(k, v) \<in> set byId. v_id v = k"
  shows "\<exists>ks byId'. r = Inr byId' \<and> acked self ids ks q q' \<and> fst ` set byId' = fst ` set byId \<union> ks \<and>
     (\<forall>(k, v) \<in> set byId'. v_id v = k) \<and> (distinct (map fst byId) \<longrightarrow> distinct (map fst byId')) \<and>
     (\<exists>j. \<forall>m \<in> set (messages q'). reply_target env (clock j) (fst self) (snd self) ids m \<longrightarrow> lock j (m_id m))"
  using assms
proof (induction env lock clock self ids w i q byId arbitrary: q' r rule: drain_replies.induct)
  case (1 env lock clock self ids w i q byId)
  obtain q1 res where c: "claimNextReply env (lock i) (clock i) (fst self) (snd self) ids w q = (q1, res)" by fastforce
  show ?case
  proof (cases rule: claimNextReply_cases [of env "lock i" "clock i" "fst self" "snd self" ids w q])
    case idle
    then have "r = Inr byId" "q' = q" using "1.prems"(1) by (simp_all add: drain_replies.simps [of env lock clock self ids w i q byId])
    with idle(2) "1.prems" show ?thesis by (intro exI [of _ "{}"]) (auto simp: acked_refl)
  next
    case (taken m)
    let ?row = "acked_row w (clock i) m"
    have res: "res = Inr (Some (?row, m_status m))" using c taken by simp
    note ack = claimNextReply_acked [OF "1.prems"(2) c [unfolded res]]
    obtain v where v: "messageView ?row = Inr v" "v_id v = m_id m" using messageView_legacy [of ?row] ack by auto
    have rec: "drain_replies env lock clock self ids w (Suc i) q1 (AList.update (m_id m) v byId) = (q', r)"
      using "1.prems"(1) c v by (simp add: drain_replies.simps [of env lock clock self ids w i q byId] res)
    have d: "distinct_messages q1" using ack "1.prems"(2) by (simp add: acked_def distinct_messages_def)
    have views: "\<forall>(k, x) \<in> set (AList.update (m_id m) v byId). v_id x = k"
      using "1.prems"(3) v(2) by (auto dest!: lease_update_key)
    from "1.IH" [OF c [symmetric] res refl refl v(1)] rec d views
    obtain ks byId' where IH: "r = Inr byId'" "acked self ids ks q1 q'"
      "fst ` set byId' = fst ` set (AList.update (m_id m) v byId) \<union> ks"
      "\<forall>(k, v) \<in> set byId'. v_id v = k"
      "distinct (map fst (AList.update (m_id m) v byId)) \<longrightarrow> distinct (map fst byId')"
      "\<exists>j. \<forall>m \<in> set (messages q'). reply_target env (clock j) (fst self) (snd self) ids m \<longrightarrow> lock j (m_id m)"
      by auto
    have "fst ` set (AList.update (m_id m) v byId) = insert (m_id m) (fst ` set byId)" by (simp add: dom_update)
    with IH acked_trans [OF conjunct1 [OF ack] IH(2)] show ?thesis
      by (intro exI [of _ "insert (m_id m) ks"] exI [of _ byId']) (auto intro: distinct_update)
  qed
qed

lemma fold_update_zip:
  "length ms = length vs \<Longrightarrow> map v_id vs = map m_id ms \<Longrightarrow>
   (\<forall>(k, v) \<in> set al. v_id v = k) \<Longrightarrow> distinct (map fst al) \<Longrightarrow>
   (let al' = fold (\<lambda>(m, v). AList.update (m_id m) v) (zip ms vs) al in
     fst ` set al' = fst ` set al \<union> m_id ` set ms \<and> (\<forall>(k, v) \<in> set al'. v_id v = k) \<and> distinct (map fst al'))"
proof (induction ms vs arbitrary: al rule: list_induct2)
  case (Cons m ms v vs)
  have "\<forall>(k, x) \<in> set (AList.update (m_id m) v al). v_id x = k" using Cons.prems by (auto dest!: lease_update_key)
  with Cons.IH [of "AList.update (m_id m) v al"] Cons.prems show ?case
    by (auto simp: Let_def dom_update distinct_update)
qed simp

lemma already_done_set:
  "set (already_done self ids q) = {m \<in> set (messages q). own_reply self ids m \<and> m_status m = MDone}"
  by (auto simp: already_done_def own_reply_def)

lemma collect_acks:
  assumes "distinct_messages q" "collectAvailableReplies env lock clock self ids w q = (q', r)"
  shows "\<exists>vs ks. r = Inr vs \<and> acked self ids ks q q' \<and> distinct (map v_id vs) \<and>
    v_id ` set vs = ks \<union> m_id ` {m \<in> set (messages q). own_reply self ids m \<and> m_status m = MDone} \<and>
    (\<exists>j. \<forall>m \<in> set (messages q'). reply_target env (clock j) (fst self) (snd self) ids m \<longrightarrow> lock j (m_id m))"
proof -
  have "legacy m" if "m \<in> set (already_done self ids q)" for m
    using that by (simp add: already_done_set own_reply_def)
  then obtain vs where vs: "views (already_done self ids q) = Inr vs" "map v_id vs = map m_id (already_done self ids q)"
    using views_legacy by blast
  let ?al = "fold (\<lambda>(m, v). AList.update (m_id m) v) (zip (already_done self ids q) vs) []"
  have len: "length (already_done self ids q) = length vs" using arg_cong [OF vs(2), of length] by simp
  have al: "fst ` set ?al = m_id ` set (already_done self ids q)" "\<forall>(k, v) \<in> set ?al. v_id v = k" "distinct (map fst ?al)"
    using fold_update_zip [OF len vs(2), of "[]"] by (simp_all add: Let_def)
  obtain q1 r1 where d: "drain_replies env lock clock self ids w 0 q ?al = (q1, r1)" by fastforce
  from drain_acks [OF d assms(1) al(2)] al(1,3) obtain ks byId' where D: "r1 = Inr byId'" "acked self ids ks q q1"
    "fst ` set byId' = m_id ` set (already_done self ids q) \<union> ks" "\<forall>(k, v) \<in> set byId'. v_id v = k" "distinct (map fst byId')"
    "\<exists>j. \<forall>m \<in> set (messages q1). reply_target env (clock j) (fst self) (snd self) ids m \<longrightarrow> lock j (m_id m)"
    by auto
  have key: "map v_id (map snd byId') = map fst byId'" using D(4) by auto
  have "q' = q1" "r = Inr (map snd byId')"
    using assms(2) d D(1) vs(1) by (simp_all add: collectAvailableReplies_def Let_def)
  moreover have "v_id ` set (map snd byId') = fst ` set byId'" using key by (metis image_set)
  moreover have "distinct (map v_id (map snd byId'))" using D(5) by (simp only: key)
  ultimately show ?thesis
    using D by (intro exI [of _ "map snd byId'"] exI [of _ ks]) (auto simp: already_done_set)
qed

lemma acked_in:
  assumes "acked self ids ks q q'" "distinct_messages q" "m \<in> set (messages q)"
  shows "m_id m \<in> ks \<and> own_reply self ids m \<and> (\<exists>w t. acked_row w t m \<in> set (messages q')) \<or>
    m_id m \<notin> ks \<and> m \<in> set (messages q')"
proof -
  note at = assms(1) [unfolded acked_def, THEN conjunct2, THEN conjunct2, THEN spec, of "m_id m"]
  with find_message_unique [OF assms(2,3)] have "if m_id m \<in> ks then own_reply self ids m \<and> (\<exists>w t. find_message (m_id m) q' = Some (acked_row w t m))
      else find_message (m_id m) q' = Some m"
    by (simp split: if_splits)
  then show ?thesis by (auto dest: find_message_Some split: if_splits)
qed

text \<open>
  C27. \<open>collectAvailableReplies\<close> always ends with a list, without repetition, of the caller's own replies: every one
  already delivered, and every one that is open to a claim when the last query runs, except those another
  transaction holds locked. It acknowledges exactly the newly collected ones, changes no other message,
  and whatever it returned is returned again by the next collection.
\<close>

theorem replies_collected:
  assumes "distinct_messages q" and "collectAvailableReplies env lock clock self ids w q = (q', r)"
  shows "\<exists>vs ks. r = Inr vs \<and> distinct (map v_id vs) \<and> acked self ids ks q q' \<and> ks \<subseteq> v_id ` set vs \<and>
    (\<forall>v \<in> set vs. \<exists>m \<in> set (messages q). m_id m = v_id v \<and> own_reply self ids m) \<and>
    (\<forall>m \<in> set (messages q). own_reply self ids m \<longrightarrow> m_status m = MDone \<longrightarrow> m_id m \<in> v_id ` set vs) \<and>
    (\<exists>j. \<forall>m \<in> set (messages q). reply_target env (clock j) (fst self) (snd self) ids m \<longrightarrow>
       m_id m \<in> v_id ` set vs \<or> lock j (m_id m)) \<and>
    (\<forall>lock' clock' w' q'' vs'. collectAvailableReplies env lock' clock' self ids w' q' = (q'', Inr vs') \<longrightarrow>
       v_id ` set vs \<subseteq> v_id ` set vs')"
proof -
  from collect_acks [OF assms] obtain vs ks where V: "r = Inr vs" "acked self ids ks q q'" "distinct (map v_id vs)"
    "v_id ` set vs = ks \<union> m_id ` {m \<in> set (messages q). own_reply self ids m \<and> m_status m = MDone}"
    "\<exists>j. \<forall>m \<in> set (messages q'). reply_target env (clock j) (fst self) (snd self) ids m \<longrightarrow> lock j (m_id m)"
    by auto
  note after = acked_in [OF V(2) assms(1)]
  have own: "\<exists>m \<in> set (messages q). m_id m = v_id v \<and> own_reply self ids m" if "v \<in> set vs" for v
  proof -
    have "v_id v \<in> ks \<union> m_id ` {m \<in> set (messages q). own_reply self ids m \<and> m_status m = MDone}"
      using that V(4) by blast
    then show ?thesis
    proof
      assume k: "v_id v \<in> ks"
      then obtain m where "find_message (v_id v) q = Some m" "own_reply self ids m"
        using V(2) [unfolded acked_def, THEN conjunct2, THEN conjunct2, THEN spec, of "v_id v"]
        by (cases "find_message (v_id v) q") simp_all
      then show ?thesis by (auto dest: find_message_Some)
    qed auto
  qed
  obtain j where j: "\<forall>m \<in> set (messages q'). reply_target env (clock j) (fst self) (snd self) ids m \<longrightarrow> lock j (m_id m)"
    using V(5) by blast
  have open_ones: "\<forall>m \<in> set (messages q). reply_target env (clock j) (fst self) (snd self) ids m \<longrightarrow>
     m_id m \<in> v_id ` set vs \<or> lock j (m_id m)"
    using after j V(4) by blast
  have d': "distinct_messages q'" using V(2) assms(1) by (simp add: acked_def distinct_messages_def)
  have again: "v_id ` set vs \<subseteq> v_id ` set vs'"
    if c: "collectAvailableReplies env lock' clock' self ids w' q' = (q'', Inr vs')" for lock' clock' w' q'' vs'
  proof -
    from collect_acks [OF d' c] have sub: "m_id ` {m \<in> set (messages q'). own_reply self ids m \<and> m_status m = MDone} \<subseteq> v_id ` set vs'"
      by auto
    have "v_id v \<in> m_id ` {m \<in> set (messages q'). own_reply self ids m \<and> m_status m = MDone}" if vin: "v \<in> set vs" for v
    proof -
      obtain m where m: "m \<in> set (messages q)" "m_id m = v_id v" using own [OF vin] by blast
      have cases: "v_id v \<in> ks \<union> m_id ` {m \<in> set (messages q). own_reply self ids m \<and> m_status m = MDone}"
        using vin V(4) by blast
      show ?thesis
      proof (cases "v_id v \<in> ks")
        case True
        with after [OF m(1)] m(2) obtain w t where "acked_row w t m \<in> set (messages q')" "own_reply self ids m" by auto
        then show ?thesis using m(2) by (intro image_eqI [of _ _ "acked_row w t m"]) simp_all
      next
        case False
        with cases obtain n where n: "n \<in> set (messages q)" "own_reply self ids n" "m_status n = MDone" "m_id n = v_id v"
          by auto
        with after [OF n(1)] False show ?thesis by (intro image_eqI [of _ _ n]) auto
      qed
    qed
    with sub show ?thesis by blast
  qed
  have "\<forall>m \<in> set (messages q). own_reply self ids m \<longrightarrow> m_status m = MDone \<longrightarrow> m_id m \<in> v_id ` set vs" using V(4) by blast
  moreover have "ks \<subseteq> v_id ` set vs" using V(4) by blast
  ultimately show ?thesis using V(1-3) own open_ones again by blast
qed

end
