(* ===== verification/Queue_Archive.thy ===== *)
theory Queue_Archive
  imports Queue_Claims
begin

text \<open>
  Archiving a thread (\<open>tools/queue-archive.ts\<close>): the recursive query for a message with all its transitive
  replies, and the two tools that set and clear \<open>archived_at\<close> on the whole subtree.
\<close>

section \<open>The subtree\<close>

text \<open>
  \<open>WITH RECURSIVE subtree\<close>: add the replies to what is already there until nothing new is found
  (\<open>UNION\<close> drops what the result already holds, so a cycle ends too).
\<close>

definition children :: "message list \<Rightarrow> id list \<Rightarrow> id list" where
  "children ms ids = map m_id (filter (\<lambda>m. m_id m \<notin> set ids \<and>
     (case m_in_reply_to m of None \<Rightarrow> False | Some p \<Rightarrow> p \<in> set ids)) ms)"

function subtree :: "message list \<Rightarrow> id list \<Rightarrow> id list" where
  "subtree ms ids = (let new = children ms ids in if new = [] then ids else subtree ms (ids @ new))"
  by pat_completeness auto
termination
proof (relation "measure (\<lambda>(ms, ids). length (filter (\<lambda>m. m_id m \<notin> set ids) ms))", goal_cases)
  case (2 ms ids new)
  then obtain m where m: "m \<in> set ms" "m_id m \<notin> set ids" "m_id m \<in> set new"
    by (fastforce simp: children_def filter_empty_conv)
  have "length (filter (\<lambda>m. m_id m \<notin> set (ids @ new)) ms) = length (filter (\<lambda>m. m_id m \<notin> set new) (filter (\<lambda>m. m_id m \<notin> set ids) ms))"
    by (simp add: conj_commute)
  also have "\<dots> < length (filter (\<lambda>m. m_id m \<notin> set ids) ms)"
    using m by (intro length_filter_less [of m]) auto
  finally show ?case by simp
qed simp

declare subtree.simps [simp del]

definition lockSubtree :: "queue \<Rightarrow> id \<Rightarrow> message list" where
  "lockSubtree q messageId =
     (let root = map m_id (filter (\<lambda>m. m_id m = messageId) (messages q)) in
      filter (\<lambda>m. m_id m \<in> set (subtree (messages q) root)) (messages q))"

section \<open>The tools\<close>

definition terminal :: "queue_env \<Rightarrow> message \<Rightarrow> bool" where
  "terminal env m \<longleftrightarrow> m_status m \<in> set (QUEUE_TERMINAL_STATUSES (vocab env))"

definition managedBlock :: "queue_env \<Rightarrow> message list \<Rightarrow> queue_error option" where
  "managedBlock env rows =
     (case (if list_ex (\<lambda>m. dispatch_request_id m \<noteq> None) rows then find (\<lambda>m. \<not> terminal env m) rows else None) of
        None \<Rightarrow> None
      | Some m \<Rightarrow> Some (QUEUE_MANAGED_NOT_TERMINAL (m_id m) (m_status m)))"

text \<open>The answer: the size of the subtree and the number of rows written.\<close>

definition archiveQueueSubtree :: "queue_env \<Rightarrow> time \<Rightarrow> id \<Rightarrow> queue \<Rightarrow> queue \<times> (queue_error + nat \<times> nat)" where
  "archiveQueueSubtree env now messageId q = transaction q
     (let rows = lockSubtree q messageId in
      if rows = [] then Inl (QUEUE_NOT_FOUND messageId)
      else case managedBlock env rows of Some e \<Rightarrow> Inl e
      | None \<Rightarrow> (case find (\<lambda>m. \<not> terminal env m) rows of
          Some m \<Rightarrow> Inl (QUEUE_NOT_TERMINAL (m_id m) (m_status m))
        | None \<Rightarrow>
            (let ids = map m_id rows; hit = (\<lambda>m. m_id m \<in> set ids \<and> m_archived_at m = None) in
             Inr (q\<lparr>messages := update_where hit (\<lambda>m. m\<lparr>m_archived_at := Some now\<rparr>) (messages q)\<rparr>,
                  (length ids, count_where hit (messages q))))))"

definition unarchiveQueueSubtree :: "queue_env \<Rightarrow> id \<Rightarrow> queue \<Rightarrow> queue \<times> (queue_error + nat \<times> nat)" where
  "unarchiveQueueSubtree env messageId q = transaction q
     (let rows = lockSubtree q messageId in
      if rows = [] then Inl (QUEUE_NOT_FOUND messageId)
      else case managedBlock env rows of Some e \<Rightarrow> Inl e
      | None \<Rightarrow>
          (let ids = map m_id rows; hit = (\<lambda>m. m_id m \<in> set ids \<and> m_archived_at m \<noteq> None) in
           Inr (q\<lparr>messages := update_where hit (\<lambda>m. m\<lparr>m_archived_at := None\<rparr>) (messages q)\<rparr>,
                (length ids, count_where hit (messages q)))))"

definition queue_archive :: "queue_env \<Rightarrow> time \<Rightarrow> id \<Rightarrow> queue \<Rightarrow> queue \<times> (queue_error + nat \<times> nat)" where
  "queue_archive env now messageId q =
     (case writeAccess env now of Inl e \<Rightarrow> (q, Inl e) | Inr _ \<Rightarrow> archiveQueueSubtree env now messageId q)"

definition queue_unarchive :: "queue_env \<Rightarrow> time \<Rightarrow> id \<Rightarrow> queue \<Rightarrow> queue \<times> (queue_error + nat \<times> nat)" where
  "queue_unarchive env now messageId q =
     (case writeAccess env now of Inl e \<Rightarrow> (q, Inl e) | Inr _ \<Rightarrow> unarchiveQueueSubtree env messageId q)"

section \<open>The subtree is the closure of the reply relation\<close>

text \<open>\<open>k\<close> is a stored reply to \<open>p\<close>.\<close>

inductive replies_to :: "message list \<Rightarrow> id \<Rightarrow> id \<Rightarrow> bool" for ms where
  reply: "m \<in> set ms \<Longrightarrow> m_in_reply_to m = Some p \<Longrightarrow> replies_to ms p (m_id m)"

inductive_simps replies_to_iff: "replies_to ms p k"

lemma children_set:
  "set (children ms ids) = {k. k \<notin> set ids \<and> (\<exists>p \<in> set ids. replies_to ms p k)}"
proof -
  have "(case m_in_reply_to m of None \<Rightarrow> False | Some p \<Rightarrow> p \<in> set ids) \<longleftrightarrow> (\<exists>p \<in> set ids. m_in_reply_to m = Some p)" for m
    by (cases "m_in_reply_to m") auto
  then have "set (children ms ids) = {k. \<exists>m \<in> set ms. k = m_id m \<and> m_id m \<notin> set ids \<and> (\<exists>p \<in> set ids. m_in_reply_to m = Some p)}"
    by (auto simp: children_def)
  then show ?thesis by (auto simp: replies_to_iff)
qed

lemma children_closed:
  "children ms ids = [] \<longleftrightarrow> (\<forall>p \<in> set ids. \<forall>k. replies_to ms p k \<longrightarrow> k \<in> set ids)"
proof -
  have "children ms ids = [] \<longleftrightarrow> set (children ms ids) = {}" by simp
  then show ?thesis unfolding children_set by blast
qed

theorem subtree_closure:
  "set (subtree ms ids) = {k. \<exists>p \<in> set ids. (replies_to ms)\<^sup>*\<^sup>* p k}"
proof (induction ms ids rule: subtree.induct)
  case (1 ms ids)
  show ?case
  proof (cases "children ms ids = []")
    case True
    have "k \<in> set ids" if "(replies_to ms)\<^sup>*\<^sup>* p k" "p \<in> set ids" for p k
      using that by (induction rule: rtranclp_induct) (use True children_closed in blast)+
    then show ?thesis using True by (auto simp: subtree.simps [of ms ids])
  next
    case False
    have "(\<exists>p \<in> set (ids @ children ms ids). (replies_to ms)\<^sup>*\<^sup>* p k) \<longleftrightarrow> (\<exists>p \<in> set ids. (replies_to ms)\<^sup>*\<^sup>* p k)" for k
      by (auto simp: children_set intro: converse_rtranclp_into_rtranclp)
    then show ?thesis using 1 [OF refl False] False by (simp add: subtree.simps [of ms ids] Let_def)
  qed
qed

lemma lockSubtree_set:
  "set (lockSubtree q k) = {m \<in> set (messages q). k \<in> m_id ` set (messages q) \<and> (replies_to (messages q))\<^sup>*\<^sup>* k (m_id m)}"
  by (auto simp: lockSubtree_def Let_def subtree_closure)

lemma lockSubtree_empty: "lockSubtree q k = [] \<longleftrightarrow> k \<notin> m_id ` set (messages q)"
proof -
  have "lockSubtree q k = [] \<longleftrightarrow> set (lockSubtree q k) = {}" by simp
  also have "\<dots> \<longleftrightarrow> k \<notin> m_id ` set (messages q)" by (auto simp: lockSubtree_set)
  finally show ?thesis .
qed

text \<open>The rows of a thread, and the rows an archive or unarchive writes.\<close>

definition thread :: "queue \<Rightarrow> id \<Rightarrow> message set" where
  "thread q k = {m \<in> set (messages q). (replies_to (messages q))\<^sup>*\<^sup>* k (m_id m)}"

lemma thread_ids:
  assumes "k \<in> m_id ` set (messages q)" "m \<in> set (messages q)"
  shows "m_id m \<in> m_id ` set (lockSubtree q k) \<longleftrightarrow> m \<in> thread q k"
  using assms by (auto simp: lockSubtree_set thread_def)

lemma managedBlock_None:
  "managedBlock env rows = None \<longleftrightarrow> (\<exists>m \<in> set rows. dispatch_request_id m \<noteq> None) \<longrightarrow> (\<forall>m \<in> set rows. terminal env m)"
  by (auto simp: managedBlock_def list_ex_iff find_None_iff find_Some_iff split: option.splits dest: nth_mem)

lemma archiveE:
  assumes "archiveQueueSubtree env now k q = (q', r)"
  obtains (unknown) "k \<notin> m_id ` set (messages q)" "q' = q" "r = Inl (QUEUE_NOT_FOUND k)"
  | (blocked) m e where "m \<in> thread q k" "\<not> terminal env m" "q' = q" "r = Inl e"
  | (archived) "k \<in> m_id ` set (messages q)" "\<forall>m \<in> thread q k. terminal env m"
      "q' = q\<lparr>messages := update_where (\<lambda>m. m_id m \<in> m_id ` set (lockSubtree q k) \<and> m_archived_at m = None)
         (\<lambda>m. m\<lparr>m_archived_at := Some now\<rparr>) (messages q)\<rparr>"
      "r = Inr (length (lockSubtree q k), count_where (\<lambda>m. m_id m \<in> m_id ` set (lockSubtree q k) \<and> m_archived_at m = None) (messages q))"
proof (cases "k \<in> m_id ` set (messages q)")
  case False
  then have "lockSubtree q k = []" by (simp add: lockSubtree_empty)
  with assms False show thesis by (intro unknown) (auto simp: archiveQueueSubtree_def)
next
  case k: True
  then have ne: "lockSubtree q k \<noteq> []" by (simp add: lockSubtree_empty)
  have rows: "set (lockSubtree q k) = thread q k" using k by (auto simp: lockSubtree_set thread_def)
  show thesis
  proof (cases "\<forall>m \<in> thread q k. terminal env m")
    case True
    then have "managedBlock env (lockSubtree q k) = None" "find (\<lambda>m. \<not> terminal env m) (lockSubtree q k) = None"
      by (simp_all add: managedBlock_None rows find_None_iff)
    with assms k ne True show thesis by (intro archived) (auto simp: archiveQueueSubtree_def Let_def)
  next
    case False
    then obtain m where m: "m \<in> thread q k" "\<not> terminal env m" by blast
    then obtain b where "find (\<lambda>m. \<not> terminal env m) (lockSubtree q k) = Some b"
      by (metis find_None_iff not_None_eq rows)
    then have "q' = q \<and> (\<exists>e. r = Inl e)"
      using assms ne by (auto simp: archiveQueueSubtree_def Let_def split: option.splits)
    then show thesis using m blocked by blast
  qed
qed

lemma unarchiveE:
  assumes "unarchiveQueueSubtree env k q = (q', r)"
  obtains (refused) e where "q' = q" "r = Inl e"
  | (unarchived) "k \<in> m_id ` set (messages q)"
      "q' = q\<lparr>messages := update_where (\<lambda>m. m_id m \<in> m_id ` set (lockSubtree q k) \<and> m_archived_at m \<noteq> None)
         (\<lambda>m. m\<lparr>m_archived_at := None\<rparr>) (messages q)\<rparr>"
      "r = Inr (length (lockSubtree q k), count_where (\<lambda>m. m_id m \<in> m_id ` set (lockSubtree q k) \<and> m_archived_at m \<noteq> None) (messages q))"
proof (cases "lockSubtree q k = []")
  case True
  with assms show thesis by (intro refused) (auto simp: unarchiveQueueSubtree_def)
next
  case False
  show thesis
  proof (cases "managedBlock env (lockSubtree q k)")
    case None
    with assms False show thesis
      by (intro unarchived) (auto simp: unarchiveQueueSubtree_def Let_def lockSubtree_empty)
  next
    case (Some e)
    with assms False show thesis by (intro refused) (auto simp: unarchiveQueueSubtree_def)
  qed
qed

section \<open>What the tools guarantee\<close>

text \<open>A write that keeps ids and reply links keeps the subtree.\<close>

lemma children_update:
  assumes "\<And>m. m_id (f m) = m_id m" "\<And>m. m_in_reply_to (f m) = m_in_reply_to m"
  shows "children (update_where p f ms) ids = children ms ids"
  unfolding children_def by (induction ms) (simp_all add: assms)

lemma subtree_update:
  assumes "\<And>m. m_id (f m) = m_id m" "\<And>m. m_in_reply_to (f m) = m_in_reply_to m"
  shows "subtree (update_where p f ms) ids = subtree ms ids"
proof (induction ms ids rule: subtree.induct)
  case (1 ms ids)
  show ?case
    using 1 [OF refl] by (simp add: subtree.simps [of ms ids] subtree.simps [of "update_where p f ms" ids] children_update [OF assms] Let_def)
qed

lemma lockSubtree_update:
  assumes "\<And>m. m_id (f m) = m_id m" "\<And>m. m_in_reply_to (f m) = m_in_reply_to m"
  shows "lockSubtree (q\<lparr>messages := update_where p f (messages q)\<rparr>) k = update_where p f (lockSubtree q k)"
proof -
  have "map m_id (filter (\<lambda>m. m_id m = k) (update_where p f ms)) = map m_id (filter (\<lambda>m. m_id m = k) ms)" for ms
    by (induction ms) (simp_all add: assms)
  moreover have "filter (\<lambda>m. m_id m \<in> S) (update_where p f ms) = update_where p f (filter (\<lambda>m. m_id m \<in> S) ms)" for S ms
    by (rule filter_update_where) (simp add: assms)
  ultimately show ?thesis by (simp add: lockSubtree_def Let_def subtree_update [OF assms])
qed

lemma map_id_update: "(\<And>m. m_id (f m) = m_id m) \<Longrightarrow> m_id ` set (update_where p f ms) = m_id ` set ms"
  by (induction ms) auto

lemma archive_hit:
  assumes "k \<in> m_id ` set (messages q)"
  shows "update_where (\<lambda>m. m_id m \<in> m_id ` set (lockSubtree q k) \<and> p m) f (messages q) =
    map (\<lambda>m. if m \<in> thread q k \<and> p m then f m else m) (messages q)"
  unfolding update_where_def by (rule map_cong [OF refl]) (simp add: thread_ids [OF assms])

lemma count_where_id_0: "(\<And>m. m \<in> set ms \<Longrightarrow> \<not> p m) \<Longrightarrow> count_where p ms = 0"
  by (simp add: count_where_0)

lemma thread_rows:
  assumes "k \<in> m_id ` set (messages q)"
  shows "set (lockSubtree q k) = thread q k"
  using assms by (auto simp: lockSubtree_set thread_def)

lemma update_where_in: "m \<in> set (update_where p f ms) \<Longrightarrow> \<exists>n \<in> set ms. m = (if p n then f n else n)"
  using update_whereE [of m p f ms] by blast

text \<open>
  C20. \<open>queue_archive\<close> works on a message with all its transitive replies. It succeeds exactly when the message
  exists and every message of the thread is terminal; then it stamps those not archived yet and touches
  nothing else, doing it again changes nothing, and \<open>queue_unarchive\<close> undoes it. Otherwise it changes
  nothing.
\<close>

theorem archive_whole_thread:
  assumes "archiveQueueSubtree env now k q = (q', r)"
  shows "case r of
      Inl e \<Rightarrow> q' = q \<and> (k \<notin> m_id ` set (messages q) \<or> (\<exists>m \<in> thread q k. \<not> terminal env m))
    | Inr (rows, n) \<Rightarrow> k \<in> m_id ` set (messages q) \<and> (\<forall>m \<in> thread q k. terminal env m) \<and>
        messages q' = map (\<lambda>m. if m \<in> thread q k \<and> m_archived_at m = None then m\<lparr>m_archived_at := Some now\<rparr> else m) (messages q) \<and>
        sent q' = sent q \<and> leases q' = leases q \<and>
        (\<forall>now'. archiveQueueSubtree env now' k q' = (q', Inr (rows, 0))) \<and>
        ((\<forall>m \<in> thread q k. m_archived_at m = None) \<longrightarrow> fst (unarchiveQueueSubtree env k q') = q)"
  using assms
proof (rule archiveE)
  let ?hit = "\<lambda>m. m_id m \<in> m_id ` set (lockSubtree q k) \<and> m_archived_at m = None"
  let ?stamp = "\<lambda>m :: message. m\<lparr>m_archived_at := Some now\<rparr>"
  assume k: "k \<in> m_id ` set (messages q)" and tm: "\<forall>m \<in> thread q k. terminal env m"
    and q': "q' = q\<lparr>messages := update_where ?hit ?stamp (messages q)\<rparr>"
    and r: "r = Inr (length (lockSubtree q k), count_where ?hit (messages q))"
  have k': "k \<in> m_id ` set (messages q')" using k by (simp add: q' map_id_update)
  have rows: "lockSubtree q' k = update_where ?hit ?stamp (lockSubtree q k)" unfolding q' by (rule lockSubtree_update) simp_all
  then have ids: "m_id ` set (lockSubtree q' k) = m_id ` set (lockSubtree q k)" by (simp add: map_id_update)
  have tm': "\<forall>m \<in> thread q' k. terminal env m"
  proof
    fix m assume "m \<in> thread q' k"
    then have m: "m \<in> set (update_where ?hit ?stamp (lockSubtree q k))" using thread_rows [OF k'] by (simp add: rows)
    obtain n where "n \<in> set (lockSubtree q k)" "m = (if ?hit n then ?stamp n else n)"
      using update_where_in [OF m] by blast
    then have "n \<in> thread q k" "m = (if ?hit n then ?stamp n else n)" by (simp_all only: thread_rows [OF k])
    moreover have "terminal env (?stamp n) = terminal env n" by (simp add: terminal_def)
    ultimately show "terminal env m" using tm by (simp split: if_splits)
  qed
  have msgs: "messages q' = update_where ?hit ?stamp (messages q)" by (simp add: q')
  have none: "\<not> (m_id m \<in> m_id ` set (lockSubtree q' k) \<and> m_archived_at m = None)" if "m \<in> set (messages q')" for m
  proof -
    have "m \<in> set (update_where ?hit ?stamp (messages q))" using that msgs by simp
    from update_where_in [OF this] obtain n where n: "m = (if ?hit n then ?stamp n else n)" by blast
    show ?thesis unfolding ids
    proof (cases "?hit n")
      case True
      then have "m_archived_at m = Some now" by (simp add: n)
      then show "\<not> (m_id m \<in> m_id ` set (lockSubtree q k) \<and> m_archived_at m = None)" by simp
    next
      case False
      then have "m = n" by (simp only: n if_False)
      with False show "\<not> (m_id m \<in> m_id ` set (lockSubtree q k) \<and> m_archived_at m = None)" by blast
    qed
  qed
  have again: "archiveQueueSubtree env now' k q' = (q', Inr (length (lockSubtree q k), 0))" for now'
  proof -
    obtain q2 r2 where a: "archiveQueueSubtree env now' k q' = (q2, r2)" by fastforce
    then show ?thesis
    proof (rule archiveE)
      assume q2: "q2 = q'\<lparr>messages := update_where (\<lambda>m. m_id m \<in> m_id ` set (lockSubtree q' k) \<and> m_archived_at m = None)
           (\<lambda>m. m\<lparr>m_archived_at := Some now'\<rparr>) (messages q')\<rparr>"
        and r2: "r2 = Inr (length (lockSubtree q' k), count_where (\<lambda>m. m_id m \<in> m_id ` set (lockSubtree q' k) \<and> m_archived_at m = None) (messages q'))"
      have "q2 = q'" unfolding q2 by (subst update_where_none) (use none in auto)
      moreover have "count_where (\<lambda>m. m_id m \<in> m_id ` set (lockSubtree q' k) \<and> m_archived_at m = None) (messages q') = 0"
        using none by (rule count_where_id_0)
      ultimately show ?thesis using a r2 by (simp add: rows)
    qed (use k' tm' in auto)
  qed
  have undo: "fst (unarchiveQueueSubtree env k q') = q" if fresh: "\<forall>m \<in> thread q k. m_archived_at m = None"
  proof -
    have "managedBlock env (lockSubtree q' k) = None" using tm' thread_rows [OF k'] by (simp add: managedBlock_None)
    moreover have "lockSubtree q' k \<noteq> []" using k' by (simp add: lockSubtree_empty)
    ultimately have u: "fst (unarchiveQueueSubtree env k q') = q'\<lparr>messages :=
        update_where (\<lambda>m. m_id m \<in> m_id ` set (lockSubtree q k) \<and> m_archived_at m \<noteq> None) (\<lambda>m. m\<lparr>m_archived_at := None\<rparr>) (messages q')\<rparr>"
      by (simp add: unarchiveQueueSubtree_def Let_def ids)
    have restore: "(if m_id n \<in> m_id ` set (lockSubtree q k) \<and> m_archived_at n \<noteq> None then n\<lparr>m_archived_at := None\<rparr> else n) = m"
      if "m \<in> set (messages q)" "n = (if ?hit m then ?stamp m else m)" for m n
    proof (cases "m_id m \<in> m_id ` set (lockSubtree q k)")
      case True
      then have "m_archived_at m = None" using fresh thread_ids [OF k that(1)] by blast
      then show ?thesis using True that(2) by simp
    qed (use that(2) in simp)
    have "update_where (\<lambda>m. m_id m \<in> m_id ` set (lockSubtree q k) \<and> m_archived_at m \<noteq> None) (\<lambda>m. m\<lparr>m_archived_at := None\<rparr>)
        (update_where ?hit ?stamp (messages q)) = messages q"
      unfolding update_where_def map_map comp_def by (rule map_idI) (rule restore, simp_all)
    then show ?thesis unfolding u by (simp add: q')
  qed
  show ?thesis
    using k tm again undo archive_hit [OF k, of "\<lambda>m. m_archived_at m = None" ?stamp] by (simp add: r) (simp add: q')
qed auto

end
