(* ===== verification/Queue_Presence.thy ===== *)
theory Queue_Presence
  imports Queue_Claims
begin

text \<open>
  Who is at an address of the queue (\<open>queue/presence.ts\<close>, \<open>tools/queue-presence.ts\<close>): the status derived from
  the heartbeat and the session of the address, with the claims it has open.
\<close>

datatype presence_status = Weg | Bezig | Beschikbaar | Onbemand

record presence_row =
  ps_server :: string
  ps_model :: string
  watcher_heartbeat_at :: "time option"
  watcher_started_at :: "time option"
  watcher_pid :: "int option"
  watcher_types :: "string list"
  session_announced_at :: "time option"
  session_last_drain_at :: "time option"
  session_signed_off_at :: "time option"
  session_expected_by :: "time option"

text \<open>Times are in milliseconds; the code divides the age of the heartbeat by 1000 before the comparison.\<close>

definition derivePresenceStatus ::
  "queue_env \<Rightarrow> time option \<Rightarrow> time option \<Rightarrow> time option \<Rightarrow> time option \<Rightarrow> nat \<Rightarrow> time \<Rightarrow> presence_status" where
  "derivePresenceStatus env watcherHeartbeatAt sessionExpectedBy sessionAnnouncedAt sessionSignedOffAt openClaims now =
     (let heartbeatFresh = (case watcherHeartbeatAt of None \<Rightarrow> False
             | Some h \<Rightarrow> now - h \<le> PRESENCE_FRESH_SECONDS (vocab env) * 1000);
          expectedFresh = (case sessionExpectedBy of None \<Rightarrow> False | Some e \<Rightarrow> now < e)
      in if \<not> heartbeatFresh \<and> \<not> expectedFresh then Weg
         else if 0 < openClaims then Bezig
         else (let aangemeld = (case sessionAnnouncedAt of None \<Rightarrow> False
                 | Some a \<Rightarrow> (case sessionSignedOffAt of None \<Rightarrow> True | Some s \<Rightarrow> s < a))
               in if aangemeld then Beschikbaar else Onbemand))"

record presence_watcher =
  pw_heartbeat_at :: time
  pw_age_s :: int
  pw_started_at :: "time option"
  pw_pid :: "int option"
  pw_types :: "string list"

record presence_view =
  pv_address :: string
  pv_status :: presence_status
  pv_watcher :: "presence_watcher option"
  pv_announced_at :: "time option"
  pv_last_drain_at :: "time option"
  pv_signed_off_at :: "time option"
  pv_expected_by :: "time option"
  pv_open :: nat
  pv_oldest_claimed_at :: "time option"
  pv_message_ids :: "id list"

text \<open>
  The claim detail of an address: the number of its claimed messages, the oldest start (\<open>min\<close> skips
  NULL) and the first five, oldest first; NULL comes last in an ascending order.
\<close>

definition open_claims :: "string \<Rightarrow> string \<Rightarrow> queue \<Rightarrow> message list" where
  "open_claims server model q = filter (\<lambda>m. m_to_server m = server \<and> m_to_model m = model \<and> m_status m = MClaimed) (messages q)"

definition claim_start :: "message \<Rightarrow> time option" where
  "claim_start m = coalesce (m_started_at m) (m_claimed_at m)"

definition oldest_claim :: "string \<Rightarrow> string \<Rightarrow> queue \<Rightarrow> time option" where
  "oldest_claim server model q =
     (case List.map_filter claim_start (open_claims server model q) of [] \<Rightarrow> None | t # ts \<Rightarrow> Some (fold min ts t))"

definition claim_ids :: "string \<Rightarrow> string \<Rightarrow> queue \<Rightarrow> id list" where
  "claim_ids server model q = map m_id (take 5
     (sort_key (\<lambda>m. case claim_start m of None \<Rightarrow> (1 :: int, 0) | Some t \<Rightarrow> (0, t)) (open_claims server model q)))"

text \<open>\<open>toView\<close> with the claim detail of its address; \<open>Math.round\<close> rounds half up.\<close>

definition toView :: "queue_env \<Rightarrow> time \<Rightarrow> queue \<Rightarrow> presence_row \<Rightarrow> presence_view" where
  "toView env now q r =
     (let claims = open_claims (ps_server r) (ps_model r) q in
      \<lparr>pv_address = ps_server r @ '':'' @ ps_model r,
       pv_status = derivePresenceStatus env (watcher_heartbeat_at r) (session_expected_by r) (session_announced_at r)
          (session_signed_off_at r) (length claims) now,
       pv_watcher = map_option (\<lambda>h. \<lparr>pw_heartbeat_at = h, pw_age_s = (now - h + 500) div 1000,
          pw_started_at = watcher_started_at r, pw_pid = watcher_pid r, pw_types = watcher_types r\<rparr>) (watcher_heartbeat_at r),
       pv_announced_at = session_announced_at r, pv_last_drain_at = session_last_drain_at r,
       pv_signed_off_at = session_signed_off_at r, pv_expected_by = session_expected_by r,
       pv_open = length claims,
       pv_oldest_claimed_at = oldest_claim (ps_server r) (ps_model r) q,
       pv_message_ids = claim_ids (ps_server r) (ps_model r) q\<rparr>)"

text \<open>An address never seen, and the views of the addresses a filter selects.\<close>

definition unseen :: "string \<Rightarrow> string \<Rightarrow> presence_row" where
  "unseen server model = \<lparr>ps_server = server, ps_model = model, watcher_heartbeat_at = None, watcher_started_at = None,
     watcher_pid = None, watcher_types = [], session_announced_at = None, session_last_drain_at = None,
     session_signed_off_at = None, session_expected_by = None\<rparr>"

definition readPresenceViews ::
  "queue_env \<Rightarrow> time \<Rightarrow> presence_row list \<Rightarrow> queue \<Rightarrow> string option \<Rightarrow> string option \<Rightarrow> presence_view list" where
  "readPresenceViews env now table q server model =
     (let rows = sort_key (\<lambda>r. (ps_server r, ps_model r))
         (filter (\<lambda>r. (server = None \<or> server = Some (ps_server r)) \<and> (model = None \<or> model = Some (ps_model r))) table)
      in case (rows, server, model) of
           ([], Some s, Some m) \<Rightarrow> [toView env now q (unseen s m)]
         | _ \<Rightarrow> map (toView env now q) rows)"

text \<open>Best effort: a failed read leaves the field out.\<close>

definition readPresenceBlockBestEffort ::
  "bool \<Rightarrow> queue_env \<Rightarrow> time \<Rightarrow> presence_row list \<Rightarrow> queue \<Rightarrow> string \<Rightarrow> string \<Rightarrow> presence_view option" where
  "readPresenceBlockBestEffort readable env now table q server model =
     (if \<not> readable then None
      else case readPresenceViews env now table q (Some server) (Some model) of [] \<Rightarrow> None | v # _ \<Rightarrow> Some v)"

text \<open>
  An address with no fresh heartbeat and no promised return is away, whatever else is known of it; a
  present one is busy exactly while it has claimed messages, and otherwise available exactly if its last
  announcement is newer than its last sign-off. A full address always has exactly one view.
\<close>

theorem presence_decision:
  "derivePresenceStatus env hb ex an so n now =
     (if (\<forall>h. hb = Some h \<longrightarrow> h + PRESENCE_FRESH_SECONDS (vocab env) * 1000 < now) \<and> (\<forall>e. ex = Some e \<longrightarrow> e \<le> now) then Weg
      else if n \<noteq> 0 then Bezig
      else if \<exists>a. an = Some a \<and> (\<forall>s. so = Some s \<longrightarrow> s < a) then Beschikbaar else Onbemand) \<and>
   (distinct (map (\<lambda>r. (ps_server r, ps_model r)) table) \<longrightarrow>
      (\<exists>v. readPresenceViews env now table q (Some s) (Some m) = [v] \<and> pv_address v = s @ '':'' @ m \<and>
         (pv_status v = Bezig \<longrightarrow> (\<exists>x \<in> set (messages q). m_to_server x = s \<and> m_to_model x = m \<and> m_status x = MClaimed))))"
proof
  show "derivePresenceStatus env hb ex an so n now =
     (if (\<forall>h. hb = Some h \<longrightarrow> h + PRESENCE_FRESH_SECONDS (vocab env) * 1000 < now) \<and> (\<forall>e. ex = Some e \<longrightarrow> e \<le> now) then Weg
      else if n \<noteq> 0 then Bezig
      else if \<exists>a. an = Some a \<and> (\<forall>s. so = Some s \<longrightarrow> s < a) then Beschikbaar else Onbemand)"
    by (auto simp: derivePresenceStatus_def Let_def split: option.splits)
  have busy: "\<exists>x \<in> set (messages q). m_to_server x = ps_server r \<and> m_to_model x = ps_model r \<and> m_status x = MClaimed"
    if "pv_status (toView env now q r) = Bezig" for r
    using that by (auto simp: toView_def Let_def derivePresenceStatus_def open_claims_def filter_empty_conv split: if_splits option.splits)
  show "distinct (map (\<lambda>r. (ps_server r, ps_model r)) table) \<longrightarrow>
      (\<exists>v. readPresenceViews env now table q (Some s) (Some m) = [v] \<and> pv_address v = s @ '':'' @ m \<and>
         (pv_status v = Bezig \<longrightarrow> (\<exists>x \<in> set (messages q). m_to_server x = s \<and> m_to_model x = m \<and> m_status x = MClaimed)))"
  proof
    assume d: "distinct (map (\<lambda>r. (ps_server r, ps_model r)) table)"
    define rs where "rs = filter (\<lambda>r. s = ps_server r \<and> m = ps_model r) table"
    have key: "(ps_server r, ps_model r) = (s, m)" if "r \<in> set rs" for r using that by (simp add: rs_def)
    have dist: "distinct (map (\<lambda>r. (ps_server r, ps_model r)) rs)"
      using d by (simp add: rs_def distinct_map_filter)
    have "rs = [] \<or> (\<exists>r. rs = [r])"
    proof (rule ccontr)
      assume "\<not> (rs = [] \<or> (\<exists>r. rs = [r]))"
      then obtain a b ts where "rs = a # b # ts" by (metis neq_Nil_conv)
      with dist key [of a] key [of b] show False by simp
    qed
    then show "\<exists>v. readPresenceViews env now table q (Some s) (Some m) = [v] \<and> pv_address v = s @ '':'' @ m \<and>
         (pv_status v = Bezig \<longrightarrow> (\<exists>x \<in> set (messages q). m_to_server x = s \<and> m_to_model x = m \<and> m_status x = MClaimed))"
    proof
      assume "rs = []"
      then have "readPresenceViews env now table q (Some s) (Some m) = [toView env now q (unseen s m)]"
        by (simp add: readPresenceViews_def Let_def flip: rs_def)
      moreover have "pv_address (toView env now q (unseen s m)) = s @ '':'' @ m" by (simp add: toView_def Let_def unseen_def)
      ultimately show ?thesis using busy [of "unseen s m"] by (simp add: unseen_def)
    next
      assume "\<exists>r. rs = [r]"
      then obtain r where r: "rs = [r]" ..
      then have "readPresenceViews env now table q (Some s) (Some m) = [toView env now q r]"
        by (simp add: readPresenceViews_def Let_def flip: rs_def)
      moreover have "pv_address (toView env now q r) = s @ '':'' @ m" using key [of r] r by (simp add: toView_def Let_def)
      ultimately show ?thesis using busy [of r] key [of r] r by simp
    qed
  qed
qed

end
