(* ===== verification/Queue_Push.thy ===== *)
theory Queue_Push
  imports Queue_Presence Job_Types
begin

text \<open>
  Sending on the queue: the contract of \<open>meta.task\<close> (\<open>queue/types.ts\<close>), the derivation and validation of
  \<open>meta.work_item\<close> (\<open>queue/work-item.ts\<close>) and the tool \<open>queue_push\<close> (\<open>tools/queue-push.ts\<close>). Outside
  the model stand the git call that names the repository of a directory (\<open>queue/git-origin.ts\<close>) and the schema
  of review documents (a submodule); both are parameters.
\<close>

section \<open>The task contract\<close>

definition requiresTaskMeta :: "string \<Rightarrow> bool" where
  "requiresTaskMeta t \<longleftrightarrow> t = ''task'' \<or> t = ''review_request''"

definition REQUIRED_TASK_META :: "string list" where
  "REQUIRED_TASK_META = [''cwd'', ''repo'', ''objective'', ''verification'', ''response_format'']"

text \<open>The members whose value is a string, under their own names, in the order of the keys.\<close>

definition string_members :: "string list \<Rightarrow> (string \<times> json) list \<Rightarrow> (string \<times> json) list" where
  "string_members keys t = List.map_filter (\<lambda>k. map_option (\<lambda>s. (k, JStr s)) (string_member t k)) keys"

definition string_array :: "json \<Rightarrow> bool" where
  "string_array v = (case v of JArr xs \<Rightarrow> list_all (\<lambda>x. as_string x \<noteq> None) xs | _ \<Rightarrow> False)"

definition validateTaskMeta :: "(string \<times> json) list \<Rightarrow> queue_error + (string \<times> json) list" where
  "validateTaskMeta t =
     (case find (\<lambda>k. case string_member t k of None \<Rightarrow> True | Some s \<Rightarrow> trim s = []) REQUIRED_TASK_META of
        Some k \<Rightarrow> Inl (VALIDATION_ERROR (''meta.task.'' @ k @ '' is missing or empty (required)''))
      | None \<Rightarrow> Inr (string_members (REQUIRED_TASK_META @ [''branch'', ''worktree'', ''expected_result'']) t @
          (case get_member t ''allowed_actions'' of
             Some v \<Rightarrow> if string_array v then [(''allowed_actions'', v)] else []
           | None \<Rightarrow> [])))"

section \<open>Work items\<close>

record WorkItemInput =
  wi_sprint_id :: "string option"
  wi_story_id :: "string option"
  wi_task_id :: "string option"

record WorkItemBlock =
  wb_product_id :: id
  wb_sprint_id :: "id option"
  wb_story_id :: "id option"
  wb_task_id :: "id option"

definition nonblank_member :: "(string \<times> json) list \<Rightarrow> string \<Rightarrow> string option" where
  "nonblank_member kvs k = (case string_member kvs k of None \<Rightarrow> None | Some s \<Rightarrow> if trim s = [] then None else Some s)"

definition extractWorkItemIds :: "json option \<Rightarrow> WorkItemInput" where
  "extractWorkItemIds block =
     (case Option.bind block as_object of
        None \<Rightarrow> \<lparr>wi_sprint_id = None, wi_story_id = None, wi_task_id = None\<rparr>
      | Some kvs \<Rightarrow> \<lparr>wi_sprint_id = nonblank_member kvs ''sprint_id'', wi_story_id = nonblank_member kvs ''story_id'',
          wi_task_id = nonblank_member kvs ''task_id''\<rparr>)"

definition merge_id :: "string \<Rightarrow> string option \<Rightarrow> string option \<Rightarrow> queue_error + string option" where
  "merge_id key fromParams out =
     (case fromParams of None \<Rightarrow> Inr out
      | Some p \<Rightarrow> if out \<noteq> None \<and> out \<noteq> Some p then Inl (VALIDATION_ERROR (key @ '' conflicteert'')) else Inr (Some p))"

definition mergeWorkItemInputs :: "WorkItemInput \<Rightarrow> WorkItemInput \<Rightarrow> queue_error + WorkItemInput" where
  "mergeWorkItemInputs params block =
     and_then (merge_id ''sprint_id'' (wi_sprint_id params) (wi_sprint_id block)) (\<lambda>sp.
     and_then (merge_id ''story_id'' (wi_story_id params) (wi_story_id block)) (\<lambda>st.
     and_then (merge_id ''task_id'' (wi_task_id params) (wi_task_id block)) (\<lambda>tk.
       Inr \<lparr>wi_sprint_id = sp, wi_story_id = st, wi_task_id = tk\<rparr>)))"

text \<open>
  What the task or story gives: its product, sprint (if it is in one) and story. \<open>None\<close>: neither id is
  given. A task without its story cannot exist (foreign key).
\<close>

definition derive_from_story :: "db \<Rightarrow> WorkItemInput \<Rightarrow> queue_error + (id \<times> id option \<times> id) option" where
  "derive_from_story d inp =
     (if truthy (wi_task_id inp) then
        (case Option.bind (find_task (or_else (wi_task_id inp) []) d) (\<lambda>t. find_story (t_story_id t) d) of
           None \<Rightarrow> Inl (VALIDATION_ERROR ''task_id not found'')
         | Some st \<Rightarrow>
             if truthy (wi_story_id inp) \<and> wi_story_id inp \<noteq> Some (st_id st) then Inl (VALIDATION_ERROR ''task_id hoort bij andere story'')
             else Inr (Some (st_product_id st, st_sprint_id st, st_id st)))
      else if truthy (wi_story_id inp) then
        (case find_story (or_else (wi_story_id inp) []) d of
           None \<Rightarrow> Inl (VALIDATION_ERROR ''story_id not found'')
         | Some st \<Rightarrow> Inr (Some (st_product_id st, st_sprint_id st, st_id st)))
      else Inr None)"

definition given_task :: "WorkItemInput \<Rightarrow> id option" where
  "given_task inp = (if truthy (wi_task_id inp) then wi_task_id inp else None)"

definition resolveWorkItem :: "db \<Rightarrow> WorkItemInput \<Rightarrow> queue_error + WorkItemBlock option" where
  "resolveWorkItem d inp =
     (if \<not> truthy (wi_sprint_id inp) \<and> \<not> truthy (wi_story_id inp) \<and> \<not> truthy (wi_task_id inp) then Inr None
      else and_then (derive_from_story d inp) (\<lambda>derived.
        case derived of
          Some (productId, derivedSprint, derivedStory) \<Rightarrow>
            if truthy (wi_sprint_id inp) \<and> derivedSprint = None then Inl (VALIDATION_ERROR ''de story zit niet in een sprint'')
            else if truthy (wi_sprint_id inp) \<and> wi_sprint_id inp \<noteq> derivedSprint
              then Inl (VALIDATION_ERROR ''afgeleide sprint komt niet overeen'')
            else Inr (Some \<lparr>wb_product_id = productId, wb_sprint_id = derivedSprint,
              wb_story_id = (if derivedStory = [] then None else Some derivedStory), wb_task_id = given_task inp\<rparr>)
        | None \<Rightarrow>
            (case find_sprint (or_else (wi_sprint_id inp) []) d of
               None \<Rightarrow> Inl (VALIDATION_ERROR ''sprint_id not found'')
             | Some sp \<Rightarrow> Inr (Some \<lparr>wb_product_id = sp_product_id sp, wb_sprint_id = wi_sprint_id inp,
                 wb_story_id = None, wb_task_id = None\<rparr>))))"

definition opt_member :: "string \<Rightarrow> id option \<Rightarrow> (string \<times> json) list" where
  "opt_member k v = (case v of None \<Rightarrow> [] | Some s \<Rightarrow> [(k, JStr s)])"

definition block_json :: "WorkItemBlock \<Rightarrow> json" where
  "block_json b = JObj ((''product_id'', JStr (wb_product_id b)) # opt_member ''sprint_id'' (wb_sprint_id b) @
     opt_member ''story_id'' (wb_story_id b) @ opt_member ''task_id'' (wb_task_id b))"

section \<open>The tool\<close>

record push_input =
  pi_to :: string
  pi_type :: string
  pi_body :: string
  pi_meta :: "(string \<times> json) list option"
  pi_cwd :: "string option"
  pi_as :: "string option"
  pi_ids :: WorkItemInput

record push_env =
  pe_queue :: queue_env
  pe_git_origin :: "string \<Rightarrow> string option"
  pe_review_schema :: "json \<Rightarrow> string + json"
  pe_presence :: "presence_row list"
  pe_notify_works :: bool
  pe_presence_readable :: bool

record push_reply =
  pu_message_id :: id
  pu_to :: string
  pu_type :: string
  pu_presence :: "presence_view option"

definition objectHasOwn :: "json option \<Rightarrow> string \<Rightarrow> bool" where
  "objectHasOwn v k = (case Option.bind v as_object of None \<Rightarrow> False | Some kvs \<Rightarrow> get_member kvs k \<noteq> None)"

definition validateReviewDocumentsMeta :: "push_env \<Rightarrow> (string \<times> json) list \<Rightarrow> queue_error + (string \<times> json) list" where
  "validateReviewDocumentsMeta env meta =
     (if objectHasOwn (get_member meta ''task'') ''review_documents'' then
        Inl (VALIDATION_ERROR ''meta.review_documents must be a sibling of meta.task'')
      else case get_member meta ''review_documents'' of
        None \<Rightarrow> Inr meta
      | Some v \<Rightarrow> (case pe_review_schema env v of
          Inl e \<Rightarrow> Inl (VALIDATION_ERROR (''meta.review_documents: '' @ e))
        | Inr parsed \<Rightarrow> Inr (set_member ''review_documents'' parsed meta)))"

text \<open>
  The \<open>meta.task\<close> of a task or review request. Spreading a value that is no object adds at most index
  keys, which the contract never reads.
\<close>

definition task_object :: "json option \<Rightarrow> (string \<times> json) list" where
  "task_object v = (case Option.bind v as_object of None \<Rightarrow> [] | Some kvs \<Rightarrow> kvs)"

definition with_cwd :: "string option \<Rightarrow> (string \<times> json) list \<Rightarrow> (string \<times> json) list" where
  "with_cwd cwd task = (if truthy cwd \<and> string_member task ''cwd'' = None then set_member ''cwd'' (JStr (or_else cwd [])) task else task)"

definition with_repo :: "push_env \<Rightarrow> (string \<times> json) list \<Rightarrow> (string \<times> json) list" where
  "with_repo env task =
     (case (string_member task ''repo'', string_member task ''cwd'') of
        (None, Some dir) \<Rightarrow> (case pe_git_origin env dir of
            Some url \<Rightarrow> if url = [] then task else set_member ''repo'' (JStr url) task
          | None \<Rightarrow> task)
      | _ \<Rightarrow> task)"

definition task_meta :: "push_env \<Rightarrow> string \<Rightarrow> string option \<Rightarrow> (string \<times> json) list \<Rightarrow> queue_error + (string \<times> json) list" where
  "task_meta env type cwd meta =
     (if \<not> requiresTaskMeta type then Inr meta
      else (let task = with_repo env (with_cwd cwd (task_object (get_member meta ''task''))) in
        if string_member task ''repo'' = None then Inl (VALIDATION_ERROR ''meta.task.repo is missing and could not be derived'')
        else and_then (validateTaskMeta task) (\<lambda>v. Inr (set_member ''task'' (JObj v) meta))))"

definition work_item_meta :: "db \<Rightarrow> WorkItemInput \<Rightarrow> (string \<times> json) list \<Rightarrow> queue_error + (string \<times> json) list" where
  "work_item_meta d ids meta =
     and_then (mergeWorkItemInputs ids (extractWorkItemIds (get_member meta ''work_item''))) (\<lambda>inp.
     and_then (resolveWorkItem d inp) (\<lambda>w. Inr (case w of
         None \<Rightarrow> del_member ''work_item'' meta
       | Some b \<Rightarrow> set_member ''work_item'' (block_json b) meta)))"

text \<open>Where the message goes: never to the server of managed dispatch.\<close>

definition push_target :: "push_env \<Rightarrow> string \<Rightarrow> queue_error + destination \<times> string \<times> string" where
  "push_target env to =
     and_then (parseQueueTarget (pe_queue env) to) (\<lambda>target. case target of
         AddressOf server model \<Rightarrow>
           if server = QUEUE_DISPATCH_SERVER (vocab (pe_queue env)) then Inl (VALIDATION_ERROR ''reserved for managed dispatch projection'')
           else Inr (target, server, model)
       | JobOf jobId \<Rightarrow>
           if QUEUE_JOB_SERVER (vocab (pe_queue env)) = QUEUE_DISPATCH_SERVER (vocab (pe_queue env))
           then Inl (VALIDATION_ERROR ''reserved for managed dispatch projection'')
           else Inr (target, QUEUE_JOB_SERVER (vocab (pe_queue env)), jobId))"

text \<open>Everything the message is made of, before the row is created.\<close>

definition push_content :: "push_env \<Rightarrow> db \<Rightarrow> time \<Rightarrow> push_input \<Rightarrow>
    queue_error + (string \<times> string) \<times> (destination \<times> string \<times> string) \<times> (string \<times> json) list" where
  "push_content env d now inp =
     and_then (writeAccess (pe_queue env) now) (\<lambda>_.
     and_then (resolveQueueIdentity (pe_queue env) (pi_as inp)) (\<lambda>from.
     and_then (push_target env (pi_to inp)) (\<lambda>dest.
     and_then (validateReviewDocumentsMeta env (or_else (pi_meta inp) [])) (\<lambda>meta1.
     and_then (task_meta env (pi_type inp) (pi_cwd inp) meta1) (\<lambda>meta2.
     and_then (work_item_meta d (pi_ids inp) meta2) (\<lambda>meta3. Inr (from, dest, meta3)))))))"

definition new_message :: "id \<Rightarrow> time \<Rightarrow> string \<times> string \<Rightarrow> string \<times> string \<Rightarrow> push_input \<Rightarrow> (string \<times> json) list \<Rightarrow> message" where
  "new_message newId now from dest inp meta =
     \<lparr>m_id = newId, m_type = pi_type inp, m_from_server = fst from, m_from_model = snd from,
      m_to_server = fst dest, m_to_model = snd dest, m_body = pi_body inp, m_meta = JObj meta, m_source = ''mcp'',
      m_status = MPending, m_in_reply_to = None, m_error = None, m_claimed_by = None, m_claimed_at = None,
      m_started_at = None, m_finished_at = None, m_created_at = now, m_archived_at = None,
      ppe_protocol = None, ppe_run_id = None, ppe_operation_key = None, ppe_payload_sha256 = None,
      ppe_from_principal = None, ppe_to_principal = None, ppe_to_consumer_id = None,
      ppe_consumer_generation = None, ppe_lease_generation = None,
      dispatch_request_id = None, dispatch_projection_version = None, dispatch_role = None\<rparr>"

text \<open>The notification after the commit, best effort.\<close>

definition emitQueueNotifyBestEffort :: "bool \<Rightarrow> envelope \<Rightarrow> queue \<Rightarrow> queue" where
  "emitQueueNotifyBestEffort works e q = (if works then q\<lparr>sent := sent q @ [e]\<rparr> else q)"

definition queue_push ::
  "push_env \<Rightarrow> db \<Rightarrow> id \<Rightarrow> time \<Rightarrow> push_input \<Rightarrow> queue \<Rightarrow> queue \<times> (queue_error + push_reply)" where
  "queue_push env d newId now inp q =
     (case push_content env d now inp of
        Inl e \<Rightarrow> (q, Inl e)
      | Inr (from, (target, dest), meta) \<Rightarrow>
          (let row = new_message newId now from dest inp meta;
               q1 = q\<lparr>messages := messages q @ [row]\<rparr>
           in case envelopeOf row None of
                Inl e \<Rightarrow> (q1, Inl e)
              | Inr e \<Rightarrow>
                  (let q2 = emitQueueNotifyBestEffort (pe_notify_works env) e q1;
                       presence = (case target of JobOf _ \<Rightarrow> None
                         | AddressOf _ _ \<Rightarrow> readPresenceBlockBestEffort (pe_presence_readable env) (pe_queue env) now
                             (pe_presence env) q2 (fst dest) (snd dest))
                   in (q2, Inr \<lparr>pu_message_id = newId, pu_to = formatQueueAddress (vocab (pe_queue env)) target,
                        pu_type = pi_type inp, pu_presence = presence\<rparr>))))"

end
