(* ===== verification/Queue_Push_Laws.thy ===== *)
theory Queue_Push_Laws
  imports Queue_Push
begin

text \<open>
  What \<open>queue_push\<close> guarantees: one pending row that meets the contract of its type, and a work item that
  is consistent with the planning tables and canonical.
\<close>

section \<open>Work items\<close>

text \<open>No id of the planning tables is blank (they are generated cuids).\<close>

definition nonblank_ids :: "db \<Rightarrow> bool" where
  "nonblank_ids d \<longleftrightarrow>
     (\<forall>t \<in> set (tasks d). trim (t_id t) \<noteq> []) \<and>
     (\<forall>s \<in> set (stories d). trim (st_id s) \<noteq> [] \<and> (\<forall>k. st_sprint_id s = Some k \<longrightarrow> trim k \<noteq> [])) \<and>
     (\<forall>s \<in> set (sprints d). trim (sp_id s) \<noteq> [])"

text \<open>The block names a chain of the hierarchy: task in story, story in sprint and product.\<close>

definition consistent_block :: "db \<Rightarrow> WorkItemBlock \<Rightarrow> bool" where
  "consistent_block d b \<longleftrightarrow> (case wb_story_id b of
       Some s \<Rightarrow> (\<exists>st. find_story s d = Some st \<and> wb_sprint_id b = st_sprint_id st \<and> wb_product_id b = st_product_id st) \<and>
         (case wb_task_id b of None \<Rightarrow> True | Some t \<Rightarrow> \<exists>tk. find_task t d = Some tk \<and> t_story_id tk = s)
     | None \<Rightarrow> wb_task_id b = None \<and>
         (\<exists>s sp. wb_sprint_id b = Some s \<and> find_sprint s d = Some sp \<and> wb_product_id b = sp_product_id sp))"

definition block_ids :: "WorkItemBlock \<Rightarrow> WorkItemInput" where
  "block_ids b = \<lparr>wi_sprint_id = wb_sprint_id b, wi_story_id = wb_story_id b, wi_task_id = wb_task_id b\<rparr>"

lemma trim_Nil [simp]: "trim [] = []"
  by (simp add: trim_def trim_start_def)

lemma found_story: "find_story k d = Some st \<Longrightarrow> st \<in> set (stories d) \<and> st_id st = k"
  unfolding find_story_def by (rule find_by_Some)

lemma found_task: "find_task k d = Some t \<Longrightarrow> t \<in> set (tasks d) \<and> t_id t = k"
  unfolding find_task_def by (rule find_by_Some)

lemma found_sprint: "find_sprint k d = Some s \<Longrightarrow> s \<in> set (sprints d) \<and> sp_id s = k"
  unfolding find_sprint_def by (rule find_by_Some)

lemma derive_story:
  assumes "nonblank_ids d" "derive_from_story d inp = Inr (Some (p, sp, st))"
  shows "\<exists>s. find_story st d = Some s \<and> p = st_product_id s \<and> sp = st_sprint_id s \<and> st \<noteq> [] \<and>
    (truthy (wi_task_id inp) \<longrightarrow> (\<exists>t tk. wi_task_id inp = Some t \<and> find_task t d = Some tk \<and> t_story_id tk = st)) \<and>
    (truthy (wi_story_id inp) \<longrightarrow> wi_story_id inp = Some st)"
proof -
  have ne: "s \<noteq> []" if "find_story s d = Some x" for s x
    using assms(1) found_story [OF that] by (auto simp: nonblank_ids_def)
  show ?thesis
  proof (cases "truthy (wi_task_id inp)")
    case True
    then obtain t where t: "wi_task_id inp = Some t" "t \<noteq> []" by (elim truthyE)
    then obtain tk s where "find_task t d = Some tk" "find_story (t_story_id tk) d = Some s"
      "p = st_product_id s" "sp = st_sprint_id s" "st = st_id s" "\<not> (truthy (wi_story_id inp) \<and> wi_story_id inp \<noteq> Some (st_id s))"
      using assms(2) by (auto simp: derive_from_story_def split: option.splits if_splits bind_splits)
    with t ne [of "t_story_id tk" s] found_story [of "t_story_id tk" d s] show ?thesis by auto
  next
    case False
    then obtain k s where "wi_story_id inp = Some k" "k \<noteq> []" "find_story k d = Some s"
      "p = st_product_id s" "sp = st_sprint_id s" "st = st_id s"
      using assms(2) by (auto simp: derive_from_story_def elim!: truthyE split: option.splits if_splits)
    with False found_story [of k d s] show ?thesis by auto
  qed
qed

lemma resolve_consistent:
  assumes "nonblank_ids d" "resolveWorkItem d inp = Inr (Some b)"
  shows "consistent_block d b \<and>
    (truthy (wi_sprint_id inp) \<longrightarrow> wb_sprint_id b = wi_sprint_id inp) \<and>
    (truthy (wi_story_id inp) \<longrightarrow> wb_story_id b = wi_story_id inp) \<and>
    (truthy (wi_task_id inp) \<longrightarrow> wb_task_id b = wi_task_id inp)"
proof (cases "derive_from_story d inp")
  case (Inl e)
  then show ?thesis using assms(2) by (simp add: resolveWorkItem_def split: if_splits)
next
  case (Inr derived)
  show ?thesis
  proof (cases derived)
    case None
    then have no: "\<not> truthy (wi_task_id inp)" "\<not> truthy (wi_story_id inp)"
      using Inr by (auto simp: derive_from_story_def split: option.splits if_splits)
    with None Inr assms(2) obtain k sp where "wi_sprint_id inp = Some k" "find_sprint k d = Some sp"
      "b = \<lparr>wb_product_id = sp_product_id sp, wb_sprint_id = Some k, wb_story_id = None, wb_task_id = None\<rparr>"
      by (auto simp: resolveWorkItem_def elim!: truthyE split: option.splits if_splits)
    with no show ?thesis by (simp add: consistent_block_def)
  next
    case (Some x)
    obtain p sp st where x: "x = (p, sp, st)" by (cases x) auto
    from derive_story [OF assms(1)] Inr [unfolded Some x] obtain s where s: "find_story st d = Some s"
      "p = st_product_id s" "sp = st_sprint_id s" "st \<noteq> []"
      "truthy (wi_task_id inp) \<longrightarrow> (\<exists>t tk. wi_task_id inp = Some t \<and> find_task t d = Some tk \<and> t_story_id tk = st)"
      "truthy (wi_story_id inp) \<longrightarrow> wi_story_id inp = Some st" by blast
    have "\<not> truthy (wi_sprint_id inp) \<or> wi_sprint_id inp = sp"
      "b = \<lparr>wb_product_id = p, wb_sprint_id = sp, wb_story_id = Some st, wb_task_id = given_task inp\<rparr>"
      using assms(2) Inr s(4) by (auto simp: resolveWorkItem_def Some x split: if_splits)
    with s show ?thesis by (auto simp: consistent_block_def given_task_def split: option.splits)
  qed
qed

lemma consistent_resolves:
  assumes "nonblank_ids d" "consistent_block d b"
  shows "resolveWorkItem d (block_ids b) = Inr (Some b)"
proof (cases "wb_story_id b")
  case None
  then obtain s sp where s: "wb_task_id b = None" "wb_sprint_id b = Some s" "find_sprint s d = Some sp" "wb_product_id b = sp_product_id sp"
    using assms(2) by (auto simp: consistent_block_def)
  then have "s \<noteq> []" using assms(1) found_sprint [OF s(3)] by (auto simp: nonblank_ids_def)
  with s None show ?thesis by (simp add: resolveWorkItem_def block_ids_def derive_from_story_def)
next
  case (Some s)
  then obtain st where st: "find_story s d = Some st" "wb_sprint_id b = st_sprint_id st" "wb_product_id b = st_product_id st"
    using assms(2) by (auto simp: consistent_block_def)
  have tk: "\<exists>tk. find_task t d = Some tk \<and> t_story_id tk = s" if "wb_task_id b = Some t" for t
    using Some that assms(2) by (simp add: consistent_block_def)
  have ne: "s \<noteq> []" "st_id st = s" and sprint: "st_sprint_id st \<noteq> Some []"
    using assms(1) found_story [OF st(1)] by (auto simp: nonblank_ids_def)
  have task: "t \<noteq> []" if "wb_task_id b = Some t" for t
    using tk [OF that] assms(1) by (auto simp: nonblank_ids_def dest!: found_task)
  have "derive_from_story d (block_ids b) = Inr (Some (st_product_id st, st_sprint_id st, s))"
  proof (cases "wb_task_id b")
    case None
    then show ?thesis using Some st ne by (simp add: derive_from_story_def block_ids_def)
  next
    case (Some t)
    with tk [OF Some] task [OF Some] \<open>wb_story_id b = Some s\<close> st ne show ?thesis by (auto simp: derive_from_story_def block_ids_def)
  qed
  moreover have "given_task (block_ids b) = wb_task_id b"
    using task by (cases "wb_task_id b") (simp_all add: given_task_def block_ids_def)
  moreover have "\<not> (truthy (wb_sprint_id b) \<and> st_sprint_id st = None)" using st by (auto elim!: truthyE)
  ultimately show ?thesis
    using Some st ne by (simp add: resolveWorkItem_def block_ids_def)
qed

lemma extract_block_json:
  assumes "nonblank_ids d" "consistent_block d b"
  shows "extractWorkItemIds (Some (block_json b)) = block_ids b"
proof -
  have sprint: "trim k \<noteq> []" if "wb_sprint_id b = Some k" for k
    using assms that by (auto simp: consistent_block_def nonblank_ids_def dest!: found_story found_sprint split: option.splits)
  have story: "trim k \<noteq> []" if "wb_story_id b = Some k" for k
    using assms that by (auto simp: consistent_block_def nonblank_ids_def dest!: found_story split: option.splits)
  have task: "trim k \<noteq> []" if "wb_task_id b = Some k" for k
    using assms that by (auto simp: consistent_block_def nonblank_ids_def dest!: found_task split: option.splits)
  show ?thesis
    using sprint story task
    by (cases "wb_sprint_id b"; cases "wb_story_id b"; cases "wb_task_id b")
      (simp_all add: extractWorkItemIds_def block_json_def block_ids_def nonblank_member_def string_member_def get_member_def opt_member_def)
qed

definition no_ids :: WorkItemInput where
  "no_ids = \<lparr>wi_sprint_id = None, wi_story_id = None, wi_task_id = None\<rparr>"

text \<open>
  A work item that \<open>queue_push\<close> accepts names a chain of the planning tables: its task lies in its story,
  its story in its sprint and product. It keeps every id that was given, whether by parameter or inside
  \<open>meta.work_item\<close>; its product is derived and never taken from the caller; and the stored block is canonical:
  sending it again gives the same block.
\<close>

theorem work_item_canonical:
  assumes "nonblank_ids d" and "mergeWorkItemInputs ids (extractWorkItemIds block) = Inr inp"
    and "resolveWorkItem d inp = Inr (Some b)"
  shows "consistent_block d b \<and>
    (\<forall>k. k \<noteq> [] \<longrightarrow>
       (wi_sprint_id ids = Some k \<longrightarrow> wb_sprint_id b = Some k) \<and> (wi_story_id ids = Some k \<longrightarrow> wb_story_id b = Some k) \<and>
       (wi_task_id ids = Some k \<longrightarrow> wb_task_id b = Some k)) \<and>
    (\<forall>kvs k. block = Some (JObj kvs) \<longrightarrow> trim k \<noteq> [] \<longrightarrow>
       (get_member kvs ''sprint_id'' = Some (JStr k) \<longrightarrow> wb_sprint_id b = Some k) \<and>
       (get_member kvs ''story_id'' = Some (JStr k) \<longrightarrow> wb_story_id b = Some k) \<and>
       (get_member kvs ''task_id'' = Some (JStr k) \<longrightarrow> wb_task_id b = Some k)) \<and>
    work_item_meta d no_ids [(''work_item'', block_json b)] = Inr [(''work_item'', block_json b)]"
proof -
  note r = resolve_consistent [OF assms(1,3)]
  have merged: "merge_id key p x = Inr y \<Longrightarrow> (p = Some k \<longrightarrow> y = Some k) \<and> (x = Some k \<longrightarrow> y = Some k)" for key p x y k
    by (auto simp: merge_id_def split: option.splits if_splits)
  obtain inp' where inp': "inp' = extractWorkItemIds block" by simp
  have m: "merge_id ''sprint_id'' (wi_sprint_id ids) (wi_sprint_id inp') = Inr (wi_sprint_id inp)"
    "merge_id ''story_id'' (wi_story_id ids) (wi_story_id inp') = Inr (wi_story_id inp)"
    "merge_id ''task_id'' (wi_task_id ids) (wi_task_id inp') = Inr (wi_task_id inp)"
    using assms(2) by (auto simp: mergeWorkItemInputs_def and_then_Inr_iff inp')
  have up: "(wi_sprint_id inp = Some k \<longrightarrow> wb_sprint_id b = Some k) \<and> (wi_story_id inp = Some k \<longrightarrow> wb_story_id b = Some k) \<and>
      (wi_task_id inp = Some k \<longrightarrow> wb_task_id b = Some k)" if "k \<noteq> []" for k
    using r that by (intro conjI impI) simp_all
  have given: "k \<noteq> [] \<Longrightarrow>
      (wi_sprint_id i = Some k \<longrightarrow> wb_sprint_id b = Some k) \<and> (wi_story_id i = Some k \<longrightarrow> wb_story_id b = Some k) \<and>
      (wi_task_id i = Some k \<longrightarrow> wb_task_id b = Some k)" if "i = ids \<or> i = inp'" for i k
    using that merged [OF m(1), of k] merged [OF m(2), of k] merged [OF m(3), of k] up [of k] by blast
  have member: "get_member kvs key = Some (JStr k) \<Longrightarrow> trim k \<noteq> [] \<Longrightarrow> nonblank_member kvs key = Some k" for kvs key k
    by (simp add: nonblank_member_def string_member_def)
  have block: "block = Some (JObj kvs) \<longrightarrow> trim k \<noteq> [] \<longrightarrow>
       (get_member kvs ''sprint_id'' = Some (JStr k) \<longrightarrow> wb_sprint_id b = Some k) \<and>
       (get_member kvs ''story_id'' = Some (JStr k) \<longrightarrow> wb_story_id b = Some k) \<and>
       (get_member kvs ''task_id'' = Some (JStr k) \<longrightarrow> wb_task_id b = Some k)" for kvs k
  proof (intro impI)
    assume a: "block = Some (JObj kvs)" "trim k \<noteq> []"
    then have "k \<noteq> []" by auto
    note g = given [of inp', OF disjI2 [OF refl] this]
    have i: "inp' = \<lparr>wi_sprint_id = nonblank_member kvs ''sprint_id'', wi_story_id = nonblank_member kvs ''story_id'',
        wi_task_id = nonblank_member kvs ''task_id''\<rparr>"
      using a by (simp add: inp' extractWorkItemIds_def)
    show "(get_member kvs ''sprint_id'' = Some (JStr k) \<longrightarrow> wb_sprint_id b = Some k) \<and>
       (get_member kvs ''story_id'' = Some (JStr k) \<longrightarrow> wb_story_id b = Some k) \<and>
       (get_member kvs ''task_id'' = Some (JStr k) \<longrightarrow> wb_task_id b = Some k)"
      using g member [OF _ a(2), of kvs "''sprint_id''"] member [OF _ a(2), of kvs "''story_id''"]
        member [OF _ a(2), of kvs "''task_id''"] by (simp add: i)
  qed
  have again: "work_item_meta d no_ids [(''work_item'', block_json b)] = Inr [(''work_item'', block_json b)]"
    using extract_block_json [OF assms(1), of b] consistent_resolves [OF assms(1), of b] r
    by (simp add: work_item_meta_def mergeWorkItemInputs_def merge_id_def no_ids_def get_member_def set_member_def block_ids_def)
  show ?thesis using r given [OF disjI1 [OF refl]] block again by blast
qed

section \<open>The pushed row\<close>

lemma map_of_map_filter:
  "map_of (List.map_filter (\<lambda>k. map_option (\<lambda>s. (k, JStr s)) (g k)) keys @ rest) k =
     (if k \<in> set keys \<and> g k \<noteq> None then map_option JStr (g k) else map_of rest k)"
  by (induction keys) (auto simp: List.map_filter_simps split: option.splits)

lemma validated_members:
  assumes "validateTaskMeta t = Inr v" "k \<in> set REQUIRED_TASK_META"
  shows "\<exists>s. string_member v k = Some s \<and> trim s \<noteq> []"
proof -
  have "\<not> (case string_member t k of None \<Rightarrow> True | Some s \<Rightarrow> trim s = [])"
    using assms by (auto simp: validateTaskMeta_def find_None_iff split: option.splits)
  then obtain s where s: "string_member t k = Some s" "trim s \<noteq> []" by (auto split: option.splits)
  obtain rest where "v = string_members (REQUIRED_TASK_META @ [''branch'', ''worktree'', ''expected_result'']) t @ rest"
    using assms(1) by (auto simp: validateTaskMeta_def split: option.splits)
  then have "get_member v k = Some (JStr s)"
    using assms(2) s by (simp add: string_members_def get_member_def map_of_map_filter del: map_of_append)
  with s show ?thesis by (simp add: string_member_def)
qed

text \<open>
  \<open>queue_push\<close> is all or nothing: an error leaves the queue as it was; a success adds exactly one row,
  pending, free of markers, answering nothing, sent by a known identity and never to the server of managed
  dispatch. A task or review request carries the complete task contract, and \<open>meta.work_item\<close> is either
  absent or a block resolved against the planning tables. A failed notification loses only the notification.
\<close>

theorem push_adds_one_message:
  assumes "queue_push env d newId now inp q = (q', r)"
  shows "case r of
      Inl e \<Rightarrow> q' = q
    | Inr reply \<Rightarrow> (\<exists>row meta. messages q' = messages q @ [row] \<and> leases q' = leases q \<and>
        sent q' = sent q @ (if pe_notify_works env then [envelope_row row None] else []) \<and>
        m_id row = newId \<and> pu_message_id reply = newId \<and> m_type row = pi_type inp \<and> m_body row = pi_body inp \<and>
        m_status row = MPending \<and> m_in_reply_to row = None \<and> legacy row \<and> ordinary row \<and>
        m_from_server row \<in> set (QUEUE_SERVERS (vocab (pe_queue env))) \<and>
        m_from_model row \<in> set (QUEUE_MODELS (vocab (pe_queue env))) \<and>
        m_to_server row \<noteq> QUEUE_DISPATCH_SERVER (vocab (pe_queue env)) \<and> m_meta row = JObj meta \<and>
        (requiresTaskMeta (pi_type inp) \<longrightarrow>
          (\<exists>t. get_member meta ''task'' = Some (JObj t) \<and>
             (\<forall>k \<in> set REQUIRED_TASK_META. \<exists>s. string_member t k = Some s \<and> trim s \<noteq> []))) \<and>
        (get_member meta ''work_item'' = None \<or>
          (\<exists>ids b. resolveWorkItem d ids = Inr (Some b) \<and> get_member meta ''work_item'' = Some (block_json b))))"
proof (cases "push_content env d now inp")
  case (Inl e)
  then show ?thesis using assms by (auto simp: queue_push_def)
next
  case (Inr c)
  then obtain from' target dest meta1 meta2 meta where c: "c = (from', (target, dest), meta)"
    and from': "resolveQueueIdentity (pe_queue env) (pi_as inp) = Inr from'"
    and dest: "push_target env (pi_to inp) = Inr (target, dest)"
    and meta2: "task_meta env (pi_type inp) (pi_cwd inp) meta1 = Inr meta2"
    and meta: "work_item_meta d (pi_ids inp) meta2 = Inr meta"
    by (auto simp: push_content_def and_then_Inr_iff)
  let ?row = "new_message newId now from' dest inp meta"
  have leg: "legacy ?row" "ordinary ?row" by (simp_all add: new_message_def legacy_def ordinary_def)
  then have env: "envelopeOf ?row None = Inr (envelope_row ?row None)"
    by (simp add: envelopeOf_def assertLegacyQueueRow_def envelope_row_def)
  have not_dispatch: "fst dest \<noteq> QUEUE_DISPATCH_SERVER (vocab (pe_queue env))"
  proof -
    from dest obtain t where "(case t of
         AddressOf server model \<Rightarrow>
           if server = QUEUE_DISPATCH_SERVER (vocab (pe_queue env)) then Inl (VALIDATION_ERROR ''reserved for managed dispatch projection'')
           else Inr (t, server, model)
       | JobOf jobId \<Rightarrow>
           if QUEUE_JOB_SERVER (vocab (pe_queue env)) = QUEUE_DISPATCH_SERVER (vocab (pe_queue env))
           then Inl (VALIDATION_ERROR ''reserved for managed dispatch projection'')
           else Inr (t, QUEUE_JOB_SERVER (vocab (pe_queue env)), jobId)) = Inr (target, dest)"
      unfolding push_target_def and_then_Inr_iff by blast
    then show ?thesis by (cases t) (auto split: if_splits)
  qed
  have task2: "\<exists>t. get_member meta2 ''task'' = Some (JObj t) \<and> (\<forall>k \<in> set REQUIRED_TASK_META. \<exists>s. string_member t k = Some s \<and> trim s \<noteq> [])"
    if "requiresTaskMeta (pi_type inp)"
    using meta2 that validated_members by (auto simp: task_meta_def Let_def and_then_Inr_iff split: if_splits)
  have keep: "get_member meta ''task'' = get_member meta2 ''task''"
    using meta by (auto simp: work_item_meta_def and_then_Inr_iff split: option.splits)
  have work: "get_member meta ''work_item'' = None \<or>
      (\<exists>ids b. resolveWorkItem d ids = Inr (Some b) \<and> get_member meta ''work_item'' = Some (block_json b))"
  proof -
    from meta obtain ids w where "resolveWorkItem d ids = Inr w" "meta = (case w of
         None \<Rightarrow> del_member ''work_item'' meta2
       | Some b \<Rightarrow> set_member ''work_item'' (block_json b) meta2)"
      by (auto simp: work_item_meta_def and_then_Inr_iff)
    then show ?thesis by (cases w) auto
  qed
  obtain s m where sm: "from' = (s, m)" by (cases from')
  note known = identity_is_known [OF from' [unfolded sm]]
  obtain reply where res: "r = Inr reply" "pu_message_id reply = newId"
    "q' = emitQueueNotifyBestEffort (pe_notify_works env) (envelope_row ?row None) (q\<lparr>messages := messages q @ [?row]\<rparr>)"
    using assms Inr c env by (auto simp: queue_push_def Let_def)
  have "messages q' = messages q @ [?row]" "leases q' = leases q"
    "sent q' = sent q @ (if pe_notify_works env then [envelope_row ?row None] else [])"
    by (simp_all add: res(3) emitQueueNotifyBestEffort_def)
  moreover have "m_id ?row = newId" "m_type ?row = pi_type inp" "m_body ?row = pi_body inp" "m_status ?row = MPending"
    "m_in_reply_to ?row = None" "m_from_server ?row = s" "m_from_model ?row = m" "m_to_server ?row = fst dest" "m_meta ?row = JObj meta"
    by (simp_all add: new_message_def sm)
  ultimately show ?thesis
    using res(1,2) leg known not_dispatch task2 keep work by (simp only: sum.case) (intro exI [of _ ?row] exI [of _ meta], simp)
qed

end
