(* ===== verification/Queue_Views.thy ===== *)
theory Queue_Views
  imports Queue_Claims
begin

text \<open>
  The reading tools of the queue: \<open>queue_status\<close> (\<open>tools/queue-status.ts\<close>), \<open>queue_list\<close>
  (\<open>tools/queue-list.ts\<close>) and \<open>queue_find_by_work_item\<close> (\<open>tools/queue-find-by-work-item.ts\<close>). None of them
  changes the queue.
\<close>

definition newest_first :: "message list \<Rightarrow> message list" where
  "newest_first ms = sort_key (\<lambda>m. - m_created_at m) ms"

lemma set_newest_first [simp]: "set (newest_first ms) = set ms"
  by (simp add: newest_first_def)

section \<open>queue_status\<close>

definition queue_status ::
  "queue_env \<Rightarrow> time \<Rightarrow> id \<Rightarrow> queue \<Rightarrow> queue_error + message_view \<times> message_view list" where
  "queue_status env now messageId q =
     and_then (writeAccess env now) (\<lambda>_.
     and_then (or_throw (QUEUE_NOT_FOUND messageId) (find (\<lambda>m. m_id m = messageId \<and> legacy m) (messages q))) (\<lambda>row.
     and_then (messageView row) (\<lambda>v.
     and_then (views (sort_key fifo_key (filter (\<lambda>m. m_in_reply_to m = Some messageId \<and> legacy m) (messages q)))) (\<lambda>vs.
       Inr (v, vs)))))"

section \<open>queue_list\<close>

datatype direction = Sent | Received | Both

text \<open>The statuses that are not terminal, among those of the vocabulary.\<close>

definition NON_TERMINAL_STATUSES :: "queue_env \<Rightarrow> mstatus list" where
  "NON_TERMINAL_STATUSES env = filter (\<lambda>s. s \<notin> set (QUEUE_TERMINAL_STATUSES (vocab env))) [MPending, MClaimed, MDone, MFailed, MCancelled]"

definition listed :: "queue_env \<Rightarrow> string \<times> string \<Rightarrow> direction \<Rightarrow> bool \<Rightarrow> bool \<Rightarrow> message \<Rightarrow> bool" where
  "listed env self dir includeTerminal includeArchived m \<longleftrightarrow>
     (let sender = (m_from_server m = fst self \<and> m_from_model m = snd self);
          addressee = (m_to_server m = fst self \<and> m_to_model m = snd self)
      in (case dir of Sent \<Rightarrow> sender | Received \<Rightarrow> addressee | Both \<Rightarrow> sender \<or> addressee) \<and> legacy m \<and>
         (includeTerminal \<or> m_status m \<in> set (NON_TERMINAL_STATUSES env)) \<and>
         (includeArchived \<or> m_archived_at m = None))"

definition queue_list ::
  "queue_env \<Rightarrow> time \<Rightarrow> string option \<Rightarrow> direction option \<Rightarrow> bool option \<Rightarrow> bool option \<Rightarrow> queue \<Rightarrow> queue_error + message_view list" where
  "queue_list env now as_model dir includeTerminal includeArchived q =
     and_then (writeAccess env now) (\<lambda>_.
     and_then (resolveQueueIdentity env as_model) (\<lambda>self.
       views (take 50 (newest_first (filter
         (listed env self (or_else dir Both) (or_else includeTerminal False) (or_else includeArchived False)) (messages q))))))"

section \<open>queue_find_by_work_item\<close>

definition MATCH_LIMIT :: nat where
  "MATCH_LIMIT = 100"

definition work_item_of :: "message \<Rightarrow> (string \<times> json) list option" where
  "work_item_of m = Option.bind (as_object (m_meta m)) (\<lambda>kvs. Option.bind (get_member kvs ''work_item'') as_object)"

definition workItemProductId :: "message \<Rightarrow> id option" where
  "workItemProductId m = (case Option.bind (work_item_of m) (\<lambda>w. string_member w ''product_id'') of
     None \<Rightarrow> None | Some p \<Rightarrow> if p = [] then None else Some p)"

text \<open>\<open>{ meta: { path: ['work_item', key], equals: id } }\<close>, for an id that is given.\<close>

definition id_filter :: "string \<Rightarrow> string option \<Rightarrow> message \<Rightarrow> bool" where
  "id_filter key given m \<longleftrightarrow> \<not> truthy given \<or>
     Option.bind (work_item_of m) (\<lambda>w. get_member w key) = Some (JStr (or_else given []))"

definition work_item_match :: "string option \<Rightarrow> string option \<Rightarrow> string option \<Rightarrow> bool \<Rightarrow> message \<Rightarrow> bool" where
  "work_item_match sprint_id story_id task_id includeArchived m \<longleftrightarrow>
     id_filter ''sprint_id'' sprint_id m \<and> id_filter ''story_id'' story_id m \<and> id_filter ''task_id'' task_id m \<and>
     legacy m \<and> (includeArchived \<or> m_archived_at m = None)"

definition product_allowed :: "queue_env \<Rightarrow> time \<Rightarrow> AuthContext \<Rightarrow> message \<Rightarrow> bool" where
  "product_allowed env now auth m = (case workItemProductId m of None \<Rightarrow> False
     | Some p \<Rightarrow> userCanAccessProduct now (caller env) (accounts env) p (ac_userId auth))"

text \<open>The messages found and whether the match query was cut off.\<close>

definition found_messages ::
  "queue_env \<Rightarrow> time \<Rightarrow> AuthContext \<Rightarrow> string option \<Rightarrow> string option \<Rightarrow> string option \<Rightarrow> bool \<Rightarrow> queue \<Rightarrow> message list \<times> bool" where
  "found_messages env now auth sprint_id story_id task_id includeArchived q =
     (let matches = take MATCH_LIMIT (newest_first (filter (work_item_match sprint_id story_id task_id includeArchived) (messages q)));
          kept = filter (product_allowed env now auth) matches;
          replies = (if kept = [] then [] else newest_first (filter (\<lambda>m.
             (case m_in_reply_to m of None \<Rightarrow> False | Some r \<Rightarrow> r \<in> set (map m_id kept)) \<and> legacy m \<and>
             (includeArchived \<or> m_archived_at m = None)) (messages q)))
      in (newest_first (kept @ replies), length matches = MATCH_LIMIT))"

definition queue_find_by_work_item ::
  "queue_env \<Rightarrow> time \<Rightarrow> string option \<Rightarrow> string option \<Rightarrow> string option \<Rightarrow> bool option \<Rightarrow> queue \<Rightarrow> queue_error + message_view list \<times> bool" where
  "queue_find_by_work_item env now sprint_id story_id task_id includeArchived q =
     and_then (writeAccess env now) (\<lambda>auth.
       if \<not> truthy sprint_id \<and> \<not> truthy story_id \<and> \<not> truthy task_id
       then Inl (VALIDATION_ERROR ''geef minstens een van sprint_id, story_id of task_id'')
       else (let (found, truncated) = found_messages env now auth sprint_id story_id task_id (or_else includeArchived False) q
             in and_then (views found) (\<lambda>vs. Inr (vs, truncated))))"

section \<open>Laws\<close>

lemma views_Inr: "views ms = Inr vs \<Longrightarrow> map v_id vs = map m_id ms"
  by (induction ms arbitrary: vs)
    (auto simp: and_then_Inr_iff messageView_def assertLegacyQueueRow_def split: if_splits)

text \<open>A message that a search may reveal to this caller.\<close>

definition searchable :: "queue_env \<Rightarrow> time \<Rightarrow> AuthContext \<Rightarrow> string option \<Rightarrow> string option \<Rightarrow> string option \<Rightarrow> message \<Rightarrow> bool" where
  "searchable env now auth sprint_id story_id task_id m \<longleftrightarrow> legacy m \<and>
     (\<exists>w p. work_item_of m = Some w \<and> string_member w ''product_id'' = Some p \<and>
        userCanAccessProduct now (caller env) (accounts env) p (ac_userId auth) \<and>
        (\<forall>k. sprint_id = Some k \<longrightarrow> k \<noteq> [] \<longrightarrow> string_member w ''sprint_id'' = Some k) \<and>
        (\<forall>k. story_id = Some k \<longrightarrow> k \<noteq> [] \<longrightarrow> string_member w ''story_id'' = Some k) \<and>
        (\<forall>k. task_id = Some k \<longrightarrow> k \<noteq> [] \<longrightarrow> string_member w ''task_id'' = Some k))"

lemma id_filterD: "id_filter key given m \<Longrightarrow> work_item_of m = Some w \<Longrightarrow> given = Some k \<Longrightarrow> k \<noteq> [] \<Longrightarrow> string_member w key = Some k"
  by (simp add: id_filter_def string_member_def)

lemma match_searchable:
  "work_item_match sp st tk inc m \<Longrightarrow> product_allowed env now auth m \<Longrightarrow> searchable env now auth sp st tk m"
  by (auto simp: work_item_match_def product_allowed_def workItemProductId_def searchable_def intro: id_filterD
    split: option.splits bind_splits if_splits)

text \<open>
  C36. \<open>queue_find_by_work_item\<close> reveals only what the caller may see: every message it returns is a row without
  markers that carries all given ids and a product the caller's token can reach, or a direct reply to such
  a message; without any id it is refused, and archived rows appear only on request.
\<close>

theorem search_is_guarded:
  assumes "queue_find_by_work_item env now sp st tk inc q = Inr (vs, truncated)"
  shows "(truthy sp \<or> truthy st \<or> truthy tk) \<and>
    (\<exists>auth. requireWriteAccess now (caller env) (accounts env) = Inr auth \<and>
      (\<forall>v \<in> set vs. \<exists>m \<in> set (messages q). m_id m = v_id v \<and> legacy m \<and>
         (inc \<noteq> Some True \<longrightarrow> m_archived_at m = None) \<and>
         (searchable env now auth sp st tk m \<or>
          (\<exists>n \<in> set (messages q). searchable env now auth sp st tk n \<and> m_in_reply_to m = Some (m_id n)))))"
proof -
  from assms obtain auth where auth: "writeAccess env now = Inr auth" and given: "truthy sp \<or> truthy st \<or> truthy tk"
    and vs: "views (fst (found_messages env now auth sp st tk (or_else inc False) q)) = Inr vs"
    by (auto simp: queue_find_by_work_item_def and_then_Inr_iff split: if_splits prod.splits)
  have w: "requireWriteAccess now (caller env) (accounts env) = Inr auth"
    using auth by (auto simp: writeAccess_def split: sum.splits)
  have archived: "inc \<noteq> Some True \<longrightarrow> \<not> or_else inc False" by (cases inc) auto
  have "m \<in> set (messages q) \<and> legacy m \<and> (inc \<noteq> Some True \<longrightarrow> m_archived_at m = None) \<and>
     (searchable env now auth sp st tk m \<or>
      (\<exists>n \<in> set (messages q). searchable env now auth sp st tk n \<and> m_in_reply_to m = Some (m_id n)))"
    if "m \<in> set (fst (found_messages env now auth sp st tk (or_else inc False) q))" for m
  proof -
    have kept: "n \<in> set (messages q) \<and> work_item_match sp st tk (or_else inc False) n \<and> searchable env now auth sp st tk n"
      if "n \<in> set (take MATCH_LIMIT (newest_first (filter (work_item_match sp st tk (or_else inc False)) (messages q))))"
        "product_allowed env now auth n" for n
      using that match_searchable [of sp st tk "or_else inc False" n env now auth] by (auto dest!: in_set_takeD)
    from that consider (match) "m \<in> set (take MATCH_LIMIT (newest_first (filter (work_item_match sp st tk (or_else inc False)) (messages q))))"
        "product_allowed env now auth m"
      | (reply) n where "m \<in> set (messages q)" "legacy m" "or_else inc False \<or> m_archived_at m = None" "m_in_reply_to m = Some (m_id n)"
        "n \<in> set (take MATCH_LIMIT (newest_first (filter (work_item_match sp st tk (or_else inc False)) (messages q))))"
        "product_allowed env now auth n"
      by (auto simp: found_messages_def Let_def split: if_splits option.splits)
    then show ?thesis
    proof cases
      case match
      with kept [OF match] archived show ?thesis by (auto simp: work_item_match_def)
    next
      case reply
      with kept [OF reply(5,6)] archived show ?thesis by auto
    qed
  qed
  note row = this
  have "\<exists>m \<in> set (fst (found_messages env now auth sp st tk (or_else inc False) q)). m_id m = v_id v" if "v \<in> set vs" for v
  proof -
    have "v_id v \<in> set (map m_id (fst (found_messages env now auth sp st tk (or_else inc False) q)))"
      using that views_Inr [OF vs, symmetric] by (metis image_eqI list.set_map)
    then show ?thesis by force
  qed
  then show ?thesis using given w row by blast
qed

end
