(* ===== verification/Queue_Marked.thy ===== *)
theory Queue_Marked
  imports Queue_Claims
begin

text \<open>
  The fenced route of the queue for the parallel execution of plans: lane consumers register under the
  authority of a run's orchestrator (\<open>tools/queue-register-consumer.ts\<close>) and claim, renew and cancel marked
  requests with a lease of their own (\<open>tools/queue-claim-marked.ts\<close>, \<open>tools/queue-renew-marked.ts\<close>,
  \<open>tools/queue-cancel-marked.ts\<close>). Hashes, drawn ids and tokens are parameters; every operation is one
  transaction at time \<open>now\<close>.
\<close>

section \<open>Data\<close>

record ppe_run =
  rn_run_id :: id
  rn_generation :: int
  rn_state :: string
  rn_principal :: string

record orchestrator_lease =
  ol_run_id :: id
  ol_generation :: int
  ol_owner_principal :: string
  ol_lease_expires_at :: time
  ol_fence_sha256 :: string
  ol_status :: string

record ppe_consumer =
  pc_consumer_id :: id
  pc_run_id :: id
  pc_lane :: string
  pc_generation :: int
  pc_operation_key :: string
  pc_config_sha256 :: string
  pc_attestation_sha256 :: string
  pc_status :: string
  pc_heartbeat_at :: "time option"

record claim_lease =
  cl_message_id :: id
  cl_run_id :: id
  cl_consumer_id :: id
  cl_consumer_generation :: int
  cl_lease_generation :: int
  cl_token_sha256 :: string
  cl_status :: string
  cl_claimed_at :: time
  cl_renewed_at :: "time option"
  cl_finished_at :: "time option"

record marked =
  mk_runs :: "ppe_run list"
  mk_orchestrators :: "orchestrator_lease list"
  mk_consumers :: "ppe_consumer list"
  mk_leases :: "claim_lease list"
  mk_messages :: "message list"

datatype ppe_error =
    PPE_RUN_FENCE
  | PPE_ORCHESTRATOR_FENCE
  | PPE_FENCE_MISMATCH
  | PPE_CONSUMER_FENCE
  | PPE_CONSUMER_GENERATION_EXHAUSTED
  | PPE_CONSUMER_GENERATION_FENCE
  | PPE_OPERATION_KEY_REUSE
  | PPE_CONSUMER_READY_CAS
  | PPE_CLAIM_FENCE

record authority =
  au_run_id :: id
  au_run_generation :: int
  au_orchestrator_generation :: int
  au_fence_sha256 :: string

record consumer_authority = authority +
  au_consumer_id :: id
  au_consumer_generation :: int

record register_input = authority +
  ri_lane :: string
  ri_generation :: int
  ri_operation_key :: string
  ri_config_sha256 :: string
  ri_attestation_sha256 :: string

record lease_input = consumer_authority +
  li_message_id :: id
  li_lease_generation :: int
  li_claim_token :: string

definition marked_transaction :: "marked \<Rightarrow> (ppe_error + marked \<times> 'a) \<Rightarrow> marked \<times> (ppe_error + 'a)" where
  "marked_transaction s r = (case r of Inl e \<Rightarrow> (s, Inl e) | Inr (s', x) \<Rightarrow> (s', Inr x))"

lemma marked_transaction_simps [simp]:
  "marked_transaction s (Inl e) = (s, Inl e)"
  "marked_transaction s (Inr (s', x)) = (s', Inr x)"
  by (simp_all add: marked_transaction_def)

section \<open>Authority\<close>

text \<open>The rows of the join: a run with its current orchestrator lease.\<close>

definition authority_rows :: "marked \<Rightarrow> id \<Rightarrow> (ppe_run \<times> orchestrator_lease) list" where
  "authority_rows s runId = [(r, l). r \<leftarrow> mk_runs s, rn_run_id r = runId, l \<leftarrow> mk_orchestrators s,
     ol_run_id l = rn_run_id r \<and> ol_status l = ''CURRENT'']"

definition assertRunAuthority :: "time \<Rightarrow> (ppe_run \<times> orchestrator_lease) option \<Rightarrow> 'a authority_scheme \<Rightarrow> ppe_error + unit" where
  "assertRunAuthority now row input = (case row of
       None \<Rightarrow> Inl PPE_RUN_FENCE
     | Some (r, l) \<Rightarrow>
         if rn_state r \<noteq> ''ACTIVE'' \<or> rn_generation r \<noteq> au_run_generation input then Inl PPE_RUN_FENCE
         else if ol_generation l \<noteq> au_orchestrator_generation input \<or> ol_owner_principal l \<noteq> rn_principal r \<or>
             rn_principal r \<noteq> ''orchestrator:'' @ au_run_id input \<or> ol_lease_expires_at l \<le> now
           then Inl PPE_ORCHESTRATOR_FENCE
         else if ol_fence_sha256 l \<noteq> au_fence_sha256 input then Inl PPE_FENCE_MISMATCH
         else Inr ())"

definition first_row :: "'a list \<Rightarrow> 'a option" where
  "first_row xs = (case xs of [] \<Rightarrow> None | x # _ \<Rightarrow> Some x)"

definition consumer_rows :: "marked \<Rightarrow> id \<Rightarrow> id \<Rightarrow> ((ppe_run \<times> orchestrator_lease) \<times> ppe_consumer) list" where
  "consumer_rows s runId consumerId = [(a, c). a \<leftarrow> authority_rows s runId, c \<leftarrow> mk_consumers s,
     pc_run_id c = runId \<and> pc_consumer_id c = consumerId]"

definition lockConsumerAuthority :: "time \<Rightarrow> marked \<Rightarrow> 'a consumer_authority_scheme \<Rightarrow> ppe_error + unit" where
  "lockConsumerAuthority now s input =
     (let row = first_row (consumer_rows s (au_run_id input) (au_consumer_id input)) in
      and_then (assertRunAuthority now (map_option fst row) input) (\<lambda>_.
        case row of None \<Rightarrow> Inl PPE_CONSUMER_FENCE
        | Some (_, c) \<Rightarrow>
            if pc_generation c \<noteq> au_consumer_generation input \<or> pc_status c \<noteq> ''READY_ACK'' then Inl PPE_CONSUMER_FENCE
            else Inr ()))"

section \<open>Registration of a consumer\<close>

definition same_registration :: "ppe_consumer \<Rightarrow> register_input \<Rightarrow> bool" where
  "same_registration c i \<longleftrightarrow> pc_run_id c = au_run_id i \<and> pc_lane c = ri_lane i \<and> pc_generation c = ri_generation i \<and>
     pc_config_sha256 c = ri_config_sha256 i \<and> pc_attestation_sha256 c = ri_attestation_sha256 i"

definition lane_consumers :: "marked \<Rightarrow> id \<Rightarrow> string \<Rightarrow> ppe_consumer list" where
  "lane_consumers s runId lane = filter (\<lambda>c. pc_run_id c = runId \<and> pc_lane c = lane) (mk_consumers s)"

definition prior_consumer :: "marked \<Rightarrow> id \<Rightarrow> string \<Rightarrow> ppe_consumer option" where
  "prior_consumer s runId lane = first_by (\<lambda>c. - pc_generation c) (\<lambda>c. pc_run_id c = runId \<and> pc_lane c = lane) (mk_consumers s)"

definition intent_row :: "id \<Rightarrow> register_input \<Rightarrow> ppe_consumer" where
  "intent_row consumerId i = \<lparr>pc_consumer_id = consumerId, pc_run_id = au_run_id i, pc_lane = ri_lane i,
     pc_generation = ri_generation i, pc_operation_key = ri_operation_key i, pc_config_sha256 = ri_config_sha256 i,
     pc_attestation_sha256 = ri_attestation_sha256 i, pc_status = ''REGISTER_INTENT'', pc_heartbeat_at = None\<rparr>"

definition intent_ready :: "id \<Rightarrow> ppe_consumer \<Rightarrow> bool" where
  "intent_ready consumerId c \<longleftrightarrow> pc_consumer_id c = consumerId \<and> pc_status c = ''REGISTER_INTENT''"

definition ready_row :: "time \<Rightarrow> ppe_consumer \<Rightarrow> ppe_consumer" where
  "ready_row now c = c\<lparr>pc_status := ''READY_ACK'', pc_heartbeat_at := Some now\<rparr>"

text \<open>The insert of the intent and its acknowledgement.\<close>

definition insert_ready :: "time \<Rightarrow> id \<Rightarrow> register_input \<Rightarrow> marked \<Rightarrow> ppe_error + marked \<times> ppe_consumer" where
  "insert_ready now consumerId i s =
     (let cs = mk_consumers s @ [intent_row consumerId i] in
      case find (intent_ready consumerId) cs of
        None \<Rightarrow> Inl PPE_CONSUMER_READY_CAS
      | Some c \<Rightarrow> Inr (s\<lparr>mk_consumers := update_where (intent_ready consumerId) (ready_row now) cs\<rparr>, ready_row now c))"

definition generation_refusal :: "ppe_consumer option \<Rightarrow> int \<Rightarrow> ppe_error option" where
  "generation_refusal prior generation =
     (case prior of
        None \<Rightarrow> if generation \<noteq> 1 then Some PPE_CONSUMER_GENERATION_FENCE else None
      | Some p \<Rightarrow> if pc_generation p + 1 \<noteq> generation \<or> pc_status p \<noteq> ''RETIRED''
          then Some (if pc_generation p = 3 then PPE_CONSUMER_GENERATION_EXHAUSTED else PPE_CONSUMER_GENERATION_FENCE)
          else None)"

definition registerMarkedConsumer :: "time \<Rightarrow> id \<Rightarrow> register_input \<Rightarrow> marked \<Rightarrow> marked \<times> (ppe_error + ppe_consumer)" where
  "registerMarkedConsumer now consumerId i s =
     (if ri_generation i = 4 then (s, Inl PPE_CONSUMER_GENERATION_EXHAUSTED)
      else marked_transaction s (and_then (assertRunAuthority now (first_row (authority_rows s (au_run_id i))) i) (\<lambda>_.
        case find (\<lambda>c. pc_operation_key c = ri_operation_key i) (mk_consumers s) of
          Some c \<Rightarrow> if same_registration c i then Inr (s, c) else Inl PPE_OPERATION_KEY_REUSE
        | None \<Rightarrow> (case generation_refusal (prior_consumer s (au_run_id i) (ri_lane i)) (ri_generation i) of
              Some e \<Rightarrow> Inl e
            | None \<Rightarrow> insert_ready now consumerId i s))))"

section \<open>Claim, renewal and cancellation\<close>

definition marked_candidate :: "'a consumer_authority_scheme \<Rightarrow> string list \<Rightarrow> message \<Rightarrow> bool" where
  "marked_candidate i types m \<longleftrightarrow>
     ppe_protocol m = Some ''parallel-plan-execution/v1'' \<and> ppe_run_id m = Some (au_run_id i) \<and>
     ppe_from_principal m = Some (''orchestrator:'' @ au_run_id i) \<and> ppe_to_principal m = None \<and>
     ppe_to_consumer_id m = Some (au_consumer_id i) \<and> ppe_consumer_generation m = Some (au_consumer_generation i) \<and>
     ppe_operation_key m \<noteq> None \<and> ppe_payload_sha256 m \<noteq> None \<and>
     ppe_lease_generation m = None \<and> m_type m \<in> set types \<and> m_status m = MPending"

definition next_lease_generation :: "marked \<Rightarrow> id \<Rightarrow> int" where
  "next_lease_generation s k = fold max (map cl_lease_generation (filter (\<lambda>l. cl_message_id l = k) (mk_leases s))) 0 + 1"

definition claim_marked_hit :: "'a consumer_authority_scheme \<Rightarrow> id \<Rightarrow> message \<Rightarrow> bool" where
  "claim_marked_hit i k m \<longleftrightarrow> m_id m = k \<and> m_status m = MPending \<and> ppe_run_id m = Some (au_run_id i) \<and>
     ppe_to_consumer_id m = Some (au_consumer_id i) \<and> ppe_consumer_generation m = Some (au_consumer_generation i) \<and>
     ppe_lease_generation m = None"

definition marked_claimed_row :: "id \<Rightarrow> time \<Rightarrow> int \<Rightarrow> message \<Rightarrow> message" where
  "marked_claimed_row consumerId now g m = m\<lparr>m_status := MClaimed, m_claimed_by := Some consumerId,
     m_claimed_at := Some now, ppe_lease_generation := Some g\<rparr>"

text \<open>The message, the opaque token and the generation of its lease.\<close>

definition claimMarkedMessage ::
  "(string \<Rightarrow> string) \<Rightarrow> (id \<Rightarrow> bool) \<Rightarrow> time \<Rightarrow> string \<Rightarrow> consumer_authority \<Rightarrow> string list \<Rightarrow> marked
     \<Rightarrow> marked \<times> (ppe_error + (message \<times> string \<times> int) option)" where
  "claimMarkedMessage sha256 locked now token i types s = marked_transaction s
     (and_then (lockConsumerAuthority now s i) (\<lambda>_.
       case first_by fifo_key (\<lambda>m. marked_candidate i types m \<and> \<not> locked (m_id m)) (mk_messages s) of
         None \<Rightarrow> Inr (s, None)
       | Some m \<Rightarrow>
           (let g = next_lease_generation s (m_id m);
                lease = \<lparr>cl_message_id = m_id m, cl_run_id = au_run_id i, cl_consumer_id = au_consumer_id i,
                  cl_consumer_generation = au_consumer_generation i, cl_lease_generation = g,
                  cl_token_sha256 = sha256 token, cl_status = ''CURRENT'', cl_claimed_at = now,
                  cl_renewed_at = None, cl_finished_at = None\<rparr>
            in if count_where (claim_marked_hit i (m_id m)) (mk_messages s) \<noteq> 1 then Inl PPE_CLAIM_FENCE
               else Inr (s\<lparr>mk_leases := mk_leases s @ [lease],
                          mk_messages := update_where (claim_marked_hit i (m_id m))
                            (marked_claimed_row (au_consumer_id i) now g) (mk_messages s)\<rparr>,
                         Some (m, token, g)))))"

text \<open>The row and the lease a token must match: \<open>lockMarkedLease\<close> reads both under their fences.\<close>

definition leased_message :: "'a lease_input_scheme \<Rightarrow> message \<Rightarrow> bool" where
  "leased_message i m \<longleftrightarrow> m_id m = li_message_id i \<and> m_status m = MClaimed \<and> ppe_run_id m = Some (au_run_id i) \<and>
     ppe_to_consumer_id m = Some (au_consumer_id i) \<and> ppe_consumer_generation m = Some (au_consumer_generation i) \<and>
     ppe_lease_generation m = Some (li_lease_generation i)"

definition leased_claim :: "'a lease_input_scheme \<Rightarrow> claim_lease \<Rightarrow> bool" where
  "leased_claim i l \<longleftrightarrow> cl_message_id l = li_message_id i \<and> cl_run_id l = au_run_id i \<and>
     cl_consumer_id l = au_consumer_id i \<and> cl_consumer_generation l = au_consumer_generation i \<and>
     cl_lease_generation l = li_lease_generation i \<and> cl_status l = ''CURRENT''"

definition lockMarkedLease :: "(string \<Rightarrow> string) \<Rightarrow> time \<Rightarrow> marked \<Rightarrow> 'a lease_input_scheme \<Rightarrow> ppe_error + unit" where
  "lockMarkedLease sha256 now s i =
     and_then (lockConsumerAuthority now s i) (\<lambda>_.
       if find (leased_message i) (mk_messages s) = None then Inl PPE_CLAIM_FENCE
       else case find (leased_claim i) (mk_leases s) of
         None \<Rightarrow> Inl PPE_CLAIM_FENCE
       | Some l \<Rightarrow> if cl_token_sha256 l = sha256 (li_claim_token i) then Inr () else Inl PPE_CLAIM_FENCE)"

definition current_lease :: "id \<Rightarrow> int \<Rightarrow> claim_lease \<Rightarrow> bool" where
  "current_lease k g l \<longleftrightarrow> cl_message_id l = k \<and> cl_lease_generation l = g \<and> cl_status l = ''CURRENT''"

definition renewMarkedMessage :: "(string \<Rightarrow> string) \<Rightarrow> time \<Rightarrow> lease_input \<Rightarrow> marked \<Rightarrow> marked \<times> (ppe_error + unit)" where
  "renewMarkedMessage sha256 now i s = marked_transaction s
     (and_then (lockMarkedLease sha256 now s i) (\<lambda>_.
       (let hit = current_lease (li_message_id i) (li_lease_generation i) in
        if count_where hit (mk_leases s) \<noteq> 1 then Inl PPE_CLAIM_FENCE
        else Inr (s\<lparr>mk_leases := update_where hit (\<lambda>l. l\<lparr>cl_renewed_at := Some now\<rparr>) (mk_leases s)\<rparr>, ()))))"

datatype cancel_input = CancelPending consumer_authority id | CancelClaimed lease_input

definition cancel_target :: "'a consumer_authority_scheme \<Rightarrow> id \<Rightarrow> mstatus \<Rightarrow> marked \<Rightarrow> ppe_error + message" where
  "cancel_target i k expected s =
     (case find (\<lambda>m. m_id m = k \<and> ppe_protocol m = Some ''parallel-plan-execution/v1'') (mk_messages s) of
        None \<Rightarrow> Inl PPE_CONSUMER_FENCE
      | Some m \<Rightarrow>
          if m_status m \<noteq> expected \<or> ppe_run_id m \<noteq> Some (au_run_id i) \<or> ppe_to_consumer_id m \<noteq> Some (au_consumer_id i) \<or>
            ppe_consumer_generation m \<noteq> Some (au_consumer_generation i) then Inl PPE_CONSUMER_FENCE
          else Inr m)"

definition cancelled_row :: "time \<Rightarrow> message \<Rightarrow> message" where
  "cancelled_row now m = m\<lparr>m_status := MCancelled, m_finished_at := Some now\<rparr>"

definition cancelMarkedMessage :: "(string \<Rightarrow> string) \<Rightarrow> time \<Rightarrow> cancel_input \<Rightarrow> marked \<Rightarrow> marked \<times> (ppe_error + unit)" where
  "cancelMarkedMessage sha256 now input s = marked_transaction s (case input of
       CancelPending i k \<Rightarrow>
         and_then (lockConsumerAuthority now s i) (\<lambda>_.
         and_then (cancel_target i k MPending s) (\<lambda>m.
           if ppe_lease_generation m \<noteq> None then Inl PPE_CLAIM_FENCE
           else (let hit = (\<lambda>m. m_id m = k \<and> m_status m = MPending \<and> ppe_lease_generation m = None) in
             if count_where hit (mk_messages s) \<noteq> 1 then Inl PPE_CONSUMER_FENCE
             else Inr (s\<lparr>mk_messages := update_where hit (cancelled_row now) (mk_messages s)\<rparr>, ()))))
     | CancelClaimed i \<Rightarrow>
         and_then (lockConsumerAuthority now s i) (\<lambda>_.
         and_then (cancel_target i (li_message_id i) MClaimed s) (\<lambda>m.
           if ppe_lease_generation m \<noteq> Some (li_lease_generation i) then Inl PPE_CLAIM_FENCE
           else and_then (lockMarkedLease sha256 now s i) (\<lambda>_.
             (let lhit = current_lease (li_message_id i) (li_lease_generation i);
                  mhit = (\<lambda>m. m_id m = li_message_id i \<and> m_status m = MClaimed \<and> ppe_lease_generation m = Some (li_lease_generation i))
              in if count_where lhit (mk_leases s) \<noteq> 1 \<or> count_where mhit (mk_messages s) \<noteq> 1 then Inl PPE_CLAIM_FENCE
                 else Inr (s\<lparr>mk_leases := update_where lhit (\<lambda>l. l\<lparr>cl_status := ''CANCELLED'', cl_finished_at := Some now\<rparr>) (mk_leases s),
                        mk_messages := update_where mhit (cancelled_row now) (mk_messages s)\<rparr>, ()))))))"

end
