(* ===== verification/Queue_Marked_Laws.thy ===== *)
theory Queue_Marked_Laws
  imports Queue_Marked
begin

text \<open>
  The fences of the marked route: what an accepted operation implies, the invariant of leases and consumer
  generations, and that the route never touches an ordinary message.
\<close>

section \<open>Fences\<close>

text \<open>The authority a call acts under: an active run, its current unexpired orchestrator, a ready consumer.\<close>

definition run_fence :: "time \<Rightarrow> marked \<Rightarrow> 'a authority_scheme \<Rightarrow> bool" where
  "run_fence now s i \<longleftrightarrow> (\<exists>r \<in> set (mk_runs s). \<exists>l \<in> set (mk_orchestrators s).
     rn_run_id r = au_run_id i \<and> rn_state r = ''ACTIVE'' \<and> rn_generation r = au_run_generation i \<and>
     ol_run_id l = au_run_id i \<and> ol_status l = ''CURRENT'' \<and> ol_generation l = au_orchestrator_generation i \<and>
     ol_owner_principal l = ''orchestrator:'' @ au_run_id i \<and> now < ol_lease_expires_at l \<and>
     ol_fence_sha256 l = au_fence_sha256 i)"

definition consumer_fence :: "time \<Rightarrow> marked \<Rightarrow> 'a consumer_authority_scheme \<Rightarrow> bool" where
  "consumer_fence now s i \<longleftrightarrow> run_fence now s i \<and>
     (\<exists>c \<in> set (mk_consumers s). pc_run_id c = au_run_id i \<and> pc_consumer_id c = au_consumer_id i \<and>
        pc_generation c = au_consumer_generation i \<and> pc_status c = ''READY_ACK'')"

lemma first_row_in: "first_row xs = Some x \<Longrightarrow> x \<in> set xs"
  by (auto simp: first_row_def split: list.splits)

lemma authority_rows_in:
  "(r, l) \<in> set (authority_rows s k) \<Longrightarrow> r \<in> set (mk_runs s) \<and> rn_run_id r = k \<and> l \<in> set (mk_orchestrators s) \<and>
     ol_run_id l = k \<and> ol_status l = ''CURRENT''"
  by (auto simp: authority_rows_def)

lemma run_fence_row:
  assumes "assertRunAuthority now (Some (r, l)) i = Inr u" "(r, l) \<in> set (authority_rows s (au_run_id i))"
  shows "run_fence now s i"
  using assms(1) authority_rows_in [OF assms(2)]
  by (auto simp: assertRunAuthority_def run_fence_def split: if_splits intro!: bexI [of _ r] bexI [of _ l])

lemma assertRunAuthority_fence:
  "assertRunAuthority now (first_row (authority_rows s (au_run_id i))) i = Inr u \<Longrightarrow> run_fence now s i"
  by (cases "first_row (authority_rows s (au_run_id i))")
    (auto simp: assertRunAuthority_def [of _ None] intro: run_fence_row dest: first_row_in)

lemma lockConsumerAuthority_fence:
  assumes "lockConsumerAuthority now s i = Inr u"
  shows "consumer_fence now s i"
proof -
  obtain r l c where row: "first_row (consumer_rows s (au_run_id i) (au_consumer_id i)) = Some ((r, l), c)"
    and auth: "assertRunAuthority now (Some (r, l)) i = Inr ()"
    and c: "pc_generation c = au_consumer_generation i" "pc_status c = ''READY_ACK''"
    using assms by (auto simp: lockConsumerAuthority_def Let_def and_then_Inr_iff split: option.splits if_splits prod.splits)
  have "(r, l) \<in> set (authority_rows s (au_run_id i))" "c \<in> set (mk_consumers s)"
    "pc_run_id c = au_run_id i" "pc_consumer_id c = au_consumer_id i"
    using first_row_in [OF row] by (auto simp: consumer_rows_def)
  with auth c show ?thesis by (auto simp: consumer_fence_def intro: run_fence_row)
qed

lemma lockMarkedLease_fence:
  assumes "lockMarkedLease sha256 now s i = Inr u"
  shows "consumer_fence now s i \<and> (\<exists>m \<in> set (mk_messages s). leased_message i m) \<and>
    (\<exists>l \<in> set (mk_leases s). leased_claim i l \<and> cl_token_sha256 l = sha256 (li_claim_token i))"
proof -
  have "lockConsumerAuthority now s i = Inr ()" "find (leased_message i) (mk_messages s) \<noteq> None"
    "\<exists>l. find (leased_claim i) (mk_leases s) = Some l \<and> cl_token_sha256 l = sha256 (li_claim_token i)"
    using assms by (auto simp: lockMarkedLease_def and_then_Inr_iff split: option.splits if_splits)
  then show ?thesis
    using lockConsumerAuthority_fence [of now s i] by (fastforce simp: find_Some_iff dest: nth_mem)
qed

section \<open>Shapes of accepted operations\<close>

lemma claimMarkedE:
  assumes "claimMarkedMessage sha256 locked now token i types s = (s', r)"
  obtains (refused) e where "s' = s" "r = Inl e"
  | (idle) "s' = s" "r = Inr None"
  | (taken) m where "consumer_fence now s i" "m \<in> set (mk_messages s)" "marked_candidate i types m" "\<not> locked (m_id m)"
      "\<And>n. n \<in> set (mk_messages s) \<Longrightarrow> marked_candidate i types n \<Longrightarrow> \<not> locked (m_id n) \<Longrightarrow> fifo_key m \<le> fifo_key n"
      "r = Inr (Some (m, token, next_lease_generation s (m_id m)))"
      "s' = s\<lparr>mk_leases := mk_leases s @ [\<lparr>cl_message_id = m_id m, cl_run_id = au_run_id i, cl_consumer_id = au_consumer_id i,
          cl_consumer_generation = au_consumer_generation i, cl_lease_generation = next_lease_generation s (m_id m),
          cl_token_sha256 = sha256 token, cl_status = ''CURRENT'', cl_claimed_at = now, cl_renewed_at = None, cl_finished_at = None\<rparr>],
        mk_messages := update_where (claim_marked_hit i (m_id m))
          (marked_claimed_row (au_consumer_id i) now (next_lease_generation s (m_id m))) (mk_messages s)\<rparr>"
proof (cases "lockConsumerAuthority now s i")
  case (Inl e)
  with assms show thesis by (intro refused) (auto simp: claimMarkedMessage_def)
next
  case (Inr u)
  note fence = lockConsumerAuthority_fence [OF Inr]
  show thesis
  proof (cases "first_by fifo_key (\<lambda>m. marked_candidate i types m \<and> \<not> locked (m_id m)) (mk_messages s)")
    case None
    with assms Inr show thesis by (intro idle) (auto simp: claimMarkedMessage_def)
  next
    case (Some m)
    show thesis
    proof (cases "count_where (claim_marked_hit i (m_id m)) (mk_messages s) = 1")
      case True
      with assms Inr Some fence first_by_Some [OF Some] first_by_least [OF Some] show thesis
        by (intro taken [of m]) (auto simp: claimMarkedMessage_def Let_def)
    next
      case False
      with assms Inr Some show thesis by (intro refused) (auto simp: claimMarkedMessage_def Let_def)
    qed
  qed
qed

lemma renewMarkedE:
  assumes "renewMarkedMessage sha256 now i s = (s', r)"
  obtains (refused) e where "s' = s" "r = Inl e"
  | (renewed) "lockMarkedLease sha256 now s i = Inr ()" "r = Inr ()"
      "s' = s\<lparr>mk_leases := update_where (current_lease (li_message_id i) (li_lease_generation i)) (\<lambda>l. l\<lparr>cl_renewed_at := Some now\<rparr>) (mk_leases s)\<rparr>"
proof (cases "lockMarkedLease sha256 now s i")
  case (Inl e)
  then have "s' = s" "r = Inl e" using assms by (simp_all add: renewMarkedMessage_def)
  then show thesis by (rule refused)
next
  case (Inr u)
  show thesis
  proof (cases "count_where (current_lease (li_message_id i) (li_lease_generation i)) (mk_leases s) = 1")
    case True
    with assms Inr show thesis by (intro renewed) (auto simp: renewMarkedMessage_def Let_def)
  next
    case False
    with assms Inr show thesis by (intro refused) (auto simp: renewMarkedMessage_def Let_def)
  qed
qed

lemma cancel_targetD:
  assumes "cancel_target i k st s = Inr m"
  shows "m \<in> set (mk_messages s) \<and> m_id m = k \<and> ppe_protocol m \<noteq> None \<and> m_status m = st \<and> ppe_run_id m = Some (au_run_id i) \<and>
    ppe_to_consumer_id m = Some (au_consumer_id i) \<and> ppe_consumer_generation m = Some (au_consumer_generation i)"
  using assms by (auto simp: cancel_target_def find_Some_iff split: option.splits if_splits dest: nth_mem)

lemma cancelPendingE:
  assumes "cancelMarkedMessage sha256 now (CancelPending i k) s = (s', r)"
  obtains (refused) e where "s' = s" "r = Inl e"
  | (cancelled) m where "consumer_fence now s i" "cancel_target i k MPending s = Inr m" "ppe_lease_generation m = None" "r = Inr ()"
      "s' = s\<lparr>mk_messages := update_where (\<lambda>m. m_id m = k \<and> m_status m = MPending \<and> ppe_lease_generation m = None) (cancelled_row now) (mk_messages s)\<rparr>"
proof (cases "lockConsumerAuthority now s i")
  case (Inl e)
  then have "s' = s" "r = Inl e" using assms by (simp_all add: cancelMarkedMessage_def)
  then show thesis by (rule refused)
next
  case (Inr u)
  note fence = lockConsumerAuthority_fence [OF Inr]
  show thesis
  proof (cases "cancel_target i k MPending s")
    case (Inl e)
    with assms Inr show thesis by (intro refused) (auto simp: cancelMarkedMessage_def)
  next
    case m: (Inr m)
    show thesis
    proof (cases "ppe_lease_generation m = None \<and>
        count_where (\<lambda>m. m_id m = k \<and> m_status m = MPending \<and> ppe_lease_generation m = None) (mk_messages s) = 1")
      case True
      with assms Inr m fence show thesis by (intro cancelled [of m]) (auto simp: cancelMarkedMessage_def Let_def)
    next
      case False
      have "s' = s \<and> (\<exists>e. r = Inl e)"
        using assms Inr m False by (cases "ppe_lease_generation m") (auto simp: cancelMarkedMessage_def Let_def)
      then show thesis using refused by blast
    qed
  qed
qed

lemma cancelClaimedE:
  assumes "cancelMarkedMessage sha256 now (CancelClaimed i) s = (s', r)"
  obtains (refused) e where "s' = s" "r = Inl e"
  | (cancelled) m where "lockMarkedLease sha256 now s i = Inr ()" "cancel_target i (li_message_id i) MClaimed s = Inr m"
      "ppe_lease_generation m = Some (li_lease_generation i)" "r = Inr ()"
      "s' = s\<lparr>mk_leases := update_where (current_lease (li_message_id i) (li_lease_generation i))
            (\<lambda>l. l\<lparr>cl_status := ''CANCELLED'', cl_finished_at := Some now\<rparr>) (mk_leases s),
          mk_messages := update_where (\<lambda>m. m_id m = li_message_id i \<and> m_status m = MClaimed \<and> ppe_lease_generation m = Some (li_lease_generation i))
            (cancelled_row now) (mk_messages s)\<rparr>"
proof (cases "lockConsumerAuthority now s i")
  case (Inl e)
  then have "s' = s" "r = Inl e" using assms by (simp_all add: cancelMarkedMessage_def)
  then show thesis by (rule refused)
next
  case (Inr u)
  show thesis
  proof (cases "cancel_target i (li_message_id i) MClaimed s")
    case (Inl e)
    with assms Inr show thesis by (intro refused) (auto simp: cancelMarkedMessage_def)
  next
    case m: (Inr m)
    show thesis
    proof (cases "ppe_lease_generation m = Some (li_lease_generation i) \<and> lockMarkedLease sha256 now s i = Inr () \<and>
        count_where (current_lease (li_message_id i) (li_lease_generation i)) (mk_leases s) = 1 \<and>
        count_where (\<lambda>m. m_id m = li_message_id i \<and> m_status m = MClaimed \<and> ppe_lease_generation m = Some (li_lease_generation i)) (mk_messages s) = 1")
      case True
      with assms Inr m show thesis by (intro cancelled [of m]) (auto simp: cancelMarkedMessage_def Let_def)
    next
      case False
      have "s' = s \<and> (\<exists>e. r = Inl e)"
      proof (cases "ppe_lease_generation m = Some (li_lease_generation i)")
        case g: True
        show ?thesis
        proof (cases "lockMarkedLease sha256 now s i")
          case (Inl e)
          then have "s' = s" "r = Inl e" using assms Inr m g by (simp_all add: cancelMarkedMessage_def)
          then show ?thesis by blast
        next
          case lock: (Inr u)
          then show ?thesis using assms Inr m g False by (auto simp: cancelMarkedMessage_def Let_def)
        qed
      qed (use assms Inr m in \<open>auto simp: cancelMarkedMessage_def\<close>)
      then show thesis using refused by blast
    qed
  qed
qed

lemma registerE:
  assumes "registerMarkedConsumer now cid i s = (s', r)"
  obtains (refused) e where "s' = s" "r = Inl e"
  | (replay) c where "run_fence now s i" "c \<in> set (mk_consumers s)" "same_registration c i"
      "pc_operation_key c = ri_operation_key i" "s' = s" "r = Inr c"
  | (registered) c where "run_fence now s i" "ri_generation i \<noteq> 4"
      "ri_operation_key i \<notin> pc_operation_key ` set (mk_consumers s)"
      "generation_refusal (prior_consumer s (au_run_id i) (ri_lane i)) (ri_generation i) = None"
      "find (intent_ready cid) (mk_consumers s @ [intent_row cid i]) = Some c" "r = Inr (ready_row now c)"
      "s' = s\<lparr>mk_consumers := update_where (intent_ready cid) (ready_row now) (mk_consumers s @ [intent_row cid i])\<rparr>"
proof -
  consider (bad) "\<exists>e. registerMarkedConsumer now cid i s = (s, Inl e)"
    | (ok) "ri_generation i \<noteq> 4" "assertRunAuthority now (first_row (authority_rows s (au_run_id i))) i = Inr ()"
  proof (cases "ri_generation i = 4")
    case True
    then have "registerMarkedConsumer now cid i s = (s, Inl PPE_CONSUMER_GENERATION_EXHAUSTED)"
      by (simp add: registerMarkedConsumer_def)
    then show thesis by (intro bad exI)
  next
    case False
    show thesis
    proof (cases "assertRunAuthority now (first_row (authority_rows s (au_run_id i))) i")
      case (Inl e)
      with False have "registerMarkedConsumer now cid i s = (s, Inl e)" by (simp add: registerMarkedConsumer_def)
      then show thesis by (intro bad exI)
    next
      case (Inr u)
      with False show thesis by (intro ok) simp_all
    qed
  qed
  then show thesis
  proof cases
    case bad
    then show thesis using assms refused by auto
  next
    case ok
    note fence = assertRunAuthority_fence [OF ok(2)]
    show thesis
    proof (cases "find (\<lambda>c. pc_operation_key c = ri_operation_key i) (mk_consumers s)")
      case (Some c)
      then have c: "c \<in> set (mk_consumers s)" "pc_operation_key c = ri_operation_key i"
        by (auto simp: find_Some_iff dest: nth_mem)
      show thesis
      proof (cases "same_registration c i")
        case True
        with assms ok Some c fence show thesis by (intro replay [of c]) (auto simp: registerMarkedConsumer_def)
      next
        case False
        with assms ok Some show thesis by (intro refused) (auto simp: registerMarkedConsumer_def)
      qed
    next
      case None
      then have new: "ri_operation_key i \<notin> pc_operation_key ` set (mk_consumers s)" by (auto simp: find_None_iff)
      show thesis
      proof (cases "generation_refusal (prior_consumer s (au_run_id i) (ri_lane i)) (ri_generation i)")
        case (Some e)
        with assms ok None show thesis by (intro refused) (auto simp: registerMarkedConsumer_def)
      next
        case gen: None
        have "intent_ready cid (intent_row cid i)" by (simp add: intent_ready_def intent_row_def)
        then have "find (intent_ready cid) (mk_consumers s @ [intent_row cid i]) \<noteq> None"
          by (simp add: find_None_iff) blast
        then obtain c where c: "find (intent_ready cid) (mk_consumers s @ [intent_row cid i]) = Some c" by blast
        with assms ok None gen new fence show thesis
          by (intro registered [of c]) (auto simp: registerMarkedConsumer_def insert_ready_def Let_def)
      qed
    qed
  qed
qed

section \<open>The operations together\<close>

datatype marked_action =
    Register id register_input
  | ClaimMarked "id \<Rightarrow> bool" string consumer_authority "string list"
  | Renew lease_input
  | Cancel cancel_input

definition marked_step :: "(string \<Rightarrow> string) \<Rightarrow> time \<Rightarrow> marked_action \<Rightarrow> marked \<Rightarrow> marked \<times> bool" where
  "marked_step sha256 now a s = (case a of
       Register cid i \<Rightarrow> (case registerMarkedConsumer now cid i s of (s', r) \<Rightarrow> (s', r \<in> range Inr))
     | ClaimMarked locked token i types \<Rightarrow> (case claimMarkedMessage sha256 locked now token i types s of (s', r) \<Rightarrow> (s', r \<in> range Inr))
     | Renew i \<Rightarrow> (case renewMarkedMessage sha256 now i s of (s', r) \<Rightarrow> (s', r \<in> range Inr))
     | Cancel i \<Rightarrow> (case cancelMarkedMessage sha256 now i s of (s', r) \<Rightarrow> (s', r \<in> range Inr)))"

text \<open>The fence each operation must pass.\<close>

definition passes_fence :: "(string \<Rightarrow> string) \<Rightarrow> time \<Rightarrow> marked_action \<Rightarrow> marked \<Rightarrow> bool" where
  "passes_fence sha256 now a s \<longleftrightarrow> (case a of
       Register cid i \<Rightarrow> run_fence now s i
     | ClaimMarked locked token i types \<Rightarrow> consumer_fence now s i
     | Renew i \<Rightarrow> consumer_fence now s i \<and> (\<exists>m \<in> set (mk_messages s). leased_message i m) \<and>
         (\<exists>l \<in> set (mk_leases s). leased_claim i l \<and> cl_token_sha256 l = sha256 (li_claim_token i))
     | Cancel (CancelPending i k) \<Rightarrow> consumer_fence now s i \<and>
         (\<exists>m \<in> set (mk_messages s). m_id m = k \<and> m_status m = MPending \<and> ppe_lease_generation m = None \<and>
            ppe_to_consumer_id m = Some (au_consumer_id i))
     | Cancel (CancelClaimed i) \<Rightarrow> consumer_fence now s i \<and> (\<exists>m \<in> set (mk_messages s). leased_message i m) \<and>
         (\<exists>l \<in> set (mk_leases s). leased_claim i l \<and> cl_token_sha256 l = sha256 (li_claim_token i)))"

text \<open>
  C12. No operation of the marked route has an effect without its fences: a refused call leaves the whole state
  as it was; an accepted one was made under an active run with the current, unexpired orchestrator lease
  and its fence hash, for a claim by a ready consumer of the right generation, and for a renewal or the
  cancellation of a claimed message with the token of the current lease. And whatever happens, every message
  without markers stays exactly as it is.
\<close>

theorem marked_route_fenced:
  assumes "marked_step sha256 now a s = (s', ok)" and "distinct (map m_id (mk_messages s))"
  shows "(\<not> ok \<longrightarrow> s' = s) \<and> (ok \<longrightarrow> passes_fence sha256 now a s) \<and>
    (\<forall>m \<in> set (mk_messages s). legacy m \<longrightarrow> m \<in> set (mk_messages s'))"
proof -
  have keep: "m \<in> set (update_where p f (mk_messages s))" if "m \<in> set (mk_messages s)" "legacy m" "\<And>x. x \<in> set (mk_messages s) \<Longrightarrow> p x \<Longrightarrow> \<not> legacy x" for m p f
  proof -
    have "\<not> p m" using that by blast
    then show ?thesis using that(1) by (force simp: set_update_where image_iff)
  qed
  show ?thesis
  proof (cases a)
    case (Register cid i)
    obtain r where r: "registerMarkedConsumer now cid i s = (s', r)" "ok \<longleftrightarrow> r \<in> range Inr"
      using assms(1) by (auto simp: marked_step_def Register split: prod.splits)
    from r(1) show ?thesis by (rule registerE) (auto simp: r(2) Register passes_fence_def)
  next
    case (ClaimMarked locked token i types)
    obtain r where r: "claimMarkedMessage sha256 locked now token i types s = (s', r)" "ok \<longleftrightarrow> r \<in> range Inr"
      using assms(1) by (auto simp: marked_step_def ClaimMarked split: prod.splits)
    from r(1) show ?thesis
    proof (rule claimMarkedE)
      assume "s' = s" "r = Inr None"
      moreover from this r(1) have "consumer_fence now s i"
        by (cases "lockConsumerAuthority now s i")
          (auto simp: claimMarkedMessage_def intro: lockConsumerAuthority_fence)
      ultimately show ?thesis by (simp add: r(2) ClaimMarked passes_fence_def)
    next
      fix m
      assume "consumer_fence now s i" "r = Inr (Some (m, token, next_lease_generation s (m_id m)))"
        and s': "s' = s\<lparr>mk_leases := mk_leases s @ [\<lparr>cl_message_id = m_id m, cl_run_id = au_run_id i, cl_consumer_id = au_consumer_id i,
          cl_consumer_generation = au_consumer_generation i, cl_lease_generation = next_lease_generation s (m_id m),
          cl_token_sha256 = sha256 token, cl_status = ''CURRENT'', cl_claimed_at = now, cl_renewed_at = None, cl_finished_at = None\<rparr>],
        mk_messages := update_where (claim_marked_hit i (m_id m))
          (marked_claimed_row (au_consumer_id i) now (next_lease_generation s (m_id m))) (mk_messages s)\<rparr>"
      then show ?thesis by (auto simp: r(2) ClaimMarked passes_fence_def intro!: keep) (simp add: claim_marked_hit_def legacy_def)
    qed (simp_all add: r(2) image_iff)
  next
    case (Renew i)
    obtain r where r: "renewMarkedMessage sha256 now i s = (s', r)" "ok \<longleftrightarrow> r \<in> range Inr"
      using assms(1) by (auto simp: marked_step_def Renew split: prod.splits)
    from r(1) show ?thesis
      by (rule renewMarkedE) (auto simp: r(2) Renew passes_fence_def dest: lockMarkedLease_fence)
  next
    case (Cancel c)
    obtain r where r: "cancelMarkedMessage sha256 now c s = (s', r)" "ok \<longleftrightarrow> r \<in> range Inr"
      using assms(1) by (auto simp: marked_step_def Cancel split: prod.splits)
    show ?thesis
    proof (cases c)
      case (CancelPending i k)
      from r(1) [unfolded CancelPending] show ?thesis
      proof (rule cancelPendingE)
        fix m assume a: "consumer_fence now s i" "cancel_target i k MPending s = Inr m" "ppe_lease_generation m = None" "r = Inr ()"
          and s': "s' = s\<lparr>mk_messages := update_where (\<lambda>m. m_id m = k \<and> m_status m = MPending \<and> ppe_lease_generation m = None) (cancelled_row now) (mk_messages s)\<rparr>"
        note m = cancel_targetD [OF a(2)]
        have "x = m" if "x \<in> set (mk_messages s)" "m_id x = k" for x
          using that m assms(2) by (metis distinct_map inj_on_def)
        then have "x \<in> set (mk_messages s) \<Longrightarrow> m_id x = k \<Longrightarrow> \<not> legacy x" for x using m by (auto simp: legacy_def)
        then show ?thesis using a m by (auto simp: s' r(2) Cancel CancelPending passes_fence_def intro!: keep)
      qed (simp_all add: r(2) image_iff)
    next
      case (CancelClaimed i)
      from r(1) [unfolded CancelClaimed] show ?thesis
      proof (rule cancelClaimedE)
        fix m assume a: "lockMarkedLease sha256 now s i = Inr ()" "r = Inr ()"
          and s': "s' = s\<lparr>mk_leases := update_where (current_lease (li_message_id i) (li_lease_generation i))
            (\<lambda>l. l\<lparr>cl_status := ''CANCELLED'', cl_finished_at := Some now\<rparr>) (mk_leases s),
          mk_messages := update_where (\<lambda>m. m_id m = li_message_id i \<and> m_status m = MClaimed \<and> ppe_lease_generation m = Some (li_lease_generation i))
            (cancelled_row now) (mk_messages s)\<rparr>"
        then show ?thesis using lockMarkedLease_fence [OF a(1)]
          by (auto simp: r(2) Cancel CancelClaimed passes_fence_def legacy_def intro!: keep)
      qed (simp_all add: r(2) image_iff)
    qed
  qed
qed

section \<open>Leases and consumer generations\<close>

text \<open>
  A message has at most one current lease, and the claimed row of that lease carries its generation,
  consumer and consumer generation; the generations of a message's leases differ.
\<close>

definition current :: "claim_lease \<Rightarrow> bool" where
  "current l \<longleftrightarrow> cl_status l = ''CURRENT''"

definition lease_row :: "claim_lease \<Rightarrow> message \<Rightarrow> bool" where
  "lease_row l m \<longleftrightarrow> m_id m = cl_message_id l \<and> m_status m = MClaimed \<and>
     ppe_lease_generation m = Some (cl_lease_generation l) \<and> ppe_to_consumer_id m = Some (cl_consumer_id l) \<and>
     ppe_consumer_generation m = Some (cl_consumer_generation l)"

definition leases_ok :: "marked \<Rightarrow> bool" where
  "leases_ok s \<longleftrightarrow> distinct (map m_id (mk_messages s)) \<and>
     distinct (map cl_message_id (filter current (mk_leases s))) \<and>
     distinct (map (\<lambda>l. (cl_message_id l, cl_lease_generation l)) (mk_leases s)) \<and>
     (\<forall>l \<in> set (mk_leases s). current l \<longrightarrow> (\<exists>m \<in> set (mk_messages s). lease_row l m))"

text \<open>
  The consumers of a lane have different generations between 1 and 3, and all but the latest are retired.
\<close>

definition lanes_ok :: "marked \<Rightarrow> bool" where
  "lanes_ok s \<longleftrightarrow> distinct (map pc_consumer_id (mk_consumers s)) \<and> distinct (map pc_operation_key (mk_consumers s)) \<and>
     (\<forall>c \<in> set (mk_consumers s). 1 \<le> pc_generation c \<and> pc_generation c \<le> 3) \<and>
     (\<forall>c \<in> set (mk_consumers s). \<forall>c' \<in> set (mk_consumers s). pc_run_id c = pc_run_id c' \<longrightarrow> pc_lane c = pc_lane c' \<longrightarrow>
        (pc_generation c = pc_generation c' \<longrightarrow> c = c') \<and> (pc_generation c < pc_generation c' \<longrightarrow> pc_status c = ''RETIRED''))"

text \<open>What the schema of the tool and \<open>randomUUID\<close> give: a generation from 1 to 4, a fresh id.\<close>

definition action_ok :: "marked_action \<Rightarrow> marked \<Rightarrow> bool" where
  "action_ok a s \<longleftrightarrow> (case a of
       Register cid i \<Rightarrow> 1 \<le> ri_generation i \<and> ri_generation i \<le> 4 \<and> cid \<notin> pc_consumer_id ` set (mk_consumers s)
     | _ \<Rightarrow> True)"

lemma fold_max_init: "y \<le> fold max xs (y :: int)"
proof (induction xs arbitrary: y)
  case (Cons a xs)
  have "y \<le> max a y" by simp
  also have "\<dots> \<le> fold max xs (max a y)" by (rule Cons)
  finally show ?case by simp
qed simp

lemma fold_max_ge: "x \<in> set xs \<Longrightarrow> x \<le> fold max xs (y :: int)"
proof (induction xs arbitrary: y)
  case (Cons a xs)
  have "a \<le> fold max xs (max a y)" by (rule order_trans [OF _ fold_max_init]) simp
  with Cons show ?case by auto
qed simp

lemma next_generation_fresh:
  "l \<in> set (mk_leases s) \<Longrightarrow> cl_message_id l = k \<Longrightarrow> cl_lease_generation l < next_lease_generation s k"
proof -
  assume l: "l \<in> set (mk_leases s)" "cl_message_id l = k"
  then have "cl_lease_generation l \<in> set (map cl_lease_generation (filter (\<lambda>l. cl_message_id l = k) (mk_leases s)))" by simp
  from fold_max_ge [OF this, of 0] show ?thesis by (simp add: next_lease_generation_def)
qed

lemma leases_ok_unique_row:
  "leases_ok s \<Longrightarrow> x \<in> set (mk_messages s) \<Longrightarrow> y \<in> set (mk_messages s) \<Longrightarrow> m_id x = m_id y \<Longrightarrow> x = y"
  by (auto simp: leases_ok_def distinct_map inj_on_def)

text \<open>A row whose update is not the row of a current lease.\<close>

lemma current_rows_kept:
  assumes "\<forall>l \<in> set ls. current l \<longrightarrow> (\<exists>m \<in> set ms. lease_row l m)"
    and "\<And>l m. l \<in> set ls' \<Longrightarrow> current l \<Longrightarrow> \<exists>l0 \<in> set ls. current l0 \<and> lease_row l = lease_row l0"
    and "\<And>l m. l \<in> set ls' \<Longrightarrow> current l \<Longrightarrow> m \<in> set ms \<Longrightarrow> lease_row l m \<Longrightarrow> \<not> p m"
  shows "\<forall>l \<in> set ls'. current l \<longrightarrow> (\<exists>m \<in> set (update_where p f ms). lease_row l m)"
proof (intro ballI impI)
  fix l assume l: "l \<in> set ls'" "current l"
  then obtain l0 where "l0 \<in> set ls" "current l0" "lease_row l = lease_row l0" using assms(2) by blast
  then obtain m where m: "m \<in> set ms" "lease_row l m" using assms(1) by auto
  have "\<not> p m" using assms(3) l m by blast
  then have "m \<in> set (update_where p f ms)" using m(1) by (force simp: set_update_where image_iff)
  with m(2) show "\<exists>m \<in> set (update_where p f ms). lease_row l m" by blast
qed

lemma leases_ok_claim:
  assumes ok: "leases_ok s" and m: "m \<in> set (mk_messages s)" "marked_candidate i types m"
  shows "leases_ok (s\<lparr>mk_leases := mk_leases s @ [\<lparr>cl_message_id = m_id m, cl_run_id = au_run_id i, cl_consumer_id = au_consumer_id i,
          cl_consumer_generation = au_consumer_generation i, cl_lease_generation = next_lease_generation s (m_id m),
          cl_token_sha256 = h, cl_status = ''CURRENT'', cl_claimed_at = now, cl_renewed_at = None, cl_finished_at = None\<rparr>],
        mk_messages := update_where (claim_marked_hit i (m_id m))
          (marked_claimed_row (au_consumer_id i) now (next_lease_generation s (m_id m))) (mk_messages s)\<rparr>)"
    (is "leases_ok (s\<lparr>mk_leases := mk_leases s @ [?l], mk_messages := update_where ?hit ?f (mk_messages s)\<rparr>)")
proof -
  have pending: "m_status m = MPending" using m(2) by (simp add: marked_candidate_def)
  have none: "cl_message_id l \<noteq> m_id m" if l: "l \<in> set (mk_leases s)" "current l" for l
  proof
    assume "cl_message_id l = m_id m"
    moreover obtain x where x: "x \<in> set (mk_messages s)" "lease_row l x" using ok l unfolding leases_ok_def by blast
    ultimately have "x = m" using leases_ok_unique_row [OF ok x(1) m(1)] by (simp add: lease_row_def)
    with x(2) pending show False by (simp add: lease_row_def)
  qed
  have hit: "?hit m" using m(2) by (simp add: marked_candidate_def claim_marked_hit_def)
  have row: "?f m \<in> set (update_where ?hit ?f (mk_messages s))" using in_update_where [OF m(1), of ?hit ?f] hit by blast
  have new: "lease_row ?l (?f m)" using m(2) by (simp add: lease_row_def marked_claimed_row_def marked_candidate_def)
  have olds: "\<forall>l \<in> set (mk_leases s). current l \<longrightarrow> (\<exists>x \<in> set (update_where ?hit ?f (mk_messages s)). lease_row l x)"
    by (rule current_rows_kept [of "mk_leases s"])
      (use ok none in \<open>auto simp: leases_ok_def claim_marked_hit_def lease_row_def\<close>)
  have "distinct (map m_id (update_where ?hit ?f (mk_messages s)))"
    using ok by (simp add: leases_ok_def map_update_where marked_claimed_row_def)
  moreover have "m_id m \<notin> cl_message_id ` set (filter current (mk_leases s))"
  proof
    assume "m_id m \<in> cl_message_id ` set (filter current (mk_leases s))"
    then obtain l where "l \<in> set (mk_leases s)" "current l" "cl_message_id l = m_id m" by auto
    with none show False by blast
  qed
  then have "distinct (map cl_message_id (filter current (mk_leases s @ [?l])))"
    using ok by (simp add: leases_ok_def)
  moreover have "distinct (map (\<lambda>l. (cl_message_id l, cl_lease_generation l)) (mk_leases s @ [?l]))"
    using ok next_generation_fresh [of _ s "m_id m"] by (fastforce simp: leases_ok_def)
  ultimately show ?thesis using olds row new by (auto simp: leases_ok_def)
qed

lemma leases_ok_messages:
  assumes ok: "leases_ok s" and "\<And>x. m_id (f x) = m_id x"
    and "\<And>l x. l \<in> set (mk_leases s) \<Longrightarrow> current l \<Longrightarrow> x \<in> set (mk_messages s) \<Longrightarrow> lease_row l x \<Longrightarrow> \<not> p x"
  shows "leases_ok (s\<lparr>mk_messages := update_where p f (mk_messages s)\<rparr>)"
proof -
  have "\<forall>l \<in> set (mk_leases s). current l \<longrightarrow> (\<exists>x \<in> set (update_where p f (mk_messages s)). lease_row l x)"
    by (rule current_rows_kept [of "mk_leases s"]) (use ok assms(3) in \<open>auto simp: leases_ok_def\<close>)
  then show ?thesis using ok assms(2) by (simp add: leases_ok_def map_update_where)
qed

lemma leases_ok_renew:
  assumes "leases_ok s"
  shows "leases_ok (s\<lparr>mk_leases := update_where p (\<lambda>l. l\<lparr>cl_renewed_at := Some now\<rparr>) (mk_leases s)\<rparr>)"
proof -
  have "filter current (update_where p (\<lambda>l. l\<lparr>cl_renewed_at := Some now\<rparr>) (mk_leases s)) =
      update_where p (\<lambda>l. l\<lparr>cl_renewed_at := Some now\<rparr>) (filter current (mk_leases s))"
    by (rule filter_update_where) (simp add: current_def)
  moreover have "\<forall>l \<in> set (update_where p (\<lambda>l. l\<lparr>cl_renewed_at := Some now\<rparr>) (mk_leases s)). current l \<longrightarrow>
      (\<exists>m \<in> set (mk_messages s). lease_row l m)"
  proof (intro ballI impI)
    fix l assume "l \<in> set (update_where p (\<lambda>l. l\<lparr>cl_renewed_at := Some now\<rparr>) (mk_leases s))" "current l"
    then obtain l0 where "l0 \<in> set (mk_leases s)" "l = (if p l0 then l0\<lparr>cl_renewed_at := Some now\<rparr> else l0)"
      by (elim update_whereE)
    moreover from this \<open>current l\<close> have "current l0" "lease_row l = lease_row l0"
      by (auto simp: current_def lease_row_def fun_eq_iff split: if_splits)
    ultimately show "\<exists>m \<in> set (mk_messages s). lease_row l m" using assms by (auto simp: leases_ok_def)
  qed
  ultimately show ?thesis using assms by (simp add: leases_ok_def map_update_where)
qed

lemma leases_ok_cancel:
  assumes "leases_ok s"
  shows "leases_ok (s\<lparr>mk_leases := update_where (current_lease k g) (\<lambda>l. l\<lparr>cl_status := ''CANCELLED'', cl_finished_at := Some now\<rparr>) (mk_leases s),
     mk_messages := update_where (\<lambda>m. m_id m = k \<and> m_status m = MClaimed \<and> ppe_lease_generation m = Some g) (cancelled_row now) (mk_messages s)\<rparr>)"
    (is "leases_ok (s\<lparr>mk_leases := update_where ?hit ?f _, mk_messages := _\<rparr>)")
proof -
  have gone: "filter current (update_where ?hit ?f ls) = filter (\<lambda>l. current l \<and> \<not> ?hit l) ls" for ls
    by (induction ls) (auto simp: current_def)
  have left: "l \<in> set (mk_leases s) \<and> \<not> ?hit l" if "l \<in> set (update_where ?hit ?f (mk_leases s))" "current l" for l
  proof -
    have "l \<in> set (filter current (update_where ?hit ?f (mk_leases s)))" using that by simp
    then show ?thesis unfolding gone by simp
  qed
  have "leases_ok (s\<lparr>mk_leases := update_where ?hit ?f (mk_leases s)\<rparr>)"
  proof -
    have "distinct (map cl_message_id (filter (\<lambda>l. current l \<and> \<not> ?hit l) (mk_leases s)))"
    proof -
      have "filter (\<lambda>l. current l \<and> \<not> ?hit l) (mk_leases s) = filter (\<lambda>l. \<not> ?hit l) (filter current (mk_leases s))"
        by (simp add: conj_commute)
      then show ?thesis using assms by (simp only: leases_ok_def distinct_map_filter)
    qed
    then show ?thesis using assms left by (simp add: leases_ok_def gone map_update_where)
  qed
  from leases_ok_messages [OF this, of "cancelled_row now"
      "\<lambda>m. m_id m = k \<and> m_status m = MClaimed \<and> ppe_lease_generation m = Some g"]
  show ?thesis using left by (fastforce simp: cancelled_row_def lease_row_def current_lease_def current_def)
qed

lemma prior_consumer_max:
  assumes "prior_consumer s run lane = Some p" "c \<in> set (mk_consumers s)" "pc_run_id c = run" "pc_lane c = lane"
  shows "p \<in> set (mk_consumers s) \<and> pc_run_id p = run \<and> pc_lane p = lane \<and> pc_generation c \<le> pc_generation p"
  using first_by_Some [OF assms(1) [unfolded prior_consumer_def]] first_by_least [OF assms(1) [unfolded prior_consumer_def], of c] assms(2-4)
  by simp

lemma lanes_ok_register:
  assumes ok: "lanes_ok s" and fresh: "cid \<notin> pc_consumer_id ` set (mk_consumers s)"
    and key: "ri_operation_key i \<notin> pc_operation_key ` set (mk_consumers s)"
    and gen: "generation_refusal (prior_consumer s (au_run_id i) (ri_lane i)) (ri_generation i) = None"
    and range: "1 \<le> ri_generation i" "ri_generation i \<le> 3"
  shows "lanes_ok (s\<lparr>mk_consumers := update_where (intent_ready cid) (ready_row now) (mk_consumers s @ [intent_row cid i])\<rparr>)"
proof -
  let ?new = "ready_row now (intent_row cid i)"
  have "intent_ready cid (intent_row cid i)" by (simp add: intent_ready_def intent_row_def)
  moreover have "update_where (intent_ready cid) (ready_row now) (mk_consumers s) = mk_consumers s"
    using fresh by (intro update_where_none) (auto simp: intent_ready_def)
  ultimately have eq: "update_where (intent_ready cid) (ready_row now) (mk_consumers s @ [intent_row cid i]) = mk_consumers s @ [?new]"
    by (simp add: update_where_def)
  have fields: "pc_consumer_id ?new = cid" "pc_operation_key ?new = ri_operation_key i" "pc_generation ?new = ri_generation i"
    "pc_run_id ?new = au_run_id i" "pc_lane ?new = ri_lane i"
    by (simp_all add: ready_row_def intent_row_def)
  have older: "pc_generation c < ri_generation i \<and> pc_status c = ''RETIRED''"
    if c: "c \<in> set (mk_consumers s)" "pc_run_id c = au_run_id i" "pc_lane c = ri_lane i" for c
  proof (cases "prior_consumer s (au_run_id i) (ri_lane i)")
    case None
    with c show ?thesis by (auto simp: prior_consumer_def first_by_None)
  next
    case (Some p)
    note max = prior_consumer_max [OF Some c]
    have p: "pc_generation p + 1 = ri_generation i" "pc_status p = ''RETIRED''"
      using gen Some by (auto simp: generation_refusal_def split: if_splits)
    have "pc_status c = ''RETIRED''"
    proof (cases "pc_generation c = pc_generation p")
      case True
      then have "c = p" using ok max c by (auto simp: lanes_ok_def)
      then show ?thesis using p by simp
    next
      case False
      then have "pc_generation c < pc_generation p" using max by simp
      then show ?thesis using ok max c by (auto simp: lanes_ok_def)
    qed
    then show ?thesis using max p by simp
  qed
  have d: "distinct (map pc_consumer_id (mk_consumers s @ [?new]))" "distinct (map pc_operation_key (mk_consumers s @ [?new]))"
    using ok fresh key by (simp_all add: lanes_ok_def fields)
  have g: "\<forall>c \<in> set (mk_consumers s @ [?new]). 1 \<le> pc_generation c \<and> pc_generation c \<le> 3"
    using ok range by (simp add: lanes_ok_def fields)
  have pair: "(pc_generation c = pc_generation c' \<longrightarrow> c = c') \<and> (pc_generation c < pc_generation c' \<longrightarrow> pc_status c = ''RETIRED'')"
    if "c \<in> set (mk_consumers s @ [?new])" "c' \<in> set (mk_consumers s @ [?new])" "pc_run_id c = pc_run_id c'" "pc_lane c = pc_lane c'" for c c'
  proof -
    have cs: "c \<in> set (mk_consumers s) \<or> c = ?new" "c' \<in> set (mk_consumers s) \<or> c' = ?new" using that(1,2) by auto
    show ?thesis
    proof (cases "c = ?new")
      case True
      then show ?thesis using cs(2) older [of c'] that(3,4) by (auto simp: fields)
    next
      case False
      then have c: "c \<in> set (mk_consumers s)" using cs(1) by blast
      show ?thesis
      proof (cases "c' = ?new")
        case True
        then show ?thesis using older [OF c] that(3,4) by (auto simp: fields)
      next
        case False
        then show ?thesis using ok c cs(2) that(3,4) by (auto simp: lanes_ok_def)
      qed
    qed
  qed
  have "lanes_ok t" if "mk_consumers t = mk_consumers s @ [?new]" for t
    unfolding lanes_ok_def that using d g pair by blast
  then show ?thesis unfolding eq by simp
qed

lemma lanes_ok_frame [simp]:
  "lanes_ok (s\<lparr>mk_leases := ls\<rparr>) = lanes_ok s" "lanes_ok (s\<lparr>mk_messages := ms\<rparr>) = lanes_ok s"
  by (simp_all add: lanes_ok_def)

lemma leases_ok_frame [simp]: "leases_ok (s\<lparr>mk_consumers := cs\<rparr>) = leases_ok s"
  by (simp add: leases_ok_def)


end
