(* ===== verification/Queue_History.thy ===== *)
theory Queue_History
  imports Queue_Receive Queue_Finish Queue_Archive Queue_Push
begin

text \<open>
  The ordinary tools of the queue together: several processes, each with a lease register of its own, work on
  one table. An action is one transaction of one process; a history is a sequence of actions at
  non-decreasing times. The theory reduces every action to what it does to a single row.
\<close>

section \<open>Actions\<close>

datatype queue_action =
    Push push_env db id push_input
  | Next "string \<times> string" attempt
  | Cancel_Next id
  | Ack_Reply "id \<Rightarrow> bool" "string \<times> string" "id list"
  | Refresh "id \<Rightarrow> bool" id
  | Sweep "id \<Rightarrow> bool"
  | Done id id "string option" "string option"
  | Fail id string "string option"
  | Archive id
  | Unarchive id
  | Restart

text \<open>
  \<open>Cancel_Next\<close> is the end of a \<open>queue_next\<close> cancelled after its claim, \<open>Refresh\<close> the turn of one register
  entry in \<open>refreshQueueLeases\<close>, \<open>Restart\<close> a new incarnation of the process.
\<close>

fun exec :: "queue_env \<Rightarrow> time \<Rightarrow> queue_action \<Rightarrow> queue \<Rightarrow> queue" where
  "exec env now (Push pe d newId inp) q = fst (queue_push pe d newId now inp q)"
| "exec env now (Next self a) q = fst (tryClaim env self (a\<lparr>at_now := now\<rparr>) q)"
| "exec env now (Cancel_Next k) q = (case getLease q k of None \<Rightarrow> q
     | Some l \<Rightarrow> fst (rollbackQueueClaim k (l_claimedBy l) (releaseLease k q)))"
| "exec env now (Ack_Reply locked self ids) q =
     fst (claimNextReply env locked now (fst self) (snd self) ids (''mcp:'' @ instance_id env) q)"
| "exec env now (Refresh reachable k) q = (case getLease q k of None \<Rightarrow> q
     | Some l \<Rightarrow> refresh_one reachable now (k, l_claimToken l, l_claimedBy l) q)"
| "exec env now (Sweep locked) q = fst (sweepStaleQueueClaims env locked now q)"
| "exec env now (Done newId k reply token) q = fst (queue_done env newId now k reply token q)"
| "exec env now (Fail k err token) q = fst (queue_fail env now k err token q)"
| "exec env now (Archive k) q = fst (queue_archive env now k q)"
| "exec env now (Unarchive k) q = fst (queue_unarchive env now k q)"
| "exec env now Restart q = clearLeases q"

text \<open>A tick of \<open>refreshQueueLeases\<close> is the sequence of the turns of its entries.\<close>

lemma refresh_one_leases:
  "k \<noteq> fst e \<Longrightarrow> map_of (leases (refresh_one reachable now e q)) k = map_of (leases q) k"
  by (cases e) (simp add: refresh_one_def releaseLease_def delete_conv')

lemma refresh_is_turns:
  assumes "distinct (map fst (leases q))"
  shows "refreshQueueLeases reachable now q = fold (\<lambda>k q. exec env now (Refresh reachable k) q) (map fst (leases q)) q"
proof -
  have "fold (refresh_one reachable now) (map (\<lambda>(k, l). (k, l_claimToken l, l_claimedBy l)) ls) q =
      fold (\<lambda>k q. exec env now (Refresh reachable k) q) (map fst ls) q"
    if "distinct (map fst ls)" "\<And>k l. (k, l) \<in> set ls \<Longrightarrow> map_of (leases q) k = Some l" for ls
    using that
  proof (induction ls arbitrary: q)
    case (Cons e ls)
    obtain k l where e: "e = (k, l)" by (cases e)
    then have "getLease q k = Some l" using Cons.prems(2) by (simp add: getLease_def)
    moreover have "map_of (leases (refresh_one reachable now (k, l_claimToken l, l_claimedBy l) q)) k' = Some l'"
      if "(k', l') \<in> set ls" for k' l'
    proof -
      have "k' \<noteq> k" using that Cons.prems(1) e by (force simp: image_iff)
      then show ?thesis using Cons.prems(2) that by (simp add: refresh_one_leases)
    qed
    ultimately show ?case using Cons.IH Cons.prems(1) e by simp
  qed simp
  from this [of "leases q"] show ?thesis
    using assms map_of_is_SomeI [OF assms] by (simp add: refreshQueueLeases_def leaseEntries_def)
qed

section \<open>What an action does to a row\<close>

text \<open>The register entry of the acting process covers the claim of the row.\<close>

definition own_claim :: "queue \<Rightarrow> message \<Rightarrow> bool" where
  "own_claim q m \<longleftrightarrow> (\<exists>l. getLease q (m_id m) = Some l \<and> m_status m = MClaimed \<and> m_claimed_by m = Some (l_claimedBy l))"

inductive row_step :: "queue_env \<Rightarrow> time \<Rightarrow> queue \<Rightarrow> queue_action \<Rightarrow> message \<Rightarrow> message \<Rightarrow> bool" for env now q where
  same: "row_step env now q a m m"
| claim: "request_target env now (fst self) (snd self) m \<Longrightarrow>
    row_step env now q (Next self at) m (claimed_row (claimed_by_text env (at_token at)) now m)"
| ack: "reply_target env now (fst self) (snd self) ids m \<Longrightarrow>
    row_step env now q (Ack_Reply locked self ids) m (acked_row w now m)"
| give_back: "own_claim q m \<Longrightarrow> row_step env now q (Cancel_Next (m_id m)) m (requeued_row m)"
| refresh: "own_claim q m \<Longrightarrow> row_step env now q (Refresh reachable (m_id m)) m (m\<lparr>m_claimed_at := Some now\<rparr>)"
| sweep: "stale_claim env now m \<Longrightarrow> row_step env now q (Sweep locked) m (requeued_row m)"
| finish: "m_status m \<notin> set (QUEUE_TERMINAL_STATUSES (vocab env)) \<Longrightarrow> may_finish q m token \<Longrightarrow>
    row_step env now q (Done k (m_id m) reply token) m (done_row now m)"
| failing: "m_status m \<notin> set (QUEUE_TERMINAL_STATUSES (vocab env)) \<Longrightarrow> may_finish q m token \<Longrightarrow>
    row_step env now q (Fail (m_id m) err token) m (failed_row err now m)"
| archiving: "terminal env m \<Longrightarrow> row_step env now q (Archive k) m (m\<lparr>m_archived_at := Some now\<rparr>)"
| unarchiving: "row_step env now q (Unarchive k) m (m\<lparr>m_archived_at := None\<rparr>)"

inductive_cases row_stepE: "row_step env now q a m m'"

text \<open>The rows an action adds: a pushed message, or the reply to the request it finishes.\<close>

definition fresh_row :: "queue_env \<Rightarrow> time \<Rightarrow> queue \<Rightarrow> queue_action \<Rightarrow> message \<Rightarrow> bool" where
  "fresh_row env now q a r \<longleftrightarrow> (case a of
       Push pe d newId inp \<Rightarrow> m_id r = newId \<and> m_in_reply_to r = None \<and> m_status r = MPending \<and> legacy r
     | Done newId k reply token \<Rightarrow> (\<exists>m body. finishable env q k token = Inr m \<and> r = reply_row env newId now m body)
     | _ \<Rightarrow> False)"

text \<open>Every action maps the rows one by one and appends at most one.\<close>

definition row_wise :: "queue_env \<Rightarrow> time \<Rightarrow> queue \<Rightarrow> queue_action \<Rightarrow> queue \<Rightarrow> bool" where
  "row_wise env now q a q' \<longleftrightarrow> (\<exists>f new. messages q' = map f (messages q) @ new \<and>
     (\<forall>m \<in> set (messages q). row_step env now q a m (f m)) \<and>
     (new = [] \<or> (\<exists>r. new = [r] \<and> fresh_row env now q a r \<and>
        (\<forall>k. m_in_reply_to r = Some k \<longrightarrow> (\<forall>m \<in> set (messages q). m_id m = k \<longrightarrow> legacy m \<longrightarrow> f m = done_row now m)))))"

lemma row_wise_update:
  assumes "messages q' = update_where p f (messages q)"
    and "\<And>m. m \<in> set (messages q) \<Longrightarrow> p m \<Longrightarrow> row_step env now q a m (f m)"
  shows "row_wise env now q a q'"
proof -
  have "row_step env now q a m (if p m then f m else m)" if "m \<in> set (messages q)" for m
    using assms(2) that row_step.same by simp
  moreover have "messages q' = map (\<lambda>m. if p m then f m else m) (messages q) @ []" using assms(1) by (simp add: update_where_def)
  ultimately show ?thesis unfolding row_wise_def by blast
qed

lemma row_wise_same: "messages q' = messages q \<Longrightarrow> row_wise env now q a q'"
  by (rule row_wise_update [of _ "\<lambda>_. False" id]) (simp_all add: update_where_def)

lemma unique_row:
  "distinct_messages q \<Longrightarrow> m \<in> set (messages q) \<Longrightarrow> x \<in> set (messages q) \<Longrightarrow> m_id x = m_id m \<Longrightarrow> x = m"
  by (auto simp: distinct_messages_def distinct_map inj_on_def)

lemma finishable_row:
  "distinct_messages q \<Longrightarrow> finishable env q k token = Inr m \<Longrightarrow> x \<in> set (messages q) \<Longrightarrow> m_id x = k \<Longrightarrow>
     x = m \<and> m_status x \<notin> set (QUEUE_TERMINAL_STATUSES (vocab env)) \<and> may_finish q x token"
proof -
  assume a: "distinct_messages q" "finishable env q k token = Inr m" "x \<in> set (messages q)" "m_id x = k"
  have f: "find_message k q = Some m" and m: "m_status m \<notin> set (QUEUE_TERMINAL_STATUSES (vocab env))" "may_finish q m token"
    using a(2) by (simp_all add: finishable_iff)
  have "x = m" using unique_row [OF a(1) _ a(3), of m] find_message_Some [OF f] a(4) by simp
  with m show ?thesis by simp
qed

theorem exec_row_wise:
  assumes d: "distinct_messages q" and push: "\<And>pe db k inp. a = Push pe db k inp \<Longrightarrow> k \<notin> m_id ` set (messages q)"
    and done_id: "\<And>k' k r t. a = Done k' k r t \<Longrightarrow> k' \<notin> m_id ` set (messages q)"
  shows "row_wise env now q a (exec env now a q)"
proof (cases a)
  case (Push pe db k inp)
  obtain q' r where p: "queue_push pe db k now inp q = (q', r)" by fastforce
  show ?thesis
  proof (cases r)
    case (Inl e)
    then have "q' = q" using p by (auto simp: queue_push_def Let_def envelopeOf_def assertLegacyQueueRow_def new_message_def legacy_def
        split: sum.splits prod.splits)
    then show ?thesis using p by (simp add: Push row_wise_same)
  next
    case (Inr x)
    then obtain from' dest meta where m: "messages q' = messages q @ [new_message k now from' dest inp meta]"
      using p by (auto simp: queue_push_def Let_def emitQueueNotifyBestEffort_def split: sum.splits prod.splits)
    show ?thesis unfolding row_wise_def
      by (rule exI [of _ id], rule exI [of _ "[new_message k now from' dest inp meta]"])
        (use p m in \<open>auto simp: Push fresh_row_def new_message_def legacy_def intro: row_step.same\<close>)
  qed
next
  case (Next self at)
  show ?thesis
  proof (cases rule: claimNextRequest_cases [of env "at_locked at" now "fst self" "snd self" "claimed_by_text env (at_token at)" q])
    case idle
    then show ?thesis by (simp add: Next tryClaim_def Let_def row_wise_same)
  next
    case (taken m)
    have "row_step env now q (Next self at) x (claimed_row (claimed_by_text env (at_token at)) now x)"
      if "x \<in> set (messages q)" "m_id x = m_id m" for x
      using unique_row [OF d taken(1) that] taken(2) by (auto intro: row_step.claim)
    then show ?thesis using taken(5)
      by (intro row_wise_update [of _ "\<lambda>x. m_id x = m_id m"]) (simp_all add: Next tryClaim_def Let_def)
  qed
next
  case (Cancel_Next k)
  show ?thesis
  proof (cases "getLease q k")
    case None
    then show ?thesis by (simp add: Cancel_Next row_wise_same)
  next
    case (Some l)
    have own: "row_step env now q (Cancel_Next k) m (requeued_row m)" if "owned_claim k (l_claimedBy l) m" for m
      using that Some row_step.give_back [of q m env now] by (auto simp: own_claim_def owned_claim_def)
    show ?thesis
    proof (cases rule: rollback_cases [of k "l_claimedBy l" "releaseLease k q"])
      case gone
      then show ?thesis using Some by (simp add: Cancel_Next row_wise_same)
    next
      case (requeued m)
      show ?thesis using Some requeued(3) own
        by (intro row_wise_update [of _ "owned_claim k (l_claimedBy l)"]) (simp_all add: Cancel_Next)
    qed
  qed
next
  case (Ack_Reply locked self ids)
  show ?thesis
  proof (cases rule: claimNextReply_cases [of env locked now "fst self" "snd self" ids "''mcp:'' @ instance_id env" q])
    case idle
    then show ?thesis by (simp add: Ack_Reply row_wise_same)
  next
    case (taken m)
    have "row_step env now q (Ack_Reply locked self ids) x (acked_row (''mcp:'' @ instance_id env) now x)"
      if "x \<in> set (messages q)" "m_id x = m_id m" for x
      using unique_row [OF d taken(1) that] taken(2) by (auto intro: row_step.ack)
    then show ?thesis using taken(4)
      by (intro row_wise_update [of _ "\<lambda>x. m_id x = m_id m"]) (simp_all add: Ack_Reply)
  qed
next
  case (Refresh reachable k)
  show ?thesis
  proof (cases "getLease q k")
    case None
    then show ?thesis by (simp add: Refresh row_wise_same)
  next
    case (Some l)
    have "row_step env now q (Refresh reachable k) m (m\<lparr>m_claimed_at := Some now\<rparr>)" if "owned_claim k (l_claimedBy l) m" for m
      using that Some row_step.refresh [of q m env now reachable] by (auto simp: own_claim_def owned_claim_def)
    then show ?thesis using Some
      by (auto simp: Refresh refresh_one_def intro: row_wise_same row_wise_update [of _ "owned_claim k (l_claimedBy l)"])
  qed
next
  case (Sweep locked)
  have "row_step env now q (Sweep locked) m (requeued_row m)"
    if "m \<in> set (messages q)" "m_id m \<in> m_id ` set (sweep_targets env locked now q)" for m
    using that unique_row [OF d, of _ m] by (auto intro!: row_step.sweep)
  then show ?thesis
    by (intro row_wise_update [of _ "\<lambda>m. m_id m \<in> m_id ` set (sweep_targets env locked now q)"]) (simp_all add: Sweep sweep_eq Let_def)
next
  case (Done k' k reply token)
  obtain q' r where p: "queue_done env k' now k reply token q = (q', r)" by fastforce
  have fin: "row_step env now q (Done k' k reply token) x (done_row now x)"
    if "finishable env q k token = Inr m" "x \<in> set (messages q)" "m_id x = k" for x m
    using finishable_row [OF d that] row_step.finish [of x env q token now k' reply] that(3) by auto
  from p show ?thesis
  proof (rule queue_doneE)
    fix m body
    assume a: "finishable env q k token = Inr m"
      "messages q' = update_where (\<lambda>m. m_id m = k \<and> legacy m) (done_row now) (messages q @ [reply_row env k' now m body])"
    have k: "m_id m = k" "k' \<noteq> k" using a(1) done_id [OF Done] by (auto simp: finishable_iff dest: find_message_Some)
    show ?thesis unfolding row_wise_def
      by (rule exI [of _ "\<lambda>m. if m_id m = k \<and> legacy m then done_row now m else m"], rule exI [of _ "[reply_row env k' now m body]"])
        (use p a fin [OF a(1)] k in \<open>auto simp: Done update_where_def fresh_row_def intro: row_step.same\<close>)
  next
    fix m assume a: "finishable env q k token = Inr m"
      "messages q' = update_where (\<lambda>m. m_id m = k \<and> legacy m) (done_row now) (messages q)"
    show ?thesis using p a fin [OF a(1)] by (auto simp: Done intro: row_wise_update)
  qed (use p in \<open>simp add: Done row_wise_same\<close>)
next
  case (Fail k err token)
  obtain q' r where p: "queue_fail env now k err token q = (q', r)" by fastforce
  from p show ?thesis
  proof (rule queue_failE)
    fix m assume a: "finishable env q k token = Inr m"
      "messages q' = update_where (\<lambda>m. m_id m = k \<and> legacy m) (failed_row err now) (messages q)"
    have "row_step env now q (Fail k err token) x (failed_row err now x)" if "x \<in> set (messages q)" "m_id x = k" for x
      using finishable_row [OF d a(1) that] row_step.failing [of x env q token now err] that(2) by auto
    then show ?thesis using p a by (auto simp: Fail intro: row_wise_update)
  qed (use p in \<open>simp add: Fail row_wise_same\<close>)
next
  case (Archive k)
  obtain q' r where p: "archiveQueueSubtree env now k q = (q', r)" by fastforce
  have "row_wise env now q a q'"
    using p
  proof (rule archiveE)
    assume k: "k \<in> m_id ` set (messages q)" "\<forall>m \<in> thread q k. terminal env m"
      and q': "q' = q\<lparr>messages := update_where (\<lambda>m. m_id m \<in> m_id ` set (lockSubtree q k) \<and> m_archived_at m = None)
         (\<lambda>m. m\<lparr>m_archived_at := Some now\<rparr>) (messages q)\<rparr>"
    have "row_step env now q a m (m\<lparr>m_archived_at := Some now\<rparr>)"
      if "m \<in> set (messages q)" "m_id m \<in> m_id ` set (lockSubtree q k)" for m
      using that k thread_ids [OF k(1) that(1)] row_step.archiving [of env m now q k] by (simp add: Archive)
    then show ?thesis
      by (intro row_wise_update [of _ "\<lambda>m. m_id m \<in> m_id ` set (lockSubtree q k) \<and> m_archived_at m = None"
          "\<lambda>m. m\<lparr>m_archived_at := Some now\<rparr>"]) (simp_all add: q')
  qed (simp_all add: row_wise_same)
  then show ?thesis using p by (auto simp: Archive queue_archive_def row_wise_same split: sum.splits)
next
  case (Unarchive k)
  obtain q' r where p: "unarchiveQueueSubtree env k q = (q', r)" by fastforce
  have "row_wise env now q a q'"
    using p by (rule unarchiveE) (auto intro: row_wise_same row_wise_update row_step.unarchiving simp: Unarchive)
  then show ?thesis using p by (auto simp: Unarchive queue_unarchive_def row_wise_same split: sum.splits)
next
  case Restart
  then show ?thesis by (simp add: clearLeases_def row_wise_same)
qed

end
