(* ===== verification/Queue_System.thy ===== *)
theory Queue_System
  imports Queue_History
begin

text \<open>
  Long runs of the message queue: processes that share the table and the vocabulary, each with its own lease
  register. A history is built from the actions of \<open>Queue_History\<close> at non-decreasing times, each one fulfilling a
  guard \<open>G\<close> that a theorem may choose; drawn ids and tokens are new.
\<close>

section \<open>Systems and histories\<close>

record system =
  sy_messages :: "message list"
  sy_sent :: "envelope list"
  sy_regs :: "nat \<Rightarrow> (id \<times> queue_lease) list"

definition seen_by :: "nat \<Rightarrow> system \<Rightarrow> queue" where
  "seen_by p s = \<lparr>messages = sy_messages s, sent = sy_sent s, leases = sy_regs s p\<rparr>"

definition sys_exec :: "(nat \<Rightarrow> queue_env) \<Rightarrow> time \<Rightarrow> nat \<Rightarrow> queue_action \<Rightarrow> system \<Rightarrow> system" where
  "sys_exec envs now p a s = (let q = exec (envs p) now a (seen_by p s) in
     \<lparr>sy_messages = messages q, sy_sent = sent q, sy_regs = (sy_regs s)(p := leases q)\<rparr>)"

text \<open>\<open>gen_random_uuid\<close> and \<open>randomUUID\<close> draw what is not in use.\<close>

definition fresh_draws :: "(nat \<Rightarrow> queue_env) \<Rightarrow> nat \<Rightarrow> queue_action \<Rightarrow> system \<Rightarrow> bool" where
  "fresh_draws envs p a s \<longleftrightarrow> (case a of
       Push pe d k inp \<Rightarrow> k \<notin> m_id ` set (sy_messages s)
     | Done k k' reply token \<Rightarrow> k \<notin> m_id ` set (sy_messages s)
     | Next self at \<Rightarrow> (\<forall>p' k l. (k, l) \<in> set (sy_regs s p') \<longrightarrow> l_claimedBy l \<noteq> claimed_by_text (envs p) (at_token at))
     | _ \<Rightarrow> True)"

inductive history ::
  "(nat \<Rightarrow> queue_env) \<Rightarrow> (time \<Rightarrow> nat \<Rightarrow> queue_action \<Rightarrow> system \<Rightarrow> bool) \<Rightarrow> time \<Rightarrow> system \<Rightarrow> time \<Rightarrow> system \<Rightarrow> bool"
  for envs G t0 s0 where
  start: "history envs G t0 s0 t0 s0"
| act: "history envs G t0 s0 t s \<Longrightarrow> t \<le> t' \<Longrightarrow> fresh_draws envs p a s \<Longrightarrow> G t' p a s \<Longrightarrow>
    history envs G t0 s0 t' (sys_exec envs t' p a s)"

definition distinct_system :: "system \<Rightarrow> bool" where
  "distinct_system s \<longleftrightarrow> distinct (map m_id (sy_messages s))"

text \<open>One vocabulary for all processes, as documented.\<close>

definition envs_ok :: "(nat \<Rightarrow> queue_env) \<Rightarrow> bool" where
  "envs_ok envs \<longleftrightarrow> (\<forall>p. vocab_ok (vocab (envs p)) \<and> vocab (envs p) = vocab (envs 0))"

lemma seen_by_simps [simp]:
  "messages (seen_by p s) = sy_messages s" "sent (seen_by p s) = sy_sent s" "leases (seen_by p s) = sy_regs s p"
  by (simp_all add: seen_by_def)

lemma row_step_fixed:
  "row_step env now q a m m' \<Longrightarrow> m_id m' = m_id m \<and> m_type m' = m_type m \<and> m_in_reply_to m' = m_in_reply_to m \<and>
     m_from_server m' = m_from_server m \<and> m_from_model m' = m_from_model m \<and> m_to_server m' = m_to_server m \<and>
     m_to_model m' = m_to_model m \<and> m_body m' = m_body m \<and> legacy m' = legacy m \<and> ordinary m' = ordinary m"
  by (induction rule: row_step.induct)
    (simp_all add: claimed_row_def acked_row_def requeued_row_def done_row_def failed_row_def legacy_def ordinary_def)

lemma sys_rows:
  assumes "distinct_system s" "fresh_draws envs p a s"
  obtains f new where "sy_messages (sys_exec envs now p a s) = map f (sy_messages s) @ new"
    "\<And>m. m \<in> set (sy_messages s) \<Longrightarrow> row_step (envs p) now (seen_by p s) a m (f m)"
    "new = [] \<or> (\<exists>r. new = [r] \<and> fresh_row (envs p) now (seen_by p s) a r \<and> m_id r \<notin> m_id ` set (sy_messages s) \<and>
        (\<forall>k. m_in_reply_to r = Some k \<longrightarrow> (\<forall>m \<in> set (sy_messages s). m_id m = k \<longrightarrow> legacy m \<longrightarrow> f m = done_row now m)))"
proof -
  have "row_wise (envs p) now (seen_by p s) a (exec (envs p) now a (seen_by p s))"
    using assms by (intro exec_row_wise) (auto simp: distinct_system_def distinct_messages_def fresh_draws_def)
  moreover have "m_id r \<notin> m_id ` set (sy_messages s)" if "fresh_row (envs p) now (seen_by p s) a r" for r
    using that assms(2) by (cases a) (auto simp: fresh_row_def fresh_draws_def)
  ultimately obtain f new where "messages (exec (envs p) now a (seen_by p s)) = map f (sy_messages s) @ new"
    "\<forall>m \<in> set (sy_messages s). row_step (envs p) now (seen_by p s) a m (f m)"
    "new = [] \<or> (\<exists>r. new = [r] \<and> fresh_row (envs p) now (seen_by p s) a r \<and> m_id r \<notin> m_id ` set (sy_messages s) \<and>
        (\<forall>k. m_in_reply_to r = Some k \<longrightarrow> (\<forall>m \<in> set (sy_messages s). m_id m = k \<longrightarrow> legacy m \<longrightarrow> f m = done_row now m)))"
    unfolding row_wise_def seen_by_simps by blast
  then show thesis by (intro that [of f new]) (simp_all add: sys_exec_def Let_def)
qed

lemma distinct_system_exec:
  assumes "distinct_system s" "fresh_draws envs p a s"
  shows "distinct_system (sys_exec envs now p a s)"
proof (rule sys_rows [OF assms, of now])
  fix f new
  assume rows: "sy_messages (sys_exec envs now p a s) = map f (sy_messages s) @ new"
    and step: "\<And>m. m \<in> set (sy_messages s) \<Longrightarrow> row_step (envs p) now (seen_by p s) a m (f m)"
    and new: "new = [] \<or> (\<exists>r. new = [r] \<and> fresh_row (envs p) now (seen_by p s) a r \<and> m_id r \<notin> m_id ` set (sy_messages s) \<and>
        (\<forall>k. m_in_reply_to r = Some k \<longrightarrow> (\<forall>m \<in> set (sy_messages s). m_id m = k \<longrightarrow> legacy m \<longrightarrow> f m = done_row now m)))"
  have ids: "map (m_id \<circ> f) (sy_messages s) = map m_id (sy_messages s)"
    using step by (intro map_cong) (auto dest: row_step_fixed)
  from new show ?thesis
  proof
    assume "new = []"
    then show ?thesis using assms(1) by (simp add: distinct_system_def rows ids)
  next
    assume "\<exists>r. new = [r] \<and> fresh_row (envs p) now (seen_by p s) a r \<and> m_id r \<notin> m_id ` set (sy_messages s) \<and>
        (\<forall>k. m_in_reply_to r = Some k \<longrightarrow> (\<forall>m \<in> set (sy_messages s). m_id m = k \<longrightarrow> legacy m \<longrightarrow> f m = done_row now m))"
    then obtain r where "new = [r]" "m_id r \<notin> m_id ` set (sy_messages s)" by blast
    moreover have "m_id ` f ` set (sy_messages s) = m_id ` set (sy_messages s)"
      using arg_cong [OF ids, of set] by (simp add: image_comp comp_def)
    ultimately show ?thesis using assms(1) by (simp add: distinct_system_def rows ids)
  qed
qed

lemma history_distinct: "history envs G t0 s0 t s \<Longrightarrow> distinct_system s0 \<Longrightarrow> distinct_system s"
  by (induction rule: history.induct) (auto intro: distinct_system_exec)

section \<open>Finished messages\<close>

lemma terminal_row_step:
  assumes "row_step env now q a m m'" "vocab_ok (vocab env)" "m_status m \<in> {MDone, MFailed, MCancelled}"
  shows "\<exists>x. m' = m\<lparr>m_archived_at := x\<rparr>"
  using assms(1)
proof cases
  case same
  then have "m' = m\<lparr>m_archived_at := m_archived_at m\<rparr>" by simp
  then show ?thesis ..
qed (use assms(2,3) in \<open>auto simp: request_target_def reply_target_def claim_open_def own_claim_def stale_claim_def vocab_ok_def may_finish_def\<close>)

text \<open>
  C21. A message that is done, failed or cancelled stays exactly as it is, its answer, error and times
  included, whatever the processes do in any order; only its archive time may change.
\<close>

theorem finished_messages_final:
  assumes "history envs G t0 s0 t s" and "envs_ok envs" and "distinct_system s0"
    and "m \<in> set (sy_messages s0)" and "m_status m \<in> {MDone, MFailed, MCancelled}"
  shows "\<exists>x. m\<lparr>m_archived_at := x\<rparr> \<in> set (sy_messages s)"
  using assms(1)
proof (induction rule: history.induct)
  case start
  have "m = m\<lparr>m_archived_at := m_archived_at m\<rparr>" by simp
  with assms(4) show ?case by metis
next
  case (act t s t' p a)
  then obtain x where x: "m\<lparr>m_archived_at := x\<rparr> \<in> set (sy_messages s)" by blast
  have d: "distinct_system s" using history_distinct [OF act.hyps(1) assms(3)] .
  from d act.hyps(3) show ?case
  proof (rule sys_rows [of s envs p a t'])
    fix f new
    assume rows: "sy_messages (sys_exec envs t' p a s) = map f (sy_messages s) @ new"
      and step: "\<And>m. m \<in> set (sy_messages s) \<Longrightarrow> row_step (envs p) t' (seen_by p s) a m (f m)"
    have "vocab_ok (vocab (envs p))" using assms(2) by (simp add: envs_ok_def)
    from terminal_row_step [OF step [OF x] this] assms(5) obtain y where "f (m\<lparr>m_archived_at := x\<rparr>) = m\<lparr>m_archived_at := y\<rparr>"
      by auto
    then show ?thesis using x by (force simp: rows)
  qed
qed

section \<open>One reply per request\<close>

text \<open>
  Every stored reply answers a finished request, goes back from its addressee to its sender with the type
  the vocabulary gives, and is the only one.
\<close>

definition replies_ok :: "queue_vocab \<Rightarrow> system \<Rightarrow> bool" where
  "replies_ok v s \<longleftrightarrow>
     (\<forall>r \<in> set (sy_messages s). \<forall>k. m_in_reply_to r = Some k \<longrightarrow>
        (\<exists>m \<in> set (sy_messages s). m_id m = k \<and> m_status m \<in> {MDone, MFailed, MCancelled} \<and> m_type r = QUEUE_REPLY_TYPE v (m_type m) \<and>
           m_to_server r = m_from_server m \<and> m_to_model r = m_from_model m \<and>
           m_from_server r = m_to_server m \<and> m_from_model r = m_to_model m) \<and>
        (\<forall>r' \<in> set (sy_messages s). m_in_reply_to r' = Some k \<longrightarrow> r' = r))"

lemma replies_ok_exec:
  assumes "replies_ok v s" "distinct_system s" "fresh_draws envs p a s" "vocab_ok v" "vocab (envs p) = v"
  shows "replies_ok v (sys_exec envs now p a s)"
  using assms(2,3)
proof (rule sys_rows [of s envs p a now])
  fix f new
  assume rows: "sy_messages (sys_exec envs now p a s) = map f (sy_messages s) @ new"
    and step: "\<And>m. m \<in> set (sy_messages s) \<Longrightarrow> row_step (envs p) now (seen_by p s) a m (f m)"
    and new: "new = [] \<or> (\<exists>r. new = [r] \<and> fresh_row (envs p) now (seen_by p s) a r \<and> m_id r \<notin> m_id ` set (sy_messages s) \<and>
        (\<forall>k. m_in_reply_to r = Some k \<longrightarrow> (\<forall>m \<in> set (sy_messages s). m_id m = k \<longrightarrow> legacy m \<longrightarrow> f m = done_row now m)))"
  let ?s' = "sys_exec envs now p a s"
  define answers where "answers r m \<longleftrightarrow> m_type r = QUEUE_REPLY_TYPE v (m_type m) \<and>
     m_to_server r = m_from_server m \<and> m_to_model r = m_from_model m \<and>
     m_from_server r = m_to_server m \<and> m_from_model r = m_to_model m" for r m :: message
  note fixed = row_step_fixed [OF step]
  have fin: "m_status (f m) \<in> {MDone, MFailed, MCancelled}"
    if "m \<in> set (sy_messages s)" "m_status m \<in> {MDone, MFailed, MCancelled}" for m
    using terminal_row_step [OF step [OF that(1)]] that(2) assms(4,5) by fastforce
  have old: "(\<exists>m \<in> set (sy_messages ?s'). m_id m = k \<and> m_status m \<in> {MDone, MFailed, MCancelled} \<and> answers (f r) m)"
    and uniq: "r' \<in> set (sy_messages s) \<Longrightarrow> m_in_reply_to r' = Some k \<Longrightarrow> r' = r"
    if rr: "r \<in> set (sy_messages s)" "m_in_reply_to r = Some k" for r k r'
  proof -
    obtain m where m: "m \<in> set (sy_messages s)" "m_id m = k" "m_status m \<in> {MDone, MFailed, MCancelled}" "answers r m"
      using assms(1) rr unfolding replies_ok_def answers_def by blast
    have "f m \<in> set (sy_messages ?s')" using m(1) by (simp add: rows)
    moreover have "m_id (f m) = k" "answers (f r) (f m)"
      using fixed [OF m(1)] fixed [OF rr(1)] m(2,4) by (simp_all add: answers_def)
    ultimately show "\<exists>m \<in> set (sy_messages ?s'). m_id m = k \<and> m_status m \<in> {MDone, MFailed, MCancelled} \<and> answers (f r) m"
      using fin [OF m(1,3)] by blast
    show "r' \<in> set (sy_messages s) \<Longrightarrow> m_in_reply_to r' = Some k \<Longrightarrow> r' = r"
      using assms(1) rr unfolding replies_ok_def by blast
  qed
  have goal: "replies_ok v ?s'" if new_ok: "\<And>r k. r \<in> set new \<Longrightarrow> m_in_reply_to r = Some k \<Longrightarrow>
      (\<exists>m \<in> set (sy_messages ?s'). m_id m = k \<and> m_status m \<in> {MDone, MFailed, MCancelled} \<and> answers r m) \<and>
      (\<forall>r' \<in> set (sy_messages s). m_in_reply_to r' \<noteq> Some k) \<and> (\<forall>r' \<in> set new. r' = r)"
    unfolding replies_ok_def
  proof (intro ballI allI impI)
    fix r k assume r: "r \<in> set (sy_messages ?s')" "m_in_reply_to r = Some k"
    have "(\<exists>m \<in> set (sy_messages ?s'). m_id m = k \<and> m_status m \<in> {MDone, MFailed, MCancelled} \<and> answers r m) \<and>
       (\<forall>r' \<in> set (sy_messages ?s'). m_in_reply_to r' = Some k \<longrightarrow> r' = r)"
    proof (cases "r \<in> set new")
      case True
      note n = new_ok [OF True r(2)]
      have "r' = r" if r': "r' \<in> set (sy_messages ?s')" "m_in_reply_to r' = Some k" for r'
      proof -
        from r'(1) consider "r' \<in> set new" | x where "x \<in> set (sy_messages s)" "r' = f x" by (auto simp: rows)
        then show ?thesis
        proof cases
          case 1
          then show ?thesis using n by blast
        next
          case 2
          then have "m_in_reply_to x = Some k" using fixed [OF 2(1)] r'(2) by simp
          then show ?thesis using n 2(1) by blast
        qed
      qed
      with n show ?thesis by blast
    next
      case False
      then obtain x where x: "x \<in> set (sy_messages s)" "r = f x" using r(1) by (auto simp: rows)
      then have k: "m_in_reply_to x = Some k" using fixed [OF x(1)] r(2) by simp
      have "r' = r" if r': "r' \<in> set (sy_messages ?s')" "m_in_reply_to r' = Some k" for r'
      proof -
        from r'(1) consider "r' \<in> set new" | y where "y \<in> set (sy_messages s)" "r' = f y" by (auto simp: rows)
        then show ?thesis
        proof cases
          case 1
          then show ?thesis using new_ok [OF 1 r'(2)] x(1) k by blast
        next
          case 2
          then have "m_in_reply_to y = Some k" using fixed [OF 2(1)] r'(2) by simp
          then have "y = x" using uniq [OF x(1) k 2(1)] by simp
          then show ?thesis using 2 x by simp
        qed
      qed
      with old [OF x(1) k] x(2) show ?thesis by blast
    qed
    then show "(\<exists>m \<in> set (sy_messages ?s'). m_id m = k \<and> m_status m \<in> {MDone, MFailed, MCancelled} \<and>
           m_type r = QUEUE_REPLY_TYPE v (m_type m) \<and>
           m_to_server r = m_from_server m \<and> m_to_model r = m_from_model m \<and>
           m_from_server r = m_to_server m \<and> m_from_model r = m_to_model m) \<and>
        (\<forall>r' \<in> set (sy_messages ?s'). m_in_reply_to r' = Some k \<longrightarrow> r' = r)"
      unfolding answers_def .
  qed
  from new show ?thesis
  proof
    assume "new = []"
    then show ?thesis by (intro goal) simp
  next
    assume "\<exists>r. new = [r] \<and> fresh_row (envs p) now (seen_by p s) a r \<and> m_id r \<notin> m_id ` set (sy_messages s) \<and>
        (\<forall>k. m_in_reply_to r = Some k \<longrightarrow> (\<forall>m \<in> set (sy_messages s). m_id m = k \<longrightarrow> legacy m \<longrightarrow> f m = done_row now m))"
    then obtain r where r: "new = [r]" "fresh_row (envs p) now (seen_by p s) a r"
      and done_req: "\<And>k m. m_in_reply_to r = Some k \<Longrightarrow> m \<in> set (sy_messages s) \<Longrightarrow> m_id m = k \<Longrightarrow> legacy m \<Longrightarrow> f m = done_row now m"
      by blast
    show ?thesis
    proof (rule goal)
      fix x k assume "x \<in> set new" "m_in_reply_to x = Some k"
      then have x: "x = r" "m_in_reply_to r = Some k" using r(1) by simp_all
      from r(2) x(2) obtain newId k' reply token m body where fr: "finishable (envs p) (seen_by p s) k' token = Inr m"
        "r = reply_row (envs p) newId now m body"
        by (auto simp: fresh_row_def split: queue_action.splits)
      have m: "find_message k' (seen_by p s) = Some m" "legacy m" "m_status m \<notin> {MDone, MFailed, MCancelled}"
        using fr(1) assms(4,5) by (simp_all add: finishable_iff vocab_ok_def)
      have min: "m \<in> set (sy_messages s)" "m_id m = k" using find_message_Some [OF m(1)] x(2) fr(2) by simp_all
      have "f m = done_row now m" using done_req [OF x(2) min m(2)] .
      then have "done_row now m \<in> set (sy_messages ?s')" using min(1) by (force simp: rows)
      moreover have "answers r (done_row now m)" using assms(5) by (simp add: fr(2) answers_def reply_row_def done_row_def)
      moreover have "m_in_reply_to r' \<noteq> Some k" if rin: "r' \<in> set (sy_messages s)" for r'
      proof
        assume "m_in_reply_to r' = Some k"
        then obtain n where "n \<in> set (sy_messages s)" "m_id n = k" "m_status n \<in> {MDone, MFailed, MCancelled}"
          using assms(1) rin unfolding replies_ok_def by blast
        moreover from this have "n = m" using min assms(2) by (auto simp: distinct_system_def distinct_map inj_on_def)
        ultimately show False using m(3) by simp
      qed
      ultimately show "(\<exists>m \<in> set (sy_messages ?s'). m_id m = k \<and> m_status m \<in> {MDone, MFailed, MCancelled} \<and> answers x m) \<and>
        (\<forall>r' \<in> set (sy_messages s). m_in_reply_to r' \<noteq> Some k) \<and> (\<forall>r' \<in> set new. r' = x)"
        using x(1) r(1) min(2) by (intro conjI bexI [of _ "done_row now m"]) simp_all
    qed
  qed
qed

text \<open>
  C16. From a table in which it holds, for one the empty table, the processes only ever produce well-formed
  threads: each reply answers one finished request, is sent from its addressee back to its sender with the
  type that belongs to the request's, and no request is ever answered twice, whatever the interleaving.
\<close>

theorem one_reply_per_request:
  assumes "history envs G t0 s0 t s" and "envs_ok envs" and "distinct_system s0" and "replies_ok (vocab (envs 0)) s0"
  shows "replies_ok (vocab (envs 0)) s"
  using assms(1)
proof (induction rule: history.induct)
  case (act t s t' p a)
  have "vocab_ok (vocab (envs 0))" "vocab (envs p) = vocab (envs 0)" using assms(2) unfolding envs_ok_def by blast+
  with act history_distinct [OF act.hyps(1) assms(3)] show ?case by (intro replies_ok_exec)
qed (rule assms(4))

end
