(* ===== verification/Queue_Leases.thy ===== *)
theory Queue_Leases
  imports Queue_System
begin

text \<open>
  What a lease is worth: only its holder can finish a claimed message, a claim that is refreshed in time is never
  taken away, a claim that is not goes back to the queue, and no message is handed to two claimants.
\<close>

section \<open>Finishing\<close>

text \<open>
  C11. \<open>queue_done\<close> and \<open>queue_fail\<close> change something only for an unfinished message without markers, and only
  for the holder of its lease with the token, while the row still carries the holder's claim, or for a pending
  message and no token at all. Then exactly that row ends, the lease is gone, and \<open>queue_done\<close> with a reply adds the
  answer; every refusal leaves the table, the notifications and the leases as they were.
\<close>

theorem finish_by_claim_holder:
  assumes "distinct_messages q"
  shows "(case queue_done env newId now k reply token q of
      (q', Inl e) \<Rightarrow> q' = q
    | (q', Inr replyId) \<Rightarrow> (\<exists>m \<in> set (messages q). m_id m = k \<and> legacy m \<and>
        m_status m \<notin> set (QUEUE_TERMINAL_STATUSES (vocab env)) \<and> may_finish q m token \<and>
        messages q' = update_where (\<lambda>x. m_id x = k) (done_row now) (messages q) @
          (case reply of None \<Rightarrow> [] | Some body \<Rightarrow> if newId = k then [done_row now (reply_row env newId now m body)] else [reply_row env newId now m body]) \<and>
        getLease q' k = None \<and> replyId = (if reply = None then None else Some newId))) \<and>
   (case queue_fail env now k err token q of
      (q', Inl e) \<Rightarrow> q' = q
    | (q', Inr _) \<Rightarrow> (\<exists>m \<in> set (messages q). m_id m = k \<and> legacy m \<and>
        m_status m \<notin> set (QUEUE_TERMINAL_STATUSES (vocab env)) \<and> may_finish q m token \<and>
        messages q' = update_where (\<lambda>x. m_id x = k) (failed_row err now) (messages q) \<and> getLease q' k = None))"
proof
  have row: "m \<in> set (messages q) \<and> m_id m = k \<and> legacy m \<and> m_status m \<notin> set (QUEUE_TERMINAL_STATUSES (vocab env)) \<and> may_finish q m token"
    "update_where (\<lambda>x. m_id x = k \<and> legacy x) f (messages q) = update_where (\<lambda>x. m_id x = k) f (messages q)"
    if "finishable env q k token = Inr m" for m f
  proof -
    from that have m: "find_message k q = Some m" "legacy m" by (simp_all add: finishable_iff)
    show "m \<in> set (messages q) \<and> m_id m = k \<and> legacy m \<and> m_status m \<notin> set (QUEUE_TERMINAL_STATUSES (vocab env)) \<and> may_finish q m token"
      using that find_message_Some [OF m(1)] by (simp add: finishable_iff)
    show "update_where (\<lambda>x. m_id x = k \<and> legacy x) f (messages q) = update_where (\<lambda>x. m_id x = k) f (messages q)"
      using assms m unfolding distinct_messages_def find_message_def by (rule update_where_key)
  qed
  have lease: "getLease q' k = None" if "leases q' = AList.delete k (leases q)" for q'
    using that by (simp add: getLease_def delete_conv')
  obtain q' r where d: "queue_done env newId now k reply token q = (q', r)" by fastforce
  from d show "case queue_done env newId now k reply token q of
      (q', Inl e) \<Rightarrow> q' = q
    | (q', Inr replyId) \<Rightarrow> (\<exists>m \<in> set (messages q). m_id m = k \<and> legacy m \<and>
        m_status m \<notin> set (QUEUE_TERMINAL_STATUSES (vocab env)) \<and> may_finish q m token \<and>
        messages q' = update_where (\<lambda>x. m_id x = k) (done_row now) (messages q) @
          (case reply of None \<Rightarrow> [] | Some body \<Rightarrow> if newId = k then [done_row now (reply_row env newId now m body)] else [reply_row env newId now m body]) \<and>
        getLease q' k = None \<and> replyId = (if reply = None then None else Some newId))"
  proof (rule queue_doneE)
    fix m body
    assume a: "finishable env q k token = Inr m" "reply = Some body" "r = Inr (Some newId)"
      "messages q' = update_where (\<lambda>m. m_id m = k \<and> legacy m) (done_row now) (messages q @ [reply_row env newId now m body])"
      "leases q' = AList.delete k (leases q)"
    have "messages q' = update_where (\<lambda>m. m_id m = k) (done_row now) (messages q) @
        (if newId = k then [done_row now (reply_row env newId now m body)] else [reply_row env newId now m body])"
      using a(4) row(2) [OF a(1), of "done_row now"] by (simp add: update_where_def)
    then show ?thesis using a row(1) [OF a(1)] lease [OF a(5)] d by auto
  next
    fix m assume a: "finishable env q k token = Inr m" "reply = None" "r = Inr None"
      "messages q' = update_where (\<lambda>m. m_id m = k \<and> legacy m) (done_row now) (messages q)"
      "leases q' = AList.delete k (leases q)"
    then show ?thesis using row [OF a(1)] lease [OF a(5)] d by auto
  qed (use d in auto)
  obtain q' r where f: "queue_fail env now k err token q = (q', r)" by fastforce
  from f show "case queue_fail env now k err token q of
      (q', Inl e) \<Rightarrow> q' = q
    | (q', Inr _) \<Rightarrow> (\<exists>m \<in> set (messages q). m_id m = k \<and> legacy m \<and>
        m_status m \<notin> set (QUEUE_TERMINAL_STATUSES (vocab env)) \<and> may_finish q m token \<and>
        messages q' = update_where (\<lambda>x. m_id x = k) (failed_row err now) (messages q) \<and> getLease q' k = None)"
  proof (rule queue_failE)
    fix m assume a: "finishable env q k token = Inr m" "r = Inr ()"
      "messages q' = update_where (\<lambda>m. m_id m = k \<and> legacy m) (failed_row err now) (messages q)"
      "leases q' = AList.delete k (leases q)"
    then show ?thesis using row [OF a(1)] lease [OF a(4)] f by auto
  qed (use f in auto)
qed

section \<open>Exclusive claims\<close>


section \<open>Claims whose lease died\<close>

text \<open>
  C26. The sweep requeues exactly the stale claims that no other transaction holds: each is pending and without
  owner afterwards and open to the next \<open>queue_next\<close> of its address at any time, no other message changes, every
  requeue is announced once, and a second sweep at the same moment finds nothing. A claim of a server process
  refreshed less than five minutes ago is never among them.
\<close>

theorem sweep_requeues_dead_claims:
  assumes "distinct_messages q" and "intervals_ok env"
  shows "\<exists>q' ids. sweepStaleQueueClaims env locked now q = (q', Inr ids) \<and> distinct ids \<and>
    set ids = {m_id m | m. m \<in> set (messages q) \<and> stale_claim env now m \<and> \<not> locked (m_id m)} \<and>
    messages q' = map (\<lambda>m. if m_id m \<in> set ids then requeued_row m else m) (messages q) \<and>
    length (sent q') = length (sent q) + length ids \<and>
    (\<forall>m \<in> set (messages q'). m_id m \<in> set ids \<longrightarrow> m_status m = MPending \<and> m_claimed_by m = None \<and>
       (m_type m \<in> set (QUEUE_REQUEST_TYPES (vocab env)) \<longrightarrow> not_rules_sync m \<longrightarrow>
          (\<forall>t. request_target env t (m_to_server m) (m_to_model m) m))) \<and>
    snd (sweepStaleQueueClaims env locked now q') = Inr [] \<and>
    (\<forall>m \<in> set (messages q). mcp_claim m \<longrightarrow> (\<exists>c. m_claimed_at m = Some c \<and> now \<le> c + 300000) \<longrightarrow> m_id m \<notin> set ids)"
proof -
  let ?ids = "map m_id (sweep_targets env locked now q)"
  obtain q' where q': "sweepStaleQueueClaims env locked now q = (q', Inr ?ids)"
    "messages q' = update_where (\<lambda>m. m_id m \<in> set ?ids) requeued_row (messages q)"
    "sent q' = sent q @ map (\<lambda>m. envelope_row (requeued_row m) (Some MClaimed)) (sweep_targets env locked now q)"
    by (simp add: sweep_eq Let_def del: sweep_targets_set)
  have ids: "set ?ids = {m_id m | m. m \<in> set (messages q) \<and> stale_claim env now m \<and> \<not> locked (m_id m)}" by auto
  have stale: "stale_claim env now m \<and> \<not> locked (m_id m)" if "m \<in> set (messages q)" "m_id m \<in> set ?ids" for m
    using that unique_row [OF assms(1), of _ m] by auto
  have "inj_on m_id (set (messages q))" "distinct (messages q)"
    using assms(1) by (simp_all add: distinct_messages_def distinct_map)
  then have dist: "distinct ?ids"
    by (auto simp: sweep_targets_def distinct_map intro: inj_on_subset)
  have rows: "messages q' = map (\<lambda>m. if m_id m \<in> set ?ids then requeued_row m else m) (messages q)"
    using q'(2) by (simp only: update_where_def)
  have free: "m_status m = MPending \<and> m_claimed_by m = None \<and>
       (m_type m \<in> set (QUEUE_REQUEST_TYPES (vocab env)) \<longrightarrow> not_rules_sync m \<longrightarrow>
          (\<forall>t. request_target env t (m_to_server m) (m_to_model m) m))"
    if m: "m \<in> set (messages q')" "m_id m \<in> set ?ids" for m
  proof -
    from m(1) obtain n where n: "n \<in> set (messages q)" "m = (if m_id n \<in> set ?ids then requeued_row n else n)"
      unfolding q'(2) by (rule update_whereE)
    have "m_id m = m_id n" unfolding n(2) by simp
    then have nid: "m_id n \<in> set ?ids" using m(2) by (simp only:)
    then have r: "m = requeued_row n" using n(2) by (simp only: if_True)
    note stale [OF n(1) nid]
    then show ?thesis by (simp add: r request_target_def claim_open_def stale_claim_def)
  qed
  have again: "snd (sweepStaleQueueClaims env locked now q') = Inr []"
  proof -
    have "\<not> (stale_claim env now m \<and> \<not> locked (m_id m))" if m: "m \<in> set (messages q')" for m
    proof -
      from m obtain n where n: "n \<in> set (messages q)" "m = (if m_id n \<in> set ?ids then requeued_row n else n)"
        unfolding q'(2) by (rule update_whereE)
      show ?thesis
      proof (cases "m_id n \<in> set ?ids")
        case True
        then have "m = requeued_row n" using n(2) by (simp only: if_True)
        then show ?thesis by (simp add: stale_claim_def)
      next
        case False
        then have "m = n" using n(2) by (simp only: if_False)
        then show ?thesis using False n(1) ids by blast
      qed
    qed
    then have "sweep_targets env locked now q' = []" by (simp add: sweep_targets_def filter_empty_conv)
    then show ?thesis by (simp add: sweep_eq Let_def del: sweep_targets_set)
  qed
  have live: "m_id m \<notin> set ?ids" if "m \<in> set (messages q)" "mcp_claim m" "m_claimed_at m = Some c" "now \<le> c + 300000" for m c
  proof
    assume "m_id m \<in> set ?ids"
    from stale [OF that(1) this] that(2-4) assms(2) show False
      by (auto simp: stale_claim_def older_than_def MCP_LEASE_STALE_INTERVAL_def intervals_ok_def)
  qed
  have "length (sent q') = length (sent q) + length ?ids" using q'(3) by simp
  note sent_len = this
  show ?thesis
  proof (rule exI [of _ q'], rule exI [of _ ?ids], intro conjI ballI impI)
    show "sweepStaleQueueClaims env locked now q = (q', Inr ?ids)" by (rule q'(1))
    show "distinct ?ids" by (rule dist)
    show "set ?ids = {m_id m | m. m \<in> set (messages q) \<and> stale_claim env now m \<and> \<not> locked (m_id m)}" by (rule ids)
    show "messages q' = map (\<lambda>m. if m_id m \<in> set ?ids then requeued_row m else m) (messages q)" by (rule rows)
    show "length (sent q') = length (sent q) + length ?ids" by (rule sent_len)
    show "snd (sweepStaleQueueClaims env locked now q') = Inr []" by (rule again)
    fix m
    show "m \<in> set (messages q') \<Longrightarrow> m_id m \<in> set ?ids \<Longrightarrow> m_status m = MPending"
      "m \<in> set (messages q') \<Longrightarrow> m_id m \<in> set ?ids \<Longrightarrow> m_claimed_by m = None"
      using free by blast+
    show "m \<in> set (messages q') \<Longrightarrow> m_id m \<in> set ?ids \<Longrightarrow> m_type m \<in> set (QUEUE_REQUEST_TYPES (vocab env)) \<Longrightarrow>
      not_rules_sync m \<Longrightarrow> \<forall>t. request_target env t (m_to_server m) (m_to_model m) m"
      using free by blast
    show "m \<in> set (messages q) \<Longrightarrow> mcp_claim m \<Longrightarrow> \<exists>c. m_claimed_at m = Some c \<and> now \<le> c + 300000 \<Longrightarrow> m_id m \<notin> set ?ids"
      using live by blast
  qed
qed

section \<open>Claims whose lease lives\<close>

text \<open>No two register entries, of the same or of different processes, stand for the same claim text.\<close>

definition owners_unique :: "system \<Rightarrow> bool" where
  "owners_unique s \<longleftrightarrow> (\<forall>p p' k k' l l'. (k, l) \<in> set (sy_regs s p) \<longrightarrow> (k', l') \<in> set (sy_regs s p') \<longrightarrow>
     l_claimedBy l = l_claimedBy l' \<longrightarrow> p = p' \<and> k = k')"

lemma delete_subset: "e \<in> set (AList.delete k al) \<Longrightarrow> e \<in> set al"
  by (induction al) (auto split: if_splits)

lemma lease_update_entry: "e \<in> set (AList.update k v al) \<Longrightarrow> e = (k, v) \<or> e \<in> set al"
  by (induction al) (auto split: if_splits)

lemma exec_leases:
  "(k, l) \<in> set (leases (exec env now a q)) \<Longrightarrow>
     (k, l) \<in> set (leases q) \<or> (\<exists>self at. a = Next self at \<and> l_claimedBy l = claimed_by_text env (at_token at))"
proof (cases a)
  case (Next self at)
  assume "(k, l) \<in> set (leases (exec env now a q))"
  then show ?thesis
    by (cases rule: claimNextRequest_cases [of env "at_locked at" now "fst self" "snd self" "claimed_by_text env (at_token at)" q])
      (auto simp: Next tryClaim_def Let_def registerLease_def dest!: lease_update_entry)
next
  case (Push pe d k' inp)
  assume "(k, l) \<in> set (leases (exec env now a q))"
  then show ?thesis by (auto simp: Push queue_push_def Let_def emitQueueNotifyBestEffort_def split: sum.splits prod.splits if_splits)
next
  case (Cancel_Next k')
  assume a: "(k, l) \<in> set (leases (exec env now a q))"
  show ?thesis
  proof (cases "getLease q k'")
    case (Some l')
    show ?thesis using a Some
      by (cases rule: rollback_cases [of k' "l_claimedBy l'" "releaseLease k' q"])
        (auto simp: Cancel_Next releaseLease_def dest: delete_subset)
  qed (use a in \<open>simp add: Cancel_Next\<close>)
next
  case (Ack_Reply locked self ids)
  assume "(k, l) \<in> set (leases (exec env now a q))"
  then show ?thesis
    by (cases rule: claimNextReply_cases [of env locked now "fst self" "snd self" ids "''mcp:'' @ instance_id env" q])
      (auto simp: Ack_Reply)
next
  case (Refresh reachable k')
  assume "(k, l) \<in> set (leases (exec env now a q))"
  then show ?thesis
    by (auto simp: Refresh refresh_one_def releaseLease_def dest: delete_subset split: option.splits if_splits)
next
  case (Sweep locked)
  assume "(k, l) \<in> set (leases (exec env now a q))"
  then show ?thesis by (simp add: Sweep sweep_eq Let_def)
next
  case (Done newId k' reply token)
  obtain q' r where d: "queue_done env newId now k' reply token q = (q', r)" by fastforce
  assume "(k, l) \<in> set (leases (exec env now a q))"
  with d show ?thesis by (auto simp: Done elim!: queue_doneE dest: delete_subset)
next
  case (Fail k' err token)
  obtain q' r where d: "queue_fail env now k' err token q = (q', r)" by fastforce
  assume "(k, l) \<in> set (leases (exec env now a q))"
  with d show ?thesis by (auto simp: Fail elim!: queue_failE dest: delete_subset)
next
  case (Archive k')
  obtain q' r where d: "archiveQueueSubtree env now k' q = (q', r)" by fastforce
  assume "(k, l) \<in> set (leases (exec env now a q))"
  with d show ?thesis by (auto simp: Archive queue_archive_def elim!: archiveE split: sum.splits)
next
  case (Unarchive k')
  obtain q' r where d: "unarchiveQueueSubtree env k' q = (q', r)" by fastforce
  assume "(k, l) \<in> set (leases (exec env now a q))"
  with d show ?thesis by (auto simp: Unarchive queue_unarchive_def elim!: unarchiveE split: sum.splits)
next
  case Restart
  assume "(k, l) \<in> set (leases (exec env now a q))"
  then show ?thesis by (simp add: Restart clearLeases_def)
qed

lemma owners_unique_exec:
  assumes "owners_unique s" "fresh_draws envs p a s"
  shows "owners_unique (sys_exec envs now p a s)"
proof -
  have reg: "(k, l) \<in> set (sy_regs s p') \<or> (p' = p \<and> (\<exists>self at. a = Next self at \<and> l_claimedBy l = claimed_by_text (envs p) (at_token at)))"
    if "(k, l) \<in> set (sy_regs (sys_exec envs now p a s) p')" for p' k l
    using that exec_leases [of k l "envs p" now a "seen_by p s"]
    by (cases "p' = p") (simp_all add: sys_exec_def Let_def)
  show ?thesis
  proof (cases "\<exists>self at. a = Next self at")
    case False
    then have "set (sy_regs (sys_exec envs now p a s) p') \<subseteq> set (sy_regs s p')" for p' using reg by auto
    with assms(1) show ?thesis unfolding owners_unique_def by (meson subset_iff)
  next
    case True
    then obtain self at where a: "a = Next self at" by blast
    have fresh: "l_claimedBy l \<noteq> claimed_by_text (envs p) (at_token at)" if "(k, l) \<in> set (sy_regs s p')" for p' k l
      using assms(2) that unfolding fresh_draws_def a by auto
    obtain new where new: "set (sy_regs (sys_exec envs now p a s) p) \<subseteq> insert new (set (sy_regs s p))"
      "sy_regs (sys_exec envs now p a s) p' = sy_regs s p' \<or> p' = p" for p'
    proof (cases rule: claimNextRequest_cases [of "envs p" "at_locked at" now "fst self" "snd self" "claimed_by_text (envs p) (at_token at)" "seen_by p s"])
      case idle
      then show thesis by (intro that) (auto simp: sys_exec_def Let_def a tryClaim_def)
    next
      case (taken m)
      show thesis
        by (rule that [of "(m_id m, \<lparr>l_claimToken = at_token at, l_claimedBy = claimed_by_text (envs p) (at_token at)\<rparr>)"])
          (use taken(5) in \<open>auto simp: sys_exec_def Let_def a tryClaim_def registerLease_def dest!: lease_update_entry\<close>)
    qed
    show ?thesis
      unfolding owners_unique_def
    proof (intro allI impI)
      fix p1 p2 k1 k2 l1 l2
      assume e: "(k1, l1) \<in> set (sy_regs (sys_exec envs now p a s) p1)" "(k2, l2) \<in> set (sy_regs (sys_exec envs now p a s) p2)"
        and eq: "l_claimedBy l1 = l_claimedBy l2"
      have where_from: "(k, l) \<in> set (sy_regs s p') \<or> p' = p \<and> (k, l) = new"
        if "(k, l) \<in> set (sy_regs (sys_exec envs now p a s) p')" for k l p'
        using that new(1) new(2) [of p'] by auto
      have text_of: "l_claimedBy l = claimed_by_text (envs p) (at_token at) \<and> p' = p"
        if "(k, l) \<in> set (sy_regs (sys_exec envs now p a s) p')" "(k, l) \<notin> set (sy_regs s p')" for k l p'
        using reg [OF that(1)] that(2) by (auto simp: a)
      show "p1 = p2 \<and> k1 = k2"
      proof (cases "(k1, l1) \<in> set (sy_regs s p1)")
        case old1: True
        show ?thesis
        proof (cases "(k2, l2) \<in> set (sy_regs s p2)")
          case True
          with old1 eq assms(1) show ?thesis unfolding owners_unique_def by blast
        next
          case False
          with fresh [OF old1] text_of [OF e(2)] eq show ?thesis by simp
        qed
      next
        case new1: False
        show ?thesis
        proof (cases "(k2, l2) \<in> set (sy_regs s p2)")
          case True
          with fresh [OF True] text_of [OF e(1) new1] eq show ?thesis by simp
        next
          case False
          with where_from [OF e(1)] where_from [OF e(2)] new1 show ?thesis by auto
        qed
      qed
    qed
  qed
qed

text \<open>
  The holder keeps its claim as long as it does not give it up itself and every action finds the claim refreshed
  within the last five minutes.
\<close>

definition gives_up :: "id \<Rightarrow> queue_action \<Rightarrow> bool" where
  "gives_up k a \<longleftrightarrow> (case a of
       Done newId k' reply token \<Rightarrow> k' = k
     | Fail k' err token \<Rightarrow> k' = k
     | Cancel_Next k' \<Rightarrow> k' = k
     | Restart \<Rightarrow> True
     | _ \<Rightarrow> False)"

definition kept_fresh :: "nat \<Rightarrow> id \<Rightarrow> time \<Rightarrow> nat \<Rightarrow> queue_action \<Rightarrow> system \<Rightarrow> bool" where
  "kept_fresh p k now p' a s \<longleftrightarrow> (p' = p \<longrightarrow> \<not> gives_up k a) \<and>
     (\<forall>m \<in> set (sy_messages s). m_id m = k \<longrightarrow> (\<exists>c. m_claimed_at m = Some c \<and> now \<le> c + 300000))"

definition holds_claim :: "nat \<Rightarrow> id \<Rightarrow> queue_lease \<Rightarrow> system \<Rightarrow> bool" where
  "holds_claim p k l s \<longleftrightarrow> map_of (sy_regs s p) k = Some l \<and>
     (\<exists>m \<in> set (sy_messages s). m_id m = k \<and> m_status m = MClaimed \<and> m_claimed_by m = Some (l_claimedBy l) \<and> legacy m \<and> ordinary m)"

text \<open>The reclaim interval of every process is at least the five minutes of the lease.\<close>

definition intervals_fit :: "(nat \<Rightarrow> queue_env) \<Rightarrow> bool" where
  "intervals_fit envs \<longleftrightarrow> (\<forall>p. intervals_ok (envs p) \<and> 300000 \<le> pg_interval (envs p) (reclaimInterval (envs p)))"

lemma holds_claim_row:
  assumes "holds_claim p k l s" "owners_unique s" "kept_fresh p k now p' a s" "intervals_ok env" "300000 \<le> pg_interval env (reclaimInterval env)"
    and m: "m \<in> set (sy_messages s)" "m_id m = k" "m_status m = MClaimed" "m_claimed_by m = Some (l_claimedBy l)"
    and step: "row_step env now (seen_by p' s) a m m'"
  shows "m_status m' = MClaimed \<and> m_claimed_by m' = Some (l_claimedBy l)"
proof -
  obtain c where c: "m_claimed_at m = Some c" "now \<le> c + 300000" using assms(3) m unfolding kept_fresh_def by blast
  then have not_open: "\<not> claim_open env now m" using m(3) assms(5) by (simp add: claim_open_def older_than_def)
  have not_stale: "\<not> stale_claim env now m"
    using c assms(4,5) by (auto simp: stale_claim_def older_than_def MCP_LEASE_STALE_INTERVAL_def intervals_ok_def)
  have mine: "p' = p" if "getLease (seen_by p' s) k = Some l'" "l_claimedBy l' = l_claimedBy l" for l'
  proof -
    have "(k, l') \<in> set (sy_regs s p')" "(k, l) \<in> set (sy_regs s p)"
      using that(1) assms(1) by (auto simp: getLease_def holds_claim_def dest: map_of_SomeD)
    with assms(2) that(2) show ?thesis unfolding owners_unique_def by blast
  qed
  have no_give: "\<not> gives_up k a" if "own_claim (seen_by p' s) m \<or> may_finish (seen_by p' s) m token" for token
  proof -
    from that obtain l' where "getLease (seen_by p' s) k = Some l'" "l_claimedBy l' = l_claimedBy l"
      using m by (auto simp: own_claim_def may_finish_def)
    then have "p' = p" by (rule mine)
    with assms(3) show ?thesis by (simp add: kept_fresh_def)
  qed
  from step show ?thesis
  proof cases
    case (give_back)
    then show ?thesis using no_give m(2) by (auto simp: gives_up_def)
  next
    case (finish token k' reply)
    then show ?thesis using no_give [of token] m(2) by (auto simp: gives_up_def)
  next
    case (failing token err)
    then show ?thesis using no_give [of token] m(2) by (auto simp: gives_up_def)
  qed (use m not_open not_stale in \<open>auto simp: request_target_def reply_target_def\<close>)
qed

lemma exec_keeps_lease:
  assumes "getLease q k = Some l" "\<not> gives_up k a"
    and m: "m \<in> set (messages q)" "m_id m = k" "m_status m = MClaimed" "m_claimed_by m = Some (l_claimedBy l)" "legacy m" "ordinary m"
    and "\<not> claim_open env now m" "distinct_messages q"
  shows "getLease (exec env now a q) k = Some l"
proof (cases a)
  case (Next self at)
  show ?thesis
  proof (cases rule: claimNextRequest_cases [of env "at_locked at" now "fst self" "snd self" "claimed_by_text env (at_token at)" q])
    case idle
    then show ?thesis using assms(1) by (simp add: Next tryClaim_def Let_def)
  next
    case (taken n)
    have "m_id n \<noteq> k"
    proof
      assume "m_id n = k"
      then have "n = m" using unique_row [OF assms(10) m(1) taken(1)] m(2) by simp
      with taken(2) assms(9) show False by (simp add: request_target_def)
    qed
    then show ?thesis using taken(5) assms(1)
      by (auto simp: Next tryClaim_def Let_def getLease_def registerLease_def update_conv')
  qed
next
  case (Push pe d k' inp)
  then show ?thesis using assms(1)
    by (auto simp: queue_push_def Let_def emitQueueNotifyBestEffort_def getLease_def split: sum.splits prod.splits if_splits)
next
  case (Cancel_Next k')
  then have k': "k' \<noteq> k" using assms(2) by (simp add: gives_up_def)
  show ?thesis
  proof (cases "getLease q k'")
    case (Some l')
    show ?thesis using Some assms(1) k'
      by (cases rule: rollback_cases [of k' "l_claimedBy l'" "releaseLease k' q"])
        (auto simp: Cancel_Next getLease_def releaseLease_def delete_conv')
  qed (use assms(1) in \<open>simp add: Cancel_Next\<close>)
next
  case (Ack_Reply locked self ids)
  show ?thesis using assms(1)
    by (cases rule: claimNextReply_cases [of env locked now "fst self" "snd self" ids "''mcp:'' @ instance_id env" q])
      (auto simp: Ack_Reply getLease_def)
next
  case (Refresh reachable k')
  have "owned_claim k (l_claimedBy l) m" using m by (simp add: owned_claim_def)
  then have "count_where (owned_claim k (l_claimedBy l)) (messages q) \<noteq> 0" using m(1) by (auto simp: count_where_0)
  then show ?thesis using assms(1)
    by (cases "k' = k") (auto simp: Refresh refresh_one_def getLease_def releaseLease_def delete_conv' split: option.splits)
next
  case (Sweep locked)
  then show ?thesis using assms(1) by (simp add: sweep_eq Let_def getLease_def)
next
  case (Done newId k' reply token)
  then have k': "k' \<noteq> k" using assms(2) by (simp add: gives_up_def)
  obtain q' r where d: "queue_done env newId now k' reply token q = (q', r)" by fastforce
  then show ?thesis using assms(1) k' by (auto simp: Done getLease_def delete_conv' elim!: queue_doneE)
next
  case (Fail k' err token)
  then have k': "k' \<noteq> k" using assms(2) by (simp add: gives_up_def)
  obtain q' r where d: "queue_fail env now k' err token q = (q', r)" by fastforce
  then show ?thesis using assms(1) k' by (auto simp: Fail getLease_def delete_conv' elim!: queue_failE)
next
  case (Archive k')
  obtain q' r where d: "archiveQueueSubtree env now k' q = (q', r)" by fastforce
  then show ?thesis using assms(1) by (auto simp: Archive queue_archive_def getLease_def elim!: archiveE split: sum.splits)
next
  case (Unarchive k')
  obtain q' r where d: "unarchiveQueueSubtree env k' q = (q', r)" by fastforce
  then show ?thesis using assms(1) by (auto simp: Unarchive queue_unarchive_def getLease_def elim!: unarchiveE split: sum.splits)
next
  case Restart
  then show ?thesis using assms(2) by (simp add: gives_up_def)
qed

lemma holds_claim_exec:
  assumes "holds_claim p k l s" "owners_unique s" "distinct_system s" "intervals_fit envs"
    and "fresh_draws envs p' a s" "kept_fresh p k now p' a s"
  shows "holds_claim p k l (sys_exec envs now p' a s)"
proof -
  obtain m where m: "m \<in> set (sy_messages s)" "m_id m = k" "m_status m = MClaimed" "m_claimed_by m = Some (l_claimedBy l)"
    "legacy m" "ordinary m" and reg: "map_of (sy_regs s p) k = Some l"
    using assms(1) by (auto simp: holds_claim_def)
  have iv: "intervals_ok (envs p')" "300000 \<le> pg_interval (envs p') (reclaimInterval (envs p'))"
    using assms(4) by (simp_all add: intervals_fit_def)
  from assms(3,5) have row: "\<exists>m' \<in> set (sy_messages (sys_exec envs now p' a s)). m_id m' = k \<and> m_status m' = MClaimed \<and>
      m_claimed_by m' = Some (l_claimedBy l) \<and> legacy m' \<and> ordinary m'"
  proof (rule sys_rows [of s envs p' a now])
    fix f new
    assume rows: "sy_messages (sys_exec envs now p' a s) = map f (sy_messages s) @ new"
      and step: "\<And>m. m \<in> set (sy_messages s) \<Longrightarrow> row_step (envs p') now (seen_by p' s) a m (f m)"
    from holds_claim_row [OF assms(1,2,6) iv m(1-4) step [OF m(1)]] row_step_fixed [OF step [OF m(1)]] m
    show ?thesis by (intro bexI [of _ "f m"]) (simp_all add: rows)
  qed
  moreover have "map_of (sy_regs (sys_exec envs now p' a s) p) k = Some l"
  proof (cases "p' = p")
    case False
    then show ?thesis using reg by (simp add: sys_exec_def Let_def)
  next
    case True
    obtain c where "m_claimed_at m = Some c" "now \<le> c + 300000" using assms(6) m unfolding kept_fresh_def by blast
    then have "\<not> claim_open (envs p') now m" using m(3) iv by (simp add: claim_open_def older_than_def)
    moreover have "\<not> gives_up k a" using assms(6) True by (simp add: kept_fresh_def)
    moreover have "distinct_messages (seen_by p s)" using assms(3) by (simp add: distinct_messages_def distinct_system_def)
    moreover have "getLease (seen_by p s) k = Some l" using reg by (simp add: getLease_def)
    ultimately have "getLease (exec (envs p) now a (seen_by p s)) k = Some l"
      using m True by (intro exec_keeps_lease [of "seen_by p s" k l a m "envs p" now]) simp_all
    then show ?thesis by (simp add: sys_exec_def Let_def getLease_def True)
  qed
  ultimately show ?thesis by (simp add: holds_claim_def)
qed

text \<open>
  C19. A claim whose holder lives is never taken away. As long as the process does not give the message up itself
  and each action of any process happens within five minutes of the claim's last refresh, the row keeps the
  holder's claim and the process its lease, through any interleaving of claims, sweeps, refreshes, endings, archives,
  pushes and restarts of the others; and at the end the holder, with its token, may still finish the message.
\<close>

theorem live_claim_kept:
  assumes "history envs (kept_fresh p k) t0 s0 t s" and "holds_claim p k l s0"
    and "owners_unique s0" and "distinct_system s0" and "intervals_fit envs" and "envs_ok envs"
  shows "holds_claim p k l s \<and> (\<exists>m. finishable (envs p) (seen_by p s) k (Some (l_claimToken l)) = Inr m)"
proof -
  have "holds_claim p k l s \<and> owners_unique s \<and> distinct_system s"
    using assms(1)
  proof (induction rule: history.induct)
    case (act t s t' p' a)
    then show ?case using holds_claim_exec owners_unique_exec distinct_system_exec assms(5) by blast
  qed (use assms in simp)
  note H = this
  then obtain m where m: "m \<in> set (sy_messages s)" "m_id m = k" "m_status m = MClaimed" "m_claimed_by m = Some (l_claimedBy l)" "legacy m"
    and reg: "map_of (sy_regs s p) k = Some l"
    by (auto simp: holds_claim_def)
  have "distinct_messages (seen_by p s)" using H by (simp add: distinct_messages_def distinct_system_def)
  then have "find_message k (seen_by p s) = Some m" using find_message_unique [of "seen_by p s" m] m(1,2) by simp
  moreover have "MClaimed \<notin> set (QUEUE_TERMINAL_STATUSES (vocab (envs p)))" using assms(6) by (simp add: envs_ok_def vocab_ok_def)
  moreover have "may_finish (seen_by p s) m (Some (l_claimToken l))" using m reg by (simp add: may_finish_def getLease_def)
  ultimately have "finishable (envs p) (seen_by p s) k (Some (l_claimToken l)) = Inr m" using m by (simp add: finishable_iff)
  with H show ?thesis by blast
qed

end
