(* ===== verification/Queue_Samples.thy ===== *)
theory Queue_Samples
  imports Queue_Leases Queue_Receive_Laws Queue_Push_Laws Queue_Views Queue_Marked_Laws Samples
begin

text \<open>
  A small queue on which the hypotheses of the queue's theorems hold: two addresses, a waiting request, a claimed
  one, a finished one with its reply; a planning table with one task; a run with a ready consumer.
\<close>

section \<open>The queue\<close>

definition sample_vocab :: queue_vocab where
  "sample_vocab = \<lparr>QUEUE_SERVERS = [''mac'', ''srv''], QUEUE_MODELS = [''claude'', ''codex''],
     QUEUE_REQUEST_TYPES = [''task'', ''info''], QUEUE_RESPONSE_TYPES = [''result'', ''data''],
     QUEUE_REPLY_TYPE = (\<lambda>t. if t = ''task'' then ''result'' else ''data''),
     QUEUE_TERMINAL_STATUSES = [MDone, MFailed, MCancelled], QUEUE_JOB_SERVER = ''job'', QUEUE_DISPATCH_SERVER = ''dispatch'',
     PRESENCE_FRESH_SECONDS = 45,
     parseQueueAddress = (\<lambda>s. if s = ''srv:codex'' then Some (AddressOf ''srv'' ''codex'') else None),
     formatQueueAddress = (\<lambda>_. ''srv:codex'')\<rparr>"

definition sample_qenv :: queue_env where
  "sample_qenv = \<lparr>S4M_SERVER = Some ''srv'', S4M_MODEL = Some ''codex'', S4M_RECLAIM_DEFAULT = None, instance_id = ''i1'',
     pg_interval = (\<lambda>s. if s = ''5 minutes'' then 300000 else 14400000), vocab = sample_vocab,
     caller = copilot_call, accounts = copilot_db\<rparr>"

definition sample_message :: message where
  "sample_message = \<lparr>m_id = ''m1'', m_type = ''task'', m_from_server = ''mac'', m_from_model = ''claude'',
     m_to_server = ''srv'', m_to_model = ''codex'', m_body = ''do'', m_meta = JObj [(''work_item'', JObj [(''product_id'', JStr ''p1''), (''story_id'', JStr ''s1'')])],
     m_source = ''mcp'', m_status = MPending, m_in_reply_to = None, m_error = None, m_claimed_by = None, m_claimed_at = None,
     m_started_at = None, m_finished_at = None, m_created_at = 1, m_archived_at = None,
     ppe_protocol = None, ppe_run_id = None, ppe_operation_key = None, ppe_payload_sha256 = None,
     ppe_from_principal = None, ppe_to_principal = None, ppe_to_consumer_id = None,
     ppe_consumer_generation = None, ppe_lease_generation = None,
     dispatch_request_id = None, dispatch_projection_version = None, dispatch_role = None\<rparr>"

definition claimed_sample :: message where
  "claimed_sample = sample_message\<lparr>m_id := ''m2'', m_status := MClaimed, m_claimed_by := Some ''mcp:i1:t2'',
     m_claimed_at := Some 2, m_started_at := Some 2\<rparr>"

definition done_sample :: message where
  "done_sample = sample_message\<lparr>m_id := ''m3'', m_status := MDone, m_finished_at := Some 3\<rparr>"

definition reply_sample :: message where
  "reply_sample = reply_row sample_qenv ''m4'' 3 done_sample ''ok''"

definition sample_queue :: queue where
  "sample_queue = \<lparr>messages = [sample_message, claimed_sample, done_sample, reply_sample], sent = [],
     leases = [(''m2'', \<lparr>l_claimToken = ''t2'', l_claimedBy = ''mcp:i1:t2''\<rparr>)]\<rparr>"

lemma sample_facts:
  "distinct_messages sample_queue"
  "register_ok sample_qenv sample_queue"
  "intervals_ok sample_qenv"
  "vocab_ok (vocab sample_qenv)"
  by code_simp+

definition sample_attempt :: "string \<Rightarrow> attempt" where
  "sample_attempt token = \<lparr>at_now = 10, at_token = token, at_locked = (\<lambda>_. False), at_others = id,
     at_aborted_before = False, at_aborted_after = False\<rparr>"

section \<open>Instances of the theorems\<close>

text \<open>The hypotheses of \<open>message_claims_exclusive\<close> hold of two claimants on the sample.\<close>

definition sample_claims :: "queue \<times> (message_claimant \<times> id) list" where
  "sample_claims = run_claims (claim_message sample_qenv (\<lambda>_. False) 10)
     [((''srv'', ''codex''), ''mcp:i1:a''), ((''srv'', ''codex''), ''mcp:i2:b'')] sample_queue"


text \<open>A claim of \<open>queue_next\<close> on the sample.\<close>

lemma sample_try:
  "\<exists>q' c. tryClaim sample_qenv (''srv'', ''codex'') (sample_attempt ''t1'') sample_queue = (q', Inr (Some c))"
proof -
  have "(case tryClaim sample_qenv (''srv'', ''codex'') (sample_attempt ''t1'') sample_queue of
      (_, Inr (Some c)) \<Rightarrow> True | _ \<Rightarrow> False)" by code_simp
  then show ?thesis by (auto split: prod.splits sum.splits option.splits)
qed


text \<open>The sender collects the reply.\<close>

theorem replies_collected_witness:
  "\<exists>q' vs. collectAvailableReplies sample_qenv (\<lambda>_ _. False) (\<lambda>_. 10) (''mac'', ''claude'') [''m3''] ''mcp:i1'' sample_queue = (q', Inr vs) \<and>
     distinct (map v_id vs)"
proof -
  obtain q' r where c: "collectAvailableReplies sample_qenv (\<lambda>_ _. False) (\<lambda>_. 10) (''mac'', ''claude'') [''m3''] ''mcp:i1'' sample_queue = (q', r)"
    by fastforce
  from replies_collected [OF sample_facts(1) c] c show ?thesis by blast
qed

text \<open>The holder finishes its message.\<close>

theorem finish_by_claim_holder_witness:
  "snd (queue_done sample_qenv ''m9'' 10 ''m2'' (Some ''ok'') (Some ''t2'') sample_queue) = Inr (Some ''m9'') \<and>
   (\<exists>m \<in> set (messages sample_queue). m_id m = ''m2'' \<and> may_finish sample_queue m (Some ''t2''))"
proof -
  have r: "snd (queue_done sample_qenv ''m9'' 10 ''m2'' (Some ''ok'') (Some ''t2'') sample_queue) = Inr (Some ''m9'')" by code_simp
  from finish_by_claim_holder [OF sample_facts(1), where env = sample_qenv and newId = "''m9''" and now = 10 and k = "''m2''"
      and reply = "Some ''ok''" and token = "Some ''t2''" and err = "[]"] r
  show ?thesis by (auto split: prod.splits sum.splits)
qed

text \<open>After six minutes the claim of the sample is dead.\<close>

theorem sweep_requeues_dead_claims_witness:
  "snd (sweepStaleQueueClaims sample_qenv (\<lambda>_. False) 360000 sample_queue) = Inr [''m2''] \<and> distinct [''m2'']"
proof -
  have r: "snd (sweepStaleQueueClaims sample_qenv (\<lambda>_. False) 360000 sample_queue) = Inr [''m2'']" by code_simp
  from sweep_requeues_dead_claims [OF sample_facts(1,3), of "\<lambda>_. False" 360000] obtain q' ids
    where "sweepStaleQueueClaims sample_qenv (\<lambda>_. False) 360000 sample_queue = (q', Inr ids)" "distinct ids" by blast
  with r show ?thesis by simp
qed

text \<open>The finished thread is archived.\<close>

theorem archive_whole_thread_witness:
  "\<exists>q' rows n. archiveQueueSubtree sample_qenv 10 ''m3'' (sample_queue\<lparr>messages := [done_sample]\<rparr>) = (q', Inr (rows, n)) \<and>
     (\<forall>now'. archiveQueueSubtree sample_qenv now' ''m3'' q' = (q', Inr (rows, 0)))"
proof -
  have "(case archiveQueueSubtree sample_qenv 10 ''m3'' (sample_queue\<lparr>messages := [done_sample]\<rparr>) of (_, Inr _) \<Rightarrow> True | _ \<Rightarrow> False)"
    by code_simp
  then obtain q' x where a: "archiveQueueSubtree sample_qenv 10 ''m3'' (sample_queue\<lparr>messages := [done_sample]\<rparr>) = (q', Inr x)"
    by (auto split: prod.splits sum.splits)
  obtain rows n where x: "x = (rows, n)" by (cases x)
  from archive_whole_thread [OF a [unfolded x]] a x show ?thesis by auto
qed

section \<open>Histories\<close>

definition sample_system :: system where
  "sample_system = \<lparr>sy_messages = messages sample_queue, sy_sent = [],
     sy_regs = (\<lambda>p. if p = 0 then leases sample_queue else [])\<rparr>"

definition sample_envs :: "nat \<Rightarrow> queue_env" where
  "sample_envs p = sample_qenv"

lemma sample_system_facts:
  "envs_ok sample_envs" "distinct_system sample_system" "replies_ok (vocab (sample_envs 0)) sample_system"
  "intervals_fit sample_envs" "owners_unique sample_system"
  "holds_claim 0 ''m2'' \<lparr>l_claimToken = ''t2'', l_claimedBy = ''mcp:i1:t2''\<rparr> sample_system"
proof -
  have v: "vocab_ok sample_vocab" by code_simp
  show "envs_ok sample_envs" using v by (simp add: envs_ok_def sample_envs_def sample_qenv_def)
  show "distinct_system sample_system" by code_simp
  show "replies_ok (vocab (sample_envs 0)) sample_system"
    by (simp add: replies_ok_def sample_system_def sample_queue_def reply_sample_def reply_row_def done_sample_def
        claimed_sample_def sample_message_def sample_envs_def sample_qenv_def)
  have "intervals_ok sample_qenv \<and> 300000 \<le> pg_interval sample_qenv (reclaimInterval sample_qenv)" by code_simp
  then show "intervals_fit sample_envs" by (simp add: intervals_fit_def sample_envs_def)
  show "owners_unique sample_system" by (simp add: owners_unique_def sample_system_def sample_queue_def)
  show "holds_claim 0 ''m2'' \<lparr>l_claimToken = ''t2'', l_claimedBy = ''mcp:i1:t2''\<rparr> sample_system"
    by (simp add: holds_claim_def sample_system_def sample_queue_def claimed_sample_def sample_message_def legacy_def ordinary_def)
qed

text \<open>Another process finishes the waiting request without a claim.\<close>

definition sample_act :: queue_action where
  "sample_act = Done ''m9'' ''m1'' (Some ''ok'') None"

lemma sample_history: "G 20 1 sample_act sample_system \<Longrightarrow>
  history sample_envs G 10 sample_system 20 (sys_exec sample_envs 20 1 sample_act sample_system)"
proof -
  assume G: "G 20 1 sample_act sample_system"
  have "fresh_draws sample_envs 1 sample_act sample_system"
    by (simp add: fresh_draws_def sample_act_def sample_system_def sample_queue_def reply_sample_def reply_row_def done_sample_def
        claimed_sample_def sample_message_def)
  with G show ?thesis by (intro history.act [OF history.start]) simp_all
qed

theorem finished_messages_final_witness:
  "\<exists>x. done_sample\<lparr>m_archived_at := x\<rparr> \<in> set (sy_messages (sys_exec sample_envs 20 1 sample_act sample_system))"
  by (rule finished_messages_final [OF sample_history [where G = "\<lambda>_ _ _ _. True"] sample_system_facts(1,2)])
    (simp_all add: sample_system_def sample_queue_def done_sample_def)

theorem one_reply_per_request_witness:
  "replies_ok sample_vocab (sys_exec sample_envs 20 1 sample_act sample_system)"
  using one_reply_per_request [OF sample_history [where G = "\<lambda>_ _ _ _. True"] sample_system_facts(1-3)]
  by (simp add: sample_envs_def sample_qenv_def)

theorem live_claim_kept_witness:
  "\<exists>m. finishable sample_qenv (seen_by 0 (sys_exec sample_envs 20 1 sample_act sample_system)) ''m2'' (Some ''t2'') = Inr m"
proof -
  have "kept_fresh 0 ''m2'' 20 1 sample_act sample_system"
    by (simp add: kept_fresh_def sample_system_def sample_queue_def reply_sample_def reply_row_def done_sample_def
        claimed_sample_def sample_message_def)
  from live_claim_kept [OF sample_history [where G = "kept_fresh 0 ''m2''", OF this] sample_system_facts(6,5,2,4,1)] show ?thesis
    by (simp add: sample_envs_def)
qed

section \<open>Sending and searching\<close>

definition given_task_only :: WorkItemInput where
  "given_task_only = \<lparr>wi_sprint_id = None, wi_story_id = None, wi_task_id = Some ''t1''\<rparr>"

definition sample_block :: WorkItemBlock where
  "sample_block = \<lparr>wb_product_id = ''p1'', wb_sprint_id = Some ''sp1'', wb_story_id = Some ''s1'', wb_task_id = Some ''t1''\<rparr>"

lemma sample_work_item:
  "nonblank_ids sample_db"
  "mergeWorkItemInputs given_task_only (extractWorkItemIds None) = Inr given_task_only"
  "resolveWorkItem sample_db given_task_only = Inr (Some sample_block)"
proof -
  show "nonblank_ids sample_db"
    by (simp add: nonblank_ids_def sample_db_def sample_task_def sample_story_def sample_sprint_def trim_def trim_start_def js_space_def)
qed code_simp+

theorem work_item_canonical_witness:
  "consistent_block sample_db sample_block \<and>
   work_item_meta sample_db no_ids [(''work_item'', block_json sample_block)] = Inr [(''work_item'', block_json sample_block)]"
  using work_item_canonical [OF sample_work_item] by blast

definition sample_push_env :: push_env where
  "sample_push_env = \<lparr>pe_queue = sample_qenv, pe_git_origin = (\<lambda>_. None), pe_review_schema = (\<lambda>_. Inl []),
     pe_presence = [], pe_notify_works = True, pe_presence_readable = False\<rparr>"

definition sample_push :: push_input where
  "sample_push = \<lparr>pi_to = ''srv:codex'', pi_type = ''info'', pi_body = ''how?'', pi_meta = None, pi_cwd = None, pi_as = None,
     pi_ids = given_task_only\<rparr>"

theorem push_adds_one_message_witness:
  "\<exists>q' reply row. queue_push sample_push_env sample_db ''m9'' 10 sample_push sample_queue = (q', Inr reply) \<and>
     messages q' = messages sample_queue @ [row] \<and> m_status row = MPending"
proof -
  have "(case queue_push sample_push_env sample_db ''m9'' 10 sample_push sample_queue of (_, Inr _) \<Rightarrow> True | _ \<Rightarrow> False)"
    by code_simp
  then obtain q' reply where p: "queue_push sample_push_env sample_db ''m9'' 10 sample_push sample_queue = (q', Inr reply)"
    by (auto split: prod.splits sum.splits)
  from push_adds_one_message [OF p] show ?thesis unfolding sum.case using p by blast
qed

theorem search_is_guarded_witness:
  "\<exists>vs t auth. queue_find_by_work_item sample_qenv 10 None (Some ''s1'') None None sample_queue = Inr (vs, t) \<and> vs \<noteq> [] \<and>
     requireWriteAccess 10 (caller sample_qenv) (accounts sample_qenv) = Inr auth"
proof -
  have "(case queue_find_by_work_item sample_qenv 10 None (Some ''s1'') None None sample_queue of Inr (vs, _) \<Rightarrow> vs \<noteq> [] | _ \<Rightarrow> False)"
    by code_simp
  then obtain vs t where f: "queue_find_by_work_item sample_qenv 10 None (Some ''s1'') None None sample_queue = Inr (vs, t)" "vs \<noteq> []"
    by (auto split: prod.splits sum.splits)
  from search_is_guarded [OF f(1)] f show ?thesis by blast
qed

theorem presence_decision_witness:
  "\<exists>v. readPresenceViews sample_qenv 10 [unseen ''srv'' ''codex''] sample_queue (Some ''srv'') (Some ''codex'') = [v] \<and>
     pv_address v = ''srv:codex''"
  using presence_decision [of sample_qenv None None None None 0 10 "[unseen ''srv'' ''codex'']" sample_queue "''srv''" "''codex''"]
  by auto

section \<open>The marked route\<close>

definition marked_message :: message where
  "marked_message = sample_message\<lparr>m_id := ''k1'', ppe_protocol := Some ''parallel-plan-execution/v1'', ppe_run_id := Some ''r1'',
     ppe_operation_key := Some ''op'', ppe_payload_sha256 := Some ''h'', ppe_from_principal := Some ''orchestrator:r1'',
     ppe_to_consumer_id := Some ''c1'', ppe_consumer_generation := Some 1\<rparr>"

definition sample_marked :: marked where
  "sample_marked = \<lparr>mk_runs = [\<lparr>rn_run_id = ''r1'', rn_generation = 1, rn_state = ''ACTIVE'', rn_principal = ''orchestrator:r1''\<rparr>],
     mk_orchestrators = [\<lparr>ol_run_id = ''r1'', ol_generation = 1, ol_owner_principal = ''orchestrator:r1'',
       ol_lease_expires_at = 100, ol_fence_sha256 = ''f'', ol_status = ''CURRENT''\<rparr>],
     mk_consumers = [\<lparr>pc_consumer_id = ''c1'', pc_run_id = ''r1'', pc_lane = ''lane-codex'', pc_generation = 1,
       pc_operation_key = ''reg'', pc_config_sha256 = ''g'', pc_attestation_sha256 = ''a'', pc_status = ''READY_ACK'', pc_heartbeat_at = Some 1\<rparr>],
     mk_leases = [], mk_messages = [sample_message, marked_message]\<rparr>"

definition sample_authority :: consumer_authority where
  "sample_authority = \<lparr>au_run_id = ''r1'', au_run_generation = 1, au_orchestrator_generation = 1, au_fence_sha256 = ''f'',
     au_consumer_id = ''c1'', au_consumer_generation = 1\<rparr>"

definition sample_claim_marked :: marked_action where
  "sample_claim_marked = ClaimMarked (\<lambda>_. False) ''tok'' sample_authority [''task'']"

definition sample_marked_step :: "marked \<times> bool" where
  "sample_marked_step = marked_step (\<lambda>x. CHR ''#'' # x) 10 sample_claim_marked sample_marked"

lemma sample_marked_facts:
  "distinct (map m_id (mk_messages sample_marked))"
  "leases_ok sample_marked \<and> lanes_ok sample_marked"
  "action_ok sample_claim_marked sample_marked"
proof -
  show "leases_ok sample_marked \<and> lanes_ok sample_marked"
    by (simp add: leases_ok_def lanes_ok_def sample_marked_def sample_message_def marked_message_def)
  show "action_ok sample_claim_marked sample_marked" by (simp add: action_ok_def sample_claim_marked_def)
qed code_simp

lemma sample_marked_accepted: "length (mk_leases (fst sample_marked_step)) = 1"
  by code_simp

theorem marked_route_fenced_witness:
  "length (mk_leases (fst sample_marked_step)) = 1 \<and> sample_message \<in> set (mk_messages (fst sample_marked_step))"
proof -
  have "marked_step (\<lambda>x. CHR ''#'' # x) 10 sample_claim_marked sample_marked = (fst sample_marked_step, snd sample_marked_step)"
    by (simp add: sample_marked_step_def)
  from marked_route_fenced [OF this sample_marked_facts(1)] sample_marked_accepted show ?thesis
    by (simp add: sample_marked_def legacy_def sample_message_def)
qed


end
