(* ===== verification/Json_Text.thy ===== *)
theory Json_Text
  imports Prelude "HOL-Library.Multiset"
begin

text \<open>
  JSON values and their text: \<open>JSON.stringify\<close>, \<open>Buffer.byteLength\<close> of a text and \<open>canonicalResult\<close> of
  \<open>src/src/dispatch/lifecycle.ts\<close>, which writes the keys of an object in order so that a value has one text. An object
  is formed without the fields whose value is \<open>undefined\<close>. The keys that occur are lower-case words, on which \<open>localeCompare\<close> is the order of
  the characters.
\<close>

datatype json = JNull | JBool bool | JNum int | JStr string | JArr "json list" | JObj "(string \<times> json) list"

section \<open>Text\<close>

definition hex_digit :: "nat \<Rightarrow> char" where
  "hex_digit n = ''0123456789abcdef'' ! n"

definition json_char :: "char \<Rightarrow> string" where
  "json_char c = (let n = of_char c :: nat in
     if n = 34 then [CHR 92, CHR 34] else if n = 92 then [CHR 92, CHR 92]
     else if n = 8 then [CHR 92, CHR ''b''] else if n = 9 then [CHR 92, CHR ''t''] else if n = 10 then [CHR 92, CHR ''n'']
     else if n = 12 then [CHR 92, CHR ''f''] else if n = 13 then [CHR 92, CHR ''r'']
     else if n < 32 then CHR 92 # ''u00'' @ [hex_digit (n div 16), hex_digit (n mod 16)]
     else [c])"

definition json_string :: "string \<Rightarrow> string" where
  "json_string s = [CHR 34] @ concat (map json_char s) @ [CHR 34]"

definition json_int :: "int \<Rightarrow> string" where
  "json_int n = int_digits n"

definition defined_fields :: "(string \<times> json option) list \<Rightarrow> (string \<times> json) list" where
  "defined_fields kvs = List.map_filter (\<lambda>(k, v). map_option (Pair k) v) kvs"

lemma defined_fields_simps [simp]:
  "defined_fields [] = []"
  "defined_fields ((k, None) # kvs) = defined_fields kvs"
  "defined_fields ((k, Some v) # kvs) = (k, v) # defined_fields kvs"
  "defined_fields (xs @ ys) = defined_fields xs @ defined_fields ys"
  by (simp_all add: defined_fields_def map_filter_def)

fun stringify :: "json \<Rightarrow> string" where
  "stringify JNull = ''null''"
| "stringify (JBool b) = (if b then ''true'' else ''false'')"
| "stringify (JNum n) = json_int n"
| "stringify (JStr s) = json_string s"
| "stringify (JArr xs) = ''['' @ join '','' (map stringify xs) @ '']''"
| "stringify (JObj kvs) = ''{'' @ join '','' (map (\<lambda>kv. json_string (fst kv) @ '':'' @ stringify (snd kv)) kvs) @ ''}''"

fun canonicalResult :: "json \<Rightarrow> string" where
  "canonicalResult (JArr xs) = ''['' @ join '','' (map canonicalResult xs) @ '']''"
| "canonicalResult (JObj kvs) =
     ''{'' @ join '','' (map snd (sort_key fst (map (\<lambda>kv. (fst kv, json_string (fst kv) @ '':'' @ canonicalResult (snd kv))) kvs))) @ ''}''"
| "canonicalResult v = stringify v"

text \<open>\<open>Buffer.from(text, 'utf8')\<close>: a character from 128 on takes two bytes.\<close>

definition utf8_char :: "char \<Rightarrow> string" where
  "utf8_char c = (let n = of_char c :: nat in if n < 128 then [c] else [char_of (192 + n div 64), char_of (128 + n mod 64)])"

definition utf8 :: "string \<Rightarrow> string" where
  "utf8 s = concat (map utf8_char s)"

definition utf8_length :: "string \<Rightarrow> nat" where
  "utf8_length s = length (utf8 s)"

lemma utf8_append [simp]: "utf8 (s @ t) = utf8 s @ utf8 t"
  by (simp add: utf8_def)

lemma utf8_length_append [simp]: "utf8_length (s @ t) = utf8_length s + utf8_length t"
  by (simp add: utf8_length_def)

lemma utf8_length_le: "utf8_length s \<le> 2 * length s"
  by (induction s) (auto simp: utf8_length_def utf8_def utf8_char_def Let_def)

section \<open>The canonical text does not depend on the order of the keys\<close>

lemma sorted_keys_unique:
  assumes "distinct (map fst xs)" "set xs = set ys" "length xs = length ys"
  shows "sort_key fst xs = sort_key fst (ys :: ('k::linorder \<times> 'v) list)"
proof -
  have d: "distinct xs" using assms(1) by (simp add: distinct_map)
  have dy: "distinct ys" using d assms(2,3) by (metis card_distinct distinct_card)
  have "mset xs = mset ys" using d dy assms(2) by (simp add: set_eq_iff_mset_eq_distinct)
  moreover have "inj_on fst (set xs)" using assms(1) by (simp add: distinct_map)
  ultimately show ?thesis by (intro sort_key_inj_key_eq) simp_all
qed

lemma canonical_key_order:
  assumes d: "distinct (map fst xs)" and e: "mset xs = mset ys"
  shows "canonicalResult (JObj xs) = canonicalResult (JObj ys)"
proof -
  let ?f = "\<lambda>kv. (fst kv, json_string (fst kv) @ '':'' @ canonicalResult (snd kv))"
  have "sort_key fst (map ?f xs) = sort_key fst (map ?f ys)"
    using d e mset_eq_setD[OF e] mset_eq_length[OF e] by (intro sorted_keys_unique) (simp_all add: o_def)
  then show ?thesis by simp
qed

end
