(* ===== verification/Dispatch_Auth.thy ===== *)
theory Dispatch_Auth
  imports Access Job_Types
begin

text \<open>
  Who may do what with a managed dispatch: \<open>src/src/dispatch/auth.ts\<close>. Every operation reads the
  actor's token, user and product rights again from the database; nothing of an earlier check is kept.
  The tables the checks read are the record \<open>grants\<close>. The signed assertions of the other services
  (\<open>assertions.ts\<close>) and the hash of a bearer token are not modelled: an actor arrives resolved.
\<close>

section \<open>Errors and the request's input\<close>

text \<open>\<open>DispatchErrorCode\<close>, as far as the modelled code throws it, and any other exception.\<close>

datatype derror =
    DISPATCH_UNAUTHENTICATED | DISPATCH_FORBIDDEN | DISPATCH_NOT_FOUND | DISPATCH_IDEMPOTENCY_CONFLICT
  | DISPATCH_STATE_CONFLICT | DISPATCH_INVALID_INPUT | DISPATCH_TOO_LARGE | Exception string

fun is_DispatchError :: "derror \<Rightarrow> bool" where
  "is_DispatchError (Exception _) = False"
| "is_DispatchError _ = True"

text \<open>\<open>dispatchHttpStatus\<close>.\<close>

fun dispatchHttpStatus :: "derror \<Rightarrow> nat" where
  "dispatchHttpStatus DISPATCH_UNAUTHENTICATED = 401"
| "dispatchHttpStatus DISPATCH_FORBIDDEN = 403"
| "dispatchHttpStatus DISPATCH_NOT_FOUND = 404"
| "dispatchHttpStatus DISPATCH_IDEMPOTENCY_CONFLICT = 409"
| "dispatchHttpStatus DISPATCH_STATE_CONFLICT = 409"
| "dispatchHttpStatus DISPATCH_INVALID_INPUT = 422"
| "dispatchHttpStatus DISPATCH_TOO_LARGE = 413"
| "dispatchHttpStatus (Exception _) = 500"

text \<open>
  The parsed input of a request, with the fields the service reads. Actions, access levels, publish modes
  and document sources are the strings of the shared contract.
\<close>

record repo_ref =
  rr_product_id :: id
  rr_base_sha :: string

record doc_ref =
  df_source :: string
  df_product_id :: id
  df_key :: string
  df_sha256 :: string
  df_doc_id :: id
  df_revision_id :: id

record dispatch_input =
  di_product_id :: id
  di_action :: string
  di_task_id :: "id option"
  di_access :: string
  di_runtime :: "agent_runtime option"
  di_environment_keys :: "string list"
  di_repository :: "repo_ref option"
  di_publish :: string
  di_review_documents :: "doc_ref list"
  di_reply_to :: string

section \<open>Actors and rights\<close>

datatype actor_source = Bearer | Workers | Web

record actor =
  da_userId :: id
  da_principalKey :: string
  da_tokenId :: "id option"
  da_source :: actor_source
  da_scopedProducts :: "id list"
  da_scopedRepos :: "string list"
  da_tokenKind :: "api_token_kind option"

record dispatch_token = api_token +
  tk_scoped_repos :: "string list"

record dproduct =
  gp_id :: id
  gp_user_id :: id
  gp_repo_url :: "string option"

record member =
  mb_product_id :: id
  mb_user_id :: id
  mb_access :: string
  mb_role :: string

record grants =
  g_tokens :: "dispatch_token list"
  g_users :: "(id \<times> bool) list"
  g_admins :: "id list"
  g_products :: "dproduct list"
  g_members :: "member list"
  g_reply_addresses :: "(id \<times> string) list"

definition bearer_key :: "id \<Rightarrow> id \<Rightarrow> string" where
  "bearer_key userId tokenId = ''bearer:'' @ userId @ '':'' @ tokenId"

fun source_name :: "actor_source \<Rightarrow> string" where
  "source_name Bearer = ''bearer''"
| "source_name Workers = ''workers''"
| "source_name Web = ''web''"

definition tokenActor :: "dispatch_token \<Rightarrow> derror + actor" where
  "tokenActor t =
     (if tk_kind t = TK_COPILOT \<and> tk_scoped_products t = [] then Inl DISPATCH_UNAUTHENTICATED
      else Inr \<lparr>da_userId = tk_user_id t, da_principalKey = bearer_key (tk_user_id t) (tk_id t), da_tokenId = Some (tk_id t),
        da_source = Bearer, da_scopedProducts = tk_scoped_products t, da_scopedRepos = tk_scoped_repos t,
        da_tokenKind = Some (tk_kind t)\<rparr>)"

definition current_token :: "time \<Rightarrow> grants \<Rightarrow> actor \<Rightarrow> dispatch_token option" where
  "current_token now g a = find (\<lambda>t. tk_revoked_at t = None \<and> (case tk_expires_at t of None \<Rightarrow> True | Some e \<Rightarrow> e > now) \<and>
     Some (tk_id t) = da_tokenId a \<and> tk_user_id t = da_userId a) (g_tokens g)"

definition refreshActor :: "time \<Rightarrow> grants \<Rightarrow> actor \<Rightarrow> derror + actor" where
  "refreshActor now g a =
     and_then
       (if da_source a = Bearer then
          (case current_token now g a of None \<Rightarrow> Inl DISPATCH_UNAUTHENTICATED | Some t \<Rightarrow> tokenActor t)
        else if da_tokenId a \<noteq> None then Inl DISPATCH_UNAUTHENTICATED
        else Inr (a\<lparr>da_principalKey := source_name (da_source a) @ '':'' @ da_userId a,
               da_scopedProducts := [], da_scopedRepos := [], da_tokenKind := None\<rparr>))
       (\<lambda>current.
          if da_principalKey a \<noteq> da_principalKey current then Inl DISPATCH_UNAUTHENTICATED
          else case map_of (g_users g) (da_userId current) of
            None \<Rightarrow> Inl DISPATCH_UNAUTHENTICATED
          | Some is_demo \<Rightarrow>
              if is_demo \<or> da_source current = Workers \<and> da_userId current \<notin> set (g_admins g) then Inl DISPATCH_FORBIDDEN
              else Inr current)"

record product_rights =
  px_owner :: bool
  px_access :: "string option"
  px_role :: "string option"
  px_repo_url :: "string option"
  px_admin :: bool

definition product_row_of :: "grants \<Rightarrow> actor \<Rightarrow> id \<Rightarrow> product_rights option" where
  "product_row_of g a productId = map_option
     (\<lambda>p. let mb = find (\<lambda>x. mb_product_id x = productId \<and> mb_user_id x = da_userId a) (g_members g)
      in \<lparr>px_owner = (gp_user_id p = da_userId a), px_access = map_option mb_access mb, px_role = map_option mb_role mb,
          px_repo_url = gp_repo_url p, px_admin = (da_userId a \<in> set (g_admins g))\<rparr>)
     (find_by gp_id productId (g_products g))"

definition productAccess :: "grants \<Rightarrow> actor \<Rightarrow> id \<Rightarrow> bool \<Rightarrow> derror + product_rights" where
  "productAccess g a productId write_rights =
     (if da_scopedProducts a \<noteq> [] \<and> productId \<notin> set (da_scopedProducts a) then Inl DISPATCH_FORBIDDEN
      else case product_row_of g a productId of
        None \<Rightarrow> Inl DISPATCH_FORBIDDEN
      | Some p \<Rightarrow>
          if \<not> px_owner p \<and> (if write_rights then px_access p \<noteq> Some ''READ_WRITE''
               else or_else (px_access p) [] \<notin> {''READ_ONLY'', ''READ_WRITE''}) then Inl DISPATCH_FORBIDDEN
          else Inr p)"

definition repositoryScope :: "actor \<Rightarrow> string option \<Rightarrow> derror + unit" where
  "repositoryScope a repoUrl =
     (if \<not> truthy repoUrl \<or> da_scopedRepos a \<noteq> [] \<and> or_else repoUrl [] \<notin> set (da_scopedRepos a)
      then Inl DISPATCH_FORBIDDEN else Inr ())"

datatype dispatch_operation = Op_read | Op_submit | Op_cancel | Op_claim | Op_start | Op_publish | Op_recover | Op_profile

definition administers :: "product_rights \<Rightarrow> bool" where
  "administers p \<longleftrightarrow> px_owner p \<or> px_role p = Some ''PRODUCT_OWNER'' \<and> px_access p = Some ''READ_WRITE'' \<or> px_admin p"

fun documents_scope :: "grants \<Rightarrow> actor \<Rightarrow> doc_ref list \<Rightarrow> derror + unit" where
  "documents_scope g a [] = Inr ()"
| "documents_scope g a (ref # refs) =
     and_then (productAccess g a (df_product_id ref) False) (\<lambda>product.
     and_then (if df_source ref = ''git'' then repositoryScope a (px_repo_url product) else Inr ()) (\<lambda>_.
       documents_scope g a refs))"

definition execution_operation :: "dispatch_operation \<Rightarrow> bool" where
  "execution_operation operation \<longleftrightarrow> operation \<in> {Op_submit, Op_claim, Op_start, Op_publish}"

definition writes_code :: "dispatch_input \<Rightarrow> bool" where
  "writes_code inp \<longleftrightarrow> di_access inp = ''repo_write'' \<or> di_action inp = ''task_implementation''"

definition authorizeDispatch :: "time \<Rightarrow> grants \<Rightarrow> actor \<Rightarrow> dispatch_input \<Rightarrow> dispatch_operation \<Rightarrow> derror + unit" where
  "authorizeDispatch now g a inp operation =
     and_then (refreshActor now g a) (\<lambda>current.
       if da_source current = Web \<and> operation \<notin> {Op_read, Op_cancel} then Inl DISPATCH_FORBIDDEN
       else
         (let write_rights = execution_operation operation \<and> writes_code inp in
          if write_rights \<and> da_tokenKind current \<in> {Some TK_PLANNING, Some TK_WORKERS_UI} then Inl DISPATCH_FORBIDDEN
          else and_then (productAccess g current (di_product_id inp) write_rights) (\<lambda>main.
            if operation \<in> {Op_profile, Op_recover} \<and> \<not> administers main then Inl DISPATCH_FORBIDDEN
            else and_then
              (case di_repository inp of None \<Rightarrow> Inr ()
               | Some repo \<Rightarrow> and_then (productAccess g current (rr_product_id repo) write_rights)
                   (\<lambda>p. repositoryScope current (px_repo_url p)))
              (\<lambda>_. and_then (documents_scope g current (di_review_documents inp)) (\<lambda>_.
                 if operation = Op_submit \<and> (da_userId current, di_reply_to inp) \<notin> set (g_reply_addresses g)
                 then Inl DISPATCH_FORBIDDEN else Inr ())))))"

definition authorizeRequestRead :: "time \<Rightarrow> grants \<Rightarrow> actor \<Rightarrow> dispatch_input \<Rightarrow> id \<Rightarrow> derror + unit" where
  "authorizeRequestRead now g a inp ownerId =
     and_then (authorizeDispatch now g a inp Op_read) (\<lambda>_.
       if da_userId a = ownerId then Inr ()
       else if da_source a = Web then Inl DISPATCH_FORBIDDEN
       else and_then (refreshActor now g a) (\<lambda>current.
            and_then (productAccess g current (di_product_id inp) False) (\<lambda>p.
              if administers p then Inr () else Inl DISPATCH_FORBIDDEN)))"

section \<open>What an authorisation proves\<close>

lemma refreshActorE:
  assumes "refreshActor now g a = Inr current"
  obtains t where "da_source a = Bearer" "t \<in> set (g_tokens g)" "tk_revoked_at t = None"
      "\<And>e. tk_expires_at t = Some e \<Longrightarrow> now < e" "da_tokenId a = Some (tk_id t)" "tk_user_id t = da_userId a"
      "tokenActor t = Inr current" "map_of (g_users g) (da_userId a) = Some False"
    | "da_source a \<noteq> Bearer" "da_tokenId a = None" "da_scopedProducts current = []" "da_scopedRepos current = []"
      "da_tokenKind current = None" "da_source current = da_source a" "da_userId current = da_userId a"
      "map_of (g_users g) (da_userId a) = Some False" "da_source a = Workers \<Longrightarrow> da_userId a \<in> set (g_admins g)"
proof -
  obtain c where first: "(if da_source a = Bearer then
          (case current_token now g a of None \<Rightarrow> Inl DISPATCH_UNAUTHENTICATED | Some t \<Rightarrow> tokenActor t)
        else if da_tokenId a \<noteq> None then Inl DISPATCH_UNAUTHENTICATED
        else Inr (a\<lparr>da_principalKey := source_name (da_source a) @ '':'' @ da_userId a,
               da_scopedProducts := [], da_scopedRepos := [], da_tokenKind := None\<rparr>)) = Inr c"
    and rest: "(if da_principalKey a \<noteq> da_principalKey c then Inl DISPATCH_UNAUTHENTICATED
          else case map_of (g_users g) (da_userId c) of
            None \<Rightarrow> Inl DISPATCH_UNAUTHENTICATED
          | Some is_demo \<Rightarrow>
              if is_demo \<or> da_source c = Workers \<and> da_userId c \<notin> set (g_admins g) then Inl DISPATCH_FORBIDDEN
              else Inr c) = Inr current"
    using assms unfolding refreshActor_def and_then_Inr_iff by blast
  from rest have c: "c = current" "map_of (g_users g) (da_userId current) = Some False"
    "da_source current = Workers \<Longrightarrow> da_userId current \<in> set (g_admins g)"
    by (auto split: if_splits option.splits)
  show thesis
  proof (cases "da_source a = Bearer")
    case True
    then obtain t where t: "current_token now g a = Some t" "tokenActor t = Inr current"
      using first c(1) by (cases "current_token now g a") simp_all
    have in_tokens: "t \<in> set (g_tokens g) \<and> tk_revoked_at t = None \<and> (\<forall>e. tk_expires_at t = Some e \<longrightarrow> now < e) \<and>
      da_tokenId a = Some (tk_id t) \<and> tk_user_id t = da_userId a"
      using t(1) unfolding current_token_def find_Some_iff by (auto split: option.splits)
    moreover have "da_userId current = da_userId a"
      using t(2) in_tokens by (auto simp: tokenActor_def split: if_splits)
    ultimately show thesis using that(1) [of t] True t(2) c(2) by simp
  next
    case False
    then have "da_tokenId a = None" "current = a\<lparr>da_principalKey := source_name (da_source a) @ '':'' @ da_userId a,
        da_scopedProducts := [], da_scopedRepos := [], da_tokenKind := None\<rparr>"
      using first c(1) by (simp_all split: if_splits)
    then show thesis using that(2) False c(2,3) by simp
  qed
qed

lemma refreshed_user: "refreshActor now g a = Inr current \<Longrightarrow> da_userId current = da_userId a \<and> da_source current = da_source a"
  by (erule refreshActorE) (auto simp: tokenActor_def split: if_splits)

lemma productAccess_rights:
  assumes "productAccess g a k write_rights = Inr p"
  shows "(da_scopedProducts a = [] \<or> k \<in> set (da_scopedProducts a)) \<and> product_row_of g a k = Some p \<and>
    (px_owner p \<or> px_access p = Some ''READ_WRITE'' \<or> \<not> write_rights \<and> px_access p = Some ''READ_ONLY'')"
  using assms by (auto simp: productAccess_def split: if_splits option.splits) (cases "px_access p", auto)+


end
