(* ===== verification/Dispatch_Model.thy ===== *)
theory Dispatch_Model
  imports Dispatch_Auth Queue_Model Job_Eligibility Status_Propagation Json_Text
begin

text \<open>
  The state of the managed dispatch service: the tables \<open>queue_dispatch_*\<close> of the schema with the columns the
  service reads or writes, its events, its outbox and the rows of the job side it touches. One operation of
  the service is one database transaction; the row locks it takes make it run alone on the rows it writes, so
  the model executes operations one after the other, and an exception leaves the state as it was. A draw of
  \<open>randomUUID\<close> is an argument of the operation; an event's id is drawn by its position.
\<close>

section \<open>States\<close>

datatype dstate = D_WAITING | D_RESERVED | D_CLAIMED | D_RUNNING | D_UNCERTAIN | D_CANCEL_REQUESTED
  | D_SUCCEEDED | D_FAILED | D_CANCELLED

datatype cstate = K_RESERVED | K_CLAIMED | K_RUNNING | K_UNCERTAIN | K_CANCEL_REQUESTED | K_FINISHED | K_RETIRED

datatype astate = A_CLAIMED | A_RUNNING | A_UNCERTAIN | A_CANCEL_REQUESTED | A_SUCCEEDED | A_FAILED | A_CANCELLED

datatype route = Route_job | Route_host

datatype outcome = Out_succeeded | Out_failed | Out_cancelled

definition terminal_state :: "dstate \<Rightarrow> bool" where
  "terminal_state s \<longleftrightarrow> s \<in> {D_SUCCEEDED, D_FAILED, D_CANCELLED}"

definition open_candidate :: "cstate \<Rightarrow> bool" where
  "open_candidate s \<longleftrightarrow> s \<notin> {K_FINISHED, K_RETIRED}"

definition ended_attempt :: "astate \<Rightarrow> bool" where
  "ended_attempt s \<longleftrightarrow> s \<in> {A_SUCCEEDED, A_FAILED, A_CANCELLED}"

text \<open>\<open>result.outcome.toUpperCase()\<close> as a state of the request and of the attempt.\<close>

fun outcome_state :: "outcome \<Rightarrow> dstate" where
  "outcome_state Out_succeeded = D_SUCCEEDED"
| "outcome_state Out_failed = D_FAILED"
| "outcome_state Out_cancelled = D_CANCELLED"

fun outcome_attempt :: "outcome \<Rightarrow> astate" where
  "outcome_attempt Out_succeeded = A_SUCCEEDED"
| "outcome_attempt Out_failed = A_FAILED"
| "outcome_attempt Out_cancelled = A_CANCELLED"

text \<open>\<open>r.state.toLowerCase()\<close>.\<close>

fun state_name :: "dstate \<Rightarrow> string" where
  "state_name D_WAITING = ''waiting''"
| "state_name D_RESERVED = ''reserved''"
| "state_name D_CLAIMED = ''claimed''"
| "state_name D_RUNNING = ''running''"
| "state_name D_UNCERTAIN = ''uncertain''"
| "state_name D_CANCEL_REQUESTED = ''cancel_requested''"
| "state_name D_SUCCEEDED = ''succeeded''"
| "state_name D_FAILED = ''failed''"
| "state_name D_CANCELLED = ''cancelled''"

section \<open>Rows\<close>

record drequest =
  dr_id :: id
  dr_principal_key :: string
  dr_idempotency_key :: string
  dr_user_id :: id
  dr_product_id :: id
  dr_auth_source :: actor_source
  dr_auth_token_id :: "id option"
  dr_input :: dispatch_input
  dr_input_hash :: string
  dr_snapshot_plan :: "string option"
  dr_snapshot_repo_url :: "string option"
  dr_sources_ready_at :: "time option"
  dr_state :: dstate
  dr_version :: nat
  dr_generation :: nat
  dr_first_claimed_at :: "time option"
  dr_retry_authorization_event_id :: "id option"
  dr_root_message_id :: id
  dr_reply_message_id :: id
  dr_result_id :: "id option"
  dr_created_at :: time
  dr_updated_at :: time

record candidate =
  ca_id :: id
  ca_request_id :: id
  ca_generation :: nat
  ca_route :: route
  ca_profile_revision_id :: id
  ca_incarnation_id :: "id option"
  ca_job_id :: "id option"
  ca_state :: cstate
  ca_reserved_slot_id :: id
  ca_deadline :: time
  ca_claim_key :: "string option"
  ca_first_claimed_at :: "time option"

record reservation =
  rv_id :: id
  rv_candidate_id :: id
  rv_slot_id :: id
  rv_released_at :: "time option"

record attempt_row =
  at_id :: id
  at_candidate_id :: id
  at_incarnation_id :: id
  at_credential_hash :: string
  at_credential_key_version :: nat
  at_claim_key :: string
  at_state :: astate
  at_scope_id :: "string option"
  at_started_at :: "time option"
  at_heartbeat_at :: "time option"
  at_stopped_at :: "time option"
  at_revoked_at :: "time option"

text \<open>\<open>ManagedSlotConfig\<close> and \<open>IncarnationScope\<close>, the frozen configuration of one supervisor process.\<close>

record slot_config =
  sc_runtime :: agent_runtime
  sc_product_ids :: "id list"
  sc_capabilities :: "string list"
  sc_tier :: "worker_tier option"
  sc_worker_instance_id :: "id option"

record incarnation_scope = slot_config +
  is_profile_revision_ids :: "id list"
  is_image_digest :: string
  is_profile_sha256 :: string
  is_supervisor_token_id :: id

record slot_row =
  sl_id :: id
  sl_owner_user_id :: id
  sl_token_id :: id
  sl_kind :: route
  sl_address :: "(string \<times> string) option"
  sl_config :: slot_config
  sl_enabled :: bool

record incarnation =
  ic_id :: id
  ic_slot_id :: id
  ic_boot_id :: string
  ic_credential_hash :: string
  ic_last_seen_at :: time
  ic_signed_off_at :: "time option"
  ic_busy :: bool
  ic_scope :: incarnation_scope

text \<open>\<open>DispatchProfileConfig\<close> and an immutable profile revision.\<close>

record profile_config =
  pc_protocol :: string
  pc_runtime :: agent_runtime
  pc_image_digest :: string
  pc_actions :: "string list"
  pc_product_ids :: "id list"
  pc_access :: string
  pc_publish_modes :: "string list"
  pc_environment_keys :: "string list"
  pc_repository_product_ids :: "id list"
  pc_max_duration_seconds :: int

record dprofile =
  pf_id :: id
  pf_owner_user_id :: id
  pf_config :: profile_config
  pf_sha256 :: string
  pf_revoked_at :: "time option"

text \<open>A worker's registration with the token it registered with.\<close>

record dworker = worker +
  dw_token_id :: id

text \<open>A result as it is submitted: the fields the service reads or writes, and the others as JSON.\<close>

record dispatch_result =
  dv_outcome :: outcome
  dv_summary :: string
  dv_report_markdown :: string
  dv_others :: "(string \<times> json) list"

record dresult =
  rs_id :: id
  rs_request_id :: id
  rs_attempt_id :: "id option"
  rs_outcome :: outcome
  rs_payload :: dispatch_result
  rs_sha256 :: string

record artifact =
  ar_id :: id
  ar_request_id :: id
  ar_attempt_id :: "id option"
  ar_key :: string
  ar_sha256 :: string
  ar_bytes :: string
  ar_byte_size :: nat

datatype publication_state = Pub_PREPARED | Pub_SENT | Pub_CONFIRMED | Pub_UNKNOWN | Pub_FAILED

record publication =
  pb_request_id :: id
  pb_state :: publication_state

section \<open>Events and the outbox\<close>

record runtime_scope =
  ru_scopeId :: string
  ru_bootId :: string
  ru_imageDigest :: string
  ru_profileSha256 :: string

record job_config =
  jc_model :: string
  jc_thinking_budget :: "string option"
  jc_runtime :: agent_runtime

text \<open>The identity of one attempt (\<open>sourceBindingSchema\<close>).\<close>

record binding =
  bi_requestId :: id
  bi_candidateId :: id
  bi_generation :: nat
  bi_attemptId :: id
  bi_incarnationId :: id

text \<open>What a staged artifact is bound to: an attempt, the scope, the slot and the provenance of the scope.\<close>

record staged_binding =
  sb_binding :: binding
  sb_scope :: "runtime_scope option"
  sb_slotId :: "id option"
  sb_provenance :: "string option"

text \<open>Who an event names as its actor: the service itself, a user, or the producer of an artifact.\<close>

datatype event_actor = By_service | By_user id | By_producer string id "id option" "id option"

datatype payload =
    Submitted string
  | Waiting_reason string
  | Pool_cooldown id route time id
  | Reserved id id id route "id option" job_config
  | Claimed id id id id
  | Retry_consumed id id
  | Started_scope id runtime_scope
  | Lease_expired id
  | Stop_required id string
  | Resume_same_attempt id string
  | Retry_authorized id string nat
  | Stop_accepted string "id option" "string option" binding "runtime_scope option"
  | Artifact_staged id string string "staged_binding option"
  | Reject_unstarted string id
  | Cancel_requested
  | Cancel_unclaimed id
  | Cancel_recovered_unstarted id
  | Cancel_action string string
  | Recovery_action string string
  | Result_accepted id string
  | Late_result string dispatch_result

record event =
  ev_key :: id
  ev_request_id :: id
  ev_attempt_id :: "id option"
  ev_actor :: event_actor
  ev_payload :: payload

text \<open>
  An outbox row holds what \<open>buildDispatchProjection\<close> projects: the request at one version, with its route,
  reason and result.
\<close>

record outbox_row =
  ob_request_id :: id
  ob_version :: nat
  ob_state :: dstate
  ob_route :: "route option"
  ob_reason :: string
  ob_result :: "dresult option"

section \<open>The database\<close>

text \<open>A revision of a product document, with the product of its document.\<close>

record doc_revision =
  re_id :: id
  re_doc_id :: id
  re_product_id :: id
  re_content_hash :: string

record dispatch =
  d_requests :: "drequest list"
  d_candidates :: "candidate list"
  d_reservations :: "reservation list"
  d_attempts :: "attempt_row list"
  d_slots :: "slot_row list"
  d_slot_profiles :: "(id \<times> id) list"
  d_incarnations :: "incarnation list"
  d_profiles :: "dprofile list"
  d_results :: "dresult list"
  d_artifacts :: "artifact list"
  d_publications :: "publication list"
  d_events :: "event list"
  d_outbox :: "outbox_row list"
  d_ticks :: "id list"
  d_workers :: "dworker list"
  d_min_quota :: "(id \<times> int option) list"
  d_messages :: "message list"
  d_doc_revisions :: "doc_revision list"
  d_db :: db

text \<open>What a broker observed about a scope, what an operator attests about it, and the limits of the shared contract on stored bytes.\<close>

record observation =
  so_binding :: binding
  so_scope :: runtime_scope
  so_slotId :: id
  so_observer :: string
  so_observedAt :: time
  so_status :: string

record attestation =
  rt_binding :: binding
  rt_scope :: runtime_scope
  rt_kind :: string
  rt_observedAt :: time
  rt_runtimeBootBefore :: string
  rt_runtimeBootAfter :: string
  rt_rebootedAt :: "time option"
  rt_observedText :: string

record byte_limits =
  bl_artifact :: nat
  bl_attempt :: nat
  bl_stop_evidence :: nat
  bl_output :: nat

text \<open>
  The service's configuration and what it calls outside the repository: the hash, the keyed hash of a
  credential, the contract of state transitions of the shared library, the configuration of a job resolved from
  product, task and kind, the canonical bytes of an evidence and the limits on stored bytes.
\<close>

record dispatch_env =
  de_now :: time
  de_enabled :: bool
  de_allowlist :: "id list"
  de_grants :: grants
  de_sha256 :: "string \<Rightarrow> string"
  de_credential_keys :: "(nat \<times> string) list"
  de_key_version :: nat
  de_hmac :: "string \<Rightarrow> id \<times> id \<times> nat \<times> nat \<Rightarrow> string"
  de_transition :: "dstate \<Rightarrow> string \<Rightarrow> dstate option"
  de_job_config :: "drequest \<Rightarrow> agent_runtime \<Rightarrow> job_config option"
  de_event_id :: "nat \<Rightarrow> id"
  de_limits :: byte_limits
  de_parse_observation :: "string \<Rightarrow> observation option"
  de_canonical_observation :: "observation \<Rightarrow> string"
  de_parse_attestation :: "string \<Rightarrow> attestation option"
  de_stop_key :: string
  de_canonical_input :: "dispatch_input \<Rightarrow> string"
  de_reply_uuid :: "id \<Rightarrow> id"
  de_repository_sources :: bool

text \<open>\<open>withDispatchTransaction\<close>: what throws is rolled back.\<close>

definition dispatch_transaction :: "dispatch \<Rightarrow> derror + dispatch \<times> 'a \<Rightarrow> dispatch \<times> (derror + 'a)" where
  "dispatch_transaction s r = (case r of Inl e \<Rightarrow> (s, Inl e) | Inr (s', x) \<Rightarrow> (s', Inr x))"

lemma dispatch_transaction_simps [simp]:
  "dispatch_transaction s (Inl e) = (s, Inl e)"
  "dispatch_transaction s (Inr (s', x)) = (s', Inr x)"
  by (simp_all add: dispatch_transaction_def)

section \<open>Rows by key, and their updates\<close>

definition find_request :: "id \<Rightarrow> dispatch \<Rightarrow> drequest option" where
  "find_request k s = find_by dr_id k (d_requests s)"

definition find_candidate :: "id \<Rightarrow> dispatch \<Rightarrow> candidate option" where
  "find_candidate k s = find_by ca_id k (d_candidates s)"

definition find_attempt :: "id \<Rightarrow> dispatch \<Rightarrow> attempt_row option" where
  "find_attempt k s = find_by at_id k (d_attempts s)"

definition set_request :: "id \<Rightarrow> (drequest \<Rightarrow> drequest) \<Rightarrow> dispatch \<Rightarrow> dispatch" where
  "set_request k f s = s\<lparr>d_requests := update_where (\<lambda>r. dr_id r = k) f (d_requests s)\<rparr>"

definition set_candidate :: "id \<Rightarrow> (candidate \<Rightarrow> candidate) \<Rightarrow> dispatch \<Rightarrow> dispatch" where
  "set_candidate k f s = s\<lparr>d_candidates := update_where (\<lambda>c. ca_id c = k) f (d_candidates s)\<rparr>"

definition set_attempt :: "id \<Rightarrow> (attempt_row \<Rightarrow> attempt_row) \<Rightarrow> dispatch \<Rightarrow> dispatch" where
  "set_attempt k f s = s\<lparr>d_attempts := update_where (\<lambda>a. at_id a = k) f (d_attempts s)\<rparr>"

definition release_reservation :: "id \<Rightarrow> time \<Rightarrow> dispatch \<Rightarrow> dispatch" where
  "release_reservation k now s = s\<lparr>d_reservations :=
     update_where (\<lambda>v. rv_candidate_id v = k \<and> rv_released_at v = None) (\<lambda>v. v\<lparr>rv_released_at := Some now\<rparr>) (d_reservations s)\<rparr>"

definition set_job :: "id \<Rightarrow> (job \<Rightarrow> job) \<Rightarrow> dispatch \<Rightarrow> dispatch" where
  "set_job k f s = s\<lparr>d_db := notify_job k (update_jobs (\<lambda>j. j_id j = k) f (d_db s))\<rparr>"

definition release_task :: "id option \<Rightarrow> id \<Rightarrow> dispatch \<Rightarrow> dispatch" where
  "release_task task rid s = s\<lparr>d_db := (d_db s)\<lparr>tasks :=
     update_where (\<lambda>t. Some (t_id t) = task \<and> t_dispatch_request_id t = Some rid)
       (\<lambda>t. t\<lparr>t_dispatch_request_id := None\<rparr>) (tasks (d_db s))\<rparr>\<rparr>"

definition add_event_by :: "dispatch_env \<Rightarrow> event_actor \<Rightarrow> id \<Rightarrow> id option \<Rightarrow> payload \<Rightarrow> dispatch \<Rightarrow> dispatch" where
  "add_event_by env by rid aid p s = s\<lparr>d_events := d_events s @
     [\<lparr>ev_key = de_event_id env (length (d_events s)), ev_request_id = rid, ev_attempt_id = aid, ev_actor = by, ev_payload = p\<rparr>]\<rparr>"

definition add_event :: "dispatch_env \<Rightarrow> id \<Rightarrow> id option \<Rightarrow> payload \<Rightarrow> dispatch \<Rightarrow> dispatch" where
  "add_event env = add_event_by env By_service"

text \<open>The id the next event gets.\<close>

definition next_event :: "dispatch_env \<Rightarrow> dispatch \<Rightarrow> id" where
  "next_event env s = de_event_id env (length (d_events s))"

definition current_candidate :: "drequest \<Rightarrow> dispatch \<Rightarrow> candidate option" where
  "current_candidate r s = find (\<lambda>c. ca_request_id c = dr_id r \<and> ca_generation c = dr_generation r) (d_candidates s)"

section \<open>Transitions of a request\<close>

text \<open>The latest waiting reason of a request.\<close>

fun waiting_reason :: "payload \<Rightarrow> string option" where
  "waiting_reason (Waiting_reason x) = Some x"
| "waiting_reason _ = None"

definition last_waiting_reason :: "id \<Rightarrow> dispatch \<Rightarrow> string option" where
  "last_waiting_reason rid s =
     (case find (\<lambda>e. ev_request_id e = rid \<and> waiting_reason (ev_payload e) \<noteq> None) (rev (d_events s)) of
        None \<Rightarrow> None | Some e \<Rightarrow> waiting_reason (ev_payload e))"

definition writeDispatchOutbox :: "id \<Rightarrow> dispatch \<Rightarrow> derror + dispatch" where
  "writeDispatchOutbox rid s = (case find_request rid s of
     None \<Rightarrow> Inl DISPATCH_NOT_FOUND
   | Some r \<Rightarrow> Inr (s\<lparr>d_outbox := d_outbox s @
       [\<lparr>ob_request_id = rid, ob_version = dr_version r, ob_state = dr_state r,
         ob_route = map_option ca_route (current_candidate r s),
         ob_reason = (if dr_state r = D_WAITING then or_else (last_waiting_reason rid s) ''waiting_for_capacity''
                      else state_name (dr_state r)),
         ob_result = find (\<lambda>x. Some (rs_id x) = dr_result_id r \<and> rs_request_id x = rid) (d_results s)\<rparr>],
       d_ticks := d_ticks s @ [rid]\<rparr>))"

definition transition :: "dispatch_env \<Rightarrow> id \<Rightarrow> dstate \<Rightarrow> id option \<Rightarrow> dispatch \<Rightarrow> derror + dispatch" where
  "transition env rid next resultId s =
     (if find_request rid s = None then Inl DISPATCH_NOT_FOUND
      else writeDispatchOutbox rid (set_request rid (\<lambda>r. r\<lparr>dr_state := next, dr_result_id := coalesce resultId (dr_result_id r),
        dr_version := dr_version r + 1, dr_updated_at := de_now env\<rparr>) s))"

definition unresolvedPublication :: "id \<Rightarrow> dispatch \<Rightarrow> bool" where
  "unresolvedPublication rid s \<longleftrightarrow> list_ex (\<lambda>p. pb_request_id p = rid \<and> pb_state p \<in> {Pub_PREPARED, Pub_SENT, Pub_UNKNOWN}) (d_publications s)"

text \<open>The actor that submitted a request.\<close>

definition requestActor :: "drequest \<Rightarrow> actor" where
  "requestActor r = \<lparr>da_userId = dr_user_id r, da_principalKey = dr_principal_key r, da_tokenId = dr_auth_token_id r,
     da_source = dr_auth_source r, da_scopedProducts = [], da_scopedRepos = [], da_tokenKind = None\<rparr>"

definition actorForToken :: "id \<Rightarrow> id \<Rightarrow> actor" where
  "actorForToken userId tokenId = \<lparr>da_userId = userId, da_principalKey = bearer_key userId tokenId, da_tokenId = Some tokenId,
     da_source = Bearer, da_scopedProducts = [], da_scopedRepos = [], da_tokenKind = None\<rparr>"

definition authorize_env :: "dispatch_env \<Rightarrow> actor \<Rightarrow> dispatch_input \<Rightarrow> dispatch_operation \<Rightarrow> derror + unit" where
  "authorize_env env = authorizeDispatch (de_now env) (de_grants env)"

section \<open>The authority to run a request again\<close>

definition stop_accepted :: "id \<Rightarrow> id \<Rightarrow> dispatch \<Rightarrow> event list" where
  "stop_accepted rid aid s = filter (\<lambda>e. ev_request_id e = rid \<and> ev_attempt_id e = Some aid \<and>
     (case ev_payload e of Stop_accepted _ _ _ _ _ \<Rightarrow> True | _ \<Rightarrow> False)) (d_events s)"

text \<open>An attempt of the request that has not ended with an accepted stop.\<close>

definition unsettled_attempt :: "id \<Rightarrow> dispatch \<Rightarrow> attempt_row \<Rightarrow> bool" where
  "unsettled_attempt rid s a \<longleftrightarrow>
     (case find_candidate (at_candidate_id a) s of None \<Rightarrow> False | Some c \<Rightarrow> ca_request_id c = rid) \<and>
     (\<not> ended_attempt (at_state a) \<or> at_stopped_at a = None \<or> at_revoked_at a = None \<or> stop_accepted rid (at_id a) s = [])"

definition assertRetryAuthorization :: "drequest \<Rightarrow> dispatch \<Rightarrow> derror + id" where
  "assertRetryAuthorization r s =
     (case find (\<lambda>e. Some (ev_key e) = dr_retry_authorization_event_id r \<and> ev_request_id e = dr_id r \<and>
        (case ev_payload e of Retry_authorized _ _ _ \<Rightarrow> True | _ \<Rightarrow> False)) (d_events s) of
        None \<Rightarrow> Inl DISPATCH_STATE_CONFLICT
      | Some e \<Rightarrow>
          if ev_actor e \<noteq> By_service \<or>
             (case ev_payload e of Retry_authorized _ h g \<Rightarrow> h \<noteq> dr_input_hash r \<or> (int g \<noteq> int (dr_generation r) \<and> int g \<noteq> int (dr_generation r) - 1) | _ \<Rightarrow> True) \<or>
             list_ex (\<lambda>x. ev_request_id x = dr_id r \<and> (case ev_payload x of Retry_consumed k _ \<Rightarrow> k = ev_key e | _ \<Rightarrow> False)) (d_events s) \<or>
             unresolvedPublication (dr_id r) s \<or> list_ex (unsettled_attempt (dr_id r) s) (d_attempts s)
          then Inl DISPATCH_STATE_CONFLICT
          else Inr (ev_key e))"

section \<open>Credentials\<close>

definition is_hex64 :: "string \<Rightarrow> bool" where
  "is_hex64 h \<longleftrightarrow> length h = 64 \<and> list_all (\<lambda>c. c \<in> set ''0123456789abcdef'') h"

definition credentialMatches :: "dispatch_env \<Rightarrow> string \<Rightarrow> string \<Rightarrow> bool" where
  "credentialMatches env credential expectedHash \<longleftrightarrow> is_hex64 expectedHash \<and> de_sha256 env credential = expectedHash"

definition deriveAttemptCredential :: "dispatch_env \<Rightarrow> id \<Rightarrow> id \<Rightarrow> nat \<Rightarrow> nat \<Rightarrow> derror + string" where
  "deriveAttemptCredential env attemptId incarnationId generation keyVersion =
     (case map_of (de_credential_keys env) keyVersion of
        None \<Rightarrow> Inl DISPATCH_FORBIDDEN
      | Some key \<Rightarrow> if generation < 1 then Inl DISPATCH_FORBIDDEN
          else Inr (de_hmac env key (attemptId, incarnationId, generation, keyVersion)))"

definition key_char :: "char \<Rightarrow> bool" where
  "key_char c \<longleftrightarrow> is_word_char c \<or> c = CHR ''-''"

definition validateKey :: "string \<Rightarrow> derror + unit" where
  "validateKey k = (if length k \<in> {1..128} \<and> list_all key_char k then Inr () else Inl DISPATCH_INVALID_INPUT)"

end
