(* ===== verification/Dispatch_Capacity.thy ===== *)
theory Dispatch_Capacity
  imports Dispatch_Model Service_State Complex_Main "HOL-Library.Product_Lexorder"
begin

text \<open>
  The capacity that can serve a managed request: \<open>requestJob\<close> and \<open>eligibleExecutors\<close> of
  \<open>src/src/dispatch/eligibility.ts\<close>, the slots with their live rows (\<open>loadRegisteredCapacity\<close> of
  \<open>selection.ts\<close>), the session of a supervisor (\<open>registration.ts\<close>) and the job of the job route
  (\<open>job-adapter.ts\<close>).
\<close>

section \<open>Slot configurations\<close>

text \<open>
  The configuration is typed here; what remains of \<open>parseManagedSlotConfig\<close> are the checks on its values.
\<close>

definition isManagedWorkerInstanceId :: "id \<Rightarrow> bool" where
  "isManagedWorkerInstanceId k \<longleftrightarrow> managedWorkerPollScope k \<and> length k > length managed_prefix \<and> length k \<le> 256"

definition parseManagedSlotConfig :: "slot_config \<Rightarrow> derror + slot_config" where
  "parseManagedSlotConfig c =
     (if sc_runtime c \<notin> {CODEX, CLAUDE} \<or> sc_product_ids c = [] \<or> list_ex (\<lambda>x. x = []) (sc_product_ids c) \<or>
         list_ex (\<lambda>x. x = []) (sc_capabilities c) \<or>
         (case sc_worker_instance_id c of None \<Rightarrow> False | Some w \<Rightarrow> \<not> isManagedWorkerInstanceId w)
      then Inl DISPATCH_INVALID_INPUT else Inr c)"

definition tierPriority :: "worker_tier option \<Rightarrow> nat" where
  "tierPriority t = (case t of None \<Rightarrow> 0 | Some x \<Rightarrow> tier_priority x)"

record registered_slot =
  rg_id :: id
  rg_kind :: route
  rg_owner_user_id :: id
  rg_token_id :: id
  rg_enabled :: bool
  rg_config :: slot_config
  rg_profile_revision_ids :: "id list"
  rg_incarnation_id :: "id option"
  rg_incarnation_profile_ids :: "id list"
  rg_last_seen_at :: "time option"
  rg_signed_off_at :: "time option"
  rg_busy :: bool
  rg_worker_seen_at :: "time option"
  rg_live_job :: bool
  rg_open_reservation :: bool
  rg_ordinary_request_claim :: bool
  rg_quota_pct :: "int option"
  rg_min_quota_pct :: int
  rg_last_reserved_at :: "time option"
  rg_current_product_ids :: "id list"
  rg_current_capabilities :: "string list"
  rg_current_runtime :: "agent_runtime option"

record eligible_pool =
  ep_route :: route
  ep_profileRevisionId :: id
  ep_slotIds :: "id list"
  ep_loadRatio :: rat
  ep_lastReservedAt :: time

section \<open>The job of a request\<close>

definition request_kind :: "dispatch_input \<Rightarrow> job_kind" where
  "request_kind inp = (if di_action inp = ''review'' then QUEUE_REVIEW
     else if di_action inp = ''task_implementation'' then TASK_IMPLEMENTATION else QUEUE_TASK)"

definition requestJob :: "dispatch_input \<Rightarrow> id \<Rightarrow> agent_runtime \<Rightarrow> id \<Rightarrow> id \<Rightarrow> claim_job" where
  "requestJob inp userId runtime profileRevisionId requestId =
     \<lparr>cj_user_id = userId, cj_product_id = di_product_id inp, cj_runtime = runtime, cj_status = J_QUEUED,
      cj_kind = request_kind inp, cj_source = COPILOT,
      cj_required_capability = (if di_action inp = ''review'' then Some ''review''
        else if di_access inp = ''repo_write'' then Some ''code_edit'' else None),
      cj_dispatch_request_id = Some requestId, cj_profile_revision_id = Some profileRevisionId,
      cj_sprint_run_id = None, cj_sprint_status = None, cj_earlier_sibling = False,
      cj_task_id = di_task_id inp, cj_idea_id = None\<rparr>"

section \<open>Eligible executors\<close>

definition profile_admits :: "drequest \<Rightarrow> dprofile \<Rightarrow> bool" where
  "profile_admits r profile \<longleftrightarrow>
     (let p = pf_config profile; inp = dr_input r in
      \<not> (pf_revoked_at profile \<noteq> None \<or> pf_owner_user_id profile \<noteq> dr_user_id r \<or> pc_protocol p \<noteq> ''dispatch-v1'' \<or>
         di_product_id inp \<notin> set (pc_product_ids p) \<or> di_action inp \<notin> set (pc_actions p) \<or>
         di_runtime inp \<noteq> None \<and> di_runtime inp \<noteq> Some (pc_runtime p) \<or>
         di_access inp = ''repo_write'' \<and> pc_access p \<noteq> ''repo_write'' \<or>
         di_publish inp \<notin> set (pc_publish_modes p) \<or>
         list_ex (\<lambda>k. k \<notin> set (pc_environment_keys p)) (di_environment_keys inp) \<or>
         (case di_repository inp of None \<Rightarrow> False | Some repo \<Rightarrow> rr_product_id repo \<notin> set (pc_repository_product_ids p)) \<or>
         list_ex (\<lambda>d. df_product_id d \<notin> set (pc_product_ids p) \<or>
             df_source d = ''git'' \<and> df_product_id d \<notin> set (pc_repository_product_ids p)) (di_review_documents inp)))"

definition fresh_within :: "time \<Rightarrow> time \<Rightarrow> time option \<Rightarrow> bool" where
  "fresh_within now limit seen = (case seen of None \<Rightarrow> False | Some t \<Rightarrow> now - t < limit)"

definition frozen_executor :: "registered_slot \<Rightarrow> claim_executor" where
  "frozen_executor s = \<lparr>ex_user_id = rg_owner_user_id s,
     ex_product_ids = filter (\<lambda>k. k \<in> set (rg_current_product_ids s)) (sc_product_ids (rg_config s)),
     ex_runtime = sc_runtime (rg_config s), ex_capabilities = sc_capabilities (rg_config s), ex_managed = True,
     ex_incarnation_id = rg_incarnation_id s, ex_profile_revision_ids = rg_incarnation_profile_ids s,
     ex_quota_pct = rg_quota_pct s, ex_min_quota_pct = rg_min_quota_pct s\<rparr>"

definition current_executor :: "registered_slot \<Rightarrow> agent_runtime \<Rightarrow> claim_executor" where
  "current_executor s runtime = \<lparr>ex_user_id = rg_owner_user_id s, ex_product_ids = rg_current_product_ids s,
     ex_runtime = runtime, ex_capabilities = rg_current_capabilities s, ex_managed = True,
     ex_incarnation_id = rg_incarnation_id s, ex_profile_revision_ids = rg_incarnation_profile_ids s,
     ex_quota_pct = rg_quota_pct s, ex_min_quota_pct = rg_min_quota_pct s\<rparr>"

definition suitable_slot :: "time \<Rightarrow> claim_job \<Rightarrow> id \<Rightarrow> route \<Rightarrow> registered_slot \<Rightarrow> bool" where
  "suitable_slot now jb profileId r s \<longleftrightarrow>
     rg_kind s = r \<and> rg_enabled s \<and> truthy (rg_incarnation_id s) \<and> rg_signed_off_at s = None \<and>
     profileId \<in> set (rg_profile_revision_ids s) \<and> profileId \<in> set (rg_incarnation_profile_ids s) \<and>
     fresh_within now (if r = Route_job then 30000 else 45000) (rg_last_seen_at s) \<and>
     (r = Route_job \<longrightarrow> fresh_within now 30000 (rg_worker_seen_at s)) \<and>
     (case rg_current_runtime s of None \<Rightarrow> False
      | Some runtime \<Rightarrow> runtime = sc_runtime (rg_config s) \<and>
          evaluateClaimPredicates jb (frozen_executor s) = [] \<and> evaluateClaimPredicates jb (current_executor s runtime) = [])"

definition free_slot :: "registered_slot \<Rightarrow> bool" where
  "free_slot s \<longleftrightarrow> \<not> rg_busy s \<and> \<not> rg_open_reservation s \<and> \<not> rg_live_job s \<and> \<not> rg_ordinary_request_claim s"

text \<open>\<open>[...new Map(slots.map(s => [s.id, s])).values()]\<close>.\<close>

definition distinct_slots :: "registered_slot list \<Rightarrow> registered_slot list" where
  "distinct_slots ss = map snd (fold (\<lambda>s al. AList.update (rg_id s) s al) ss [])"

text \<open>The order of the free slots: a higher tier first, then the id.\<close>

definition slot_rank :: "registered_slot \<Rightarrow> int \<times> id" where
  "slot_rank s = (- int (tierPriority (sc_tier (rg_config s))), rg_id s)"

definition route_pool :: "time \<Rightarrow> drequest \<Rightarrow> dprofile \<Rightarrow> registered_slot list \<Rightarrow> route \<Rightarrow> eligible_pool option" where
  "route_pool now r profile slots rt =
     (let jb = requestJob (dr_input r) (dr_user_id r) (pc_runtime (pf_config profile)) (pf_id profile) (dr_id r);
          suitable = distinct_slots (filter (suitable_slot now jb (pf_id profile) rt) slots);
          free = sort_key slot_rank (filter free_slot suitable)
      in if free = [] then None
         else Some \<lparr>ep_route = rt, ep_profileRevisionId = pf_id profile, ep_slotIds = map rg_id free,
           ep_loadRatio = (of_nat (length suitable) - of_nat (length free)) / of_nat (length suitable),
           ep_lastReservedAt = fold max (map (\<lambda>s. or_else (rg_last_reserved_at s) 0) suitable) 0\<rparr>)"

definition pool_rank :: "eligible_pool \<Rightarrow> bool \<times> rat \<times> time \<times> id \<times> id" where
  "pool_rank p = (ep_route p = Route_host, ep_loadRatio p, ep_lastReservedAt p, ep_profileRevisionId p, hd (ep_slotIds p))"

definition eligibleExecutors :: "drequest \<Rightarrow> dprofile list \<Rightarrow> registered_slot list \<Rightarrow> time \<Rightarrow> eligible_pool list" where
  "eligibleExecutors r profiles slots now = sort_key pool_rank
     (concat (map (\<lambda>profile. List.map_filter (route_pool now r profile slots) [Route_job, Route_host])
        (filter (profile_admits r) profiles)))"

section \<open>Registered capacity\<close>

definition live_incarnation :: "dispatch \<Rightarrow> id \<Rightarrow> incarnation option" where
  "live_incarnation s slot = find (\<lambda>i. ic_slot_id i = slot \<and> ic_signed_off_at i = None) (d_incarnations s)"

definition slot_worker :: "dispatch \<Rightarrow> slot_row \<Rightarrow> dworker option" where
  "slot_worker s sl = find (\<lambda>w. w_user_id w = sl_owner_user_id sl \<and> dw_token_id w = sl_token_id sl \<and>
     Some (w_instance_id w) = sc_worker_instance_id (sl_config sl)) (d_workers s)"

definition open_reservation :: "dispatch \<Rightarrow> id \<Rightarrow> bool" where
  "open_reservation s slot \<longleftrightarrow> list_ex (\<lambda>v. rv_slot_id v = slot \<and> rv_released_at v = None) (d_reservations s)"

definition live_job :: "dispatch \<Rightarrow> slot_row \<Rightarrow> bool" where
  "live_job s sl \<longleftrightarrow> sc_worker_instance_id (sl_config sl) \<noteq> None \<and>
     list_ex (\<lambda>j. j_worker_instance_id j = sc_worker_instance_id (sl_config sl) \<and> claimed_or_running (j_status j)) (jobs (d_db s))"

definition ordinary_request_claim :: "dispatch \<Rightarrow> slot_row \<Rightarrow> bool" where
  "ordinary_request_claim s sl \<longleftrightarrow> (case sl_address sl of None \<Rightarrow> False
     | Some (server, model) \<Rightarrow> list_ex (\<lambda>m. m_to_server m = server \<and> m_to_model m = model \<and> m_status m = MClaimed \<and>
         m_type m \<in> {''task'', ''info'', ''review_request''} \<and> dispatch_request_id m = None) (d_messages s))"

definition last_reserved_at :: "dispatch \<Rightarrow> id \<Rightarrow> time option" where
  "last_reserved_at s slot =
     (case List.map_filter (\<lambda>v. if rv_slot_id v = slot then map_option (\<lambda>c. ca_deadline c - 120000) (find_candidate (rv_candidate_id v) s) else None)
        (d_reservations s) of [] \<Rightarrow> None | t # ts \<Rightarrow> Some (fold max ts t))"

text \<open>The lowest of the three tiers, when all are known, for a job slot.\<close>

definition slot_tier :: "slot_row \<Rightarrow> incarnation_scope \<Rightarrow> dworker option \<Rightarrow> worker_tier option" where
  "slot_tier sl scope w =
     (let tiers = [sc_tier (sl_config sl), sc_tier scope, (case w of None \<Rightarrow> None | Some x \<Rightarrow> w_tier x)] in
      if sl_kind sl = Route_job \<and> list_all (\<lambda>t. t \<noteq> None) tiers then hd (sort_key tierPriority tiers) else None)"

definition registered :: "dispatch \<Rightarrow> slot_row \<Rightarrow> incarnation \<Rightarrow> dworker option \<Rightarrow> int option \<Rightarrow> registered_slot" where
  "registered s sl i w quota_floor =
     (let config = sl_config sl; scope = ic_scope i; job_slot = (sl_kind sl = Route_job) in
      \<lparr>rg_id = sl_id sl, rg_kind = sl_kind sl, rg_owner_user_id = sl_owner_user_id sl, rg_token_id = sl_token_id sl,
       rg_enabled = sl_enabled sl,
       rg_config = config\<lparr>sc_tier := slot_tier sl scope w,
         sc_product_ids := filter (\<lambda>k. k \<in> set (sc_product_ids scope)) (sc_product_ids config),
         sc_capabilities := sc_capabilities scope\<rparr>,
       rg_profile_revision_ids = map snd (filter (\<lambda>(k, _). k = sl_id sl) (d_slot_profiles s)),
       rg_incarnation_id = Some (ic_id i), rg_incarnation_profile_ids = is_profile_revision_ids scope,
       rg_last_seen_at = Some (ic_last_seen_at i), rg_signed_off_at = ic_signed_off_at i, rg_busy = ic_busy i,
       rg_worker_seen_at = map_option w_last_seen_at w, rg_live_job = live_job s sl,
       rg_open_reservation = open_reservation s (sl_id sl), rg_ordinary_request_claim = ordinary_request_claim s sl,
       rg_quota_pct = (if job_slot then (case w of None \<Rightarrow> None | Some x \<Rightarrow> w_quota_pct x) else None),
       rg_min_quota_pct = or_else quota_floor 0, rg_last_reserved_at = last_reserved_at s (sl_id sl),
       rg_current_product_ids = filter (\<lambda>k. \<not> job_slot \<or> \<not> truthy (case w of None \<Rightarrow> None | Some x \<Rightarrow> w_product_id x) \<or>
           (case w of None \<Rightarrow> None | Some x \<Rightarrow> w_product_id x) = Some k) (sc_product_ids config),
       rg_current_capabilities = (if job_slot then (case w of None \<Rightarrow> [] | Some x \<Rightarrow> w_capabilities x) else sc_capabilities config),
       rg_current_runtime = (if job_slot then map_option w_runtime w else Some (sc_runtime scope))\<rparr>)"

text \<open>
  A slot counts only with a valid configuration, a live incarnation of its present token that agrees with the
  configuration, and rights for the request; a missing right or a bad configuration skips the slot.
\<close>

definition register_slot :: "dispatch_env \<Rightarrow> dispatch \<Rightarrow> drequest \<Rightarrow> slot_row \<Rightarrow> derror + registered_slot option" where
  "register_slot env s r sl =
     (case map_of (d_min_quota s) (sl_owner_user_id sl) of
        None \<Rightarrow> Inr None
      | Some quota_floor \<Rightarrow>
          (case parseManagedSlotConfig (sl_config sl) of
             Inl e \<Rightarrow> if is_DispatchError e then Inr None else Inl e
           | Inr config \<Rightarrow>
               (case live_incarnation s (sl_id sl) of
                  None \<Rightarrow> Inr None
                | Some i \<Rightarrow>
                    (let scope = ic_scope i in
                     if is_supervisor_token_id scope \<noteq> sl_token_id sl \<or> sc_runtime scope \<noteq> sc_runtime config \<or>
                        list_ex (\<lambda>c. c \<notin> set (sc_capabilities config)) (sc_capabilities scope) \<or>
                        length (sc_capabilities config) \<noteq> length (sc_capabilities scope) then Inr None
                     else case authorize_env env (actorForToken (sl_owner_user_id sl) (sl_token_id sl)) (dr_input r) Op_claim of
                       Inl e \<Rightarrow> if is_DispatchError e then Inr None else Inl e
                     | Inr _ \<Rightarrow> Inr (Some (registered s sl i (slot_worker s sl) quota_floor))))))"

fun register_slots :: "dispatch_env \<Rightarrow> dispatch \<Rightarrow> drequest \<Rightarrow> slot_row list \<Rightarrow> derror + registered_slot list" where
  "register_slots env s r [] = Inr []"
| "register_slots env s r (sl # sls) =
     and_then (register_slot env s r sl) (\<lambda>x. and_then (register_slots env s r sls) (\<lambda>xs.
       Inr (case x of None \<Rightarrow> xs | Some y \<Rightarrow> y # xs)))"

definition loadRegisteredCapacity :: "dispatch_env \<Rightarrow> dispatch \<Rightarrow> drequest \<Rightarrow> derror + dprofile list \<times> registered_slot list" where
  "loadRegisteredCapacity env s r =
     and_then (register_slots env s r (sort_key sl_id (filter (\<lambda>sl. sl_owner_user_id sl = dr_user_id r) (d_slots s))))
       (\<lambda>slots. Inr (filter (\<lambda>p. dr_product_id r \<in> set (pc_product_ids (pf_config p))) (d_profiles s), slots))"

section \<open>The session of a supervisor\<close>

definition slot_of :: "id \<Rightarrow> dispatch \<Rightarrow> slot_row option" where
  "slot_of k s = find_by sl_id k (d_slots s)"

definition find_incarnation :: "id \<Rightarrow> dispatch \<Rightarrow> (incarnation \<times> slot_row) option" where
  "find_incarnation k s = (case find_by ic_id k (d_incarnations s) of None \<Rightarrow> None
     | Some i \<Rightarrow> map_option (\<lambda>sl. (i, sl)) (slot_of (ic_slot_id i) s))"

definition authenticateExecutorSession ::
  "dispatch_env \<Rightarrow> dispatch \<Rightarrow> actor \<Rightarrow> id \<Rightarrow> string \<Rightarrow> derror + incarnation \<times> slot_row" where
  "authenticateExecutorSession env s a incarnationId sessionCredential =
     and_then (refreshActor (de_now env) (de_grants env) a) (\<lambda>current.
       case find_incarnation incarnationId s of
         None \<Rightarrow> Inl DISPATCH_FORBIDDEN
       | Some (i, sl) \<Rightarrow>
           if da_source current \<noteq> Bearer \<or> da_userId current \<noteq> sl_owner_user_id sl \<or> da_tokenId current \<noteq> Some (sl_token_id sl) \<or>
              Some (is_supervisor_token_id (ic_scope i)) \<noteq> da_tokenId current \<or> ic_signed_off_at i \<noteq> None \<or> \<not> sl_enabled sl \<or>
              \<not> credentialMatches env sessionCredential (ic_credential_hash i)
           then Inl DISPATCH_FORBIDDEN else Inr (i, sl))"

section \<open>The job of the job route\<close>

definition task_occupied :: "drequest \<Rightarrow> id \<Rightarrow> dispatch \<Rightarrow> bool" where
  "task_occupied r k s \<longleftrightarrow>
     list_ex (\<lambda>j. j_task_id j = Some k \<and> active (j_status j) \<and> j_dispatch_request_id j \<noteq> Some (dr_id r)) (jobs (d_db s)) \<or>
     list_ex (\<lambda>e. e_task_id e = k \<and> e_status e \<in> {E_PENDING, E_RUNNING}) (execs (d_db s))"

definition lockManagedTask :: "dispatch \<Rightarrow> drequest \<Rightarrow> derror + unit" where
  "lockManagedTask s r =
     (if di_action (dr_input r) \<noteq> ''task_implementation'' then Inr ()
      else case (case di_task_id (dr_input r) of None \<Rightarrow> None | Some k \<Rightarrow> find_task k (d_db s)) of
        None \<Rightarrow> Inl DISPATCH_FORBIDDEN
      | Some t \<Rightarrow>
          if t_product_id t \<noteq> dr_product_id r then Inl DISPATCH_FORBIDDEN
          else if t_dispatch_request_id t \<noteq> None \<and> t_dispatch_request_id t \<noteq> Some (dr_id r) \<or> t_status t \<noteq> T_TO_DO \<or>
            task_occupied r (t_id t) s then Inl DISPATCH_STATE_CONFLICT
          else case di_repository (dr_input r) of
            None \<Rightarrow> Inl (Exception ''TypeError'')
          | Some ref \<Rightarrow>
              (let main = (case find_product (dr_product_id r) (d_db s) of None \<Rightarrow> None | Some p \<Rightarrow> pr_repo_url p);
                   repo = (case find_product (rr_product_id ref) (d_db s) of None \<Rightarrow> None | Some p \<Rightarrow> pr_repo_url p)
               in if \<not> truthy repo \<or> coalesce (t_repo_url t) main \<noteq> repo \<or> dr_snapshot_repo_url r \<noteq> repo
                  then Inl DISPATCH_FORBIDDEN else Inr ()))"

definition managed_job :: "dispatch_env \<Rightarrow> drequest \<Rightarrow> id \<Rightarrow> id \<Rightarrow> agent_runtime \<Rightarrow> job_config \<Rightarrow> id \<Rightarrow> job" where
  "managed_job env r candidateId profileRevisionId runtime cfg jobId =
     (let jb = requestJob (dr_input r) (dr_user_id r) runtime profileRevisionId (dr_id r) in
      (new_job jobId (de_now env) (dr_user_id r) (dr_product_id r) (cj_kind jb))
        \<lparr>j_task_id := di_task_id (dr_input r), j_source := COPILOT, j_runtime := runtime,
         j_required_capability := cj_required_capability jb, j_requested_model := Some (jc_model cfg),
         j_plan_snapshot := dr_snapshot_plan r, j_base_sha := map_option rr_base_sha (di_repository (dr_input r)),
         j_dispatch_request_id := Some (dr_id r), j_dispatch_candidate_id := Some candidateId\<rparr>)"

definition enqueueManagedJob ::
  "dispatch_env \<Rightarrow> drequest \<Rightarrow> id \<Rightarrow> id \<Rightarrow> agent_runtime \<Rightarrow> job_config \<Rightarrow> id \<Rightarrow> dispatch \<Rightarrow> derror + dispatch \<times> id" where
  "enqueueManagedJob env r candidateId profileRevisionId runtime cfg jobId s =
     (if jc_runtime cfg = HARNESS then Inl (Exception ''UNKNOWN_AGENT_RUNTIME'')
      else and_then (lockManagedTask s r) (\<lambda>_.
        case find (\<lambda>j. j_dispatch_candidate_id j = Some candidateId) (jobs (d_db s)) of
          Some old \<Rightarrow> Inr (s, j_id old)
        | None \<Rightarrow> Inr (s\<lparr>d_db := notify_job jobId
            (insert_job (managed_job env r candidateId profileRevisionId runtime cfg jobId) (d_db s))\<rparr>, jobId)))"

section \<open>What an eligible pool promises\<close>

lemma distinct_slots_subset: "set (distinct_slots ss) \<subseteq> set ss"
proof -
  have "set (map snd (fold (\<lambda>s al. AList.update (rg_id s) s al) ss al)) \<subseteq> set ss \<union> set (map snd al)" for al
  proof (induction ss arbitrary: al)
    case (Cons x xs)
    have "set (map snd (AList.update (rg_id x) x al)) \<subseteq> insert x (set (map snd al))"
      by (induction al) auto
    with Cons.IH [of "AList.update (rg_id x) x al"] show ?case by auto
  qed simp
  from this [of "[]"] show ?thesis by (simp add: distinct_slots_def)
qed

lemma route_pool_Some:
  assumes "route_pool now r profile slots rt = Some p"
  shows "ep_route p = rt \<and> ep_profileRevisionId p = pf_id profile \<and> ep_slotIds p \<noteq> [] \<and>
    (\<forall>k \<in> set (ep_slotIds p). \<exists>s \<in> set slots. rg_id s = k \<and> free_slot s \<and>
       suitable_slot now (requestJob (dr_input r) (dr_user_id r) (pc_runtime (pf_config profile)) (pf_id profile) (dr_id r)) (pf_id profile) rt s)"
  using assms distinct_slots_subset
  by (fastforce simp: route_pool_def Let_def split: if_splits)

lemma pool_origin:
  assumes "p \<in> set (eligibleExecutors r profiles slots now)"
  obtains profile where "profile \<in> set profiles" "profile_admits r profile"
    "route_pool now r profile slots (ep_route p) = Some p"
proof -
  from assms obtain profile rt where "profile \<in> set profiles" "profile_admits r profile" "route_pool now r profile slots rt = Some p"
    by (auto simp: eligibleExecutors_def List.map_filter_def split: if_splits)
  moreover from this(3) have "ep_route p = rt" using route_pool_Some by blast
  ultimately show thesis using that by blast
qed

lemma registered_rows:
  "register_slots env s r sls = Inr slots \<Longrightarrow> x \<in> set slots \<Longrightarrow>
   \<exists>sl \<in> set sls. \<exists>i w q. live_incarnation s (sl_id sl) = Some i \<and> x = registered s sl i w q \<and>
     is_supervisor_token_id (ic_scope i) = sl_token_id sl \<and>
     authorize_env env (actorForToken (sl_owner_user_id sl) (sl_token_id sl)) (dr_input r) Op_claim = Inr ()"
proof (induction sls arbitrary: slots)
  case (Cons sl sls)
  from Cons.prems(1) obtain y ys where y: "register_slot env s r sl = Inr y" and ys: "register_slots env s r sls = Inr ys"
    and eq: "slots = (case y of None \<Rightarrow> ys | Some z \<Rightarrow> z # ys)"
    by (auto simp: and_then_Inr_iff)
  from eq Cons.prems(2) consider "x \<in> set ys" | "y = Some x" by (cases y) auto
  then show ?case
  proof cases
    case 1
    then show ?thesis using Cons.IH [OF ys] by auto
  next
    case 2
    then have "\<exists>i w q. live_incarnation s (sl_id sl) = Some i \<and> x = registered s sl i w q \<and>
       is_supervisor_token_id (ic_scope i) = sl_token_id sl \<and>
       authorize_env env (actorForToken (sl_owner_user_id sl) (sl_token_id sl)) (dr_input r) Op_claim = Inr ()"
      using y by (auto simp: register_slot_def Let_def split: option.splits sum.splits if_splits)
    then show ?thesis by simp
  qed
qed simp

lemma loaded_slot:
  assumes "loadRegisteredCapacity env s r = Inr (profiles, slots)" and "x \<in> set slots"
  obtains sl i w q where "sl \<in> set (d_slots s)" "sl_owner_user_id sl = dr_user_id r"
    "live_incarnation s (sl_id sl) = Some i" "x = registered s sl i w q"
    "is_supervisor_token_id (ic_scope i) = sl_token_id sl"
    "authorize_env env (actorForToken (sl_owner_user_id sl) (sl_token_id sl)) (dr_input r) Op_claim = Inr ()"
proof -
  from assms(1) have "register_slots env s r (sort_key sl_id (filter (\<lambda>sl. sl_owner_user_id sl = dr_user_id r) (d_slots s))) = Inr slots"
    by (auto simp: loadRegisteredCapacity_def and_then_Inr_iff)
  from registered_rows [OF this assms(2)] that show thesis by auto
qed

text \<open>
  C24. The slots of an eligible pool are really free and fit: each belongs to the requester, is enabled, has a live
  incarnation of its present token that the profile was registered for, was seen within its limit, has no open
  reservation and no running work, and its executor meets every claim condition for the request's job.
\<close>

theorem eligible_pool_sound:
  assumes "loadRegisteredCapacity env s r = Inr (profiles, slots)" and "p \<in> set (eligibleExecutors r profiles slots (de_now env))"
    and "k \<in> set (ep_slotIds p)"
  shows "\<exists>sl \<in> set (d_slots s). \<exists>i. sl_id sl = k \<and> sl_owner_user_id sl = dr_user_id r \<and> sl_enabled sl \<and> sl_kind sl = ep_route p \<and>
    live_incarnation s k = Some i \<and> ep_profileRevisionId p \<in> set (is_profile_revision_ids (ic_scope i)) \<and>
    de_now env - ic_last_seen_at i < (if ep_route p = Route_job then 30000 else 45000) \<and>
    \<not> ic_busy i \<and> \<not> open_reservation s k \<and> \<not> live_job s sl \<and> \<not> ordinary_request_claim s sl \<and>
    (\<exists>profile x. profile \<in> set profiles \<and> profile_admits r profile \<and> pf_id profile = ep_profileRevisionId p \<and>
       x \<in> set slots \<and> rg_id x = k \<and>
       evaluateClaimPredicates (requestJob (dr_input r) (dr_user_id r) (pc_runtime (pf_config profile)) (pf_id profile) (dr_id r))
         (frozen_executor x) = [])"
proof -
  obtain profile where profile: "profile \<in> set profiles" "profile_admits r profile" "route_pool (de_now env) r profile slots (ep_route p) = Some p"
    using assms(2) by (rule pool_origin)
  note pool = route_pool_Some [OF profile(3)]
  then obtain x where x: "x \<in> set slots" "rg_id x = k" "free_slot x"
    "suitable_slot (de_now env) (requestJob (dr_input r) (dr_user_id r) (pc_runtime (pf_config profile)) (pf_id profile) (dr_id r)) (pf_id profile) (ep_route p) x"
    using assms(3) by blast
  obtain sl i w q where sl: "sl \<in> set (d_slots s)" "sl_owner_user_id sl = dr_user_id r"
    "live_incarnation s (sl_id sl) = Some i" and reg: "x = registered s sl i w q"
    by (rule loaded_slot [OF assms(1) x(1)])
  have k: "sl_id sl = k" using x(2) by (simp add: reg registered_def Let_def)
  have fits: "sl_enabled sl" "sl_kind sl = ep_route p" "pf_id profile \<in> set (is_profile_revision_ids (ic_scope i))"
    "de_now env - ic_last_seen_at i < (if ep_route p = Route_job then 30000 else 45000)"
    "\<not> ic_busy i" "\<not> open_reservation s k" "\<not> live_job s sl" "\<not> ordinary_request_claim s sl"
    using x(3,4) k by (simp_all add: reg registered_def Let_def free_slot_def suitable_slot_def fresh_within_def)
  have "evaluateClaimPredicates (requestJob (dr_input r) (dr_user_id r) (pc_runtime (pf_config profile)) (pf_id profile) (dr_id r)) (frozen_executor x) = []"
    using x(4) by (auto simp: suitable_slot_def split: option.splits)
  moreover have "ep_profileRevisionId p = pf_id profile" using pool by blast
  ultimately show ?thesis using sl k fits profile(1,2) x(1,2)
    by (intro bexI [of _ sl] exI [of _ i] conjI exI [of _ profile] exI [of _ x]) simp_all
qed

end
