(* ===== verification/Dispatch_Lifecycle.thy ===== *)
theory Dispatch_Lifecycle
  imports Dispatch_Capacity
begin

text \<open>
  The end of an attempt and of a request: \<open>src/src/dispatch/lifecycle.ts\<close> (the canonical result, its row, the end of the
  attempt and what it gives back), \<open>task-status.ts\<close> (the roll-up of a managed task), the rows an operation on an attempt
  locks (\<open>artifacts.ts\<close>) and the rejection of a request that has not started (\<open>sources.ts\<close>).
\<close>

section \<open>Results\<close>

fun outcome_name :: "outcome \<Rightarrow> string" where
  "outcome_name Out_succeeded = ''succeeded''"
| "outcome_name Out_failed = ''failed''"
| "outcome_name Out_cancelled = ''cancelled''"

definition result_json :: "dispatch_result \<Rightarrow> json" where
  "result_json x = JObj ([(''version'', JNum 1), (''outcome'', JStr (outcome_name (dv_outcome x))), (''summary'', JStr (dv_summary x)),
     (''report_markdown'', JStr (dv_report_markdown x))] @ dv_others x)"

definition plain_result :: "outcome \<Rightarrow> string \<Rightarrow> string \<Rightarrow> dispatch_result" where
  "plain_result out summary report =
     \<lparr>dv_outcome = out, dv_summary = summary, dv_report_markdown = report, dv_others = [(''checks'', JArr [])]\<rparr>"

definition result_hash :: "dispatch_env \<Rightarrow> dispatch_result \<Rightarrow> string" where
  "result_hash env x = de_sha256 env (canonicalResult (result_json x))"

definition result_of :: "id \<Rightarrow> dispatch \<Rightarrow> dresult option" where
  "result_of rid s = find (\<lambda>x. rs_request_id x = rid) (d_results s)"

text \<open>The one result of a request: the same result again is answered with the old row, another one is refused.\<close>

definition insertResult ::
  "dispatch_env \<Rightarrow> id \<Rightarrow> id option \<Rightarrow> dispatch_result \<Rightarrow> id \<Rightarrow> dispatch \<Rightarrow> derror + dispatch \<times> id" where
  "insertResult env rid aid x nid s =
     (case result_of rid s of
        Some old \<Rightarrow> if rs_sha256 old \<noteq> result_hash env x then Inl DISPATCH_IDEMPOTENCY_CONFLICT else Inr (s, rs_id old)
      | None \<Rightarrow> Inr (s\<lparr>d_results := d_results s @ [\<lparr>rs_id = nid, rs_request_id = rid, rs_attempt_id = aid,
          rs_outcome = dv_outcome x, rs_payload = x, rs_sha256 = result_hash env x\<rparr>]\<rparr>, nid))"

section \<open>The rows of an attempt\<close>

record locked =
  lk_r :: drequest
  lk_c :: candidate
  lk_a :: attempt_row
  lk_i :: incarnation
  lk_s :: slot_row

record artifact_attempt = locked +
  lk_p :: dprofile

definition lockManagedTaskHierarchy :: "id option \<Rightarrow> db \<Rightarrow> derror + task \<times> story \<times> pbi option" where
  "lockManagedTaskHierarchy taskId d =
     (case (case taskId of None \<Rightarrow> None | Some k \<Rightarrow> find_task k d) of
        None \<Rightarrow> Inl DISPATCH_STATE_CONFLICT
      | Some t \<Rightarrow> (case find_story (t_story_id t) d of
          None \<Rightarrow> Inl (Exception ''TypeError'')
        | Some st \<Rightarrow> Inr (t, st, find_pbi (st_pbi_id st) d)))"

definition managed_task_request :: "drequest \<Rightarrow> bool" where
  "managed_task_request r \<longleftrightarrow> di_action (dr_input r) = ''task_implementation''"

definition lockArtifactAttempt :: "dispatch \<Rightarrow> id \<Rightarrow> derror + artifact_attempt" where
  "lockArtifactAttempt s aid =
     (case find_attempt aid s of None \<Rightarrow> Inl DISPATCH_FORBIDDEN | Some a \<Rightarrow>
     (case find_candidate (at_candidate_id a) s of None \<Rightarrow> Inl DISPATCH_FORBIDDEN | Some c \<Rightarrow>
     (case find_request (ca_request_id c) s of None \<Rightarrow> Inl (Exception ''TypeError'') | Some r \<Rightarrow>
      and_then (if managed_task_request r then and_then (lockManagedTaskHierarchy (di_task_id (dr_input r)) (d_db s)) (\<lambda>_. Inr ()) else Inr ())
      (\<lambda>_. case (slot_of (ca_reserved_slot_id c) s, find_by ic_id (at_incarnation_id a) (d_incarnations s),
                  find_by pf_id (ca_profile_revision_id c) (d_profiles s)) of
         (Some sl, Some i, Some p) \<Rightarrow>
           if ic_slot_id i \<noteq> sl_id sl \<or> ca_incarnation_id c \<noteq> Some (at_incarnation_id a) then Inl DISPATCH_FORBIDDEN
           else Inr \<lparr>lk_r = r, lk_c = c, lk_a = a, lk_i = i, lk_s = sl, lk_p = p\<rparr>
       | _ \<Rightarrow> Inl DISPATCH_FORBIDDEN))))"

text \<open>The proof an attempt's supervisor presents (\<open>AttemptProof\<close>).\<close>

record attempt_proof =
  ap_request_id :: id
  ap_candidate_id :: id
  ap_generation :: nat
  ap_attempt_id :: id
  ap_incarnation_id :: id
  ap_credential :: string

definition verifyArtifactProof :: "dispatch_env \<Rightarrow> actor \<Rightarrow> attempt_proof \<Rightarrow> artifact_attempt \<Rightarrow> derror + unit" where
  "verifyArtifactProof env a p x =
     (if ap_request_id p \<noteq> dr_id (lk_r x) \<or> ap_candidate_id p \<noteq> ca_id (lk_c x) \<or> ap_generation p \<noteq> ca_generation (lk_c x) \<or>
         ap_attempt_id p \<noteq> at_id (lk_a x) \<or> ap_incarnation_id p \<noteq> ic_id (lk_i x) \<or> da_source a \<noteq> Bearer \<or>
         da_userId a \<noteq> sl_owner_user_id (lk_s x) \<or> da_tokenId a \<noteq> Some (is_supervisor_token_id (ic_scope (lk_i x))) \<or>
         da_tokenId a \<noteq> Some (sl_token_id (lk_s x)) \<or> \<not> credentialMatches env (ap_credential p) (at_credential_hash (lk_a x))
      then Inl DISPATCH_FORBIDDEN else Inr ())"

section \<open>The status of a managed task\<close>

definition projectManagedTaskStatus :: "time \<Rightarrow> id option \<Rightarrow> task_status \<Rightarrow> db \<Rightarrow> derror + db" where
  "projectManagedTaskStatus now taskId status d =
     and_then (lockManagedTaskHierarchy taskId d) (\<lambda>(t, st, pb). case pb of
       None \<Rightarrow> Inl (Exception ''TypeError'')
     | Some p \<Rightarrow>
         (let d1 = set_task_status (t_id t) status d;
              d2 = set_story_status (st_id st) (decideStoryStatus (task_statuses (st_id st) d1) (truthy (st_sprint_id st))) d1;
              d3 = set_pbi_status (p_id p) (decidePbiStatus (story_statuses (p_id p) d2) (p_status p)) d2
          in if \<not> truthy (st_sprint_id st) then Inr d3
             else (let k = the (st_sprint_id st); next_status = decideSprintStatus (sprint_pbi_statuses k d3)
                   in Inr (d3\<lparr>sprints := update_where (\<lambda>x. sp_id x = k)
                        (\<lambda>x. x\<lparr>sp_status := next_status,
                          sp_completed_at := (if next_status = SP_CLOSED \<and> sp_status x \<noteq> next_status then Some now else sp_completed_at x)\<rparr>)
                        (sprints d3)\<rparr>))))"

section \<open>The end of an attempt\<close>

fun outcome_job :: "outcome \<Rightarrow> job_status" where
  "outcome_job Out_succeeded = J_DONE"
| "outcome_job Out_failed = J_FAILED"
| "outcome_job Out_cancelled = J_CANCELLED"

text \<open>A change of the job of a candidate, when it has one.\<close>

definition on_job :: "id option \<Rightarrow> (job \<Rightarrow> job) \<Rightarrow> dispatch \<Rightarrow> dispatch" where
  "on_job jobId f s = (if truthy jobId then set_job (the jobId) f s else s)"

definition end_job :: "dispatch_env \<Rightarrow> job_status \<Rightarrow> id option \<Rightarrow> dispatch \<Rightarrow> dispatch" where
  "end_job env status jobId = on_job jobId (\<lambda>j. j\<lparr>j_status := status, j_finished_at := Some (de_now env)\<rparr>)"

definition terminalizeAttempt :: "dispatch_env \<Rightarrow> 'x locked_scheme \<Rightarrow> outcome \<Rightarrow> dispatch \<Rightarrow> derror + dispatch" where
  "terminalizeAttempt env x out s =
     (if at_stopped_at (lk_a x) = None \<or> unresolvedPublication (dr_id (lk_r x)) s then Inl DISPATCH_STATE_CONFLICT
      else Inr (release_reservation (ca_id (lk_c x)) (de_now env)
        (set_candidate (ca_id (lk_c x)) (\<lambda>c. c\<lparr>ca_state := K_FINISHED\<rparr>)
        (end_job env (outcome_job out) (ca_job_id (lk_c x))
        (set_attempt (at_id (lk_a x)) (\<lambda>a. a\<lparr>at_state := outcome_attempt out,
           at_revoked_at := coalesce (at_revoked_at a) (Some (de_now env))\<rparr>) s)))))"

definition settle_task :: "dispatch_env \<Rightarrow> drequest \<Rightarrow> outcome \<Rightarrow> dispatch \<Rightarrow> derror + dispatch" where
  "settle_task env r out s =
     (if managed_task_request r then
        and_then (if out = Out_cancelled then Inr s
                  else and_then (projectManagedTaskStatus (de_now env) (di_task_id (dr_input r))
                         (if out = Out_succeeded then T_DONE else T_FAILED) (d_db s)) (\<lambda>d. Inr (s\<lparr>d_db := d\<rparr>)))
          (\<lambda>s'. Inr (release_task (di_task_id (dr_input r)) (dr_id r) s'))
      else Inr s)"

definition finishResult ::
  "dispatch_env \<Rightarrow> 'x locked_scheme \<Rightarrow> dispatch_result \<Rightarrow> string \<Rightarrow> id \<Rightarrow> dispatch \<Rightarrow> derror + dispatch \<times> id" where
  "finishResult env x result submittedHash nid s =
     (let rid = dr_id (lk_r x); aid = at_id (lk_a x); out = dv_outcome result in
      and_then (insertResult env rid (Some aid) result nid s) (\<lambda>(s1, k).
      and_then (transition env rid (outcome_state out) (Some k) s1) (\<lambda>s2.
      and_then (terminalizeAttempt env x out s2) (\<lambda>s3.
      and_then (settle_task env (lk_r x) out s3) (\<lambda>s4.
        Inr (add_event env rid (Some aid) (Result_accepted k submittedHash) s4, k))))))"

text \<open>An authenticated stop can finish an ordinary cancellation.\<close>

definition stopped_cancellation :: dispatch_result where
  "stopped_cancellation = plain_result Out_cancelled ''Cancelled execution has stopped''
     ''The bound supervisor confirmed termination after cancellation.''"

definition finishStoppedCancellation :: "dispatch_env \<Rightarrow> 'x locked_scheme \<Rightarrow> id \<Rightarrow> dispatch \<Rightarrow> derror + dispatch" where
  "finishStoppedCancellation env x nid s =
     (if dr_state (lk_r x) \<noteq> D_CANCEL_REQUESTED \<or> unresolvedPublication (dr_id (lk_r x)) s \<or> result_of (dr_id (lk_r x)) s \<noteq> None then Inr s
      else and_then (finishResult env x stopped_cancellation (result_hash env stopped_cancellation) nid s) (\<lambda>(s', _). Inr s'))"

section \<open>A request that has not started\<close>

definition open_current :: "drequest \<Rightarrow> dispatch \<Rightarrow> candidate option" where
  "open_current r s = find (\<lambda>c. ca_request_id c = dr_id r \<and> ca_generation c = dr_generation r \<and> open_candidate (ca_state c)) (d_candidates s)"

definition retire_candidate :: "dispatch_env \<Rightarrow> candidate \<Rightarrow> dispatch \<Rightarrow> dispatch" where
  "retire_candidate env c s = release_reservation (ca_id c) (de_now env) (set_candidate (ca_id c) (\<lambda>x. x\<lparr>ca_state := K_RETIRED\<rparr>) s)"

definition unclaimed_job :: "id \<Rightarrow> dispatch \<Rightarrow> bool" where
  "unclaimed_job k s \<longleftrightarrow> (case find_job k (d_db s) of None \<Rightarrow> False | Some j \<Rightarrow> j_status j = J_QUEUED \<and> j_claimed_at j = None)"

definition rejection :: "string \<Rightarrow> dispatch_result" where
  "rejection reason = plain_result Out_failed reason (''Execution could not start: '' @ reason @ ''.'')"

definition close_rejected :: "dispatch_env \<Rightarrow> drequest \<Rightarrow> string \<Rightarrow> id \<Rightarrow> dispatch \<Rightarrow> derror + dispatch" where
  "close_rejected env r reason nid s =
     (case de_transition env (dr_state r) ''reject_unstarted'' of
        None \<Rightarrow> Inl (Exception ''INVALID_TRANSITION'')
      | Some next_state \<Rightarrow>
          (let s1 = s\<lparr>d_results := d_results s @ [\<lparr>rs_id = nid, rs_request_id = dr_id r, rs_attempt_id = None, rs_outcome = Out_failed,
                 rs_payload = rejection reason, rs_sha256 = de_sha256 env (stringify (result_json (rejection reason)))\<rparr>]\<rparr>;
               s2 = set_request (dr_id r) (\<lambda>x. x\<lparr>dr_state := next_state, dr_result_id := Some nid,
                      dr_version := dr_version x + 1, dr_updated_at := de_now env\<rparr>) s1;
               s3 = (if managed_task_request r \<and> dr_first_claimed_at r \<noteq> None then release_task (di_task_id (dr_input r)) (dr_id r) s2 else s2)
           in writeDispatchOutbox (dr_id r) (add_event env (dr_id r) None (Reject_unstarted reason nid) s3)))"

definition rejectUnstartedInTransaction :: "dispatch_env \<Rightarrow> id \<Rightarrow> string \<Rightarrow> id \<Rightarrow> dispatch \<Rightarrow> derror + dispatch" where
  "rejectUnstartedInTransaction env rid reason nid s =
     (case find_request rid s of
        None \<Rightarrow> Inr s
      | Some r \<Rightarrow>
          if dr_state r \<notin> {D_WAITING, D_RESERVED} then Inr s
          else and_then (if dr_first_claimed_at r \<noteq> None then and_then (assertRetryAuthorization r s) (\<lambda>_. Inr ()) else Inr ())
            (\<lambda>_. case open_current r s of
               None \<Rightarrow> close_rejected env r reason nid s
             | Some c \<Rightarrow>
                 if ca_first_claimed_at c \<noteq> None \<or> truthy (ca_job_id c) \<and> \<not> unclaimed_job (the (ca_job_id c)) s then Inr s
                 else close_rejected env r reason nid (retire_candidate env c (end_job env J_CANCELLED (ca_job_id c) s))))"

end
