(* ===== verification/Dispatch_Selection.thy ===== *)
theory Dispatch_Selection
  imports Dispatch_Lifecycle
begin

text \<open>
  Which waiting request gets which slot (\<open>src/src/dispatch/selection.ts\<close>): the page of waiting requests, the reservation of one
  request with its candidate, reservation and job, and the retirement of a reservation nobody claimed.
  \<open>FOR UPDATE SKIP LOCKED\<close> is the argument that says which rows other transactions hold.
\<close>

text \<open>The ids a call of \<open>reserveRequest\<close> draws.\<close>

record draws =
  dn_candidate :: id
  dn_reservation :: id
  dn_job :: id
  dn_result :: id

definition DISPATCH_TICK_REQUEST_LIMIT :: nat where
  "DISPATCH_TICK_REQUEST_LIMIT = 25"

definition waitingRequestIds :: "dispatch_env \<Rightarrow> int \<Rightarrow> dispatch \<Rightarrow> id list" where
  "waitingRequestIds env limit s =
     (if \<not> de_enabled env then []
      else map dr_id (take (nat (min 25 (max 0 limit)))
        (sort_key (\<lambda>r. (dr_updated_at r, dr_created_at r, dr_id r))
          (filter (\<lambda>r. dr_state r = D_WAITING \<and> dr_product_id r \<in> set (de_allowlist env)) (d_requests s)))))"

definition note_waiting :: "dispatch_env \<Rightarrow> id \<Rightarrow> string \<Rightarrow> dispatch \<Rightarrow> dispatch" where
  "note_waiting env rid reason s =
     set_request rid (\<lambda>r. r\<lparr>dr_updated_at := de_now env\<rparr>)
       (if last_waiting_reason rid s = Some reason then s else add_event env rid None (Waiting_reason reason) s)"

definition cooling :: "dispatch_env \<Rightarrow> id \<Rightarrow> dispatch \<Rightarrow> (id \<times> route) list" where
  "cooling env rid s = List.map_filter (\<lambda>e. if ev_request_id e = rid then
       (case ev_payload e of Pool_cooldown profile rt after c \<Rightarrow> if after > de_now env then Some (profile, rt) else None | _ \<Rightarrow> None)
     else None) (d_events s)"

definition configured :: "dispatch_env \<Rightarrow> drequest \<Rightarrow> dprofile list \<Rightarrow> eligible_pool \<Rightarrow> bool" where
  "configured env r profiles p \<longleftrightarrow> (case find (\<lambda>x. pf_id x = ep_profileRevisionId p) profiles of None \<Rightarrow> False
     | Some profile \<Rightarrow> de_job_config env r (pc_runtime (pf_config profile)) \<noteq> None)"

section \<open>A reservation\<close>

definition book_slot ::
  "dispatch_env \<Rightarrow> draws \<Rightarrow> drequest \<Rightarrow> eligible_pool \<Rightarrow> dprofile \<Rightarrow> registered_slot \<Rightarrow> job_config \<Rightarrow> dispatch \<Rightarrow> derror + dispatch" where
  "book_slot env n r pool p slot cfg s =
     (let rid = dr_id r; cid = dn_candidate n; gen = dr_generation r + 1;
          s1 = s\<lparr>d_candidates := d_candidates s @ [\<lparr>ca_id = cid, ca_request_id = rid, ca_generation = gen, ca_route = ep_route pool,
                 ca_profile_revision_id = pf_id p, ca_incarnation_id = (if ep_route pool = Route_host then rg_incarnation_id slot else None),
                 ca_job_id = None, ca_state = K_RESERVED, ca_reserved_slot_id = rg_id slot, ca_deadline = de_now env + 120000,
                 ca_claim_key = None, ca_first_claimed_at = None\<rparr>],
               d_reservations := d_reservations s @ [\<lparr>rv_id = dn_reservation n, rv_candidate_id = cid, rv_slot_id = rg_id slot, rv_released_at = None\<rparr>]\<rparr>
      in and_then (if ep_route pool = Route_job
                   then and_then (enqueueManagedJob env r cid (pf_id p) (pc_runtime (pf_config p)) cfg (dn_job n) s1) (\<lambda>(s2, k).
                     Inr (if k = [] then s2 else set_candidate cid (\<lambda>c. c\<lparr>ca_job_id := Some k\<rparr>) s2, Some k))
                   else Inr (s1, None))
         (\<lambda>(s3, jobId). transition env rid D_RESERVED None
            (add_event env rid None (Reserved cid (pf_id p) (rg_id slot) (ep_route pool) jobId cfg)
              (set_request rid (\<lambda>x. x\<lparr>dr_generation := gen\<rparr>) s3))))"

text \<open>
  The pools in turn: the first one with a slot that is still eligible under its lock is booked. \<open>None\<close> when no
  pool has one.
\<close>

fun try_pools ::
  "dispatch_env \<Rightarrow> (id \<Rightarrow> bool) \<Rightarrow> draws \<Rightarrow> drequest \<Rightarrow> eligible_pool list \<Rightarrow> dispatch \<Rightarrow> derror + dispatch option" where
  "try_pools env busy n r [] s = Inr None"
| "try_pools env busy n r (pool # pools) s =
     (let locked = filter (\<lambda>k. \<not> busy k) (ep_slotIds pool) in
      if locked = [] then try_pools env busy n r pools s
      else and_then (loadRegisteredCapacity env s r) (\<lambda>(profiles, slots).
        case find (\<lambda>q. ep_profileRevisionId q = ep_profileRevisionId pool \<and> ep_route q = ep_route pool)
               (eligibleExecutors r profiles slots (de_now env)) of
          None \<Rightarrow> try_pools env busy n r pools s
        | Some eligible \<Rightarrow>
            (case find (\<lambda>k. k \<in> set locked) (ep_slotIds eligible) of
               None \<Rightarrow> try_pools env busy n r pools s
             | Some k \<Rightarrow>
                 and_then (authorize_env env (requestActor r) (dr_input r) Op_claim) (\<lambda>_.
                   case (find (\<lambda>x. pf_id x = ep_profileRevisionId pool) profiles, find (\<lambda>x. rg_id x = k) slots) of
                     (Some p, Some slot) \<Rightarrow>
                       (case de_job_config env r (pc_runtime (pf_config p)) of
                          None \<Rightarrow> Inl (Exception ''TypeError'')
                        | Some cfg \<Rightarrow> and_then (book_slot env n r pool p slot cfg s) (\<lambda>s'. Inr (Some s')))
                   | _ \<Rightarrow> Inl (Exception ''TypeError'')))))"

definition reserve_transaction ::
  "dispatch_env \<Rightarrow> (id \<Rightarrow> bool) \<Rightarrow> draws \<Rightarrow> drequest \<Rightarrow> dispatch \<Rightarrow> derror + dispatch \<times> id option" where
  "reserve_transaction env busy n r s =
     and_then (if dr_first_claimed_at r \<noteq> None then and_then (assertRetryAuthorization r s) (\<lambda>_. Inr ()) else Inr ()) (\<lambda>_.
     case and_then (authorize_env env (requestActor r) (dr_input r) Op_claim) (\<lambda>_. lockManagedTask s r) of
       Inl e \<Rightarrow>
         if \<not> is_DispatchError e then Inl e
         else if e \<in> {DISPATCH_FORBIDDEN, DISPATCH_UNAUTHENTICATED}
         then and_then (rejectUnstartedInTransaction env (dr_id r) ''authorization_unavailable'' (dn_result n) s) (\<lambda>s'. Inr (s', None))
         else Inr (note_waiting env (dr_id r) (if e = DISPATCH_STATE_CONFLICT then ''task_not_dispatchable'' else ''authorization_unavailable'') s, None)
     | Inr _ \<Rightarrow>
         and_then (loadRegisteredCapacity env s r) (\<lambda>(profiles, slots).
           (let cooldown = cooling env (dr_id r) s;
                pools = filter (\<lambda>p. configured env r profiles p \<and> (ep_profileRevisionId p, ep_route p) \<notin> set cooldown)
                          (eligibleExecutors r profiles slots (de_now env))
            in and_then (try_pools env busy n r pools s) (\<lambda>x. case x of
                 Some s' \<Rightarrow> Inr (s', Some (dr_id r))
               | None \<Rightarrow> Inr (note_waiting env (dr_id r) (if cooldown \<noteq> [] then ''pool_cooldown'' else ''no_eligible_capacity'') s, None)))))"

definition reserveRequest ::
  "dispatch_env \<Rightarrow> (id \<Rightarrow> bool) \<Rightarrow> (id \<Rightarrow> bool) \<Rightarrow> draws \<Rightarrow> id \<Rightarrow> dispatch \<Rightarrow> dispatch \<times> (derror + id option)" where
  "reserveRequest env request_busy slot_busy n rid s =
     (case find_request rid s of
        None \<Rightarrow> (s, Inr None)
      | Some r \<Rightarrow>
          if \<not> de_enabled env \<or> dr_state r \<noteq> D_WAITING \<or> dr_product_id r \<notin> set (de_allowlist env) \<or> request_busy rid \<or>
             dr_sources_ready_at r = None then (s, Inr None)
          else dispatch_transaction s (reserve_transaction env slot_busy n r s))"

section \<open>A reservation nobody claimed\<close>

definition expired_candidate :: "dispatch_env \<Rightarrow> drequest \<Rightarrow> dispatch \<Rightarrow> candidate option" where
  "expired_candidate env r s = find (\<lambda>c. ca_request_id c = dr_id r \<and> ca_generation c = dr_generation r \<and> ca_state c = K_RESERVED \<and>
     ca_deadline c \<le> de_now env) (d_candidates s)"

definition retire_transaction :: "dispatch_env \<Rightarrow> id \<Rightarrow> dispatch \<Rightarrow> derror + dispatch \<times> bool" where
  "retire_transaction env rid s =
     (case find_request rid s of
        None \<Rightarrow> Inr (s, False)
      | Some r \<Rightarrow>
          if dr_state r \<noteq> D_RESERVED \<or> dr_first_claimed_at r \<noteq> None then Inr (s, False)
          else (case expired_candidate env r s of
                  None \<Rightarrow> Inr (s, False)
                | Some c \<Rightarrow>
                    if ca_first_claimed_at c \<noteq> None \<or> truthy (ca_job_id c) \<and> \<not> unclaimed_job (the (ca_job_id c)) s then Inr (s, False)
                    else and_then (transition env rid D_WAITING None
                      (add_event env rid None (Pool_cooldown (ca_profile_revision_id c) (ca_route c) (de_now env + 300000) (ca_id c))
                        (retire_candidate env c (end_job env J_CANCELLED (ca_job_id c) s)))) (\<lambda>s'. Inr (s', True))))"

definition retireExpiredCandidate :: "dispatch_env \<Rightarrow> id \<Rightarrow> dispatch \<Rightarrow> dispatch \<times> (derror + bool)" where
  "retireExpiredCandidate env rid s = dispatch_transaction s (retire_transaction env rid s)"

text \<open>The expired reservations of one tick, and how many waiting requests it takes after them.\<close>

definition expired_page :: "dispatch_env \<Rightarrow> dispatch \<Rightarrow> id list" where
  "expired_page env s = map ca_request_id (take DISPATCH_TICK_REQUEST_LIMIT (sort_key (\<lambda>c. (ca_deadline c, ca_id c))
     (filter (\<lambda>c. ca_state c = K_RESERVED \<and> ca_deadline c \<le> de_now env) (d_candidates s))))"

definition waiting_page :: "dispatch_env \<Rightarrow> dispatch \<Rightarrow> dispatch \<Rightarrow> id list" where
  "waiting_page env before s = waitingRequestIds env (int DISPATCH_TICK_REQUEST_LIMIT - int (length (expired_page env before))) s"

end
