(* ===== verification/Dispatch_Attempts.thy ===== *)
theory Dispatch_Attempts
  imports Dispatch_Selection
begin

text \<open>
  The life of an attempt (\<open>src/src/dispatch/attempts.ts\<close>): its claim by a supervisor, the permit to start a scope, the renewal of
  its lease, the way back from uncertainty and the sweep of expired leases. A lease lasts 120 seconds from the last heartbeat.
\<close>

definition lease_ms :: time where
  "lease_ms = 120000"

section \<open>The rows of an attempt and the checks on them\<close>

definition lock_attempt :: "dispatch \<Rightarrow> id \<Rightarrow> id \<Rightarrow> id \<Rightarrow> derror + locked" where
  "lock_attempt s requestId candidateId attemptId =
     (case find_request requestId s of None \<Rightarrow> Inl DISPATCH_FORBIDDEN | Some r \<Rightarrow>
     (case find_candidate candidateId s of None \<Rightarrow> Inl DISPATCH_FORBIDDEN | Some c \<Rightarrow>
     (case find_attempt attemptId s of None \<Rightarrow> Inl DISPATCH_FORBIDDEN | Some a \<Rightarrow>
     (case find_incarnation (at_incarnation_id a) s of None \<Rightarrow> Inl DISPATCH_FORBIDDEN | Some (i, sl) \<Rightarrow>
        if ca_request_id c \<noteq> requestId \<or> at_candidate_id a \<noteq> candidateId then Inl DISPATCH_FORBIDDEN
        else Inr \<lparr>lk_r = r, lk_c = c, lk_a = a, lk_i = i, lk_s = sl\<rparr>))))"

definition active_attempt :: "locked \<Rightarrow> bool" where
  "active_attempt x \<longleftrightarrow> dr_generation (lk_r x) = ca_generation (lk_c x) \<and> ca_incarnation_id (lk_c x) = Some (at_incarnation_id (lk_a x)) \<and>
     ic_slot_id (lk_i x) = ca_reserved_slot_id (lk_c x) \<and> at_revoked_at (lk_a x) = None \<and> ic_signed_off_at (lk_i x) = None \<and>
     sl_enabled (lk_s x) \<and> ca_state (lk_c x) \<in> {K_CLAIMED, K_RUNNING, K_UNCERTAIN}"

definition live_states :: "locked \<Rightarrow> bool" where
  "live_states x \<longleftrightarrow> dr_state (lk_r x) \<in> {D_CLAIMED, D_RUNNING, D_UNCERTAIN} \<and> at_state (lk_a x) \<in> {A_CLAIMED, A_RUNNING, A_UNCERTAIN}"

definition verifyProof :: "dispatch_env \<Rightarrow> actor \<Rightarrow> attempt_proof \<Rightarrow> locked \<Rightarrow> derror + unit" where
  "verifyProof env a p x =
     (if ap_generation p \<noteq> ca_generation (lk_c x) \<or> ap_incarnation_id p \<noteq> at_incarnation_id (lk_a x) \<or> da_source a \<noteq> Bearer \<or>
         da_userId a \<noteq> sl_owner_user_id (lk_s x) \<or> da_tokenId a \<noteq> Some (is_supervisor_token_id (ic_scope (lk_i x))) \<or>
         \<not> credentialMatches env (ap_credential p) (at_credential_hash (lk_a x))
      then Inl DISPATCH_FORBIDDEN else Inr ())"

definition release_slot_view :: "id \<Rightarrow> registered_slot \<Rightarrow> registered_slot" where
  "release_slot_view k x = (if rg_id x = k then x\<lparr>rg_open_reservation := False, rg_live_job := False, rg_busy := False\<rparr> else x)"

text \<open>\<open>authorize\<close>: both parties still have their rights and the attempt's slot could still take the request.\<close>

definition authorize_attempt ::
  "dispatch_env \<Rightarrow> actor \<Rightarrow> locked \<Rightarrow> dispatch_operation \<Rightarrow> dispatch \<Rightarrow> derror + profile_config" where
  "authorize_attempt env a x op s =
     (let r = lk_r x; c = lk_c x in
      and_then (authorize_env env a (dr_input r) op) (\<lambda>_.
      and_then (authorize_env env (requestActor r) (dr_input r) op) (\<lambda>_.
      if da_tokenId a \<noteq> Some (sl_token_id (lk_s x)) then Inl DISPATCH_FORBIDDEN
      else and_then (loadRegisteredCapacity env s r) (\<lambda>(profiles, slots).
        case find (\<lambda>p. pf_id p = ca_profile_revision_id c) profiles of
          None \<Rightarrow> Inl DISPATCH_FORBIDDEN
        | Some p \<Rightarrow>
            if pf_revoked_at p \<noteq> None \<or> pf_sha256 p \<noteq> is_profile_sha256 (ic_scope (lk_i x)) \<or>
               pc_image_digest (pf_config p) \<noteq> is_image_digest (ic_scope (lk_i x)) then Inl DISPATCH_FORBIDDEN
            else (case find (\<lambda>q. ep_route q = ca_route c \<and> ep_profileRevisionId q = ca_profile_revision_id c)
                    (eligibleExecutors r profiles (map (release_slot_view (ca_reserved_slot_id c)) slots) (de_now env)) of
                    None \<Rightarrow> Inl DISPATCH_FORBIDDEN
                  | Some q \<Rightarrow> if ic_slot_id (lk_i x) \<in> set (ep_slotIds q) then Inr (pf_config p) else Inl DISPATCH_FORBIDDEN)))))"

section \<open>What a claim returns\<close>

record execution_context =
  cx_input :: dispatch_input
  cx_profile :: profile_config
  cx_proof :: attempt_proof
  cx_sourceArtifacts :: "(string \<times> id \<times> string) list"
  cx_modelConfig :: job_config
  cx_jobId :: "id option"

datatype authority = Prepare execution_context | Existing_scope string execution_context | No_authority "string option"

record claim_receipt =
  rc_requestId :: id
  rc_attemptId :: id
  rc_requestState :: dstate
  rc_attemptState :: astate
  rc_authority :: authority

definition reserved_config :: "id \<Rightarrow> id \<Rightarrow> dispatch \<Rightarrow> job_config option" where
  "reserved_config rid cid s = (case List.map_filter (\<lambda>e. if ev_request_id e = rid then
       (case ev_payload e of Reserved c p k rt j cfg \<Rightarrow> if c = cid then Some cfg else None | _ \<Rightarrow> None) else None) (d_events s) of
     [] \<Rightarrow> None | cfg # _ \<Rightarrow> Some cfg)"

definition attempt_context :: "dispatch_env \<Rightarrow> locked \<Rightarrow> dispatch \<Rightarrow> derror + execution_context" where
  "attempt_context env x s =
     (let r = lk_r x; c = lk_c x; a = lk_a x in
      case find_by pf_id (ca_profile_revision_id c) (d_profiles s) of
        None \<Rightarrow> Inl (Exception ''TypeError'')
      | Some p \<Rightarrow>
          (case reserved_config (dr_id r) (ca_id c) s of
             None \<Rightarrow> Inl DISPATCH_STATE_CONFLICT
           | Some cfg \<Rightarrow>
               and_then (deriveAttemptCredential env (at_id a) (at_incarnation_id a) (ca_generation c) (at_credential_key_version a)) (\<lambda>secret.
                 Inr \<lparr>cx_input = dr_input r, cx_profile = pf_config p,
                   cx_proof = \<lparr>ap_request_id = dr_id r, ap_candidate_id = ca_id c, ap_generation = ca_generation c, ap_attempt_id = at_id a,
                     ap_incarnation_id = at_incarnation_id a, ap_credential = secret\<rparr>,
                   cx_sourceArtifacts = map (\<lambda>y. (ar_key y, ar_id y, ar_sha256 y))
                     (sort_key ar_key (filter (\<lambda>y. ar_request_id y = dr_id r \<and> ar_attempt_id y = None) (d_artifacts s))),
                   cx_modelConfig = cfg, cx_jobId = ca_job_id c\<rparr>)))"

definition attempt_receipt :: "dispatch_env \<Rightarrow> actor \<Rightarrow> locked \<Rightarrow> dispatch \<Rightarrow> derror + claim_receipt" where
  "attempt_receipt env actor x s =
     (let r = lk_r x; a = lk_a x;
          none = \<lparr>rc_requestId = dr_id r, rc_attemptId = at_id a, rc_requestState = dr_state r, rc_attemptState = at_state a,
                  rc_authority = No_authority (at_scope_id a)\<rparr>
      in if \<not> de_enabled env \<or> dr_product_id r \<notin> set (de_allowlist env) \<or> \<not> active_attempt x \<or> \<not> live_states x then Inr none
         else case authorize_attempt env actor x Op_claim s of
           Inl e \<Rightarrow> if is_DispatchError e then Inr none else Inl e
         | Inr _ \<Rightarrow>
             if at_state a = A_CLAIMED \<and> dr_state r = D_CLAIMED \<and> \<not> truthy (at_scope_id a)
             then and_then (attempt_context env x s) (\<lambda>cx. Inr (none\<lparr>rc_authority := Prepare cx\<rparr>))
             else if truthy (at_scope_id a) \<and> at_started_at a \<noteq> None
             then and_then (attempt_context env x s) (\<lambda>cx. Inr (none\<lparr>rc_authority := Existing_scope (the (at_scope_id a)) cx\<rparr>))
             else Inr none)"

section \<open>Claiming\<close>

definition claim_page :: "dispatch_env \<Rightarrow> actor \<Rightarrow> dispatch \<Rightarrow> (id \<times> id) list" where
  "claim_page env a s = map snd (take 25 (sort_key (\<lambda>((t, k), _). (t, k)) (List.map_filter (\<lambda>c.
     (case find_request (ca_request_id c) s of None \<Rightarrow> None
      | Some r \<Rightarrow> if dr_state r = D_RESERVED \<and> ca_state c = K_RESERVED \<and> dr_generation r = ca_generation c \<and>
          dr_user_id r = da_userId a \<and> dr_product_id r \<in> set (de_allowlist env)
          then Some ((dr_created_at r, ca_id c), (ca_id c, dr_id r)) else None)) (d_candidates s))))"

text \<open>The job of the candidate is the one the request expects, unclaimed, and the executor may take it.\<close>

definition job_admits ::
  "drequest \<Rightarrow> candidate \<Rightarrow> dprofile \<Rightarrow> actor \<Rightarrow> incarnation \<Rightarrow> registered_slot \<Rightarrow> dispatch \<Rightarrow> bool" where
  "job_admits r c p a i own s \<longleftrightarrow>
     (case ca_job_id c of None \<Rightarrow> True
      | Some k \<Rightarrow> k = [] \<or>
          (case find_job k (d_db s) of None \<Rightarrow> False
           | Some j \<Rightarrow>
               (let expected = requestJob (dr_input r) (dr_user_id r) (pc_runtime (pf_config p)) (pf_id p) (dr_id r) in
                j_claimed_at j = None \<and> j_dispatch_request_id j = Some (dr_id r) \<and> j_dispatch_candidate_id j = Some (ca_id c) \<and>
                j_kind j = cj_kind expected \<and> j_task_id j = cj_task_id expected \<and>
                evaluateClaimPredicates (expected\<lparr>cj_status := j_status j, cj_kind := j_kind j, cj_source := j_source j,
                    cj_user_id := j_user_id j, cj_product_id := j_product_id j, cj_runtime := j_runtime j,
                    cj_required_capability := j_required_capability j, cj_sprint_run_id := j_sprint_run_id j\<rparr>)
                  ((current_executor own (sc_runtime (rg_config own)))\<lparr>ex_user_id := da_userId a, ex_incarnation_id := Some (ic_id i)\<rparr>) = [])))"

text \<open>What a claim writes, and the rows as the code holds them afterwards.\<close>

definition claim_writes ::
  "dispatch_env \<Rightarrow> id \<Rightarrow> string \<Rightarrow> string \<Rightarrow> drequest \<Rightarrow> candidate \<Rightarrow> incarnation \<times> slot_row \<Rightarrow> dispatch \<Rightarrow> derror + dispatch \<times> locked" where
  "claim_writes env aid claimKey secret r c held s =
     (let i = fst held; now = de_now env; slot = ic_slot_id i;
          s1 = (if slot \<noteq> ca_reserved_slot_id c then
                  (set_candidate (ca_id c) (\<lambda>x. x\<lparr>ca_reserved_slot_id := slot\<rparr>) s)
                    \<lparr>d_reservations := update_where (\<lambda>v. rv_candidate_id v = ca_id c \<and> rv_released_at v = None) (\<lambda>v. v\<lparr>rv_slot_id := slot\<rparr>) (d_reservations s)\<rparr>
                else s);
          s2 = set_request (dr_id r) (\<lambda>x. x\<lparr>dr_first_claimed_at := coalesce (dr_first_claimed_at x) (Some now)\<rparr>) s1;
          s3 = set_candidate (ca_id c) (\<lambda>x. x\<lparr>ca_state := K_CLAIMED, ca_incarnation_id := Some (ic_id i), ca_first_claimed_at := Some now,
                 ca_claim_key := Some claimKey\<rparr>) s2;
          s4 = on_job (ca_job_id c) (\<lambda>j. j\<lparr>j_status := J_CLAIMED, j_claimed_at := Some now,
                 j_worker_instance_id := sc_worker_instance_id (ic_scope i)\<rparr>) s3;
          a = \<lparr>at_id = aid, at_candidate_id = ca_id c, at_incarnation_id = ic_id i, at_credential_hash = de_sha256 env secret,
               at_credential_key_version = de_key_version env, at_claim_key = claimKey, at_state = A_CLAIMED, at_scope_id = None,
               at_started_at = None, at_heartbeat_at = Some now, at_stopped_at = None, at_revoked_at = None\<rparr>;
          s5 = s4\<lparr>d_attempts := d_attempts s4 @ [a]\<rparr>;
          s6 = add_event env (dr_id r) None (Claimed (ca_id c) aid (ic_id i) slot) s5;
          s7 = (case dr_retry_authorization_event_id r of None \<Rightarrow> s6
                | Some k \<Rightarrow> set_request (dr_id r) (\<lambda>x. x\<lparr>dr_retry_authorization_event_id := None\<rparr>)
                    (add_event env (dr_id r) None (Retry_consumed k aid) s6))
      in and_then (transition env (dr_id r) D_CLAIMED None s7) (\<lambda>s8.
           Inr (s8, \<lparr>lk_r = r\<lparr>dr_state := D_CLAIMED\<rparr>,
             lk_c = c\<lparr>ca_reserved_slot_id := slot, ca_incarnation_id := Some (ic_id i), ca_state := K_CLAIMED\<rparr>,
             lk_a = a, lk_i = i, lk_s = snd held\<rparr>)))"

text \<open>One candidate of the page; \<open>None\<close> is a \<open>continue\<close> of the loop.\<close>

definition claim_candidate_row ::
  "dispatch_env \<Rightarrow> (id \<Rightarrow> bool) \<Rightarrow> id \<Rightarrow> actor \<Rightarrow> id \<Rightarrow> string \<Rightarrow> string \<Rightarrow> id \<times> id \<Rightarrow> dispatch
     \<Rightarrow> derror + (dispatch \<times> claim_receipt) option" where
  "claim_candidate_row env busy aid a incarnationId claimKey session ids s =
     (case find_request (snd ids) s of None \<Rightarrow> Inr None | Some r \<Rightarrow>
      if busy (dr_id r) \<or> dr_state r \<noteq> D_RESERVED then Inr None
      else if dr_first_claimed_at r \<noteq> None \<and> assertRetryAuthorization r s = Inl DISPATCH_STATE_CONFLICT then Inr None
      else and_then (lockManagedTask s r) (\<lambda>_.
      case find_candidate (fst ids) s of None \<Rightarrow> Inr None | Some c \<Rightarrow>
      if ca_state c \<noteq> K_RESERVED \<or> ca_generation c \<noteq> dr_generation r \<or> ca_first_claimed_at c \<noteq> None then Inr None
      else and_then (authenticateExecutorSession env s a incarnationId session) (\<lambda>(i, sl).
      if ca_route c = Route_host \<and> (ca_incarnation_id c \<noteq> Some (ic_id i) \<or> ca_reserved_slot_id c \<noteq> ic_slot_id i) then Inr None
      else and_then (authorize_env env a (dr_input r) Op_claim) (\<lambda>_.
      and_then (authorize_env env (requestActor r) (dr_input r) Op_claim) (\<lambda>_.
      and_then (loadRegisteredCapacity env s r) (\<lambda>(profiles, capacity).
      case find (\<lambda>p. pf_id p = ca_profile_revision_id c) profiles of None \<Rightarrow> Inr None | Some p \<Rightarrow>
      if pf_sha256 p \<noteq> is_profile_sha256 (ic_scope i) \<or> pc_image_digest (pf_config p) \<noteq> is_image_digest (ic_scope i) then Inr None
      else
        (let slots = map (\<lambda>x. if rg_id x = ca_reserved_slot_id c then x\<lparr>rg_open_reservation := False\<rparr> else x) capacity in
         case find (\<lambda>q. ep_profileRevisionId q = ca_profile_revision_id c \<and> ep_route q = ca_route c)
           (eligibleExecutors r profiles slots (de_now env)) of None \<Rightarrow> Inr None | Some pool \<Rightarrow>
         if ic_slot_id i \<notin> set (ep_slotIds pool) then Inr None
         else (case (find (\<lambda>x. rg_id x = ic_slot_id i) slots, find (\<lambda>x. rg_id x = hd (ep_slotIds pool)) slots) of
            (Some own, Some highest) \<Rightarrow>
              if tierPriority (sc_tier (rg_config own)) < tierPriority (sc_tier (rg_config highest)) \<or> \<not> job_admits r c p a i own s then Inr None
              else and_then (deriveAttemptCredential env aid (ic_id i) (ca_generation c) (de_key_version env)) (\<lambda>secret.
                   and_then (claim_writes env aid claimKey secret r c (i, sl) s) (\<lambda>(s', x).
                   and_then (attempt_receipt env a x s') (\<lambda>receipt. Inr (Some (s', receipt)))))
          | _ \<Rightarrow> Inl (Exception ''TypeError'')))))))))"

fun claim_candidates ::
  "dispatch_env \<Rightarrow> (id \<Rightarrow> bool) \<Rightarrow> id \<Rightarrow> actor \<Rightarrow> id \<Rightarrow> string \<Rightarrow> string \<Rightarrow> (id \<times> id) list \<Rightarrow> dispatch
     \<Rightarrow> derror + dispatch \<times> claim_receipt option" where
  "claim_candidates env busy aid a incarnationId claimKey session [] s = Inr (s, None)"
| "claim_candidates env busy aid a incarnationId claimKey session (ids # page) s =
     and_then (claim_candidate_row env busy aid a incarnationId claimKey session ids s) (\<lambda>x. case x of
       None \<Rightarrow> claim_candidates env busy aid a incarnationId claimKey session page s
     | Some (s', receipt) \<Rightarrow> Inr (s', Some receipt))"

definition prior_attempt :: "id \<Rightarrow> string \<Rightarrow> dispatch \<Rightarrow> (attempt_row \<times> candidate) option" where
  "prior_attempt incarnationId claimKey s =
     (case List.map_filter (\<lambda>a. if at_incarnation_id a = incarnationId \<and> at_claim_key a = claimKey
        then map_option (Pair a) (find_candidate (at_candidate_id a) s) else None) (d_attempts s) of [] \<Rightarrow> None | x # _ \<Rightarrow> Some x)"

definition claim_transaction ::
  "dispatch_env \<Rightarrow> (id \<Rightarrow> bool) \<Rightarrow> id \<Rightarrow> actor \<Rightarrow> id \<Rightarrow> string \<Rightarrow> string \<Rightarrow> dispatch \<Rightarrow> derror + dispatch \<times> claim_receipt option" where
  "claim_transaction env busy aid a incarnationId claimKey session s =
     and_then (authenticateExecutorSession env s a incarnationId session) (\<lambda>_.
     case prior_attempt incarnationId claimKey s of
       Some (old, c) \<Rightarrow> and_then (lock_attempt s (ca_request_id c) (ca_id c) (at_id old)) (\<lambda>x.
         and_then (authenticateExecutorSession env s a incarnationId session) (\<lambda>_.
         and_then (attempt_receipt env a x s) (\<lambda>receipt. Inr (s, Some receipt))))
     | None \<Rightarrow>
         if \<not> de_enabled env then Inr (s, None)
         else claim_candidates env busy aid a incarnationId claimKey session (claim_page env a s) s)"

definition claimDispatchAttempt ::
  "dispatch_env \<Rightarrow> (id \<Rightarrow> bool) \<Rightarrow> id \<Rightarrow> actor \<Rightarrow> id \<Rightarrow> string \<Rightarrow> string \<Rightarrow> dispatch \<Rightarrow> dispatch \<times> (derror + claim_receipt option)" where
  "claimDispatchAttempt env busy aid a incarnationId claimKey session s =
     (case validateKey claimKey of Inl e \<Rightarrow> (s, Inl e)
      | Inr _ \<Rightarrow> dispatch_transaction s (claim_transaction env busy aid a incarnationId claimKey session s))"

end
