(* ===== verification/Dispatch_Leases.thy ===== *)
theory Dispatch_Leases
  imports Dispatch_Attempts
begin

text \<open>
  The lease of a claimed attempt (\<open>src/src/dispatch/attempts.ts\<close>, second half): the permit to start its scope, the renewal, the
  way back from uncertainty and the sweep. The signature over a permit is left out: a permit is the claims it states.
\<close>

section \<open>The scope of an attempt\<close>

definition validScope :: "runtime_scope \<Rightarrow> locked \<Rightarrow> derror + unit" where
  "validScope scope x =
     (if ru_scopeId scope = [] \<or> length (ru_scopeId scope) > 256 \<or> ru_bootId scope \<noteq> ic_boot_id (lk_i x) \<or>
         ru_imageDigest scope \<noteq> is_image_digest (ic_scope (lk_i x)) \<or> ru_profileSha256 scope \<noteq> is_profile_sha256 (ic_scope (lk_i x))
      then Inl DISPATCH_FORBIDDEN
      else if truthy (at_scope_id (lk_a x)) \<and> at_scope_id (lk_a x) \<noteq> Some (ru_scopeId scope) then Inl DISPATCH_STATE_CONFLICT
      else Inr ())"

definition started_scopes :: "id \<Rightarrow> id \<Rightarrow> dispatch \<Rightarrow> runtime_scope list" where
  "started_scopes rid aid s = List.map_filter (\<lambda>e. if ev_request_id e = rid then
     (case ev_payload e of Started_scope k scope \<Rightarrow> if k = aid then Some scope else None | _ \<Rightarrow> None) else None) (d_events s)"

definition verifyRecordedScope :: "locked \<Rightarrow> runtime_scope \<Rightarrow> dispatch \<Rightarrow> derror + unit" where
  "verifyRecordedScope x scope s =
     (if started_scopes (dr_id (lk_r x)) (at_id (lk_a x)) s = [scope] then Inr () else Inl DISPATCH_STATE_CONFLICT)"

definition advance :: "dispatch_env \<Rightarrow> locked \<Rightarrow> (attempt_row \<Rightarrow> attempt_row) \<Rightarrow> cstate \<Rightarrow> dispatch \<Rightarrow> dispatch" where
  "advance env x f k s = set_candidate (ca_id (lk_c x)) (\<lambda>c. c\<lparr>ca_state := k\<rparr>) (set_attempt (at_id (lk_a x)) f s)"

definition overrun :: "dispatch_env \<Rightarrow> attempt_row \<Rightarrow> profile_config \<Rightarrow> bool" where
  "overrun env a p \<longleftrightarrow> (case at_started_at a of None \<Rightarrow> False | Some t \<Rightarrow> de_now env - t \<ge> pc_max_duration_seconds p * 1000)"

definition lease_over :: "dispatch_env \<Rightarrow> attempt_row \<Rightarrow> bool" where
  "lease_over env a \<longleftrightarrow> (case at_heartbeat_at a of None \<Rightarrow> True | Some t \<Rightarrow> de_now env - t \<ge> lease_ms)"

section \<open>Start\<close>

record start_permit =
  sp_binding :: binding
  sp_scope :: runtime_scope
  sp_issuedAt :: time
  sp_expiresAt :: time

definition start_transaction ::
  "dispatch_env \<Rightarrow> actor \<Rightarrow> attempt_proof \<Rightarrow> runtime_scope \<Rightarrow> dispatch \<Rightarrow> derror + dispatch \<times> start_permit" where
  "start_transaction env actor p scope s =
     and_then (lock_attempt s (ap_request_id p) (ap_candidate_id p) (ap_attempt_id p)) (\<lambda>x.
     and_then (verifyProof env actor p x) (\<lambda>_.
     and_then (validScope scope x) (\<lambda>_.
       let r = lk_r x; a = lk_a x; now = de_now env in
       if \<not> de_enabled env \<or> dr_product_id r \<notin> set (de_allowlist env) \<or> \<not> active_attempt x \<or>
          dr_state r \<notin> {D_CLAIMED, D_RUNNING} \<or> at_state a \<notin> {A_CLAIMED, A_RUNNING} \<or> lease_over env a then Inl DISPATCH_STATE_CONFLICT
       else and_then (authorize_attempt env actor x Op_start s) (\<lambda>profile.
         if overrun env a profile then Inl DISPATCH_STATE_CONFLICT
         else and_then (if at_state a = A_RUNNING then verifyRecordedScope x scope s else Inr ()) (\<lambda>_.
         and_then
           (if at_state a = A_CLAIMED then
              transition env (dr_id r) D_RUNNING None
                (add_event env (dr_id r) None (Started_scope (at_id a) scope)
                  (on_job (ca_job_id (lk_c x)) (\<lambda>j. j\<lparr>j_status := J_RUNNING, j_started_at := Some now\<rparr>)
                  (advance env x (\<lambda>y. y\<lparr>at_state := A_RUNNING, at_scope_id := Some (ru_scopeId scope), at_started_at := Some now,
                     at_heartbeat_at := Some now\<rparr>) K_RUNNING s)))
            else Inr s)
           (\<lambda>s'. Inr (s', \<lparr>sp_binding = \<lparr>bi_requestId = dr_id r, bi_candidateId = ca_id (lk_c x), bi_generation = ca_generation (lk_c x),
              bi_attemptId = at_id a, bi_incarnationId = at_incarnation_id a\<rparr>, sp_scope = scope, sp_issuedAt = now, sp_expiresAt = now + 5000\<rparr>)))))))"

definition startDispatchAttempt ::
  "dispatch_env \<Rightarrow> actor \<Rightarrow> attempt_proof \<Rightarrow> runtime_scope \<Rightarrow> dispatch \<Rightarrow> dispatch \<times> (derror + start_permit)" where
  "startDispatchAttempt env actor p scope s = dispatch_transaction s (start_transaction env actor p scope s)"

section \<open>Uncertainty and the demand to stop\<close>

definition uncertain :: "dispatch_env \<Rightarrow> locked \<Rightarrow> dispatch \<Rightarrow> derror + dispatch" where
  "uncertain env x s = transition env (dr_id (lk_r x)) D_UNCERTAIN None
     (add_event env (dr_id (lk_r x)) None (Lease_expired (at_id (lk_a x)))
       (advance env x (\<lambda>a. a\<lparr>at_state := A_UNCERTAIN\<rparr>) K_UNCERTAIN s))"

definition cancelForStop :: "dispatch_env \<Rightarrow> locked \<Rightarrow> string \<Rightarrow> dispatch \<Rightarrow> derror + dispatch" where
  "cancelForStop env x reason s = transition env (dr_id (lk_r x)) D_CANCEL_REQUESTED None
     (add_event env (dr_id (lk_r x)) None (Stop_required (at_id (lk_a x)) reason)
       (advance env x (\<lambda>a. a\<lparr>at_state := A_CANCEL_REQUESTED, at_revoked_at := coalesce (at_revoked_at a) (Some (de_now env))\<rparr>)
         K_CANCEL_REQUESTED s))"

text \<open>The rows as the code holds them after \<open>uncertain\<close>.\<close>

definition as_uncertain :: "locked \<Rightarrow> locked" where
  "as_uncertain x = x\<lparr>lk_r := (lk_r x)\<lparr>dr_state := D_UNCERTAIN\<rparr>, lk_a := (lk_a x)\<lparr>at_state := A_UNCERTAIN\<rparr>\<rparr>"

section \<open>Renewal and reconciliation\<close>

definition renew_rest :: "dispatch_env \<Rightarrow> actor \<Rightarrow> locked \<Rightarrow> dispatch \<Rightarrow> derror + dispatch \<times> bool" where
  "renew_rest env actor x s =
     (case authorize_attempt env actor x Op_start s of
        Inl e \<Rightarrow> if \<not> is_DispatchError e then Inl e
          else and_then (cancelForStop env x ''authorization_unavailable'' s) (\<lambda>s'. Inr (s', True))
      | Inr profile \<Rightarrow>
          if overrun env (lk_a x) profile then and_then (cancelForStop env x ''maximum_duration'' s) (\<lambda>s'. Inr (s', True))
          else Inr (set_attempt (at_id (lk_a x)) (\<lambda>a. a\<lparr>at_heartbeat_at := Some (de_now env)\<rparr>) s, at_state (lk_a x) = A_UNCERTAIN))"

definition renew_transaction ::
  "dispatch_env \<Rightarrow> actor \<Rightarrow> attempt_proof \<Rightarrow> string \<Rightarrow> dispatch \<Rightarrow> derror + dispatch \<times> bool" where
  "renew_transaction env actor p scopeId s =
     and_then (lock_attempt s (ap_request_id p) (ap_candidate_id p) (ap_attempt_id p)) (\<lambda>x.
     and_then (verifyProof env actor p x) (\<lambda>_.
       if \<not> active_attempt x \<or> \<not> live_states x then Inr (s, True)
       else if at_scope_id (lk_a x) \<noteq> Some scopeId then Inl DISPATCH_FORBIDDEN
       else if at_state (lk_a x) \<noteq> A_UNCERTAIN \<and> lease_over env (lk_a x)
       then and_then (uncertain env x s) (\<lambda>s'. renew_rest env actor (as_uncertain x) s')
       else renew_rest env actor x s))"

text \<open>The answer is \<open>stopRequired\<close>.\<close>

definition renewDispatchAttempt ::
  "dispatch_env \<Rightarrow> actor \<Rightarrow> attempt_proof \<Rightarrow> string \<Rightarrow> dispatch \<Rightarrow> dispatch \<times> (derror + bool)" where
  "renewDispatchAttempt env actor p scopeId s = dispatch_transaction s (renew_transaction env actor p scopeId s)"

definition reconcile_transaction ::
  "dispatch_env \<Rightarrow> actor \<Rightarrow> attempt_proof \<Rightarrow> runtime_scope \<Rightarrow> dispatch \<Rightarrow> derror + dispatch \<times> unit" where
  "reconcile_transaction env actor p scope s =
     and_then (lock_attempt s (ap_request_id p) (ap_candidate_id p) (ap_attempt_id p)) (\<lambda>x.
     and_then (verifyProof env actor p x) (\<lambda>_.
     and_then (validScope scope x) (\<lambda>_.
       let r = lk_r x; a = lk_a x in
       if \<not> de_enabled env \<or> dr_product_id r \<notin> set (de_allowlist env) \<or> \<not> active_attempt x \<or> dr_state r \<noteq> D_UNCERTAIN \<or>
          at_state a \<noteq> A_UNCERTAIN \<or> at_started_at a = None \<or> \<not> truthy (at_scope_id a) then Inl DISPATCH_STATE_CONFLICT
       else and_then (authorize_attempt env actor x Op_start s) (\<lambda>profile.
         if overrun env a profile then Inl DISPATCH_STATE_CONFLICT
         else and_then (verifyRecordedScope x scope s) (\<lambda>_.
           if de_transition env (dr_state r) ''resume_same_attempt'' = None then Inl (Exception ''INVALID_TRANSITION'')
           else and_then (transition env (dr_id r) D_RUNNING None
             (add_event env (dr_id r) None (Resume_same_attempt (at_id a) (the (at_scope_id a)))
               (advance env x (\<lambda>y. y\<lparr>at_state := A_RUNNING, at_heartbeat_at := Some (de_now env)\<rparr>) K_RUNNING s))) (\<lambda>s'. Inr (s', ())))))))"

definition reconcileDispatchAttempt ::
  "dispatch_env \<Rightarrow> actor \<Rightarrow> attempt_proof \<Rightarrow> runtime_scope \<Rightarrow> dispatch \<Rightarrow> dispatch \<times> (derror + unit)" where
  "reconcileDispatchAttempt env actor p scope s = dispatch_transaction s (reconcile_transaction env actor p scope s)"

section \<open>The sweep of leases\<close>

text \<open>The page of attempts whose lease or time is over, by heartbeat (a missing one last), then by id.\<close>

definition attempt_due :: "dispatch_env \<Rightarrow> dispatch \<Rightarrow> attempt_row \<Rightarrow> (id \<times> id \<times> id) option" where
  "attempt_due env s a =
     (case find_candidate (at_candidate_id a) s of None \<Rightarrow> None | Some c \<Rightarrow>
     (case find_by pf_id (ca_profile_revision_id c) (d_profiles s) of None \<Rightarrow> None | Some p \<Rightarrow>
       if \<not> (at_stopped_at a \<noteq> None \<and> stop_accepted (ca_request_id c) (at_id a) s \<noteq> []) \<and>
          (at_state a \<in> {A_CLAIMED, A_RUNNING} \<and> (case at_heartbeat_at a of None \<Rightarrow> False | Some t \<Rightarrow> t \<le> de_now env - lease_ms) \<or>
           at_state a \<in> {A_CLAIMED, A_RUNNING, A_UNCERTAIN} \<and> overrun env a (pf_config p))
       then Some (ca_request_id c, ca_id c, at_id a) else None))"

definition expired_attempts :: "dispatch_env \<Rightarrow> int \<Rightarrow> dispatch \<Rightarrow> (id \<times> id \<times> id) list" where
  "expired_attempts env limit s = List.map_filter (attempt_due env s) (take (nat (min 25 (max 0 limit)))
     (sort_key (\<lambda>a. (at_heartbeat_at a = None, or_else (at_heartbeat_at a) 0, at_id a))
       (filter (\<lambda>a. attempt_due env s a \<noteq> None) (d_attempts s))))"

definition expire_transaction :: "dispatch_env \<Rightarrow> id \<times> id \<times> id \<Rightarrow> dispatch \<Rightarrow> derror + dispatch \<times> bool" where
  "expire_transaction env ids s =
     (case ids of (rid, cid, aid) \<Rightarrow>
      and_then (lock_attempt s rid cid aid) (\<lambda>x.
        if dr_generation (lk_r x) \<noteq> ca_generation (lk_c x) \<or> \<not> live_states x then Inr (s, False)
        else if at_stopped_at (lk_a x) \<noteq> None \<and> stop_accepted (dr_id (lk_r x)) (at_id (lk_a x)) s \<noteq> [] then Inr (s, False)
        else case find_by pf_id (ca_profile_revision_id (lk_c x)) (d_profiles s) of
          None \<Rightarrow> Inl (Exception ''TypeError'')
        | Some p \<Rightarrow>
            if overrun env (lk_a x) (pf_config p) then and_then (cancelForStop env x ''maximum_duration'' s) (\<lambda>s'. Inr (s', False))
            else if at_state (lk_a x) = A_UNCERTAIN \<or> at_heartbeat_at (lk_a x) = None \<or> \<not> lease_over env (lk_a x) then Inr (s, False)
            else and_then (uncertain env x s) (\<lambda>s'. Inr (s', True))))"

text \<open>Each attempt in a transaction of its own; an exception ends the sweep, and keeps what it has done.\<close>

fun expire_all :: "dispatch_env \<Rightarrow> (id \<times> id \<times> id) list \<Rightarrow> dispatch \<Rightarrow> dispatch \<times> (derror + nat)" where
  "expire_all env [] s = (s, Inr 0)"
| "expire_all env (ids # rest) s =
     (case dispatch_transaction s (expire_transaction env ids s) of
        (s', Inl e) \<Rightarrow> (s', Inl e)
      | (s', Inr b) \<Rightarrow> (case expire_all env rest s' of (t, y) \<Rightarrow> (t, and_then y (\<lambda>n. Inr (if b then Suc n else n)))))"

definition markExpiredAttempts :: "dispatch_env \<Rightarrow> int \<Rightarrow> dispatch \<Rightarrow> dispatch \<times> (derror + nat)" where
  "markExpiredAttempts env limit s = expire_all env (expired_attempts env limit s) s"

end
