(* ===== verification/Dispatch_Stops.thy ===== *)
theory Dispatch_Stops
  imports Dispatch_Leases
begin

text \<open>
  How an attempt is shown to have stopped: the stored bytes of an evidence (\<open>src/src/dispatch/artifacts.ts\<close>), the stop of a scope, of a
  claim that never got a scope and of a replaced supervisor that never started (\<open>stop-evidence.ts\<close>, \<open>orphans.ts\<close>). Only an
  accepted stop sets \<open>stopped_at\<close>, and only a stopped attempt can be ended.
\<close>

section \<open>Stored bytes\<close>

definition control_keys :: "dispatch_env \<Rightarrow> string list" where
  "control_keys env = [de_stop_key env, ''__operator_recovery'', ''__claim_bound_stop'', ''__publication_resolution'']"

definition bytes_of :: "(artifact \<Rightarrow> bool) \<Rightarrow> dispatch \<Rightarrow> nat" where
  "bytes_of q s = sum_list (map ar_byte_size (filter q (d_artifacts s)))"

definition insertArtifact ::
  "dispatch_env \<Rightarrow> id \<Rightarrow> id option \<Rightarrow> string \<Rightarrow> string \<Rightarrow> string \<Rightarrow> event_actor \<Rightarrow> staged_binding option \<Rightarrow> id \<Rightarrow> dispatch
     \<Rightarrow> derror + dispatch \<times> id" where
  "insertArtifact env rid aid k bytes sha by bound nid s =
     (if length bytes > bl_artifact (de_limits env) then Inl DISPATCH_TOO_LARGE
      else if \<not> is_hex64 sha \<or> de_sha256 env bytes \<noteq> sha then Inl DISPATCH_INVALID_INPUT
      else case find (\<lambda>x. ar_request_id x = rid \<and> ar_attempt_id x = aid \<and> ar_key x = k) (d_artifacts s) of
        Some old \<Rightarrow>
          if ar_sha256 old \<noteq> sha \<or> ar_byte_size old \<noteq> length bytes \<or> ar_bytes old \<noteq> bytes then Inl DISPATCH_IDEMPOTENCY_CONFLICT
          else Inr (s, ar_id old)
      | None \<Rightarrow>
          if bytes_of (\<lambda>x. ar_request_id x = rid \<and> ar_attempt_id x = aid) s + length bytes > bl_attempt (de_limits env) then Inl DISPATCH_TOO_LARGE
          else if aid \<noteq> None \<and>
            bytes_of (\<lambda>x. ar_attempt_id x = aid \<and> (ar_key x \<in> set (control_keys env)) = (k \<in> set (control_keys env))) s + length bytes
              > (if k \<in> set (control_keys env) then bl_stop_evidence (de_limits env) else bl_output (de_limits env)) then Inl DISPATCH_TOO_LARGE
          else Inr (add_event_by env by rid aid (Artifact_staged nid k sha bound)
            (s\<lparr>d_artifacts := d_artifacts s @ [\<lparr>ar_id = nid, ar_request_id = rid, ar_attempt_id = aid, ar_key = k, ar_sha256 = sha,
               ar_bytes = bytes, ar_byte_size = length bytes\<rparr>]\<rparr>), nid))"

section \<open>The supervisor and its binding\<close>

definition authenticateHistoricalSupervisor :: "dispatch_env \<Rightarrow> actor \<Rightarrow> artifact_attempt \<Rightarrow> derror + unit" where
  "authenticateHistoricalSupervisor env a x =
     and_then (refreshActor (de_now env) (de_grants env) a) (\<lambda>_.
       if da_source a \<noteq> Bearer \<or> da_userId a \<noteq> sl_owner_user_id (lk_s x) \<or>
          da_tokenId a \<noteq> Some (is_supervisor_token_id (ic_scope (lk_i x))) \<or> da_tokenId a \<noteq> Some (sl_token_id (lk_s x))
       then Inl DISPATCH_FORBIDDEN else Inr ())"

definition binding_of :: "artifact_attempt \<Rightarrow> binding" where
  "binding_of x = \<lparr>bi_requestId = dr_id (lk_r x), bi_candidateId = ca_id (lk_c x), bi_generation = ca_generation (lk_c x),
     bi_attemptId = at_id (lk_a x), bi_incarnationId = ic_id (lk_i x)\<rparr>"

definition accepted_bindings :: "artifact_attempt \<Rightarrow> dispatch \<Rightarrow> (binding \<times> runtime_scope option) list" where
  "accepted_bindings x s = List.map_filter (\<lambda>e. case ev_payload e of Stop_accepted k a h b scope \<Rightarrow> Some (b, scope) | _ \<Rightarrow> None)
     (stop_accepted (dr_id (lk_r x)) (at_id (lk_a x)) s)"

definition scope_agrees :: "artifact_attempt \<Rightarrow> runtime_scope \<Rightarrow> bool" where
  "scope_agrees x scope \<longleftrightarrow> ru_bootId scope = ic_boot_id (lk_i x) \<and> ru_imageDigest scope = is_image_digest (ic_scope (lk_i x)) \<and>
     ru_profileSha256 scope = is_profile_sha256 (ic_scope (lk_i x))"

definition validateHistoricalBinding :: "artifact_attempt \<Rightarrow> binding \<Rightarrow> runtime_scope \<Rightarrow> dispatch \<Rightarrow> derror + unit" where
  "validateHistoricalBinding x b scope s =
     (let started = started_scopes (dr_id (lk_r x)) (at_id (lk_a x)) s; accepted = accepted_bindings x s in
      if b \<noteq> binding_of x \<or> \<not> scope_agrees x scope \<or>
         (case at_scope_id (lk_a x) of
            Some k \<Rightarrow> k \<noteq> ru_scopeId scope \<or> started \<noteq> [scope]
          | None \<Rightarrow> at_started_at (lk_a x) \<noteq> None \<or> started \<noteq> []) \<or>
         accepted \<noteq> [] \<and> accepted \<noteq> [(b, Some scope)]
      then Inl DISPATCH_STATE_CONFLICT else Inr ())"

section \<open>The stop of a scope\<close>

text \<open>An evidence as it is submitted; the time of the observation also as the text that was sent.\<close>

record stop_evidence =
  se_kind :: string
  se_artifact_id :: id
  se_sha256 :: string
  se_attempt_id :: id
  se_incarnation_id :: id
  se_scope_id :: string
  se_profile_sha256 :: string
  se_observed_at :: time
  se_observed_text :: string

definition mark_stopped :: "dispatch_env \<Rightarrow> id \<Rightarrow> time \<Rightarrow> dispatch \<Rightarrow> dispatch" where
  "mark_stopped env aid t = set_attempt aid (\<lambda>a. a\<lparr>at_stopped_at := Some t, at_revoked_at := coalesce (at_revoked_at a) (Some (de_now env))\<rparr>)"

definition as_stopped :: "time \<Rightarrow> artifact_attempt \<Rightarrow> artifact_attempt" where
  "as_stopped t x = x\<lparr>lk_a := (lk_a x)\<lparr>at_stopped_at := Some t\<rparr>\<rparr>"

text \<open>The artifact an evidence names, with its bytes intact.\<close>

definition evidence_artifact :: "dispatch_env \<Rightarrow> artifact_attempt \<Rightarrow> stop_evidence \<Rightarrow> string \<Rightarrow> dispatch \<Rightarrow> artifact option" where
  "evidence_artifact env x e k s = (case find (\<lambda>y. ar_id y = se_artifact_id e \<and> ar_request_id y = dr_id (lk_r x) \<and>
       ar_attempt_id y = Some (at_id (lk_a x)) \<and> ar_key y = k) (d_artifacts s) of
     None \<Rightarrow> None
   | Some y \<Rightarrow> if ar_sha256 y \<noteq> se_sha256 e \<or> ar_byte_size y \<noteq> length (ar_bytes y) \<or> de_sha256 env (ar_bytes y) \<noteq> se_sha256 e then None else Some y)"

text \<open>The observation is about this attempt, its slot and its scope, and is what the evidence says.\<close>

definition observation_agrees :: "dispatch_env \<Rightarrow> artifact_attempt \<Rightarrow> stop_evidence \<Rightarrow> artifact \<Rightarrow> observation \<Rightarrow> bool" where
  "observation_agrees env x e y body \<longleftrightarrow>
     utf8 (de_canonical_observation env body) = ar_bytes y \<and> so_binding body = binding_of x \<and> so_slotId body = sl_id (lk_s x) \<and>
     so_observer body = ''broker:'' @ sl_id (lk_s x) \<and> scope_agrees x (so_scope body) \<and>
     se_attempt_id e = at_id (lk_a x) \<and> se_incarnation_id e = ic_id (lk_i x) \<and> se_scope_id e = ru_scopeId (so_scope body) \<and>
     se_profile_sha256 e = ru_profileSha256 (so_scope body) \<and> se_observed_at e = so_observedAt body"

definition staged_events :: "artifact_attempt \<Rightarrow> id \<Rightarrow> dispatch \<Rightarrow> event list" where
  "staged_events x artifactId s = filter (\<lambda>v. ev_request_id v = dr_id (lk_r x) \<and> ev_attempt_id v = Some (at_id (lk_a x)) \<and>
     (case ev_payload v of Artifact_staged k _ _ _ \<Rightarrow> k = artifactId | _ \<Rightarrow> False)) (d_events s)"

definition staged_by_supervisor :: "artifact_attempt \<Rightarrow> stop_evidence \<Rightarrow> observation \<Rightarrow> event list \<Rightarrow> bool" where
  "staged_by_supervisor x e body evs \<longleftrightarrow>
     (case evs of [v] \<Rightarrow>
        ev_actor v = By_producer ''supervisor'' (sl_owner_user_id (lk_s x)) (Some (is_supervisor_token_id (ic_scope (lk_i x)))) (Some (ic_id (lk_i x))) \<and>
        (case ev_payload v of Artifact_staged _ _ sha bound \<Rightarrow> sha = se_sha256 e \<and>
           bound = Some \<lparr>sb_binding = so_binding body, sb_scope = Some (so_scope body), sb_slotId = Some (sl_id (lk_s x)),
             sb_provenance = Some (if at_scope_id (lk_a x) = None then ''unregistered_prepared_scope'' else ''registered_started_scope'')\<rparr>
         | _ \<Rightarrow> False)
      | _ \<Rightarrow> False)"

text \<open>The observation fits the life of the attempt: prepared and never launched, or started in this very scope.\<close>

definition observation_fits :: "dispatch_env \<Rightarrow> artifact_attempt \<Rightarrow> observation \<Rightarrow> dispatch \<Rightarrow> bool" where
  "observation_fits env x body s \<longleftrightarrow>
     (let started = started_scopes (dr_id (lk_r x)) (at_id (lk_a x)) s in
      (case at_scope_id (lk_a x) of
         None \<Rightarrow> at_started_at (lk_a x) = None \<and> started = [] \<and>
           (case ca_first_claimed_at (lk_c x) of None \<Rightarrow> False | Some t \<Rightarrow> t \<le> so_observedAt body) \<and>
           so_status body = ''created'' \<and> \<not> unresolvedPublication (dr_id (lk_r x)) s
       | Some k \<Rightarrow> k = ru_scopeId (so_scope body) \<and> started = [so_scope body] \<and>
           (case at_started_at (lk_a x) of None \<Rightarrow> False | Some t \<Rightarrow> t \<le> so_observedAt body)) \<and>
      so_observedAt body \<le> de_now env)"

text \<open>The event of the stop, and whether the attempt was marked by this call.\<close>

definition acceptStopInTransaction ::
  "dispatch_env \<Rightarrow> artifact_attempt \<Rightarrow> stop_evidence \<Rightarrow> dispatch \<Rightarrow> derror + dispatch \<times> id \<times> artifact_attempt" where
  "acceptStopInTransaction env x e s =
     (if se_kind e \<noteq> ''container_stopped'' then Inl DISPATCH_STATE_CONFLICT
      else case evidence_artifact env x e (de_stop_key env) s of
        None \<Rightarrow> Inl DISPATCH_STATE_CONFLICT
      | Some y \<Rightarrow>
          (case de_parse_observation env (ar_bytes y) of
             None \<Rightarrow> Inl (Exception ''ZodError'')
           | Some body \<Rightarrow>
               if \<not> observation_agrees env x e y body \<or> \<not> staged_by_supervisor x e body (staged_events x (ar_id y) s) \<or>
                  \<not> observation_fits env x body s then Inl DISPATCH_STATE_CONFLICT
               else (case stop_accepted (dr_id (lk_r x)) (at_id (lk_a x)) s of
                   [] \<Rightarrow>
                     (let kind = (if at_scope_id (lk_a x) = None then ''prepared_created_nonlaunch'' else ''registered_started_scope'');
                          s' = add_event_by env (By_producer ''supervisor'' (sl_owner_user_id (lk_s x)) (Some (is_supervisor_token_id (ic_scope (lk_i x)))) (Some (ic_id (lk_i x)))) (dr_id (lk_r x))
                            (Some (at_id (lk_a x))) (Stop_accepted kind (Some (ar_id y)) (Some (se_sha256 e)) (so_binding body) (Some (so_scope body))) s
                      in Inr (mark_stopped env (at_id (lk_a x)) (se_observed_at e) s', next_event env s, as_stopped (se_observed_at e) x))
                 | old # others \<Rightarrow>
                     if others \<noteq> [] \<or> (case ev_payload old of Stop_accepted _ aid sha b scope \<Rightarrow>
                          aid \<noteq> Some (ar_id y) \<or> sha \<noteq> Some (se_sha256 e) \<or> b \<noteq> so_binding body \<or> scope \<noteq> Some (so_scope body) | _ \<Rightarrow> True)
                     then Inl DISPATCH_STATE_CONFLICT else Inr (s, ev_key old, x))))"

definition stop_transaction ::
  "dispatch_env \<Rightarrow> actor \<Rightarrow> attempt_proof \<Rightarrow> stop_evidence \<Rightarrow> id \<Rightarrow> dispatch \<Rightarrow> derror + dispatch \<times> id" where
  "stop_transaction env a p e nid s =
     and_then (lockArtifactAttempt s (ap_attempt_id p)) (\<lambda>x.
     and_then (verifyArtifactProof env a p x) (\<lambda>_.
     and_then (authenticateHistoricalSupervisor env a x) (\<lambda>_.
     and_then (acceptStopInTransaction env x e s) (\<lambda>(s1, k, x1).
     and_then (finishStoppedCancellation env x1 nid s1) (\<lambda>s2. Inr (s2, k))))))"

definition submitStop ::
  "dispatch_env \<Rightarrow> actor \<Rightarrow> attempt_proof \<Rightarrow> stop_evidence \<Rightarrow> id \<Rightarrow> dispatch \<Rightarrow> dispatch \<times> (derror + id)" where
  "submitStop env a p e nid s = dispatch_transaction s (stop_transaction env a p e nid s)"

section \<open>The stop of a claim without a scope\<close>

definition bounded_stop_reason :: "string \<Rightarrow> bool" where
  "bounded_stop_reason reason \<longleftrightarrow>
     (let rest = drop 9 reason in starts_with ''DISPATCH_'' reason \<and> length rest \<in> {1..80} \<and>
        list_all (\<lambda>c. is_digit c \<or> c = CHR ''_'' \<or> (65::nat) \<le> of_char c \<and> of_char c \<le> (90::nat)) rest)"

definition claim_bound_body :: "artifact_attempt \<Rightarrow> string \<Rightarrow> string \<Rightarrow> json" where
  "claim_bound_body x reason observedAt =
     (let b = binding_of x; slot = sl_id (lk_s x) in
      JObj [(''version'', JNum 1), (''purpose'', JStr ''dispatch-claim-bound-stop''),
        (''binding'', JObj [(''requestId'', JStr (bi_requestId b)), (''candidateId'', JStr (bi_candidateId b)),
           (''generation'', JNum (int (bi_generation b))), (''attemptId'', JStr (bi_attemptId b)), (''incarnationId'', JStr (bi_incarnationId b))]),
        (''slotId'', JStr slot), (''observer'', JStr (''supervisor:'' @ slot)), (''observedAt'', JStr observedAt), (''reason'', JStr reason)])"

definition unstarted_states :: "artifact_attempt \<Rightarrow> bool" where
  "unstarted_states x \<longleftrightarrow> dr_state (lk_r x) \<in> {D_CLAIMED, D_UNCERTAIN, D_CANCEL_REQUESTED} \<and>
     at_state (lk_a x) \<in> {A_CLAIMED, A_UNCERTAIN, A_CANCEL_REQUESTED}"

definition never_started :: "artifact_attempt \<Rightarrow> bool" where
  "never_started x \<longleftrightarrow> at_scope_id (lk_a x) = None \<and> at_started_at (lk_a x) = None \<and> at_stopped_at (lk_a x) = None \<and>
     dr_generation (lk_r x) = ca_generation (lk_c x) \<and> ca_first_claimed_at (lk_c x) \<noteq> None \<and> unstarted_states x"

text \<open>The time of the observation comes as its text with what \<open>Date.parse\<close> reads in it.\<close>

definition acceptClaimBoundStopInTransaction ::
  "dispatch_env \<Rightarrow> artifact_attempt \<Rightarrow> string \<Rightarrow> string \<times> time option \<Rightarrow> actor \<Rightarrow> id \<Rightarrow> dispatch
     \<Rightarrow> derror + dispatch \<times> id \<times> bool \<times> artifact_attempt" where
  "acceptClaimBoundStopInTransaction env x reason observed a nid s =
     (case (bounded_stop_reason reason, snd observed) of
        (True, Some t) \<Rightarrow>
          (let rid = dr_id (lk_r x); aid = at_id (lk_a x);
               bytes = utf8 (canonicalResult (claim_bound_body x reason (fst observed))); sha = de_sha256 env bytes;
               by = By_producer ''supervisor'' (da_userId a) (da_tokenId a) (Some (ic_id (lk_i x)))
           in case stop_accepted rid aid s of
             old # others \<Rightarrow>
               if others \<noteq> [] \<or> (case ev_payload old of Stop_accepted kind _ h _ _ \<Rightarrow> kind \<noteq> ''claim_bound_unscoped'' \<or> h \<noteq> Some sha | _ \<Rightarrow> True)
               then Inl DISPATCH_STATE_CONFLICT else Inr (s, ev_key old, False, x)
           | [] \<Rightarrow>
               if \<not> never_started x \<or> started_scopes rid aid s \<noteq> [] \<or>
                  list_ex (\<lambda>y. ar_request_id y = rid \<and> ar_attempt_id y = Some aid \<and> ar_key y = de_stop_key env) (d_artifacts s) \<or>
                  result_of rid s \<noteq> None \<or> unresolvedPublication rid s \<or> t < the (ca_first_claimed_at (lk_c x)) \<or> t > de_now env
               then Inl DISPATCH_STATE_CONFLICT
               else and_then (insertArtifact env rid (Some aid) ''__claim_bound_stop'' bytes sha by
                   (Some \<lparr>sb_binding = binding_of x, sb_scope = None, sb_slotId = None, sb_provenance = None\<rparr>) nid s) (\<lambda>(s1, artifactId).
                 Inr (mark_stopped env aid t (add_event_by env by rid (Some aid)
                        (Stop_accepted ''claim_bound_unscoped'' (Some artifactId) (Some sha) (binding_of x) None) s1),
                      next_event env s1, True, as_stopped t x)))
      | _ \<Rightarrow> Inl DISPATCH_STATE_CONFLICT)"

definition claimBoundFailedResult :: "string \<Rightarrow> dispatch_result" where
  "claimBoundFailedResult reason = plain_result Out_failed reason (''The attempt was refused before any runtime scope was created: '' @ reason @
     ''. No container was created, so there is no output to report.'')"

text \<open>Closing a request at the stop: an ordinary cancellation, or a failure with the given result.\<close>

definition close_at_stop :: "dispatch_env \<Rightarrow> artifact_attempt \<Rightarrow> dispatch_result \<Rightarrow> id \<Rightarrow> dispatch \<Rightarrow> derror + dispatch" where
  "close_at_stop env x result nid s =
     (if dr_state (lk_r x) = D_CANCEL_REQUESTED then finishStoppedCancellation env x nid s
      else and_then (finishResult env x result (result_hash env result) nid s) (\<lambda>(s', _). Inr s'))"

definition claim_bound_transaction ::
  "dispatch_env \<Rightarrow> actor \<Rightarrow> attempt_proof \<Rightarrow> string \<Rightarrow> string \<times> time option \<Rightarrow> id \<Rightarrow> id \<Rightarrow> dispatch \<Rightarrow> derror + dispatch \<times> id" where
  "claim_bound_transaction env a p reason observed artifactId nid s =
     and_then (lockArtifactAttempt s (ap_attempt_id p)) (\<lambda>x.
     and_then (verifyArtifactProof env a p x) (\<lambda>_.
     and_then (authenticateHistoricalSupervisor env a x) (\<lambda>_.
     and_then (acceptClaimBoundStopInTransaction env x reason observed a artifactId s) (\<lambda>(s1, k, fresh, x1).
       if fresh then and_then (close_at_stop env x1 (claimBoundFailedResult reason) nid s1) (\<lambda>s2. Inr (s2, k)) else Inr (s1, k)))))"

definition submitClaimBoundStop ::
  "dispatch_env \<Rightarrow> actor \<Rightarrow> attempt_proof \<Rightarrow> string \<Rightarrow> string \<times> time option \<Rightarrow> id \<Rightarrow> id \<Rightarrow> dispatch \<Rightarrow> dispatch \<times> (derror + id)" where
  "submitClaimBoundStop env a p reason observed artifactId nid s =
     dispatch_transaction s (claim_bound_transaction env a p reason observed artifactId nid s)"

section \<open>A supervisor that was replaced before it started\<close>

definition SIGNED_OFF_UNSTARTED_REASON :: string where
  "SIGNED_OFF_UNSTARTED_REASON = ''DISPATCH_INCARNATION_SIGNED_OFF_BEFORE_START''"

definition acceptSignedOffUnstartedStopInTransaction :: "dispatch_env \<Rightarrow> artifact_attempt \<Rightarrow> dispatch \<Rightarrow> (dispatch \<times> artifact_attempt) option" where
  "acceptSignedOffUnstartedStopInTransaction env x s =
     (let rid = dr_id (lk_r x); aid = at_id (lk_a x) in
      if ic_signed_off_at (lk_i x) = None \<or> \<not> never_started x \<or> started_scopes rid aid s \<noteq> [] \<or> stop_accepted rid aid s \<noteq> [] \<or>
         result_of rid s \<noteq> None \<or> unresolvedPublication rid s then None
      else Some (mark_stopped env aid (de_now env) (add_event env rid (Some aid)
             (Stop_accepted ''signed_off_unstarted'' None None (binding_of x) None) s), as_stopped (de_now env) x))"

definition signed_off_result :: dispatch_result where
  "signed_off_result = plain_result Out_failed SIGNED_OFF_UNSTARTED_REASON
     ''The supervisor holding this claim was replaced before the attempt started. No start permit was ever issued, so nothing ran.''"

definition orphan_transaction :: "dispatch_env \<Rightarrow> id \<Rightarrow> id \<Rightarrow> dispatch \<Rightarrow> derror + dispatch \<times> bool" where
  "orphan_transaction env aid nid s =
     and_then (lockArtifactAttempt s aid) (\<lambda>x.
       case acceptSignedOffUnstartedStopInTransaction env x s of
         None \<Rightarrow> Inr (s, False)
       | Some (s1, x1) \<Rightarrow> and_then (close_at_stop env x1 signed_off_result nid s1) (\<lambda>s2. Inr (s2, True)))"

definition signed_off_at :: "dispatch \<Rightarrow> attempt_row \<Rightarrow> time option" where
  "signed_off_at s a = (case find_by ic_id (at_incarnation_id a) (d_incarnations s) of None \<Rightarrow> None | Some i \<Rightarrow> ic_signed_off_at i)"

definition orphan_page :: "int \<Rightarrow> dispatch \<Rightarrow> id list" where
  "orphan_page limit s = map at_id (take (nat (min 25 (max 0 limit))) (sort_key (\<lambda>a. (or_else (signed_off_at s a) 0, at_id a))
     (filter (\<lambda>a. signed_off_at s a \<noteq> None \<and> at_scope_id a = None \<and> at_started_at a = None \<and> at_stopped_at a = None \<and>
        at_state a \<in> {A_CLAIMED, A_UNCERTAIN, A_CANCEL_REQUESTED}) (d_attempts s))))"

text \<open>The ids of the results are drawn one by one.\<close>

fun close_orphans :: "dispatch_env \<Rightarrow> (id \<times> id) list \<Rightarrow> dispatch \<Rightarrow> dispatch \<times> (derror + nat)" where
  "close_orphans env [] s = (s, Inr 0)"
| "close_orphans env ((aid, nid) # rest) s =
     (case dispatch_transaction s (orphan_transaction env aid nid s) of
        (s', Inl e) \<Rightarrow> (s', Inl e)
      | (s', Inr b) \<Rightarrow> (case close_orphans env rest s' of (t, y) \<Rightarrow> (t, and_then y (\<lambda>n. Inr (if b then Suc n else n)))))"

definition closeSignedOffUnstartedAttempts :: "dispatch_env \<Rightarrow> int \<Rightarrow> (nat \<Rightarrow> id) \<Rightarrow> dispatch \<Rightarrow> dispatch \<times> (derror + nat)" where
  "closeSignedOffUnstartedAttempts env limit fresh s =
     (let page = orphan_page limit s in close_orphans env (zip page (map fresh [0..<length page])) s)"

end
