(* ===== verification/Dispatch_Requests.thy ===== *)
theory Dispatch_Requests
  imports Dispatch_Stops
begin

text \<open>
  What a requester, a supervisor and an administrator do with a request: its intake (\<open>src/src/dispatch/requests.ts\<close>), its
  cancellation (\<open>cancel.ts\<close>), the acceptance of its result (the last transaction of \<open>completion.ts\<close>) and its recovery
  (\<open>recovery.ts\<close>).
\<close>

section \<open>Views\<close>

record dispatch_view =
  vw_id :: id
  vw_version :: nat
  vw_state :: dstate
  vw_action :: string
  vw_reason :: string
  vw_route :: "route option"
  vw_profile_revision_id :: "id option"
  vw_job_id :: "id option"
  vw_result_id :: "id option"

definition view_with :: "string \<Rightarrow> drequest \<Rightarrow> dispatch \<Rightarrow> dispatch_view" where
  "view_with reason r s = (let c = current_candidate r s in
     \<lparr>vw_id = dr_id r, vw_version = dr_version r, vw_state = dr_state r, vw_action = di_action (dr_input r), vw_reason = reason,
      vw_route = map_option ca_route c, vw_profile_revision_id = map_option ca_profile_revision_id c,
      vw_job_id = (case c of None \<Rightarrow> None | Some y \<Rightarrow> ca_job_id y), vw_result_id = dr_result_id r\<rparr>)"

definition lifecycleView :: "id \<Rightarrow> dispatch \<Rightarrow> derror + dispatch_view" where
  "lifecycleView rid s = (case find_request rid s of None \<Rightarrow> Inl (Exception ''TypeError'')
     | Some r \<Rightarrow> Inr (view_with (state_name (dr_state r)) r s))"

definition request_view :: "drequest \<Rightarrow> dispatch \<Rightarrow> dispatch_view" where
  "request_view r s = view_with (if dr_state r = D_WAITING then or_else (last_waiting_reason (dr_id r) s) ''waiting_for_capacity''
     else state_name (dr_state r)) r s"

definition getDispatch :: "dispatch_env \<Rightarrow> (id \<Rightarrow> bool) \<Rightarrow> actor \<Rightarrow> id \<Rightarrow> dispatch \<Rightarrow> derror + dispatch_view" where
  "getDispatch env isQueueDispatchRequestId a rid s =
     (if \<not> isQueueDispatchRequestId rid then Inl DISPATCH_NOT_FOUND
      else case find_request rid s of
        None \<Rightarrow> Inl DISPATCH_NOT_FOUND
      | Some r \<Rightarrow> (case authorizeRequestRead (de_now env) (de_grants env) a (dr_input r) (dr_user_id r) of
          Inl e \<Rightarrow> Inl (if e = DISPATCH_FORBIDDEN then DISPATCH_NOT_FOUND else e)
        | Inr _ \<Rightarrow> Inr (request_view r s)))"

section \<open>Intake\<close>

text \<open>The plan and the repository of the task, as they are when the request comes in.\<close>

definition snapshotTask :: "dispatch_input \<Rightarrow> dispatch \<Rightarrow> derror + string option \<times> string option" where
  "snapshotTask inp s =
     (if di_action inp \<noteq> ''task_implementation'' then Inr (None, None)
      else case (case di_task_id inp of None \<Rightarrow> None | Some k \<Rightarrow> find_task k (d_db s)) of
        None \<Rightarrow> Inl DISPATCH_FORBIDDEN
      | Some t \<Rightarrow>
          if t_product_id t \<noteq> di_product_id inp then Inl DISPATCH_FORBIDDEN
          else if t_status t \<noteq> T_TO_DO \<or> list_ex (\<lambda>j. j_task_id j = Some (t_id t) \<and> active (j_status j)) (jobs (d_db s)) \<or>
            list_ex (\<lambda>e. e_task_id e = t_id t \<and> e_status e \<in> {E_PENDING, E_RUNNING}) (execs (d_db s)) then Inl DISPATCH_STATE_CONFLICT
          else case di_repository inp of
            None \<Rightarrow> Inl (Exception ''TypeError'')
          | Some ref \<Rightarrow>
              (let main = (case find_product (di_product_id inp) (d_db s) of None \<Rightarrow> None | Some p \<Rightarrow> pr_repo_url p);
                   repo = (case find_product (rr_product_id ref) (d_db s) of None \<Rightarrow> None | Some p \<Rightarrow> pr_repo_url p)
               in if \<not> truthy repo \<or> coalesce (t_repo_url t) main \<noteq> repo then Inl DISPATCH_FORBIDDEN
                  else Inr (t_implementation_plan t, repo)))"

definition pinned :: "dispatch \<Rightarrow> doc_ref \<Rightarrow> bool" where
  "pinned s ref \<longleftrightarrow> df_source ref \<noteq> ''product_doc'' \<or> list_ex (\<lambda>v. re_id v = df_revision_id ref \<and> re_doc_id v = df_doc_id ref \<and>
     re_product_id v = df_product_id ref \<and> re_content_hash v = df_sha256 ref) (d_doc_revisions s)"

definition validateDocumentPins :: "dispatch_input \<Rightarrow> dispatch \<Rightarrow> derror + unit" where
  "validateDocumentPins inp s = (if list_all (pinned s) (di_review_documents inp) then Inr () else Inl DISPATCH_INVALID_INPUT)"

definition new_request :: "dispatch_env \<Rightarrow> actor \<Rightarrow> dispatch_input \<Rightarrow> string \<Rightarrow> id \<Rightarrow> id \<Rightarrow> string option \<times> string option \<Rightarrow> drequest" where
  "new_request env a inp k rid rootId snapshot =
     \<lparr>dr_id = rid, dr_principal_key = da_principalKey a, dr_idempotency_key = k, dr_user_id = da_userId a, dr_product_id = di_product_id inp,
      dr_auth_source = da_source a, dr_auth_token_id = da_tokenId a, dr_input = inp, dr_input_hash = de_sha256 env (utf8 (de_canonical_input env inp)),
      dr_snapshot_plan = fst snapshot, dr_snapshot_repo_url = snd snapshot, dr_sources_ready_at = None, dr_state = D_WAITING, dr_version = 1,
      dr_generation = 0, dr_first_claimed_at = None, dr_retry_authorization_event_id = None, dr_root_message_id = rootId,
      dr_reply_message_id = de_reply_uuid env rid, dr_result_id = None, dr_created_at = de_now env, dr_updated_at = de_now env\<rparr>"

definition submit_transaction ::
  "dispatch_env \<Rightarrow> actor \<Rightarrow> dispatch_input \<Rightarrow> string \<Rightarrow> id \<Rightarrow> id \<Rightarrow> dispatch \<Rightarrow> derror + dispatch \<times> dispatch_view" where
  "submit_transaction env a inp k rid rootId s =
     and_then (authorize_env env a inp Op_submit) (\<lambda>_.
     case find (\<lambda>r. dr_principal_key r = da_principalKey a \<and> dr_idempotency_key r = k) (d_requests s) of
       Some old \<Rightarrow>
         if dr_input_hash old \<noteq> de_sha256 env (utf8 (de_canonical_input env inp)) then Inl DISPATCH_IDEMPOTENCY_CONFLICT
         else Inr (s, request_view old s)
     | None \<Rightarrow>
         and_then (snapshotTask inp s) (\<lambda>snapshot.
         and_then (validateDocumentPins inp s) (\<lambda>_.
           let r = new_request env a inp k rid rootId snapshot in
           and_then (writeDispatchOutbox rid (add_event_by env (By_user (da_userId a)) rid None (Submitted (dr_input_hash r))
             (s\<lparr>d_requests := d_requests s @ [r]\<rparr>))) (\<lambda>s'. Inr (s', request_view r s')))))"

definition submitDispatch ::
  "dispatch_env \<Rightarrow> actor \<Rightarrow> dispatch_input \<Rightarrow> string \<Rightarrow> id \<Rightarrow> id \<Rightarrow> dispatch \<Rightarrow> dispatch \<times> (derror + dispatch_view)" where
  "submitDispatch env a inp k rid rootId s =
     (case and_then (validateKey k) (\<lambda>_. and_then (authorize_env env a inp Op_submit) (\<lambda>_.
        if \<not> de_enabled env \<or> di_product_id inp \<notin> set (de_allowlist env) \<or> \<not> de_repository_sources env \<and> di_repository inp \<noteq> None
        then Inl DISPATCH_NOT_FOUND else Inr ())) of
        Inl e \<Rightarrow> (s, Inl e)
      | Inr _ \<Rightarrow> dispatch_transaction s (submit_transaction env a inp k rid rootId s))"

section \<open>Cancellation\<close>

definition action_key :: "actor \<Rightarrow> string \<Rightarrow> string \<Rightarrow> string" where
  "action_key a kind actionId = da_principalKey a @ '':'' @ kind @ '':'' @ actionId"

definition action_hash :: "dispatch_env \<Rightarrow> (string \<times> json) list \<Rightarrow> string" where
  "action_hash env kvs = de_sha256 env (canonicalResult (JObj kvs))"

definition cancelled_by_requester :: dispatch_result where
  "cancelled_by_requester = plain_result Out_cancelled ''Cancelled by requester'' ''The requester cancelled this execution.''"

definition attempt_of :: "id \<Rightarrow> dispatch \<Rightarrow> attempt_row option" where
  "attempt_of cid s = find (\<lambda>a. at_candidate_id a = cid) (d_attempts s)"

definition cancel_attempt :: "dispatch_env \<Rightarrow> drequest \<Rightarrow> candidate \<Rightarrow> id \<Rightarrow> id \<Rightarrow> dispatch \<Rightarrow> derror + dispatch" where
  "cancel_attempt env r c aid nid s =
     and_then (lockArtifactAttempt s aid) (\<lambda>x.
     and_then (if dr_state r = D_CANCEL_REQUESTED then Inr s
        else and_then (transition env (dr_id r) D_CANCEL_REQUESTED None
               (set_candidate (ca_id c) (\<lambda>y. y\<lparr>ca_state := K_CANCEL_REQUESTED\<rparr>)
                 (set_attempt aid (\<lambda>y. y\<lparr>at_state := A_CANCEL_REQUESTED, at_revoked_at := coalesce (at_revoked_at y) (Some (de_now env))\<rparr>) s)))
               (\<lambda>s1. Inr (add_event env (dr_id r) (Some aid) Cancel_requested s1)))
       (\<lambda>s1. if at_stopped_at (lk_a x) = None \<or> unresolvedPublication (dr_id r) s1 then Inr s1
         else and_then (finishResult env x cancelled_by_requester (result_hash env cancelled_by_requester) nid s1) (\<lambda>(s2, _). Inr s2)))"

definition cancel_unclaimed :: "dispatch_env \<Rightarrow> drequest \<Rightarrow> candidate option \<Rightarrow> id \<Rightarrow> dispatch \<Rightarrow> derror + dispatch" where
  "cancel_unclaimed env r cand nid s =
     and_then (if dr_first_claimed_at r \<noteq> None then and_then (assertRetryAuthorization r s) (\<lambda>_. Inr ()) else Inr ()) (\<lambda>_.
     and_then (case cand of None \<Rightarrow> Inr s
       | Some c \<Rightarrow> if ca_first_claimed_at c \<noteq> None then Inl DISPATCH_STATE_CONFLICT
           else Inr (set_candidate (ca_id c) (\<lambda>y. y\<lparr>ca_state := K_RETIRED\<rparr>) (end_job env J_CANCELLED (ca_job_id c) s))) (\<lambda>s1.
     and_then (insertResult env (dr_id r) None cancelled_by_requester nid s1) (\<lambda>(s2, k).
     and_then (transition env (dr_id r) D_CANCELLED (Some k) s2) (\<lambda>s3.
       let s4 = (case cand of None \<Rightarrow> s3 | Some c \<Rightarrow> release_reservation (ca_id c) (de_now env) s3);
           s5 = (if managed_task_request r then release_task (di_task_id (dr_input r)) (dr_id r) s4 else s4)
       in Inr (add_event env (dr_id r) None
            (if dr_first_claimed_at r \<noteq> None then Cancel_recovered_unstarted k else Cancel_unclaimed k) s5)))))"

definition cancel_request :: "dispatch_env \<Rightarrow> drequest \<Rightarrow> id \<Rightarrow> dispatch \<Rightarrow> derror + dispatch" where
  "cancel_request env r nid s =
     (if terminal_state (dr_state r) then Inr s
      else (let cand = open_current r s in
            case (case cand of None \<Rightarrow> None | Some c \<Rightarrow> map_option (Pair c) (attempt_of (ca_id c) s)) of
              Some (c, a) \<Rightarrow> cancel_attempt env r c (at_id a) nid s
            | None \<Rightarrow> cancel_unclaimed env r cand nid s))"

definition cancel_transaction ::
  "dispatch_env \<Rightarrow> actor \<Rightarrow> id \<Rightarrow> string \<Rightarrow> string \<Rightarrow> id \<Rightarrow> dispatch \<Rightarrow> derror + dispatch \<times> dispatch_view" where
  "cancel_transaction env a rid actionId expectedVersion nid s =
     (case find_request rid s of
        None \<Rightarrow> Inl DISPATCH_NOT_FOUND
      | Some r \<Rightarrow>
          and_then (authorize_env env a (dr_input r) Op_cancel) (\<lambda>_.
          and_then (if da_userId a = dr_user_id r then Inr () else if da_source a = Web then Inl DISPATCH_FORBIDDEN
                    else authorize_env env a (dr_input r) Op_recover) (\<lambda>_.
          let k = action_key a ''cancel'' actionId; h = action_hash env [(''id'', JStr rid), (''expectedVersion'', JStr expectedVersion)] in
          case List.map_filter (\<lambda>e. if ev_request_id e = rid then
                 (case ev_payload e of Cancel_action k' h' \<Rightarrow> if k' = k then Some h' else None | _ \<Rightarrow> None) else None) (d_events s) of
            old # _ \<Rightarrow> if old \<noteq> h then Inl DISPATCH_IDEMPOTENCY_CONFLICT else and_then (lifecycleView rid s) (\<lambda>v. Inr (s, v))
          | [] \<Rightarrow>
              if digits (dr_version r) \<noteq> expectedVersion then Inl DISPATCH_STATE_CONFLICT
              else and_then (if managed_task_request r then and_then (lockManagedTaskHierarchy (di_task_id (dr_input r)) (d_db s)) (\<lambda>_. Inr ())
                             else Inr ()) (\<lambda>_.
                   and_then (cancel_request env r nid s) (\<lambda>s1.
                     let s2 = add_event_by env (By_user (da_userId a)) rid None (Cancel_action k h) s1
                     in and_then (lifecycleView rid s2) (\<lambda>v. Inr (s2, v)))))))"

definition cancelDispatch ::
  "dispatch_env \<Rightarrow> actor \<Rightarrow> id \<Rightarrow> string \<Rightarrow> string \<Rightarrow> id \<Rightarrow> dispatch \<Rightarrow> dispatch \<times> (derror + dispatch_view)" where
  "cancelDispatch env a rid actionId expectedVersion nid s =
     (case validateKey actionId of Inl e \<Rightarrow> (s, Inl e)
      | Inr _ \<Rightarrow> dispatch_transaction s (cancel_transaction env a rid actionId expectedVersion nid s))"

section \<open>The result of a stopped attempt\<close>

record result_receipt =
  qr_accepted :: bool
  qr_resultId :: id
  qr_reason :: string

text \<open>A request that has its result already: an exact replay, or a late result.\<close>

definition terminal_receipt :: "dispatch_env \<Rightarrow> artifact_attempt \<Rightarrow> dispatch_result \<Rightarrow> dresult \<Rightarrow> dispatch \<Rightarrow> dispatch \<times> result_receipt" where
  "terminal_receipt env x result old s =
     (let h = result_hash env result; rid = dr_id (lk_r x); aid = at_id (lk_a x);
          submitted = List.map_filter (\<lambda>e. if ev_request_id e = rid \<and> ev_attempt_id e = Some aid then
            (case ev_payload e of Result_accepted k h' \<Rightarrow> Some h' | _ \<Rightarrow> None) else None) (d_events s)
      in case submitted of
           h' # _ \<Rightarrow> if h' = h then (s, \<lparr>qr_accepted = True, qr_resultId = rs_id old, qr_reason = ''replayed''\<rparr>)
             else (add_event env rid (Some aid) (Late_result h result) s, \<lparr>qr_accepted = False, qr_resultId = rs_id old, qr_reason = ''terminal_result''\<rparr>)
         | [] \<Rightarrow> (add_event env rid (Some aid) (Late_result h result) s, \<lparr>qr_accepted = False, qr_resultId = rs_id old, qr_reason = ''terminal_result''\<rparr>))"

text \<open>What a supervisor presents: the proof of its attempt, or the binding of a scope it ran.\<close>

datatype result_authority = By_proof attempt_proof | By_binding binding runtime_scope

fun authority_attempt :: "result_authority \<Rightarrow> id" where
  "authority_attempt (By_proof p) = ap_attempt_id p"
| "authority_attempt (By_binding b scope) = bi_attemptId b"

fun verify_authority :: "dispatch_env \<Rightarrow> actor \<Rightarrow> result_authority \<Rightarrow> artifact_attempt \<Rightarrow> dispatch \<Rightarrow> derror + unit" where
  "verify_authority env a (By_proof p) x s = verifyArtifactProof env a p x"
| "verify_authority env a (By_binding b scope) x s = validateHistoricalBinding x b scope s"

text \<open>
  The last transaction of \<open>accept\<close>: \<open>original\<close> is what the supervisor submitted, \<open>verified\<close> what the checks of
  its artifacts left of it.
\<close>

definition accept_transaction ::
  "dispatch_env \<Rightarrow> actor \<Rightarrow> result_authority \<Rightarrow> dispatch_result \<Rightarrow> dispatch_result \<Rightarrow> id \<Rightarrow> dispatch \<Rightarrow> derror + dispatch \<times> result_receipt" where
  "accept_transaction env a au original verified nid s =
     and_then (lockArtifactAttempt s (authority_attempt au)) (\<lambda>x.
     and_then (verify_authority env a au x s) (\<lambda>_.
     and_then (authenticateHistoricalSupervisor env a x) (\<lambda>_.
     let r = lk_r x; aid = at_id (lk_a x) in
     case result_of (dr_id r) s of
       Some old \<Rightarrow> Inr (terminal_receipt env x original old s)
     | None \<Rightarrow>
         if dr_generation r \<noteq> ca_generation (lk_c x) \<or> unresolvedPublication (dr_id r) s \<or>
            dr_state r \<notin> {D_CANCEL_REQUESTED, D_CLAIMED, D_RUNNING} then Inl DISPATCH_STATE_CONFLICT
         else
           (let verdict =
              (if dr_state r = D_CANCEL_REQUESTED then Inr (verified\<lparr>dv_outcome := Out_cancelled\<rparr>)
               else if dv_outcome verified = Out_succeeded then
                 (let failed = verified\<lparr>dv_outcome := Out_failed, dv_summary := ''authorization_unavailable'',
                        dv_others := filter (\<lambda>(k, _). k \<noteq> ''review'') (dv_others verified)\<rparr>
                  in if pf_revoked_at (lk_p x) \<noteq> None then Inr failed
                     else case authorize_env env (requestActor r) (dr_input r) Op_publish of
                       Inl e \<Rightarrow> if is_DispatchError e then Inr failed else Inl e
                     | Inr _ \<Rightarrow> Inr verified)
               else Inr verified);
              s1 = (if dr_state r = D_CANCEL_REQUESTED then add_event env (dr_id r) (Some aid) (Late_result (result_hash env original) original) s else s)
            in and_then verdict (\<lambda>result.
               and_then (finishResult env x result (result_hash env original) nid s1) (\<lambda>(s2, k).
                 Inr (s2, \<lparr>qr_accepted = True, qr_resultId = k, qr_reason = outcome_name (dv_outcome result)\<rparr>)))))))"

definition acceptDispatchResult ::
  "dispatch_env \<Rightarrow> actor \<Rightarrow> attempt_proof \<Rightarrow> dispatch_result \<Rightarrow> dispatch_result \<Rightarrow> id \<Rightarrow> dispatch \<Rightarrow> dispatch \<times> (derror + result_receipt)" where
  "acceptDispatchResult env a p original verified nid s = dispatch_transaction s (accept_transaction env a (By_proof p) original verified nid s)"

definition acceptHistoricalResult ::
  "dispatch_env \<Rightarrow> actor \<Rightarrow> binding \<Rightarrow> runtime_scope \<Rightarrow> dispatch_result \<Rightarrow> dispatch_result \<Rightarrow> id \<Rightarrow> dispatch \<Rightarrow> dispatch \<times> (derror + result_receipt)" where
  "acceptHistoricalResult env a b scope original verified nid s =
     dispatch_transaction s (accept_transaction env a (By_binding b scope) original verified nid s)"

end
