(* ===== verification/Dispatch_Recovery.thy ===== *)
theory Dispatch_Recovery
  imports Dispatch_Requests
begin

text \<open>
  Recovery by an administrator (\<open>src/src/dispatch/recovery.ts\<close>): an attestation staged as an artifact, the stop it or a container's
  stop proves, and the decision to close the request or to run its contract again.
\<close>

datatype recovery_mode = Close_failed | Close_cancelled | Retry_same_contract

fun mode_name :: "recovery_mode \<Rightarrow> string" where
  "mode_name Close_failed = ''close_failed''"
| "mode_name Close_cancelled = ''close_cancelled''"
| "mode_name Retry_same_contract = ''retry_same_contract''"

text \<open>What the operator's text says is \<open>rt\<close>; \<open>bytes\<close> is its canonical text.\<close>

definition stage_transaction ::
  "dispatch_env \<Rightarrow> actor \<Rightarrow> attestation \<Rightarrow> string \<Rightarrow> id \<Rightarrow> dispatch \<Rightarrow> derror + dispatch \<times> stop_evidence" where
  "stage_transaction env a rt bytes nid s =
     and_then (lockArtifactAttempt s (bi_attemptId (rt_binding rt))) (\<lambda>x.
     and_then (authorize_env env a (dr_input (lk_r x)) Op_recover) (\<lambda>_.
     and_then (validateHistoricalBinding x (rt_binding rt) (rt_scope rt) s) (\<lambda>_.
     and_then (insertArtifact env (dr_id (lk_r x)) (Some (at_id (lk_a x))) ''__operator_recovery'' (utf8 bytes) (de_sha256 env (utf8 bytes))
         (By_producer ''recovery_operator'' (da_userId a) None None)
         (Some \<lparr>sb_binding = rt_binding rt, sb_scope = Some (rt_scope rt), sb_slotId = None, sb_provenance = None\<rparr>) nid s) (\<lambda>(s', k).
       Inr (s', \<lparr>se_kind = rt_kind rt, se_artifact_id = k, se_sha256 = de_sha256 env (utf8 bytes), se_attempt_id = at_id (lk_a x),
         se_incarnation_id = ic_id (lk_i x), se_scope_id = ru_scopeId (rt_scope rt), se_profile_sha256 = ru_profileSha256 (rt_scope rt),
         se_observed_at = rt_observedAt rt, se_observed_text = rt_observedText rt\<rparr>)))))"

definition stageRecoveryEvidence ::
  "dispatch_env \<Rightarrow> actor \<Rightarrow> attestation \<Rightarrow> string \<Rightarrow> id \<Rightarrow> dispatch \<Rightarrow> dispatch \<times> (derror + stop_evidence)" where
  "stageRecoveryEvidence env a rt bytes nid s = dispatch_transaction s (stage_transaction env a rt bytes nid s)"

text \<open>The attestation speaks of this attempt, and its times fit the attempt's life.\<close>

definition attestation_agrees :: "dispatch_env \<Rightarrow> artifact_attempt \<Rightarrow> stop_evidence \<Rightarrow> attestation \<Rightarrow> bool" where
  "attestation_agrees env x e body \<longleftrightarrow>
     (let unstarted = (at_scope_id (lk_a x) = None);
          since = (if unstarted then ca_first_claimed_at (lk_c x) else at_started_at (lk_a x)) in
      rt_kind body = se_kind e \<and> rt_observedAt body = se_observed_at e \<and> se_attempt_id e = at_id (lk_a x) \<and>
      se_incarnation_id e = ic_id (lk_i x) \<and>
      Some (se_scope_id e) = (if unstarted then Some (ru_scopeId (rt_scope body)) else at_scope_id (lk_a x)) \<and>
      se_profile_sha256 e = is_profile_sha256 (ic_scope (lk_i x)) \<and>
      (case since of None \<Rightarrow> False | Some t \<Rightarrow>
         t \<le> rt_observedAt body \<and> rt_observedAt body \<le> de_now env \<and>
         (rt_kind body = ''runtime_rebooted'' \<longrightarrow>
            (case rt_rebootedAt body of None \<Rightarrow> False
             | Some b \<Rightarrow> rt_runtimeBootBefore body \<noteq> rt_runtimeBootAfter body \<and> t < b \<and> b \<le> rt_observedAt body))))"

definition staged_by_operator :: "artifact_attempt \<Rightarrow> stop_evidence \<Rightarrow> attestation \<Rightarrow> id \<Rightarrow> dispatch \<Rightarrow> bool" where
  "staged_by_operator x e body artifactId s \<longleftrightarrow>
     (case filter (\<lambda>v. case ev_actor v of By_producer src _ _ _ \<Rightarrow> src = ''recovery_operator'' | _ \<Rightarrow> False) (staged_events x artifactId s) of
        [v] \<Rightarrow> (case ev_payload v of Artifact_staged _ _ sha bound \<Rightarrow> sha = se_sha256 e \<and>
            bound = Some \<lparr>sb_binding = rt_binding body, sb_scope = Some (rt_scope body), sb_slotId = None, sb_provenance = None\<rparr> | _ \<Rightarrow> False)
      | _ \<Rightarrow> False)"

definition acceptRecoveryStop :: "dispatch_env \<Rightarrow> artifact_attempt \<Rightarrow> stop_evidence \<Rightarrow> dispatch \<Rightarrow> derror + dispatch \<times> id \<times> artifact_attempt" where
  "acceptRecoveryStop env x e s =
     (if se_kind e = ''container_stopped'' then acceptStopInTransaction env x e s
      else case find (\<lambda>y. ar_id y = se_artifact_id e \<and> ar_request_id y = dr_id (lk_r x) \<and> ar_attempt_id y = Some (at_id (lk_a x)) \<and>
          ar_key y = ''__operator_recovery'') (d_artifacts s) of
        None \<Rightarrow> Inl DISPATCH_STATE_CONFLICT
      | Some y \<Rightarrow>
          if de_sha256 env (ar_bytes y) \<noteq> se_sha256 e \<or> ar_sha256 y \<noteq> se_sha256 e then Inl DISPATCH_STATE_CONFLICT
          else (case de_parse_attestation env (ar_bytes y) of
             None \<Rightarrow> Inl (Exception ''ZodError'')
           | Some body \<Rightarrow>
               and_then (validateHistoricalBinding x (rt_binding body) (rt_scope body) s) (\<lambda>_.
                 if \<not> attestation_agrees env x e body \<or> \<not> staged_by_operator x e body (ar_id y) s then Inl DISPATCH_STATE_CONFLICT
                 else (case stop_accepted (dr_id (lk_r x)) (at_id (lk_a x)) s of
                     [] \<Rightarrow> Inr (mark_stopped env (at_id (lk_a x)) (se_observed_at e) (add_event env (dr_id (lk_r x)) (Some (at_id (lk_a x)))
                             (Stop_accepted (se_kind e) (Some (ar_id y)) (Some (se_sha256 e)) (rt_binding body) (Some (rt_scope body))) s),
                             next_event env s, as_stopped (se_observed_at e) x)
                   | old # others \<Rightarrow>
                       if others \<noteq> [] \<or> (case ev_payload old of Stop_accepted _ aid _ _ _ \<Rightarrow> aid \<noteq> Some (ar_id y) | _ \<Rightarrow> True)
                       then Inl DISPATCH_STATE_CONFLICT else Inr (s, ev_key old, x)))))"

definition evidence_json :: "stop_evidence \<Rightarrow> json" where
  "evidence_json e = JObj [(''kind'', JStr (se_kind e)), (''artifact_id'', JStr (se_artifact_id e)), (''sha256'', JStr (se_sha256 e)),
     (''attempt_id'', JStr (se_attempt_id e)), (''incarnation_id'', JStr (se_incarnation_id e)), (''scope_id'', JStr (se_scope_id e)),
     (''profile_sha256'', JStr (se_profile_sha256 e)), (''observed_at'', JStr (se_observed_text e))]"

text \<open>A second run of the contract: the stopped attempt failed, the request waits again with the authority to retry.\<close>

definition retry_same_contract :: "dispatch_env \<Rightarrow> artifact_attempt \<Rightarrow> dispatch \<Rightarrow> derror + dispatch" where
  "retry_same_contract env x s =
     (let r = lk_r x; rid = dr_id r; aid = at_id (lk_a x) in
      if dr_state r \<noteq> D_UNCERTAIN then Inl DISPATCH_STATE_CONFLICT
      else and_then (authorize_env env (requestActor r) (dr_input r) Op_claim) (\<lambda>_.
        if pf_revoked_at (lk_p x) \<noteq> None \<or> di_action (dr_input r) \<notin> set (pc_actions (pf_config (lk_p x))) then Inl DISPATCH_FORBIDDEN
        else and_then (terminalizeAttempt env x Out_failed s) (\<lambda>s1.
          transition env rid D_WAITING None
            (set_request rid (\<lambda>y. y\<lparr>dr_retry_authorization_event_id := Some (next_event env s1)\<rparr>)
              (add_event env rid (Some aid) (Retry_authorized aid (dr_input_hash r) (dr_generation r)) s1)))))"

definition recovery_result :: "recovery_mode \<Rightarrow> dispatch_result" where
  "recovery_result mode = plain_result (if mode = Close_cancelled then Out_cancelled else Out_failed) ''Execution closed through explicit recovery''
     ''The authorized recovery decision and stop evidence are preserved in the audit.''"

definition recover_transaction ::
  "dispatch_env \<Rightarrow> actor \<Rightarrow> id \<Rightarrow> string \<Rightarrow> string \<Rightarrow> stop_evidence \<Rightarrow> recovery_mode \<Rightarrow> id \<Rightarrow> dispatch \<Rightarrow> derror + dispatch \<times> dispatch_view" where
  "recover_transaction env a rid actionId expectedVersion e mode nid s =
     and_then (lockArtifactAttempt s (se_attempt_id e)) (\<lambda>x.
     let r = lk_r x; aid = at_id (lk_a x) in
     if dr_id r \<noteq> rid then Inl DISPATCH_STATE_CONFLICT
     else and_then (authorize_env env a (dr_input r) Op_recover) (\<lambda>_.
       let k = action_key a ''recovery'' actionId;
           h = action_hash env [(''id'', JStr rid), (''expectedVersion'', JStr expectedVersion), (''evidence'', evidence_json e), (''mode'', JStr (mode_name mode))] in
       case List.map_filter (\<lambda>v. if ev_request_id v = rid then
              (case ev_payload v of Recovery_action k' h' \<Rightarrow> if k' = k then Some h' else None | _ \<Rightarrow> None) else None) (d_events s) of
         old # _ \<Rightarrow> if old \<noteq> h then Inl DISPATCH_IDEMPOTENCY_CONFLICT else and_then (lifecycleView rid s) (\<lambda>v. Inr (s, v))
       | [] \<Rightarrow>
           if digits (dr_version r) \<noteq> expectedVersion \<or> dr_generation r \<noteq> ca_generation (lk_c x) \<or> dr_result_id r \<noteq> None \<or>
              dr_state r \<notin> {D_UNCERTAIN, D_CANCEL_REQUESTED} \<or> unresolvedPublication rid s then Inl DISPATCH_STATE_CONFLICT
           else and_then (acceptRecoveryStop env x e s) (\<lambda>(s1, stopId, x1).
                and_then (if mode = Retry_same_contract then retry_same_contract env x1 s1
                  else and_then (finishResult env x1 (recovery_result mode) (result_hash env (recovery_result mode)) nid s1) (\<lambda>(s2, _). Inr s2)) (\<lambda>s2.
                  let s3 = add_event_by env (By_user (da_userId a)) rid (Some aid) (Recovery_action k h) s2
                  in and_then (lifecycleView rid s3) (\<lambda>v. Inr (s3, v))))))"

definition recoverDispatch ::
  "dispatch_env \<Rightarrow> actor \<Rightarrow> id \<Rightarrow> string \<Rightarrow> string \<Rightarrow> stop_evidence \<Rightarrow> recovery_mode \<Rightarrow> id \<Rightarrow> dispatch \<Rightarrow> dispatch \<times> (derror + dispatch_view)" where
  "recoverDispatch env a rid actionId expectedVersion e mode nid s =
     (case validateKey actionId of Inl e \<Rightarrow> (s, Inl e)
      | Inr _ \<Rightarrow> dispatch_transaction s (recover_transaction env a rid actionId expectedVersion e mode nid s))"

section \<open>The recovery of a supervisor\<close>

text \<open>
  \<open>nonLaunchRecovery\<close>: a supervisor that lost its credential still has the scope it ran, and reports on it.
\<close>

datatype recovery_state = Recovery_pending binding runtime_scope | Recovery_accepted binding runtime_scope id dispatch_result

definition recovery_lookup ::
  "dispatch_env \<Rightarrow> actor \<Rightarrow> binding \<Rightarrow> runtime_scope \<Rightarrow> dispatch \<Rightarrow> derror + recovery_state" where
  "recovery_lookup env a k scope s =
     and_then (lockArtifactAttempt s (bi_attemptId k)) (\<lambda>x.
     and_then (authenticateHistoricalSupervisor env a x) (\<lambda>_.
     let b = k\<lparr>bi_candidateId := ca_id (lk_c x), bi_generation := ca_generation (lk_c x)\<rparr> in
     and_then (validateHistoricalBinding x b scope s) (\<lambda>_.
       case find (\<lambda>y. rs_request_id y = dr_id (lk_r x) \<and> rs_attempt_id y = Some (at_id (lk_a x)) \<and>
           list_ex (\<lambda>r. dr_result_id r = Some (rs_id y)) (d_requests s)) (d_results s) of
         None \<Rightarrow> Inr (Recovery_pending b scope)
       | Some y \<Rightarrow> Inr (Recovery_accepted b scope (rs_id y) (rs_payload y)))))"

definition historical_stop_transaction ::
  "dispatch_env \<Rightarrow> actor \<Rightarrow> binding \<Rightarrow> runtime_scope \<Rightarrow> stop_evidence \<Rightarrow> id \<Rightarrow> dispatch \<Rightarrow> derror + dispatch \<times> id" where
  "historical_stop_transaction env a b scope e nid s =
     and_then (lockArtifactAttempt s (bi_attemptId b)) (\<lambda>x.
     and_then (authenticateHistoricalSupervisor env a x) (\<lambda>_.
     and_then (validateHistoricalBinding x b scope s) (\<lambda>_.
     and_then (acceptStopInTransaction env x e s) (\<lambda>(s1, k, x1).
     and_then (finishStoppedCancellation env x1 nid s1) (\<lambda>s2. Inr (s2, k))))))"

definition historicalSubmitStop ::
  "dispatch_env \<Rightarrow> actor \<Rightarrow> binding \<Rightarrow> runtime_scope \<Rightarrow> stop_evidence \<Rightarrow> id \<Rightarrow> dispatch \<Rightarrow> dispatch \<times> (derror + id)" where
  "historicalSubmitStop env a b scope e nid s = dispatch_transaction s (historical_stop_transaction env a b scope e nid s)"

definition historicalSubmitResult ::
  "dispatch_env \<Rightarrow> actor \<Rightarrow> binding \<Rightarrow> runtime_scope \<Rightarrow> dispatch_result \<Rightarrow> dispatch_result \<Rightarrow> id \<Rightarrow> dispatch \<Rightarrow> dispatch \<times> (derror + recovery_state)" where
  "historicalSubmitResult env a b scope original verified nid s =
     (case acceptHistoricalResult env a b scope original verified nid s of
        (s', Inl e) \<Rightarrow> (s', Inl e)
      | (s', Inr receipt) \<Rightarrow> (s', recovery_lookup env a b scope s'))"

end
