(* ===== verification/Dispatch_Core_Laws.thy ===== *)
theory Dispatch_Core_Laws
  imports Dispatch_Core
begin

text \<open>
  The invariant of the abstract dispatch service, one lemma for each of its clauses, and what follows from it: a request has at most one
  attempt that has not ended, such an attempt keeps its slot, and a request that has ended does not change any more.
\<close>

section \<open>Candidates and attempts\<close>

lemma move_simps [simp]:
  "k_candidates (move rid st c) = k_candidates c"
  "k_attempts (move rid st c) = k_attempts c"
  "k_open (move rid st c) = k_open c"
  "k_requests (move rid st c) = (k_requests c)(rid := map_option (\<lambda>r. r\<lparr>kr_state := st, kr_version := kr_version r + 1\<rparr>) (k_requests c rid))"
  by (auto simp: move_def fun_eq_iff split: option.splits)

lemma move_published: "k_requests c rid = Some r \<Longrightarrow> k_published (move rid st c) = (k_published c)(rid := k_published c rid @ [(kr_version r + 1, st)])"
  by (simp add: move_def)

lemma step_candidates_known: "core_step c c' \<Longrightarrow> candidates_known c \<Longrightarrow> candidates_known c'"
  by (induction rule: core_step.induct) (fastforce simp: candidates_known_def split: if_splits)+

lemma generations_unique_upd:
  assumes "generations_unique c"
    and "\<And>x k. k_candidates c' x = Some k \<Longrightarrow> \<exists>l. k_candidates c x = Some l \<and> kc_request l = kc_request k \<and> kc_generation l = kc_generation k"
  shows "generations_unique c'"
  unfolding generations_unique_def
proof (intro allI impI, elim conjE)
  fix x y k l assume k: "k_candidates c' x = Some k" "k_candidates c' y = Some l" "kc_request k = kc_request l" "kc_generation k = kc_generation l"
  obtain k' l' where "k_candidates c x = Some k'" "k_candidates c y = Some l'" "kc_request k' = kc_request l'" "kc_generation k' = kc_generation l'"
    using assms(2) [OF k(1)] assms(2) [OF k(2)] k(3,4) by auto
  then show "x = y" using assms(1) unfolding generations_unique_def by blast
qed

lemma step_generations_unique: "core_step c c' \<Longrightarrow> candidates_known c \<Longrightarrow> generations_unique c \<Longrightarrow> generations_unique c'"
proof (induction rule: core_step.induct)
  case (reserve c rid r cid slot)
  have "kc_generation k \<le> kr_generation r" if "k_candidates c x = Some k" "kc_request k = rid" for x k
    using reserve.prems(1) that reserve.hyps(1) by (force simp: candidates_known_def)
  then show ?case using reserve.prems(2) reserve.hyps(3) by (fastforce simp: generations_unique_def split: if_splits)
qed (erule generations_unique_upd; auto split: if_splits)+

lemma attempts_knownD: "attempts_known c \<Longrightarrow> k_attempts c aid = Some a \<Longrightarrow> \<exists>k. k_candidates c (ka_candidate a) = Some k \<and> attempt_fits a k"
  by (simp add: attempts_known_def)

lemma claims_knownD: "claims_known c \<Longrightarrow> k_candidates c cid = Some k \<Longrightarrow> kc_claimed k = (kc_state k \<noteq> K_RESERVED \<and> kc_state k \<noteq> K_RETIRED)"
  by (auto simp: claims_known_def)

lemma attempt_claimed:
  assumes "attempts_known c" "claims_known c" "k_attempts c aid = Some a" "k_candidates c (ka_candidate a) = Some k"
  shows "attempt_fits a k" "kc_claimed k" "kc_state k \<noteq> K_RESERVED" "kc_state k \<noteq> K_RETIRED"
proof -
  show fits: "attempt_fits a k" using attempts_knownD [OF assms(1,3)] assms(4) by simp
  then show "kc_claimed k" by (simp add: attempt_fits_def)
  then show "kc_state k \<noteq> K_RESERVED" "kc_state k \<noteq> K_RETIRED" using claims_knownD [OF assms(2,4)] by simp_all
qed

lemma no_attempt_of_reserved:
  assumes "attempts_known c" "claims_known c" "k_candidates c cid = Some k" "kc_state k = K_RESERVED" "k_attempts c x = Some a"
  shows "ka_candidate a \<noteq> cid"
  using attempt_claimed(3) [OF assms(1,2,5)] assms(3,4) by metis

lemma step_claims_known:
  assumes "core_step c c'" "claims_known c" "attempts_known c"
  shows "claims_known c'"
  using assms
proof (induction rule: core_step.induct)
  case (advance c aid a k ks at)
  then show ?case using attempt_claimed [OF advance.prems(2,1) advance.hyps(1,2)] by (auto simp: claims_known_def split: if_splits)
next
  case (settle c aid a k at st)
  then show ?case using attempt_claimed [OF settle.prems(2,1) settle.hyps(1,2)] by (auto simp: claims_known_def split: if_splits)
qed (auto simp: claims_known_def split: if_splits)

lemma attempts_unique_upd:
  assumes "attempts_unique c"
    and "\<And>i x. k_attempts c' i = Some x \<Longrightarrow> \<exists>y. k_attempts c i = Some y \<and> ka_candidate y = ka_candidate x"
  shows "attempts_unique c'"
  unfolding attempts_unique_def
proof (intro allI impI, elim conjE)
  fix i j x y assume k: "k_attempts c' i = Some x" "k_attempts c' j = Some y" "ka_candidate x = ka_candidate y"
  obtain x' y' where "k_attempts c i = Some x'" "k_attempts c j = Some y'" "ka_candidate x' = ka_candidate y'"
    using assms(2) [OF k(1)] assms(2) [OF k(2)] k(3) by auto
  then show "i = j" using assms(1) unfolding attempts_unique_def by blast
qed

lemma step_attempts_unique:
  assumes "core_step c c'" "attempts_unique c" "claims_known c" "attempts_known c"
  shows "attempts_unique c'"
  using assms
proof (induction rule: core_step.induct)
  case (claim c cid k aid slot)
  have "ka_candidate a \<noteq> cid" if "k_attempts c x = Some a" for x a
    by (rule no_attempt_of_reserved [OF claim.prems(3,2) claim.hyps(1,2) that])
  then show ?case using claim.prems(1) by (fastforce simp: attempts_unique_def split: if_splits)
qed (erule attempts_unique_upd; auto split: if_splits)+

lemma attempts_known_upd:
  assumes "attempts_known c"
    and "\<And>i x. k_attempts c' i = Some x \<Longrightarrow>
      k_attempts c i = Some x \<and> k_candidates c' (ka_candidate x) = k_candidates c (ka_candidate x) \<or>
      (\<exists>k. k_candidates c' (ka_candidate x) = Some k \<and> attempt_fits x k)"
  shows "attempts_known c'"
  unfolding attempts_known_def using assms(2) attempts_knownD [OF assms(1)] by metis

lemma step_attempts_known:
  assumes "core_step c c'" "attempts_known c" "claims_known c" "attempts_unique c"
  shows "attempts_known c'"
  using assms
proof (induction rule: core_step.induct)
  case (reserve c rid r cid slot)
  have "ka_candidate x \<noteq> cid" if "k_attempts c i = Some x" for i x
    using attempts_knownD [OF reserve.prems(1) that] reserve.hyps(3) by auto
  then show ?case by (intro attempts_known_upd [OF reserve.prems(1)]) auto
next
  case (retire c cid k st)
  have "ka_candidate a \<noteq> cid" if "k_attempts c x = Some a" for x a
    by (rule no_attempt_of_reserved [OF retire.prems(1,2) retire.hyps(1,2) that])
  then show ?case by (intro attempts_known_upd [OF retire.prems(1)]) auto
next
  case (claim c cid k aid slot)
  have "ka_candidate a \<noteq> cid" if "k_attempts c x = Some a" for x a
    by (rule no_attempt_of_reserved [OF claim.prems(1,2) claim.hyps(1,2) that])
  then show ?case by (intro attempts_known_upd [OF claim.prems(1)]) (auto simp: attempt_fits_def split: if_splits)
next
  case (advance c aid a k ks at)
  have "i = aid" if "k_attempts c i = Some x" "ka_candidate x = ka_candidate a" for x i
    using advance.prems(3) advance.hyps(1) that unfolding attempts_unique_def by blast
  then show ?case using advance.hyps(4) attempt_claimed(2) [OF advance.prems(1,2) advance.hyps(1,2)]
    by (intro attempts_known_upd [OF advance.prems(1)]) (auto simp: attempt_fits_def split: if_splits)
next
  case (stop c aid a)
  obtain k where "k_candidates c (ka_candidate a) = Some k" "attempt_fits a k" using attempts_knownD [OF stop.prems(1) stop.hyps] by blast
  then show ?case by (intro attempts_known_upd [OF stop.prems(1)]) (auto simp: attempt_fits_def split: if_splits)
next
  case (settle c aid a k at st)
  have "i = aid" if "k_attempts c i = Some x" "ka_candidate x = ka_candidate a" for x i
    using settle.prems(3) settle.hyps(1) that unfolding attempts_unique_def by blast
  then show ?case using settle.hyps(4,5) attempt_claimed(2) [OF settle.prems(1,2) settle.hyps(1,2)]
    by (intro attempts_known_upd [OF settle.prems(1)]) (auto simp: attempt_fits_def open_candidate_def split: if_splits)
qed (auto simp: attempts_known_def)

section \<open>States in step\<close>

lemma in_stepD: "in_step c \<Longrightarrow> k_candidates c cid = Some k \<Longrightarrow> open_candidate (kc_state k) \<Longrightarrow> k_requests c (kc_request k) = Some r \<Longrightarrow>
    kc_generation k = kr_generation r \<and> request_state_of (kc_state k) = Some (kr_state r)"
  by (auto simp: in_step_def)

lemma candidate_request:
  assumes "candidates_known c" "k_candidates c cid = Some k"
  obtains r where "k_requests c (kc_request k) = Some r" "kc_generation k \<le> kr_generation r"
  using assms unfolding candidates_known_def by blast

text \<open>The one open candidate of a request.\<close>

lemma open_candidate_unique:
  assumes "candidates_known c" "generations_unique c" "in_step c"
    "k_candidates c x = Some k" "open_candidate (kc_state k)" "k_candidates c y = Some l" "open_candidate (kc_state l)" "kc_request l = kc_request k"
  shows "x = y"
proof -
  obtain r where r: "k_requests c (kc_request k) = Some r" by (rule candidate_request [OF assms(1,4)])
  have "kc_generation k = kc_generation l"
    using in_stepD [OF assms(3,4,5) r] in_stepD [OF assms(3,6,7)] r assms(8) by simp
  then show ?thesis using assms(2,4,6,8) unfolding generations_unique_def by metis
qed

lemma in_step_upd:
  assumes "in_step c"
    and "\<And>x k. k_candidates c' x = Some k \<Longrightarrow> open_candidate (kc_state k) \<Longrightarrow>
      k_candidates c x = Some k \<and> k_requests c' (kc_request k) = k_requests c (kc_request k) \<or>
      (\<forall>r. k_requests c' (kc_request k) = Some r \<longrightarrow> kc_generation k = kr_generation r \<and> request_state_of (kc_state k) = Some (kr_state r))"
  shows "in_step c'"
  unfolding in_step_def
proof (intro allI impI, elim conjE)
  fix x k r assume k: "k_candidates c' x = Some k" "open_candidate (kc_state k)" "k_requests c' (kc_request k) = Some r"
  from assms(2) [OF k(1,2)] show "kc_generation k = kr_generation r \<and> request_state_of (kc_state k) = Some (kr_state r)"
  proof
    assume "k_candidates c x = Some k \<and> k_requests c' (kc_request k) = k_requests c (kc_request k)"
    then show ?thesis using k(2,3) by (intro in_stepD [OF assms(1)]) auto
  qed (use k(3) in blast)
qed

lemma waiting_has_none:
  assumes "in_step c" "k_requests c rid = Some r" "\<not> held_state (kr_state r)" "k_candidates c x = Some k" "kc_request k = rid"
  shows "\<not> open_candidate (kc_state k)"
  using in_stepD [OF assms(1,4)] assms(2,3,5) request_state_of_open by blast

lemma step_in_step:
  assumes "core_step c c'" "in_step c" "candidates_known c" "generations_unique c"
  shows "in_step c'"
  using assms
proof (induction rule: core_step.induct)
  case (submit c rid)
  have "kc_request k \<noteq> rid" if "k_candidates c x = Some k" for x k
    using candidate_request [OF submit.prems(2) that] submit.hyps by (metis option.distinct(1))
  then show ?case by (intro in_step_upd [OF submit.prems(1)]) auto
next
  case (reserve c rid r cid slot)
  have "kc_request k \<noteq> rid" if "k_candidates c x = Some k" "open_candidate (kc_state k)" for x k
    using waiting_has_none [OF reserve.prems(1) reserve.hyps(1) _ that(1)] reserve.hyps(2) that(2) by (auto simp: held_state_def)
  then show ?case using reserve.hyps(1) by (intro in_step_upd [OF reserve.prems(1)]) (auto split: if_splits)
next
  case (retire c cid k st)
  have "kc_request l \<noteq> kc_request k \<or> x = cid" if "k_candidates c x = Some l" "open_candidate (kc_state l)" for x l
    using open_candidate_unique [OF retire.prems(2,3,1) that retire.hyps(1)] retire.hyps(2) by (auto simp: open_candidate_def)
  then show ?case by (intro in_step_upd [OF retire.prems(1)]) (auto simp: open_candidate_def split: if_splits)
next
  case (close_waiting c rid r st)
  have "kc_request k \<noteq> rid" if "k_candidates c x = Some k" "open_candidate (kc_state k)" for x k
    using waiting_has_none [OF close_waiting.prems(1) close_waiting.hyps(1) _ that(1)] close_waiting.hyps(2) that(2) by (auto simp: held_state_def)
  then show ?case by (intro in_step_upd [OF close_waiting.prems(1)]) auto
next
  case (claim c cid k aid slot)
  have o: "open_candidate (kc_state k)" using claim.hyps(2) by (simp add: open_candidate_def)
  have "kc_request l \<noteq> kc_request k \<or> x = cid" if "k_candidates c x = Some l" "open_candidate (kc_state l)" for x l
    using open_candidate_unique [OF claim.prems(2,3,1) that claim.hyps(1) o] by auto
  moreover obtain r where "k_requests c (kc_request k) = Some r" by (rule candidate_request [OF claim.prems(2) claim.hyps(1)])
  ultimately show ?case using in_stepD [OF claim.prems(1) claim.hyps(1) o] by (intro in_step_upd [OF claim.prems(1)]) (auto split: if_splits)
next
  case (advance c aid a k ks at)
  have "kc_request l \<noteq> kc_request k \<or> x = ka_candidate a" if "k_candidates c x = Some l" "open_candidate (kc_state l)" for x l
    using open_candidate_unique [OF advance.prems(2,3,1) that advance.hyps(2,3)] by auto
  moreover obtain r where "k_requests c (kc_request k) = Some r" by (rule candidate_request [OF advance.prems(2) advance.hyps(2)])
  ultimately show ?case using in_stepD [OF advance.prems(1) advance.hyps(2,3)] advance.hyps(4)
    by (intro in_step_upd [OF advance.prems(1)]) (auto split: if_splits)
next
  case (stop c aid a)
  then show ?case by (simp add: in_step_def)
next
  case (settle c aid a k at st)
  have "kc_request l \<noteq> kc_request k \<or> x = ka_candidate a" if "k_candidates c x = Some l" "open_candidate (kc_state l)" for x l
    using open_candidate_unique [OF settle.prems(2,3,1) that settle.hyps(2,3)] by auto
  then show ?case by (intro in_step_upd [OF settle.prems(1)]) (auto simp: open_candidate_def split: if_splits)
qed

text \<open>A step touches the candidates of one request only.\<close>

lemma held_requests_upd:
  assumes "held_requests c"
    and req: "\<And>rid. rid \<noteq> q \<Longrightarrow> k_requests c' rid = k_requests c rid"
    and cand: "\<And>x k. k_candidates c x = Some k \<Longrightarrow> kc_request k \<noteq> q \<Longrightarrow> k_candidates c' x = Some k"
    and this_one: "\<And>r. k_requests c' q = Some r \<Longrightarrow> held_state (kr_state r) \<Longrightarrow>
      \<exists>x k. k_candidates c' x = Some k \<and> kc_request k = q \<and> open_candidate (kc_state k)"
  shows "held_requests c'"
  unfolding held_requests_def
proof (intro allI impI, elim conjE)
  fix rid r assume r: "k_requests c' rid = Some r" "held_state (kr_state r)"
  show "\<exists>x k. k_candidates c' x = Some k \<and> kc_request k = rid \<and> open_candidate (kc_state k)"
  proof (cases "rid = q")
    case True
    then show ?thesis using this_one r by simp
  next
    case False
    then have "k_requests c rid = Some r" using req r(1) by simp
    then obtain x k where k: "k_candidates c x = Some k" "kc_request k = rid" "open_candidate (kc_state k)"
      using assms(1) r(2) unfolding held_requests_def by blast
    then show ?thesis using cand [OF k(1)] False by blast
  qed
qed

lemma step_held_requests:
  assumes "core_step c c'" "held_requests c"
  shows "held_requests c'"
  using assms
proof (induction rule: core_step.induct)
  case (submit c rid)
  show ?case by (rule held_requests_upd [OF submit.prems(1), where q = rid]) (auto simp: held_state_def)
next
  case (reserve c rid r cid slot)
  show ?case using reserve.hyps(3)
    by (intro held_requests_upd [OF reserve.prems(1), where q = rid]) (auto simp: open_candidate_def intro: exI [of _ cid])
next
  case (retire c cid k st)
  have "\<not> held_state st" using retire.hyps(3) by (auto simp: held_state_def)
  then show ?case using retire.hyps(1)
    by (intro held_requests_upd [OF retire.prems(1), where q = "kc_request k"]) (auto split: if_splits)
next
  case (close_waiting c rid r st)
  show ?case using close_waiting.hyps(3)
    by (intro held_requests_upd [OF close_waiting.prems(1), where q = rid]) (auto simp: held_state_def)
next
  case (claim c cid k aid slot)
  show ?case using claim.hyps(1)
    by (intro held_requests_upd [OF claim.prems(1), where q = "kc_request k"]) (auto simp: open_candidate_def intro: exI [of _ cid])
next
  case (advance c aid a k ks at)
  have "open_candidate ks" using advance.hyps(4) by (auto simp: open_candidate_def)
  then show ?case using advance.hyps(2)
    by (intro held_requests_upd [OF advance.prems(1), where q = "kc_request k"]) (auto intro: exI [of _ "ka_candidate a"])
next
  case (stop c aid a)
  then show ?case by (simp add: held_requests_def)
next
  case (settle c aid a k at st)
  have "\<not> held_state st" using settle.hyps(6) by (auto simp: held_state_def)
  then show ?case using settle.hyps(2)
    by (intro held_requests_upd [OF settle.prems(1), where q = "kc_request k"]) (auto split: if_splits)
qed

section \<open>Reservations\<close>

lemma free_candidate_iff [simp]: "(x, sl) \<in> free_candidate cid ps \<longleftrightarrow> (x, sl) \<in> ps \<and> x \<noteq> cid"
  by (auto simp: free_candidate_def)

lemma rebind_iff: "(x, sl) \<in> rebind cid slot ps \<longleftrightarrow> (if x = cid then sl = slot \<and> (\<exists>y. (cid, y) \<in> ps) else (x, sl) \<in> ps)"
  by (force simp: rebind_def image_iff)

lemma step_reservations_known:
  assumes "core_step c c'" "reservations_known c"
  shows "reservations_known c'"
  using assms
proof (induction rule: core_step.induct)
  case (claim c cid k aid slot)
  then show ?case by (auto simp: reservations_known_def rebind_iff open_candidate_def split: if_splits)
next
  case (reserve c rid r cid slot)
  have "(cid, x) \<notin> k_open c" for x using reserve.prems reserve.hyps(3) unfolding reservations_known_def by fastforce
  then show ?case using reserve.prems by (auto simp: reservations_known_def open_candidate_def)
next
  case (advance c aid a k ks at)
  then have "open_candidate ks" by (auto simp: open_candidate_def)
  moreover have "kc_slot k = sl" if "(ka_candidate a, sl) \<in> k_open c" for sl
    using advance.prems advance.hyps(2) that unfolding reservations_known_def by fastforce
  ultimately show ?case using advance.prems by (simp add: reservations_known_def)
qed (auto simp: reservations_known_def open_candidate_def split: if_splits)

lemma step_candidates_hold:
  assumes "core_step c c'" "candidates_hold c"
  shows "candidates_hold c'"
  using assms
proof (induction rule: core_step.induct)
  case (claim c cid k aid slot)
  then show ?case by (auto simp: candidates_hold_def rebind_iff open_candidate_def split: if_splits)
next
  case (advance c aid a k ks at)
  then show ?case by (auto simp: candidates_hold_def split: if_splits)
qed (auto simp: candidates_hold_def open_candidate_def split: if_splits)

lemma step_reservations_exclusive:
  assumes "core_step c c'" "reservations_exclusive c" "reservations_known c"
  shows "reservations_exclusive c'"
  using assms
proof (induction rule: core_step.induct)
  case (reserve c rid r cid slot)
  have "(cid, x) \<notin> k_open c" for x using reserve.prems(2) reserve.hyps(3) unfolding reservations_known_def by fastforce
  moreover have "(y, slot) \<notin> k_open c" for y using reserve.hyps(4) by force
  moreover have "s1 = s2" if "(x, s1) \<in> k_open c" "(x, s2) \<in> k_open c" for x s1 s2
    using reserve.prems(1) that unfolding reservations_exclusive_def by blast
  ultimately show ?case using reserve.prems(1) by (auto simp: reservations_exclusive_def)
next
  case (claim c cid k aid slot)
  have "(y, slot) \<notin> k_open c" if "y \<noteq> cid" for y using claim.hyps(4) that by (force simp: free_candidate_def)
  then show ?case using claim.prems(1) by (auto simp: reservations_exclusive_def rebind_iff)
qed (auto simp: reservations_exclusive_def)

section \<open>Published states\<close>

lemma history_move: "history_ok (Some r) ps \<Longrightarrow> kr_version r' = kr_version r + 1 \<Longrightarrow> kr_state r' = st \<Longrightarrow>
    history_ok (Some r') (ps @ [(kr_version r + 1, st)])"
  by (auto simp: upt_conv_Cons)

lemma published_states_move:
  assumes "published_states c" "k_requests c rid = Some r" "k_requests c' rid = Some r'" "kr_version r' = kr_version r"
    and "\<And>x. x \<noteq> rid \<Longrightarrow> k_requests c' x = k_requests c x" "k_published c' = k_published c"
  shows "published_states (move rid st c')"
  unfolding published_states_def
proof
  fix x
  have h: "history_ok (k_requests c y) (k_published c y)" for y using assms(1) by (simp add: published_states_def)
  show "history_ok (k_requests (move rid st c') x) (k_published (move rid st c') x)"
  proof (cases "x = rid")
    case True
    then show ?thesis using history_move [of r "k_published c rid" "r'\<lparr>kr_state := st, kr_version := kr_version r' + 1\<rparr>" st]
        h [of rid] assms(2-4,6) by (simp add: move_published del: history_ok.simps)
  next
    case False
    then show ?thesis using h [of x] assms(3,5,6) by (simp add: move_published)
  qed
qed

lemma step_published_states:
  assumes "core_step c c'" "published_states c" "candidates_known c"
  shows "published_states c'"
  using assms
proof (induction rule: core_step.induct)
  case (submit c rid)
  then have "k_published c rid = []" by (metis history_ok.simps(1) published_states_def)
  then show ?case using submit by (auto simp: published_states_def)
next
  case (reserve c rid r cid slot)
  then show ?case
    by (intro published_states_move [OF reserve.prems(1) reserve.hyps(1), where r' = "r\<lparr>kr_generation := kr_generation r + 1\<rparr>"]) auto
next
  case (retire c cid k st)
  obtain r where r: "k_requests c (kc_request k) = Some r" by (rule candidate_request [OF retire.prems(2) retire.hyps(1)])
  then show ?case by (intro published_states_move [OF retire.prems(1) r]) auto
next
  case (close_waiting c rid r st)
  then show ?case by (intro published_states_move [OF close_waiting.prems(1) close_waiting.hyps(1)]) auto
next
  case (claim c cid k aid slot)
  obtain r where r: "k_requests c (kc_request k) = Some r" by (rule candidate_request [OF claim.prems(2) claim.hyps(1)])
  then show ?case by (intro published_states_move [OF claim.prems(1) r]) auto
next
  case (advance c aid a k ks at)
  obtain r where r: "k_requests c (kc_request k) = Some r" by (rule candidate_request [OF advance.prems(2) advance.hyps(2)])
  then show ?case by (intro published_states_move [OF advance.prems(1) r]) auto
next
  case (stop c aid a)
  then show ?case by (simp add: published_states_def)
next
  case (settle c aid a k at st)
  obtain r where r: "k_requests c (kc_request k) = Some r" by (rule candidate_request [OF settle.prems(2) settle.hyps(2)])
  then show ?case by (intro published_states_move [OF settle.prems(1) r]) auto
qed

lemma core_step_ok: "core_step c c' \<Longrightarrow> core_ok c \<Longrightarrow> core_ok c'"
  unfolding core_ok_def
  by (intro conjI; elim conjE; (rule step_candidates_known step_generations_unique step_in_step step_held_requests step_claims_known
      step_attempts_known step_attempts_unique step_reservations_known step_candidates_hold step_reservations_exclusive step_published_states; assumption))

lemma core_steps_ok: "core_step\<^sup>*\<^sup>* c c' \<Longrightarrow> core_ok c \<Longrightarrow> core_ok c'"
  by (induction rule: rtranclp_induct) (auto intro: core_step_ok)

section \<open>What follows\<close>

lemma unsettled_open:
  assumes "core_ok c" "k_attempts c aid = Some a" "\<not> (ended_attempt (ka_state a) \<and> ka_stopped a)"
  obtains k slot where "k_candidates c (ka_candidate a) = Some k" "open_candidate (kc_state k)" "(ka_candidate a, slot) \<in> k_open c"
proof -
  from assms(1) have known: "attempts_known c" "candidates_hold c" by (simp_all add: core_ok_def)
  obtain k where k: "k_candidates c (ka_candidate a) = Some k" "attempt_fits a k" using attempts_knownD [OF known(1) assms(2)] by blast
  have o: "open_candidate (kc_state k)"
    using k(2) assms(3) by (cases "kc_state k") (auto simp: attempt_fits_def open_candidate_def)
  with k(1) known(2) obtain slot where "(ka_candidate a, slot) \<in> k_open c" unfolding candidates_hold_def by blast
  with k(1) o that show thesis by blast
qed

lemma one_unsettled_attempt:
  assumes ok: "core_ok c" and a: "k_attempts c i = Some a" "\<not> (ended_attempt (ka_state a) \<and> ka_stopped a)"
    and b: "k_attempts c j = Some b" "\<not> (ended_attempt (ka_state b) \<and> ka_stopped b)"
    and k: "k_candidates c (ka_candidate a) = Some k" and l: "k_candidates c (ka_candidate b) = Some l" and same: "kc_request l = kc_request k"
  shows "i = j"
proof -
  have parts: "candidates_known c" "generations_unique c" "in_step c" "attempts_unique c" using ok by (simp_all add: core_ok_def)
  have "open_candidate (kc_state k)" "open_candidate (kc_state l)"
    using unsettled_open [OF ok a] unsettled_open [OF ok b] k l by (metis option.inject)+
  then have "ka_candidate a = ka_candidate b" using open_candidate_unique [OF parts(1-3) k _ l _ same] by simp
  then show ?thesis using parts(4) a(1) b(1) unfolding attempts_unique_def by blast
qed

definition finished_request :: "id \<Rightarrow> core \<Rightarrow> core \<Rightarrow> bool" where
  "finished_request rid c c' \<longleftrightarrow> k_requests c' rid = k_requests c rid \<and> k_published c' rid = k_published c rid"

lemma move_other: "x \<noteq> rid \<Longrightarrow> k_published (move rid st c) x = k_published c x"
  by (simp add: move_def split: option.splits)

lemma core_terminal_final:
  assumes "core_step c c'" "core_ok c" "k_requests c rid = Some r" "terminal_state (kr_state r)"
  shows "finished_request rid c c'"
proof -
  have parts: "candidates_known c" "in_step c" using assms(2) by (simp_all add: core_ok_def)
  have other: "kc_request k \<noteq> rid" if "k_candidates c x = Some k" "open_candidate (kc_state k)" for x k
    using in_stepD [OF parts(2) that] assms(3,4) request_state_of_open by blast
  from assms(1,3) other show ?thesis
  proof (induction rule: core_step.induct)
    case (submit c q)
    then show ?case by (auto simp: finished_request_def)
  next
    case (reserve c q r' cid slot)
    then show ?case using assms(4) by (auto simp: finished_request_def move_other terminal_state_def)
  next
    case (retire c cid k st)
    then have "kc_request k \<noteq> rid" using retire.prems(2) [OF retire.hyps(1)] by (simp add: open_candidate_def)
    then show ?case by (simp add: finished_request_def move_other)
  next
    case (close_waiting c q r' st)
    then show ?case using assms(4) by (auto simp: finished_request_def move_other terminal_state_def)
  next
    case (claim c cid k aid slot)
    then have "kc_request k \<noteq> rid" using claim.prems(2) [OF claim.hyps(1)] by (simp add: open_candidate_def)
    then show ?case by (simp add: finished_request_def move_other)
  next
    case (advance c aid a k ks at)
    then have "kc_request k \<noteq> rid" using advance.prems(2) [OF advance.hyps(2,3)] by simp
    then show ?case by (simp add: finished_request_def move_other)
  next
    case (stop c aid a)
    then show ?case by (simp add: finished_request_def)
  next
    case (settle c aid a k at st)
    then have "kc_request k \<noteq> rid" using settle.prems(2) [OF settle.hyps(2,3)] by simp
    then show ?case by (simp add: finished_request_def move_other)
  qed
qed

lemma core_steps_final:
  assumes "core_step\<^sup>*\<^sup>* c c'" "core_ok c" "k_requests c rid = Some r" "terminal_state (kr_state r)"
  shows "finished_request rid c c'"
  using assms(1)
proof (induction rule: rtranclp_induct)
  case (step d e)
  then have "k_requests d rid = Some r" using assms(3) by (simp add: finished_request_def)
  then have "finished_request rid d e" by (rule core_terminal_final [OF step.hyps(2) core_steps_ok [OF step.hyps(1) assms(2)] _ assms(4)])
  with step.IH show ?case by (simp add: finished_request_def)
qed (simp add: finished_request_def)

end
