(* ===== verification/Dispatch_Refine.thy ===== *)
theory Dispatch_Refine
  imports Dispatch_Core_Laws Dispatch_Recovery
begin

text \<open>
  The tables of the managed dispatch service as the abstract state of \<open>Dispatch_Core\<close>, and what the building blocks of the
  operations do to it.
\<close>

section \<open>The abstraction\<close>

definition core_request_of :: "drequest \<Rightarrow> core_request" where
  "core_request_of r = \<lparr>kr_state = dr_state r, kr_generation = dr_generation r, kr_version = dr_version r\<rparr>"

definition core_candidate_of :: "candidate \<Rightarrow> core_candidate" where
  "core_candidate_of c = \<lparr>kc_request = ca_request_id c, kc_generation = ca_generation c, kc_state = ca_state c,
     kc_claimed = (ca_first_claimed_at c \<noteq> None), kc_slot = ca_reserved_slot_id c\<rparr>"

definition core_attempt_of :: "attempt_row \<Rightarrow> core_attempt" where
  "core_attempt_of a = \<lparr>ka_candidate = at_candidate_id a, ka_state = at_state a, ka_stopped = (at_stopped_at a \<noteq> None)\<rparr>"

definition open_pairs :: "reservation list \<Rightarrow> (id \<times> id) set" where
  "open_pairs vs = (\<lambda>v. (rv_candidate_id v, rv_slot_id v)) ` {v \<in> set vs. rv_released_at v = None}"

definition published :: "id \<Rightarrow> outbox_row list \<Rightarrow> (nat \<times> dstate) list" where
  "published rid obs = map (\<lambda>x. (ob_version x, ob_state x)) (filter (\<lambda>x. ob_request_id x = rid) obs)"

definition core_of :: "dispatch \<Rightarrow> core" where
  "core_of s = \<lparr>k_requests = (\<lambda>k. map_option core_request_of (find_request k s)),
     k_candidates = (\<lambda>k. map_option core_candidate_of (find_candidate k s)),
     k_attempts = (\<lambda>k. map_option core_attempt_of (find_attempt k s)),
     k_open = open_pairs (d_reservations s), k_published = (\<lambda>k. published k (d_outbox s))\<rparr>"

lemma core_sel [simp]:
  "k_requests (core_of s) k = map_option core_request_of (find_request k s)"
  "k_candidates (core_of s) k = map_option core_candidate_of (find_candidate k s)"
  "k_attempts (core_of s) k = map_option core_attempt_of (find_attempt k s)"
  "k_open (core_of s) = open_pairs (d_reservations s)"
  "k_published (core_of s) k = published k (d_outbox s)"
  by (simp_all add: core_of_def)

lemma core_row_sel [simp]:
  "kr_state (core_request_of r) = dr_state r" "kr_generation (core_request_of r) = dr_generation r"
  "kr_version (core_request_of r) = dr_version r"
  "kc_request (core_candidate_of c) = ca_request_id c" "kc_generation (core_candidate_of c) = ca_generation c"
  "kc_state (core_candidate_of c) = ca_state c" "kc_claimed (core_candidate_of c) = (ca_first_claimed_at c \<noteq> None)"
  "kc_slot (core_candidate_of c) = ca_reserved_slot_id c"
  "ka_candidate (core_attempt_of a) = at_candidate_id a" "ka_state (core_attempt_of a) = at_state a"
  "ka_stopped (core_attempt_of a) = (at_stopped_at a \<noteq> None)"
  by (simp_all add: core_request_of_def core_candidate_of_def core_attempt_of_def)

text \<open>The keys that a step of the service adds to.\<close>

definition unique_rows :: "dispatch \<Rightarrow> bool" where
  "unique_rows s \<longleftrightarrow> distinct (map ca_id (d_candidates s)) \<and> distinct (map at_id (d_attempts s))"

text \<open>Two states that agree on the tables behind the abstraction.\<close>

definition same_core :: "dispatch \<Rightarrow> dispatch \<Rightarrow> bool" where
  "same_core s s' \<longleftrightarrow> core_of s' = core_of s \<and> map ca_id (d_candidates s') = map ca_id (d_candidates s) \<and>
     map at_id (d_attempts s') = map at_id (d_attempts s)"

lemma same_coreD: "same_core s s' \<Longrightarrow> core_of s' = core_of s" "same_core s s' \<Longrightarrow> unique_rows s' = unique_rows s"
  by (simp_all add: same_core_def unique_rows_def)

lemma same_core_refl [simp]: "same_core s s"
  by (simp add: same_core_def)

lemma same_core_trans: "same_core s t \<Longrightarrow> same_core t u \<Longrightarrow> same_core s u"
  by (simp add: same_core_def)

definition same_keys :: "dispatch \<Rightarrow> dispatch \<Rightarrow> bool" where
  "same_keys s s' \<longleftrightarrow> map ca_id (d_candidates s') = map ca_id (d_candidates s) \<and> map at_id (d_attempts s') = map at_id (d_attempts s)"

lemma same_keys_unique: "same_keys s s' \<Longrightarrow> unique_rows s' = unique_rows s"
  by (simp add: same_keys_def unique_rows_def)

lemma same_keys_trans: "same_keys s t \<Longrightarrow> same_keys t u \<Longrightarrow> same_keys s u"
  by (simp add: same_keys_def)

lemma same_keys_refl [simp]: "same_keys s s"
  by (simp add: same_keys_def)

section \<open>Building blocks\<close>

named_theorems core_simps "what the building blocks do to the abstract state"

lemma core_of_frame [core_simps]:
  "core_of (s\<lparr>d_events := x\<rparr>) = core_of s" "core_of (s\<lparr>d_db := d\<rparr>) = core_of s" "core_of (s\<lparr>d_results := rs\<rparr>) = core_of s"
  "core_of (s\<lparr>d_artifacts := ars\<rparr>) = core_of s"
  by (simp_all add: core_of_def find_request_def find_candidate_def find_attempt_def)

lemma keys_frame [core_simps]:
  "same_keys s (s\<lparr>d_events := x\<rparr>)" "same_keys s (s\<lparr>d_db := d\<rparr>)" "same_keys s (s\<lparr>d_results := rs\<rparr>)" "same_keys s (s\<lparr>d_artifacts := ars\<rparr>)"
  by (simp_all add: same_keys_def)

lemma core_of_quiet [core_simps]:
  "core_of (add_event_by env by rid aid p s) = core_of s" "core_of (add_event env rid aid p s) = core_of s"
  "core_of (on_job j f s) = core_of s" "core_of (end_job env st j s) = core_of s" "core_of (release_task t rid s) = core_of s"
  by (simp_all add: add_event_by_def add_event_def on_job_def end_job_def set_job_def release_task_def core_simps)

lemma find_by_update_key: "(\<And>r. key (f r) = key r) \<Longrightarrow>
    find_by key k (update_where (\<lambda>r. key r = j) f rs) = (if k = j then map_option f (find_by key k rs) else find_by key k rs)"
  by (induction rs) (auto simp: find_by_simps)

lemma find_set_request: "(\<And>r. dr_id (f r) = dr_id r) \<Longrightarrow>
    find_request k (set_request rid f s) = (if k = rid then map_option f (find_request k s) else find_request k s)"
  by (simp add: find_request_def set_request_def find_by_update_key)

lemma find_set_candidate: "(\<And>c. ca_id (f c) = ca_id c) \<Longrightarrow>
    find_candidate k (set_candidate cid f s) = (if k = cid then map_option f (find_candidate k s) else find_candidate k s)"
  by (simp add: find_candidate_def set_candidate_def find_by_update_key)

lemma find_set_attempt: "(\<And>a. at_id (f a) = at_id a) \<Longrightarrow>
    find_attempt k (set_attempt aid f s) = (if k = aid then map_option f (find_attempt k s) else find_attempt k s)"
  by (simp add: find_attempt_def set_attempt_def find_by_update_key)

lemma find_frame [simp]:
  "find_candidate k (set_request rid f s) = find_candidate k s" "find_attempt k (set_request rid f s) = find_attempt k s"
  "find_request k (set_candidate cid g s) = find_request k s" "find_attempt k (set_candidate cid g s) = find_attempt k s"
  "find_request k (set_attempt aid h s) = find_request k s" "find_candidate k (set_attempt aid h s) = find_candidate k s"
  "find_request k (release_reservation cid t s) = find_request k s" "find_candidate k (release_reservation cid t s) = find_candidate k s"
  "find_attempt k (release_reservation cid t s) = find_attempt k s"
  by (simp_all add: find_request_def find_candidate_def find_attempt_def set_request_def set_candidate_def set_attempt_def release_reservation_def)

lemma find_quiet [simp]:
  "find_request k (add_event_by env by rid aid p s) = find_request k s" "find_candidate k (add_event_by env by rid aid p s) = find_candidate k s"
  "find_attempt k (add_event_by env by rid aid p s) = find_attempt k s"
  "find_request k (add_event env rid aid p s) = find_request k s" "find_candidate k (add_event env rid aid p s) = find_candidate k s"
  "find_attempt k (add_event env rid aid p s) = find_attempt k s"
  "find_request k (on_job j f s) = find_request k s" "find_candidate k (on_job j f s) = find_candidate k s"
  "find_attempt k (on_job j f s) = find_attempt k s"
  "find_request k (end_job env st j s) = find_request k s" "find_candidate k (end_job env st j s) = find_candidate k s"
  "find_attempt k (end_job env st j s) = find_attempt k s"
  "find_request k (release_task t rid s) = find_request k s" "find_candidate k (release_task t rid s) = find_candidate k s"
  "find_attempt k (release_task t rid s) = find_attempt k s"
  by (simp_all add: find_request_def find_candidate_def find_attempt_def add_event_by_def add_event_def on_job_def end_job_def set_job_def release_task_def)

lemma set_frame [simp]:
  "d_reservations (set_request rid f s) = d_reservations s" "d_outbox (set_request rid f s) = d_outbox s"
  "d_reservations (set_candidate cid g s) = d_reservations s" "d_outbox (set_candidate cid g s) = d_outbox s"
  "d_reservations (set_attempt aid h s) = d_reservations s" "d_outbox (set_attempt aid h s) = d_outbox s"
  "d_outbox (release_reservation cid t s) = d_outbox s"
  by (simp_all add: set_request_def set_candidate_def set_attempt_def release_reservation_def)

lemma core_set_request: "(\<And>r. dr_id (f r) = dr_id r) \<Longrightarrow> core_of (set_request rid f s) =
    core_of s\<lparr>k_requests := (k_requests (core_of s))(rid := map_option (core_request_of \<circ> f) (find_request rid s))\<rparr>"
  by (rule core.equality) (auto simp: core_of_def find_set_request fun_eq_iff option.map_comp)

lemma core_set_candidate: "(\<And>c. ca_id (f c) = ca_id c) \<Longrightarrow> core_of (set_candidate cid f s) =
    core_of s\<lparr>k_candidates := (k_candidates (core_of s))(cid := map_option (core_candidate_of \<circ> f) (find_candidate cid s))\<rparr>"
  by (rule core.equality) (auto simp: core_of_def find_set_candidate fun_eq_iff option.map_comp)

lemma core_set_attempt: "(\<And>a. at_id (f a) = at_id a) \<Longrightarrow> core_of (set_attempt aid f s) =
    core_of s\<lparr>k_attempts := (k_attempts (core_of s))(aid := map_option (core_attempt_of \<circ> f) (find_attempt aid s))\<rparr>"
  by (rule core.equality) (auto simp: core_of_def find_set_attempt fun_eq_iff option.map_comp)

lemma core_touch_request: "(\<And>r. dr_id (f r) = dr_id r) \<Longrightarrow> (\<And>r. core_request_of (f r) = core_request_of r) \<Longrightarrow>
    core_of (set_request rid f s) = core_of s"
  by (rule core.equality) (auto simp: core_set_request fun_eq_iff option.map_comp o_def)

lemma core_touch_candidate: "(\<And>r. ca_id (f r) = ca_id r) \<Longrightarrow> (\<And>r. core_candidate_of (f r) = core_candidate_of r) \<Longrightarrow>
    core_of (set_candidate rid f s) = core_of s"
  by (rule core.equality) (auto simp: core_set_candidate fun_eq_iff option.map_comp o_def)

lemma core_touch_attempt: "(\<And>r. at_id (f r) = at_id r) \<Longrightarrow> (\<And>r. core_attempt_of (f r) = core_attempt_of r) \<Longrightarrow>
    core_of (set_attempt rid f s) = core_of s"
  by (rule core.equality) (auto simp: core_set_attempt fun_eq_iff option.map_comp o_def)

lemma open_pairs_Cons: "open_pairs (v # vs) = (if rv_released_at v = None then insert (rv_candidate_id v, rv_slot_id v) (open_pairs vs) else open_pairs vs)"
  by (auto simp: open_pairs_def)

lemma open_pairs_Nil [simp]: "open_pairs [] = {}"
  by (simp add: open_pairs_def)

lemma open_pairs_append: "open_pairs (vs @ ws) = open_pairs vs \<union> open_pairs ws"
  by (auto simp: open_pairs_def)

lemma pairs_empty [simp]: "free_candidate cid {} = {}" "rebind cid slot {} = {}"
  by (simp_all add: free_candidate_def rebind_def)

lemma free_candidate_insert: "free_candidate cid (insert p ps) = (if fst p = cid then free_candidate cid ps else insert p (free_candidate cid ps))"
  by (auto simp: free_candidate_def)

lemma rebind_insert: "rebind cid slot (insert p ps) = insert (if fst p = cid then (cid, slot) else p) (rebind cid slot ps)"
  by (simp add: rebind_def)

lemma open_pairs_release: "open_pairs (update_where (\<lambda>v. rv_candidate_id v = cid \<and> rv_released_at v = None)
    (\<lambda>v. v\<lparr>rv_released_at := Some t\<rparr>) vs) = free_candidate cid (open_pairs vs)"
proof (induction vs)
  case (Cons v vs)
  then show ?case by (cases "rv_released_at v") (simp_all add: open_pairs_Cons free_candidate_insert)
qed simp

lemma open_pairs_rebind: "open_pairs (update_where (\<lambda>v. rv_candidate_id v = cid \<and> rv_released_at v = None)
    (\<lambda>v. v\<lparr>rv_slot_id := slot\<rparr>) vs) = rebind cid slot (open_pairs vs)"
proof (induction vs)
  case (Cons v vs)
  then show ?case by (cases "rv_released_at v") (simp_all add: open_pairs_Cons rebind_insert)
qed simp

lemma core_release_reservation: "core_of (release_reservation cid t s) = core_of s\<lparr>k_open := free_candidate cid (k_open (core_of s))\<rparr>"
  by (rule core.equality) (simp_all add: core_of_def, simp add: release_reservation_def open_pairs_release)

lemma keys_sets [core_simps]:
  "same_keys s (set_request rid f s)" "(\<And>c. ca_id (g c) = ca_id c) \<Longrightarrow> same_keys s (set_candidate cid g s)"
  "(\<And>a. at_id (h a) = at_id a) \<Longrightarrow> same_keys s (set_attempt aid h s)" "same_keys s (release_reservation cid t s)"
  by (simp_all add: same_keys_def set_request_def set_candidate_def set_attempt_def release_reservation_def map_update_where)

lemma keys_quiet [core_simps]:
  "same_keys s (add_event_by env by rid aid p s)" "same_keys s (add_event env rid aid p s)" "same_keys s (on_job j f s)"
  "same_keys s (end_job env st j s)" "same_keys s (release_task t rid s)"
  by (simp_all add: same_keys_def add_event_by_def add_event_def on_job_def end_job_def set_job_def release_task_def)

section \<open>A transition is a move\<close>

lemma published_append: "published k (obs @ [x]) = published k obs @ (if ob_request_id x = k then [(ob_version x, ob_state x)] else [])"
  by (simp add: published_def)

lemma core_writeDispatchOutbox:
  assumes "writeDispatchOutbox rid s = Inr s'" "find_request rid s = Some r"
  shows "core_of s' = core_of s\<lparr>k_published := (k_published (core_of s))(rid := k_published (core_of s) rid @ [(dr_version r, dr_state r)])\<rparr>"
    and "same_keys s s'" and "find_request k s' = find_request k s" and "find_candidate k s' = find_candidate k s"
    and "find_attempt k s' = find_attempt k s"
proof -
  have s': "\<exists>x. s' = s\<lparr>d_outbox := d_outbox s @ [x], d_ticks := d_ticks s @ [rid]\<rparr> \<and> ob_request_id x = rid \<and> ob_version x = dr_version r \<and> ob_state x = dr_state r"
    using assms by (auto simp: writeDispatchOutbox_def intro!: exI)
  then obtain x where x: "s' = s\<lparr>d_outbox := d_outbox s @ [x], d_ticks := d_ticks s @ [rid]\<rparr>"
    "ob_request_id x = rid" "ob_version x = dr_version r" "ob_state x = dr_state r" by blast
  show "core_of s' = core_of s\<lparr>k_published := (k_published (core_of s))(rid := k_published (core_of s) rid @ [(dr_version r, dr_state r)])\<rparr>"
    by (rule core.equality) (auto simp: core_of_def x published_append fun_eq_iff find_request_def find_candidate_def find_attempt_def)
  show "same_keys s s'" "find_request k s' = find_request k s" "find_candidate k s' = find_candidate k s" "find_attempt k s' = find_attempt k s"
    by (simp_all add: x(1) same_keys_def find_request_def find_candidate_def find_attempt_def)
qed

text \<open>The shape both kinds of transition have: the request is updated, then its projection is written.\<close>

lemma core_publish:
  assumes w: "writeDispatchOutbox rid t = Inr s'" and r: "find_request rid s = Some r"
    and t: "core_of t = core_of (set_request rid f s)" "same_keys s t" "find_request rid t = Some (f r)"
    and f: "\<And>x. dr_id (f x) = dr_id x" "\<And>x. dr_state (f x) = st" "\<And>x. dr_version (f x) = dr_version x + 1"
      "\<And>x. dr_generation (f x) = dr_generation x"
  shows "core_of s' = move rid st (core_of s)" and "same_keys s s'"
proof -
  show "same_keys s s'" using same_keys_trans [OF t(2) core_writeDispatchOutbox(2) [OF w t(3)]] .
  have fr: "core_request_of (f r) = (core_request_of r)\<lparr>kr_state := st, kr_version := dr_version r + 1\<rparr>"
    by (simp add: core_request_of_def f)
  have p: "k_published (core_of t) = k_published (core_of s)"
    unfolding t(1) by (simp add: core_set_request f(1))
  show "core_of s' = move rid st (core_of s)"
    unfolding core_writeDispatchOutbox(1) [OF w t(3)] p t(1)
    by (rule core.equality) (simp_all add: core_set_request f move_def r fr)
qed

lemma core_transition:
  assumes "transition env rid st res s = Inr s'"
  shows "core_of s' = move rid st (core_of s)" and "same_keys s s'" and "\<exists>r. find_request rid s = Some r"
proof -
  let ?f = "\<lambda>r. r\<lparr>dr_state := st, dr_result_id := coalesce res (dr_result_id r), dr_version := dr_version r + 1, dr_updated_at := de_now env\<rparr>"
  obtain r where r: "find_request rid s = Some r" and w: "writeDispatchOutbox rid (set_request rid ?f s) = Inr s'"
    using assms by (auto simp: transition_def split: if_splits)
  have "find_request rid (set_request rid ?f s) = Some (?f r)" by (simp add: find_set_request r)
  from core_publish [OF w r refl keys_sets(1) this] show "core_of s' = move rid st (core_of s)" "same_keys s s'" by simp_all
  show "\<exists>r. find_request rid s = Some r" using r by simp
qed

lemma find_transition:
  assumes "transition env rid st res s = Inr s'"
  shows "find_candidate k s' = find_candidate k s" and "find_attempt k s' = find_attempt k s"
    and "k \<noteq> rid \<Longrightarrow> find_request k s' = find_request k s"
    and "find_request rid s = Some r \<Longrightarrow> find_request rid s' = Some (r\<lparr>dr_state := st, dr_result_id := coalesce res (dr_result_id r),
      dr_version := dr_version r + 1, dr_updated_at := de_now env\<rparr>)"
proof -
  let ?f = "\<lambda>r. r\<lparr>dr_state := st, dr_result_id := coalesce res (dr_result_id r), dr_version := dr_version r + 1, dr_updated_at := de_now env\<rparr>"
  obtain r' where r': "find_request rid s = Some r'" and w: "writeDispatchOutbox rid (set_request rid ?f s) = Inr s'"
    using assms by (auto simp: transition_def split: if_splits)
  have "find_request rid (set_request rid ?f s) = Some (?f r')" by (simp add: find_set_request r')
  note o = core_writeDispatchOutbox [OF w this]
  show "find_candidate k s' = find_candidate k s" "find_attempt k s' = find_attempt k s" using o(4,5) by simp_all
  show "k \<noteq> rid \<Longrightarrow> find_request k s' = find_request k s" using o(3) by (simp add: find_set_request)
  show "find_request rid s = Some r \<Longrightarrow> find_request rid s' = Some (?f r)" using o(3) by (simp add: find_set_request)
qed

end
