(* ===== verification/Dispatch_Sim.thy ===== *)
theory Dispatch_Sim
  imports Dispatch_Refine
begin

text \<open>
  Every operation on a request takes steps of the abstract service: the end of an attempt, the rejection, the reservation and
  its retirement. The hypotheses say that the ids an operation draws are new.
\<close>

section \<open>States and moves\<close>

definition dispatch_ok :: "dispatch \<Rightarrow> bool" where
  "dispatch_ok s \<longleftrightarrow> unique_rows s \<and> core_ok (core_of s)"

definition moves :: "dispatch \<Rightarrow> dispatch \<Rightarrow> bool" where
  "moves s s' \<longleftrightarrow> core_step\<^sup>*\<^sup>* (core_of s) (core_of s') \<and> unique_rows s'"

lemma moves_ok: "dispatch_ok s \<Longrightarrow> moves s s' \<Longrightarrow> dispatch_ok s'"
  unfolding dispatch_ok_def moves_def using core_steps_ok by blast

lemma moves_refl: "dispatch_ok s \<Longrightarrow> moves s s"
  by (simp add: dispatch_ok_def moves_def)

lemma moves_trans: "moves s t \<Longrightarrow> moves t u \<Longrightarrow> moves s u"
  unfolding moves_def by auto

lemma moves_quiet: "dispatch_ok s \<Longrightarrow> core_of s' = core_of s \<Longrightarrow> same_keys s s' \<Longrightarrow> moves s s'"
  by (simp add: dispatch_ok_def moves_def same_keys_unique)

lemma moves_step: "dispatch_ok s \<Longrightarrow> core_step (core_of s) (core_of s') \<Longrightarrow> same_keys s s' \<Longrightarrow> moves s s'"
  unfolding dispatch_ok_def moves_def by (auto simp: same_keys_unique)

lemma moves_then_quiet: "moves s t \<Longrightarrow> core_of u = core_of t \<Longrightarrow> same_keys t u \<Longrightarrow> moves s u"
  unfolding moves_def by (auto simp: same_keys_unique)

section \<open>Rows\<close>

lemma find_candidateD: "find_candidate k s = Some c \<Longrightarrow> c \<in> set (d_candidates s) \<and> ca_id c = k"
  unfolding find_candidate_def by (rule find_by_Some)

lemma find_attemptD: "find_attempt k s = Some a \<Longrightarrow> a \<in> set (d_attempts s) \<and> at_id a = k"
  unfolding find_attempt_def by (rule find_by_Some)

lemma find_requestD: "find_request k s = Some r \<Longrightarrow> r \<in> set (d_requests s) \<and> dr_id r = k"
  unfolding find_request_def by (rule find_by_Some)

lemma candidate_row: "dispatch_ok s \<Longrightarrow> c \<in> set (d_candidates s) \<Longrightarrow> find_candidate (ca_id c) s = Some c"
  unfolding find_candidate_def dispatch_ok_def unique_rows_def by (auto intro: find_by_unique)

lemma attempt_row: "dispatch_ok s \<Longrightarrow> a \<in> set (d_attempts s) \<Longrightarrow> find_attempt (at_id a) s = Some a"
  unfolding find_attempt_def dispatch_ok_def unique_rows_def by (auto intro: find_by_unique)

lemma find_list: "find q xs = Some x \<Longrightarrow> x \<in> set xs \<and> q x"
  by (induction xs) (auto split: if_splits)

lemma find_list_None: "find q xs = None \<Longrightarrow> x \<in> set xs \<Longrightarrow> \<not> q x"
  by (induction xs) (auto split: if_splits)

lemma generations_uniqueD: "generations_unique c \<Longrightarrow> k_candidates c c1 = Some k1 \<Longrightarrow> k_candidates c c2 = Some k2 \<Longrightarrow>
    kc_request k1 = kc_request k2 \<Longrightarrow> kc_generation k1 = kc_generation k2 \<Longrightarrow> c1 = c2"
  unfolding generations_unique_def by blast

lemma held_requestsD: "held_requests c \<Longrightarrow> k_requests c rid = Some r \<Longrightarrow> held_state (kr_state r) \<Longrightarrow>
    \<exists>cid k. k_candidates c cid = Some k \<and> kc_request k = rid \<and> open_candidate (kc_state k)"
  unfolding held_requests_def by blast

lemma then_InrE: "and_then r k = Inr y \<Longrightarrow> (\<And>x. r = Inr x \<Longrightarrow> k x = Inr y \<Longrightarrow> thesis) \<Longrightarrow> thesis"
  unfolding and_then_Inr_iff by blast

lemma then_Inr2E: "and_then r (\<lambda>(x, y). k x y) = Inr z \<Longrightarrow> (\<And>x y. r = Inr (x, y) \<Longrightarrow> k x y = Inr z \<Longrightarrow> thesis) \<Longrightarrow> thesis"
  unfolding and_then_Inr_iff by auto

text \<open>A request that is neither waiting nor finished has its open candidate, in the same state.\<close>

lemma held_current:
  assumes "dispatch_ok s" "find_request rid s = Some r" "held_state (dr_state r)"
  obtains c where "find_candidate (ca_id c) s = Some c" "ca_request_id c = rid" "ca_generation c = dr_generation r"
    "open_candidate (ca_state c)" "request_state_of (ca_state c) = Some (dr_state r)"
proof -
  have parts: "held_requests (core_of s)" "in_step (core_of s)" using assms(1) by (simp_all add: dispatch_ok_def core_ok_def)
  obtain cid k where k: "k_candidates (core_of s) cid = Some k" "kc_request k = rid" "open_candidate (kc_state k)"
    using held_requestsD [OF parts(1), of rid "core_request_of r"] assms(2,3) by auto
  then obtain c where c: "find_candidate cid s = Some c" "k = core_candidate_of c" by auto
  have "kc_generation k = kr_generation (core_request_of r) \<and> request_state_of (kc_state k) = Some (kr_state (core_request_of r))"
    using k(2) assms(2) by (intro in_stepD [OF parts(2) k(1,3)]) simp
  with that [of c] c k(2,3) find_candidateD [OF c(1)] show thesis by auto
qed

lemma current_open:
  assumes "dispatch_ok s" "find_request rid s = Some r" "held_state (dr_state r)" "find_candidate cid s = Some c"
    "ca_request_id c = rid" "ca_generation c = dr_generation r"
  shows "open_candidate (ca_state c)" and "request_state_of (ca_state c) = Some (dr_state r)"
proof -
  obtain d where d: "find_candidate (ca_id d) s = Some d" "ca_request_id d = rid" "ca_generation d = dr_generation r"
    "open_candidate (ca_state d)" "request_state_of (ca_state d) = Some (dr_state r)"
    using held_current [OF assms(1-3)] .
  have gu: "generations_unique (core_of s)" using assms(1) by (simp add: dispatch_ok_def core_ok_def)
  have "cid = ca_id d"
    by (rule generations_uniqueD [OF gu, of cid "core_candidate_of c" "ca_id d" "core_candidate_of d"]) (simp_all add: d(1-3) assms(4-6))
  then have "c = d" using d(1) assms(4) by simp
  with d show "open_candidate (ca_state c)" "request_state_of (ca_state c) = Some (dr_state r)" by simp_all
qed

lemma open_stepD:
  assumes "dispatch_ok s" "find_candidate cid s = Some c" "open_candidate (ca_state c)" "find_request (ca_request_id c) s = Some r"
  shows "ca_generation c = dr_generation r" and "request_state_of (ca_state c) = Some (dr_state r)"
proof -
  have "in_step (core_of s)" using assms(1) by (simp add: dispatch_ok_def core_ok_def)
  from in_stepD [OF this, of cid "core_candidate_of c" "core_request_of r"] assms(2-4)
  show "ca_generation c = dr_generation r" "request_state_of (ca_state c) = Some (dr_state r)" by simp_all
qed

lemma unclaimed_open:
  assumes "dispatch_ok s" "find_candidate cid s = Some c" "open_candidate (ca_state c)" "ca_first_claimed_at c = None"
  shows "ca_state c = K_RESERVED"
proof -
  have "claims_known (core_of s)" using assms(1) by (simp add: dispatch_ok_def core_ok_def)
  from claims_knownD [OF this, of cid "core_candidate_of c"] assms(2-4) show ?thesis by (auto simp: open_candidate_def)
qed

lemma open_current_Some:
  assumes "dispatch_ok s" "open_current r s = Some c"
  shows "find_candidate (ca_id c) s = Some c" "ca_request_id c = dr_id r" "ca_generation c = dr_generation r" "open_candidate (ca_state c)"
  using find_list [OF assms(2) [unfolded open_current_def]] candidate_row [OF assms(1)] by auto

lemma open_current_None:
  assumes "dispatch_ok s" "find_request rid s = Some r" "open_current r s = None"
  shows "\<not> held_state (dr_state r)"
proof
  assume h: "held_state (dr_state r)"
  obtain c where c: "find_candidate (ca_id c) s = Some c" "ca_request_id c = rid" "ca_generation c = dr_generation r" "open_candidate (ca_state c)"
    using held_current [OF assms(1,2) h] .
  then show False using find_list_None [OF assms(3) [unfolded open_current_def]] find_candidateD [OF c(1)] find_requestD [OF assms(2)] by auto
qed

section \<open>The end of an attempt\<close>

text \<open>The rows an operation holds are those of the state, though some columns may have changed since.\<close>

definition describes :: "'x locked_scheme \<Rightarrow> dispatch \<Rightarrow> bool" where
  "describes x s \<longleftrightarrow> (\<exists>r c a. find_request (dr_id (lk_r x)) s = Some r \<and> find_candidate (ca_id (lk_c x)) s = Some c \<and>
     ca_request_id c = dr_id (lk_r x) \<and> find_attempt (at_id (lk_a x)) s = Some a \<and> at_candidate_id a = ca_id (lk_c x) \<and>
     open_candidate (ca_state c) \<and> (at_stopped_at (lk_a x) \<noteq> None \<longrightarrow> at_stopped_at a \<noteq> None))"

lemma core_terminalize:
  assumes "terminalizeAttempt env x out s = Inr s'" and d: "find_candidate (ca_id (lk_c x)) s = Some c" "find_attempt (at_id (lk_a x)) s = Some a"
  shows "core_of s' = core_of s\<lparr>k_candidates := (k_candidates (core_of s))(ca_id (lk_c x) \<mapsto> (core_candidate_of c)\<lparr>kc_state := K_FINISHED\<rparr>),
      k_attempts := (k_attempts (core_of s))(at_id (lk_a x) \<mapsto> (core_attempt_of a)\<lparr>ka_state := outcome_attempt out\<rparr>),
      k_open := free_candidate (ca_id (lk_c x)) (k_open (core_of s))\<rparr>"
    and "same_keys s s'" and "at_stopped_at (lk_a x) \<noteq> None"
proof -
  let ?g = "\<lambda>a. a\<lparr>at_state := outcome_attempt out, at_revoked_at := coalesce (at_revoked_at a) (Some (de_now env))\<rparr>"
  let ?t = "set_candidate (ca_id (lk_c x)) (\<lambda>c. c\<lparr>ca_state := K_FINISHED\<rparr>)
        (end_job env (outcome_job out) (ca_job_id (lk_c x)) (set_attempt (at_id (lk_a x)) ?g s))"
  have ok: "\<not> (at_stopped_at (lk_a x) = None \<or> unresolvedPublication (dr_id (lk_r x)) s)"
  proof
    assume "at_stopped_at (lk_a x) = None \<or> unresolvedPublication (dr_id (lk_r x)) s"
    with assms(1) show False unfolding terminalizeAttempt_def by simp
  qed
  then show "at_stopped_at (lk_a x) \<noteq> None" by simp
  have s': "s' = release_reservation (ca_id (lk_c x)) (de_now env) ?t"
    using assms(1) unfolding terminalizeAttempt_def if_not_P [OF ok] by (rule Inr_inject [THEN sym])
  have "same_keys s (set_attempt (at_id (lk_a x)) ?g s)" by (simp add: core_simps)
  also have "same_keys \<dots> ?t" by (rule same_keys_trans [OF keys_quiet(4) keys_sets(2)]) simp
  finally (same_keys_trans) show "same_keys s s'" unfolding s' by (rule same_keys_trans) (rule keys_sets(4))
  show "core_of s' = core_of s\<lparr>k_candidates := (k_candidates (core_of s))(ca_id (lk_c x) \<mapsto> (core_candidate_of c)\<lparr>kc_state := K_FINISHED\<rparr>),
      k_attempts := (k_attempts (core_of s))(at_id (lk_a x) \<mapsto> (core_attempt_of a)\<lparr>ka_state := outcome_attempt out\<rparr>),
      k_open := free_candidate (ca_id (lk_c x)) (k_open (core_of s))\<rparr>"
    unfolding s' by (simp add: core_release_reservation core_set_candidate core_set_attempt core_simps d core_candidate_of_def core_attempt_of_def)
qed

lemma move_update: "k_requests c rid \<noteq> None \<Longrightarrow> (move rid st c)\<lparr>k_candidates := x, k_attempts := y, k_open := z\<rparr> =
    move rid st (c\<lparr>k_candidates := x, k_attempts := y, k_open := z\<rparr>)"
  by (auto simp: move_def)

lemma core_insertResult:
  assumes "insertResult env rid aid x nid s = Inr (s', k)"
  shows "core_of s' = core_of s" "same_keys s s'" "find_request j s' = find_request j s" "find_candidate j s' = find_candidate j s"
    "find_attempt j s' = find_attempt j s"
  using assms by (auto simp: insertResult_def core_simps find_request_def find_candidate_def find_attempt_def split: option.splits if_splits)

lemma core_settle_task:
  assumes "settle_task env r out s = Inr s'"
  shows "core_of s' = core_of s" "same_keys s s'"
proof -
  have "s' = s \<or> (\<exists>d. s' = release_task (di_task_id (dr_input r)) (dr_id r) (s\<lparr>d_db := d\<rparr>)) \<or> s' = release_task (di_task_id (dr_input r)) (dr_id r) s"
    using assms by (auto simp: settle_task_def and_then_Inr_iff split: if_splits)
  then show "core_of s' = core_of s" "same_keys s s'"
    by (auto simp: core_simps intro: same_keys_trans [OF keys_frame(2) keys_quiet(5)])
qed

text \<open>A stopped attempt of an open candidate ends, and its request moves.\<close>

lemma settle_core:
  assumes ok: "dispatch_ok s" and x: "describes x s" and sp: "at_stopped_at (lk_a x) \<noteq> None"
    and st: "st \<in> {D_WAITING, D_SUCCEEDED, D_FAILED, D_CANCELLED}"
    and e: "\<And>c a. find_candidate (ca_id (lk_c x)) s = Some c \<Longrightarrow> find_attempt (at_id (lk_a x)) s = Some a \<Longrightarrow>
      core_of s2 = move (dr_id (lk_r x)) st (core_of s\<lparr>
        k_candidates := (k_candidates (core_of s))(ca_id (lk_c x) \<mapsto> (core_candidate_of c)\<lparr>kc_state := K_FINISHED\<rparr>),
        k_attempts := (k_attempts (core_of s))(at_id (lk_a x) \<mapsto> (core_attempt_of a)\<lparr>ka_state := outcome_attempt out\<rparr>),
        k_open := free_candidate (ca_id (lk_c x)) (k_open (core_of s))\<rparr>)"
    and k: "same_keys s s2"
  shows "moves s s2"
proof -
  from x obtain c a where c: "find_candidate (ca_id (lk_c x)) s = Some c" "ca_request_id c = dr_id (lk_r x)" "open_candidate (ca_state c)"
      and a: "find_attempt (at_id (lk_a x)) s = Some a" "at_candidate_id a = ca_id (lk_c x)" "at_stopped_at a \<noteq> None"
    using sp unfolding describes_def by blast
  have "core_step (core_of s) (move (kc_request (core_candidate_of c)) st (core_of s\<lparr>
      k_candidates := (k_candidates (core_of s))(ka_candidate (core_attempt_of a) \<mapsto> (core_candidate_of c)\<lparr>kc_state := K_FINISHED\<rparr>),
      k_attempts := (k_attempts (core_of s))(at_id (lk_a x) \<mapsto> (core_attempt_of a)\<lparr>ka_state := outcome_attempt out\<rparr>),
      k_open := free_candidate (ka_candidate (core_attempt_of a)) (k_open (core_of s))\<rparr>))"
    using c a st by (intro core_step.settle) (simp_all, cases out, simp_all add: ended_attempt_def)
  then have "core_step (core_of s) (core_of s2)" unfolding e [OF c(1) a(1)] using c(2) a(2) by simp
  then show ?thesis by (rule moves_step [OF ok _ k])
qed

lemma settle_moves:
  assumes ok: "dispatch_ok s" and x: "describes x s"
    and t: "terminalizeAttempt env x out s1 = Inr s2"
    and s1: "core_of s1 = move (dr_id (lk_r x)) st (core_of s)" "same_keys s s1" "\<And>k. find_candidate k s1 = find_candidate k s"
      "\<And>k. find_attempt k s1 = find_attempt k s"
    and st: "st \<in> {D_WAITING, D_SUCCEEDED, D_FAILED, D_CANCELLED}"
  shows "moves s s2"
proof -
  from x obtain r where r: "find_request (dr_id (lk_r x)) s = Some r" unfolding describes_def by blast
  from x obtain c a where ca: "find_candidate (ca_id (lk_c x)) s1 = Some c" "find_attempt (at_id (lk_a x)) s1 = Some a"
    unfolding describes_def s1(3,4) by blast
  note e = core_terminalize [OF t ca]
  show ?thesis
  proof (rule settle_core [OF ok x e(3) st _ same_keys_trans [OF s1(2) e(2)]])
    fix c' a' assume "find_candidate (ca_id (lk_c x)) s = Some c'" "find_attempt (at_id (lk_a x)) s = Some a'"
    then have "c' = c" "a' = a" using ca s1(3,4) by simp_all
    then show "core_of s2 = move (dr_id (lk_r x)) st (core_of s\<lparr>
        k_candidates := (k_candidates (core_of s))(ca_id (lk_c x) \<mapsto> (core_candidate_of c')\<lparr>kc_state := K_FINISHED\<rparr>),
        k_attempts := (k_attempts (core_of s))(at_id (lk_a x) \<mapsto> (core_attempt_of a')\<lparr>ka_state := outcome_attempt out\<rparr>),
        k_open := free_candidate (ca_id (lk_c x)) (k_open (core_of s))\<rparr>)"
      unfolding e(1) s1(1) using r by (simp add: move_update)
  qed
qed

lemma settle_then_move:
  assumes ok: "dispatch_ok s" and x: "describes x s" and t: "terminalizeAttempt env x out s = Inr s1"
    and q: "core_of t = core_of s1" "same_keys s1 t" and w: "transition env' (dr_id (lk_r x)) st res t = Inr s2"
    and st: "st \<in> {D_WAITING, D_SUCCEEDED, D_FAILED, D_CANCELLED}"
  shows "moves s s2"
proof -
  from x obtain c a where ca: "find_candidate (ca_id (lk_c x)) s = Some c" "find_attempt (at_id (lk_a x)) s = Some a"
    unfolding describes_def by blast
  note e = core_terminalize [OF t ca] and ct = core_transition [OF w]
  show ?thesis
    using ca e(1) by (intro settle_core [OF ok x e(3) st _ same_keys_trans [OF same_keys_trans [OF e(2) q(2)] ct(2)]]) (simp add: ct(1) q(1))
qed

lemma finishResult_moves:
  assumes ok: "dispatch_ok s" and x: "describes x s" and f: "finishResult env x result h nid s = Inr (s', k)"
  shows "moves s s'"
proof -
  let ?rid = "dr_id (lk_r x)"
  let ?out = "dv_outcome result"
  obtain s1 k1 where i: "insertResult env ?rid (Some (at_id (lk_a x))) result nid s = Inr (s1, k1)"
    and f1: "and_then (transition env ?rid (outcome_state ?out) (Some k1) s1) (\<lambda>s2. and_then (terminalizeAttempt env x ?out s2) (\<lambda>s3.
      and_then (settle_task env (lk_r x) ?out s3) (\<lambda>s4. Inr (add_event env ?rid (Some (at_id (lk_a x))) (Result_accepted k1 h) s4, k1)))) = Inr (s', k)"
    using f unfolding finishResult_def Let_def by (rule then_Inr2E)
  obtain s2 where t: "transition env ?rid (outcome_state ?out) (Some k1) s1 = Inr s2"
    and f2: "and_then (terminalizeAttempt env x ?out s2) (\<lambda>s3. and_then (settle_task env (lk_r x) ?out s3)
      (\<lambda>s4. Inr (add_event env ?rid (Some (at_id (lk_a x))) (Result_accepted k1 h) s4, k1))) = Inr (s', k)"
    using f1 by (rule then_InrE)
  obtain s3 where e: "terminalizeAttempt env x ?out s2 = Inr s3"
    and f3: "and_then (settle_task env (lk_r x) ?out s3) (\<lambda>s4. Inr (add_event env ?rid (Some (at_id (lk_a x))) (Result_accepted k1 h) s4, k1)) = Inr (s', k)"
    using f2 by (rule then_InrE)
  obtain s4 where m: "settle_task env (lk_r x) ?out s3 = Inr s4" and f4: "Inr (add_event env ?rid (Some (at_id (lk_a x))) (Result_accepted k1 h) s4, k1) = Inr (s', k)"
    using f3 unfolding and_then_Inr_iff by blast
  have s': "s' = add_event env ?rid (Some (at_id (lk_a x))) (Result_accepted k1 h) s4"
    using f4 unfolding sum.inject prod.inject by (rule conjunct1 [THEN sym])
  note ci = core_insertResult [OF i] and ct = core_transition [OF t] and ft = find_transition [OF t]
  have "moves s s3"
  proof (rule settle_moves [OF ok x e])
    show "core_of s2 = move ?rid (outcome_state (dv_outcome result)) (core_of s)" using ct(1) ci(1) by simp
    show "same_keys s s2" by (rule same_keys_trans [OF ci(2) ct(2)])
    show "outcome_state (dv_outcome result) \<in> {D_WAITING, D_SUCCEEDED, D_FAILED, D_CANCELLED}" by (cases "dv_outcome result") simp_all
  qed (simp_all add: ft ci)
  then have "moves s s4" by (rule moves_then_quiet) (rule core_settle_task [OF m])+
  then show ?thesis unfolding s' by (rule moves_then_quiet) (simp_all add: core_simps)
qed

end
