(* ===== verification/Dispatch_Sim_Start.thy ===== *)
theory Dispatch_Sim_Start
  imports Dispatch_Sim
begin

text \<open>
  The operations before an attempt runs take steps of the abstract service: intake, rejection, reservation, retirement and claim.
  The hypotheses say that the ids an operation draws are new.
\<close>

lemma transaction_moves:
  assumes "dispatch_ok s" and "\<And>s' y. m = Inr (s', y) \<Longrightarrow> moves s s'"
  shows "moves s (fst (dispatch_transaction s m))"
  using assms moves_refl by (cases m) (auto simp: dispatch_transaction_def split: prod.splits)

lemma if_stopE: "(if b then Inr x else m) = Inr y \<Longrightarrow> (b \<Longrightarrow> x = y \<Longrightarrow> thesis) \<Longrightarrow> (\<not> b \<Longrightarrow> m = Inr y \<Longrightarrow> thesis) \<Longrightarrow> thesis"
  by (auto split: if_splits)

lemma if_failE: "(if b then Inl e else m) = Inr y \<Longrightarrow> (\<not> b \<Longrightarrow> m = Inr y \<Longrightarrow> thesis) \<Longrightarrow> thesis"
  by (auto split: if_splits)

lemma option_stopE: "(case m of None \<Rightarrow> Inr x | Some z \<Rightarrow> k z) = Inr y \<Longrightarrow> (m = None \<Longrightarrow> x = y \<Longrightarrow> thesis) \<Longrightarrow>
    (\<And>z. m = Some z \<Longrightarrow> k z = Inr y \<Longrightarrow> thesis) \<Longrightarrow> thesis"
  by (auto split: option.splits)

lemma option_failE: "(case m of None \<Rightarrow> Inl e | Some z \<Rightarrow> k z) = Inr y \<Longrightarrow> (\<And>z. m = Some z \<Longrightarrow> k z = Inr y \<Longrightarrow> thesis) \<Longrightarrow> thesis"
  by (auto split: option.splits)

section \<open>Rejection\<close>

text \<open>The transition table of the shared package: a request that has not started can only be rejected as failed.\<close>

definition transition_contract :: "dispatch_env \<Rightarrow> bool" where
  "transition_contract env \<longleftrightarrow> (\<forall>st x. de_transition env st ''reject_unstarted'' = Some x \<longrightarrow> x = D_FAILED)"

lemma core_retire_candidate:
  assumes "find_candidate (ca_id c) s = Some c"
  shows "core_of (retire_candidate env c s) = core_of s\<lparr>k_candidates := (k_candidates (core_of s))(ca_id c \<mapsto> (core_candidate_of c)\<lparr>kc_state := K_RETIRED\<rparr>),
      k_open := free_candidate (ca_id c) (k_open (core_of s))\<rparr>"
    and "same_keys s (retire_candidate env c s)"
    and "find_request k (retire_candidate env c s) = find_request k s"
proof -
  show "core_of (retire_candidate env c s) = core_of s\<lparr>k_candidates := (k_candidates (core_of s))(ca_id c \<mapsto> (core_candidate_of c)\<lparr>kc_state := K_RETIRED\<rparr>),
      k_open := free_candidate (ca_id c) (k_open (core_of s))\<rparr>"
    using assms by (simp add: retire_candidate_def core_release_reservation core_set_candidate core_candidate_of_def)
  show "same_keys s (retire_candidate env c s)"
    unfolding retire_candidate_def by (rule same_keys_trans [OF keys_sets(2) keys_sets(4)]) simp
  show "find_request k (retire_candidate env c s) = find_request k s"
    by (simp add: retire_candidate_def)
qed

text \<open>A reserved candidate is retired and its request moves.\<close>

lemma retire_moves:
  assumes ok: "dispatch_ok s" and c: "find_candidate cid s = Some c" "ca_state c = K_RESERVED"
    and st: "st \<in> {D_WAITING, D_FAILED, D_CANCELLED}"
    and e: "core_of s' = move (ca_request_id c) st (core_of s\<lparr>k_candidates := (k_candidates (core_of s))(cid \<mapsto> (core_candidate_of c)\<lparr>kc_state := K_RETIRED\<rparr>),
      k_open := free_candidate cid (k_open (core_of s))\<rparr>)" and k: "same_keys s s'"
  shows "moves s s'"
proof (rule moves_step [OF ok _ k])
  have "core_step (core_of s) (move (kc_request (core_candidate_of c)) st (core_of s\<lparr>k_candidates := (k_candidates (core_of s))(cid \<mapsto> (core_candidate_of c)\<lparr>kc_state := K_RETIRED\<rparr>),
      k_open := free_candidate cid (k_open (core_of s))\<rparr>))"
    by (rule core_step.retire) (use c st in simp_all)
  then show "core_step (core_of s) (core_of s')" unfolding e by simp
qed

lemma close_moves:
  assumes ok: "dispatch_ok s" and r: "find_request rid s = Some r" "dr_state r = D_WAITING" and st: "st \<in> {D_FAILED, D_CANCELLED}"
    and e: "core_of s' = move rid st (core_of s)" and k: "same_keys s s'"
  shows "moves s s'"
proof (rule moves_step [OF ok _ k])
  have "k_requests (core_of s) rid = Some (core_request_of r)" using r by simp
  then show "core_step (core_of s) (core_of s')" unfolding e by (rule core_step.close_waiting) (use r st in simp_all)
qed

lemma core_close_rejected:
  assumes c: "transition_contract env" and w: "close_rejected env r reason nid s = Inr s'" and r: "find_request (dr_id r) s = Some r'"
  shows "core_of s' = move (dr_id r) D_FAILED (core_of s)" and "same_keys s s'"
proof -
  obtain z where z: "de_transition env (dr_state r) ''reject_unstarted'' = Some z"
    using w unfolding close_rejected_def by (rule option_failE)
  then have zf: "z = D_FAILED" using c unfolding transition_contract_def by blast
  let ?f = "\<lambda>x. x\<lparr>dr_state := D_FAILED, dr_result_id := Some nid, dr_version := dr_version x + 1, dr_updated_at := de_now env\<rparr>"
  define s1 where "s1 = s\<lparr>d_results := d_results s @ [\<lparr>rs_id = nid, rs_request_id = dr_id r, rs_attempt_id = None, rs_outcome = Out_failed,
      rs_payload = rejection reason, rs_sha256 = de_sha256 env (stringify (result_json (rejection reason)))\<rparr>]\<rparr>"
  define s3 where "s3 = (if managed_task_request r \<and> dr_first_claimed_at r \<noteq> None
      then release_task (di_task_id (dr_input r)) (dr_id r) (set_request (dr_id r) ?f s1) else set_request (dr_id r) ?f s1)"
  have w': "writeDispatchOutbox (dr_id r) (add_event env (dr_id r) None (Reject_unstarted reason nid) s3) = Inr s'"
    using w unfolding close_rejected_def z zf option.case Let_def s3_def s1_def .
  have r1: "find_request (dr_id r) s1 = Some r'" using r by (simp add: s1_def find_request_def)
  have q: "core_of s1 = core_of s" "same_keys s s1" unfolding s1_def by (rule core_of_frame keys_frame)+
  have t: "core_of (add_event env (dr_id r) None (Reject_unstarted reason nid) s3) = core_of (set_request (dr_id r) ?f s1)"
    "same_keys s1 (add_event env (dr_id r) None (Reject_unstarted reason nid) s3)"
    "find_request (dr_id r) (add_event env (dr_id r) None (Reject_unstarted reason nid) s3) = Some (?f r')"
    unfolding s3_def using r1
    by (auto simp: core_of_quiet find_set_request intro: same_keys_trans [OF keys_sets(1) same_keys_trans [OF keys_quiet(5) keys_quiet(2)]]
        same_keys_trans [OF keys_sets(1) keys_quiet(2)])
  note p = core_publish [OF w' r1 t, of D_FAILED]
  show "core_of s' = move (dr_id r) D_FAILED (core_of s)" using p(1) q(1) by simp
  show "same_keys s s'" using same_keys_trans [OF q(2) p(2)] by simp
qed

lemma rejectUnstarted_moves:
  assumes ok: "dispatch_ok s" and tc: "transition_contract env" and j: "rejectUnstartedInTransaction env rid reason nid s = Inr s'"
  shows "moves s s'"
proof (cases "find_request rid s")
  case None
  with j have "s' = s" by (simp add: rejectUnstartedInTransaction_def)
  then show ?thesis using moves_refl [OF ok] by simp
next
  case (Some r)
  have rid: "dr_id r = rid" using find_requestD [OF Some] by simp
  show ?thesis
  proof (cases "dr_state r \<in> {D_WAITING, D_RESERVED}")
    case False
    with j Some have "s' = s" unfolding rejectUnstartedInTransaction_def by (simp split: if_splits)
    then show ?thesis using moves_refl [OF ok] by simp
  next
    case True
    then have "\<not> dr_state r \<notin> {D_WAITING, D_RESERVED}" by simp
    with j Some have j': "(case open_current r s of None \<Rightarrow> close_rejected env r reason nid s
      | Some c \<Rightarrow> if ca_first_claimed_at c \<noteq> None \<or> truthy (ca_job_id c) \<and> \<not> unclaimed_job (the (ca_job_id c)) s then Inr s
                 else close_rejected env r reason nid (retire_candidate env c (end_job env J_CANCELLED (ca_job_id c) s))) = Inr s'"
      unfolding rejectUnstartedInTransaction_def and_then_Inr_iff by (simp only: option.case if_False) (auto simp: and_then_Inr_iff)
    show ?thesis
    proof (cases "open_current r s")
      case None
      with j' have w: "close_rejected env r reason nid s = Inr s'" by simp
      have "dr_state r = D_WAITING" using open_current_None [OF ok Some None] True by (auto simp: held_state_def)
      then show ?thesis
        using core_close_rejected [OF tc w] Some rid by (intro close_moves [OF ok Some]) simp_all
    next
      case (Some c)
      note oc = open_current_Some [OF ok Some]
      show ?thesis
      proof (cases "ca_first_claimed_at c \<noteq> None \<or> truthy (ca_job_id c) \<and> \<not> unclaimed_job (the (ca_job_id c)) s")
        case True
        with j' Some have "s' = s" by simp
        then show ?thesis using moves_refl [OF ok] by simp
      next
        case False
        let ?t = "end_job env J_CANCELLED (ca_job_id c) s"
        from False j' Some have w: "close_rejected env r reason nid (retire_candidate env c ?t) = Inr s'" by auto
        have ct: "find_candidate (ca_id c) ?t = Some c" using oc(1) by simp
        note rc = core_retire_candidate [OF ct]
        have "find_request (dr_id r) (retire_candidate env c ?t) = Some r" using rc(3) \<open>find_request rid s = Some r\<close> rid by simp
        note cr = core_close_rejected [OF tc w this]
        show ?thesis
        proof (rule retire_moves [OF ok oc(1)])
          show "ca_state c = K_RESERVED" using unclaimed_open [OF ok oc(1,4)] False by blast
          show "core_of s' = move (ca_request_id c) D_FAILED (core_of s\<lparr>k_candidates := (k_candidates (core_of s))(ca_id c \<mapsto> (core_candidate_of c)\<lparr>kc_state := K_RETIRED\<rparr>),
              k_open := free_candidate (ca_id c) (k_open (core_of s))\<rparr>)"
            using cr(1) rc(1) oc(2) by (simp add: core_of_quiet)
          show "same_keys s s'" using same_keys_trans [OF same_keys_trans [OF keys_quiet(4) rc(2)] cr(2)] .
        qed simp
      qed
    qed
  qed
qed

section \<open>Intake\<close>

lemma submit_moves:
  assumes ok: "dispatch_ok s" and fresh: "find_request rid s = None" and j: "submit_transaction env a inp k rid rootId s = Inr (s', v)"
  shows "moves s s'"
proof (cases "find (\<lambda>r. dr_principal_key r = da_principalKey a \<and> dr_idempotency_key r = k) (d_requests s)")
  case (Some old)
  with j have "s' = s" by (auto simp: submit_transaction_def and_then_Inr_iff split: if_splits)
  then show ?thesis using moves_refl [OF ok] by simp
next
  case None
  obtain snapshot where w': "writeDispatchOutbox rid (add_event_by env (By_user (da_userId a)) rid None
      (Submitted (dr_input_hash (new_request env a inp k rid rootId snapshot))) (s\<lparr>d_requests := d_requests s @ [new_request env a inp k rid rootId snapshot]\<rparr>)) = Inr s'"
    using j unfolding submit_transaction_def None option.case Let_def by (elim then_InrE) auto
  let ?r = "new_request env a inp k rid rootId snapshot"
  let ?u = "s\<lparr>d_requests := d_requests s @ [?r]\<rparr>"
  let ?t = "add_event_by env (By_user (da_userId a)) rid None (Submitted (dr_input_hash ?r)) ?u"
  have nr: "dr_id ?r = rid" "dr_state ?r = D_WAITING" "dr_version ?r = 1" "dr_generation ?r = 0" by (simp_all add: new_request_def)
  have ru: "find_request q ?u = (if q = rid then Some ?r else find_request q s)" for q
    using fresh nr(1) by (auto simp: find_request_def find_by_append find_by_simps split: option.splits)
  have rt: "find_request rid ?t = Some ?r" using ru by simp
  have cu: "core_of ?u = core_of s\<lparr>k_requests := (k_requests (core_of s))(rid \<mapsto> core_request_of ?r)\<rparr>"
    by (rule core.equality) (auto simp: core_of_def ru fun_eq_iff find_candidate_def find_attempt_def)
  have ku: "same_keys s ?u" by (simp add: same_keys_def)
  note wo = core_writeDispatchOutbox [OF w' rt]
  show ?thesis
  proof (rule moves_step [OF ok])
    show "same_keys s s'" using same_keys_trans [OF same_keys_trans [OF ku keys_quiet(1)] wo(2)] .
    have "core_step (core_of s) (core_of s\<lparr>k_requests := (k_requests (core_of s))(rid \<mapsto> \<lparr>kr_state = D_WAITING, kr_generation = 0, kr_version = 1\<rparr>),
        k_published := (k_published (core_of s))(rid := k_published (core_of s) rid @ [(1, D_WAITING)])\<rparr>)"
      by (rule core_step.submit) (simp add: fresh)
    then show "core_step (core_of s) (core_of s')" unfolding wo(1) core_of_quiet(1) cu by (simp add: nr core_request_of_def)
  qed
qed

section \<open>Reservation\<close>

lemma open_reservation_iff: "open_reservation s k \<longleftrightarrow> k \<in> snd ` open_pairs (d_reservations s)"
  by (force simp: open_reservation_def open_pairs_def list_ex_iff)

lemma core_note_waiting: "core_of (note_waiting env rid reason s) = core_of s" "same_keys s (note_waiting env rid reason s)"
proof -
  show "core_of (note_waiting env rid reason s) = core_of s"
    by (simp add: note_waiting_def core_touch_request core_request_of_def core_of_quiet)
  show "same_keys s (note_waiting env rid reason s)"
    by (auto simp: note_waiting_def intro: keys_sets(1) same_keys_trans [OF keys_quiet(2) keys_sets(1)])
qed

lemma core_enqueueManagedJob:
  assumes "enqueueManagedJob env r cid p rt cfg nid s = Inr (s', k)"
  shows "core_of s' = core_of s" "same_keys s s'" "find_request q s' = find_request q s" "find_candidate q s' = find_candidate q s"
    "find_attempt q s' = find_attempt q s"
  using assms by (auto simp: enqueueManagedJob_def and_then_Inr_iff core_of_frame find_request_def find_candidate_def find_attempt_def keys_frame
      split: if_splits option.splits)

text \<open>The rows of a new reservation, with the job of the job route.\<close>

lemma book_slotE:
  assumes b: "book_slot env n r pool p slot cfg s = Inr s'" and fresh: "find_candidate (dn_candidate n) s = None"
    and uniq: "unique_rows s" and r: "find_request (dr_id r) s = Some r"
  shows "core_of s' = move (dr_id r) D_RESERVED (core_of s\<lparr>
      k_requests := (k_requests (core_of s))(dr_id r \<mapsto> (core_request_of r)\<lparr>kr_generation := dr_generation r + 1\<rparr>),
      k_candidates := (k_candidates (core_of s))(dn_candidate n \<mapsto> \<lparr>kc_request = dr_id r, kc_generation = dr_generation r + 1, kc_state = K_RESERVED,
        kc_claimed = False, kc_slot = rg_id slot\<rparr>),
      k_open := insert (dn_candidate n, rg_id slot) (k_open (core_of s))\<rparr>)"
    and "unique_rows s'"
proof -
  let ?cid = "dn_candidate n" and ?gen = "dr_generation r + 1"
  define c where "c = \<lparr>ca_id = ?cid, ca_request_id = dr_id r, ca_generation = ?gen, ca_route = ep_route pool,
                 ca_profile_revision_id = pf_id p, ca_incarnation_id = (if ep_route pool = Route_host then rg_incarnation_id slot else None),
                 ca_job_id = None, ca_state = K_RESERVED, ca_reserved_slot_id = rg_id slot, ca_deadline = de_now env + 120000,
                 ca_claim_key = None, ca_first_claimed_at = None\<rparr>"
  define s1 where "s1 = s\<lparr>d_candidates := d_candidates s @ [c],
               d_reservations := d_reservations s @ [\<lparr>rv_id = dn_reservation n, rv_candidate_id = ?cid, rv_slot_id = rg_id slot, rv_released_at = None\<rparr>]\<rparr>"
  have cid: "ca_id c = ?cid" by (simp add: c_def)
  have cc: "core_candidate_of c = \<lparr>kc_request = dr_id r, kc_generation = ?gen, kc_state = K_RESERVED, kc_claimed = False, kc_slot = rg_id slot\<rparr>"
    by (simp add: c_def core_candidate_of_def)
  have f1: "find_candidate q s1 = (if q = ?cid then Some c else find_candidate q s)" for q
    using fresh cid by (auto simp: s1_def find_candidate_def find_by_append find_by_simps split: option.splits)
  have f1': "find_request q s1 = find_request q s" "find_attempt q s1 = find_attempt q s" for q by (simp_all add: s1_def find_request_def find_attempt_def)
  have sel: "d_outbox s1 = d_outbox s" "open_pairs (d_reservations s1) = insert (?cid, rg_id slot) (open_pairs (d_reservations s))"
    by (simp_all add: s1_def open_pairs_append open_pairs_Cons)
  have c1: "core_of s1 = core_of s\<lparr>k_candidates := (k_candidates (core_of s))(?cid \<mapsto> core_candidate_of c),
      k_open := insert (?cid, rg_id slot) (k_open (core_of s))\<rparr>"
    by (rule core.equality) (auto simp: core_of_def f1 f1' fun_eq_iff sel)
  have u1: "unique_rows s1" using uniq fresh cid unfolding unique_rows_def s1_def find_candidate_def find_by_None by auto
  obtain s3 jobId where j: "(if ep_route pool = Route_job
        then and_then (enqueueManagedJob env r ?cid (pf_id p) (pc_runtime (pf_config p)) cfg (dn_job n) s1) (\<lambda>(s2, k).
          Inr (if k = [] then s2 else set_candidate ?cid (\<lambda>c. c\<lparr>ca_job_id := Some k\<rparr>) s2, Some k))
        else Inr (s1, None)) = Inr (s3, jobId)"
    and t: "transition env (dr_id r) D_RESERVED None (add_event env (dr_id r) None (Reserved ?cid (pf_id p) (rg_id slot) (ep_route pool) jobId cfg)
        (set_request (dr_id r) (\<lambda>x. x\<lparr>dr_generation := ?gen\<rparr>) s3)) = Inr s'"
    using b unfolding book_slot_def Let_def c_def [symmetric] s1_def [symmetric] by (rule then_Inr2E)
  have q: "core_of s3 = core_of s1 \<and> same_keys s1 s3 \<and> find_request (dr_id r) s3 = find_request (dr_id r) s1"
  proof (cases "ep_route pool = Route_job")
    case True
    obtain s2 k where e: "enqueueManagedJob env r ?cid (pf_id p) (pc_runtime (pf_config p)) cfg (dn_job n) s1 = Inr (s2, k)"
      and s3: "s3 = (if k = [] then s2 else set_candidate ?cid (\<lambda>c. c\<lparr>ca_job_id := Some k\<rparr>) s2)"
      using j True by (auto simp: and_then_Inr_iff)
    note ce = core_enqueueManagedJob [OF e]
    have "core_of (set_candidate ?cid (\<lambda>c. c\<lparr>ca_job_id := Some k\<rparr>) s2) = core_of s2"
      by (simp add: core_touch_candidate core_candidate_of_def)
    moreover have "same_keys s2 (set_candidate ?cid (\<lambda>c. c\<lparr>ca_job_id := Some k\<rparr>) s2)" by (rule keys_sets(2)) simp
    ultimately show ?thesis using ce(1-3) same_keys_trans [OF ce(2)] unfolding s3 by simp
  next
    case False
    then show ?thesis using j by simp
  qed
  have r3: "find_request (dr_id r) s3 = Some r" using q f1' r by simp
  note ct = core_transition [OF t]
  show "core_of s' = move (dr_id r) D_RESERVED (core_of s\<lparr>
      k_requests := (k_requests (core_of s))(dr_id r \<mapsto> (core_request_of r)\<lparr>kr_generation := ?gen\<rparr>),
      k_candidates := (k_candidates (core_of s))(?cid \<mapsto> \<lparr>kc_request = dr_id r, kc_generation = ?gen, kc_state = K_RESERVED,
        kc_claimed = False, kc_slot = rg_id slot\<rparr>),
      k_open := insert (?cid, rg_id slot) (k_open (core_of s))\<rparr>)"
    unfolding ct(1) core_of_quiet(2)
    by (rule arg_cong [where f = "move (dr_id r) D_RESERVED"], rule core.equality)
      (simp_all add: core_set_request r3 conjunct1 [OF q] c1 cc core_request_of_def)
  have "same_keys s1 s'" using q same_keys_trans [OF same_keys_trans [OF keys_sets(1) keys_quiet(2)] ct(2)] same_keys_trans by blast
  then show "unique_rows s'" using u1 by (simp add: same_keys_unique)
qed

lemma book_moves:
  assumes ok: "dispatch_ok s" and b: "book_slot env n r pool p slot cfg s = Inr s'" and fresh: "find_candidate (dn_candidate n) s = None"
    and r: "find_request (dr_id r) s = Some r" "dr_state r = D_WAITING" and free: "\<not> open_reservation s (rg_id slot)"
  shows "moves s s'"
proof -
  have u: "unique_rows s" using ok by (simp add: dispatch_ok_def)
  note bs = book_slotE [OF b fresh u r(1)]
  have "k_requests (core_of s) (dr_id r) = Some (core_request_of r)" using r(1) by simp
  then have "core_step (core_of s) (move (dr_id r) D_RESERVED (core_of s\<lparr>
      k_requests := (k_requests (core_of s))(dr_id r \<mapsto> (core_request_of r)\<lparr>kr_generation := kr_generation (core_request_of r) + 1\<rparr>),
      k_candidates := (k_candidates (core_of s))(dn_candidate n \<mapsto> \<lparr>kc_request = dr_id r, kc_generation = kr_generation (core_request_of r) + 1, kc_state = K_RESERVED,
        kc_claimed = False, kc_slot = rg_id slot\<rparr>),
      k_open := insert (dn_candidate n, rg_id slot) (k_open (core_of s))\<rparr>))"
    by (rule core_step.reserve) (use r(2) fresh free in \<open>simp_all add: open_reservation_iff\<close>)
  then have "core_step (core_of s) (core_of s')" unfolding bs(1) by simp
  then show ?thesis using bs(2) unfolding moves_def by auto
qed

text \<open>A slot of an eligible pool is a slot of the view the pool was computed from, and free in it.\<close>

lemma pool_slot:
  assumes "p \<in> set (eligibleExecutors r profiles slots now)" "k \<in> set (ep_slotIds p)"
  shows "\<exists>y \<in> set slots. rg_id y = k \<and> free_slot y"
proof -
  obtain profile where "route_pool now r profile slots (ep_route p) = Some p" using pool_origin [OF assms(1)] by blast
  from route_pool_Some [OF this] assms(2) show ?thesis by blast
qed

lemma loaded_open: "loadRegisteredCapacity env s r = Inr (profiles, slots) \<Longrightarrow> x \<in> set slots \<Longrightarrow> rg_open_reservation x = open_reservation s (rg_id x)"
  by (erule loaded_slot) (auto simp: registered_def Let_def)

lemma pool_slot_unreserved:
  assumes "loadRegisteredCapacity env s r = Inr (profiles, slots)" "p \<in> set (eligibleExecutors r profiles slots now)" "k \<in> set (ep_slotIds p)"
  shows "\<not> open_reservation s k"
proof -
  obtain y where "y \<in> set slots" "rg_id y = k" "free_slot y" using pool_slot [OF assms(2,3)] by blast
  then show ?thesis using loaded_open [OF assms(1)] by (auto simp: free_slot_def)
qed

lemma try_pools_moves:
  assumes ok: "dispatch_ok s" and fresh: "find_candidate (dn_candidate n) s = None"
    and r: "find_request (dr_id r) s = Some r" "dr_state r = D_WAITING"
  shows "try_pools env busy n r pools s = Inr (Some s') \<Longrightarrow> moves s s'"
proof (induction pools)
  case (Cons pool pools)
  let ?locked = "filter (\<lambda>k. \<not> busy k) (ep_slotIds pool)"
  show ?case
  proof (cases "?locked = []")
    case True
    with Cons show ?thesis by (simp add: Let_def)
  next
    case False
    from Cons.prems obtain profiles slots where cap: "loadRegisteredCapacity env s r = Inr (profiles, slots)"
      and j: "(case find (\<lambda>q. ep_profileRevisionId q = ep_profileRevisionId pool \<and> ep_route q = ep_route pool)
               (eligibleExecutors r profiles slots (de_now env)) of
          None \<Rightarrow> try_pools env busy n r pools s
        | Some eligible \<Rightarrow>
            (case find (\<lambda>k. k \<in> set ?locked) (ep_slotIds eligible) of
               None \<Rightarrow> try_pools env busy n r pools s
             | Some k \<Rightarrow>
                 and_then (authorize_env env (requestActor r) (dr_input r) Op_claim) (\<lambda>_.
                   case (find (\<lambda>x. pf_id x = ep_profileRevisionId pool) profiles, find (\<lambda>x. rg_id x = k) slots) of
                     (Some p, Some slot) \<Rightarrow>
                       (case de_job_config env r (pc_runtime (pf_config p)) of
                          None \<Rightarrow> Inl (Exception ''TypeError'')
                        | Some cfg \<Rightarrow> and_then (book_slot env n r pool p slot cfg s) (\<lambda>s'. Inr (Some s')))
                   | _ \<Rightarrow> Inl (Exception ''TypeError'')))) = Inr (Some s')"
      unfolding try_pools.simps Let_def if_not_P [OF False] by (rule then_Inr2E)
    show ?thesis
    proof (cases "find (\<lambda>q. ep_profileRevisionId q = ep_profileRevisionId pool \<and> ep_route q = ep_route pool) (eligibleExecutors r profiles slots (de_now env))")
      case None
      with j have "try_pools env busy n r pools s = Inr (Some s')" by simp
      then show ?thesis by (rule Cons.IH)
    next
      case (Some eligible)
      note el = this
      show ?thesis
      proof (cases "find (\<lambda>k. k \<in> set ?locked) (ep_slotIds eligible)")
        case None
        with j el have "try_pools env busy n r pools s = Inr (Some s')" by simp
        then show ?thesis by (rule Cons.IH)
      next
        case (Some k)
        with j el obtain p slot cfg where sl: "find (\<lambda>x. rg_id x = k) slots = Some slot" and b: "book_slot env n r pool p slot cfg s = Inr s'"
          by (auto simp: and_then_Inr_iff split: option.splits)
        have "\<not> open_reservation s (rg_id slot)"
          using pool_slot_unreserved [OF cap, of eligible "de_now env" k] find_list [OF el] find_list [OF Some] find_list [OF sl] by simp
        then show ?thesis by (rule book_moves [OF ok b fresh r])
      qed
    qed
  qed
qed simp

lemma reserve_moves:
  assumes ok: "dispatch_ok s" and tc: "transition_contract env" and fresh: "find_candidate (dn_candidate n) s = None"
    and r: "find_request (dr_id r) s = Some r" "dr_state r = D_WAITING" and j: "reserve_transaction env busy n r s = Inr (s', y)"
  shows "moves s s'"
proof -
  note quiet = moves_quiet [OF ok core_note_waiting]
  from j have j': "(case and_then (authorize_env env (requestActor r) (dr_input r) Op_claim) (\<lambda>_. lockManagedTask s r) of
       Inl e \<Rightarrow>
         if \<not> is_DispatchError e then Inl e
         else if e \<in> {DISPATCH_FORBIDDEN, DISPATCH_UNAUTHENTICATED}
         then and_then (rejectUnstartedInTransaction env (dr_id r) ''authorization_unavailable'' (dn_result n) s) (\<lambda>s'. Inr (s', None))
         else Inr (note_waiting env (dr_id r) (if e = DISPATCH_STATE_CONFLICT then ''task_not_dispatchable'' else ''authorization_unavailable'') s, None)
     | Inr _ \<Rightarrow>
         and_then (loadRegisteredCapacity env s r) (\<lambda>(profiles, slots).
           (let cooldown = cooling env (dr_id r) s;
                pools = filter (\<lambda>p. configured env r profiles p \<and> (ep_profileRevisionId p, ep_route p) \<notin> set cooldown)
                          (eligibleExecutors r profiles slots (de_now env))
            in and_then (try_pools env busy n r pools s) (\<lambda>x. case x of
                 Some s' \<Rightarrow> Inr (s', Some (dr_id r))
               | None \<Rightarrow> Inr (note_waiting env (dr_id r) (if cooldown \<noteq> [] then ''pool_cooldown'' else ''no_eligible_capacity'') s, None))))) = Inr (s', y)"
    unfolding reserve_transaction_def by (elim then_InrE)
  show ?thesis
  proof (cases "and_then (authorize_env env (requestActor r) (dr_input r) Op_claim) (\<lambda>_. lockManagedTask s r)")
    case (Inl e)
    note j2 = j' [unfolded Inl sum.case]
    show ?thesis
    proof (cases "e \<in> {DISPATCH_FORBIDDEN, DISPATCH_UNAUTHENTICATED}")
      case True
      then have "rejectUnstartedInTransaction env (dr_id r) ''authorization_unavailable'' (dn_result n) s = Inr s'"
        using j2 by (auto simp: and_then_Inr_iff split: if_splits)
      then show ?thesis by (rule rejectUnstarted_moves [OF ok tc])
    next
      case False
      then have "\<exists>reason. s' = note_waiting env (dr_id r) reason s" using j2 unfolding if_not_P [OF False] by (auto split: if_splits)
      then show ?thesis using quiet by blast
    qed
  next
    case (Inr u)
    note j2 = j' [unfolded Inr sum.case Let_def]
    obtain profiles slots x where t: "try_pools env busy n r (filter (\<lambda>p. configured env r profiles p \<and> (ep_profileRevisionId p, ep_route p) \<notin> set (cooling env (dr_id r) s))
        (eligibleExecutors r profiles slots (de_now env))) s = Inr x"
      and x: "(case x of Some s' \<Rightarrow> Inr (s', Some (dr_id r))
        | None \<Rightarrow> Inr (note_waiting env (dr_id r) (if cooling env (dr_id r) s \<noteq> [] then ''pool_cooldown'' else ''no_eligible_capacity'') s, None)) =
          (Inr (s', y) :: derror + dispatch \<times> id option)"
      using j2 by (elim then_Inr2E then_InrE)
    show ?thesis
    proof (cases x)
      case None
      with x have "\<exists>reason. s' = note_waiting env (dr_id r) reason s" by auto
      then show ?thesis using quiet by blast
    next
      case (Some z)
      with x have "z = s'" by simp
      with t Some show ?thesis using try_pools_moves [OF ok fresh r] by simp
    qed
  qed
qed

theorem reserveRequest_moves:
  assumes "dispatch_ok s" "transition_contract env" "find_candidate (dn_candidate n) s = None"
  shows "moves s (fst (reserveRequest env request_busy slot_busy n rid s))"
proof (cases "find_request rid s")
  case None
  then show ?thesis using moves_refl [OF assms(1)] by (simp add: reserveRequest_def)
next
  case (Some r)
  have rid: "dr_id r = rid" using find_requestD [OF Some] by simp
  show ?thesis
  proof (cases "\<not> de_enabled env \<or> dr_state r \<noteq> D_WAITING \<or> dr_product_id r \<notin> set (de_allowlist env) \<or> request_busy rid \<or> dr_sources_ready_at r = None")
    case True
    then show ?thesis using moves_refl [OF assms(1)] Some by (simp add: reserveRequest_def)
  next
    case False
    then have "dr_state r = D_WAITING" by simp
    then have "moves s s'" if "reserve_transaction env slot_busy n r s = Inr (s', y)" for s' y
      using reserve_moves [OF assms, of r] that Some rid by simp
    then have "moves s (fst (dispatch_transaction s (reserve_transaction env slot_busy n r s)))" by (rule transaction_moves [OF assms(1)])
    then show ?thesis unfolding reserveRequest_def Some option.case if_not_P [OF False] .
  qed
qed

section \<open>Retirement\<close>

theorem retireExpired_moves:
  assumes ok: "dispatch_ok s"
  shows "moves s (fst (retireExpiredCandidate env rid s))"
  unfolding retireExpiredCandidate_def
proof (rule transaction_moves [OF ok])
  fix s' y assume j: "retire_transaction env rid s = Inr (s', y)"
  show "moves s s'"
  proof (cases "s' = s")
    case True
    then show ?thesis using moves_refl [OF ok] by simp
  next
    case False
    with j obtain r c where r: "find_request rid s = Some r" and c: "expired_candidate env r s = Some c"
      and t: "transition env rid D_WAITING None (add_event env rid None (Pool_cooldown (ca_profile_revision_id c) (ca_route c) (de_now env + 300000) (ca_id c))
          (retire_candidate env c (end_job env J_CANCELLED (ca_job_id c) s))) = Inr s'"
      unfolding retire_transaction_def by (auto elim!: option_stopE if_stopE then_InrE)
    have cc: "c \<in> set (d_candidates s)" "ca_request_id c = rid" "ca_state c = K_RESERVED"
      using find_list [OF c [unfolded expired_candidate_def]] find_requestD [OF r] by auto
    have fc: "find_candidate (ca_id c) s = Some c" by (rule candidate_row [OF ok cc(1)])
    then have "find_candidate (ca_id c) (end_job env J_CANCELLED (ca_job_id c) s) = Some c" by simp
    note rc = core_retire_candidate [OF this] and ct = core_transition [OF t]
    show ?thesis
    proof (rule retire_moves [OF ok fc cc(3)])
      show "core_of s' = move (ca_request_id c) D_WAITING (core_of s\<lparr>k_candidates := (k_candidates (core_of s))(ca_id c \<mapsto> (core_candidate_of c)\<lparr>kc_state := K_RETIRED\<rparr>),
          k_open := free_candidate (ca_id c) (k_open (core_of s))\<rparr>)"
        using ct(1) rc(1) cc(2) by (simp add: core_of_quiet)
      show "same_keys s s'" using same_keys_trans [OF same_keys_trans [OF same_keys_trans [OF keys_quiet(4) rc(2)] keys_quiet(2)] ct(2)] .
    qed simp
  qed
qed

end
