(* ===== verification/Dispatch_Sim_Claim.thy ===== *)
theory Dispatch_Sim_Claim
  imports Dispatch_Sim_Start
begin

text \<open>
  The claim of a reserved candidate is a step of the abstract service: the attempt is new, the candidate takes the slot of its
  claimant, and that slot was free or its own.
\<close>

section \<open>What a claim writes\<close>

lemma rebind_same: "(\<And>slot'. (cid, slot') \<in> ps \<Longrightarrow> slot' = slot) \<Longrightarrow> rebind cid slot ps = ps"
  unfolding rebind_def by force

lemma reserved_slot:
  assumes "dispatch_ok s" "find_candidate cid s = Some c" "(cid, slot) \<in> open_pairs (d_reservations s)"
  shows "slot = ca_reserved_slot_id c"
proof -
  have "reservations_known (core_of s)" using assms(1) by (simp add: dispatch_ok_def core_ok_def)
  then show ?thesis using assms(2,3) unfolding reservations_known_def by fastforce
qed

lemma claim_slot:
  assumes ok: "dispatch_ok s" and c: "find_candidate (ca_id c) s = Some c"
    and s1: "s1 = (if slot \<noteq> ca_reserved_slot_id c then
                  (set_candidate (ca_id c) (\<lambda>x. x\<lparr>ca_reserved_slot_id := slot\<rparr>) s)
                    \<lparr>d_reservations := update_where (\<lambda>v. rv_candidate_id v = ca_id c \<and> rv_released_at v = None) (\<lambda>v. v\<lparr>rv_slot_id := slot\<rparr>) (d_reservations s)\<rparr>
                else s)"
  shows "core_of s1 = core_of s\<lparr>k_candidates := (k_candidates (core_of s))(ca_id c \<mapsto> (core_candidate_of c)\<lparr>kc_slot := slot\<rparr>),
      k_open := rebind (ca_id c) slot (k_open (core_of s))\<rparr>"
    and "same_keys s s1" and "find_candidate (ca_id c) s1 = Some (c\<lparr>ca_reserved_slot_id := slot\<rparr>)"
    and "find_request k s1 = find_request k s" and "find_attempt k s1 = find_attempt k s"
proof -
  let ?u = "core_of s\<lparr>k_candidates := (k_candidates (core_of s))(ca_id c \<mapsto> (core_candidate_of c)\<lparr>kc_slot := slot\<rparr>),
      k_open := rebind (ca_id c) slot (k_open (core_of s))\<rparr>"
  let ?v = "set_candidate (ca_id c) (\<lambda>x. x\<lparr>ca_reserved_slot_id := slot\<rparr>) s"
  let ?t = "?v\<lparr>d_reservations := update_where (\<lambda>v. rv_candidate_id v = ca_id c \<and> rv_released_at v = None) (\<lambda>v. v\<lparr>rv_slot_id := slot\<rparr>) (d_reservations s)\<rparr>"
  have frame: "find_candidate q ?t = find_candidate q ?v" "find_request q ?t = find_request q s" "find_attempt q ?t = find_attempt q s" for q
    by (simp_all add: find_candidate_def find_request_def find_attempt_def set_candidate_def)
  have cv: "core_of ?v = core_of s\<lparr>k_candidates := (k_candidates (core_of s))(ca_id c \<mapsto> (core_candidate_of c)\<lparr>kc_slot := slot\<rparr>)\<rparr>"
    using c by (simp add: core_set_candidate core_candidate_of_def)
  have ct: "core_of ?t = ?u"
  proof -
    have "core_of ?t = core_of ?v\<lparr>k_open := rebind (ca_id c) slot (k_open (core_of s))\<rparr>"
      by (rule core.equality) (simp_all add: core_of_def frame open_pairs_rebind)
    then show ?thesis unfolding cv by simp
  qed
  have same: "core_of s = ?u" if "slot = ca_reserved_slot_id c"
  proof -
    have "rebind (ca_id c) slot (open_pairs (d_reservations s)) = open_pairs (d_reservations s)"
      by (rule rebind_same) (simp add: reserved_slot [OF ok c] that)
    moreover have "(core_candidate_of c)\<lparr>kc_slot := slot\<rparr> = core_candidate_of c" by (simp add: core_candidate_of_def that)
    moreover have "k_candidates (core_of s) (ca_id c) = Some (core_candidate_of c)" using c by simp
    ultimately show ?thesis by (intro core.equality) (simp_all add: fun_upd_idem)
  qed
  have kt: "same_keys s ?t" using keys_sets(2) [of "\<lambda>x. x\<lparr>ca_reserved_slot_id := slot\<rparr>" s "ca_id c"] by (simp add: same_keys_def)
  show "core_of s1 = ?u" unfolding s1 using ct same by simp
  show "same_keys s s1" unfolding s1 using kt by simp
  show "find_candidate (ca_id c) s1 = Some (c\<lparr>ca_reserved_slot_id := slot\<rparr>)" unfolding s1 using c by (simp add: frame find_set_candidate)
  show "find_request k s1 = find_request k s" "find_attempt k s1 = find_attempt k s" unfolding s1 by (simp_all add: frame)
qed

lemma claim_writes_moves:
  assumes ok: "dispatch_ok s" and w: "claim_writes env aid claimKey secret r c held s = Inr (s', x)"
    and r: "find_request (dr_id r) s = Some r" and c: "find_candidate (ca_id c) s = Some c" "ca_state c = K_RESERVED" "ca_request_id c = dr_id r"
    and fresh: "find_attempt aid s = None" and free: "ic_slot_id (fst held) \<notin> snd ` free_candidate (ca_id c) (open_pairs (d_reservations s))"
  shows "moves s s'"
proof -
  let ?i = "fst held" and ?now = "de_now env" and ?slot = "ic_slot_id (fst held)" and ?rid = "dr_id r" and ?cid = "ca_id c"
  define s1 where "s1 = (if ?slot \<noteq> ca_reserved_slot_id c then
                  (set_candidate (ca_id c) (\<lambda>x. x\<lparr>ca_reserved_slot_id := ?slot\<rparr>) s)
                    \<lparr>d_reservations := update_where (\<lambda>v. rv_candidate_id v = ca_id c \<and> rv_released_at v = None) (\<lambda>v. v\<lparr>rv_slot_id := ?slot\<rparr>) (d_reservations s)\<rparr>
                else s)"
  define s2 where "s2 = set_request ?rid (\<lambda>x. x\<lparr>dr_first_claimed_at := coalesce (dr_first_claimed_at x) (Some ?now)\<rparr>) s1"
  define s3 where "s3 = set_candidate ?cid (\<lambda>x. x\<lparr>ca_state := K_CLAIMED, ca_incarnation_id := Some (ic_id ?i), ca_first_claimed_at := Some ?now,
                 ca_claim_key := Some claimKey\<rparr>) s2"
  define s4 where "s4 = on_job (ca_job_id c) (\<lambda>j. j\<lparr>j_status := J_CLAIMED, j_claimed_at := Some ?now,
                 j_worker_instance_id := sc_worker_instance_id (ic_scope ?i)\<rparr>) s3"
  define a where "a = \<lparr>at_id = aid, at_candidate_id = ca_id c, at_incarnation_id = ic_id ?i, at_credential_hash = de_sha256 env secret,
               at_credential_key_version = de_key_version env, at_claim_key = claimKey, at_state = A_CLAIMED, at_scope_id = None,
               at_started_at = None, at_heartbeat_at = Some ?now, at_stopped_at = None, at_revoked_at = None\<rparr>"
  define s5 where "s5 = s4\<lparr>d_attempts := d_attempts s4 @ [a]\<rparr>"
  define s6 where "s6 = add_event env ?rid None (Claimed ?cid aid (ic_id ?i) ?slot) s5"
  define s7 where "s7 = (case dr_retry_authorization_event_id r of None \<Rightarrow> s6
                | Some k \<Rightarrow> set_request ?rid (\<lambda>x. x\<lparr>dr_retry_authorization_event_id := None\<rparr>) (add_event env ?rid None (Retry_consumed k aid) s6))"
  have t: "transition env ?rid D_CLAIMED None s7 = Inr s'"
    using w unfolding claim_writes_def Let_def s1_def [symmetric] s2_def [symmetric] s3_def [symmetric] s4_def [symmetric] a_def [symmetric]
      s5_def [symmetric] s6_def [symmetric] s7_def [symmetric] by (auto simp: and_then_Inr_iff)
  note c1 = claim_slot [OF ok c(1) s1_def]
  have c2: "core_of s2 = core_of s1" unfolding s2_def by (rule core_touch_request) (simp_all add: core_request_of_def)
  have f2: "find_candidate ?cid s2 = Some (c\<lparr>ca_reserved_slot_id := ?slot\<rparr>)" "find_attempt q s2 = find_attempt q s" for q
    unfolding s2_def using c1(3,5) by simp_all
  have c3: "core_of s3 = core_of s2\<lparr>k_candidates := (k_candidates (core_of s2))(?cid \<mapsto> (core_candidate_of c)\<lparr>kc_state := K_CLAIMED, kc_claimed := True, kc_slot := ?slot\<rparr>)\<rparr>"
    unfolding s3_def using f2(1) by (simp add: core_set_candidate core_candidate_of_def)
  have c4: "core_of s4 = core_of s3" unfolding s4_def by (simp add: core_of_quiet)
  have f4: "find_attempt q s4 = find_attempt q s" for q unfolding s4_def s3_def using f2(2) by simp
  have f5: "find_attempt q s5 = (if q = aid then Some a else find_attempt q s)" for q
    using fresh f4 by (auto simp: s5_def find_attempt_def find_by_append find_by_simps a_def split: option.splits)
  have sel: "d_reservations s5 = d_reservations s4" "d_outbox s5 = d_outbox s4" "find_candidate q s5 = find_candidate q s4"
    "find_request q s5 = find_request q s4" for q by (simp_all add: s5_def find_candidate_def find_request_def)
  have ca: "core_attempt_of a = \<lparr>ka_candidate = ?cid, ka_state = A_CLAIMED, ka_stopped = False\<rparr>" by (simp add: a_def core_attempt_of_def)
  have c5: "core_of s5 = core_of s4\<lparr>k_attempts := (k_attempts (core_of s))(aid \<mapsto> core_attempt_of a)\<rparr>"
    by (rule core.equality) (auto simp: core_of_def sel f5 fun_eq_iff)
  have c7: "core_of s7 = core_of s5"
    by (cases "dr_retry_authorization_event_id r") (simp_all add: s7_def s6_def core_of_quiet core_touch_request core_request_of_def)
  note ct = core_transition [OF t]
  have "core_of s7 = core_of s\<lparr>k_candidates := (k_candidates (core_of s))(?cid \<mapsto> (core_candidate_of c)\<lparr>kc_state := K_CLAIMED, kc_claimed := True, kc_slot := ?slot\<rparr>),
      k_attempts := (k_attempts (core_of s))(aid \<mapsto> \<lparr>ka_candidate = ?cid, ka_state = A_CLAIMED, ka_stopped = False\<rparr>),
      k_open := rebind ?cid ?slot (k_open (core_of s))\<rparr>"
    unfolding c7 c5 c4 c3 c2 c1(1) ca by simp
  moreover have "core_step (core_of s) (move (kc_request (core_candidate_of c)) D_CLAIMED (core_of s\<lparr>k_candidates := (k_candidates (core_of s))(?cid \<mapsto> (core_candidate_of c)\<lparr>kc_state := K_CLAIMED, kc_claimed := True, kc_slot := ?slot\<rparr>),
      k_attempts := (k_attempts (core_of s))(aid \<mapsto> \<lparr>ka_candidate = ?cid, ka_state = A_CLAIMED, ka_stopped = False\<rparr>),
      k_open := rebind ?cid ?slot (k_open (core_of s))\<rparr>))"
    by (rule core_step.claim) (use c fresh free in simp_all)
  ultimately have "core_step (core_of s) (core_of s')" unfolding ct(1) using c(3) by simp
  moreover have "unique_rows s'"
  proof -
    have "same_keys s s4"
      unfolding s4_def s3_def s2_def
      by (rule same_keys_trans [OF c1(2) same_keys_trans [OF keys_sets(1) same_keys_trans [OF keys_sets(2) keys_quiet(3)]]]) simp
    moreover have "same_keys s5 s'"
      by (rule same_keys_trans [OF _ ct(2)])
        (cases "dr_retry_authorization_event_id r"; simp add: s7_def s6_def keys_quiet same_keys_trans [OF keys_quiet(2) same_keys_trans [OF keys_quiet(2) keys_sets(1)]])
    moreover have "find_attempt aid s4 = None" using fresh f4 by simp
    then have "unique_rows s5" if "unique_rows s4"
      using that unfolding unique_rows_def s5_def find_attempt_def find_by_None by (auto simp: a_def)
    ultimately show ?thesis using ok by (simp add: dispatch_ok_def same_keys_unique)
  qed
  ultimately show ?thesis unfolding moves_def by auto
qed

section \<open>A candidate of the page\<close>

lemma option_skipE: "(case m of None \<Rightarrow> Inr None | Some z \<Rightarrow> k z) = Inr (Some y) \<Longrightarrow> (\<And>z. m = Some z \<Longrightarrow> k z = Inr (Some y) \<Longrightarrow> thesis) \<Longrightarrow> thesis"
  by (auto split: option.splits)

lemma if_skipE: "(if b then Inr None else m) = Inr (Some y) \<Longrightarrow> (\<not> b \<Longrightarrow> m = Inr (Some y) \<Longrightarrow> thesis) \<Longrightarrow> thesis"
  by (auto split: if_splits)

lemma claim_candidate_rowE:
  assumes "claim_candidate_row env busy aid a incarnationId claimKey session ids s = Inr (Some (s', receipt))"
  obtains r c i sl profiles capacity pool secret x where "find_request (snd ids) s = Some r" "dr_state r = D_RESERVED"
    "find_candidate (fst ids) s = Some c" "ca_state c = K_RESERVED" "ca_generation c = dr_generation r"
    "loadRegisteredCapacity env s r = Inr (profiles, capacity)"
    "pool \<in> set (eligibleExecutors r profiles (map (\<lambda>x. if rg_id x = ca_reserved_slot_id c then x\<lparr>rg_open_reservation := False\<rparr> else x) capacity) (de_now env))"
    "ic_slot_id i \<in> set (ep_slotIds pool)" "claim_writes env aid claimKey secret r c (i, sl) s = Inr (s', x)"
proof -
  from assms obtain r where r: "find_request (snd ids) s = Some r" "\<not> (busy (dr_id r) \<or> dr_state r \<noteq> D_RESERVED)"
    and j: "and_then (lockManagedTask s r) (\<lambda>_.
      case find_candidate (fst ids) s of None \<Rightarrow> Inr None | Some c \<Rightarrow>
      if ca_state c \<noteq> K_RESERVED \<or> ca_generation c \<noteq> dr_generation r \<or> ca_first_claimed_at c \<noteq> None then Inr None
      else and_then (authenticateExecutorSession env s a incarnationId session) (\<lambda>(i, sl).
      if ca_route c = Route_host \<and> (ca_incarnation_id c \<noteq> Some (ic_id i) \<or> ca_reserved_slot_id c \<noteq> ic_slot_id i) then Inr None
      else and_then (authorize_env env a (dr_input r) Op_claim) (\<lambda>_.
      and_then (authorize_env env (requestActor r) (dr_input r) Op_claim) (\<lambda>_.
      and_then (loadRegisteredCapacity env s r) (\<lambda>(profiles, capacity).
      case find (\<lambda>p. pf_id p = ca_profile_revision_id c) profiles of None \<Rightarrow> Inr None | Some p \<Rightarrow>
      if pf_sha256 p \<noteq> is_profile_sha256 (ic_scope i) \<or> pc_image_digest (pf_config p) \<noteq> is_image_digest (ic_scope i) then Inr None
      else
        (let slots = map (\<lambda>x. if rg_id x = ca_reserved_slot_id c then x\<lparr>rg_open_reservation := False\<rparr> else x) capacity in
         case find (\<lambda>q. ep_profileRevisionId q = ca_profile_revision_id c \<and> ep_route q = ca_route c)
           (eligibleExecutors r profiles slots (de_now env)) of None \<Rightarrow> Inr None | Some pool \<Rightarrow>
         if ic_slot_id i \<notin> set (ep_slotIds pool) then Inr None
         else (case (find (\<lambda>x. rg_id x = ic_slot_id i) slots, find (\<lambda>x. rg_id x = hd (ep_slotIds pool)) slots) of
            (Some own, Some highest) \<Rightarrow>
              if tierPriority (sc_tier (rg_config own)) < tierPriority (sc_tier (rg_config highest)) \<or> \<not> job_admits r c p a i own s then Inr None
              else and_then (deriveAttemptCredential env aid (ic_id i) (ca_generation c) (de_key_version env)) (\<lambda>secret.
                   and_then (claim_writes env aid claimKey secret r c (i, sl) s) (\<lambda>(s', x).
                   and_then (attempt_receipt env a x s') (\<lambda>receipt. Inr (Some (s', receipt)))))
          | _ \<Rightarrow> Inl (Exception ''TypeError'')))))))) = Inr (Some (s', receipt))"
    unfolding claim_candidate_row_def by (elim option_skipE if_skipE) (rule that)
  from j obtain c where c: "find_candidate (fst ids) s = Some c" "\<not> (ca_state c \<noteq> K_RESERVED \<or> ca_generation c \<noteq> dr_generation r \<or> ca_first_claimed_at c \<noteq> None)"
    and j2: "\<exists>i sl profiles capacity p. loadRegisteredCapacity env s r = Inr (profiles, capacity) \<and>
        (let slots = map (\<lambda>x. if rg_id x = ca_reserved_slot_id c then x\<lparr>rg_open_reservation := False\<rparr> else x) capacity in
         case find (\<lambda>q. ep_profileRevisionId q = ca_profile_revision_id c \<and> ep_route q = ca_route c)
           (eligibleExecutors r profiles slots (de_now env)) of None \<Rightarrow> Inr None | Some pool \<Rightarrow>
         if ic_slot_id i \<notin> set (ep_slotIds pool) then Inr None
         else (case (find (\<lambda>x. rg_id x = ic_slot_id i) slots, find (\<lambda>x. rg_id x = hd (ep_slotIds pool)) slots) of
            (Some own, Some highest) \<Rightarrow>
              if tierPriority (sc_tier (rg_config own)) < tierPriority (sc_tier (rg_config highest)) \<or> \<not> job_admits r c p a i own s then Inr None
              else and_then (deriveAttemptCredential env aid (ic_id i) (ca_generation c) (de_key_version env)) (\<lambda>secret.
                   and_then (claim_writes env aid claimKey secret r c (i, sl) s) (\<lambda>(s', x).
                   and_then (attempt_receipt env a x s') (\<lambda>receipt. Inr (Some (s', receipt)))))
          | _ \<Rightarrow> Inl (Exception ''TypeError''))) = Inr (Some (s', receipt))"
    by (elim then_InrE then_Inr2E option_skipE if_skipE) (rule that; blast)
  from j2 obtain i sl profiles capacity p where cap: "loadRegisteredCapacity env s r = Inr (profiles, capacity)"
    and j3: "(let slots = map (\<lambda>x. if rg_id x = ca_reserved_slot_id c then x\<lparr>rg_open_reservation := False\<rparr> else x) capacity in
         case find (\<lambda>q. ep_profileRevisionId q = ca_profile_revision_id c \<and> ep_route q = ca_route c)
           (eligibleExecutors r profiles slots (de_now env)) of None \<Rightarrow> Inr None | Some pool \<Rightarrow>
         if ic_slot_id i \<notin> set (ep_slotIds pool) then Inr None
         else (case (find (\<lambda>x. rg_id x = ic_slot_id i) slots, find (\<lambda>x. rg_id x = hd (ep_slotIds pool)) slots) of
            (Some own, Some highest) \<Rightarrow>
              if tierPriority (sc_tier (rg_config own)) < tierPriority (sc_tier (rg_config highest)) \<or> \<not> job_admits r c p a i own s then Inr None
              else and_then (deriveAttemptCredential env aid (ic_id i) (ca_generation c) (de_key_version env)) (\<lambda>secret.
                   and_then (claim_writes env aid claimKey secret r c (i, sl) s) (\<lambda>(s', x).
                   and_then (attempt_receipt env a x s') (\<lambda>receipt. Inr (Some (s', receipt)))))
          | _ \<Rightarrow> Inl (Exception ''TypeError''))) = Inr (Some (s', receipt))" by blast
  from j3 obtain pool where pool: "find (\<lambda>q. ep_profileRevisionId q = ca_profile_revision_id c \<and> ep_route q = ca_route c)
      (eligibleExecutors r profiles (map (\<lambda>x. if rg_id x = ca_reserved_slot_id c then x\<lparr>rg_open_reservation := False\<rparr> else x) capacity) (de_now env)) = Some pool"
    and slot: "ic_slot_id i \<in> set (ep_slotIds pool)"
    and w: "\<exists>secret x. claim_writes env aid claimKey secret r c (i, sl) s = Inr (s', x)"
    unfolding Let_def by (elim option_skipE if_skipE) (auto simp: and_then_Inr_iff split: option.splits if_splits)
  from w obtain secret x where "claim_writes env aid claimKey secret r c (i, sl) s = Inr (s', x)" by blast
  with r c cap find_list [OF pool] slot show thesis by (intro that) auto
qed

lemma page_subset: "set (map g (take n (sort_key f xs))) \<subseteq> g ` set xs"
  using set_take_subset [of n "sort_key f xs"] by (simp add: image_mono)

lemma claim_page_row:
  assumes "ids \<in> set (claim_page env a s)"
  obtains c where "c \<in> set (d_candidates s)" "ca_id c = fst ids" "ca_request_id c = snd ids"
proof -
  define row where "row = (\<lambda>c :: candidate. case find_request (ca_request_id c) s of None \<Rightarrow> None
      | Some r \<Rightarrow> if dr_state r = D_RESERVED \<and> ca_state c = K_RESERVED \<and> dr_generation r = ca_generation c \<and>
          dr_user_id r = da_userId a \<and> dr_product_id r \<in> set (de_allowlist env)
          then Some ((dr_created_at r, ca_id c), (ca_id c, dr_id r)) else None)"
  have "ids \<in> snd ` set (List.map_filter row (d_candidates s))"
    using assms page_subset unfolding claim_page_def row_def [symmetric] by (rule subsetD [rotated])
  then obtain c k where "c \<in> set (d_candidates s)" "row c = Some (k, ids)"
    by (auto simp: List.map_filter_def)
  then show thesis using find_requestD [of "ca_request_id c" s]
    by (intro that [of c]) (auto simp: row_def split: option.splits if_splits)
qed

lemma claim_row_moves:
  assumes ok: "dispatch_ok s" and fresh: "find_attempt aid s = None" and ids: "ids \<in> set (claim_page env a s)"
    and j: "claim_candidate_row env busy aid a incarnationId claimKey session ids s = Inr (Some (s', receipt))"
  shows "moves s s'"
proof -
  obtain r c i sl profiles capacity pool secret x where r: "find_request (snd ids) s = Some r" "dr_state r = D_RESERVED"
    and c: "find_candidate (fst ids) s = Some c" "ca_state c = K_RESERVED"
    and cap: "loadRegisteredCapacity env s r = Inr (profiles, capacity)"
    and pool: "pool \<in> set (eligibleExecutors r profiles (map (\<lambda>x. if rg_id x = ca_reserved_slot_id c then x\<lparr>rg_open_reservation := False\<rparr> else x) capacity) (de_now env))"
    and slot: "ic_slot_id i \<in> set (ep_slotIds pool)" and w: "claim_writes env aid claimKey secret r c (i, sl) s = Inr (s', x)"
    using claim_candidate_rowE [OF j] .
  have rid: "dr_id r = snd ids" "ca_id c = fst ids" using find_requestD [OF r(1)] find_candidateD [OF c(1)] by simp_all
  obtain c' where c': "c' \<in> set (d_candidates s)" "ca_id c' = fst ids" "ca_request_id c' = snd ids" using claim_page_row [OF ids] .
  have "c' = c" using candidate_row [OF ok c'(1)] c'(2) c(1) by simp
  then have cr: "ca_request_id c = dr_id r" using c'(3) rid by simp
  have free: "ic_slot_id i \<notin> snd ` free_candidate (ca_id c) (open_pairs (d_reservations s))"
  proof
    assume "ic_slot_id i \<in> snd ` free_candidate (ca_id c) (open_pairs (d_reservations s))"
    then obtain other where o: "(other, ic_slot_id i) \<in> open_pairs (d_reservations s)" "other \<noteq> ca_id c" by auto
    obtain y where y: "y \<in> set capacity" "rg_id y = ic_slot_id i"
      "free_slot (if rg_id y = ca_reserved_slot_id c then y\<lparr>rg_open_reservation := False\<rparr> else y)"
      using pool_slot [OF pool slot] by (auto split: if_splits)
    show False
    proof (cases "ic_slot_id i = ca_reserved_slot_id c")
      case False
      then have "\<not> rg_open_reservation y" using y by (simp add: free_slot_def)
      then have "\<not> open_reservation s (ic_slot_id i)" using loaded_open [OF cap y(1)] y(2) by simp
      then show False using o(1) unfolding open_reservation_iff by force
    next
      case True
      have parts: "candidates_hold (core_of s)" "reservations_exclusive (core_of s)" using ok by (simp_all add: dispatch_ok_def core_ok_def)
      have "\<exists>slot. (ca_id c, slot) \<in> k_open (core_of s)"
        using parts(1) c rid(2) unfolding candidates_hold_def by (auto simp: open_candidate_def)
      then obtain slot where h: "(ca_id c, slot) \<in> open_pairs (d_reservations s)" by auto
      have "slot = ic_slot_id i" using reserved_slot [OF ok _ h, of c] c(1) rid(2) True by simp
      with h o show False using parts(2) unfolding reservations_exclusive_def core_sel by blast
    qed
  qed
  show ?thesis
  proof (rule claim_writes_moves [OF ok w])
    show "find_request (dr_id r) s = Some r" "find_candidate (ca_id c) s = Some c" using r(1) c(1) rid by simp_all
  qed (use c(2) cr fresh free in simp_all)
qed

lemma claim_candidates_moves:
  assumes ok: "dispatch_ok s" and fresh: "find_attempt aid s = None"
  shows "set page \<subseteq> set (claim_page env a s) \<Longrightarrow> claim_candidates env busy aid a incarnationId claimKey session page s = Inr (s', y) \<Longrightarrow> moves s s'"
proof (induction page)
  case Nil
  then show ?case using moves_refl [OF ok] by simp
next
  case (Cons ids page)
  from Cons.prems(2) obtain x where x: "claim_candidate_row env busy aid a incarnationId claimKey session ids s = Inr x"
    and rest: "(case x of None \<Rightarrow> claim_candidates env busy aid a incarnationId claimKey session page s
       | Some (s', receipt) \<Rightarrow> Inr (s', Some receipt)) = Inr (s', y)"
    unfolding claim_candidates.simps by (rule then_InrE)
  show ?case
  proof (cases x)
    case None
    then show ?thesis using Cons.IH Cons.prems(1) rest by simp
  next
    case (Some z)
    then obtain receipt where x': "x = Some (s', receipt)" using rest by (cases z) auto
    have "ids \<in> set (claim_page env a s)" using Cons.prems(1) by simp
    then show ?thesis using x x' by (intro claim_row_moves [OF ok fresh]) simp_all
  qed
qed

theorem claim_moves:
  assumes ok: "dispatch_ok s" and fresh: "find_attempt aid s = None"
  shows "moves s (fst (claimDispatchAttempt env busy aid a incarnationId claimKey session s))"
proof (cases "validateKey claimKey")
  case (Inl e)
  then show ?thesis using moves_refl [OF ok] by (simp add: claimDispatchAttempt_def)
next
  case (Inr u)
  have "moves s (fst (dispatch_transaction s (claim_transaction env busy aid a incarnationId claimKey session s)))"
  proof (rule transaction_moves [OF ok])
    fix s' y assume j: "claim_transaction env busy aid a incarnationId claimKey session s = Inr (s', y)"
    show "moves s s'"
    proof (cases "prior_attempt incarnationId claimKey s")
      case None
      then show ?thesis
        using j claim_candidates_moves [OF ok fresh subset_refl] moves_refl [OF ok]
        by (auto simp: claim_transaction_def and_then_Inr_iff split: if_splits)
    next
      case (Some z)
      then have "s' = s" using j by (cases z) (auto simp: claim_transaction_def and_then_Inr_iff)
      then show ?thesis using moves_refl [OF ok] by simp
    qed
  qed
  then show ?thesis by (simp add: claimDispatchAttempt_def Inr)
qed

end
