(* ===== verification/Dispatch_Sim_Run.thy ===== *)
theory Dispatch_Sim_Run
  imports Dispatch_Sim_Claim
begin

text \<open>
  The operations on an attempt take steps of the abstract service: start, renewal, reconciliation and the sweep of leases
  advance it, an accepted stop marks it, and the end of its request settles it.
\<close>

section \<open>Locked rows\<close>

definition rows_of :: "'x locked_scheme \<Rightarrow> dispatch \<Rightarrow> bool" where
  "rows_of x s \<longleftrightarrow> find_request (dr_id (lk_r x)) s = Some (lk_r x) \<and> find_candidate (ca_id (lk_c x)) s = Some (lk_c x) \<and>
     find_attempt (at_id (lk_a x)) s = Some (lk_a x) \<and> ca_request_id (lk_c x) = dr_id (lk_r x) \<and> at_candidate_id (lk_a x) = ca_id (lk_c x)"

lemma lock_attempt_rows:
  assumes "lock_attempt s rid cid aid = Inr x"
  shows "rows_of x s"
proof -
  from assms obtain r c a where r: "find_request rid s = Some r" and c: "find_candidate cid s = Some c" and a: "find_attempt aid s = Some a"
    and x: "lk_r x = r" "lk_c x = c" "lk_a x = a" "ca_request_id c = rid" "at_candidate_id a = cid"
    unfolding lock_attempt_def by (elim option_failE) (auto split: prod.splits if_splits)
  with find_attemptD [OF a] find_candidateD [OF c] find_requestD [OF r] show "rows_of x s" by (auto simp: rows_of_def)
qed

lemma lockArtifactAttempt_rows:
  assumes "lockArtifactAttempt s aid = Inr x"
  shows "rows_of x s" "at_id (lk_a x) = aid"
proof -
  from assms obtain a c r where a: "find_attempt aid s = Some a" and c: "find_candidate (at_candidate_id a) s = Some c"
    and r: "find_request (ca_request_id c) s = Some r" and x: "lk_r x = r" "lk_c x = c" "lk_a x = a"
    unfolding lockArtifactAttempt_def by (elim option_failE then_InrE) (auto split: option.splits if_splits)
  with find_attemptD [OF a] find_candidateD [OF c] find_requestD [OF r] show "rows_of x s" "at_id (lk_a x) = aid" by (auto simp: rows_of_def)
qed

lemma rows_describe: "rows_of x s \<Longrightarrow> open_candidate (ca_state (lk_c x)) \<Longrightarrow> describes x s"
  by (simp add: rows_of_def describes_def)

lemma held_describe:
  assumes ok: "dispatch_ok s" and x: "rows_of x s" and g: "dr_generation (lk_r x) = ca_generation (lk_c x)" and h: "held_state (dr_state (lk_r x))"
  shows "describes x s"
proof (rule rows_describe [OF x])
  show "open_candidate (ca_state (lk_c x))"
    using x g by (intro current_open(1) [OF ok _ h]) (auto simp: rows_of_def)
qed

lemma active_describe: "rows_of x s \<Longrightarrow> active_attempt x \<Longrightarrow> describes x s"
  by (rule rows_describe) (auto simp: active_attempt_def open_candidate_def)

section \<open>Advancing\<close>

lemma advance_moves:
  assumes ok: "dispatch_ok s" and d: "describes x s"
    and ks: "(k, st) \<in> {(K_RUNNING, A_RUNNING), (K_UNCERTAIN, A_UNCERTAIN), (K_CANCEL_REQUESTED, A_CANCEL_REQUESTED)}"
    and f: "\<And>a. at_id (f a) = at_id a" "\<And>a. core_attempt_of (f a) = (core_attempt_of a)\<lparr>ka_state := st\<rparr>"
    and s0: "s0 = set_candidate (ca_id (lk_c x)) (\<lambda>c. c\<lparr>ca_state := k\<rparr>) (set_attempt (at_id (lk_a x)) f s)"
    and s1: "core_of s1 = core_of s0" "same_keys s0 s1" "\<And>q. find_candidate q s1 = find_candidate q s0" "\<And>q. find_attempt q s1 = find_attempt q s0"
    and t: "transition env (dr_id (lk_r x)) (the (request_state_of k)) None s1 = Inr s2"
  shows "moves s s2" and "describes x s2"
proof -
  from d obtain r c a where r: "find_request (dr_id (lk_r x)) s = Some r" and c: "find_candidate (ca_id (lk_c x)) s = Some c" "ca_request_id c = dr_id (lk_r x)"
      "open_candidate (ca_state c)" and a: "find_attempt (at_id (lk_a x)) s = Some a" "at_candidate_id a = ca_id (lk_c x)"
      "at_stopped_at (lk_a x) \<noteq> None \<longrightarrow> at_stopped_at a \<noteq> None"
    unfolding describes_def by blast
  have fa: "find_attempt (at_id (lk_a x)) s0 = Some (f a)" and fc: "find_candidate (ca_id (lk_c x)) s0 = Some (c\<lparr>ca_state := k\<rparr>)"
    unfolding s0 using a(1) c(1) f(1) by (simp_all add: find_set_attempt find_set_candidate)
  have e0: "core_of s0 = core_of s\<lparr>k_candidates := (k_candidates (core_of s))(ca_id (lk_c x) \<mapsto> (core_candidate_of c)\<lparr>kc_state := k\<rparr>),
      k_attempts := (k_attempts (core_of s))(at_id (lk_a x) \<mapsto> (core_attempt_of a)\<lparr>ka_state := st\<rparr>)\<rparr>"
    unfolding s0 using a(1) c(1) f by (simp add: core_set_candidate core_set_attempt core_candidate_of_def)
  note ct = core_transition [OF t] and ft = find_transition [OF t]
  have k0: "same_keys s s0" unfolding s0 by (rule same_keys_trans [OF keys_sets(3) [OF f(1)] keys_sets(2)]) simp
  show "moves s s2"
  proof (rule moves_step [OF ok])
    have "core_step (core_of s) (move (kc_request (core_candidate_of c)) (the (request_state_of k))
      (core_of s\<lparr>k_candidates := (k_candidates (core_of s))(ka_candidate (core_attempt_of a) \<mapsto> (core_candidate_of c)\<lparr>kc_state := k\<rparr>),
        k_attempts := (k_attempts (core_of s))(at_id (lk_a x) \<mapsto> (core_attempt_of a)\<lparr>ka_state := st\<rparr>)\<rparr>))"
      by (rule core_step.advance [OF _ _ _ ks]) (use a c in simp_all)
    then show "core_step (core_of s) (core_of s2)" unfolding ct(1) s1(1) e0 using a(2) c(2) by simp
    show "same_keys s s2" using same_keys_trans [OF same_keys_trans [OF k0 s1(2)] ct(2)] .
  qed
  have "ka_candidate (core_attempt_of (f a)) = ka_candidate (core_attempt_of a)" "ka_stopped (core_attempt_of (f a)) = ka_stopped (core_attempt_of a)"
    unfolding f(2) by simp_all
  then have "at_candidate_id (f a) = ca_id (lk_c x)" "at_stopped_at (lk_a x) \<noteq> None \<longrightarrow> at_stopped_at (f a) \<noteq> None" using a by simp_all
  moreover have "\<exists>r'. find_request (dr_id (lk_r x)) s2 = Some r'"
    using ct(3) ft(4) by blast
  moreover have "open_candidate k" using ks by (auto simp: open_candidate_def)
  ultimately show "describes x s2" unfolding describes_def ft(1,2) s1(3,4) fa fc using c(2) by auto
qed

lemma uncertain_moves:
  assumes "dispatch_ok s" "describes x s" "uncertain env x s = Inr s'"
  shows "moves s s'" "describes x s'"
proof -
  note t = assms(3) [unfolded uncertain_def advance_def, folded request_state_of.simps]
  have "transition env (dr_id (lk_r x)) (the (request_state_of K_UNCERTAIN)) None
     (add_event env (dr_id (lk_r x)) None (Lease_expired (at_id (lk_a x)))
       (set_candidate (ca_id (lk_c x)) (\<lambda>c. c\<lparr>ca_state := K_UNCERTAIN\<rparr>) (set_attempt (at_id (lk_a x)) (\<lambda>a. a\<lparr>at_state := A_UNCERTAIN\<rparr>) s))) = Inr s'"
    using assms(3) by (simp add: uncertain_def advance_def)
  note m = advance_moves [OF assms(1,2) _ _ _ refl core_of_quiet(2) keys_quiet(2) _ _ this, of A_UNCERTAIN]
  show "moves s s'" by (rule m(1)) (simp_all add: core_attempt_of_def)
  show "describes x s'" by (rule m(2)) (simp_all add: core_attempt_of_def)
qed

lemma cancelForStop_moves:
  assumes "dispatch_ok s" "describes x s" "cancelForStop env x reason s = Inr s'"
  shows "moves s s'"
proof -
  have "transition env (dr_id (lk_r x)) (the (request_state_of K_CANCEL_REQUESTED)) None
     (add_event env (dr_id (lk_r x)) None (Stop_required (at_id (lk_a x)) reason)
       (set_candidate (ca_id (lk_c x)) (\<lambda>c. c\<lparr>ca_state := K_CANCEL_REQUESTED\<rparr>)
         (set_attempt (at_id (lk_a x)) (\<lambda>a. a\<lparr>at_state := A_CANCEL_REQUESTED, at_revoked_at := coalesce (at_revoked_at a) (Some (de_now env))\<rparr>) s))) = Inr s'"
    using assms(3) by (simp add: cancelForStop_def advance_def)
  from advance_moves(1) [OF assms(1,2) _ _ _ refl core_of_quiet(2) keys_quiet(2) _ _ this, of A_CANCEL_REQUESTED]
  show ?thesis by (simp add: core_attempt_of_def)
qed

lemma beat_moves: "dispatch_ok s \<Longrightarrow> moves s (set_attempt aid (\<lambda>a. a\<lparr>at_heartbeat_at := t\<rparr>) s)"
  by (rule moves_quiet) (simp_all add: core_touch_attempt core_attempt_of_def keys_sets(3))

section \<open>Start, renewal, reconciliation, sweep\<close>

theorem start_moves:
  assumes ok: "dispatch_ok s"
  shows "moves s (fst (startDispatchAttempt env actor p scope s))"
  unfolding startDispatchAttempt_def
proof (rule transaction_moves [OF ok])
  fix s' y assume j: "start_transaction env actor p scope s = Inr (s', y)"
  from j obtain x where l: "lock_attempt s (ap_request_id p) (ap_candidate_id p) (ap_attempt_id p) = Inr x"
    and act: "active_attempt x"
    and t: "(if at_state (lk_a x) = A_CLAIMED then
              transition env (dr_id (lk_r x)) D_RUNNING None
                (add_event env (dr_id (lk_r x)) None (Started_scope (at_id (lk_a x)) scope)
                  (on_job (ca_job_id (lk_c x)) (\<lambda>j. j\<lparr>j_status := J_RUNNING, j_started_at := Some (de_now env)\<rparr>)
                  (advance env x (\<lambda>y. y\<lparr>at_state := A_RUNNING, at_scope_id := Some (ru_scopeId scope), at_started_at := Some (de_now env),
                     at_heartbeat_at := Some (de_now env)\<rparr>) K_RUNNING s)))
            else Inr s) = Inr s'"
    unfolding start_transaction_def Let_def by (elim then_InrE if_failE) auto
  note d = active_describe [OF lock_attempt_rows [OF l] act]
  show "moves s s'"
  proof (cases "at_state (lk_a x) = A_CLAIMED")
    case False
    then show ?thesis using t moves_refl [OF ok] by simp
  next
    case True
    then have "transition env (dr_id (lk_r x)) (the (request_state_of K_RUNNING)) None
                (add_event env (dr_id (lk_r x)) None (Started_scope (at_id (lk_a x)) scope)
                  (on_job (ca_job_id (lk_c x)) (\<lambda>j. j\<lparr>j_status := J_RUNNING, j_started_at := Some (de_now env)\<rparr>)
                  (set_candidate (ca_id (lk_c x)) (\<lambda>c. c\<lparr>ca_state := K_RUNNING\<rparr>) (set_attempt (at_id (lk_a x)) (\<lambda>y. y\<lparr>at_state := A_RUNNING, at_scope_id := Some (ru_scopeId scope), at_started_at := Some (de_now env),
                     at_heartbeat_at := Some (de_now env)\<rparr>) s)))) = Inr s'"
      using t by (simp add: advance_def)
    from advance_moves(1) [OF ok d _ _ _ refl _ same_keys_trans [OF keys_quiet(3) keys_quiet(2)] _ _ this, of A_RUNNING]
    show ?thesis by (simp add: core_attempt_of_def core_of_quiet)
  qed
qed

lemma renew_rest_moves:
  assumes ok: "dispatch_ok s" and d: "describes x s" and j: "renew_rest env actor x s = Inr (s', b)"
  shows "moves s s'"
proof (cases "authorize_attempt env actor x Op_start s")
  case (Inl e)
  then have "cancelForStop env x ''authorization_unavailable'' s = Inr s'"
    using j by (auto simp: renew_rest_def and_then_Inr_iff split: if_splits)
  then show ?thesis by (rule cancelForStop_moves [OF ok d])
next
  case (Inr profile)
  show ?thesis
  proof (cases "overrun env (lk_a x) profile")
    case True
    then have "cancelForStop env x ''maximum_duration'' s = Inr s'" using j Inr by (auto simp: renew_rest_def and_then_Inr_iff)
    then show ?thesis by (rule cancelForStop_moves [OF ok d])
  next
    case False
    then have "s' = set_attempt (at_id (lk_a x)) (\<lambda>a. a\<lparr>at_heartbeat_at := Some (de_now env)\<rparr>) s" using j Inr by (simp add: renew_rest_def)
    then show ?thesis using beat_moves [OF ok] by simp
  qed
qed

lemma as_uncertain_describes: "describes (as_uncertain x) s = describes x s"
  by (simp add: describes_def as_uncertain_def)

theorem renew_moves:
  assumes ok: "dispatch_ok s"
  shows "moves s (fst (renewDispatchAttempt env actor p scopeId s))"
  unfolding renewDispatchAttempt_def
proof (rule transaction_moves [OF ok])
  fix s' y assume j: "renew_transaction env actor p scopeId s = Inr (s', y)"
  then obtain x where l: "lock_attempt s (ap_request_id p) (ap_candidate_id p) (ap_attempt_id p) = Inr x"
    and j2: "(if \<not> active_attempt x \<or> \<not> live_states x then Inr (s, True)
       else if at_scope_id (lk_a x) \<noteq> Some scopeId then Inl DISPATCH_FORBIDDEN
       else if at_state (lk_a x) \<noteq> A_UNCERTAIN \<and> lease_over env (lk_a x)
       then and_then (uncertain env x s) (\<lambda>s'. renew_rest env actor (as_uncertain x) s')
       else renew_rest env actor x s) = Inr (s', y)"
    unfolding renew_transaction_def by (elim then_InrE)
  show "moves s s'"
  proof (cases "\<not> active_attempt x \<or> \<not> live_states x")
    case True
    then show ?thesis using j2 moves_refl [OF ok] by simp
  next
    case False
    note d = active_describe [OF lock_attempt_rows [OF l]]
    from False have d: "describes x s" using d by simp
    from j2 have j3: "(if at_state (lk_a x) \<noteq> A_UNCERTAIN \<and> lease_over env (lk_a x)
       then and_then (uncertain env x s) (\<lambda>s'. renew_rest env actor (as_uncertain x) s')
       else renew_rest env actor x s) = Inr (s', y)" unfolding if_not_P [OF False] by (rule if_failE)
    show ?thesis
    proof (cases "at_state (lk_a x) \<noteq> A_UNCERTAIN \<and> lease_over env (lk_a x)")
      case True
      then obtain t where u: "uncertain env x s = Inr t" and rr: "renew_rest env actor (as_uncertain x) t = Inr (s', y)"
        using j3 by (auto simp: and_then_Inr_iff)
      note um = uncertain_moves [OF ok d u]
      have "moves t s'" using renew_rest_moves [OF moves_ok [OF ok um(1)] _ rr] um(2) as_uncertain_describes by simp
      then show ?thesis using moves_trans um(1) by blast
    next
      case False
      have "renew_rest env actor x s = Inr (s', y)" using j3 unfolding if_not_P [OF False] .
      then show ?thesis by (rule renew_rest_moves [OF ok d])
    qed
  qed
qed

theorem reconcile_moves:
  assumes ok: "dispatch_ok s"
  shows "moves s (fst (reconcileDispatchAttempt env actor p scope s))"
  unfolding reconcileDispatchAttempt_def
proof (rule transaction_moves [OF ok])
  fix s' y assume j: "reconcile_transaction env actor p scope s = Inr (s', y)"
  then obtain x where l: "lock_attempt s (ap_request_id p) (ap_candidate_id p) (ap_attempt_id p) = Inr x"
    and act: "active_attempt x"
    and t: "transition env (dr_id (lk_r x)) D_RUNNING None
             (add_event env (dr_id (lk_r x)) None (Resume_same_attempt (at_id (lk_a x)) (the (at_scope_id (lk_a x))))
               (advance env x (\<lambda>y. y\<lparr>at_state := A_RUNNING, at_heartbeat_at := Some (de_now env)\<rparr>) K_RUNNING s)) = Inr s'"
    unfolding reconcile_transaction_def Let_def by (elim then_InrE if_failE) auto
  note d = active_describe [OF lock_attempt_rows [OF l] act]
  have "transition env (dr_id (lk_r x)) (the (request_state_of K_RUNNING)) None
             (add_event env (dr_id (lk_r x)) None (Resume_same_attempt (at_id (lk_a x)) (the (at_scope_id (lk_a x))))
               (set_candidate (ca_id (lk_c x)) (\<lambda>c. c\<lparr>ca_state := K_RUNNING\<rparr>) (set_attempt (at_id (lk_a x)) (\<lambda>y. y\<lparr>at_state := A_RUNNING, at_heartbeat_at := Some (de_now env)\<rparr>) s))) = Inr s'"
    using t by (simp add: advance_def)
  from advance_moves(1) [OF ok d _ _ _ refl core_of_quiet(2) keys_quiet(2) _ _ this, of A_RUNNING]
  show "moves s s'" by (simp add: core_attempt_of_def)
qed

lemma live_held: "live_states x \<Longrightarrow> held_state (dr_state (lk_r x))"
  by (auto simp: live_states_def held_state_def)

lemma expire_moves:
  assumes ok: "dispatch_ok s" and j: "expire_transaction env ids s = Inr (s', b)"
  shows "moves s s'"
proof -
  obtain rid cid aid where ids: "ids = (rid, cid, aid)" by (cases ids)
  obtain x where l: "lock_attempt s rid cid aid = Inr x"
    and j2: "(if dr_generation (lk_r x) \<noteq> ca_generation (lk_c x) \<or> \<not> live_states x then Inr (s, False)
        else if at_stopped_at (lk_a x) \<noteq> None \<and> stop_accepted (dr_id (lk_r x)) (at_id (lk_a x)) s \<noteq> [] then Inr (s, False)
        else case find_by pf_id (ca_profile_revision_id (lk_c x)) (d_profiles s) of
          None \<Rightarrow> Inl (Exception ''TypeError'')
        | Some p \<Rightarrow>
            if overrun env (lk_a x) (pf_config p) then and_then (cancelForStop env x ''maximum_duration'' s) (\<lambda>s'. Inr (s', False))
            else if at_state (lk_a x) = A_UNCERTAIN \<or> at_heartbeat_at (lk_a x) = None \<or> \<not> lease_over env (lk_a x) then Inr (s, False)
            else and_then (uncertain env x s) (\<lambda>s'. Inr (s', True))) = Inr (s', b)"
    using j unfolding expire_transaction_def ids prod.case by (rule then_InrE)
  show ?thesis
  proof (cases "dr_generation (lk_r x) \<noteq> ca_generation (lk_c x) \<or> \<not> live_states x")
    case True
    then show ?thesis using j2 moves_refl [OF ok] by simp
  next
    case False
    then have d: "describes x s" using held_describe [OF ok lock_attempt_rows [OF l]] live_held by blast
    from j2 False consider "s' = s" | "cancelForStop env x ''maximum_duration'' s = Inr s'" | "uncertain env x s = Inr s'"
      by (auto simp: and_then_Inr_iff split: option.splits if_splits)
    then show ?thesis using moves_refl [OF ok] cancelForStop_moves [OF ok d] uncertain_moves(1) [OF ok d] by cases auto
  qed
qed

theorem markExpired_moves:
  assumes "dispatch_ok s"
  shows "moves s (fst (markExpiredAttempts env limit s))"
proof -
  have "dispatch_ok s \<Longrightarrow> moves s (fst (expire_all env page s))" for page s
  proof (induction page arbitrary: s)
    case (Cons ids page)
    let ?t = "dispatch_transaction s (expire_transaction env ids s)"
    have m: "moves s (fst ?t)" using expire_moves [OF Cons.prems] by (rule transaction_moves [OF Cons.prems])
    have "moves (fst ?t) (fst (expire_all env page (fst ?t)))" by (rule Cons.IH [OF moves_ok [OF Cons.prems m]])
    with m show ?case by (cases ?t; cases "snd ?t") (auto split: prod.splits intro: moves_trans)
  qed (simp add: moves_refl)
  then show ?thesis unfolding markExpiredAttempts_def using assms by blast
qed

end
