(* ===== verification/Dispatch_Sim_End.thy ===== *)
theory Dispatch_Sim_End
  imports Dispatch_Sim_Run
begin

text \<open>
  Stops, results, cancellation and recovery take steps of the abstract service. A submitted stop does so when it is not stale:
  when the request is not being cancelled for a later attempt.
\<close>

section \<open>Marks of a stop\<close>

lemma core_insertArtifact:
  assumes "insertArtifact env rid aid k bytes sha by bound nid s = Inr (s', n)"
  shows "core_of s' = core_of s" "same_keys s s'" "find_request q s' = find_request q s" "find_candidate q s' = find_candidate q s"
    "find_attempt q s' = find_attempt q s"
proof -
  have "s' = s \<or> (\<exists>e ars. s' = add_event_by env by rid aid e (s\<lparr>d_artifacts := ars\<rparr>))"
    using assms unfolding insertArtifact_def by (auto simp: and_then_Inr_iff Let_def split: if_splits option.splits)
  then show "core_of s' = core_of s" "same_keys s s'" "find_request q s' = find_request q s" "find_candidate q s' = find_candidate q s"
    "find_attempt q s' = find_attempt q s"
    by (auto simp: core_of_quiet core_of_frame find_request_def find_candidate_def find_attempt_def add_event_by_def
        intro: same_keys_trans [OF keys_frame(4) keys_frame(1)])
qed

text \<open>The states that agree with \<open>s\<close> on everything the abstraction reads.\<close>

definition quiet :: "dispatch \<Rightarrow> dispatch \<Rightarrow> bool" where
  "quiet s t \<longleftrightarrow> core_of t = core_of s \<and> same_keys s t \<and> (\<forall>q. find_request q t = find_request q s) \<and>
     (\<forall>q. find_candidate q t = find_candidate q s) \<and> (\<forall>q. find_attempt q t = find_attempt q s)"

lemma quiet_events: "quiet s (add_event_by env by rid aid p s)" "quiet s (add_event env rid aid p s)"
  by (simp_all add: quiet_def core_simps)

lemma quiet_artifact: "insertArtifact env rid aid k bytes sha by bound nid s = Inr (s', n) \<Longrightarrow> quiet s s'"
  using core_insertArtifact by (simp add: quiet_def)

lemma quiet_trans: "quiet s t \<Longrightarrow> quiet t u \<Longrightarrow> quiet s u"
  unfolding quiet_def using same_keys_trans by auto

lemma quiet_moves: "dispatch_ok s \<Longrightarrow> quiet s t \<Longrightarrow> moves s t"
  by (simp add: quiet_def moves_quiet)

lemma quiet_describes: "quiet s t \<Longrightarrow> describes x s \<Longrightarrow> describes x t"
  by (simp add: quiet_def describes_def)

lemma mark_stopped_moves:
  assumes ok: "dispatch_ok s" and a: "find_attempt aid s = Some a"
  shows "moves s (mark_stopped env aid t s)"
proof (rule moves_step [OF ok])
  have e: "core_of (mark_stopped env aid t s) = core_of s\<lparr>k_attempts := (k_attempts (core_of s))(aid \<mapsto> (core_attempt_of a)\<lparr>ka_stopped := True\<rparr>)\<rparr>"
    using a by (simp add: mark_stopped_def core_set_attempt core_attempt_of_def)
  show "core_step (core_of s) (core_of (mark_stopped env aid t s))"
    unfolding e by (rule core_step.stop) (simp add: a)
  show "same_keys s (mark_stopped env aid t s)" unfolding mark_stopped_def by (rule keys_sets(3)) simp
qed

lemma mark_stopped_describes:
  assumes "describes x s"
  shows "describes (as_stopped t x) (mark_stopped env (at_id (lk_a x)) t s)" "describes x (mark_stopped env (at_id (lk_a x)) t s)"
  using assms by (auto simp: describes_def mark_stopped_def as_stopped_def find_set_attempt)

text \<open>What an accepted stop does: nothing when it was accepted before, else it marks the attempt.\<close>

definition stop_step :: "dispatch_env \<Rightarrow> artifact_attempt \<Rightarrow> dispatch \<Rightarrow> dispatch \<Rightarrow> artifact_attempt \<Rightarrow> bool" where
  "stop_step env x s s1 x1 \<longleftrightarrow> s1 = s \<and> x1 = x \<or> (\<exists>t u. quiet s u \<and> s1 = mark_stopped env (at_id (lk_a x)) t u \<and> x1 = as_stopped t x)"

lemma stop_step_new: "quiet s u \<Longrightarrow> stop_step env x s (mark_stopped env (at_id (lk_a x)) t u) (as_stopped t x)"
  by (auto simp: stop_step_def)

lemma stop_step_old: "stop_step env x s s x"
  by (simp add: stop_step_def)

lemmas stop_step_intros = stop_step_old stop_step_new [OF quiet_events(1)] stop_step_new [OF quiet_events(2)]

lemma stop_step_moves:
  assumes ok: "dispatch_ok s" and x: "rows_of x s" and st: "stop_step env x s s1 x1"
  shows "moves s s1" and "describes x s \<Longrightarrow> describes x1 s1" and "lk_r x1 = lk_r x" and "lk_c x1 = lk_c x" and "lk_p x1 = lk_p x"
    and "at_id (lk_a x1) = at_id (lk_a x)"
proof -
  have a: "find_attempt (at_id (lk_a x)) s = Some (lk_a x)" using x by (simp add: rows_of_def)
  from st show "lk_r x1 = lk_r x" "lk_c x1 = lk_c x" "lk_p x1 = lk_p x" "at_id (lk_a x1) = at_id (lk_a x)"
    by (auto simp: stop_step_def as_stopped_def)
  from st show "moves s s1"
    unfolding stop_step_def
  proof (elim disjE exE conjE)
    fix t u assume u: "quiet s u" "s1 = mark_stopped env (at_id (lk_a x)) t u"
    then have "find_attempt (at_id (lk_a x)) u = Some (lk_a x)" using a by (simp add: quiet_def)
    from mark_stopped_moves [OF moves_ok [OF ok quiet_moves [OF ok u(1)]] this] show ?thesis
      using u(2) moves_trans [OF quiet_moves [OF ok u(1)]] by simp
  qed (use moves_refl [OF ok] in simp)
  show "describes x1 s1" if "describes x s"
    using st quiet_describes [OF _ that] mark_stopped_describes(1) that unfolding stop_step_def by blast
qed

lemma accept_stop_step:
  assumes "acceptStopInTransaction env x e s = Inr (s1, k, x1)"
  shows "stop_step env x s s1 x1"
proof -
  from assms obtain y :: artifact and body :: observation where j: "(case stop_accepted (dr_id (lk_r x)) (at_id (lk_a x)) s of
                   [] \<Rightarrow>
                     (let kind = (if at_scope_id (lk_a x) = None then ''prepared_created_nonlaunch'' else ''registered_started_scope'');
                          s' = add_event_by env (By_producer ''supervisor'' (sl_owner_user_id (lk_s x)) (Some (is_supervisor_token_id (ic_scope (lk_i x)))) (Some (ic_id (lk_i x)))) (dr_id (lk_r x))
                            (Some (at_id (lk_a x))) (Stop_accepted kind (Some (ar_id y)) (Some (se_sha256 e)) (so_binding body) (Some (so_scope body))) s
                      in Inr (mark_stopped env (at_id (lk_a x)) (se_observed_at e) s', next_event env s, as_stopped (se_observed_at e) x))
                 | old # others \<Rightarrow>
                     if others \<noteq> [] \<or> (case ev_payload old of Stop_accepted _ aid sha b scope \<Rightarrow>
                          aid \<noteq> Some (ar_id y) \<or> sha \<noteq> Some (se_sha256 e) \<or> b \<noteq> so_binding body \<or> scope \<noteq> Some (so_scope body) | _ \<Rightarrow> True)
                     then Inl DISPATCH_STATE_CONFLICT else Inr (s, ev_key old, x)) = Inr (s1, k, x1)"
    unfolding acceptStopInTransaction_def by (elim if_failE option_failE) (rule that)
  then show ?thesis
    unfolding Let_def
    by (cases "stop_accepted (dr_id (lk_r x)) (at_id (lk_a x)) s") (auto split: if_splits intro: stop_step_intros)
qed

lemma accept_recovery_step:
  assumes "acceptRecoveryStop env x e s = Inr (s1, k, x1)"
  shows "stop_step env x s s1 x1"
proof (cases "se_kind e = ''container_stopped''")
  case True
  then show ?thesis using assms accept_stop_step by (simp add: acceptRecoveryStop_def)
next
  case False
  from assms obtain y :: artifact and body :: attestation where j: "(case stop_accepted (dr_id (lk_r x)) (at_id (lk_a x)) s of
                     [] \<Rightarrow> Inr (mark_stopped env (at_id (lk_a x)) (se_observed_at e) (add_event env (dr_id (lk_r x)) (Some (at_id (lk_a x)))
                             (Stop_accepted (se_kind e) (Some (ar_id y)) (Some (se_sha256 e)) (rt_binding body) (Some (rt_scope body))) s),
                             next_event env s, as_stopped (se_observed_at e) x)
                   | old # others \<Rightarrow>
                       if others \<noteq> [] \<or> (case ev_payload old of Stop_accepted _ aid _ _ _ \<Rightarrow> aid \<noteq> Some (ar_id y) | _ \<Rightarrow> True)
                       then Inl DISPATCH_STATE_CONFLICT else Inr (s, ev_key old, x)) = Inr (s1, k, x1)"
    unfolding acceptRecoveryStop_def if_not_P [OF False] by (elim if_failE option_failE then_InrE) (rule that)
  then show ?thesis
    by (cases "stop_accepted (dr_id (lk_r x)) (at_id (lk_a x)) s") (auto split: if_splits intro: stop_step_intros)
qed

text \<open>The stop of a claim without a scope: accepted only for an attempt that is the present one.\<close>

lemma never_started_describe: "dispatch_ok s \<Longrightarrow> rows_of x s \<Longrightarrow> never_started x \<Longrightarrow> describes x s"
  by (rule held_describe) (auto simp: never_started_def unstarted_states_def held_state_def)

lemma claim_bound_step:
  assumes "acceptClaimBoundStopInTransaction env x reason observed a nid s = Inr (s1, k, fresh, x1)"
  shows "stop_step env x s s1 x1" and "fresh \<Longrightarrow> never_started x"
proof -
  obtain t where t: "bounded_stop_reason reason" "snd observed = Some t"
    using assms unfolding acceptClaimBoundStopInTransaction_def by (cases "bounded_stop_reason reason"; cases "snd observed") auto
  have "stop_step env x s s1 x1 \<and> (fresh \<longrightarrow> never_started x)"
  proof (cases "stop_accepted (dr_id (lk_r x)) (at_id (lk_a x)) s")
    case Nil
    have n: "never_started x"
    proof (rule ccontr)
      assume "\<not> never_started x"
      then show False using assms t Nil unfolding acceptClaimBoundStopInTransaction_def Let_def by simp
    qed
    obtain sA artifactId e where i: "insertArtifact env (dr_id (lk_r x)) (Some (at_id (lk_a x))) ''__claim_bound_stop''
        (utf8 (canonicalResult (claim_bound_body x reason (fst observed)))) (de_sha256 env (utf8 (canonicalResult (claim_bound_body x reason (fst observed)))))
        (By_producer ''supervisor'' (da_userId a) (da_tokenId a) (Some (ic_id (lk_i x))))
        (Some \<lparr>sb_binding = binding_of x, sb_scope = None, sb_slotId = None, sb_provenance = None\<rparr>) nid s = Inr (sA, artifactId)"
      and s1: "s1 = mark_stopped env (at_id (lk_a x)) t (add_event_by env (By_producer ''supervisor'' (da_userId a) (da_tokenId a) (Some (ic_id (lk_i x))))
        (dr_id (lk_r x)) (Some (at_id (lk_a x))) e sA)" "x1 = as_stopped t x"
      using assms t Nil unfolding acceptClaimBoundStopInTransaction_def Let_def by (auto simp: and_then_Inr_iff split: if_splits)
    have "quiet s (add_event_by env (By_producer ''supervisor'' (da_userId a) (da_tokenId a) (Some (ic_id (lk_i x)))) (dr_id (lk_r x)) (Some (at_id (lk_a x))) e sA)"
      by (rule quiet_trans [OF quiet_artifact [OF i] quiet_events(1)])
    with s1 n show ?thesis unfolding stop_step_def by blast
  next
    case (Cons old others)
    then have "s1 = s \<and> x1 = x \<and> \<not> fresh"
      using assms t unfolding acceptClaimBoundStopInTransaction_def Let_def by (auto split: if_splits)
    then show ?thesis by (simp add: stop_step_def)
  qed
  then show "stop_step env x s s1 x1" "fresh \<Longrightarrow> never_started x" by simp_all
qed

lemma signed_off_step:
  assumes "acceptSignedOffUnstartedStopInTransaction env x s = Some (s1, x1)"
  shows "stop_step env x s s1 x1" and "never_started x"
  using assms unfolding acceptSignedOffUnstartedStopInTransaction_def Let_def
  by (auto split: if_splits intro: stop_step_intros)

section \<open>Closing at a stop\<close>

lemma finishStopped_moves:
  assumes ok: "dispatch_ok s" and d: "dr_state (lk_r x) = D_CANCEL_REQUESTED \<Longrightarrow> describes x s"
    and j: "finishStoppedCancellation env x nid s = Inr s'"
  shows "moves s s'"
proof (cases "dr_state (lk_r x) \<noteq> D_CANCEL_REQUESTED \<or> unresolvedPublication (dr_id (lk_r x)) s \<or> result_of (dr_id (lk_r x)) s \<noteq> None")
  case True
  then show ?thesis using j moves_refl [OF ok] by (simp add: finishStoppedCancellation_def)
next
  case False
  then obtain k where "finishResult env x stopped_cancellation (result_hash env stopped_cancellation) nid s = Inr (s', k)"
    using j by (auto simp: finishStoppedCancellation_def and_then_Inr_iff)
  then show ?thesis using finishResult_moves [OF ok d] False by blast
qed

lemma close_at_stop_moves:
  assumes ok: "dispatch_ok s" and d: "describes x s" and j: "close_at_stop env x result nid s = Inr s'"
  shows "moves s s'"
proof (cases "dr_state (lk_r x) = D_CANCEL_REQUESTED")
  case True
  then show ?thesis using j finishStopped_moves [OF ok d] by (simp add: close_at_stop_def)
next
  case False
  then obtain k where "finishResult env x result (result_hash env result) nid s = Inr (s', k)"
    using j by (auto simp: close_at_stop_def and_then_Inr_iff)
  then show ?thesis by (rule finishResult_moves [OF ok d])
qed

text \<open>
  A stale stop: the stop of an attempt of an earlier generation while the request is being cancelled. The code does not
  compare the generations there, and would close the request with the earlier attempt.
\<close>

definition stale_stop :: "id \<Rightarrow> dispatch \<Rightarrow> bool" where
  "stale_stop aid s \<longleftrightarrow> (case lockArtifactAttempt s aid of Inl e \<Rightarrow> False
     | Inr x \<Rightarrow> dr_state (lk_r x) = D_CANCEL_REQUESTED \<and> dr_generation (lk_r x) \<noteq> ca_generation (lk_c x))"

lemma accepted_stop_moves:
  assumes ok: "dispatch_ok s" and st: "\<not> stale_stop aid s" and l: "lockArtifactAttempt s aid = Inr x"
    and acc: "acceptStopInTransaction env x e s = Inr (s1, k, x1)" and f: "finishStoppedCancellation env x1 nid s1 = Inr s'"
  shows "moves s s'"
proof -
  note m = stop_step_moves [OF ok lockArtifactAttempt_rows(1) [OF l] accept_stop_step [OF acc]]
  have "describes x1 s1" if "dr_state (lk_r x1) = D_CANCEL_REQUESTED"
  proof (rule m(2), rule held_describe [OF ok lockArtifactAttempt_rows(1) [OF l]])
    show "dr_generation (lk_r x) = ca_generation (lk_c x)" using st l that m(3) by (simp add: stale_stop_def)
    show "held_state (dr_state (lk_r x))" using that m(3) by (simp add: held_state_def)
  qed
  then have "moves s1 s'" by (rule finishStopped_moves [OF moves_ok [OF ok m(1)] _ f])
  with m(1) show ?thesis by (rule moves_trans)
qed

theorem submitStop_moves:
  assumes ok: "dispatch_ok s" and st: "\<not> stale_stop (ap_attempt_id p) s"
  shows "moves s (fst (submitStop env a p e nid s))"
  unfolding submitStop_def
proof (rule transaction_moves [OF ok])
  fix s' k assume "stop_transaction env a p e nid s = Inr (s', k)"
  then show "moves s s'"
    using accepted_stop_moves [OF ok st] unfolding stop_transaction_def by (auto simp: and_then_Inr_iff)
qed

theorem historicalStop_moves:
  assumes ok: "dispatch_ok s" and st: "\<not> stale_stop (bi_attemptId b) s"
  shows "moves s (fst (historicalSubmitStop env a b scope e nid s))"
  unfolding historicalSubmitStop_def
proof (rule transaction_moves [OF ok])
  fix s' k assume "historical_stop_transaction env a b scope e nid s = Inr (s', k)"
  then show "moves s s'"
    using accepted_stop_moves [OF ok st] unfolding historical_stop_transaction_def by (auto simp: and_then_Inr_iff)
qed

theorem submitClaimBoundStop_moves:
  assumes ok: "dispatch_ok s"
  shows "moves s (fst (submitClaimBoundStop env a p reason observed artifactId nid s))"
  unfolding submitClaimBoundStop_def
proof (rule transaction_moves [OF ok])
  fix s' k assume j: "claim_bound_transaction env a p reason observed artifactId nid s = Inr (s', k)"
  then obtain x s1 fresh x1 where l: "lockArtifactAttempt s (ap_attempt_id p) = Inr x"
    and acc: "acceptClaimBoundStopInTransaction env x reason observed a artifactId s = Inr (s1, k, fresh, x1)"
    and f: "if fresh then close_at_stop env x1 (claimBoundFailedResult reason) nid s1 = Inr s' else s' = s1"
    unfolding claim_bound_transaction_def by (auto simp: and_then_Inr_iff split: if_splits)
  note cb = claim_bound_step [OF acc] and x = lockArtifactAttempt_rows(1) [OF l]
  note m = stop_step_moves [OF ok x cb(1)]
  show "moves s s'"
  proof (cases fresh)
    case True
    then have "describes x1 s1" using m(2) never_started_describe [OF ok x] cb(2) by blast
    then have "moves s1 s'" using f True close_at_stop_moves [OF moves_ok [OF ok m(1)]] by simp
    with m(1) show ?thesis by (rule moves_trans)
  qed (use f m(1) in simp)
qed

lemma orphan_moves:
  assumes ok: "dispatch_ok s" and j: "orphan_transaction env aid nid s = Inr (s', b)"
  shows "moves s s'"
proof -
  obtain x where l: "lockArtifactAttempt s aid = Inr x" and j2: "(case acceptSignedOffUnstartedStopInTransaction env x s of
         None \<Rightarrow> Inr (s, False)
       | Some (s1, x1) \<Rightarrow> and_then (close_at_stop env x1 signed_off_result nid s1) (\<lambda>s2. Inr (s2, True))) = Inr (s', b)"
    using j unfolding orphan_transaction_def by (rule then_InrE)
  note x = lockArtifactAttempt_rows(1) [OF l]
  show ?thesis
  proof (cases "acceptSignedOffUnstartedStopInTransaction env x s")
    case None
    then show ?thesis using j2 moves_refl [OF ok] by simp
  next
    case (Some z)
    then obtain s1 x1 where acc: "acceptSignedOffUnstartedStopInTransaction env x s = Some (s1, x1)" by (cases z) auto
    then have c: "close_at_stop env x1 signed_off_result nid s1 = Inr s'" using j2 by (auto simp: and_then_Inr_iff)
    note so = signed_off_step [OF acc]
    note m = stop_step_moves [OF ok x so(1)]
    have "moves s1 s'" by (rule close_at_stop_moves [OF moves_ok [OF ok m(1)] m(2) [OF never_started_describe [OF ok x so(2)]] c])
    with m(1) show ?thesis by (rule moves_trans)
  qed
qed

theorem orphans_moves:
  assumes "dispatch_ok s"
  shows "moves s (fst (closeSignedOffUnstartedAttempts env limit fresh s))"
proof -
  have "dispatch_ok s \<Longrightarrow> moves s (fst (close_orphans env page s))" for page s
  proof (induction page arbitrary: s)
    case (Cons z page)
    obtain aid nid where z: "z = (aid, nid)" by (cases z)
    let ?t = "dispatch_transaction s (orphan_transaction env aid nid s)"
    have m: "moves s (fst ?t)" using orphan_moves [OF Cons.prems] by (rule transaction_moves [OF Cons.prems])
    have "moves (fst ?t) (fst (close_orphans env page (fst ?t)))" by (rule Cons.IH [OF moves_ok [OF Cons.prems m]])
    with m show ?case unfolding z by (cases ?t; cases "snd ?t") (auto split: prod.splits intro: moves_trans)
  qed (simp add: moves_refl)
  then show ?thesis unfolding closeSignedOffUnstartedAttempts_def Let_def using assms by blast
qed

end
