(* ===== verification/Dispatch_Sim_Close.thy ===== *)
theory Dispatch_Sim_Close
  imports Dispatch_Sim_End
begin

text \<open>The acceptance of a result, a cancellation and a recovery take steps of the abstract service.\<close>

section \<open>Results\<close>

lemma accept_transaction_cases:
  assumes "accept_transaction env a au original verified nid s = Inr (s', y)"
  obtains (replay) x old where "lockArtifactAttempt s (authority_attempt au) = Inr x" "s' = fst (terminal_receipt env x original old s)"
  | (result) x result k where "lockArtifactAttempt s (authority_attempt au) = Inr x" "dr_generation (lk_r x) = ca_generation (lk_c x)"
      "dr_state (lk_r x) \<in> {D_CANCEL_REQUESTED, D_CLAIMED, D_RUNNING}"
      "finishResult env x result (result_hash env original) nid (if dr_state (lk_r x) = D_CANCEL_REQUESTED
         then add_event env (dr_id (lk_r x)) (Some (at_id (lk_a x))) (Late_result (result_hash env original) original) s else s) = Inr (s', k)"
proof -
  obtain x where l: "lockArtifactAttempt s (authority_attempt au) = Inr x"
    using assms unfolding accept_transaction_def by (rule then_InrE)
  have "result_of (dr_id (lk_r x)) s \<noteq> None \<Longrightarrow> \<exists>old. s' = fst (terminal_receipt env x original old s)"
    using assms by (auto simp: accept_transaction_def l and_then_Inr_iff Let_def) (metis fst_conv)
  moreover have "result_of (dr_id (lk_r x)) s = None \<Longrightarrow> dr_generation (lk_r x) = ca_generation (lk_c x) \<and>
      dr_state (lk_r x) \<in> {D_CANCEL_REQUESTED, D_CLAIMED, D_RUNNING} \<and>
      (\<exists>result k. finishResult env x result (result_hash env original) nid (if dr_state (lk_r x) = D_CANCEL_REQUESTED
         then add_event env (dr_id (lk_r x)) (Some (at_id (lk_a x))) (Late_result (result_hash env original) original) s else s) = Inr (s', k))"
    using assms by (auto simp: accept_transaction_def l and_then_Inr_iff Let_def split: if_splits)
  ultimately have c: "(\<exists>old. s' = fst (terminal_receipt env x original old s)) \<or> dr_generation (lk_r x) = ca_generation (lk_c x) \<and>
      dr_state (lk_r x) \<in> {D_CANCEL_REQUESTED, D_CLAIMED, D_RUNNING} \<and>
      (\<exists>result k. finishResult env x result (result_hash env original) nid (if dr_state (lk_r x) = D_CANCEL_REQUESTED
         then add_event env (dr_id (lk_r x)) (Some (at_id (lk_a x))) (Late_result (result_hash env original) original) s else s) = Inr (s', k))"
    by blast
  from l c show thesis using replay result by blast
qed

lemma accept_transaction_moves:
  assumes ok: "dispatch_ok s"
  shows "moves s (fst (dispatch_transaction s (accept_transaction env a au original verified nid s)))"
proof (rule transaction_moves [OF ok])
  fix s' y assume j: "accept_transaction env a au original verified nid s = Inr (s', y)"
  then show "moves s s'"
  proof (cases rule: accept_transaction_cases)
    case (replay x old)
    have "fst (terminal_receipt env x original old s) = s \<or> (\<exists>e. fst (terminal_receipt env x original old s) =
        add_event env (dr_id (lk_r x)) (Some (at_id (lk_a x))) e s)"
      by (auto simp: terminal_receipt_def Let_def split: list.splits)
    then show ?thesis using replay(2) moves_refl [OF ok] quiet_moves [OF ok quiet_events(2)] by auto
  next
    case (result x res k)
    let ?s1 = "if dr_state (lk_r x) = D_CANCEL_REQUESTED then add_event env (dr_id (lk_r x)) (Some (at_id (lk_a x))) (Late_result (result_hash env original) original) s else s"
    have q: "quiet s ?s1" using quiet_events(2) by (simp add: quiet_def)
    have "held_state (dr_state (lk_r x))" using result(3) by (auto simp: held_state_def)
    then have "describes x ?s1" by (intro quiet_describes [OF q] held_describe [OF ok lockArtifactAttempt_rows(1) [OF result(1)] result(2)])
    then have "moves ?s1 s'" using result(4) by (rule finishResult_moves [OF moves_ok [OF ok quiet_moves [OF ok q]]])
    with quiet_moves [OF ok q] show ?thesis by (rule moves_trans)
  qed
qed

theorem accept_moves:
  assumes "dispatch_ok s"
  shows "moves s (fst (acceptDispatchResult env a p original verified nid s))"
    and "moves s (fst (historicalSubmitResult env a b scope original verified nid s))"
proof -
  show "moves s (fst (acceptDispatchResult env a p original verified nid s))"
    unfolding acceptDispatchResult_def by (rule accept_transaction_moves [OF assms])
  have "fst (historicalSubmitResult env a b scope original verified nid s) = fst (acceptHistoricalResult env a b scope original verified nid s)"
    by (simp add: historicalSubmitResult_def split: prod.splits sum.splits)
  then show "moves s (fst (historicalSubmitResult env a b scope original verified nid s))"
    unfolding acceptHistoricalResult_def using accept_transaction_moves [OF assms] by simp
qed

section \<open>Cancellation\<close>

lemma cancel_attempt_moves:
  assumes ok: "dispatch_ok s" and r: "find_request (dr_id r) s = Some r" and c: "open_current r s = Some c" and a: "attempt_of (ca_id c) s = Some a"
    and j: "cancel_attempt env r c (at_id a) nid s = Inr s'"
  shows "moves s s'"
proof -
  obtain x s1 where l: "lockArtifactAttempt s (at_id a) = Inr x"
    and c1: "(if dr_state r = D_CANCEL_REQUESTED then Inr s
        else and_then (transition env (dr_id r) D_CANCEL_REQUESTED None
               (set_candidate (ca_id c) (\<lambda>y. y\<lparr>ca_state := K_CANCEL_REQUESTED\<rparr>)
                 (set_attempt (at_id a) (\<lambda>y. y\<lparr>at_state := A_CANCEL_REQUESTED, at_revoked_at := coalesce (at_revoked_at y) (Some (de_now env))\<rparr>) s)))
               (\<lambda>s1. Inr (add_event env (dr_id r) (Some (at_id a)) Cancel_requested s1))) = Inr s1"
    and c2: "(if at_stopped_at (lk_a x) = None \<or> unresolvedPublication (dr_id r) s1 then Inr s1
         else and_then (finishResult env x cancelled_by_requester (result_hash env cancelled_by_requester) nid s1) (\<lambda>(s2, _). Inr s2)) = Inr s'"
    using j unfolding cancel_attempt_def by (elim then_InrE)
  note x = lockArtifactAttempt_rows [OF l] and oc = open_current_Some [OF ok c]
  have aa: "a \<in> set (d_attempts s)" "at_candidate_id a = ca_id c" using find_list [OF a [unfolded attempt_of_def]] by auto
  have "lk_a x = a" using x attempt_row [OF ok aa(1)] by (simp add: rows_of_def)
  then have "lk_c x = c" using x(1) aa(2) oc(1) by (simp add: rows_of_def)
  then have rr: "lk_r x = r" using x(1) oc(2) r by (simp add: rows_of_def)
  have d: "describes x s" using rows_describe [OF x(1)] \<open>lk_c x = c\<close> oc(4) by simp
  have m: "moves s s1 \<and> describes x s1"
  proof (cases "dr_state r = D_CANCEL_REQUESTED")
    case True
    then show ?thesis using c1 d moves_refl [OF ok] by simp
  next
    case False
    then obtain t where t: "transition env (dr_id (lk_r x)) (the (request_state_of K_CANCEL_REQUESTED)) None
               (set_candidate (ca_id (lk_c x)) (\<lambda>y. y\<lparr>ca_state := K_CANCEL_REQUESTED\<rparr>)
                 (set_attempt (at_id (lk_a x)) (\<lambda>y. y\<lparr>at_state := A_CANCEL_REQUESTED, at_revoked_at := coalesce (at_revoked_at y) (Some (de_now env))\<rparr>) s)) = Inr t"
      and s1: "s1 = add_event env (dr_id r) (Some (at_id a)) Cancel_requested t"
      using c1 rr \<open>lk_c x = c\<close> x(2) by (auto simp: and_then_Inr_iff)
    note am = advance_moves [OF ok d _ _ _ refl refl same_keys_refl refl refl t, of A_CANCEL_REQUESTED]
    have "moves s t" by (rule am(1)) (simp_all add: core_attempt_of_def)
    moreover have "describes x t" by (rule am(2)) (simp_all add: core_attempt_of_def)
    ultimately show ?thesis unfolding s1
      using quiet_describes [OF quiet_events(2)] moves_trans quiet_moves [OF _ quiet_events(2)] moves_ok [OF ok] by blast
  qed
  show ?thesis
  proof (cases "at_stopped_at (lk_a x) = None \<or> unresolvedPublication (dr_id r) s1")
    case True
    then show ?thesis using c2 m by simp
  next
    case False
    then obtain k where f: "finishResult env x cancelled_by_requester (result_hash env cancelled_by_requester) nid s1 = Inr (s', k)"
      using c2 by (auto simp: and_then_Inr_iff)
    have "moves s1 s'" by (rule finishResult_moves [OF moves_ok [OF ok conjunct1 [OF m]] conjunct2 [OF m] f])
    with m show ?thesis using moves_trans by blast
  qed
qed

text \<open>A candidate that was claimed has its attempt, so an unclaimed one is reserved.\<close>

lemma cancel_unclaimed_moves:
  assumes ok: "dispatch_ok s" and r: "find_request (dr_id r) s = Some r" "\<not> terminal_state (dr_state r)"
    and j: "cancel_unclaimed env r (open_current r s) nid s = Inr s'"
  shows "moves s s'"
proof -
  let ?rid = "dr_id r" and ?cand = "open_current r s"
  obtain s1 s2 k s3 e where c1: "(case ?cand of None \<Rightarrow> Inr s
       | Some c \<Rightarrow> if ca_first_claimed_at c \<noteq> None then Inl DISPATCH_STATE_CONFLICT
           else Inr (set_candidate (ca_id c) (\<lambda>y. y\<lparr>ca_state := K_RETIRED\<rparr>) (end_job env J_CANCELLED (ca_job_id c) s))) = Inr s1"
    and i: "insertResult env ?rid None cancelled_by_requester nid s1 = Inr (s2, k)" and t: "transition env ?rid D_CANCELLED (Some k) s2 = Inr s3"
    and s': "s' = add_event env ?rid None e (if managed_task_request r then release_task (di_task_id (dr_input r)) ?rid
        (case ?cand of None \<Rightarrow> s3 | Some c \<Rightarrow> release_reservation (ca_id c) (de_now env) s3)
        else (case ?cand of None \<Rightarrow> s3 | Some c \<Rightarrow> release_reservation (ca_id c) (de_now env) s3))"
    using j unfolding cancel_unclaimed_def Let_def by (elim then_Inr2E then_InrE) (rule that, assumption, assumption, assumption, rule sym, erule Inr_inject)
  let ?s4 = "case ?cand of None \<Rightarrow> s3 | Some c \<Rightarrow> release_reservation (ca_id c) (de_now env) s3"
  have e: "core_of s' = core_of ?s4" "same_keys ?s4 s'"
    using s' by (auto simp: core_of_quiet keys_quiet intro: same_keys_trans [OF keys_quiet(5) keys_quiet(2)])
  note ci = core_insertResult [OF i] and ct = core_transition [OF t]
  show ?thesis
  proof (cases ?cand)
    case None
    then have s1: "s1 = s" using c1 by simp
    have "dr_state r = D_WAITING" using open_current_None [OF ok r(1) None] r(2) by (cases "dr_state r") (auto simp: held_state_def terminal_state_def)
    then show ?thesis
      using ct ci e None s1 same_keys_trans [OF same_keys_trans [OF ci(2) ct(2)]] by (intro close_moves [OF ok r(1)]) simp_all
  next
    case (Some c)
    note oc = open_current_Some [OF ok Some]
    from c1 Some have nc: "ca_first_claimed_at c = None" and s1: "s1 = set_candidate (ca_id c) (\<lambda>y. y\<lparr>ca_state := K_RETIRED\<rparr>) (end_job env J_CANCELLED (ca_job_id c) s)"
      by (simp_all split: if_splits)
    have fc: "find_candidate (ca_id c) (end_job env J_CANCELLED (ca_job_id c) s) = Some c" using oc(1) by simp
    have e1: "core_of s1 = core_of s\<lparr>k_candidates := (k_candidates (core_of s))(ca_id c \<mapsto> (core_candidate_of c)\<lparr>kc_state := K_RETIRED\<rparr>)\<rparr>"
      unfolding s1 using fc by (simp add: core_set_candidate core_candidate_of_def core_of_quiet)
    have k1: "same_keys s s1" unfolding s1 by (rule same_keys_trans [OF keys_quiet(4) keys_sets(2)]) simp
    show ?thesis
    proof (rule retire_moves [OF ok oc(1) unclaimed_open [OF ok oc(1,4) nc]])
      have e4: "core_of ?s4 = (move ?rid D_CANCELLED (core_of s1))\<lparr>k_open := free_candidate (ca_id c) (k_open (core_of s1))\<rparr>"
        using Some by (simp add: core_release_reservation ct(1) ci(1))
      have "k_requests (core_of s1) ?rid = Some (core_request_of r)" using r(1) e1 by simp
      then show "core_of s' = move (ca_request_id c) D_CANCELLED (core_of s\<lparr>k_candidates := (k_candidates (core_of s))(ca_id c \<mapsto> (core_candidate_of c)\<lparr>kc_state := K_RETIRED\<rparr>),
          k_open := free_candidate (ca_id c) (k_open (core_of s))\<rparr>)"
        unfolding e(1) e4 oc(2) using e1 r(1) by (simp add: move_def)
      have "same_keys s3 ?s4" using Some keys_sets(4) by simp
      then show "same_keys s s'"
        using same_keys_trans [OF same_keys_trans [OF same_keys_trans [OF same_keys_trans [OF k1 ci(2)] ct(2)]] e(2)] by blast
    qed simp
  qed
qed

theorem cancel_moves:
  assumes ok: "dispatch_ok s"
  shows "moves s (fst (cancelDispatch env a rid actionId expectedVersion nid s))"
proof (cases "validateKey actionId")
  case (Inl e)
  then show ?thesis using moves_refl [OF ok] by (simp add: cancelDispatch_def)
next
  case (Inr u)
  have "moves s (fst (dispatch_transaction s (cancel_transaction env a rid actionId expectedVersion nid s)))"
  proof (rule transaction_moves [OF ok])
    fix s' y assume j: "cancel_transaction env a rid actionId expectedVersion nid s = Inr (s', y)"
    show "moves s s'"
    proof (cases "s' = s")
      case True
      then show ?thesis using moves_refl [OF ok] by simp
    next
      case False
      obtain r s1 e where r: "find_request rid s = Some r" and cr: "cancel_request env r nid s = Inr s1" and s': "s' = add_event_by env (By_user (da_userId a)) rid None e s1"
        using j False unfolding cancel_transaction_def Let_def
        by (elim option_failE then_InrE) (auto simp: and_then_Inr_iff split: list.splits if_splits)
      have rid: "find_request (dr_id r) s = Some r" using r find_requestD [OF r] by simp
      have "moves s s1"
      proof (cases "terminal_state (dr_state r)")
        case True
        then show ?thesis using cr moves_refl [OF ok] by (simp add: cancel_request_def)
      next
        case nt: False
        note cr' = cr [unfolded cancel_request_def Let_def if_not_P [OF nt]]
        show ?thesis
        proof (cases "case open_current r s of None \<Rightarrow> None | Some c \<Rightarrow> map_option (Pair c) (attempt_of (ca_id c) s)")
          case None
          then have "cancel_unclaimed env r (open_current r s) nid s = Inr s1" using cr' by simp
          then show ?thesis by (rule cancel_unclaimed_moves [OF ok rid nt])
        next
          case (Some z)
          then obtain c b where z: "z = (c, b)" and oc: "open_current r s = Some c" and aa: "attempt_of (ca_id c) s = Some b"
            by (auto split: option.splits)
          then have "cancel_attempt env r c (at_id b) nid s = Inr s1" using cr' Some by simp
          then show ?thesis by (rule cancel_attempt_moves [OF ok rid oc aa])
        qed
      qed
      then show ?thesis unfolding s' using moves_trans quiet_moves [OF moves_ok [OF ok] quiet_events(1)] by blast
    qed
  qed
  then show ?thesis by (simp add: cancelDispatch_def Inr)
qed

section \<open>Recovery\<close>

lemma retry_moves:
  assumes ok: "dispatch_ok s" and d: "describes x s" and j: "retry_same_contract env x s = Inr s'"
  shows "moves s s'"
proof -
  let ?rid = "dr_id (lk_r x)" and ?aid = "at_id (lk_a x)"
  obtain s1 where t: "terminalizeAttempt env x Out_failed s = Inr s1"
    and w: "transition env ?rid D_WAITING None (set_request ?rid (\<lambda>y. y\<lparr>dr_retry_authorization_event_id := Some (next_event env s1)\<rparr>)
      (add_event env ?rid (Some ?aid) (Retry_authorized ?aid (dr_input_hash (lk_r x)) (dr_generation (lk_r x))) s1)) = Inr s'"
    using j unfolding retry_same_contract_def Let_def by (elim if_failE then_InrE)
  show ?thesis
  proof (rule settle_then_move [OF ok d t _ _ w])
    show "same_keys s1 (set_request ?rid (\<lambda>y. y\<lparr>dr_retry_authorization_event_id := Some (next_event env s1)\<rparr>)
      (add_event env ?rid (Some ?aid) (Retry_authorized ?aid (dr_input_hash (lk_r x)) (dr_generation (lk_r x))) s1))"
      by (rule same_keys_trans [OF keys_quiet(2) keys_sets(1)])
  qed (simp_all add: core_touch_request core_request_of_def core_of_quiet)
qed

lemma list_caseE: "(case xs of [] \<Rightarrow> m | y # ys \<Rightarrow> k y ys) = Inr z \<Longrightarrow> (xs = [] \<Longrightarrow> m = Inr z \<Longrightarrow> thesis) \<Longrightarrow>
    (\<And>y ys. xs = y # ys \<Longrightarrow> k y ys = Inr z \<Longrightarrow> thesis) \<Longrightarrow> thesis"
  by (cases xs) auto

lemma then_Inr3E: "and_then r (\<lambda>(x, y, z). k x y z) = Inr w \<Longrightarrow> (\<And>x y z. r = Inr (x, y, z) \<Longrightarrow> k x y z = Inr w \<Longrightarrow> thesis) \<Longrightarrow> thesis"
  unfolding and_then_Inr_iff by auto

lemma recover_cases:
  assumes "recover_transaction env a rid actionId expectedVersion e mode nid s = Inr (s', v)" "s' \<noteq> s"
  obtains x s1 stopId x1 s2 p where "lockArtifactAttempt s (se_attempt_id e) = Inr x" "dr_generation (lk_r x) = ca_generation (lk_c x)"
    "dr_state (lk_r x) \<in> {D_UNCERTAIN, D_CANCEL_REQUESTED}" "acceptRecoveryStop env x e s = Inr (s1, stopId, x1)"
    "if mode = Retry_same_contract then retry_same_contract env x1 s1 = Inr s2
     else \<exists>k. finishResult env x1 (recovery_result mode) (result_hash env (recovery_result mode)) nid s1 = Inr (s2, k)"
    "s' = add_event_by env (By_user (da_userId a)) rid (Some (at_id (lk_a x))) p s2"
proof -
  obtain x where l: "lockArtifactAttempt s (se_attempt_id e) = Inr x"
    using assms(1) unfolding recover_transaction_def by (rule then_InrE)
  let ?k = "action_key a ''recovery'' actionId"
  let ?h = "action_hash env [(''id'', JStr rid), (''expectedVersion'', JStr expectedVersion), (''evidence'', evidence_json e), (''mode'', JStr (mode_name mode))]"
  let ?go = "\<lambda>s1 x1. if mode = Retry_same_contract then retry_same_contract env x1 s1
                  else and_then (finishResult env x1 (recovery_result mode) (result_hash env (recovery_result mode)) nid s1) (\<lambda>(s2, _). Inr s2)"
  have "\<exists>s1 stopId x1 s2. dr_generation (lk_r x) = ca_generation (lk_c x) \<and> dr_state (lk_r x) \<in> {D_UNCERTAIN, D_CANCEL_REQUESTED} \<and>
      acceptRecoveryStop env x e s = Inr (s1, stopId, x1) \<and> ?go s1 x1 = Inr s2 \<and>
      s' = add_event_by env (By_user (da_userId a)) rid (Some (at_id (lk_a x))) (Recovery_action ?k ?h) s2"
    using assms(1) unfolding recover_transaction_def l and_then_simps Let_def
  proof (elim if_failE then_Inr3E then_InrE list_caseE)
    fix s1 stopId x1 s2 v'
    assume g: "\<not> (digits (dr_version (lk_r x)) \<noteq> expectedVersion \<or> dr_generation (lk_r x) \<noteq> ca_generation (lk_c x) \<or> dr_result_id (lk_r x) \<noteq> None \<or>
        dr_state (lk_r x) \<notin> {D_UNCERTAIN, D_CANCEL_REQUESTED} \<or> unresolvedPublication rid s)"
      and acc: "acceptRecoveryStop env x e s = Inr (s1, stopId, x1)" and f: "?go s1 x1 = Inr s2"
      and z: "Inr (add_event_by env (By_user (da_userId a)) rid (Some (at_id (lk_a x))) (Recovery_action ?k ?h) s2, v') = (Inr (s', v) :: derror + dispatch \<times> dispatch_view)"
    from z have "s' = add_event_by env (By_user (da_userId a)) rid (Some (at_id (lk_a x))) (Recovery_action ?k ?h) s2" by simp
    with g acc f show ?thesis by blast
  next
    fix v' assume "Inr (s, v') = (Inr (s', v) :: derror + dispatch \<times> dispatch_view)"
    then show ?thesis using assms(2) by simp
  qed
  then obtain s1 stopId x1 s2 where g: "dr_generation (lk_r x) = ca_generation (lk_c x)" "dr_state (lk_r x) \<in> {D_UNCERTAIN, D_CANCEL_REQUESTED}"
      "acceptRecoveryStop env x e s = Inr (s1, stopId, x1)"
    and f: "?go s1 x1 = Inr s2"
    and s': "s' = add_event_by env (By_user (da_userId a)) rid (Some (at_id (lk_a x))) (Recovery_action ?k ?h) s2" by blast
  have "if mode = Retry_same_contract then retry_same_contract env x1 s1 = Inr s2
     else \<exists>k. finishResult env x1 (recovery_result mode) (result_hash env (recovery_result mode)) nid s1 = Inr (s2, k)"
    using f by (auto simp: and_then_Inr_iff split: if_splits)
  with l g s' show thesis by (intro that)
qed

theorem recover_moves:
  assumes ok: "dispatch_ok s"
  shows "moves s (fst (recoverDispatch env a rid actionId expectedVersion e mode nid s))"
proof (cases "validateKey actionId")
  case (Inl err)
  then show ?thesis using moves_refl [OF ok] by (simp add: recoverDispatch_def)
next
  case (Inr u)
  have "moves s (fst (dispatch_transaction s (recover_transaction env a rid actionId expectedVersion e mode nid s)))"
  proof (rule transaction_moves [OF ok])
    fix s' y assume j: "recover_transaction env a rid actionId expectedVersion e mode nid s = Inr (s', y)"
    show "moves s s'"
    proof (cases "s' = s")
      case True
      then show ?thesis using moves_refl [OF ok] by simp
    next
      case False
      from j False show ?thesis
      proof (cases rule: recover_cases)
        case (1 x s1 stopId x1 s2 p)
        note x = lockArtifactAttempt_rows(1) [OF 1(1)]
        note m = stop_step_moves [OF ok x accept_recovery_step [OF 1(4)]]
        have "held_state (dr_state (lk_r x))" using 1(3) by (auto simp: held_state_def)
        then have d: "describes x1 s1" by (intro m(2) held_describe [OF ok x 1(2)])
        note ok1 = moves_ok [OF ok m(1)]
        have "moves s1 s2"
          using 1(5) retry_moves [OF ok1 d] finishResult_moves [OF ok1 d] by (cases "mode = Retry_same_contract") auto
        then have "moves s s2" by (rule moves_trans [OF m(1)])
        then show ?thesis unfolding 1(6) using moves_trans quiet_moves [OF moves_ok [OF ok] quiet_events(1)] by blast
      qed
    qed
  qed
  then show ?thesis by (simp add: recoverDispatch_def Inr)
qed

theorem stage_moves:
  assumes ok: "dispatch_ok s"
  shows "moves s (fst (stageRecoveryEvidence env a rt bytes nid s))"
  unfolding stageRecoveryEvidence_def
proof (rule transaction_moves [OF ok])
  fix s' y assume j: "stage_transaction env a rt bytes nid s = Inr (s', y)"
  then have "quiet s s'" unfolding stage_transaction_def
    by (elim then_InrE then_Inr2E) (auto dest: quiet_artifact)
  then show "moves s s'" by (rule quiet_moves [OF ok])
qed

end
