(* ===== verification/Dispatch_System.thy ===== *)
theory Dispatch_System
  imports Dispatch_Sim_Close
begin

text \<open>
  The managed dispatch service as a whole: any sequence of its operations, by any callers at any times, with anything else the
  server does in between. Every step refines steps of the abstract service, so its invariant holds in every reachable state
  and says there, in terms of the tables, who may hold a slot, who may run a request and what is published.
\<close>

section \<open>The contract with the abstract service\<close>

locale core_service =
  fixes step :: "'s \<Rightarrow> 's \<Rightarrow> bool" and abs :: "'s \<Rightarrow> core" and sane :: "'s \<Rightarrow> bool"
  assumes simulates: "sane s \<Longrightarrow> step s s' \<Longrightarrow> core_step\<^sup>*\<^sup>* (abs s) (abs s')"
    and keeps: "sane s \<Longrightarrow> step s s' \<Longrightarrow> sane s'"
    and sound: "sane s \<Longrightarrow> core_ok (abs s)"
begin

lemma steps_simulate: "step\<^sup>*\<^sup>* s s' \<Longrightarrow> sane s \<Longrightarrow> sane s' \<and> core_step\<^sup>*\<^sup>* (abs s) (abs s')"
proof (induction rule: rtranclp_induct)
  case (step t u)
  then have t: "sane t" "core_step\<^sup>*\<^sup>* (abs s) (abs t)" by simp_all
  from simulates [OF t(1) step.hyps(2)] have "core_step\<^sup>*\<^sup>* (abs s) (abs u)" by (rule rtranclp_trans [OF t(2)])
  with keeps [OF t(1) step.hyps(2)] show ?case by simp
qed simp

lemma finished_stays:
  assumes "step\<^sup>*\<^sup>* s s'" "sane s" "k_requests (abs s) rid = Some r" "terminal_state (kr_state r)"
  shows "k_requests (abs s') rid = Some r" "k_published (abs s') rid = k_published (abs s) rid"
proof -
  have f: "finished_request rid (abs s) (abs s')"
    by (rule core_steps_final [OF conjunct2 [OF steps_simulate [OF assms(1,2)]] sound [OF assms(2)] assms(3,4)])
  then show "k_requests (abs s') rid = Some r" "k_published (abs s') rid = k_published (abs s) rid"
    unfolding finished_request_def assms(3) by (rule conjunct1, rule conjunct2)
qed

lemma settled_or_held:
  assumes "sane s" "k_attempts (abs s) aid = Some a" "\<not> ka_stopped a \<or> \<not> ended_attempt (ka_state a)"
  shows "\<exists>k slot. k_candidates (abs s) (ka_candidate a) = Some k \<and> open_candidate (kc_state k) \<and> (ka_candidate a, slot) \<in> k_open (abs s)"
  using unsettled_open [OF sound [OF assms(1)] assms(2)] assms(3) by metis

end

section \<open>Steps\<close>

text \<open>
  An operation draws fresh ids; a stop is not stale. \<open>other\<close> is whatever leaves the columns of the abstraction alone:
  prepared sources, publications, registrations, heartbeats of supervisors, deliveries, and all tables of other parts.
\<close>

inductive dispatch_step :: "dispatch \<Rightarrow> dispatch \<Rightarrow> bool" where
  submit: "find_request rid s = None \<Longrightarrow> dispatch_step s (fst (submitDispatch env a inp k rid rootId s))"
| reserve: "transition_contract env \<Longrightarrow> find_candidate (dn_candidate n) s = None \<Longrightarrow>
    dispatch_step s (fst (reserveRequest env request_busy slot_busy n rid s))"
| reject: "transition_contract env \<Longrightarrow> rejectUnstartedInTransaction env rid reason nid s = Inr s' \<Longrightarrow> dispatch_step s s'"
| retire: "dispatch_step s (fst (retireExpiredCandidate env rid s))"
| claim: "find_attempt aid s = None \<Longrightarrow> dispatch_step s (fst (claimDispatchAttempt env busy aid a incarnationId claimKey session s))"
| start: "dispatch_step s (fst (startDispatchAttempt env a p scope s))"
| renew: "dispatch_step s (fst (renewDispatchAttempt env a p scopeId s))"
| reconcile: "dispatch_step s (fst (reconcileDispatchAttempt env a p scope s))"
| sweep: "dispatch_step s (fst (markExpiredAttempts env limit s))"
| stop: "\<not> stale_stop (ap_attempt_id p) s \<Longrightarrow> dispatch_step s (fst (submitStop env a p e nid s))"
| claim_bound_stop: "dispatch_step s (fst (submitClaimBoundStop env a p reason observed artifactId nid s))"
| orphans: "dispatch_step s (fst (closeSignedOffUnstartedAttempts env limit fresh s))"
| result: "dispatch_step s (fst (acceptDispatchResult env a p original verified nid s))"
| cancel: "dispatch_step s (fst (cancelDispatch env a rid actionId expectedVersion nid s))"
| stage: "dispatch_step s (fst (stageRecoveryEvidence env a rt bytes nid s))"
| recover: "dispatch_step s (fst (recoverDispatch env a rid actionId expectedVersion e mode nid s))"
| historical_stop: "\<not> stale_stop (bi_attemptId b) s \<Longrightarrow> dispatch_step s (fst (historicalSubmitStop env a b scope e nid s))"
| historical_result: "dispatch_step s (fst (historicalSubmitResult env a b scope original verified nid s))"
| other: "same_core s s' \<Longrightarrow> dispatch_step s s'"

definition no_requests :: "dispatch \<Rightarrow> bool" where
  "no_requests s \<longleftrightarrow> d_requests s = [] \<and> d_candidates s = [] \<and> d_attempts s = [] \<and> d_reservations s = [] \<and> d_outbox s = []"

inductive dispatch_reachable :: "dispatch \<Rightarrow> bool" where
  initial: "no_requests s \<Longrightarrow> dispatch_reachable s"
| step: "dispatch_reachable s \<Longrightarrow> dispatch_step s s' \<Longrightarrow> dispatch_reachable s'"

section \<open>Every step refines the abstract service\<close>

lemma submitDispatch_moves:
  assumes ok: "dispatch_ok s" and fresh: "find_request rid s = None"
  shows "moves s (fst (submitDispatch env a inp k rid rootId s))"
proof -
  have "moves s (fst (dispatch_transaction s (submit_transaction env a inp k rid rootId s)))"
    by (rule transaction_moves [OF ok submit_moves [OF ok fresh]])
  then show ?thesis using moves_refl [OF ok] by (auto simp: submitDispatch_def split: sum.splits)
qed

lemma same_core_moves: "dispatch_ok s \<Longrightarrow> same_core s s' \<Longrightarrow> moves s s'"
  by (rule moves_quiet) (simp_all add: same_core_def same_keys_def)

lemma dispatch_step_moves:
  assumes st: "dispatch_step s s'" and ok: "dispatch_ok s"
  shows "moves s s'"
  using st
proof cases
  case submit then show ?thesis using submitDispatch_moves [OF ok] by simp
next
  case reserve then show ?thesis using reserveRequest_moves [OF ok] by simp
next
  case reject then show ?thesis using rejectUnstarted_moves [OF ok] by simp
next
  case retire then show ?thesis using retireExpired_moves [OF ok] by simp
next
  case claim then show ?thesis using claim_moves [OF ok] by simp
next
  case start then show ?thesis using start_moves [OF ok] by simp
next
  case renew then show ?thesis using renew_moves [OF ok] by simp
next
  case reconcile then show ?thesis using reconcile_moves [OF ok] by simp
next
  case sweep then show ?thesis using markExpired_moves [OF ok] by simp
next
  case stop then show ?thesis using submitStop_moves [OF ok] by simp
next
  case claim_bound_stop then show ?thesis using submitClaimBoundStop_moves [OF ok] by simp
next
  case orphans then show ?thesis using orphans_moves [OF ok] by simp
next
  case result then show ?thesis using accept_moves(1) [OF ok] by simp
next
  case cancel then show ?thesis using cancel_moves [OF ok] by simp
next
  case stage then show ?thesis using stage_moves [OF ok] by simp
next
  case recover then show ?thesis using recover_moves [OF ok] by simp
next
  case historical_stop then show ?thesis using historicalStop_moves [OF ok] by simp
next
  case historical_result then show ?thesis using accept_moves(2) [OF ok] by simp
next
  case other then show ?thesis using same_core_moves [OF ok] by simp
qed

lemma no_requests_ok: "no_requests s \<Longrightarrow> dispatch_ok s"
  by (simp add: no_requests_def dispatch_ok_def unique_rows_def core_ok_def candidates_known_def generations_unique_def in_step_def
      held_requests_def claims_known_def attempts_known_def attempts_unique_def reservations_known_def candidates_hold_def
      reservations_exclusive_def published_states_def find_request_def find_candidate_def find_attempt_def published_def find_by_simps)

lemma reachable_ok: "dispatch_reachable s \<Longrightarrow> dispatch_ok s"
  by (induction rule: dispatch_reachable.induct) (auto intro: no_requests_ok moves_ok dispatch_step_moves)

lemma steps_moves: "dispatch_step\<^sup>*\<^sup>* s s' \<Longrightarrow> dispatch_ok s \<Longrightarrow> moves s s'"
proof (induction rule: rtranclp_induct)
  case base
  then show ?case by (rule moves_refl)
next
  case (step t u)
  have m: "moves s t" using step.IH [OF step.prems] .
  then have "dispatch_ok t" by (rule moves_ok [OF step.prems])
  with step.hyps(2) have "moves t u" by (rule dispatch_step_moves)
  with m show ?case by (rule moves_trans)
qed

text \<open>The conjuncts of the invariant at the tables of a reachable state.\<close>

lemma reachable_parts:
  assumes "dispatch_reachable s"
  shows "attempts_known (core_of s)" "attempts_unique (core_of s)" "reservations_known (core_of s)" "candidates_hold (core_of s)"
    "reservations_exclusive (core_of s)" "published_states (core_of s)" "in_step (core_of s)" "candidates_known (core_of s)"
    "generations_unique (core_of s)" "held_requests (core_of s)"
  using reachable_ok [OF assms] by (simp_all add: dispatch_ok_def core_ok_def)

lemma open_pair: "v \<in> set (d_reservations s) \<Longrightarrow> rv_released_at v = None \<Longrightarrow> (rv_candidate_id v, rv_slot_id v) \<in> open_pairs (d_reservations s)"
  by (force simp: open_pairs_def)

lemma open_pairD: "(cid, slot) \<in> open_pairs (d_reservations s) \<Longrightarrow> \<exists>v \<in> set (d_reservations s). rv_released_at v = None \<and> rv_candidate_id v = cid \<and> rv_slot_id v = slot"
  by (auto simp: open_pairs_def)

interpretation ds: core_service dispatch_step core_of dispatch_ok
proof
  fix s s'
  assume "dispatch_ok s"
  then show "core_ok (core_of s)" by (simp add: dispatch_ok_def)
  assume "dispatch_step s s'"
  with \<open>dispatch_ok s\<close> have "moves s s'" by (rule dispatch_step_moves [rotated])
  then show "core_step\<^sup>*\<^sup>* (core_of s) (core_of s')" by (simp add: moves_def)
  from \<open>dispatch_ok s\<close> \<open>moves s s'\<close> show "dispatch_ok s'" by (rule moves_ok)
qed

section \<open>What holds in every reachable state\<close>


text \<open>
  C5. A slot serves one candidate at a time: two open reservations of one slot are of one candidate, which is open, holds
  this slot and is the candidate of the present generation of its request.
\<close>

theorem slot_reservations_exclusive:
  assumes "dispatch_reachable s" "v \<in> set (d_reservations s)" "w \<in> set (d_reservations s)"
    and "rv_released_at v = None" "rv_released_at w = None" "rv_slot_id v = rv_slot_id w"
  shows "rv_candidate_id v = rv_candidate_id w \<and> (\<exists>c r. find_candidate (rv_candidate_id v) s = Some c \<and> open_candidate (ca_state c) \<and>
    ca_reserved_slot_id c = rv_slot_id v \<and> find_request (ca_request_id c) s = Some r \<and> ca_generation c = dr_generation r)"
proof
  note inv = reachable_parts [OF assms(1)] and pv = open_pair [OF assms(2,4)] and pw = open_pair [OF assms(3,5)]
  show "rv_candidate_id v = rv_candidate_id w"
    using inv(5) pv pw assms(6) unfolding reservations_exclusive_def core_sel by blast
  obtain k where k: "k_candidates (core_of s) (rv_candidate_id v) = Some k" "open_candidate (kc_state k)" "kc_slot k = rv_slot_id v"
    using inv(3) pv unfolding reservations_known_def core_sel(4) by blast
  obtain r' where r': "k_requests (core_of s) (kc_request k) = Some r'" using inv(8) k(1) unfolding candidates_known_def by blast
  have "kc_generation k = kr_generation r'" using in_stepD [OF inv(7) k(1,2) r'] by simp
  with k r' show "\<exists>c r. find_candidate (rv_candidate_id v) s = Some c \<and> open_candidate (ca_state c) \<and>
    ca_reserved_slot_id c = rv_slot_id v \<and> find_request (ca_request_id c) s = Some r \<and> ca_generation c = dr_generation r" by auto
qed

text \<open>
  C3. A request is run by one attempt at a time: of two attempts of one request that have not both ended and stopped, there is
  only one.
\<close>

theorem one_attempt_at_a_time:
  assumes "dispatch_reachable s" "a \<in> set (d_attempts s)" "b \<in> set (d_attempts s)"
    and "at_stopped_at a = None \<or> \<not> ended_attempt (at_state a)" "at_stopped_at b = None \<or> \<not> ended_attempt (at_state b)"
    and "find_candidate (at_candidate_id a) s = Some c" "find_candidate (at_candidate_id b) s = Some d" "ca_request_id c = ca_request_id d"
  shows "a = b"
proof -
  note ok = reachable_ok [OF assms(1)]
  note fa = attempt_row [OF ok assms(2)] and fb = attempt_row [OF ok assms(3)]
  have "at_id a = at_id b"
  proof (rule one_unsettled_attempt [OF ds.sound [OF ok]])
    show "k_attempts (core_of s) (at_id a) = Some (core_attempt_of a)" "k_attempts (core_of s) (at_id b) = Some (core_attempt_of b)"
      using fa fb by simp_all
    show "k_candidates (core_of s) (ka_candidate (core_attempt_of a)) = Some (core_candidate_of c)"
      "k_candidates (core_of s) (ka_candidate (core_attempt_of b)) = Some (core_candidate_of d)" using assms(6,7) by simp_all
    show "kc_request (core_candidate_of d) = kc_request (core_candidate_of c)" using assms(8) by simp
    show "\<not> (ended_attempt (ka_state (core_attempt_of a)) \<and> ka_stopped (core_attempt_of a))"
      "\<not> (ended_attempt (ka_state (core_attempt_of b)) \<and> ka_stopped (core_attempt_of b))" using assms(4,5) by auto
  qed
  then have "Some a = Some b" unfolding fa [symmetric] fb [symmetric] by (rule arg_cong)
  then show ?thesis by (rule option.inject [THEN iffD1])
qed

text \<open>
  C9. Capacity is given back only after a proven stop: as long as no stop of a claimed attempt was accepted, or it has not ended,
  a slot stays reserved for its candidate.
\<close>

theorem slot_held_until_stop:
  assumes "dispatch_reachable s" "a \<in> set (d_attempts s)" "at_stopped_at a = None \<or> \<not> ended_attempt (at_state a)"
  shows "\<exists>v \<in> set (d_reservations s). rv_released_at v = None \<and> rv_candidate_id v = at_candidate_id a"
proof -
  note ok = reachable_ok [OF assms(1)]
  have "\<exists>k slot. k_candidates (core_of s) (ka_candidate (core_attempt_of a)) = Some k \<and> open_candidate (kc_state k) \<and>
      (ka_candidate (core_attempt_of a), slot) \<in> k_open (core_of s)"
    by (rule ds.settled_or_held [OF ok]) (use attempt_row [OF ok assms(2)] assms(3) in auto)
  then obtain slot where "(at_candidate_id a, slot) \<in> open_pairs (d_reservations s)" by auto
  then show ?thesis using open_pairD by blast
qed

text \<open>
  C10. Every version of a request is published once, in order, and the last row of the outbox shows its present state.
\<close>

theorem versions_published_once:
  assumes "dispatch_reachable s" "find_request rid s = Some r"
  shows "map fst (published rid (d_outbox s)) = [1..<dr_version r + 1] \<and> snd (last (published rid (d_outbox s))) = dr_state r"
proof -
  have "history_ok (k_requests (core_of s) rid) (k_published (core_of s) rid)"
    using reachable_parts(6) [OF assms(1)] unfolding published_states_def by blast
  then show ?thesis by (simp add: assms(2))
qed

text \<open>
  C17. A finished request is final: no later operation of anybody changes its state or version or publishes it again.
\<close>

theorem finished_requests_final:
  assumes "dispatch_reachable s" "find_request rid s = Some r" "terminal_state (dr_state r)" "dispatch_step\<^sup>*\<^sup>* s s'"
  shows "\<exists>r'. find_request rid s' = Some r' \<and> dr_state r' = dr_state r \<and> dr_version r' = dr_version r \<and>
    published rid (d_outbox s') = published rid (d_outbox s)"
proof -
  have "k_requests (core_of s) rid = Some (core_request_of r)" "terminal_state (kr_state (core_request_of r))" using assms(2,3) by simp_all
  note f = ds.finished_stays [OF assms(4) reachable_ok [OF assms(1)] this]
  from f(1) obtain r' where r': "find_request rid s' = Some r'" "core_request_of r' = core_request_of r"
    unfolding core_sel(1) map_option_eq_Some by blast
  have p: "published rid (d_outbox s') = published rid (d_outbox s)" using f(2) unfolding core_sel(5) .
  have "dr_state r' = dr_state r" "dr_version r' = dr_version r"
    using arg_cong [OF r'(2), of kr_state] arg_cong [OF r'(2), of kr_version] unfolding core_row_sel .
  with r'(1) p show ?thesis by blast
qed

end
