(* ===== verification/Dispatch_Permits.thy ===== *)
theory Dispatch_Permits
  imports Dispatch_System
begin

text \<open>
  Who gets a permit to start: the checks of \<open>startDispatchAttempt\<close> (\<open>src/src/dispatch/attempts.ts\<close>) together with what holds in
  every reachable state.
\<close>

text \<open>The holder of an attempt that is not settled has a slot reserved, the one its candidate names.\<close>

lemma attempt_has_slot:
  assumes "dispatch_reachable s" "find_attempt aid s = Some a" "\<not> ended_attempt (at_state a)" "find_candidate (at_candidate_id a) s = Some c"
  shows "\<exists>v \<in> set (d_reservations s). rv_released_at v = None \<and> rv_candidate_id v = at_candidate_id a \<and> rv_slot_id v = ca_reserved_slot_id c"
proof -
  have k: "k_attempts (core_of s) aid = Some (core_attempt_of a)" "\<not> ended_attempt (ka_state (core_attempt_of a))" using assms(2,3) by simp_all
  then obtain slot where h: "(at_candidate_id a, slot) \<in> k_open (core_of s)"
    using ds.settled_or_held [OF reachable_ok [OF assms(1)] k(1) disjI2 [OF k(2)]] by auto
  then obtain x where x: "k_candidates (core_of s) (at_candidate_id a) = Some x" "kc_slot x = slot"
    using reachable_parts(3) [OF assms(1)] unfolding reservations_known_def by blast
  then have "ca_reserved_slot_id c = slot" using assms(4) by auto
  then show ?thesis using h open_pairD [of "at_candidate_id a" slot s] by auto
qed

lemma start_checks:
  assumes "startDispatchAttempt env actor p scope s = (s', Inr permit)"
  obtains x prof where "lock_attempt s (ap_request_id p) (ap_candidate_id p) (ap_attempt_id p) = Inr x"
    "verifyProof env actor p x = Inr ()" "validScope scope x = Inr ()" "active_attempt x" "de_enabled env"
    "dr_product_id (lk_r x) \<in> set (de_allowlist env)" "dr_state (lk_r x) \<in> {D_CLAIMED, D_RUNNING}" "at_state (lk_a x) \<in> {A_CLAIMED, A_RUNNING}"
    "\<not> lease_over env (lk_a x)" "authorize_attempt env actor x Op_start s = Inr prof" "\<not> overrun env (lk_a x) prof"
    "at_state (lk_a x) = A_RUNNING \<longrightarrow> verifyRecordedScope x scope s = Inr ()"
    "permit = \<lparr>sp_binding = \<lparr>bi_requestId = dr_id (lk_r x), bi_candidateId = ca_id (lk_c x), bi_generation = ca_generation (lk_c x),
       bi_attemptId = at_id (lk_a x), bi_incarnationId = at_incarnation_id (lk_a x)\<rparr>, sp_scope = scope, sp_issuedAt = de_now env,
       sp_expiresAt = de_now env + 5000\<rparr>"
proof -
  have "start_transaction env actor p scope s = Inr (s', permit)"
    using assms unfolding startDispatchAttempt_def dispatch_transaction_def by (auto split: sum.splits prod.splits)
  then obtain x prof s1 where l: "lock_attempt s (ap_request_id p) (ap_candidate_id p) (ap_attempt_id p) = Inr x"
    and v: "verifyProof env actor p x = Inr ()" "validScope scope x = Inr ()"
    and g: "\<not> (\<not> de_enabled env \<or> dr_product_id (lk_r x) \<notin> set (de_allowlist env) \<or> \<not> active_attempt x \<or>
      dr_state (lk_r x) \<notin> {D_CLAIMED, D_RUNNING} \<or> at_state (lk_a x) \<notin> {A_CLAIMED, A_RUNNING} \<or> lease_over env (lk_a x))"
    and a: "authorize_attempt env actor x Op_start s = Inr prof" "\<not> overrun env (lk_a x) prof"
    and w: "(if at_state (lk_a x) = A_RUNNING then verifyRecordedScope x scope s else Inr ()) = Inr ()"
    and y: "Inr (s1, \<lparr>sp_binding = \<lparr>bi_requestId = dr_id (lk_r x), bi_candidateId = ca_id (lk_c x), bi_generation = ca_generation (lk_c x),
       bi_attemptId = at_id (lk_a x), bi_incarnationId = at_incarnation_id (lk_a x)\<rparr>, sp_scope = scope, sp_issuedAt = de_now env,
       sp_expiresAt = de_now env + 5000\<rparr>) = (Inr (s', permit) :: derror + dispatch \<times> start_permit)"
    unfolding start_transaction_def Let_def by (elim then_InrE if_failE) (rule that, assumption, simp, simp, assumption, assumption, assumption, simp, assumption)
  show thesis by (rule that [OF l v _ _ _ _ _ _ a]) (use g w y in auto)
qed

lemma authorize_attempt_rights:
  assumes "authorize_attempt env actor x op s = Inr prof"
  shows "authorize_env env actor (dr_input (lk_r x)) op = Inr ()" "authorize_env env (requestActor (lk_r x)) (dr_input (lk_r x)) op = Inr ()"
    "da_tokenId actor = Some (sl_token_id (lk_s x))"
  using assms unfolding authorize_attempt_def Let_def by (auto elim!: then_InrE if_failE)

text \<open>
  C8. A permit to start a scope is given only to the supervisor that holds the claim: it proved the credential of the attempt with
  the token of the slot, dispatch is switched on for the product, the attempt is claimed or running under a live lease for the present generation of its request, both it
  and the requester still have the right to execute, the scope is the one registered (and for a running attempt the one it was
  started with), and the slot is reserved for the candidate. The permit names exactly these rows and lasts five seconds.
\<close>

theorem start_permit_sound:
  assumes "dispatch_reachable s" "startDispatchAttempt env actor p scope s = (s', Inr permit)"
  shows "\<exists>r c a i sl. find_request (ap_request_id p) s = Some r \<and> find_candidate (ap_candidate_id p) s = Some c \<and>
    find_attempt (ap_attempt_id p) s = Some a \<and> find_incarnation (at_incarnation_id a) s = Some (i, sl) \<and>
    ca_request_id c = ap_request_id p \<and> at_candidate_id a = ap_candidate_id p \<and>
    ca_generation c = dr_generation r \<and> ap_generation p = dr_generation r \<and>
    at_state a \<in> {A_CLAIMED, A_RUNNING} \<and> at_revoked_at a = None \<and> (\<exists>t. at_heartbeat_at a = Some t \<and> de_now env - t < lease_ms) \<and>
    da_userId actor = sl_owner_user_id sl \<and> da_tokenId actor = Some (sl_token_id sl) \<and>
    credentialMatches env (ap_credential p) (at_credential_hash a) \<and>
    authorize_env env actor (dr_input r) Op_start = Inr () \<and> authorize_env env (requestActor r) (dr_input r) Op_start = Inr () \<and>
    ru_bootId scope = ic_boot_id i \<and> ru_imageDigest scope = is_image_digest (ic_scope i) \<and> ru_profileSha256 scope = is_profile_sha256 (ic_scope i) \<and>
    de_enabled env \<and> dr_product_id r \<in> set (de_allowlist env) \<and>
    (at_state a = A_RUNNING \<longrightarrow> started_scopes (dr_id r) (at_id a) s = [scope]) \<and>
    (\<exists>v \<in> set (d_reservations s). rv_released_at v = None \<and> rv_candidate_id v = ap_candidate_id p \<and> rv_slot_id v = ic_slot_id i) \<and>
    permit = \<lparr>sp_binding = \<lparr>bi_requestId = ap_request_id p, bi_candidateId = ap_candidate_id p, bi_generation = ap_generation p,
      bi_attemptId = ap_attempt_id p, bi_incarnationId = ap_incarnation_id p\<rparr>, sp_scope = scope, sp_issuedAt = de_now env,
      sp_expiresAt = de_now env + 5000\<rparr>"
proof -
  obtain x prof where l: "lock_attempt s (ap_request_id p) (ap_candidate_id p) (ap_attempt_id p) = Inr x"
    and checks: "verifyProof env actor p x = Inr ()" "validScope scope x = Inr ()" "active_attempt x" "de_enabled env"
      "dr_product_id (lk_r x) \<in> set (de_allowlist env)" "dr_state (lk_r x) \<in> {D_CLAIMED, D_RUNNING}"
      "at_state (lk_a x) \<in> {A_CLAIMED, A_RUNNING}" "\<not> lease_over env (lk_a x)"
    and rights: "authorize_attempt env actor x Op_start s = Inr prof" "\<not> overrun env (lk_a x) prof"
    and recorded: "at_state (lk_a x) = A_RUNNING \<longrightarrow> verifyRecordedScope x scope s = Inr ()"
    and permit: "permit = \<lparr>sp_binding = \<lparr>bi_requestId = dr_id (lk_r x), bi_candidateId = ca_id (lk_c x), bi_generation = ca_generation (lk_c x),
       bi_attemptId = at_id (lk_a x), bi_incarnationId = at_incarnation_id (lk_a x)\<rparr>, sp_scope = scope, sp_issuedAt = de_now env,
       sp_expiresAt = de_now env + 5000\<rparr>"
    using start_checks [OF assms(2)] .
  have rows: "find_request (ap_request_id p) s = Some (lk_r x)" "find_candidate (ap_candidate_id p) s = Some (lk_c x)"
      "find_attempt (ap_attempt_id p) s = Some (lk_a x)" "find_incarnation (at_incarnation_id (lk_a x)) s = Some (lk_i x, lk_s x)"
      "ca_request_id (lk_c x) = ap_request_id p" "at_candidate_id (lk_a x) = ap_candidate_id p"
    using l by (auto simp: lock_attempt_def split: option.splits if_splits)
  have ids: "dr_id (lk_r x) = ap_request_id p" "ca_id (lk_c x) = ap_candidate_id p" "at_id (lk_a x) = ap_attempt_id p"
    using find_requestD [OF rows(1)] find_candidateD [OF rows(2)] find_attemptD [OF rows(3)] by simp_all
  have proof_ok: "ap_generation p = ca_generation (lk_c x)" "ap_incarnation_id p = at_incarnation_id (lk_a x)"
      "da_userId actor = sl_owner_user_id (lk_s x)" "credentialMatches env (ap_credential p) (at_credential_hash (lk_a x))"
    using checks(1) by (simp_all add: verifyProof_def split: if_splits)
  have active: "dr_generation (lk_r x) = ca_generation (lk_c x)" "ic_slot_id (lk_i x) = ca_reserved_slot_id (lk_c x)" "at_revoked_at (lk_a x) = None"
    using checks(3) by (simp_all add: active_attempt_def)
  have scope: "ru_bootId scope = ic_boot_id (lk_i x)" "ru_imageDigest scope = is_image_digest (ic_scope (lk_i x))"
      "ru_profileSha256 scope = is_profile_sha256 (ic_scope (lk_i x))"
    using checks(2) by (simp_all add: validScope_def split: if_splits)
  have lease: "\<exists>t. at_heartbeat_at (lk_a x) = Some t \<and> de_now env - t < lease_ms"
    using checks(8) by (auto simp: lease_over_def split: option.splits)
  have scopes: "at_state (lk_a x) = A_RUNNING \<longrightarrow> started_scopes (dr_id (lk_r x)) (at_id (lk_a x)) s = [scope]"
    using recorded by (auto simp: verifyRecordedScope_def split: if_splits)
  have slot: "\<exists>v \<in> set (d_reservations s). rv_released_at v = None \<and> rv_candidate_id v = ap_candidate_id p \<and> rv_slot_id v = ic_slot_id (lk_i x)"
    using attempt_has_slot [OF assms(1) rows(3), of "lk_c x"] checks(7) rows(2,6) active(2) by (auto simp: ended_attempt_def)
  show ?thesis
    by (intro exI [of _ "lk_r x"] exI [of _ "lk_c x"] exI [of _ "lk_a x"] exI [of _ "lk_i x"] exI [of _ "lk_s x"] conjI rows slot checks(4,5) scope lease scopes
      authorize_attempt_rights [OF rights(1)]) (use checks(7) proof_ok active permit ids in simp_all)
qed

end
