(* ===== verification/Dispatch_Samples.thy ===== *)
theory Dispatch_Samples
  imports Dispatch_Permits
begin

text \<open>
  A small dispatch service: one owner with one slot of the host route, one profile and one request, which is submitted,
  reserved, claimed and started. It shows that the hypotheses of the properties hold in real histories.
\<close>

definition sample_hash :: string where
  "sample_hash = replicate 64 CHR ''a''"

definition sample_grants :: grants where
  "sample_grants = \<lparr>g_tokens = [\<lparr>tk_id = ''tok'', tk_user_id = ''u'', tk_token_hash = ''h'', tk_revoked_at = None, tk_expires_at = None,
       tk_kind = TK_IMPLEMENTATION, tk_scoped_products = [], tk_scoped_repos = []\<rparr>],
     g_users = [(''u'', False)], g_admins = [], g_products = [\<lparr>gp_id = ''p'', gp_user_id = ''u'', gp_repo_url = None\<rparr>], g_members = [],
     g_reply_addresses = [(''u'', ''box'')]\<rparr>"

definition sample_dispatch_env :: "time \<Rightarrow> dispatch_env" where
  "sample_dispatch_env now = \<lparr>de_now = now, de_enabled = True, de_allowlist = [''p''], de_grants = sample_grants, de_sha256 = (\<lambda>_. sample_hash),
     de_credential_keys = [(1, ''key'')], de_key_version = 1, de_hmac = (\<lambda>_ _. ''secret''),
     de_transition = (\<lambda>st e. if e = ''reject_unstarted'' then Some D_FAILED else Some D_RUNNING),
     de_job_config = (\<lambda>_ _. Some \<lparr>jc_model = ''m'', jc_thinking_budget = None, jc_runtime = CLAUDE\<rparr>), de_event_id = (\<lambda>n. replicate n CHR ''e''),
     de_limits = \<lparr>bl_artifact = 1000, bl_attempt = 1000, bl_stop_evidence = 1000, bl_output = 1000\<rparr>,
     de_parse_observation = (\<lambda>_. None), de_canonical_observation = (\<lambda>_. ''''), de_parse_attestation = (\<lambda>_. None), de_stop_key = ''__stop'',
     de_canonical_input = (\<lambda>_. ''input''), de_reply_uuid = (\<lambda>k. k), de_repository_sources = True\<rparr>"

definition sample_actor :: actor where
  "sample_actor = \<lparr>da_userId = ''u'', da_principalKey = ''bearer:u:tok'', da_tokenId = Some ''tok'', da_source = Bearer, da_scopedProducts = [],
     da_scopedRepos = [], da_tokenKind = Some TK_IMPLEMENTATION\<rparr>"

definition sample_dispatch_input :: dispatch_input where
  "sample_dispatch_input = \<lparr>di_product_id = ''p'', di_action = ''analysis'', di_task_id = None, di_access = ''read_only'', di_runtime = None,
     di_environment_keys = [], di_repository = None, di_publish = ''none'', di_review_documents = [], di_reply_to = ''box''\<rparr>"

definition sample_slot_config :: slot_config where
  "sample_slot_config = \<lparr>sc_runtime = CLAUDE, sc_product_ids = [''p''], sc_capabilities = [], sc_tier = None, sc_worker_instance_id = None\<rparr>"

definition sample_incarnation :: incarnation where
  "sample_incarnation = \<lparr>ic_id = ''i'', ic_slot_id = ''s'', ic_boot_id = ''boot'', ic_credential_hash = sample_hash, ic_last_seen_at = 1000,
     ic_signed_off_at = None, ic_busy = False, ic_scope = \<lparr>sc_runtime = CLAUDE, sc_product_ids = [''p''], sc_capabilities = [], sc_tier = None,
       sc_worker_instance_id = None, is_profile_revision_ids = [''f''], is_image_digest = ''img'', is_profile_sha256 = ''psha'', is_supervisor_token_id = ''tok''\<rparr>\<rparr>"

definition sample_profile :: dprofile where
  "sample_profile = \<lparr>pf_id = ''f'', pf_owner_user_id = ''u'', pf_config = \<lparr>pc_protocol = ''dispatch-v1'', pc_runtime = CLAUDE, pc_image_digest = ''img'',
     pc_actions = [''analysis''], pc_product_ids = [''p''], pc_access = ''read_only'', pc_publish_modes = [''none''], pc_environment_keys = [],
     pc_repository_product_ids = [], pc_max_duration_seconds = 600\<rparr>, pf_sha256 = ''psha'', pf_revoked_at = None\<rparr>"

definition sample_service :: dispatch where
  "sample_service = \<lparr>d_requests = [], d_candidates = [], d_reservations = [], d_attempts = [],
     d_slots = [\<lparr>sl_id = ''s'', sl_owner_user_id = ''u'', sl_token_id = ''tok'', sl_kind = Route_host, sl_address = None, sl_config = sample_slot_config, sl_enabled = True\<rparr>],
     d_slot_profiles = [(''s'', ''f'')], d_incarnations = [sample_incarnation], d_profiles = [sample_profile], d_results = [], d_artifacts = [],
     d_publications = [], d_events = [], d_outbox = [], d_ticks = [], d_workers = [], d_min_quota = [(''u'', None)], d_messages = [], d_doc_revisions = [],
     d_db = sample_db\<rparr>"

definition sample_submitted :: dispatch where
  "sample_submitted = fst (submitDispatch (sample_dispatch_env 1000) sample_actor sample_dispatch_input ''k1'' ''r1'' ''root1'' sample_service)"

text \<open>The preparation of the sources sets its time.\<close>

definition sample_prepared :: dispatch where
  "sample_prepared = set_request ''r1'' (\<lambda>r. r\<lparr>dr_sources_ready_at := Some 1500\<rparr>) sample_submitted"

definition sample_reserved :: dispatch where
  "sample_reserved = fst (reserveRequest (sample_dispatch_env 2000) (\<lambda>_. False) (\<lambda>_. False)
     \<lparr>dn_candidate = ''c1'', dn_reservation = ''v1'', dn_job = ''j1'', dn_result = ''x1''\<rparr> ''r1'' sample_prepared)"

definition sample_claimed :: dispatch where
  "sample_claimed = fst (claimDispatchAttempt (sample_dispatch_env 3000) (\<lambda>_. False) ''a1'' sample_actor ''i'' ''claim1'' ''session'' sample_reserved)"

definition sample_proof :: attempt_proof where
  "sample_proof = \<lparr>ap_request_id = ''r1'', ap_candidate_id = ''c1'', ap_generation = 1, ap_attempt_id = ''a1'', ap_incarnation_id = ''i'', ap_credential = ''secret''\<rparr>"

definition sample_scope :: runtime_scope where
  "sample_scope = \<lparr>ru_scopeId = ''scope1'', ru_bootId = ''boot'', ru_imageDigest = ''img'', ru_profileSha256 = ''psha''\<rparr>"

definition sample_started :: "dispatch \<times> (derror + start_permit)" where
  "sample_started = startDispatchAttempt (sample_dispatch_env 4000) sample_actor sample_proof sample_scope sample_claimed"

definition sample_cancelled :: dispatch where
  "sample_cancelled = fst (cancelDispatch (sample_dispatch_env 1200) sample_actor ''r1'' ''stop1'' ''1'' ''x1'' sample_submitted)"

section \<open>The history\<close>

lemma sample_fresh: "find_request ''r1'' sample_service = None" "find_candidate ''c1'' sample_prepared = None" "find_attempt ''a1'' sample_reserved = None"
  by code_simp+

lemma sample_contract: "transition_contract (sample_dispatch_env t)"
  by (simp add: transition_contract_def sample_dispatch_env_def)

lemma submitted_reachable: "dispatch_reachable sample_submitted"
  unfolding sample_submitted_def
  by (rule dispatch_reachable.step [OF dispatch_reachable.initial dispatch_step.submit [OF sample_fresh(1)]]) (simp add: no_requests_def sample_service_def)

lemma prepared_same: "same_core sample_submitted sample_prepared"
  using core_touch_request [of "\<lambda>r. r\<lparr>dr_sources_ready_at := Some 1500\<rparr>" "''r1''" sample_submitted]
    keys_sets(1) [of sample_submitted "''r1''" "\<lambda>r. r\<lparr>dr_sources_ready_at := Some 1500\<rparr>"]
  by (simp add: same_core_def same_keys_def sample_prepared_def core_request_of_def)

lemma prepared_reachable: "dispatch_reachable sample_prepared"
  by (rule dispatch_reachable.step [OF submitted_reachable dispatch_step.other [OF prepared_same]])

lemma reserve_sample: "dispatch_step sample_prepared sample_reserved"
  unfolding sample_reserved_def by (rule dispatch_step.reserve [OF sample_contract]) (simp add: sample_fresh)

lemma reserved_reachable: "dispatch_reachable sample_reserved"
  by (rule dispatch_reachable.step [OF prepared_reachable reserve_sample])

lemma claimed_reachable: "dispatch_reachable sample_claimed"
  unfolding sample_claimed_def by (rule dispatch_reachable.step [OF reserved_reachable dispatch_step.claim [OF sample_fresh(3)]])

lemma cancelled_reachable: "dispatch_reachable sample_cancelled"
  unfolding sample_cancelled_def by (rule dispatch_reachable.step [OF submitted_reachable dispatch_step.cancel])

section \<open>Its rows, by evaluation\<close>

lemma reserved_rows: "map (\<lambda>v. (rv_candidate_id v, rv_slot_id v, rv_released_at v)) (d_reservations sample_reserved) = [(''c1'', ''s'', None)]"
  by code_simp

lemma claimed_rows:
  "map (\<lambda>a. (at_id a, at_candidate_id a, at_stopped_at a, at_state a)) (d_attempts sample_claimed) = [(''a1'', ''c1'', None, A_CLAIMED)]"
  by code_simp

lemma claimed_candidate: "map_option ca_request_id (find_candidate ''c1'' sample_claimed) = Some ''r1''"
  by code_simp

lemma claimed_version: "map_option (\<lambda>r. (dr_version r, dr_state r)) (find_request ''r1'' sample_claimed) = Some (3, D_CLAIMED)"
  by code_simp

lemma cancelled_version: "map_option (\<lambda>r. (dr_version r, dr_state r)) (find_request ''r1'' sample_cancelled) = Some (2, D_CANCELLED)"
  by code_simp

lemma started_permit: "map_sum id (\<lambda>k. (sp_issuedAt k, sp_expiresAt k)) (snd sample_started) = Inr (4000, 9000)"
  by code_simp

lemma one_row: "map f xs = [y] \<Longrightarrow> \<exists>x. xs = [x] \<and> f x = y"
  by auto

section \<open>Witnesses\<close>


lemma slot_reservations_exclusive_witness:
  "\<exists>c r. find_candidate ''c1'' sample_reserved = Some c \<and> open_candidate (ca_state c) \<and> ca_reserved_slot_id c = ''s'' \<and>
    find_request (ca_request_id c) sample_reserved = Some r \<and> ca_generation c = dr_generation r"
proof -
  obtain v where v: "d_reservations sample_reserved = [v]" "rv_candidate_id v = ''c1''" "rv_slot_id v = ''s''" "rv_released_at v = None"
    using one_row [OF reserved_rows] by auto
  then have "v \<in> set (d_reservations sample_reserved)" by simp
  from slot_reservations_exclusive [OF reserved_reachable this this v(4,4) refl] show ?thesis unfolding v(2,3) by blast
qed

lemma claimed_attempt:
  obtains a c where "a \<in> set (d_attempts sample_claimed)" "at_candidate_id a = ''c1''" "at_stopped_at a = None" "at_state a = A_CLAIMED"
    "d_attempts sample_claimed = [a]" "find_candidate ''c1'' sample_claimed = Some c" "ca_request_id c = ''r1''"
  using one_row [OF claimed_rows] claimed_candidate by auto

lemma one_attempt_at_a_time_witness: "\<exists>a c. d_attempts sample_claimed = [a] \<and> find_candidate (at_candidate_id a) sample_claimed = Some c \<and>
    ca_request_id c = ''r1'' \<and> at_stopped_at a = None \<and> (\<forall>b \<in> set (d_attempts sample_claimed). a = b)"
proof -
  obtain a c where a: "a \<in> set (d_attempts sample_claimed)" "at_candidate_id a = ''c1''" "at_stopped_at a = None" "at_state a = A_CLAIMED"
    "d_attempts sample_claimed = [a]" "find_candidate ''c1'' sample_claimed = Some c" "ca_request_id c = ''r1''" using claimed_attempt .
  have "a = b" if b: "b \<in> set (d_attempts sample_claimed)" for b
  proof (rule one_attempt_at_a_time [OF claimed_reachable a(1) b])
    show "at_stopped_at a = None \<or> \<not> ended_attempt (at_state a)" "at_stopped_at b = None \<or> \<not> ended_attempt (at_state b)"
      "find_candidate (at_candidate_id a) sample_claimed = Some c" "find_candidate (at_candidate_id b) sample_claimed = Some c"
      "ca_request_id c = ca_request_id c" using a b by auto
  qed
  then have "\<forall>b \<in> set (d_attempts sample_claimed). a = b" by blast
  with a(3,5,6,7) show ?thesis unfolding a(2) [symmetric] by blast
qed

lemma slot_held_until_stop_witness: "\<exists>v \<in> set (d_reservations sample_claimed). rv_released_at v = None \<and> rv_candidate_id v = ''c1''"
proof -
  obtain a where a: "a \<in> set (d_attempts sample_claimed)" "at_candidate_id a = ''c1''" "at_stopped_at a = None" using claimed_attempt .
  from slot_held_until_stop [OF claimed_reachable a(1)] a(2,3) show ?thesis by simp
qed

lemma versions_published_once_witness: "map fst (published ''r1'' (d_outbox sample_claimed)) = [1, 2, 3] \<and> snd (last (published ''r1'' (d_outbox sample_claimed))) = D_CLAIMED"
proof -
  obtain r where r: "find_request ''r1'' sample_claimed = Some r" "dr_version r = 3" "dr_state r = D_CLAIMED" using claimed_version by auto
  have "[1::nat..<4] = [1, 2, 3]" by code_simp
  then show ?thesis using versions_published_once [OF claimed_reachable r(1)] r(2,3) by simp
qed

definition sample_cancelled_again :: dispatch where
  "sample_cancelled_again = fst (cancelDispatch (sample_dispatch_env 1300) sample_actor ''r1'' ''stop2'' ''2'' ''x2'' sample_cancelled)"

lemma cancelled_again: "dispatch_step sample_cancelled sample_cancelled_again"
  unfolding sample_cancelled_again_def by (rule dispatch_step.cancel)

lemma finished_requests_final_witness: "\<exists>r'. find_request ''r1'' sample_cancelled_again = Some r' \<and> dr_state r' = D_CANCELLED \<and> dr_version r' = 2"
proof -
  obtain r where r: "find_request ''r1'' sample_cancelled = Some r" "dr_version r = 2" "dr_state r = D_CANCELLED" using cancelled_version by auto
  then have "terminal_state (dr_state r)" by (simp add: terminal_state_def)
  from finished_requests_final [OF cancelled_reachable r(1) this r_into_rtranclp] cancelled_again show ?thesis unfolding r(2,3) by blast
qed

lemma start_permit_sound_witness:
  "\<exists>s' k v. startDispatchAttempt (sample_dispatch_env 4000) sample_actor sample_proof sample_scope sample_claimed = (s', Inr k) \<and>
    sp_issuedAt k = 4000 \<and> sp_expiresAt k = 9000 \<and> v \<in> set (d_reservations sample_claimed) \<and> rv_released_at v = None \<and> rv_candidate_id v = ''c1''"
proof -
  obtain s' y where y: "startDispatchAttempt (sample_dispatch_env 4000) sample_actor sample_proof sample_scope sample_claimed = (s', y)" by fastforce
  with started_permit obtain k where k: "y = Inr k" unfolding sample_started_def by (cases y) simp_all
  from y have r: "startDispatchAttempt (sample_dispatch_env 4000) sample_actor sample_proof sample_scope sample_claimed = (s', Inr k)" unfolding k .
  have c: "ap_candidate_id sample_proof = ''c1''" "de_now (sample_dispatch_env 4000) = 4000" by (simp_all add: sample_proof_def sample_dispatch_env_def)
  obtain v where v: "v \<in> set (d_reservations sample_claimed)" "rv_released_at v = None" "rv_candidate_id v = ''c1''"
    and p: "sp_issuedAt k = 4000" "sp_expiresAt k = 4000 + 5000"
    using start_permit_sound [OF claimed_reachable r] unfolding c by force
  from p(2) have "sp_expiresAt k = 9000" by simp
  with r p(1) v show ?thesis by blast
qed

text \<open>The capacity of the owner's slot, before anything is reserved.\<close>

definition sample_capacity :: "derror + dprofile list \<times> registered_slot list" where
  "sample_capacity = loadRegisteredCapacity (sample_dispatch_env 2000) sample_prepared (the (find_request ''r1'' sample_prepared))"

lemma sample_pools:
  "map_sum id (\<lambda>(profiles, slots). map (\<lambda>p. (ep_route p, ep_slotIds p)) (eligibleExecutors (the (find_request ''r1'' sample_prepared)) profiles slots 2000))
     sample_capacity = Inr [(Route_host, [''s''])]"
  by code_simp

lemma eligible_pool_sound_witness:
  "\<exists>sl i. sl \<in> set (d_slots sample_prepared) \<and> sl_id sl = ''s'' \<and> sl_enabled sl \<and> sl_kind sl = Route_host \<and>
    live_incarnation sample_prepared ''s'' = Some i \<and> \<not> open_reservation sample_prepared ''s''"
proof -
  obtain profiles slots p where c: "sample_capacity = Inr (profiles, slots)"
    and e: "eligibleExecutors (the (find_request ''r1'' sample_prepared)) profiles slots 2000 = [p]" "ep_route p = Route_host" "ep_slotIds p = [''s'']"
  proof (cases sample_capacity)
    case (Inl e)
    show ?thesis using sample_pools unfolding Inl by simp
  next
    case (Inr y)
    obtain profiles slots where y: "y = (profiles, slots)" by fastforce
    have "map (\<lambda>p. (ep_route p, ep_slotIds p)) (eligibleExecutors (the (find_request ''r1'' sample_prepared)) profiles slots 2000) = [(Route_host, [''s''])]"
      using sample_pools unfolding Inr y by simp
    from one_row [OF this] that [OF Inr [unfolded y]] show ?thesis by auto
  qed
  have now: "de_now (sample_dispatch_env 2000) = 2000" by (simp add: sample_dispatch_env_def)
  have p: "p \<in> set (eligibleExecutors (the (find_request ''r1'' sample_prepared)) profiles slots (de_now (sample_dispatch_env 2000)))"
    unfolding now e(1) by simp
  have k: "''s'' \<in> set (ep_slotIds p)" by (simp add: e(3))
  from eligible_pool_sound [OF c [unfolded sample_capacity_def] p k] show ?thesis unfolding e(2) by blast
qed


end
