(* ===== verification/Spec2Isabelle.thy ===== *)
theory Spec2Isabelle
  imports Prelude Flow_Machines Job_Types Samples Verify_Gate Status_Propagation Managed_Jobs
    Job_Locks Flow_Effects Job_Eligibility Claim_Register Repo_Roots Job_Claim Job_Claim_Laws
    Harness_Cost Service_State Deploy_Jobs Job_Delivery Job_Endings Pbi_Cascade Job_Status
    Job_Status_Laws Job_Status_Props Job_Status_Keys Access Queue_Model Queue_Claims Queue_Finish
    Queue_Receive Queue_Receive_Laws Queue_Archive Queue_Presence Queue_Push Queue_Push_Laws
    Queue_Views Queue_Marked Queue_Marked_Laws Queue_History Queue_System Queue_Leases
    Queue_Samples Json_Text Dispatch_Auth Dispatch_Model Dispatch_Capacity Dispatch_Lifecycle Dispatch_Selection
    Dispatch_Attempts Dispatch_Leases Dispatch_Stops Dispatch_Requests Dispatch_Recovery
    Dispatch_Core Dispatch_Core_Laws Dispatch_Refine Dispatch_Sim Dispatch_Sim_Start
    Dispatch_Sim_Claim Dispatch_Sim_Run Dispatch_Sim_End Dispatch_Sim_Close Dispatch_System
    Dispatch_Permits Dispatch_Samples
begin

text \<open>
  Verification library of the scrum4me server (\<open>src/\<close>, TypeScript).

  \<^bold>\<open>The program.\<close> The server gives agents the tools of a planning system over MCP. Its own logic
  has four parts. (1) \<^emph>\<open>Jobs\<close>: \<open>wait_for_job\<close> hands a queued job to one worker at a time, \<open>update_job_status\<close> records how it ended
  and drives everything that follows: the roll-up of the statuses of task, story, PBI, sprint and run, the delivery of the
  work as a pull request, deploy jobs, the cascade of a failed PBI and the stored costs. (2) \<^emph>\<open>Flows\<close>: pure state machines of a pull
  request, a sprint run and a worktree lease, whose effects an executor turns into rows. (3) \<^emph>\<open>The message queue\<close> between agents: push,
  claim, reply, finish, archive, presence, leases with a sweep, and a fenced route for runs. (4) \<^emph>\<open>Managed dispatch\<close>: requests that
  the service itself assigns to registered executors.

  \<^bold>\<open>Shared ground.\<close> \<open>Prelude\<close> has identifiers, truthiness, string methods, tables as lists of rows with the Prisma calls made on
  them, errors as values of a sum (\<open>Inl\<close> the error) and the collections \<open>table_simps\<close> etc. \<open>Job_Types\<close> has the enums and rows of
  \<open>prisma/schema.prisma\<close> for jobs, tasks, stories, PBIs, sprints and runs, in the record \<open>db\<close>; \<open>Samples\<close> a small database for
  the witnesses. \<open>Claim_Register\<close> is the contract of exclusive claims with fenced releases, a locale that \<open>Job_Claim\<close>
  interprets on the jobs table and \<open>Queue_Claims\<close> on the message table.

  \<^bold>\<open>Jobs.\<close> \<open>Job_Eligibility\<close> (\<open>dispatch/eligibility.ts\<close>): the predicates of the contract, their SQL counterparts and proof that both agree.
  \<open>Managed_Jobs\<close> (\<open>dispatch/managed-job.ts\<close>): guards and the matcher of refusals over an explicit heap of error objects. \<open>Repo_Roots\<close>,
  \<open>Job_Locks\<close> (\<open>git/file-lock.ts\<close>, worktree locks taken in sorted order, no deadlock), \<open>Job_Claim\<close> with \<open>Job_Claim_Laws\<close>
  (\<open>tools/wait-for-job.ts\<close>: \<open>tryClaimJob\<close>, \<open>rollbackClaim\<close>, \<open>resetStaleClaimedJobs\<close>). \<open>Verify_Gate\<close> (\<open>verify/gate.ts\<close>),
  \<open>Status_Propagation\<close> (\<open>lib/tasks-status-update.ts\<close>, with a locale of roll-up decisions interpreted at three levels), \<open>Harness_Cost\<close>
  (\<open>lib/harness-cost.ts\<close>, decimal parsing at its integer bounds). \<open>Service_State\<close> is the world of the handlers after a job ended: the database
  with forge, files, costs, log; on it \<open>Deploy_Jobs\<close> (\<open>lib/dispatch/deploy-job.ts\<close>, \<open>sprint-batch-deploy.ts\<close>, \<open>release-deploy.ts\<close>),
  \<open>Job_Delivery\<close>, \<open>Job_Endings\<close> and \<open>Job_Status\<close> (\<open>tools/update-job-status.ts\<close>), \<open>Pbi_Cascade\<close> (\<open>cancel/pbi-cascade.ts\<close>). \<open>Job_Status_Laws\<close> has the
  locale \<open>handler_invariant\<close>: a property kept by each phase is kept by the whole handler; it is interpreted for the costs, the
  job's row, the confinement of a HARNESS job and, in \<open>Job_Status_Keys\<close>, the primary keys. \<open>Job_Status_Props\<close> has the handler's properties.

  \<^bold>\<open>Flows.\<close> \<open>Flow_Machines\<close> (\<open>flow/pr-flow.ts\<close>, \<open>sprint-run.ts\<close>, \<open>worktree-lease.ts\<close>): three transition functions and the locale
  \<open>flow_machine\<close> interpreted on each; \<open>Flow_Effects\<close> (\<open>flow/effects.ts\<close>): the executor of their effects on the database.

  \<^bold>\<open>Access.\<close> \<open>Access\<close> (\<open>auth.ts\<close>, \<open>access.ts\<close>): token of a request, its scope, and who may read or write a product or a job.

  \<^bold>\<open>Queue\<close> (\<open>queue/\<close>, \<open>tools/queue-*.ts\<close>). \<open>Queue_Model\<close>: message rows, envelopes, lease register, identity. \<open>Queue_Claims\<close>: FIFO claim, claim of
  replies, rollback, refresh and sweep. \<open>Queue_Finish\<close>, \<open>Queue_Receive\<close>, \<open>Queue_Push\<close>, \<open>Queue_Archive\<close>, \<open>Queue_Presence\<close>, \<open>Queue_Views\<close>, \<open>Queue_Marked\<close>:
  the tools, whole handlers. \<open>Queue_Receive_Laws\<close>, \<open>Queue_Push_Laws\<close>, \<open>Queue_Marked_Laws\<close>: their properties. \<open>Queue_History\<close> reduces any action of any process to a
  step relation on single rows; \<open>Queue_System\<close> and \<open>Queue_Leases\<close> prove by rule induction over histories of several processes what holds in
  every reachable state: finished messages stay finished, one reply per request, no message to two claimants, live claims kept.
  \<open>Queue_Samples\<close> evaluates the hypotheses on a small queue.

  \<^bold>\<open>Managed dispatch\<close> (\<open>dispatch/\<close>). \<open>Dispatch_Auth\<close> (\<open>auth.ts\<close>): actors refreshed against the rows of the day and the rights of each operation.
  \<open>Dispatch_Model\<close>: the tables \<open>queue_dispatch_*\<close> in the record \<open>dispatch\<close>, what the code gets from elsewhere in \<open>dispatch_env\<close>, events, a transition with its
  version and outbox row, the authority to run again. \<open>Json_Text\<close>: the canonical text of a JSON value. \<open>Dispatch_Capacity\<close> (\<open>eligibility.ts\<close>,
  \<open>selection.ts\<close>, \<open>job-adapter.ts\<close>): the registered slots, the pools that can serve a request, the job of the job route. Then the operations, each a
  function of the whole state: \<open>Dispatch_Lifecycle\<close> (\<open>lifecycle.ts\<close>, \<open>task-status.ts\<close>, \<open>sources.ts\<close>: results, the end of an attempt, rejection),
  \<open>Dispatch_Selection\<close> (reservation and its retirement), \<open>Dispatch_Attempts\<close> and \<open>Dispatch_Leases\<close> (\<open>attempts.ts\<close>: claim; start, renewal, reconciliation, sweep),
  \<open>Dispatch_Stops\<close> (\<open>stop-evidence.ts\<close>, \<open>orphans.ts\<close>), \<open>Dispatch_Requests\<close> (\<open>requests.ts\<close>, \<open>cancel.ts\<close>, \<open>completion.ts\<close>), \<open>Dispatch_Recovery\<close> (\<open>recovery.ts\<close>).
  \<open>Dispatch_Core\<close> states what the service promises without its tables: eight steps on requests, candidates, attempts and open reservations and an
  invariant; \<open>Dispatch_Core_Laws\<close> proves that every step keeps it. \<open>Dispatch_Refine\<close> reads the tables as such a state and shows what the building
  blocks of the operations do to it. \<open>Dispatch_Sim\<close> and the theories \<open>Dispatch_Sim_Start\<close> (intake, rejection, reservation, retirement), \<open>_Claim\<close>, \<open>_Run\<close> (start,
  renewal, reconciliation, sweep), \<open>_End\<close> (stops) and \<open>_Close\<close> (results, cancellation, recovery) show operation by operation that what it does to the tables
  is a sequence of abstract steps. \<open>Dispatch_System\<close> puts them together: \<open>dispatch_step\<close> is any operation by any caller at any time, or a change of
  columns the abstraction does not read, \<open>dispatch_reachable\<close> the states they lead to, and the locale \<open>core_service\<close> the contract with the abstract
  service, interpreted on the tables; from it follow the exclusive slots and attempts, the capacity held until a stop, the published versions and the
  finality of finished requests. Two things are assumed of a step: the ids it draws are new, and a stop sent again is not one of an
  earlier attempt while a newer one is asked to stop (\<open>stale_stop\<close>; the code lacks this check). \<open>Dispatch_Permits\<close> says who gets a permit to start.
  \<open>Dispatch_Samples\<close> runs a small service from submission to a permit and holds the witnesses.

  \<^bold>\<open>Modelling decisions.\<close> A handler is a function of the state and of an environment record with what the code gets from elsewhere: the clock, drawn
  ids, configuration, and the answers of git and the forge. A database transaction is one step of the model; that concurrent
  transactions exclude each other on the rows they lock is PostgreSQL's contract, and \<open>SKIP LOCKED\<close> is a parameter that says which
  rows are locked. An exception rolls a transaction back. Waiting loops take the list of wake-ups as argument, each with the time it
  comes; the loop ends at the end of the list or of the wait. Names of \<open>@shared\<close> (a git submodule that is not part of the repository:
  queue identities, the transition contract and schemas of dispatch) are parameters with their documented laws as named hypotheses.

  \<^bold>\<open>Bounds.\<close> The numbers of the code are written out: leases of jobs of five minutes and the reclaim of messages after the interval of the
  claim, two retries of a stale job, 64 characters and 18 digits of a reported amount, page and wait limits of the queue tools, attempt
  leases of 120 seconds and rows of 25 per tick. No recursion needs fuel: the walk along the causes of an error, the closure
  of the archive and the draining of replies are functions with a termination proof (what is still unseen shrinks), the rest is structural.

  \<^bold>\<open>Not modelled.\<close> Input and output of git, forge and HTTP; the LISTEN connection; timers (rounds of the sweep and of the refresh happen at any time in a
  history); zod schemas of tool arguments (arguments are typed); signatures; transcripts of other programs and token prices; tools that write or read one
  row of ideas, stories, notes, issues or documents; prompts and scripts. The column that orders two messages of one instant is their position.
\<close>

end
